(* ===== verification/Prelude.thy ===== *)
theory Prelude
  imports Complex_Main "HOL-Library.Word" "HOL-Library.Sublist"
begin

text \<open>
  Generic material shared by the components: the development's \<^theory_text>\<open>named_theorems\<close>
  collections, lists read from their end (windows of the most recent elements), and the locale of
  state machines that keep a quantity unchanged, which the accounting of the back-test engine
  instantiates.
\<close>

named_theorems f64_simps \<open>evaluation of floating-point operations on closed values\<close>
named_theorems engine_ops \<open>definitions of the engine's per-bar handlers\<close>
named_theorems tf_simps \<open>evaluation of timeframe operations\<close>

subsection \<open>The most recent elements of a list\<close>

definition last_n :: "nat \<Rightarrow> 'a list \<Rightarrow> 'a list" where
  "last_n n xs = drop (length xs - n) xs"

lemma length_last_n [simp]: "length (last_n n xs) = min n (length xs)"
  by (simp add: last_n_def)

lemma last_n_Nil [simp]: "last_n n [] = []"
  by (simp add: last_n_def)

lemma last_n_all [simp]: "length xs \<le> n \<Longrightarrow> last_n n xs = xs"
  by (simp add: last_n_def)

lemma set_last_n: "set (last_n n xs) \<subseteq> set xs"
  by (simp add: last_n_def set_drop_subset)

lemma last_n_snoc: "last_n n (last_n n xs @ [x]) = last_n n (xs @ [x])"
  by (cases "n \<le> length xs") (simp_all add: last_n_def Suc_diff_le)

lemma last_n_snoc_full: "0 < n \<Longrightarrow> n \<le> length xs \<Longrightarrow> last_n n (xs @ [x]) = tl (last_n n xs) @ [x]"
  by (simp add: last_n_def Suc_diff_le tl_drop drop_Suc)

lemma nth_last_n: "i < min n (length xs) \<Longrightarrow> last_n n xs ! i = xs ! (length xs - min n (length xs) + i)"
  by (simp add: last_n_def min_def)

text \<open>Positions of a window of a circular buffer do not collide.\<close>

lemma mod_neq_window:
  fixes p L n :: nat
  assumes "L < p + n" "p < L"
  shows "p mod n \<noteq> L mod n"
proof
  assume "p mod n = L mod n"
  then have "n dvd L - p" using assms(2) mod_eq_dvd_iff_nat [of p L n] by simp
  then show False using assms dvd_imp_le [of n "L - p"] by linarith
qed

subsection \<open>Machines that keep a quantity\<close>

text \<open>
  A machine whose every step keeps a value \<open>quantity\<close> under an invariant keeps it over any run.
  The steps are a function of an event; the runs are folds over a list of events.
\<close>

locale conserving_machine =
  fixes step :: "'e \<Rightarrow> 's \<Rightarrow> 's"
    and invar :: "'s \<Rightarrow> bool"
    and quantity :: "'s \<Rightarrow> 'q"
  assumes step_invar: "invar s \<Longrightarrow> invar (step e s)"
    and step_quantity: "invar s \<Longrightarrow> quantity (step e s) = quantity s"
begin

lemma run_invar: "invar s \<Longrightarrow> invar (fold step es s)"
  by (induction es arbitrary: s) (auto simp: step_invar)

lemma run_quantity: "invar s \<Longrightarrow> quantity (fold step es s) = quantity s"
  by (induction es arbitrary: s) (auto simp: step_invar step_quantity)

end

subsection \<open>Machines that summarise their input\<close>

text \<open>
  A machine that is pushed one element at a time and whose state represents the elements pushed so
  far, oldest first: rings, sliding extremes, smoothers, indicators and tapes all are.
\<close>

locale history_machine =
  fixes push :: "'v \<Rightarrow> 's \<Rightarrow> 's"
    and repr :: "'v list \<Rightarrow> 's \<Rightarrow> bool"
  assumes repr_push: "repr h s \<Longrightarrow> repr (h @ [v]) (push v s)"
begin

lemma repr_fold: "repr h s \<Longrightarrow> repr (h @ vs) (fold push vs s)"
proof (induction vs arbitrary: h s)
  case (Cons v vs)
  from Cons.IH [OF repr_push [OF Cons.prems, of v]] show ?case by simp
qed simp

lemma repr_run: "repr [] s \<Longrightarrow> repr vs (fold push vs s)"
  using repr_fold [of "[]"] by simp

end

end
