(* ===== verification/Float64.thy ===== *)
theory Float64
  imports Prelude "HOL-Library.Log_Nat"
begin

text \<open>
  The numbers of the program. Go's \<open>float64\<close> is IEEE-754 binary64: here a value is a NaN, an
  infinity, the negative zero or a rational number (\<open>Fin 0\<close> is the positive zero), and every
  arithmetic operation is the exact rational operation followed by the rounding \<open>rnd\<close> to nearest,
  ties to even, with gradual underflow at the exponent -1022 and overflow to an infinity at
  \<open>2^1024\<close>. No fused multiply-add is modelled: every operation rounds, as on amd64. Go's
  \<open>int64\<close> is a \<open>64 word\<close> read as two's complement.
\<close>

section \<open>Rounding to nearest, ties to even\<close>

definition pow2 :: "int \<Rightarrow> rat" where
  "pow2 k = (if 0 \<le> k then 2 ^ nat k else 1 / 2 ^ nat (- k))"

definition ilog2 :: "rat \<Rightarrow> int" where
  "ilog2 q = (case quotient_of q of (n, d) \<Rightarrow>
     let e = bitlen n - bitlen d in if pow2 e \<le> q then e else e - 1)"

definition rne :: "rat \<Rightarrow> int" where
  "rne x =
     (let f = \<lfloor>x\<rfloor>; r = x - of_int f
      in if r < 1 / 2 then f else if r > 1 / 2 then f + 1 else if even f then f else f + 1)"

datatype f64 = NaN | PInf | NInf | NZero | Fin rat

definition ulp :: "rat \<Rightarrow> rat" where
  "ulp q = pow2 (max (ilog2 \<bar>q\<bar>) (-1022) - 52)"

definition nearest :: "rat \<Rightarrow> rat" where
  "nearest q = (if q = 0 then 0 else of_int (rne (q / ulp q)) * ulp q)"

definition rnd :: "rat \<Rightarrow> f64" where
  "rnd q =
     (let r = nearest q
      in if r \<ge> pow2 1024 then PInf
         else if r \<le> - pow2 1024 then NInf
         else if r = 0 \<and> q < 0 then NZero
         else Fin r)"

subsection \<open>Powers of two\<close>

lemma pow2_powi: "pow2 k = 2 powi k"
  by (simp add: pow2_def power_int_def field_simps)

lemma pow2_pos [simp]: "0 < pow2 k"
  by (simp add: pow2_powi)

lemma pow2_nonneg [simp]: "0 \<le> pow2 k"
  by (simp add: less_imp_le)

lemma pow2_nz [simp]: "pow2 k \<noteq> 0"
  by (simp add: less_imp_neq [THEN not_sym])

lemma pow2_not_le_0 [simp]: "\<not> pow2 k \<le> 0"
  by (simp add: not_le)

lemma pow2_0 [simp]: "pow2 0 = 1"
  by (simp add: pow2_def)

lemma pow2_add: "pow2 (a + b) = pow2 a * pow2 b"
  by (simp add: pow2_powi power_int_add)

lemma pow2_diff: "pow2 (a - b) = pow2 a / pow2 b"
  by (simp add: pow2_powi power_int_diff)

lemma pow2_minus: "pow2 (- a) = 1 / pow2 a"
  using pow2_diff [of 0 a] by simp

lemma pow2_mono: "a \<le> b \<Longrightarrow> pow2 a \<le> pow2 b"
  by (simp add: pow2_powi power_int_increasing)

lemma pow2_strict_mono: "a < b \<Longrightarrow> pow2 a < pow2 b"
  by (simp add: pow2_powi power_int_strict_increasing)

lemma pow2_le_iff [simp]: "pow2 a \<le> pow2 b \<longleftrightarrow> a \<le> b"
  by (meson pow2_mono pow2_strict_mono linorder_not_less)

lemma pow2_less_iff [simp]: "pow2 a < pow2 b \<longleftrightarrow> a < b"
  by (meson pow2_mono pow2_strict_mono linorder_not_less)

lemma pow2_nat: "pow2 (int n) = 2 ^ n"
  by (simp add: pow2_def)

lemma pow2_of_int: "0 \<le> k \<Longrightarrow> pow2 k = of_int (2 ^ nat k)"
  by (simp add: pow2_def)

lemma pow2_le_of_int: "0 \<le> k \<Longrightarrow> pow2 k \<le> of_int n \<longleftrightarrow> 2 ^ nat k \<le> n"
  by (simp only: pow2_of_int of_int_le_iff)

lemma of_int_less_pow2: "0 \<le> k \<Longrightarrow> of_int n < pow2 k \<longleftrightarrow> n < 2 ^ nat k"
  by (simp only: pow2_of_int of_int_less_iff)

subsection \<open>The binary logarithm\<close>

lemma ilog2_bounds:
  assumes "0 < q"
  shows "pow2 (ilog2 q) \<le> q" and "q < pow2 (ilog2 q + 1)"
proof -
  obtain n d where nd: "quotient_of q = (n, d)" by force
  have d: "0 < d" using nd by (rule quotient_of_denom_pos)
  have q: "q = of_int n / of_int d" using nd by (rule quotient_of_div)
  have n: "0 < n" using assms d by (simp add: q zero_less_divide_iff)
  define e where "e = bitlen n - bitlen d"
  have bn: "0 < bitlen n" and bd: "0 < bitlen d"
    using n d bitlen_nonneg [of n] bitlen_nonneg [of d] bitlen_eq_zero_iff [of n]
      bitlen_eq_zero_iff [of d] by linarith+
  have n1: "2 ^ nat (bitlen n - 1) \<le> n \<and> n < 2 ^ nat (bitlen n)"
    by (rule bitlen_bounds [OF n])
  have d1: "2 ^ nat (bitlen d - 1) \<le> d \<and> d < 2 ^ nat (bitlen d)"
    by (rule bitlen_bounds [OF d])
  have nl: "pow2 (bitlen n - 1) \<le> of_int n" and nu: "of_int n < pow2 (bitlen n)"
    and dl: "pow2 (bitlen d - 1) \<le> of_int d" and du: "of_int d < pow2 (bitlen d)"
    using n1 d1 bn bd by (simp_all add: pow2_le_of_int of_int_less_pow2)
  have up: "q < pow2 (e + 1)"
  proof -
    have "pow2 (e + 1) * of_int d \<ge> pow2 (e + 1) * pow2 (bitlen d - 1)"
      using dl by simp
    moreover have "pow2 (e + 1) * pow2 (bitlen d - 1) = pow2 (bitlen n)"
      by (simp add: e_def flip: pow2_add)
    ultimately show ?thesis using nu d by (simp add: q divide_less_eq)
  qed
  have low: "pow2 (e - 1) \<le> q"
  proof -
    have "pow2 (e - 1) * of_int d \<le> pow2 (e - 1) * pow2 (bitlen d)"
      using du by simp
    moreover have "pow2 (e - 1) * pow2 (bitlen d) = pow2 (bitlen n - 1)"
      by (simp add: e_def flip: pow2_add)
    ultimately show ?thesis using nl d by (simp add: q le_divide_eq)
  qed
  show "pow2 (ilog2 q) \<le> q" and "q < pow2 (ilog2 q + 1)"
    using up low by (auto simp: ilog2_def nd Let_def e_def [symmetric])
qed

lemma ilog2_eqI: "pow2 e \<le> q \<Longrightarrow> q < pow2 (e + 1) \<Longrightarrow> ilog2 q = e"
proof -
  assume a: "pow2 e \<le> q" and b: "q < pow2 (e + 1)"
  have q: "0 < q" using a pow2_pos less_le_trans by blast
  have "e < ilog2 q + 1" using a ilog2_bounds(2) [OF q] by (meson le_less_trans pow2_less_iff)
  moreover have "ilog2 q < e + 1" using b ilog2_bounds(1) [OF q] by (meson le_less_trans pow2_less_iff)
  ultimately show ?thesis by simp
qed

lemma ilog2_mono:
  assumes "0 < p" and "p \<le> q"
  shows "ilog2 p \<le> ilog2 q"
proof -
  have "pow2 (ilog2 p) < pow2 (ilog2 q + 1)"
    using ilog2_bounds(1) [OF assms(1)] ilog2_bounds(2) [of q] assms by linarith
  then show ?thesis by simp
qed


subsection \<open>Rounding to an integer\<close>

lemma rne_of_int [simp]: "rne (of_int n) = n"
  by (simp add: rne_def)

lemma rne_bounds: "of_int (rne x) \<le> x + 1 / 2" "x - 1 / 2 \<le> of_int (rne x)"
  by (auto simp: rne_def Let_def) linarith+

lemma rne_mono:
  assumes "x \<le> y"
  shows "rne x \<le> rne y"
proof (cases "\<lfloor>x\<rfloor> = \<lfloor>y\<rfloor>")
  case True
  then show ?thesis using assms by (auto simp: rne_def Let_def)
next
  case False
  then have "\<lfloor>x\<rfloor> + 1 \<le> \<lfloor>y\<rfloor>" using floor_mono [OF assms] by linarith
  moreover have "rne x \<le> \<lfloor>x\<rfloor> + 1" and "\<lfloor>y\<rfloor> \<le> rne y" by (auto simp: rne_def Let_def)
  ultimately show ?thesis by linarith
qed

lemma rne_minus: "rne (- x) = - rne x"
proof (cases "x = of_int \<lfloor>x\<rfloor>")
  case True
  then have "rne (- x) = rne (of_int (- \<lfloor>x\<rfloor>))" and "rne x = rne (of_int \<lfloor>x\<rfloor>)"
    by simp_all
  then show ?thesis by (simp only: rne_of_int)
next
  case False
  then have "of_int \<lfloor>x\<rfloor> < x" and "x < of_int \<lfloor>x\<rfloor> + 1"
    using of_int_floor_le [of x] floor_correct [of x] by linarith+
  then have "\<lfloor>- x\<rfloor> = - \<lfloor>x\<rfloor> - 1"
    by (simp add: floor_eq_iff)
  then show ?thesis by (auto simp: rne_def Let_def)
qed

subsection \<open>Rounding to the nearest value of the format\<close>

lemma ulp_minus [simp]: "ulp (- q) = ulp q"
  by (simp add: ulp_def)

lemma ulp_pos [simp]: "0 < ulp q"
  by (simp add: ulp_def)

lemma ulp_nz [simp]: "ulp q \<noteq> 0"
  by (simp add: ulp_def)

lemma nearest_0 [simp]: "nearest 0 = 0"
  by (simp add: nearest_def)

lemma nearest_minus: "nearest (- q) = - nearest q"
  by (simp add: nearest_def rne_minus minus_divide_left [symmetric])

lemma nearest_nonneg: "0 \<le> q \<Longrightarrow> 0 \<le> nearest q"
proof -
  assume "0 \<le> q"
  then have "rne (of_int 0) \<le> rne (q / ulp q)"
    by (intro rne_mono) (simp add: less_imp_le)
  then have "0 \<le> rne (q / ulp q)" by (simp only: rne_of_int)
  then show ?thesis by (simp add: nearest_def less_imp_le)
qed

lemma nearest_upper:
  assumes q: "0 < q" and e: "e = max (ilog2 q) (-1022)"
  shows "nearest q \<le> pow2 (e + 1)" and "rne (q / ulp q) \<le> 2 ^ 53"
proof -
  have u: "ulp q = pow2 (e - 52)" using q by (simp add: ulp_def e)
  have "q \<le> pow2 (e + 1)"
    using ilog2_bounds(2) [OF q] pow2_mono [of "ilog2 q + 1" "e + 1"] e by linarith
  then have "q / ulp q \<le> pow2 (e + 1) / pow2 (e - 52)"
    by (simp add: u divide_right_mono)
  also have "\<dots> = of_int (2 ^ 53)"
    by (simp add: pow2_of_int flip: pow2_diff)
  finally have "rne (q / ulp q) \<le> rne (of_int (2 ^ 53))" by (rule rne_mono)
  then show r: "rne (q / ulp q) \<le> 2 ^ 53" by (simp only: rne_of_int)
  have "(of_int (rne (q / ulp q)) :: rat) \<le> of_int (2 ^ 53)"
    using r by (simp only: of_int_le_iff)
  then have "of_int (rne (q / ulp q)) * pow2 (e - 52) \<le> of_int (2 ^ 53) * pow2 (e - 52)"
    by (rule mult_right_mono) simp
  then have "nearest q \<le> of_int (2 ^ 53) * pow2 (e - 52)"
    using q by (simp add: nearest_def u)
  also have "\<dots> = pow2 (e + 1)"
    using pow2_add [of 53 "e - 52"] by (simp add: pow2_of_int add.commute)
  finally show "nearest q \<le> pow2 (e + 1)" .
qed

lemma nearest_lower:
  assumes q: "0 < q" and e: "-1022 \<le> ilog2 q"
  shows "pow2 (ilog2 q) \<le> nearest q"
proof -
  have u: "ulp q = pow2 (ilog2 q - 52)" using q e by (simp add: ulp_def)
  have "of_int (2 ^ 52) = pow2 (ilog2 q) / ulp q"
    by (simp add: u pow2_of_int flip: pow2_diff)
  also have "\<dots> \<le> q / ulp q"
    using ilog2_bounds(1) [OF q] by (simp add: divide_right_mono less_imp_le)
  finally have "rne (of_int (2 ^ 52)) \<le> rne (q / ulp q)" by (rule rne_mono)
  then have "2 ^ 52 \<le> rne (q / ulp q)" by (simp only: rne_of_int)
  then have "(of_int (2 ^ 52) :: rat) \<le> of_int (rne (q / ulp q))"
    by (simp only: of_int_le_iff)
  then have "of_int (2 ^ 52) * ulp q \<le> of_int (rne (q / ulp q)) * ulp q"
    by (rule mult_right_mono) (simp add: less_imp_le)
  then have "of_int (2 ^ 52) * ulp q \<le> nearest q"
    using q by (simp add: nearest_def)
  moreover have "of_int (2 ^ 52) * ulp q = pow2 (ilog2 q)"
    using pow2_add [of 52 "ilog2 q - 52"] by (simp add: u pow2_of_int)
  ultimately show ?thesis by simp
qed

lemma nearest_mono_pos:
  assumes p: "0 < p" and pq: "p \<le> q"
  shows "nearest p \<le> nearest q"
proof (cases "max (ilog2 p) (-1022) = max (ilog2 q) (-1022)")
  case True
  then have u: "ulp p = ulp q" using p pq by (simp add: ulp_def)
  have "rne (p / ulp q) \<le> rne (q / ulp q)"
    by (intro rne_mono divide_right_mono pq) (simp add: less_imp_le)
  then show ?thesis using p pq by (simp add: nearest_def u)
next
  case False
  let ?e = "max (ilog2 p) (-1022)"
  have le: "ilog2 p \<le> ilog2 q" by (rule ilog2_mono [OF p pq])
  have q: "0 < q" using p pq by simp
  have eq: "-1022 \<le> ilog2 q" and lt: "?e + 1 \<le> ilog2 q" using False le by auto
  have "nearest p \<le> pow2 (?e + 1)" by (rule nearest_upper(1) [OF p refl])
  also have "\<dots> \<le> pow2 (ilog2 q)" using lt by simp
  also have "\<dots> \<le> nearest q" by (rule nearest_lower [OF q eq])
  finally show ?thesis .
qed

lemma nearest_mono:
  assumes "p \<le> q"
  shows "nearest p \<le> nearest q"
proof -
  consider "0 < p" | "p \<le> 0" "0 \<le> q" | "q < 0" by linarith
  then show ?thesis
  proof cases
    case 1
    then show ?thesis by (rule nearest_mono_pos [OF _ assms])
  next
    case 2
    have "0 \<le> nearest (- p)" using 2 by (intro nearest_nonneg) simp
    then show ?thesis using nearest_nonneg [OF 2(2)] by (simp add: nearest_minus)
  next
    case 3
    have "nearest (- q) \<le> nearest (- p)" by (rule nearest_mono_pos) (use 3 assms in auto)
    then show ?thesis by (simp add: nearest_minus)
  qed
qed

text \<open>The values of the format are the fixed points: an integer of at most 53 bits, scaled.\<close>

lemma nearest_exact_lt:
  assumes m: "\<bar>m\<bar> < 2 ^ 53" and k: "-1074 \<le> k"
  shows "nearest (of_int m * pow2 k) = of_int m * pow2 k"
proof (cases "m = 0")
  case False
  let ?q = "of_int m * pow2 k"
  let ?u = "max (ilog2 \<bar>?q\<bar>) (-1022) - 52"
  have pos: "0 < \<bar>?q\<bar>" using False by simp
  have "(of_int \<bar>m\<bar> :: rat) < of_int (2 ^ 53)" using m by (simp only: of_int_less_iff)
  then have "\<bar>?q\<bar> < pow2 53 * pow2 k"
    by (simp add: abs_mult pow2_of_int)
  then have "\<bar>?q\<bar> < pow2 (53 + k)" by (simp add: pow2_add)
  then have "pow2 (ilog2 \<bar>?q\<bar>) < pow2 (53 + k)"
    using ilog2_bounds(1) [OF pos] by linarith
  then have u: "?u \<le> k" using k by simp
  have "?q / ulp ?q = of_int m * pow2 (k - ?u)"
    by (simp add: ulp_def pow2_diff)
  also have "\<dots> = of_int (m * 2 ^ nat (k - ?u))"
    using u by (simp add: pow2_of_int)
  finally have "rne (?q / ulp ?q) = m * 2 ^ nat (k - ?u)" and
    i: "?q / ulp ?q = of_int (m * 2 ^ nat (k - ?u))" by (simp_all only: rne_of_int)
  then have "nearest ?q = ?q / ulp ?q * ulp ?q"
    using False by (simp add: nearest_def)
  then show ?thesis by simp
qed simp

lemma nearest_exact:
  assumes m: "\<bar>m\<bar> \<le> 2 ^ 53" and k: "-1074 \<le> k"
  shows "nearest (of_int m * pow2 k) = of_int m * pow2 k"
proof (cases "\<bar>m\<bar> = 2 ^ 53")
  case True
  have "nearest (of_int (sgn m) * pow2 (53 + k)) = of_int (sgn m) * pow2 (53 + k)"
    by (rule nearest_exact_lt) (use k in \<open>auto simp: sgn_if\<close>)
  moreover have "of_int (sgn m) * pow2 (53 + k) = of_int (sgn m * \<bar>m\<bar>) * pow2 k"
    using True by (simp add: pow2_add pow2_of_int)
  ultimately show ?thesis by (simp only: sgn_mult_abs)
next
  case False
  then show ?thesis using m k by (intro nearest_exact_lt) auto
qed

lemma nearest_of_int: "\<bar>n\<bar> \<le> 2 ^ 53 \<Longrightarrow> nearest (of_int n) = of_int n"
  using nearest_exact [of n 0] by simp

lemma nearest_form: "\<exists>m k. nearest q = of_int m * pow2 k \<and> \<bar>m\<bar> \<le> 2 ^ 53 \<and> -1074 \<le> k"
proof -
  have pos: "\<exists>m k. nearest p = of_int m * pow2 k \<and> \<bar>m\<bar> \<le> 2 ^ 53 \<and> -1074 \<le> k" if p: "0 < p" for p
  proof -
    let ?k = "max (ilog2 \<bar>p\<bar>) (-1022) - 52"
    have "rne (of_int 0) \<le> rne (p / ulp p)"
      using p by (intro rne_mono) (simp add: less_imp_le)
    then have "0 \<le> rne (p / ulp p)" by (simp only: rne_of_int)
    then have "\<bar>rne (p / ulp p)\<bar> \<le> 2 ^ 53" using nearest_upper(2) [OF p refl] by simp
    then show ?thesis using p
      by (intro exI [of _ "rne (p / ulp p)"] exI [of _ ?k]) (simp add: nearest_def ulp_def)
  qed
  consider "q = 0" | "0 < q" | "0 < - q" by linarith
  then show ?thesis
  proof cases
    case 1
    then show ?thesis by (intro exI [of _ 0]) auto
  next
    case 2
    then show ?thesis by (rule pos)
  next
    case 3
    from pos [OF this] obtain m k where "nearest (- q) = of_int m * pow2 k" "\<bar>m\<bar> \<le> 2 ^ 53" "-1074 \<le> k"
      by blast
    then show ?thesis by (intro exI [of _ "- m"] exI [of _ k]) (simp add: nearest_minus)
  qed
qed

lemma nearest_nearest [simp]: "nearest (nearest q) = nearest q"
  using nearest_form [of q] nearest_exact by auto


section \<open>The float64 operations\<close>

text \<open>The rational value of a finite number, its sign bit, and finiteness.\<close>

fun val :: "f64 \<Rightarrow> rat" where
  "val (Fin q) = q"
| "val _ = 0"

fun is_fin :: "f64 \<Rightarrow> bool" where
  "is_fin (Fin q) = True"
| "is_fin NZero = True"
| "is_fin _ = False"

fun signbit :: "f64 \<Rightarrow> bool" where
  "signbit (Fin q) = (q < 0)"
| "signbit NZero = True"
| "signbit NInf = True"
| "signbit _ = False"

definition is_inf :: "f64 \<Rightarrow> bool" where
  "is_inf x \<longleftrightarrow> x = PInf \<or> x = NInf"

definition inf_of :: "bool \<Rightarrow> f64" where
  "inf_of neg = (if neg then NInf else PInf)"

definition zero_of :: "bool \<Rightarrow> f64" where
  "zero_of neg = (if neg then NZero else Fin 0)"

text \<open>Go's comparisons: every one of them is false on a NaN, and the two zeros are equal.\<close>

instantiation f64 :: ord
begin

definition less_eq_f64 :: "f64 \<Rightarrow> f64 \<Rightarrow> bool" where
  "x \<le> y \<longleftrightarrow> x \<noteq> NaN \<and> y \<noteq> NaN \<and>
     (x = NInf \<or> y = PInf \<or> (is_fin x \<and> is_fin y \<and> val x \<le> val y))"

definition less_f64 :: "f64 \<Rightarrow> f64 \<Rightarrow> bool" where
  "x < y \<longleftrightarrow> x \<noteq> NaN \<and> y \<noteq> NaN \<and>
     ((x = NInf \<and> y \<noteq> NInf) \<or> (y = PInf \<and> x \<noteq> PInf) \<or> (is_fin x \<and> is_fin y \<and> val x < val y))"

instance ..

end

definition feq :: "f64 \<Rightarrow> f64 \<Rightarrow> bool" where
  "feq x y \<longleftrightarrow> x \<le> y \<and> y \<le> x"

instantiation f64 :: "{zero, one, uminus, plus, minus, times, inverse, abs}"
begin

definition zero_f64 :: f64 where "0 = Fin 0"

definition one_f64 :: f64 where "1 = Fin 1"

fun uminus_f64 :: "f64 \<Rightarrow> f64" where
  "- NaN = NaN"
| "- PInf = NInf"
| "- NInf = PInf"
| "- NZero = Fin 0"
| "- Fin q = (if q = 0 then NZero else Fin (- q))"

definition plus_f64 :: "f64 \<Rightarrow> f64 \<Rightarrow> f64" where
  "x + y =
     (if x = NaN \<or> y = NaN then NaN
      else if is_inf x then (if y = - x then NaN else x)
      else if is_inf y then y
      else if x = NZero \<and> y = NZero then NZero
      else rnd (val x + val y))"

definition minus_f64 :: "f64 \<Rightarrow> f64 \<Rightarrow> f64" where
  "x - y = x + (- y :: f64)"

definition times_f64 :: "f64 \<Rightarrow> f64 \<Rightarrow> f64" where
  "x * y =
     (let neg = (signbit x \<noteq> signbit y)
      in if x = NaN \<or> y = NaN then NaN
         else if is_inf x then (if is_fin y \<and> val y = 0 then NaN else inf_of neg)
         else if is_inf y then (if val x = 0 then NaN else inf_of neg)
         else if val x = 0 \<or> val y = 0 then zero_of neg
         else rnd (val x * val y))"

definition divide_f64 :: "f64 \<Rightarrow> f64 \<Rightarrow> f64" where
  "x div y =
     (let neg = (signbit x \<noteq> signbit y)
      in if x = NaN \<or> y = NaN then NaN
         else if is_inf x then (if is_inf y then NaN else inf_of neg)
         else if is_inf y then zero_of neg
         else if val y = 0 then (if val x = 0 then NaN else inf_of neg)
         else if val x = 0 then zero_of neg
         else rnd (val x / val y))"

definition inverse_f64 :: "f64 \<Rightarrow> f64" where
  "inverse x = Fin 1 div x"

fun abs_f64 :: "f64 \<Rightarrow> f64" where
  "\<bar>NaN\<bar> = NaN"
| "\<bar>PInf\<bar> = PInf"
| "\<bar>NInf\<bar> = PInf"
| "\<bar>NZero\<bar> = Fin 0"
| "\<bar>Fin q\<bar> = Fin \<bar>q\<bar>"

instance ..

end

subsection \<open>The functions of package math\<close>

fun math_Floor :: "f64 \<Rightarrow> f64" where
  "math_Floor (Fin q) = Fin (of_int \<lfloor>q\<rfloor>)"
| "math_Floor x = x"

definition math_Ceil :: "f64 \<Rightarrow> f64" where
  "math_Ceil x = - math_Floor (- x)"

text \<open>\<open>math.Round\<close> rounds half away from zero and keeps the sign of a zero result.\<close>

fun math_Round :: "f64 \<Rightarrow> f64" where
  "math_Round (Fin q) =
     (let n = \<lfloor>\<bar>q\<bar> + 1 / 2\<rfloor>
      in if n = 0 then zero_of (q < 0) else Fin (if q < 0 then - of_int n else of_int n))"
| "math_Round x = x"

fun math_Trunc :: "f64 \<Rightarrow> f64" where
  "math_Trunc (Fin q) =
     (let n = \<lfloor>\<bar>q\<bar>\<rfloor>
      in if n = 0 then zero_of (q < 0) else Fin (if q < 0 then - of_int n else of_int n))"
| "math_Trunc x = x"

text \<open>\<open>math.Max\<close> and \<open>math.Min\<close>: an infinity on the extreme side wins over a NaN.\<close>

definition math_Max :: "f64 \<Rightarrow> f64 \<Rightarrow> f64" where
  "math_Max x y =
     (if x = PInf \<or> y = PInf then PInf
      else if x = NaN \<or> y = NaN then NaN
      else if feq x 0 \<and> feq x y then (if signbit x then y else x)
      else if y < x then x else y)"

definition math_Min :: "f64 \<Rightarrow> f64 \<Rightarrow> f64" where
  "math_Min x y =
     (if x = NInf \<or> y = NInf then NInf
      else if x = NaN \<or> y = NaN then NaN
      else if feq x 0 \<and> feq x y then (if signbit x then x else y)
      else if x < y then x else y)"

text \<open>The built-in \<open>max\<close> and \<open>min\<close> on floats: a NaN argument makes the result a NaN.\<close>

definition go_max :: "f64 \<Rightarrow> f64 \<Rightarrow> f64" where
  "go_max x y =
     (if x = NaN \<or> y = NaN then NaN
      else if feq x y then (if signbit x then y else x)
      else if x < y then y else x)"

definition go_min :: "f64 \<Rightarrow> f64 \<Rightarrow> f64" where
  "go_min x y =
     (if x = NaN \<or> y = NaN then NaN
      else if feq x y then (if signbit x then x else y)
      else if y < x then y else x)"

section \<open>Integers\<close>

type_synonym i64 = "64 word"
type_synonym i32 = "32 word"

text \<open>\<open>float64(n)\<close> rounds; \<open>int64(x)\<close> truncates, and a value it cannot hold becomes the least
  integer, which is what amd64's conversion gives (Go leaves it to the implementation).\<close>

definition float_of :: "i64 \<Rightarrow> f64" where
  "float_of n = rnd (of_int (sint n))"

definition float_of_int :: "int \<Rightarrow> f64" where
  "float_of_int n = rnd (of_int n)"

definition i64_min :: i64 where
  "i64_min = word_of_int (- (2 ^ 63))"

fun int_of_f64 :: "f64 \<Rightarrow> int option" where
  "int_of_f64 (Fin q) = Some (if q < 0 then - \<lfloor>- q\<rfloor> else \<lfloor>q\<rfloor>)"
| "int_of_f64 NZero = Some 0"
| "int_of_f64 _ = None"

definition i64_of :: "f64 \<Rightarrow> i64" where
  "i64_of x =
     (case int_of_f64 x of
        None \<Rightarrow> i64_min
      | Some n \<Rightarrow> if - (2 ^ 63) \<le> n \<and> n < 2 ^ 63 then word_of_int n else i64_min)"

text \<open>Signed comparison, \<open>min\<close>, \<open>max\<close> and the truncating division of \<open>int64\<close>.\<close>

definition i64_max_of :: "i64 \<Rightarrow> i64 \<Rightarrow> i64" where
  "i64_max_of a b = (if a <s b then b else a)"

definition i64_min_of :: "i64 \<Rightarrow> i64 \<Rightarrow> i64" where
  "i64_min_of a b = (if b <s a then b else a)"

definition tdiv :: "int \<Rightarrow> int \<Rightarrow> int" where
  "tdiv a b = (if (a < 0) \<noteq> (b < 0) then - (\<bar>a\<bar> div \<bar>b\<bar>) else \<bar>a\<bar> div \<bar>b\<bar>)"

definition i64_div :: "i64 \<Rightarrow> i64 \<Rightarrow> i64" where
  "i64_div a b = word_of_int (tdiv (sint a) (sint b))"

definition i64_mod :: "i64 \<Rightarrow> i64 \<Rightarrow> i64" where
  "i64_mod a b = a - i64_div a b * b"


section \<open>Laws\<close>

subsection \<open>Order\<close>

lemma f64_le_refl: "x \<noteq> NaN \<Longrightarrow> (x :: f64) \<le> x"
  by (cases x) (auto simp: less_eq_f64_def)

lemma f64_le_trans: "(x :: f64) \<le> y \<Longrightarrow> y \<le> z \<Longrightarrow> x \<le> z"
  by (cases x; cases y; cases z) (auto simp: less_eq_f64_def)

lemma f64_not_le: "x \<noteq> NaN \<Longrightarrow> y \<noteq> NaN \<Longrightarrow> \<not> (x :: f64) \<le> y \<longleftrightarrow> y < x"
  by (cases x; cases y) (auto simp: less_eq_f64_def less_f64_def)

lemma f64_not_less: "x \<noteq> NaN \<Longrightarrow> y \<noteq> NaN \<Longrightarrow> \<not> (x :: f64) < y \<longleftrightarrow> y \<le> x"
  by (cases x; cases y) (auto simp: less_eq_f64_def less_f64_def)

lemma f64_less_le: "(x :: f64) < y \<Longrightarrow> x \<le> y"
  by (cases x; cases y) (auto simp: less_eq_f64_def less_f64_def)

lemma f64_less_le_trans: "(x :: f64) < y \<Longrightarrow> y \<le> z \<Longrightarrow> x < z"
  by (cases x; cases y; cases z) (auto simp: less_eq_f64_def less_f64_def)

lemma f64_le_less_trans: "(x :: f64) \<le> y \<Longrightarrow> y < z \<Longrightarrow> x < z"
  by (cases x; cases y; cases z) (auto simp: less_eq_f64_def less_f64_def)

lemma f64_less_irrefl [simp]: "\<not> (x :: f64) < x"
  by (cases x) (auto simp: less_f64_def)

lemma f64_NaN_cmp [simp]: "\<not> NaN \<le> x" "\<not> x \<le> NaN" "\<not> NaN < x" "\<not> x < NaN" "\<not> feq NaN x" "\<not> feq x NaN"
  by (auto simp: less_eq_f64_def less_f64_def feq_def)

lemma f64_le_not_NaN: "(x :: f64) \<le> y \<Longrightarrow> x \<noteq> NaN \<and> y \<noteq> NaN"
  by auto

lemma f64_less_not_NaN: "(x :: f64) < y \<Longrightarrow> x \<noteq> NaN \<and> y \<noteq> NaN"
  by auto

lemma f64_cmp_Fin [simp, f64_simps]:
  "Fin a \<le> Fin b \<longleftrightarrow> a \<le> b" "Fin a < Fin b \<longleftrightarrow> a < b" "feq (Fin a) (Fin b) \<longleftrightarrow> a = b"
  by (auto simp: less_eq_f64_def less_f64_def feq_def)

lemma f64_le_fin: "is_fin x \<Longrightarrow> is_fin y \<Longrightarrow> x \<le> y \<longleftrightarrow> val x \<le> val y"
  by (cases x; cases y) (auto simp: less_eq_f64_def)

lemma f64_less_fin: "is_fin x \<Longrightarrow> is_fin y \<Longrightarrow> x < y \<longleftrightarrow> val x < val y"
  by (cases x; cases y) (auto simp: less_f64_def)

lemma f64_pos_cases: "0 < (x :: f64) \<longleftrightarrow> x = PInf \<or> (\<exists>q. x = Fin q \<and> 0 < q)"
  by (cases x) (auto simp: less_f64_def zero_f64_def)

lemma f64_pos_fin: "0 < (x :: f64) \<Longrightarrow> is_fin x \<Longrightarrow> 0 < val x"
  by (auto simp: f64_pos_cases)

lemma f64_nonneg_cases: "0 \<le> (x :: f64) \<longleftrightarrow> x = PInf \<or> x = NZero \<or> (\<exists>q. x = Fin q \<and> 0 \<le> q)"
  by (cases x) (auto simp: less_eq_f64_def zero_f64_def)

subsection \<open>Rounding\<close>

text \<open>\<open>wf\<close>: the value is one of the format's.\<close>

fun wf_f64 :: "f64 \<Rightarrow> bool" where
  "wf_f64 (Fin q) \<longleftrightarrow> nearest q = q \<and> \<bar>q\<bar> < pow2 1024"
| "wf_f64 _ \<longleftrightarrow> True"

lemma rnd_not_NaN [simp]: "rnd q \<noteq> NaN"
  by (simp add: rnd_def Let_def)

lemma rnd_wf [simp]: "wf_f64 (rnd q)"
  by (auto simp: rnd_def Let_def)

lemma rnd_0 [simp, f64_simps]: "rnd 0 = Fin 0"
  by (simp add: rnd_def not_le)

lemma rnd_val: "wf_f64 x \<Longrightarrow> is_fin x \<Longrightarrow> val (rnd (val x)) = val x \<and> is_fin (rnd (val x))"
  by (cases x) (auto simp: rnd_def Let_def not_le abs_less_iff)

lemma rnd_exact: "nearest q = q \<Longrightarrow> \<bar>q\<bar> < pow2 1024 \<Longrightarrow> rnd q = Fin q"
  by (auto simp: rnd_def Let_def abs_less_iff not_le)

lemma rnd_mono:
  assumes "p \<le> q"
  shows "rnd p \<le> rnd q"
  using nearest_mono [OF assms] by (auto simp: rnd_def Let_def less_eq_f64_def)

lemma rnd_le_wf:
  assumes "p \<le> val x" and "wf_f64 x" and "is_fin x"
  shows "rnd p \<le> x"
proof -
  have "rnd p \<le> rnd (val x)" by (rule rnd_mono [OF assms(1)])
  moreover have "rnd (val x) \<le> x" using rnd_val [OF assms(2,3)] assms(3) by (simp add: f64_le_fin)
  ultimately show ?thesis by (rule f64_le_trans)
qed

lemma rnd_ge_wf:
  assumes "val x \<le> p" and "wf_f64 x" and "is_fin x"
  shows "x \<le> rnd p"
proof -
  have "rnd (val x) \<le> rnd p" by (rule rnd_mono [OF assms(1)])
  moreover have "x \<le> rnd (val x)" using rnd_val [OF assms(2,3)] assms(3) by (simp add: f64_le_fin)
  ultimately show ?thesis by (rule f64_le_trans [rotated])
qed

lemma pow2_53_less: "(2 ^ 53 :: rat) < pow2 1024"
  using pow2_strict_mono [of 53 1024] by (simp add: pow2_of_int)

lemma rnd_of_int: "\<bar>n\<bar> \<le> 2 ^ 53 \<Longrightarrow> rnd (of_int n) = Fin (of_int n)"
proof (rule rnd_exact)
  assume n: "\<bar>n\<bar> \<le> 2 ^ 53"
  then show "nearest (of_int n) = of_int n" by (rule nearest_of_int)
  have "\<bar>of_int n\<bar> \<le> (of_int (2 ^ 53) :: rat)" using n by (simp only: of_int_abs of_int_le_iff)
  then show "\<bar>of_int n\<bar> < pow2 1024" using pow2_53_less by simp
qed

lemma rnd_numeral [f64_simps]:
  "(numeral k :: int) \<le> 2 ^ 53 \<Longrightarrow> rnd (numeral k) = Fin (numeral k)"
  "(numeral k :: int) \<le> 2 ^ 53 \<Longrightarrow> rnd (- numeral k) = Fin (- numeral k)"
  "rnd 1 = Fin 1" "rnd (- 1) = Fin (- 1)"
  using rnd_of_int [of "numeral k"] rnd_of_int [of "- numeral k"] rnd_of_int [of 1] rnd_of_int [of "- 1"]
  by simp_all

lemma rnd_dyadic:
  assumes "\<bar>n\<bar> \<le> 2 ^ 53" and "k \<le> 1074"
  shows "rnd (of_int n / 2 ^ k) = Fin (of_int n / 2 ^ k)"
proof -
  have eq: "of_int n / 2 ^ k = of_int n * pow2 (- int k)"
    by (simp add: pow2_minus pow2_nat)
  have "\<bar>of_int n\<bar> \<le> (of_int (2 ^ 53) :: rat)" using assms(1) by (simp only: of_int_abs of_int_le_iff)
  moreover have "\<bar>of_int n / 2 ^ k\<bar> \<le> \<bar>of_int n :: rat\<bar> / 1"
    unfolding abs_divide by (rule divide_left_mono) simp_all
  ultimately have "\<bar>of_int n / 2 ^ k\<bar> < pow2 1024" using pow2_53_less by simp
  moreover have "nearest (of_int n / 2 ^ k) = of_int n / 2 ^ k"
    unfolding eq by (rule nearest_exact) (use assms in auto)
  ultimately show ?thesis by (intro rnd_exact)
qed

lemma rnd_half [f64_simps]:
  "(numeral k :: int) \<le> 2 ^ 53 \<Longrightarrow> rnd (numeral k / 2) = Fin (numeral k / 2)"
  "(numeral k :: int) \<le> 2 ^ 53 \<Longrightarrow> rnd (numeral k / 4) = Fin (numeral k / 4)"
  "rnd (1 / 2) = Fin (1 / 2)" "rnd (1 / 4) = Fin (1 / 4)"
  using rnd_dyadic [of "numeral k" 1] rnd_dyadic [of "numeral k" 2] rnd_dyadic [of 1 1] rnd_dyadic [of 1 2]
  by simp_all

lemma wf_rnd_int: "\<bar>n\<bar> \<le> 2 ^ 53 \<Longrightarrow> wf_f64 (Fin (of_int n))"
  using rnd_of_int [of n] rnd_wf [of "of_int n"] by simp

text \<open>A quotient of two integers is evaluated by giving the exponent of its leading bit.\<close>

lemma rnd_eval:
  assumes "pow2 e \<le> \<bar>q\<bar>" and "\<bar>q\<bar> < pow2 (e + 1)" and "-1022 \<le> e" and "e \<le> 1022"
  shows "rnd q = Fin (of_int (rne (q / pow2 (e - 52))) * pow2 (e - 52))"
proof -
  have q: "q \<noteq> 0" using assms(1) by (metis abs_zero not_le pow2_pos)
  have i: "ilog2 \<bar>q\<bar> = e" by (rule ilog2_eqI [OF assms(1,2)])
  have n: "nearest q = of_int (rne (q / pow2 (e - 52))) * pow2 (e - 52)"
    using q assms(3) by (simp add: nearest_def ulp_def i)
  have "\<bar>nearest q\<bar> = nearest \<bar>q\<bar>"
    using nearest_nonneg [of q] nearest_nonneg [of "- q"] by (auto simp: nearest_minus abs_if)
  also have "\<dots> \<le> pow2 (e + 1)"
    using nearest_upper(1) [of "\<bar>q\<bar>" e] q assms(3) by (simp add: i)
  also have "\<dots> < pow2 1024" using assms(4) by simp
  finally have b: "\<bar>nearest q\<bar> < pow2 1024" .
  have "pow2 e \<le> nearest \<bar>q\<bar>"
    using nearest_lower [of "\<bar>q\<bar>"] q assms(3) by (simp add: i)
  then have "nearest q \<noteq> 0" using pow2_pos [of e] by (auto simp: abs_if nearest_minus split: if_splits)
  then show ?thesis using b by (auto simp: rnd_def Let_def abs_less_iff n)
qed

subsection \<open>Arithmetic on finite values\<close>

lemma f64_arith_Fin [f64_simps]:
  "Fin a + Fin b = rnd (a + b)"
  "Fin a - Fin b = rnd (a - b)"
  "Fin a * Fin b = (if a = 0 \<or> b = 0 then zero_of ((a < 0) \<noteq> (b < 0)) else rnd (a * b))"
  "Fin a / Fin b =
     (if b = 0 then if a = 0 then NaN else inf_of (a < 0)
      else if a = 0 then zero_of (b < 0) else rnd (a / b))"
  by (auto simp: plus_f64_def minus_f64_def times_f64_def divide_f64_def is_inf_def Let_def)

lemma f64_consts [f64_simps]: "(0 :: f64) = Fin 0" "(1 :: f64) = Fin 1"
  by (simp_all add: zero_f64_def one_f64_def)

lemma fin_add: "is_fin x \<Longrightarrow> is_fin y \<Longrightarrow> val (x + y) = val (rnd (val x + val y)) \<and> (is_fin (x + y) \<longleftrightarrow> is_fin (rnd (val x + val y)))"
  by (cases x; cases y) (auto simp: plus_f64_def is_inf_def)

lemma add_nonneg_ge:
  assumes "0 \<le> d" and "wf_f64 p" and "is_fin p"
  shows "p \<le> p + d"
proof (cases "is_inf d")
  case True
  with assms have "d = PInf" by (auto simp: is_inf_def f64_nonneg_cases)
  then show ?thesis using assms by (cases p) (auto simp: plus_f64_def is_inf_def less_eq_f64_def)
next
  case False
  then have d: "is_fin d" "0 \<le> val d" using assms(1) by (auto simp: f64_nonneg_cases is_inf_def)
  show ?thesis
  proof (cases "p = NZero \<and> d = NZero")
    case True
    then show ?thesis by (auto simp: plus_f64_def is_inf_def less_eq_f64_def)
  next
    case nz: False
    then have "p + d = rnd (val p + val d)"
      using d(1) assms(3) by (cases p; cases d) (auto simp: plus_f64_def is_inf_def)
    moreover have "p \<le> rnd (val p + val d)" using d(2) assms(2,3) by (intro rnd_ge_wf) auto
    ultimately show ?thesis by simp
  qed
qed

lemma diff_nonneg_le:
  assumes "0 \<le> d" and "wf_f64 p" and "is_fin p"
  shows "p - d \<le> p"
proof (cases "is_inf d")
  case True
  with assms have "d = PInf" by (auto simp: is_inf_def f64_nonneg_cases)
  then show ?thesis using assms by (cases p) (auto simp: minus_f64_def plus_f64_def is_inf_def less_eq_f64_def)
next
  case False
  then have d: "is_fin d" "0 \<le> val d" using assms(1) by (auto simp: f64_nonneg_cases is_inf_def)
  have f: "is_fin (- d)" and v: "val (- d) = - val d" using d by (cases d; auto)+
  show ?thesis
  proof (cases "p = NZero \<and> - d = NZero")
    case True
    then show ?thesis by (auto simp: minus_f64_def plus_f64_def is_inf_def less_eq_f64_def)
  next
    case nz: False
    then have "p - d = rnd (val p - val d)"
      using f v assms(3) by (cases p; cases "- d") (auto simp: minus_f64_def plus_f64_def is_inf_def)
    moreover have "rnd (val p - val d) \<le> p" using d(2) assms(2,3) by (intro rnd_le_wf) auto
    ultimately show ?thesis by simp
  qed
qed

lemma rnd_nonneg: "0 \<le> q \<Longrightarrow> 0 \<le> rnd q"
  using rnd_mono [of 0 q] by (simp add: zero_f64_def)

lemma zero_of_nonneg [simp]: "0 \<le> zero_of b"
  by (simp add: zero_of_def less_eq_f64_def zero_f64_def)

lemma mult_nonneg:
  "0 \<le> x \<Longrightarrow> 0 \<le> y \<Longrightarrow> is_fin x \<Longrightarrow> is_fin y \<Longrightarrow> 0 \<le> x * (y :: f64)"
  by (cases x; cases y)
    (auto simp: times_f64_def is_inf_def Let_def f64_nonneg_cases [of "Fin q" for q] intro!: rnd_nonneg)

lemma div_nonneg:
  "0 \<le> x \<Longrightarrow> is_fin x \<Longrightarrow> 0 < q \<Longrightarrow> 0 \<le> x / Fin q"
  by (cases x)
    (auto simp: divide_f64_def is_inf_def Let_def f64_nonneg_cases [of "Fin q" for q] intro!: rnd_nonneg)


subsection \<open>Closure of the format\<close>

lemma wf_zero_inf [simp]: "wf_f64 (zero_of b)" "wf_f64 (inf_of b)"
  by (simp_all add: zero_of_def inf_of_def)

lemma wf_uminus [simp]: "wf_f64 x \<Longrightarrow> wf_f64 (- x)"
  by (cases x) (auto simp: nearest_minus)

lemma wf_plus [simp]: "wf_f64 x \<Longrightarrow> wf_f64 y \<Longrightarrow> wf_f64 (x + y)"
  by (simp add: plus_f64_def)

lemma wf_minus [simp]: "wf_f64 x \<Longrightarrow> wf_f64 y \<Longrightarrow> wf_f64 (x - y)"
  by (simp add: minus_f64_def)

lemma wf_times [simp]: "wf_f64 (x * y)"
  by (simp add: times_f64_def Let_def)

lemma wf_divide [simp]: "wf_f64 (x / y)"
  by (simp add: divide_f64_def Let_def)

lemma wf_nonint_bound:
  assumes "nearest s = s" and "s \<noteq> of_int \<lfloor>s\<rfloor>"
  shows "\<bar>s\<bar> \<le> 2 ^ 52"
proof -
  obtain m k where s: "s = of_int m * pow2 k" and m: "\<bar>m\<bar> \<le> 2 ^ 53"
    using nearest_form [of s] assms(1) by auto
  have "k < 0"
  proof (rule ccontr)
    assume "\<not> k < 0"
    then have eq: "s = of_int (m * 2 ^ nat k)" by (simp add: s pow2_of_int)
    have "of_int \<lfloor>s\<rfloor> = s" by (simp only: eq floor_of_int)
    with assms(2) show False by metis
  qed
  then have "pow2 k \<le> 1 / 2" using pow2_mono [of k "- 1"] by (simp add: pow2_def)
  moreover have "\<bar>of_int m :: rat\<bar> \<le> of_int (2 ^ 53)" using m by (simp only: of_int_abs of_int_le_iff)
  ultimately have "\<bar>of_int m :: rat\<bar> * pow2 k \<le> of_int (2 ^ 53) * (1 / 2)"
    by (intro mult_mono) simp_all
  then show ?thesis by (simp add: s abs_mult)
qed

text \<open>An integer on the far side of a rounded value is on the far side of the exact one.\<close>

lemma ceiling_of_rnd:
  assumes r: "rnd q = Fin s" and ni: "s \<noteq> of_int \<lfloor>s\<rfloor>"
  shows "q \<le> of_int \<lceil>s\<rceil>" and "of_int \<lfloor>s\<rfloor> \<le> q"
proof -
  have wf: "nearest s = s" using rnd_wf [of q] r by simp
  have b: "\<bar>s\<bar> \<le> 2 ^ 52" by (rule wf_nonint_bound [OF wf ni])
  have c: "\<bar>\<lceil>s\<rceil>\<bar> \<le> 2 ^ 53" and f: "\<bar>\<lfloor>s\<rfloor>\<bar> \<le> 2 ^ 53"
  proof -
    have u: "s \<le> of_int (2 ^ 52)" and l: "of_int (- (2 ^ 52)) \<le> s"
      using b by (simp_all add: abs_le_iff)
    have "\<lceil>s\<rceil> \<le> 4503599627370496" and "- 4503599627370496 \<le> \<lfloor>s\<rfloor>"
      using u l by (simp_all add: ceiling_le_iff le_floor_iff)
    then have "\<bar>\<lceil>s\<rceil>\<bar> \<le> 9007199254740992" and "\<bar>\<lfloor>s\<rfloor>\<bar> \<le> 9007199254740992"
      using floor_le_ceiling [of s] by linarith+
    then show "\<bar>\<lceil>s\<rceil>\<bar> \<le> 2 ^ 53" and "\<bar>\<lfloor>s\<rfloor>\<bar> \<le> 2 ^ 53" by simp_all
  qed
  show "q \<le> of_int \<lceil>s\<rceil>"
  proof (rule ccontr)
    assume "\<not> q \<le> of_int \<lceil>s\<rceil>"
    then have "rnd (of_int \<lceil>s\<rceil>) \<le> rnd q" by (intro rnd_mono) simp
    then have "of_int \<lceil>s\<rceil> \<le> s" using rnd_of_int [OF c] r by simp
    then show False using ni by (metis ceiling_of_int floor_of_int le_of_int_ceiling order_antisym)
  qed
  show "of_int \<lfloor>s\<rfloor> \<le> q"
  proof (rule ccontr)
    assume "\<not> of_int \<lfloor>s\<rfloor> \<le> q"
    then have "rnd q \<le> rnd (of_int \<lfloor>s\<rfloor>)" by (intro rnd_mono) simp
    then have "s \<le> of_int \<lfloor>s\<rfloor>" using rnd_of_int [OF f] r by simp
    then show False using ni of_int_floor_le [of s] by simp
  qed
qed

subsection \<open>Minimum and maximum\<close>

lemma math_Min_cases: "x \<noteq> NaN \<Longrightarrow> y \<noteq> NaN \<Longrightarrow> math_Min x y = x \<or> math_Min x y = y"
  by (auto simp: math_Min_def)

lemma math_Max_cases: "x \<noteq> NaN \<Longrightarrow> y \<noteq> NaN \<Longrightarrow> math_Max x y = x \<or> math_Max x y = y"
  by (auto simp: math_Max_def)

lemma math_Min_le: "x \<noteq> NaN \<Longrightarrow> y \<noteq> NaN \<Longrightarrow> math_Min x y \<le> x \<and> math_Min x y \<le> y"
  by (cases x; cases y) (auto simp: math_Min_def less_eq_f64_def less_f64_def feq_def zero_f64_def)

lemma math_Max_ge: "x \<noteq> NaN \<Longrightarrow> y \<noteq> NaN \<Longrightarrow> x \<le> math_Max x y \<and> y \<le> math_Max x y"
  by (cases x; cases y) (auto simp: math_Max_def less_eq_f64_def less_f64_def feq_def zero_f64_def)

lemma go_max_cases: "go_max x y = x \<or> go_max x y = y"
  by (auto simp: go_max_def)

lemma go_min_cases: "go_min x y = x \<or> go_min x y = y"
  by (auto simp: go_min_def)

lemma go_max_ge: "x \<noteq> NaN \<Longrightarrow> y \<noteq> NaN \<Longrightarrow> x \<le> go_max x y \<and> y \<le> go_max x y"
  by (cases x; cases y) (auto simp: go_max_def less_eq_f64_def less_f64_def feq_def)

lemma go_min_le: "x \<noteq> NaN \<Longrightarrow> y \<noteq> NaN \<Longrightarrow> go_min x y \<le> x \<and> go_min x y \<le> y"
  by (cases x; cases y) (auto simp: go_min_def less_eq_f64_def less_f64_def feq_def)

lemma sint_i64: "- (2 ^ 63) \<le> n \<Longrightarrow> n < 2 ^ 63 \<Longrightarrow> sint (word_of_int n :: i64) = n"
  by (simp add: sint_sbintrunc' signed_take_bit_int_eq_self)

end
