(* ===== verification/Candles.thy ===== *)
theory Candles
  imports Float64
begin

text \<open>
  The price data: \<open>market.Candle\<close> (internal/market/candle.go) with its validation, and the
  \<open>indicator.Candle\<close> (internal/indicator/indicator.go) the strategy side works on. An instant
  (\<open>time.Time\<close>) is a number of nanoseconds since the Unix epoch, unbounded; Go's zero time is
  the first instant of year 1. A pointer to a float is an option.
\<close>

type_synonym time = int

definition zero_time :: time where
  "zero_time = - 62135596800 * 10 ^ 9"

definition unix_of :: "time \<Rightarrow> int" where
  "unix_of t = t div 10 ^ 9"

record candle =
  cTS :: time
  cOpen :: f64
  cHigh :: f64
  cLow :: f64
  cClose :: f64
  cAdj :: "f64 option"
  cVolume :: i64

record icandle =
  iTS :: time
  iOpen :: f64
  iHigh :: f64
  iLow :: f64
  iClose :: f64
  iVolume :: f64

datatype candle_error =
    ZeroTimestamp
  | NonPositivePrice f64 f64 f64 f64
  | HighBelowLow f64 f64
  | HighBelowOpenClose f64 f64 f64
  | LowAboveOpenClose f64 f64 f64
  | NonPositiveAdjusted f64
  | NegativeVolume i64

text \<open>\<open>Candle.Validate\<close>: the cases of the switch in order; \<open>None\<close> is a nil error.\<close>

definition validate :: "candle \<Rightarrow> candle_error option" where
  "validate c =
     (if cTS c = zero_time then Some ZeroTimestamp
      else if cOpen c \<le> 0 \<or> cHigh c \<le> 0 \<or> cLow c \<le> 0 \<or> cClose c \<le> 0
        then Some (NonPositivePrice (cOpen c) (cHigh c) (cLow c) (cClose c))
      else if cHigh c < cLow c then Some (HighBelowLow (cHigh c) (cLow c))
      else if cHigh c < cOpen c \<or> cHigh c < cClose c
        then Some (HighBelowOpenClose (cHigh c) (cOpen c) (cClose c))
      else if cOpen c < cLow c \<or> cClose c < cLow c
        then Some (LowAboveOpenClose (cLow c) (cOpen c) (cClose c))
      else (case cAdj c of
          Some a \<Rightarrow> if a \<le> 0 then Some (NonPositiveAdjusted a)
            else if cVolume c <s 0 then Some (NegativeVolume (cVolume c)) else None
        | None \<Rightarrow> if cVolume c <s 0 then Some (NegativeVolume (cVolume c)) else None))"

text \<open>The prices of a candle are numbers. (\<open>Validate\<close> lets a NaN price through: every
  comparison with it is false.)\<close>

definition no_nan :: "candle \<Rightarrow> bool" where
  "no_nan c \<longleftrightarrow> cOpen c \<noteq> NaN \<and> cHigh c \<noteq> NaN \<and> cLow c \<noteq> NaN \<and> cClose c \<noteq> NaN"

lemma validate_prices:
  assumes "validate c = None" and "no_nan c"
  shows "0 < cLow c \<and> 0 < cOpen c \<and> 0 < cHigh c \<and> 0 < cClose c
    \<and> cLow c \<le> cOpen c \<and> cLow c \<le> cClose c \<and> cOpen c \<le> cHigh c \<and> cClose c \<le> cHigh c \<and> cLow c \<le> cHigh c"
proof -
  have z: "(0 :: f64) \<noteq> NaN" by (simp add: zero_f64_def)
  have n: "cOpen c \<noteq> NaN" "cHigh c \<noteq> NaN" "cLow c \<noteq> NaN" "cClose c \<noteq> NaN"
    using assms(2) by (auto simp: no_nan_def)
  have "\<not> cOpen c \<le> 0" "\<not> cHigh c \<le> 0" "\<not> cLow c \<le> 0" "\<not> cClose c \<le> 0"
    "\<not> cHigh c < cLow c" "\<not> cHigh c < cOpen c" "\<not> cHigh c < cClose c"
    "\<not> cOpen c < cLow c" "\<not> cClose c < cLow c"
    using assms(1) by (auto simp: validate_def split: if_splits)
  then show ?thesis using n z by (simp add: f64_not_le f64_not_less)
qed

text \<open>\<open>candleFor\<close> and \<open>candlesFor\<close> of internal/backtest/run.go.\<close>

definition candleFor :: "candle \<Rightarrow> icandle" where
  "candleFor c =
     \<lparr>iTS = cTS c, iOpen = cOpen c, iHigh = cHigh c, iLow = cLow c, iClose = cClose c,
      iVolume = float_of (cVolume c)\<rparr>"

definition candlesFor :: "candle list \<Rightarrow> icandle list" where
  "candlesFor cs = map candleFor cs"

end
