(* ===== verification/Strategy_Spec.thy ===== *)
theory Strategy_Spec
  imports Candles
begin

text \<open>
  The strategy specification (internal/strategy/spec.go) and the price fields rules read
  (internal/indicator/source.go): the rule tree, its operands, sizing, brackets and costs. A nil
  \<open>Node\<close> is \<open>None\<close>.
\<close>

datatype source = SourceClose | SourceOpen | SourceHigh | SourceLow | SourceHL2 | SourceHLC3 | SourceOHLC4

fun source_value :: "source \<Rightarrow> icandle \<Rightarrow> f64" where
  "source_value SourceOpen c = iOpen c"
| "source_value SourceHigh c = iHigh c"
| "source_value SourceLow c = iLow c"
| "source_value SourceHL2 c = (iHigh c + iLow c) / Fin 2"
| "source_value SourceHLC3 c = (iHigh c + iLow c + iClose c) / Fin 3"
| "source_value SourceOHLC4 c = (iOpen c + iHigh c + iLow c + iClose c) / Fin 4"
| "source_value SourceClose c = iClose c"

datatype price_field = FieldVolume | FieldSource source

fun field_value :: "price_field \<Rightarrow> icandle \<Rightarrow> f64" where
  "field_value FieldVolume c = iVolume c"
| "field_value (FieldSource s) c = source_value s c"

datatype comparator =
  OpGT | OpLT | OpGTE | OpLTE | OpEQ | OpCrossesAbove | OpCrossesBelow | OpRising | OpFalling | OpBetween

datatype operand_kind = OperandInput | OperandField | OperandLiteral

record operand =
  oKind :: operand_kind
  oInput :: string
  oOutput :: string
  oField :: price_field
  oValue :: f64
  oBack :: int

datatype level_type = LevelPct | LevelATR

record level =
  lType :: level_type
  lValue :: f64
  lPeriod :: int
  lMult :: f64

datatype node =
    All "node list"
  | Any "node list"
  | Not node
  | Compare comparator "operand list"
  | StopLoss level
  | TakeProfit level

datatype sizing_type = SizeFixedQty | SizePctEquity | SizeFixedCash | SizeRiskPct

record sizing =
  szType :: sizing_type
  szValue :: f64

record costs =
  BrokerageCents :: i64
  FeeBPS :: f64
  SlippageBPS :: f64

text \<open>\<open>DefaultCosts\<close>: B3's fees, not zero.\<close>

definition defaultCosts :: costs where
  "defaultCosts = \<lparr>BrokerageCents = 0, FeeBPS = rnd (325 / 100), SlippageBPS = Fin 5\<rparr>"

definition MaxDepth :: nat where "MaxDepth = 8"

definition MaxNodes :: nat where "MaxNodes = 200"

definition MaxBack :: nat where "MaxBack = 500"

definition arity :: "comparator \<Rightarrow> nat \<times> nat" where
  "arity op = (case op of OpRising \<Rightarrow> (1, 2) | OpFalling \<Rightarrow> (1, 2) | OpBetween \<Rightarrow> (3, 3) | _ \<Rightarrow> (2, 2))"

end
