(* ===== verification/Indicator_Base.thy ===== *)
theory Indicator_Base
  imports Strategy_Spec
begin

text \<open>
  The building blocks of the streaming indicators (internal/indicator/ring.go, smooth.go, ema.go,
  wma.go, extreme.go, atr.go and adline.go): fixed-size rings, windows with a running variance,
  Wilder smoothing, exponential and weighted averages and the monotone queues behind sliding
  extremes. Each is a record of its Go fields with one function per method; a constructor takes
  the Go \<open>int\<close> and applies the \<open>max(\<dots>, 1)\<close> the code applies.
\<close>

section \<open>Square roots\<close>

fun isqrt :: "nat \<Rightarrow> nat" where
  "isqrt n =
     (if n = 0 then 0
      else let r = 2 * isqrt (n div 4) in if (r + 1) * (r + 1) \<le> n then r + 1 else r)"

declare isqrt.simps [simp del]

lemma isqrt_bounds: "isqrt n * isqrt n \<le> n \<and> n < (isqrt n + 1) * (isqrt n + 1)"
proof (induction n rule: isqrt.induct)
  case (1 n)
  show ?case
  proof (cases "n = 0")
    case True
    then show ?thesis by (simp add: isqrt.simps [of 0])
  next
    case False
    let ?s = "isqrt (n div 4)"
    have IH: "?s * ?s \<le> n div 4" "n div 4 < (?s + 1) * (?s + 1)" using 1 False by auto
    obtain p where p: "p = ?s * ?s" by simp
    have "p \<le> n div 4" "n div 4 < p + 2 * ?s + 1" using IH by (simp_all add: p algebra_simps)
    then have "4 * p \<le> n" and "n < 4 * p + 8 * ?s + 4" by linarith+
    then have "(2 * ?s) * (2 * ?s) \<le> n" and "n < (2 * ?s + 2) * (2 * ?s + 2)"
      by (simp_all add: p algebra_simps)
    then show ?thesis using False by (simp add: isqrt.simps [of n] Let_def)
  qed
qed

text \<open>\<open>math.Sqrt\<close> is correctly rounded: the integer part of the root in units of its last place,
  then the comparison of the square with the midpoint. (The root of a normal or subnormal value is
  normal, and an exact tie cannot arise.)\<close>

fun math_Sqrt :: "f64 \<Rightarrow> f64" where
  "math_Sqrt (Fin q) =
     (if q < 0 then NaN
      else if q = 0 then Fin 0
      else
        let u = pow2 (ilog2 q div 2 - 52); x = q / (u * u); n = int (isqrt (nat \<lfloor>x\<rfloor>))
        in Fin (of_int (if x < (of_int n + 1 / 2) * (of_int n + 1 / 2) then n else n + 1) * u))"
| "math_Sqrt NInf = NaN"
| "math_Sqrt x = x"

section \<open>The ring\<close>

record ring =
  rValues :: "f64 list"
  rNext :: nat
  rCount :: nat
  rTotal :: f64

definition newRing :: "int \<Rightarrow> ring" where
  "newRing n = \<lparr>rValues = replicate (nat (max n 1)) 0, rNext = 0, rCount = 0, rTotal = 0\<rparr>"

definition ring_push :: "f64 \<Rightarrow> ring \<Rightarrow> ring" where
  "ring_push v r =
     (let evicted = rValues r ! rNext r in
      \<lparr>rValues = (rValues r)[rNext r := v],
       rNext = (rNext r + 1) mod length (rValues r),
       rCount = (if rCount r < length (rValues r) then rCount r + 1 else rCount r),
       rTotal = rTotal r + (v - evicted)\<rparr>)"

definition ring_evicted :: "ring \<Rightarrow> f64" where
  "ring_evicted r = rValues r ! rNext r"

definition ring_at :: "ring \<Rightarrow> int \<Rightarrow> f64" where
  "ring_at r i =
     (if i < 0 \<or> i \<ge> int (rCount r) then 0
      else
        let n = length (rValues r); start = (rNext r + n - rCount r) mod n
        in rValues r ! ((start + nat i) mod n))"

definition ring_full :: "ring \<Rightarrow> bool" where
  "ring_full r \<longleftrightarrow> rCount r = length (rValues r)"

definition ring_mean :: "ring \<Rightarrow> f64" where
  "ring_mean r = (if rCount r = 0 then 0 else rTotal r / float_of_int (int (rCount r)))"

definition ring_reset :: "ring \<Rightarrow> ring" where
  "ring_reset r = \<lparr>rValues = replicate (length (rValues r)) 0, rNext = 0, rCount = 0, rTotal = 0\<rparr>"

section \<open>The window with a running variance\<close>

record window =
  wRing :: ring
  wSqDev :: f64

definition newWindow :: "int \<Rightarrow> window" where
  "newWindow n = \<lparr>wRing = newRing n, wSqDev = 0\<rparr>"

definition window_push :: "f64 \<Rightarrow> window \<Rightarrow> window" where
  "window_push v w =
     (let before = ring_mean (wRing w); evicted = ring_evicted (wRing w);
          ring = ring_push v (wRing w); after = ring_mean ring in
      \<lparr>wRing = ring,
       wSqDev = wSqDev w +
         (if ring_full (wRing w) then (v - evicted) * (v - after + evicted - before)
          else (v - before) * (v - after))\<rparr>)"

definition window_stddev :: "window \<Rightarrow> f64" where
  "window_stddev w =
     (if rCount (wRing w) = 0 then 0
      else math_Sqrt (math_Max (wSqDev w) 0 / float_of_int (int (rCount (wRing w)))))"

definition window_reset :: "window \<Rightarrow> window" where
  "window_reset w = \<lparr>wRing = ring_reset (wRing w), wSqDev = 0\<rparr>"

section \<open>Wilder smoothing\<close>

record wilder =
  wlPeriod :: int
  wlSum :: f64
  wlCount :: int
  wlValue :: f64
  wlReady :: bool

definition newWilder :: "int \<Rightarrow> wilder" where
  "newWilder period = \<lparr>wlPeriod = max period 1, wlSum = 0, wlCount = 0, wlValue = 0, wlReady = False\<rparr>"

definition wilder_push :: "f64 \<Rightarrow> wilder \<Rightarrow> wilder" where
  "wilder_push v w =
     (if wlReady w then w\<lparr>wlValue := wlValue w + (v - wlValue w) / float_of_int (wlPeriod w)\<rparr>
      else
        let w1 = w\<lparr>wlSum := wlSum w + v, wlCount := wlCount w + 1\<rparr>
        in if wlCount w1 = wlPeriod w1
           then w1\<lparr>wlValue := wlSum w1 / float_of_int (wlPeriod w1), wlReady := True\<rparr>
           else w1)"

definition wilder_reset :: "wilder \<Rightarrow> wilder" where
  "wilder_reset w = w\<lparr>wlSum := 0, wlCount := 0, wlValue := 0, wlReady := False\<rparr>"

section \<open>Exponential averages\<close>

record ema =
  emPeriod :: int
  emAlpha :: f64
  emSeed :: ring
  emValue :: f64
  emReady :: bool

definition newEMA :: "int \<Rightarrow> ema" where
  "newEMA p =
     (let period = max p 1 in
      \<lparr>emPeriod = period, emAlpha = Fin 2 / float_of_int (period + 1), emSeed = newRing period,
       emValue = 0, emReady = False\<rparr>)"

definition ema_push :: "f64 \<Rightarrow> ema \<Rightarrow> ema" where
  "ema_push v e =
     (if emReady e then e\<lparr>emValue := emValue e + emAlpha e * (v - emValue e)\<rparr>
      else
        let seed = ring_push v (emSeed e)
        in if ring_full seed then e\<lparr>emSeed := seed, emValue := ring_mean seed, emReady := True\<rparr>
           else e\<lparr>emSeed := seed\<rparr>)"

definition ema_reset :: "ema \<Rightarrow> ema" where
  "ema_reset e = e\<lparr>emSeed := ring_reset (emSeed e), emValue := 0, emReady := False\<rparr>"

section \<open>Weighted averages\<close>

record wma =
  wmPeriod :: int
  wmWeight :: f64
  wmWindow :: ring
  wmNumerator :: f64
  wmSeeded :: bool
  wmValue :: f64
  wmReady :: bool

definition newWMA :: "int \<Rightarrow> wma" where
  "newWMA p =
     (let period = max p 1 in
      \<lparr>wmPeriod = period, wmWeight = float_of_int (period * (period + 1)) / Fin 2,
       wmWindow = newRing period, wmNumerator = 0, wmSeeded = False, wmValue = 0, wmReady = False\<rparr>)"

definition wma_push :: "f64 \<Rightarrow> wma \<Rightarrow> wma" where
  "wma_push v w =
     (let previous = rTotal (wmWindow w); window = ring_push v (wmWindow w) in
      if \<not> ring_full window then w\<lparr>wmWindow := window\<rparr>
      else
        let numerator =
          (if wmSeeded w then wmNumerator w + (float_of_int (wmPeriod w) * v - previous)
           else fold (\<lambda>i acc. acc + float_of_int (i + 1) * ring_at window i) [0..wmPeriod w - 1] 0)
        in w\<lparr>wmWindow := window, wmNumerator := numerator, wmSeeded := True,
             wmValue := numerator / wmWeight w, wmReady := True\<rparr>)"

definition wma_reset :: "wma \<Rightarrow> wma" where
  "wma_reset w =
     w\<lparr>wmWindow := ring_reset (wmWindow w), wmNumerator := 0, wmSeeded := False, wmValue := 0,
       wmReady := False\<rparr>"

section \<open>Sliding extremes\<close>

record extreme =
  eSize :: nat
  eHighest :: bool
  eValues :: "f64 list"
  eAges :: "int list"
  eHead :: nat
  eCount :: nat
  eSeen :: int

definition newExtreme :: "int \<Rightarrow> bool \<Rightarrow> extreme" where
  "newExtreme s highest =
     (let n = nat (max s 1) in
      \<lparr>eSize = n, eHighest = highest, eValues = replicate n 0, eAges = replicate n 0,
       eHead = 0, eCount = 0, eSeen = 0\<rparr>)"

text \<open>The loop that drops the queue's tail while it is dominated by the new value: the number of
  entries it keeps.\<close>

fun extreme_keep :: "extreme \<Rightarrow> f64 \<Rightarrow> nat \<Rightarrow> nat" where
  "extreme_keep e v 0 = 0"
| "extreme_keep e v (Suc n) =
     (let tail = (eHead e + n) mod eSize e in
      if eHighest e \<and> eValues e ! tail > v then Suc n
      else if \<not> eHighest e \<and> eValues e ! tail < v then Suc n
      else extreme_keep e v n)"

definition extreme_expire :: "extreme \<Rightarrow> extreme" where
  "extreme_expire e =
     (if eCount e > 0 \<and> eAges e ! eHead e \<le> eSeen e - int (eSize e)
      then e\<lparr>eHead := (eHead e + 1) mod eSize e, eCount := eCount e - 1\<rparr>
      else e)"

definition extreme_push :: "f64 \<Rightarrow> extreme \<Rightarrow> extreme" where
  "extreme_push v e0 =
     (let e = extreme_expire e0;
          kept = extreme_keep e v (eCount e);
          slot = (eHead e + kept) mod eSize e
      in e\<lparr>eValues := (eValues e)[slot := v], eAges := (eAges e)[slot := eSeen e],
           eCount := kept + 1, eSeen := eSeen e + 1\<rparr>)"

definition extreme_full :: "extreme \<Rightarrow> bool" where
  "extreme_full e \<longleftrightarrow> eSeen e \<ge> int (eSize e)"

definition extreme_value :: "extreme \<Rightarrow> f64" where
  "extreme_value e = (if eCount e = 0 then 0 else eValues e ! eHead e)"

definition extreme_age :: "extreme \<Rightarrow> int" where
  "extreme_age e = (if eCount e = 0 then 0 else eSeen e - 1 - eAges e ! eHead e)"

definition extreme_reset :: "extreme \<Rightarrow> extreme" where
  "extreme_reset e =
     e\<lparr>eValues := replicate (length (eValues e)) 0, eAges := replicate (length (eAges e)) 0,
       eHead := 0, eCount := 0, eSeen := 0\<rparr>"

section \<open>True range\<close>

record trueRange =
  trClose :: f64
  trSeen :: bool

definition trueRange_push :: "icandle \<Rightarrow> trueRange \<Rightarrow> f64 option \<times> trueRange" where
  "trueRange_push c t =
     (if \<not> trSeen t then (None, \<lparr>trClose = iClose c, trSeen = True\<rparr>)
      else
        (Some (math_Max (iHigh c - iLow c) (math_Max \<bar>iHigh c - trClose t\<bar> \<bar>iLow c - trClose t\<bar>)),
         t\<lparr>trClose := iClose c\<rparr>))"

definition trueRange_reset :: "trueRange \<Rightarrow> trueRange" where
  "trueRange_reset t = \<lparr>trClose = 0, trSeen = False\<rparr>"

record atr =
  atPeriod :: int
  atSpan :: trueRange
  atSmooth :: wilder

definition newATR :: "int \<Rightarrow> atr" where
  "newATR p =
     (let period = max p 1 in
      \<lparr>atPeriod = period, atSpan = \<lparr>trClose = 0, trSeen = False\<rparr>, atSmooth = newWilder period\<rparr>)"

definition atr_push :: "icandle \<Rightarrow> atr \<Rightarrow> atr" where
  "atr_push c a =
     (case trueRange_push c (atSpan a) of
        (None, sp) \<Rightarrow> a\<lparr>atSpan := sp\<rparr>
      | (Some v, sp) \<Rightarrow> a\<lparr>atSpan := sp, atSmooth := wilder_push v (atSmooth a)\<rparr>)"

definition atr_reset :: "atr \<Rightarrow> atr" where
  "atr_reset a = a\<lparr>atSpan := trueRange_reset (atSpan a), atSmooth := wilder_reset (atSmooth a)\<rparr>"

section \<open>Accumulation\<close>

definition accumulation_push :: "icandle \<Rightarrow> f64 \<Rightarrow> f64" where
  "accumulation_push c acc =
     (if iHigh c > iLow c
      then acc + ((iClose c - iLow c) - (iHigh c - iClose c)) / (iHigh c - iLow c) * iVolume c
      else acc)"

section \<open>Counting\<close>

text \<open>
  What a block knows of how many values it was pushed: a ring is full once as many values went in as
  it has places, a smoother is ready once it saw its period. These are the laws the warm-up of every
  indicator is read off.
\<close>

named_theorems aged_simps \<open>counting laws of the building blocks\<close>

definition ring_size :: "ring \<Rightarrow> nat" where
  "ring_size r = length (rValues r)"

definition ring_aged :: "nat \<Rightarrow> ring \<Rightarrow> bool" where
  "ring_aged n r \<longleftrightarrow> rCount r = min n (ring_size r) \<and> 0 < ring_size r"

lemma ring_size_simps [simp]:
  "ring_size (newRing k) = nat (max k 1)"
  "ring_size (ring_push v r) = ring_size r"
  "ring_size (ring_reset r) = ring_size r"
  by (simp_all add: ring_size_def newRing_def ring_push_def ring_reset_def Let_def)

lemma ring_aged_new [aged_simps]: "ring_aged 0 (newRing k)"
  by (simp add: ring_aged_def ring_size_def newRing_def)

lemma ring_aged_reset [aged_simps]: "ring_aged n r \<Longrightarrow> ring_aged 0 (ring_reset r)"
  by (simp add: ring_aged_def ring_size_def ring_reset_def)

lemma ring_aged_push [aged_simps]: "ring_aged n r \<Longrightarrow> ring_aged (Suc n) (ring_push v r)"
  by (auto simp: ring_aged_def ring_size_def ring_push_def Let_def)

lemma ring_aged_full [aged_simps]: "ring_aged n r \<Longrightarrow> ring_full r \<longleftrightarrow> ring_size r \<le> n"
  by (auto simp: ring_aged_def ring_full_def ring_size_def)

lemma ring_reset_push [simp]: "ring_reset (ring_push v r) = ring_reset r"
  by (simp add: ring_reset_def ring_push_def Let_def)

lemma ring_reset_new [simp]: "ring_reset (newRing k) = newRing k"
  by (simp add: ring_reset_def newRing_def)

lemma window_ring_simps [simp]:
  "wRing (window_push v w) = ring_push v (wRing w)"
  "wRing (newWindow k) = newRing k"
  "wRing (window_reset w) = ring_reset (wRing w)"
  by (simp_all add: window_push_def newWindow_def window_reset_def Let_def)

lemma window_reset_push [simp]: "window_reset (window_push v w) = window_reset w"
  by (simp add: window_reset_def)

lemma window_reset_new [simp]: "window_reset (newWindow k) = newWindow k"
  by (simp add: window_reset_def newWindow_def)

definition wilder_aged :: "nat \<Rightarrow> wilder \<Rightarrow> bool" where
  "wilder_aged n w \<longleftrightarrow> 0 < wlPeriod w \<and> (wlReady w \<longleftrightarrow> nat (wlPeriod w) \<le> n)
     \<and> (if wlReady w then True else wlCount w = int n)"

lemma wilder_period_simps [simp]:
  "wlPeriod (newWilder k) = max k 1"
  "wlPeriod (wilder_push v w) = wlPeriod w"
  "wlPeriod (wilder_reset w) = wlPeriod w"
  by (simp_all add: newWilder_def wilder_push_def wilder_reset_def Let_def)

lemma wilder_aged_new [aged_simps]: "wilder_aged 0 (newWilder k)"
  by (simp add: wilder_aged_def newWilder_def)

lemma wilder_aged_push [aged_simps]: "wilder_aged n w \<Longrightarrow> wilder_aged (Suc n) (wilder_push v w)"
  by (auto simp: wilder_aged_def wilder_push_def Let_def split: if_splits)

lemma wilder_aged_ready [aged_simps]: "wilder_aged n w \<Longrightarrow> wlReady w \<longleftrightarrow> nat (wlPeriod w) \<le> n"
  by (simp add: wilder_aged_def)

lemma wilder_aged_reset [aged_simps]: "wilder_aged n w \<Longrightarrow> wilder_aged 0 (wilder_reset w)"
  by (auto simp: wilder_aged_def wilder_reset_def)

lemma wilder_reset_push [simp]: "wilder_reset (wilder_push v w) = wilder_reset w"
  by (simp add: wilder_reset_def wilder_push_def Let_def)

lemma wilder_reset_new [simp]: "wilder_reset (newWilder k) = newWilder k"
  by (simp add: wilder_reset_def newWilder_def)

definition ema_aged :: "nat \<Rightarrow> ema \<Rightarrow> bool" where
  "ema_aged n e \<longleftrightarrow> 0 < emPeriod e \<and> ring_size (emSeed e) = nat (emPeriod e)
     \<and> (emReady e \<longleftrightarrow> nat (emPeriod e) \<le> n) \<and> (if emReady e then True else ring_aged n (emSeed e))"

lemma ema_period_simps [simp]:
  "emPeriod (newEMA k) = max k 1"
  "emPeriod (ema_push v e) = emPeriod e"
  "emPeriod (ema_reset e) = emPeriod e"
  by (simp_all add: newEMA_def ema_push_def ema_reset_def Let_def)

lemma ema_aged_new [aged_simps]: "ema_aged 0 (newEMA k)"
  by (simp add: ema_aged_def newEMA_def Let_def ring_aged_new)

lemma ema_aged_push [aged_simps]: "ema_aged n e \<Longrightarrow> ema_aged (Suc n) (ema_push v e)"
  using ring_aged_push [of n "emSeed e" v] ring_aged_full [of "Suc n" "ring_push v (emSeed e)"]
  by (auto simp: ema_aged_def ema_push_def Let_def split: if_splits)

lemma ema_aged_ready [aged_simps]: "ema_aged n e \<Longrightarrow> emReady e \<longleftrightarrow> nat (emPeriod e) \<le> n"
  by (simp add: ema_aged_def)

lemma ema_reset_push [simp]: "ema_reset (ema_push v e) = ema_reset e"
  by (simp add: ema_reset_def ema_push_def Let_def)

lemma ema_reset_new [simp]: "ema_reset (newEMA k) = newEMA k"
  by (simp add: ema_reset_def newEMA_def Let_def)

definition wma_aged :: "nat \<Rightarrow> wma \<Rightarrow> bool" where
  "wma_aged n w \<longleftrightarrow> 0 < wmPeriod w \<and> ring_size (wmWindow w) = nat (wmPeriod w)
     \<and> (wmReady w \<longleftrightarrow> nat (wmPeriod w) \<le> n) \<and> ring_aged n (wmWindow w)"

lemma wma_period_simps [simp]:
  "wmPeriod (newWMA k) = max k 1"
  "wmPeriod (wma_push v w) = wmPeriod w"
  "wmPeriod (wma_reset w) = wmPeriod w"
  by (simp_all add: newWMA_def wma_push_def wma_reset_def Let_def)

lemma wma_aged_new [aged_simps]: "wma_aged 0 (newWMA k)"
  by (simp add: wma_aged_def newWMA_def Let_def ring_aged_new)

lemma wma_aged_push [aged_simps]: "wma_aged n w \<Longrightarrow> wma_aged (Suc n) (wma_push v w)"
  using ring_aged_push [of n "wmWindow w" v] ring_aged_full [of "Suc n" "ring_push v (wmWindow w)"]
  by (auto simp: wma_aged_def wma_push_def Let_def split: if_splits)

lemma wma_aged_ready [aged_simps]: "wma_aged n w \<Longrightarrow> wmReady w \<longleftrightarrow> nat (wmPeriod w) \<le> n"
  by (simp add: wma_aged_def)

lemma wma_reset_push [simp]: "wma_reset (wma_push v w) = wma_reset w"
  by (simp add: wma_reset_def wma_push_def Let_def)

lemma wma_reset_new [simp]: "wma_reset (newWMA k) = newWMA k"
  by (simp add: wma_reset_def newWMA_def Let_def)

definition extreme_aged :: "nat \<Rightarrow> extreme \<Rightarrow> bool" where
  "extreme_aged n e \<longleftrightarrow> eSeen e = int n"

lemma extreme_expire_simps [simp]:
  "eSize (extreme_expire e) = eSize e" "eSeen (extreme_expire e) = eSeen e"
  "eHighest (extreme_expire e) = eHighest e" "eValues (extreme_expire e) = eValues e"
  "eAges (extreme_expire e) = eAges e"
  by (simp_all add: extreme_expire_def)

lemma extreme_size_simps [simp]:
  "eSize (newExtreme k b) = nat (max k 1)"
  "eSize (extreme_push v e) = eSize e"
  "eSize (extreme_reset e) = eSize e"
  by (simp_all add: newExtreme_def extreme_push_def extreme_reset_def Let_def)

lemma extreme_aged_new [aged_simps]: "extreme_aged 0 (newExtreme k b)"
  by (simp add: extreme_aged_def newExtreme_def Let_def)

lemma extreme_aged_push [aged_simps]: "extreme_aged n e \<Longrightarrow> extreme_aged (Suc n) (extreme_push v e)"
  by (simp add: extreme_aged_def extreme_push_def Let_def)

lemma extreme_aged_full [aged_simps]: "extreme_aged n e \<Longrightarrow> extreme_full e \<longleftrightarrow> eSize e \<le> n"
  by (simp add: extreme_aged_def extreme_full_def)

lemma extreme_reset_push [simp]: "extreme_reset (extreme_push v e) = extreme_reset e"
  by (simp add: extreme_reset_def extreme_push_def Let_def extreme_expire_def)

lemma extreme_reset_new [simp]: "extreme_reset (newExtreme k b) = newExtreme k b"
  by (simp add: extreme_reset_def newExtreme_def Let_def)

definition atr_aged :: "nat \<Rightarrow> atr \<Rightarrow> bool" where
  "atr_aged n a \<longleftrightarrow> (trSeen (atSpan a) \<longleftrightarrow> 0 < n) \<and> wlPeriod (atSmooth a) = atPeriod a
     \<and> wilder_aged (n - 1) (atSmooth a)"

lemma atr_period_simps [simp]:
  "atPeriod (newATR k) = max k 1"
  "atPeriod (atr_push c a) = atPeriod a"
  "atPeriod (atr_reset a) = atPeriod a"
  by (auto simp: newATR_def atr_push_def atr_reset_def Let_def split: option.splits prod.splits)

lemma atr_aged_new [aged_simps]: "atr_aged 0 (newATR k)"
  by (simp add: atr_aged_def newATR_def Let_def wilder_aged_new)

lemma atr_aged_push [aged_simps]: "atr_aged n a \<Longrightarrow> atr_aged (Suc n) (atr_push c a)"
  using wilder_aged_push [of "n - 1" "atSmooth a"]
  by (auto simp: atr_aged_def atr_push_def trueRange_push_def split: if_splits)

lemma atr_aged_ready [aged_simps]: "atr_aged n a \<Longrightarrow> wlReady (atSmooth a) \<longleftrightarrow> nat (atPeriod a) < n"
  by (auto simp: atr_aged_def wilder_aged_def)

lemma trueRange_reset_const [simp]: "trueRange_reset t = \<lparr>trClose = 0, trSeen = False\<rparr>"
  by (simp add: trueRange_reset_def)

lemma atr_reset_push [simp]: "atr_reset (atr_push c a) = atr_reset a"
  by (simp add: atr_reset_def atr_push_def split: option.splits prod.splits)

lemma atr_reset_new [simp]: "atr_reset (newATR k) = newATR k"
  by (simp add: atr_reset_def newATR_def Let_def)

end
