(* ===== verification/Windows.thy ===== *)
theory Windows
  imports Indicator_Base
begin

text \<open>
  The rings and the sliding extremes refine the window of the most recent values. Both are history
  machines: the relation \<open>ring_repr\<close> ties a ring to the values pushed so far, and \<open>extreme_repr\<close> ties
  the circular monotone queue of \<open>extreme\<close> to the list of the undominated values of the window.
\<close>

section \<open>Rings\<close>

definition ring_repr :: "f64 list \<Rightarrow> ring \<Rightarrow> bool" where
  "ring_repr h r \<longleftrightarrow>
     ring_aged (length h) r \<and> rNext r = length h mod ring_size r \<and>
     (\<forall>p. length h - rCount r \<le> p \<and> p < length h \<longrightarrow> rValues r ! (p mod ring_size r) = h ! p)"

lemma ring_repr_push:
  assumes "ring_repr h r"
  shows "ring_repr (h @ [v]) (ring_push v r)"
proof -
  let ?n = "ring_size r" and ?L = "length h"
  have n: "0 < ?n" and c: "rCount r = min ?L ?n" and nx: "rNext r = ?L mod ?n"
    using assms by (simp_all add: ring_repr_def ring_aged_def)
  have age: "ring_aged (Suc ?L) (ring_push v r)"
    using assms by (simp add: ring_repr_def ring_aged_push)
  then have c': "rCount (ring_push v r) = min (Suc ?L) ?n" by (simp add: ring_aged_def)
  have "rValues (ring_push v r) ! (p mod ?n) = (h @ [v]) ! p"
    if "Suc ?L - rCount (ring_push v r) \<le> p" "p < Suc ?L" for p
  proof (cases "p = ?L")
    case True
    then show ?thesis using n nx by (simp add: ring_push_def Let_def ring_size_def)
  next
    case False
    then have p: "p < ?L" "?L < p + ?n" using that c' n by auto
    then have "rValues r ! (p mod ?n) = h ! p" using assms c by (simp add: ring_repr_def)
    moreover have "p mod ?n \<noteq> ?L mod ?n" using p mod_neq_window by blast
    ultimately show ?thesis using nx p by (simp add: ring_push_def Let_def nth_append)
  qed
  moreover have "rNext (ring_push v r) = Suc ?L mod ?n"
    using nx by (simp add: ring_push_def Let_def ring_size_def mod_Suc_eq)
  ultimately show ?thesis using age by (simp add: ring_repr_def)
qed

interpretation ring: history_machine ring_push ring_repr
  by unfold_locales (rule ring_repr_push)

lemma ring_repr_new: "ring_repr [] (newRing k)"
  by (simp add: ring_repr_def ring_aged_new) (simp add: newRing_def)

lemma ring_repr_at:
  assumes r: "ring_repr h r" and i: "i < min (ring_size r) (length h)"
  shows "ring_at r (int i) = last_n (ring_size r) h ! i"
proof -
  let ?n = "ring_size r" and ?L = "length h"
  have n: "0 < ?n" and c: "rCount r = min ?L ?n" and nx: "rNext r = ?L mod ?n"
    using r by (simp_all add: ring_repr_def ring_aged_def)
  have idx: "((?L mod ?n + ?n - rCount r) mod ?n + i) mod ?n = (?L - rCount r + i) mod ?n"
  proof (cases "?n \<le> ?L")
    case True
    then have "(?L - ?n + i) mod ?n = (?L + i) mod ?n"
      by (metis Nat.add_diff_assoc2 le_add_diff_inverse2 mod_add_self2 add.commute add.assoc diff_add_assoc2)
    then show ?thesis using True c n by (simp add: min_def mod_add_left_eq mod_add_right_eq)
  next
    case False
    then show ?thesis using c by simp
  qed
  have "rValues r ! ((?L - rCount r + i) mod ?n) = h ! (?L - rCount r + i)"
    by (rule r [unfolded ring_repr_def, THEN conjunct2, THEN conjunct2, rule_format]) (use i c in auto)
  then show ?thesis using i c nx idx nth_last_n [of i ?n h]
    by (auto simp add: ring_at_def Let_def ring_size_def min.commute)
qed

text \<open>A ring of \<open>k\<close> places holds exactly the last \<open>k\<close> values pushed, oldest first: reading it at
  every index up to its count gives the window, and an index outside reads 0.\<close>

theorem ring_holds_window:
  "let r = fold ring_push vs (newRing k)
   in map (ring_at r) [0..int (rCount r) - 1] = last_n (nat (max k 1)) vs
      \<and> (ring_full r \<longleftrightarrow> nat (max k 1) \<le> length vs)
      \<and> ring_at r (-1) = 0 \<and> ring_at r (int (rCount r)) = 0"
proof -
  define r where "r = fold ring_push vs (newRing k)"
  have rep: "ring_repr vs r" unfolding r_def by (rule ring.repr_run [OF ring_repr_new])
  have "ring_size (fold ring_push ws s) = ring_size s" for ws s
    by (induction ws arbitrary: s) simp_all
  then have n: "ring_size r = nat (max k 1)" by (simp add: r_def)
  have age: "ring_aged (length vs) r" using rep by (simp add: ring_repr_def)
  have c: "rCount r = min (length vs) (ring_size r)" using age by (simp add: ring_aged_def)
  have "map (ring_at r) [0..int (rCount r) - 1] = map (\<lambda>i. ring_at r (int i)) [0..<rCount r]"
    by (rule nth_equalityI) simp_all
  also have "\<dots> = last_n (ring_size r) vs"
    by (rule nth_equalityI) (auto simp: c ring_repr_at [OF rep])
  finally show ?thesis
    unfolding Let_def r_def [symmetric] using ring_aged_full [OF age] n by (simp add: ring_at_def)
qed

section \<open>Sliding extremes\<close>

text \<open>The queue as a list of pairs of an age and a value, and the list operations the circular code
  implements.\<close>

definition equeue :: "extreme \<Rightarrow> (int \<times> f64) list" where
  "equeue e =
     map (\<lambda>k. let s = (eHead e + k) mod eSize e in (eAges e ! s, eValues e ! s)) [0..<eCount e]"

definition expire_list :: "int \<Rightarrow> (int \<times> f64) list \<Rightarrow> (int \<times> f64) list" where
  "expire_list oldest q = (case q of [] \<Rightarrow> [] | p # q' \<Rightarrow> if fst p \<le> oldest then q' else q)"

definition better :: "bool \<Rightarrow> f64 \<Rightarrow> f64 \<Rightarrow> bool" where
  "better highest x v \<longleftrightarrow> (highest \<and> x > v) \<or> (\<not> highest \<and> x < v)"

definition keep_list :: "bool \<Rightarrow> f64 \<Rightarrow> (int \<times> f64) list \<Rightarrow> (int \<times> f64) list" where
  "keep_list highest v q = rev (dropWhile (\<lambda>p. \<not> better highest (snd p) v) (rev q))"

definition wf_extreme :: "extreme \<Rightarrow> bool" where
  "wf_extreme e \<longleftrightarrow> 0 < eSize e \<and> length (eValues e) = eSize e \<and> length (eAges e) = eSize e
     \<and> eCount e \<le> eSize e \<and> eHead e < eSize e"

lemma length_equeue [simp]: "length (equeue e) = eCount e"
  by (simp add: equeue_def)

lemma equeue_Suc:
  assumes "wf_extreme e" and "eCount e = Suc c"
  shows "equeue e = (eAges e ! eHead e, eValues e ! eHead e)
    # equeue (e\<lparr>eHead := (eHead e + 1) mod eSize e, eCount := c\<rparr>)"
  using assms
  by (simp add: equeue_def wf_extreme_def upt_conv_Cons map_Suc_upt [symmetric] mod_add_left_eq o_def
      Let_def del: upt_Suc)

lemma equeue_expire:
  assumes "wf_extreme e"
  shows "equeue (extreme_expire e) = expire_list (eSeen e - int (eSize e)) (equeue e)"
proof (cases "eCount e")
  case 0
  then show ?thesis by (simp add: equeue_def extreme_expire_def expire_list_def)
next
  case (Suc c)
  then show ?thesis using equeue_Suc [OF assms Suc] by (simp add: extreme_expire_def expire_list_def)
qed

lemma wf_expire: "wf_extreme e \<Longrightarrow> wf_extreme (extreme_expire e)"
  by (auto simp: wf_extreme_def extreme_expire_def)

lemma take_keep:
  "c \<le> eCount e \<Longrightarrow>
   extreme_keep e v c \<le> c \<and>
   take (extreme_keep e v c) (equeue e) = keep_list (eHighest e) v (take c (equeue e))"
proof (induction c)
  case 0
  then show ?case by (simp add: keep_list_def)
next
  case (Suc c)
  have t: "take (Suc c) (equeue e) = take c (equeue e) @ [equeue e ! c]"
    using Suc.prems by (simp add: take_Suc_conv_app_nth)
  have n: "snd (equeue e ! c) = eValues e ! ((eHead e + c) mod eSize e)"
    using Suc.prems by (simp add: equeue_def Let_def)
  show ?case
    using Suc by (auto simp: t n keep_list_def better_def Let_def)
qed

lemma equeue_push:
  assumes wf: "wf_extreme e" and room: "length (expire_list (eSeen e - int (eSize e)) (equeue e)) < eSize e"
  defines "q \<equiv> expire_list (eSeen e - int (eSize e)) (equeue e)"
  shows "equeue (extreme_push v e) = keep_list (eHighest e) v q @ [(eSeen e, v)]"
    and "wf_extreme (extreme_push v e)"
proof -
  define x where "x = extreme_expire e"
  define k where "k = extreme_keep x v (eCount x)"
  have wx: "wf_extreme x" and qx: "equeue x = q"
    using wf_expire [OF wf] equeue_expire [OF wf] by (simp_all add: x_def q_def)
  have cx: "eCount x < eSize e" using room qx length_equeue [of x] by (simp add: q_def)
  have kk: "k \<le> eCount x" and tk: "take k q = keep_list (eHighest e) v q"
    using take_keep [of "eCount x" x v] qx length_equeue [of x] by (simp_all add: k_def x_def)
  have kn: "k < eSize e" using kk cx by simp
  have p: "extreme_push v e = x\<lparr>eValues := (eValues x)[(eHead x + k) mod eSize x := v],
      eAges := (eAges x)[(eHead x + k) mod eSize x := eSeen x], eCount := k + 1, eSeen := eSeen x + 1\<rparr>"
    by (simp add: extreme_push_def x_def k_def Let_def)
  have sx: "eSize x = eSize e" "eSeen x = eSeen e" by (simp_all add: x_def)
  have other: "(eHead x + i) mod eSize e \<noteq> (eHead x + k) mod eSize e" if "i < k" for i
    using mod_neq_window [of "eHead x + k" "eHead x + i" "eSize e"] that kn by simp
  have slot: "(eHead x + k) mod eSize e < eSize e" using wf by (simp add: wf_extreme_def)
  have "equeue (extreme_push v e) = map (\<lambda>i. equeue x ! i) [0..<k] @ [(eSeen e, v)]"
    using kk other [THEN not_sym] slot wx by (simp add: p equeue_def sx Let_def wf_extreme_def)
  also have "map (\<lambda>i. equeue x ! i) [0..<k] = take k q"
    using kk qx by (metis length_equeue map_nth take_map take_upt add.left_neutral)
  finally show "equeue (extreme_push v e) = keep_list (eHighest e) v q @ [(eSeen e, v)]"
    by (simp add: tk)
  show "wf_extreme (extreme_push v e)"
    using wx kn by (simp add: p wf_extreme_def sx)
qed

text \<open>The order of one direction: \<open>covers hi x v\<close> when \<open>v\<close> is at least as extreme as \<open>x\<close>.\<close>

definition covers :: "bool \<Rightarrow> f64 \<Rightarrow> f64 \<Rightarrow> bool" where
  "covers highest x v \<longleftrightarrow> (if highest then x \<le> v else v \<le> x)"

lemma covers_trans: "covers b x y \<Longrightarrow> covers b y z \<Longrightarrow> covers b x z"
  by (auto simp: covers_def split: if_splits intro: f64_le_trans)

lemma covers_refl: "x \<noteq> NaN \<Longrightarrow> covers b x x"
  by (simp add: covers_def f64_le_refl)

lemma not_better: "x \<noteq> NaN \<Longrightarrow> v \<noteq> NaN \<Longrightarrow> \<not> better b x v \<longleftrightarrow> covers b x v"
  by (auto simp: better_def covers_def f64_not_less)

lemma better_covers: "better b x v \<Longrightarrow> covers b v x"
  by (auto simp: better_def covers_def f64_less_le)

text \<open>What the queue knows of the window: the ages increase and are recent, each entry is the value of
  its age, every value of the window is covered by an entry at least as young, and younger entries
  are covered by older ones.\<close>

definition mono_queue :: "bool \<Rightarrow> nat \<Rightarrow> f64 list \<Rightarrow> (int \<times> f64) list \<Rightarrow> bool" where
  "mono_queue b n h q \<longleftrightarrow>
     sorted_wrt (\<lambda>p p'. fst p < fst p' \<and> covers b (snd p') (snd p)) q \<and>
     (\<forall>p\<in>set q. 0 \<le> fst p \<and> int (length h) - int n \<le> fst p \<and> fst p < int (length h)
        \<and> snd p = h ! nat (fst p)) \<and>
     (\<forall>i<length h. int (length h) - int n \<le> int i \<longrightarrow>
        (\<exists>p\<in>set q. int i \<le> fst p \<and> covers b (h ! i) (snd p)))"

lemma queue_length:
  assumes "sorted_wrt (\<lambda>p p'. fst p < fst p' \<and> R p p') q"
    and "\<forall>p\<in>set q. int (length h) - int n < fst p \<and> fst p < int (length h)"
  shows "length q \<le> n - 1"
proof -
  have "sorted_wrt (<) (map fst q)"
    unfolding sorted_wrt_map by (rule sorted_wrt_mono_rel [OF _ assms(1)]) simp
  then have "distinct (map fst q)" by (simp add: strict_sorted_iff)
  moreover have "fst ` set q \<subseteq> {int (length h) - int n <..< int (length h)}"
    using assms(2) by auto
  ultimately show ?thesis
    using card_mono [of "{int (length h) - int n <..< int (length h)}" "fst ` set q"]
      distinct_card [of "map fst q"] by simp
qed

lemma expire_window:
  assumes m: "mono_queue b n h q"
  defines "q1 \<equiv> expire_list (int (length h) - int n) q"
  shows "set q1 = {p\<in>set q. int (length h) - int n < fst p}"
    and "sorted_wrt (\<lambda>p p'. fst p < fst p' \<and> covers b (snd p') (snd p)) q1"
proof -
  let ?o = "int (length h) - int n"
  have s: "sorted_wrt (\<lambda>p p'. fst p < fst p' \<and> covers b (snd p') (snd p)) q"
    and o: "\<forall>p\<in>set q. ?o \<le> fst p"
    using m by (auto simp: mono_queue_def)
  show "sorted_wrt (\<lambda>p p'. fst p < fst p' \<and> covers b (snd p') (snd p)) q1"
    using s by (cases q) (auto simp: q1_def expire_list_def)
  show "set q1 = {p\<in>set q. ?o < fst p}"
  proof (cases q)
    case (Cons p q')
    then have "\<forall>x\<in>set q'. ?o < fst x" using s o by fastforce
    then show ?thesis using Cons by (auto simp: q1_def expire_list_def)
  qed (simp add: q1_def expire_list_def)
qed

lemma keep_prefix: "\<exists>d. q = keep_list b v q @ d \<and> (\<forall>p\<in>set d. \<not> better b (snd p) v)
    \<and> (case rev (keep_list b v q) of [] \<Rightarrow> True | p # _ \<Rightarrow> better b (snd p) v)"
proof -
  let ?P = "\<lambda>p. \<not> better b (snd p) v"
  have "q = keep_list b v q @ rev (takeWhile ?P (rev q))"
    unfolding keep_list_def by (metis rev_append rev_rev_ident takeWhile_dropWhile_id)
  moreover have "\<forall>p\<in>set (rev (takeWhile ?P (rev q))). ?P p" by (auto dest: set_takeWhileD)
  moreover have "case rev (keep_list b v q) of [] \<Rightarrow> True | p # _ \<Rightarrow> better b (snd p) v"
  proof (cases "dropWhile ?P (rev q)")
    case (Cons p r)
    then have "\<not> ?P p" using hd_dropWhile [of ?P "rev q"] by simp
    then show ?thesis using Cons by (simp add: keep_list_def)
  next
    case Nil
    then show ?thesis by (simp only: keep_list_def rev_rev_ident list.case)
  qed
  ultimately show ?thesis by blast
qed

lemma mono_queue_push:
  assumes m: "mono_queue b n h q" and n: "0 < n" and nan: "NaN \<notin> set (h @ [v])"
  shows "mono_queue b n (h @ [v])
     (keep_list b v (expire_list (int (length h) - int n) q) @ [(int (length h), v)])"
proof -
  let ?L = "int (length h)"
  define q1 where "q1 = expire_list (?L - int n) q"
  obtain k d where k: "keep_list b v q1 = k" and d: "q1 = k @ d" "\<forall>p\<in>set d. \<not> better b (snd p) v"
    and last: "case rev k of [] \<Rightarrow> True | p # _ \<Rightarrow> better b (snd p) v"
    using keep_prefix [of q1 b v] by blast
  have s1: "set q1 = {p\<in>set q. ?L - int n < fst p}"
    and srt: "sorted_wrt (\<lambda>p p'. fst p < fst p' \<and> covers b (snd p') (snd p)) q1"
    using expire_window [OF m] by (simp_all add: q1_def)
  have vn: "v \<noteq> NaN" and hn: "h ! i \<noteq> NaN" if "i < length h" for i
    using nan that by (auto simp: in_set_conv_nth)
  have ent: "0 \<le> fst p \<and> ?L - int n < fst p \<and> fst p < ?L \<and> snd p = h ! nat (fst p)" if "p \<in> set q1" for p
    using m that s1 by (auto simp: mono_queue_def)
  have kq: "set k \<subseteq> set q1" by (simp add: d(1))
  have ksrt: "sorted_wrt (\<lambda>p p'. fst p < fst p' \<and> covers b (snd p') (snd p)) k"
    using srt by (simp add: d(1) sorted_wrt_append)
  have kv: "covers b v (snd p)" if p: "p \<in> set k" for p
  proof (cases k rule: rev_exhaust)
    case (snoc k' z)
    then have "better b (snd z) v" using last by simp
    then have "covers b v (snd z)" by (rule better_covers)
    moreover have "p = z \<or> covers b (snd z) (snd p)"
      using ksrt p snoc by (auto simp: sorted_wrt_append)
    ultimately show ?thesis using covers_trans by blast
  qed (use p in simp)
  have cov: "\<exists>p\<in>set (k @ [(?L, v)]). int i \<le> fst p \<and> covers b ((h @ [v]) ! i) (snd p)"
    if i: "i < length (h @ [v])" "int (length (h @ [v])) - int n \<le> int i" for i
  proof (cases "i = length h")
    case True
    then show ?thesis using covers_refl [of v b] nan by auto
  next
    case False
    then have il: "i < length h" using i by simp
    then obtain p where p: "p \<in> set q" "int i \<le> fst p" "covers b (h ! i) (snd p)"
      using m i by (fastforce simp: mono_queue_def)
    then have "p \<in> set q1" using s1 i by auto
    then consider "p \<in> set k" | "p \<in> set d" by (auto simp: d(1))
    then show ?thesis
    proof cases
      case 1
      then show ?thesis using p il by (auto simp: nth_append)
    next
      case 2
      have "snd p \<noteq> NaN" using ent [OF \<open>p \<in> set q1\<close>] hn [of "nat (fst p)"] nat_less_iff [of "fst p" "length h"] by auto
      then have "covers b (snd p) v" using d(2) 2 not_better [of "snd p" v b] nan by auto
      then show ?thesis using p il covers_trans by (auto simp: nth_append)
    qed
  qed
  show ?thesis
    unfolding q1_def [symmetric] k mono_queue_def
  proof (intro conjI)
    show "sorted_wrt (\<lambda>p p'. fst p < fst p' \<and> covers b (snd p') (snd p)) (k @ [(?L, v)])"
      using ksrt kv ent kq by (auto simp: sorted_wrt_append)
    show "\<forall>p\<in>set (k @ [(?L, v)]). 0 \<le> fst p \<and> int (length (h @ [v])) - int n \<le> fst p
        \<and> fst p < int (length (h @ [v])) \<and> snd p = (h @ [v]) ! nat (fst p)"
      using ent kq n by (fastforce simp: nth_append)
    show "\<forall>i<length (h @ [v]). int (length (h @ [v])) - int n \<le> int i \<longrightarrow>
        (\<exists>p\<in>set (k @ [(?L, v)]). int i \<le> fst p \<and> covers b ((h @ [v]) ! i) (snd p))"
      using cov by blast
  qed
qed

definition extreme_repr :: "f64 list \<Rightarrow> extreme \<Rightarrow> bool" where
  "extreme_repr h e \<longleftrightarrow>
     NaN \<in> set h \<or>
     wf_extreme e \<and> eSeen e = int (length h) \<and> mono_queue (eHighest e) (eSize e) h (equeue e)"

lemma extreme_repr_push:
  assumes "extreme_repr h e"
  shows "extreme_repr (h @ [v]) (extreme_push v e)"
proof (cases "NaN \<in> set (h @ [v])")
  case False
  then have wf: "wf_extreme e" and seen: "eSeen e = int (length h)"
    and m: "mono_queue (eHighest e) (eSize e) h (equeue e)"
    using assms by (simp_all add: extreme_repr_def)
  let ?q1 = "expire_list (eSeen e - int (eSize e)) (equeue e)"
  have n: "0 < eSize e" using wf by (simp add: wf_extreme_def)
  have room: "length ?q1 < eSize e"
  proof -
    have "\<forall>p\<in>set ?q1. int (length h) - int (eSize e) < fst p \<and> fst p < int (length h)"
      using expire_window(1) [OF m] m by (auto simp: seen mono_queue_def)
    then have "length ?q1 \<le> eSize e - 1"
      using queue_length [OF expire_window(2) [OF m]] by (simp add: seen)
    then show ?thesis using n by simp
  qed
  have "mono_queue (eHighest e) (eSize e) (h @ [v]) (equeue (extreme_push v e))"
    using mono_queue_push [OF m n False] equeue_push(1) [OF wf room] by (simp add: seen)
  moreover have "eHighest (extreme_push v e) = eHighest e" "eSeen (extreme_push v e) = eSeen e + 1"
    by (simp_all add: extreme_push_def Let_def)
  ultimately show ?thesis
    using equeue_push(2) [OF wf room] seen by (simp add: extreme_repr_def)
qed (simp add: extreme_repr_def)

interpretation extreme: history_machine extreme_push extreme_repr
  by unfold_locales (rule extreme_repr_push)

lemma extreme_repr_new: "extreme_repr [] (newExtreme k b)"
  by (simp add: extreme_repr_def newExtreme_def wf_extreme_def mono_queue_def equeue_def Let_def)

lemma extreme_run_simps [simp]:
  "eSize (fold extreme_push vs e) = eSize e" "eHighest (fold extreme_push vs e) = eHighest e"
  by (induction vs arbitrary: e) (simp_all add: extreme_push_def Let_def)

lemma in_set_last_n: "x \<in> set (last_n n h) \<longleftrightarrow> (\<exists>i<length h. length h - n \<le> i \<and> x = h ! i)"
proof
  assume "x \<in> set (last_n n h)"
  then obtain j where "j < length h - (length h - n)" "x = h ! (length h - n + j)"
    by (auto simp: last_n_def in_set_conv_nth)
  then show "\<exists>i<length h. length h - n \<le> i \<and> x = h ! i"
    by (intro exI [of _ "length h - n + j"]) auto
next
  assume "\<exists>i<length h. length h - n \<le> i \<and> x = h ! i"
  then obtain i where i: "i < length h" "length h - n \<le> i" "x = h ! i" by blast
  then have "x = drop (length h - n) h ! (i - (length h - n))" by simp
  moreover have "i - (length h - n) < length (drop (length h - n) h)" using i by simp
  ultimately show "x \<in> set (last_n n h)" unfolding last_n_def by (metis nth_mem)
qed

lemma extreme_repr_value:
  assumes r: "extreme_repr h e" and nan: "NaN \<notin> set h" and ne: "h \<noteq> []"
  shows "extreme_value e = h ! nat (eSeen e - 1 - extreme_age e)"
    and "0 \<le> extreme_age e" and "extreme_age e < int (eSize e)" and "extreme_age e < int (length h)"
    and "\<forall>x\<in>set (last_n (eSize e) h). covers (eHighest e) x (extreme_value e)"
    and "extreme_value e \<in> set (last_n (eSize e) h)"
proof -
  let ?L = "int (length h)" and ?n = "eSize e" and ?b = "eHighest e"
  have wf: "wf_extreme e" and seen: "eSeen e = ?L" and m: "mono_queue ?b ?n h (equeue e)"
    using r nan by (simp_all add: extreme_repr_def)
  have n: "0 < ?n" using wf by (simp add: wf_extreme_def)
  have cov: "\<exists>p\<in>set (equeue e). int i \<le> fst p \<and> covers ?b (h ! i) (snd p)"
    if "i < length h" "?L - int ?n \<le> int i" for i
    using m that unfolding mono_queue_def by blast
  have "equeue e \<noteq> []" using cov [of "length h - 1"] ne n by (cases h) auto
  then obtain c where c: "eCount e = Suc c" by (cases "eCount e") (auto simp: equeue_def)
  define p0 where "p0 = (eAges e ! eHead e, eValues e ! eHead e)"
  obtain q where q: "equeue e = p0 # q" using equeue_Suc [OF wf c] by (simp add: p0_def)
  have v: "extreme_value e = snd p0" and g: "extreme_age e = ?L - 1 - fst p0"
    by (simp_all add: extreme_value_def extreme_age_def c seen p0_def)
  have p0: "0 \<le> fst p0" "?L - int ?n \<le> fst p0" "fst p0 < ?L" "snd p0 = h ! nat (fst p0)"
    using m q by (auto simp: mono_queue_def)
  show "extreme_value e = h ! nat (eSeen e - 1 - extreme_age e)"
    using v g p0 seen by simp
  show "0 \<le> extreme_age e" "extreme_age e < int ?n" "extreme_age e < ?L"
    using g p0 by simp_all
  have "nat (fst p0) < length h" using p0 by linarith
  then have p0n: "snd p0 \<noteq> NaN" unfolding p0(4) using nan nth_mem by metis
  have win: "x \<in> set (last_n ?n h) \<longleftrightarrow> (\<exists>i<length h. ?L - int ?n \<le> int i \<and> x = h ! i)" for x
    unfolding in_set_last_n by (rule ex_cong1) linarith
  show "extreme_value e \<in> set (last_n ?n h)"
    using p0 v by (auto simp: win intro!: exI [of _ "nat (fst p0)"])
  show "\<forall>x\<in>set (last_n ?n h). covers ?b x (extreme_value e)"
  proof
    fix x assume "x \<in> set (last_n ?n h)"
    then obtain i where i: "i < length h" "?L - int ?n \<le> int i" "x = h ! i" by (auto simp: win)
    then obtain p where p: "p \<in> set (equeue e)" "covers ?b x (snd p)" using cov by blast
    have "covers ?b (snd p) (snd p0)"
      using m p(1) q covers_refl [OF p0n] by (auto simp: mono_queue_def)
    then show "covers ?b x (extreme_value e)" using p(2) covers_trans v by metis
  qed
qed

text \<open>C32: after any series of values that are not NaN, the monotone queue of \<open>extreme\<close> answers with the
  maximum (or, when it tracks the lowest, the minimum) of the last \<open>size\<close> values: its value is one of
  the window and no value of the window beats it; \<open>age\<close> says how many bars ago that value was pushed, and
  points into the window.\<close>

theorem sliding_extreme_correct:
  assumes "NaN \<notin> set vs" and "vs \<noteq> []"
  shows "let e = fold extreme_push vs (newExtreme k highest); w = last_n (nat (max k 1)) vs
    in extreme_value e \<in> set w
       \<and> (\<forall>x\<in>set w. if highest then x \<le> extreme_value e else extreme_value e \<le> x)
       \<and> 0 \<le> extreme_age e \<and> extreme_age e < int (length w)
       \<and> vs ! nat (int (length vs) - 1 - extreme_age e) = extreme_value e"
proof -
  define e where "e = fold extreme_push vs (newExtreme k highest)"
  have r: "extreme_repr vs e"
    unfolding e_def by (rule extreme.repr_run [OF extreme_repr_new])
  have s: "eSize e = nat (max k 1)" and b: "eHighest e = highest"
    by (simp_all add: e_def newExtreme_def Let_def)
  have "eSeen e = int (length vs)" using r assms(1) by (simp add: extreme_repr_def)
  moreover have "extreme_age e < int (min (nat (max k 1)) (length vs))"
    using extreme_repr_value(3,4) [OF r assms] by (simp add: s of_nat_min)
  ultimately show ?thesis
    using extreme_repr_value [OF r assms] by (auto simp: s b covers_def Let_def simp flip: e_def)
qed

lemma sliding_extreme_correct_witness:
  "extreme_value (fold extreme_push [Fin 5, Fin 1, Fin 3] (newExtreme 2 True)) \<in> set (last_n 2 [Fin 5, Fin 1, Fin 3])"
  using sliding_extreme_correct [of "[Fin 5, Fin 1, Fin 3]" 2 True] by (simp add: Let_def)

end
