(* ===== verification/Overlays.thy ===== *)
theory Overlays
  imports Indicator_Base
begin

text \<open>
  The indicators of the overlay group (internal/indicator/sma.go, ema.go, wma.go, dema.go, tema.go,
  hma.go, vwma.go, vwap.go, keltner.go, donchian.go, ichimoku.go, supertrend.go and psar.go): each a
  record of its Go fields, a constructor, and the methods of the interface \<open>Indicator\<close>.
  \<open>X_PrimeBars\<close> exists where the type implements \<open>Primer\<close>.
\<close>

definition emaPrimeFactor :: int where "emaPrimeFactor = 8"

definition wilderPrimeFactor :: int where "wilderPrimeFactor = 16"

definition pathPrimeBars :: int where "pathPrimeBars = 250"

section \<open>Simple moving average\<close>

record SMA =
  smaPeriod :: int
  smaSource :: source
  smaWindow :: ring
  smaValue :: f64

definition NewSMA :: "int \<Rightarrow> source \<Rightarrow> SMA" where
  "NewSMA p s = \<lparr>smaPeriod = max p 1, smaSource = s, smaWindow = newRing p, smaValue = 0\<rparr>"

definition SMA_Update :: "icandle \<Rightarrow> SMA \<Rightarrow> SMA" where
  "SMA_Update c s =
     (let w = ring_push (source_value (smaSource s) c) (smaWindow s)
      in if ring_full w then s\<lparr>smaWindow := w, smaValue := ring_mean w\<rparr> else s\<lparr>smaWindow := w\<rparr>)"

definition SMA_Ready :: "SMA \<Rightarrow> bool" where "SMA_Ready s = ring_full (smaWindow s)"

definition SMA_Warmup :: "SMA \<Rightarrow> int" where "SMA_Warmup s = smaPeriod s - 1"

definition SMA_Reset :: "SMA \<Rightarrow> SMA" where
  "SMA_Reset s = s\<lparr>smaWindow := ring_reset (smaWindow s), smaValue := 0\<rparr>"

section \<open>Exponential moving average\<close>

record EMA =
  emaSource :: source
  emaInner :: ema
  emaValue :: f64

definition NewEMA :: "int \<Rightarrow> source \<Rightarrow> EMA" where
  "NewEMA p s = \<lparr>emaSource = s, emaInner = newEMA p, emaValue = 0\<rparr>"

definition EMA_Update :: "icandle \<Rightarrow> EMA \<Rightarrow> EMA" where
  "EMA_Update c e =
     (let i = ema_push (source_value (emaSource e) c) (emaInner e)
      in e\<lparr>emaInner := i, emaValue := emValue i\<rparr>)"

definition EMA_Ready :: "EMA \<Rightarrow> bool" where "EMA_Ready e = emReady (emaInner e)"

definition EMA_Warmup :: "EMA \<Rightarrow> int" where "EMA_Warmup e = emPeriod (emaInner e) - 1"

definition EMA_PrimeBars :: "EMA \<Rightarrow> int" where
  "EMA_PrimeBars e = emPeriod (emaInner e) * emaPrimeFactor"

definition EMA_Reset :: "EMA \<Rightarrow> EMA" where
  "EMA_Reset e = e\<lparr>emaInner := ema_reset (emaInner e), emaValue := 0\<rparr>"

section \<open>Weighted moving average\<close>

record WMA =
  wmaSource :: source
  wmaInner :: wma
  wmaValue :: f64

definition NewWMA :: "int \<Rightarrow> source \<Rightarrow> WMA" where
  "NewWMA p s = \<lparr>wmaSource = s, wmaInner = newWMA p, wmaValue = 0\<rparr>"

definition WMA_Update :: "icandle \<Rightarrow> WMA \<Rightarrow> WMA" where
  "WMA_Update c w =
     (let i = wma_push (source_value (wmaSource w) c) (wmaInner w)
      in w\<lparr>wmaInner := i, wmaValue := wmValue i\<rparr>)"

definition WMA_Ready :: "WMA \<Rightarrow> bool" where "WMA_Ready w = wmReady (wmaInner w)"

definition WMA_Warmup :: "WMA \<Rightarrow> int" where "WMA_Warmup w = wmPeriod (wmaInner w) - 1"

definition WMA_Reset :: "WMA \<Rightarrow> WMA" where
  "WMA_Reset w = w\<lparr>wmaInner := wma_reset (wmaInner w), wmaValue := 0\<rparr>"

section \<open>Double and triple exponential moving averages\<close>

record DEMA =
  demaPeriod :: int
  demaSource :: source
  demaFirst :: ema
  demaSecond :: ema
  demaValue :: f64

definition NewDEMA :: "int \<Rightarrow> source \<Rightarrow> DEMA" where
  "NewDEMA p s =
     (let period = max p 1
      in \<lparr>demaPeriod = period, demaSource = s, demaFirst = newEMA period, demaSecond = newEMA period,
          demaValue = 0\<rparr>)"

definition DEMA_Update :: "icandle \<Rightarrow> DEMA \<Rightarrow> DEMA" where
  "DEMA_Update c d =
     (let first = ema_push (source_value (demaSource d) c) (demaFirst d); d1 = d\<lparr>demaFirst := first\<rparr>
      in if \<not> emReady first then d1
         else
           let second = ema_push (emValue first) (demaSecond d); d2 = d1\<lparr>demaSecond := second\<rparr>
           in if \<not> emReady second then d2
              else d2\<lparr>demaValue := Fin 2 * emValue first - emValue second\<rparr>)"

definition DEMA_Ready :: "DEMA \<Rightarrow> bool" where "DEMA_Ready d = emReady (demaSecond d)"

definition DEMA_Warmup :: "DEMA \<Rightarrow> int" where "DEMA_Warmup d = 2 * (demaPeriod d - 1)"

definition DEMA_PrimeBars :: "DEMA \<Rightarrow> int" where
  "DEMA_PrimeBars d = 2 * demaPeriod d * emaPrimeFactor"

definition DEMA_Reset :: "DEMA \<Rightarrow> DEMA" where
  "DEMA_Reset d =
     d\<lparr>demaFirst := ema_reset (demaFirst d), demaSecond := ema_reset (demaSecond d), demaValue := 0\<rparr>"

record TEMA =
  temaPeriod :: int
  temaSource :: source
  temaFirst :: ema
  temaSecond :: ema
  temaThird :: ema
  temaValue :: f64

definition NewTEMA :: "int \<Rightarrow> source \<Rightarrow> TEMA" where
  "NewTEMA p s =
     (let period = max p 1
      in \<lparr>temaPeriod = period, temaSource = s, temaFirst = newEMA period, temaSecond = newEMA period,
          temaThird = newEMA period, temaValue = 0\<rparr>)"

definition TEMA_Update :: "icandle \<Rightarrow> TEMA \<Rightarrow> TEMA" where
  "TEMA_Update c t =
     (let first = ema_push (source_value (temaSource t) c) (temaFirst t); t1 = t\<lparr>temaFirst := first\<rparr>
      in if \<not> emReady first then t1
         else
           let second = ema_push (emValue first) (temaSecond t); t2 = t1\<lparr>temaSecond := second\<rparr>
           in if \<not> emReady second then t2
              else
                let third = ema_push (emValue second) (temaThird t); t3 = t2\<lparr>temaThird := third\<rparr>
                in if \<not> emReady third then t3
                   else t3\<lparr>temaValue := Fin 3 * emValue first - Fin 3 * emValue second + emValue third\<rparr>)"

definition TEMA_Ready :: "TEMA \<Rightarrow> bool" where "TEMA_Ready t = emReady (temaThird t)"

definition TEMA_Warmup :: "TEMA \<Rightarrow> int" where "TEMA_Warmup t = 3 * (temaPeriod t - 1)"

definition TEMA_PrimeBars :: "TEMA \<Rightarrow> int" where
  "TEMA_PrimeBars t = 3 * temaPeriod t * emaPrimeFactor"

definition TEMA_Reset :: "TEMA \<Rightarrow> TEMA" where
  "TEMA_Reset t =
     t\<lparr>temaFirst := ema_reset (temaFirst t), temaSecond := ema_reset (temaSecond t),
       temaThird := ema_reset (temaThird t), temaValue := 0\<rparr>"

section \<open>Hull moving average\<close>

record HMA =
  hmaPeriod :: int
  hmaRoot :: int
  hmaSource :: source
  hmaHalf :: wma
  hmaFull :: wma
  hmaHull :: wma
  hmaValue :: f64

definition NewHMA :: "int \<Rightarrow> source \<Rightarrow> HMA" where
  "NewHMA p s =
     (let period = max p 1;
          root = max (case int_of_f64 (math_Round (math_Sqrt (float_of_int period))) of Some n \<Rightarrow> n | None \<Rightarrow> 0) 1
      in \<lparr>hmaPeriod = period, hmaRoot = root, hmaSource = s, hmaHalf = newWMA (max (tdiv period 2) 1),
          hmaFull = newWMA period, hmaHull = newWMA root, hmaValue = 0\<rparr>)"

definition HMA_Update :: "icandle \<Rightarrow> HMA \<Rightarrow> HMA" where
  "HMA_Update c h =
     (let price = source_value (hmaSource h) c; half = wma_push price (hmaHalf h);
          full = wma_push price (hmaFull h); h1 = h\<lparr>hmaHalf := half, hmaFull := full\<rparr>
      in if \<not> wmReady full then h1
         else
           let hl = wma_push (Fin 2 * wmValue half - wmValue full) (hmaHull h)
           in h1\<lparr>hmaHull := hl, hmaValue := wmValue hl\<rparr>)"

definition HMA_Ready :: "HMA \<Rightarrow> bool" where "HMA_Ready h = wmReady (hmaHull h)"

definition HMA_Warmup :: "HMA \<Rightarrow> int" where "HMA_Warmup h = hmaPeriod h + hmaRoot h - 2"

definition HMA_Reset :: "HMA \<Rightarrow> HMA" where
  "HMA_Reset h =
     h\<lparr>hmaHalf := wma_reset (hmaHalf h), hmaFull := wma_reset (hmaFull h),
       hmaHull := wma_reset (hmaHull h), hmaValue := 0\<rparr>"

section \<open>Volume weighted averages\<close>

record VWMA =
  vwmaPeriod :: int
  vwmaSource :: source
  vwmaPrice :: ring
  vwmaWeighted :: ring
  vwmaVolume :: ring
  vwmaValue :: f64

definition NewVWMA :: "int \<Rightarrow> source \<Rightarrow> VWMA" where
  "NewVWMA p s =
     (let period = max p 1
      in \<lparr>vwmaPeriod = period, vwmaSource = s, vwmaPrice = newRing period,
          vwmaWeighted = newRing period, vwmaVolume = newRing period, vwmaValue = 0\<rparr>)"

definition VWMA_Update :: "icandle \<Rightarrow> VWMA \<Rightarrow> VWMA" where
  "VWMA_Update c v =
     (let price = source_value (vwmaSource v) c;
          v1 = v\<lparr>vwmaPrice := ring_push price (vwmaPrice v),
                 vwmaWeighted := ring_push (price * iVolume c) (vwmaWeighted v),
                 vwmaVolume := ring_push (iVolume c) (vwmaVolume v)\<rparr>
      in if \<not> ring_full (vwmaPrice v1) then v1
         else if rTotal (vwmaVolume v1) \<le> 0 then v1\<lparr>vwmaValue := ring_mean (vwmaPrice v1)\<rparr>
         else v1\<lparr>vwmaValue := rTotal (vwmaWeighted v1) / rTotal (vwmaVolume v1)\<rparr>)"

definition VWMA_Ready :: "VWMA \<Rightarrow> bool" where "VWMA_Ready v = ring_full (vwmaPrice v)"

definition VWMA_Warmup :: "VWMA \<Rightarrow> int" where "VWMA_Warmup v = vwmaPeriod v - 1"

definition VWMA_Reset :: "VWMA \<Rightarrow> VWMA" where
  "VWMA_Reset v =
     v\<lparr>vwmaPrice := ring_reset (vwmaPrice v), vwmaWeighted := ring_reset (vwmaWeighted v),
       vwmaVolume := ring_reset (vwmaVolume v), vwmaValue := 0\<rparr>"

record VWAP =
  vwapPeriod :: int
  vwapTypical :: ring
  vwapWeighted :: ring
  vwapVolume :: ring
  vwapValue :: f64

definition NewVWAP :: "int \<Rightarrow> VWAP" where
  "NewVWAP p =
     (let period = max p 1
      in \<lparr>vwapPeriod = period, vwapTypical = newRing period, vwapWeighted = newRing period,
          vwapVolume = newRing period, vwapValue = 0\<rparr>)"

definition VWAP_Update :: "icandle \<Rightarrow> VWAP \<Rightarrow> VWAP" where
  "VWAP_Update c v =
     (let typical = (iHigh c + iLow c + iClose c) / Fin 3;
          v1 = v\<lparr>vwapTypical := ring_push typical (vwapTypical v),
                 vwapWeighted := ring_push (typical * iVolume c) (vwapWeighted v),
                 vwapVolume := ring_push (iVolume c) (vwapVolume v)\<rparr>
      in if \<not> ring_full (vwapTypical v1) then v1
         else if rTotal (vwapVolume v1) \<le> 0 then v1\<lparr>vwapValue := ring_mean (vwapTypical v1)\<rparr>
         else v1\<lparr>vwapValue := rTotal (vwapWeighted v1) / rTotal (vwapVolume v1)\<rparr>)"

definition VWAP_Ready :: "VWAP \<Rightarrow> bool" where "VWAP_Ready v = ring_full (vwapTypical v)"

definition VWAP_Warmup :: "VWAP \<Rightarrow> int" where "VWAP_Warmup v = vwapPeriod v - 1"

definition VWAP_Reset :: "VWAP \<Rightarrow> VWAP" where
  "VWAP_Reset v =
     v\<lparr>vwapTypical := ring_reset (vwapTypical v), vwapWeighted := ring_reset (vwapWeighted v),
       vwapVolume := ring_reset (vwapVolume v), vwapValue := 0\<rparr>"

section \<open>Keltner channels\<close>

record Keltner =
  kelPeriod :: int
  kelMult :: f64
  kelBasis :: ema
  kelSpan :: atr
  kelValues :: "f64 list"

definition NewKeltner :: "int \<Rightarrow> f64 \<Rightarrow> int \<Rightarrow> Keltner" where
  "NewKeltner p mult atrPeriod =
     (let period = max p 1
      in \<lparr>kelPeriod = period, kelMult = mult, kelBasis = newEMA period, kelSpan = newATR atrPeriod,
          kelValues = [0, 0, 0]\<rparr>)"

definition Keltner_Update :: "icandle \<Rightarrow> Keltner \<Rightarrow> Keltner" where
  "Keltner_Update c k =
     (let basis = ema_push (iClose c) (kelBasis k); span' = atr_push c (kelSpan k);
          k1 = k\<lparr>kelBasis := basis, kelSpan := span'\<rparr>
      in if \<not> emReady basis \<or> \<not> wlReady (atSmooth span') then k1
         else
           let band = kelMult k * wlValue (atSmooth span')
           in k1\<lparr>kelValues := [emValue basis + band, emValue basis, emValue basis - band]\<rparr>)"

definition Keltner_Ready :: "Keltner \<Rightarrow> bool" where
  "Keltner_Ready k \<longleftrightarrow> emReady (kelBasis k) \<and> wlReady (atSmooth (kelSpan k))"

definition Keltner_Warmup :: "Keltner \<Rightarrow> int" where
  "Keltner_Warmup k = max (kelPeriod k - 1) (atPeriod (kelSpan k))"

definition Keltner_PrimeBars :: "Keltner \<Rightarrow> int" where
  "Keltner_PrimeBars k = max (kelPeriod k * emaPrimeFactor) (atPeriod (kelSpan k) * wilderPrimeFactor)"

definition Keltner_Reset :: "Keltner \<Rightarrow> Keltner" where
  "Keltner_Reset k =
     k\<lparr>kelBasis := ema_reset (kelBasis k), kelSpan := atr_reset (kelSpan k), kelValues := [0, 0, 0]\<rparr>"

section \<open>Donchian channels\<close>

record Donchian =
  donPeriod :: int
  donHigh :: extreme
  donLow :: extreme
  donValues :: "f64 list"

definition NewDonchian :: "int \<Rightarrow> Donchian" where
  "NewDonchian p =
     (let period = max p 1
      in \<lparr>donPeriod = period, donHigh = newExtreme period True, donLow = newExtreme period False,
          donValues = [0, 0, 0]\<rparr>)"

definition Donchian_Update :: "icandle \<Rightarrow> Donchian \<Rightarrow> Donchian" where
  "Donchian_Update c d =
     (let high = extreme_push (iHigh c) (donHigh d); low = extreme_push (iLow c) (donLow d);
          d1 = d\<lparr>donHigh := high, donLow := low\<rparr>
      in if \<not> extreme_full high then d1
         else d1\<lparr>donValues := [extreme_value high, (extreme_value high + extreme_value low) / Fin 2,
                              extreme_value low]\<rparr>)"

definition Donchian_Ready :: "Donchian \<Rightarrow> bool" where "Donchian_Ready d = extreme_full (donHigh d)"

definition Donchian_Warmup :: "Donchian \<Rightarrow> int" where "Donchian_Warmup d = donPeriod d - 1"

definition Donchian_Reset :: "Donchian \<Rightarrow> Donchian" where
  "Donchian_Reset d =
     d\<lparr>donHigh := extreme_reset (donHigh d), donLow := extreme_reset (donLow d), donValues := [0, 0, 0]\<rparr>"

section \<open>Ichimoku cloud\<close>

record Ichimoku =
  ichTenkan :: int
  ichKijun :: int
  ichSenkou :: int
  ichTenkanHigh :: extreme
  ichTenkanLow :: extreme
  ichKijunHigh :: extreme
  ichKijunLow :: extreme
  ichSenkouHigh :: extreme
  ichSenkouLow :: extreme
  ichValues :: "f64 list"

definition NewIchimoku :: "int \<Rightarrow> int \<Rightarrow> int \<Rightarrow> Ichimoku" where
  "NewIchimoku t k s =
     (let tenkan = max t 1; kijun = max k 1; senkou = max s 1
      in \<lparr>ichTenkan = tenkan, ichKijun = kijun, ichSenkou = senkou,
          ichTenkanHigh = newExtreme tenkan True, ichTenkanLow = newExtreme tenkan False,
          ichKijunHigh = newExtreme kijun True, ichKijunLow = newExtreme kijun False,
          ichSenkouHigh = newExtreme senkou True, ichSenkouLow = newExtreme senkou False,
          ichValues = [0, 0, 0, 0, 0]\<rparr>)"

definition Ichimoku_Ready :: "Ichimoku \<Rightarrow> bool" where
  "Ichimoku_Ready i \<longleftrightarrow>
     extreme_full (ichTenkanHigh i) \<and> extreme_full (ichKijunHigh i) \<and> extreme_full (ichSenkouHigh i)"

definition Ichimoku_Update :: "icandle \<Rightarrow> Ichimoku \<Rightarrow> Ichimoku" where
  "Ichimoku_Update c i0 =
     (let i = i0\<lparr>ichTenkanHigh := extreme_push (iHigh c) (ichTenkanHigh i0),
                 ichTenkanLow := extreme_push (iLow c) (ichTenkanLow i0),
                 ichKijunHigh := extreme_push (iHigh c) (ichKijunHigh i0),
                 ichKijunLow := extreme_push (iLow c) (ichKijunLow i0),
                 ichSenkouHigh := extreme_push (iHigh c) (ichSenkouHigh i0),
                 ichSenkouLow := extreme_push (iLow c) (ichSenkouLow i0)\<rparr>
      in if \<not> Ichimoku_Ready i then i
         else
           let tenkan = (extreme_value (ichTenkanHigh i) + extreme_value (ichTenkanLow i)) / Fin 2;
               kijun = (extreme_value (ichKijunHigh i) + extreme_value (ichKijunLow i)) / Fin 2
           in i\<lparr>ichValues :=
                 [tenkan, kijun, (tenkan + kijun) / Fin 2,
                  (extreme_value (ichSenkouHigh i) + extreme_value (ichSenkouLow i)) / Fin 2, iClose c]\<rparr>)"

definition Ichimoku_Warmup :: "Ichimoku \<Rightarrow> int" where
  "Ichimoku_Warmup i = max (max (ichTenkan i) (ichKijun i)) (ichSenkou i) - 1"

definition Ichimoku_Reset :: "Ichimoku \<Rightarrow> Ichimoku" where
  "Ichimoku_Reset i =
     i\<lparr>ichTenkanHigh := extreme_reset (ichTenkanHigh i), ichTenkanLow := extreme_reset (ichTenkanLow i),
       ichKijunHigh := extreme_reset (ichKijunHigh i), ichKijunLow := extreme_reset (ichKijunLow i),
       ichSenkouHigh := extreme_reset (ichSenkouHigh i), ichSenkouLow := extreme_reset (ichSenkouLow i),
       ichValues := [0, 0, 0, 0, 0]\<rparr>"

section \<open>SuperTrend\<close>

record SuperTrend =
  stMult :: f64
  stSpan :: atr
  stUpper :: f64
  stLower :: f64
  stClose :: f64
  stRising :: bool
  stStarted :: bool
  stValues :: "f64 list"

definition NewSuperTrend :: "int \<Rightarrow> f64 \<Rightarrow> SuperTrend" where
  "NewSuperTrend period mult =
     \<lparr>stMult = mult, stSpan = newATR period, stUpper = 0, stLower = 0, stClose = 0, stRising = False,
      stStarted = False, stValues = [0, 0]\<rparr>"

definition SuperTrend_Update :: "icandle \<Rightarrow> SuperTrend \<Rightarrow> SuperTrend" where
  "SuperTrend_Update c s0 =
     (let s = s0\<lparr>stSpan := atr_push c (stSpan s0)\<rparr>
      in if \<not> wlReady (atSmooth (stSpan s)) then s
         else
           let middle = (iHigh c + iLow c) / Fin 2; band = stMult s * wlValue (atSmooth (stSpan s));
               upper = middle + band; lower = middle - band;
               s1 = (if \<not> stStarted s
                     then s\<lparr>stUpper := upper, stLower := lower, stRising := iClose c > upper, stStarted := True\<rparr>
                     else
                       let u = (if upper < stUpper s \<or> stClose s > stUpper s then upper else stUpper s);
                           l = (if lower > stLower s \<or> stClose s < stLower s then lower else stLower s);
                           rising = (if stRising s \<and> iClose c < l then False
                                     else if \<not> stRising s \<and> iClose c > u then True else stRising s)
                       in s\<lparr>stUpper := u, stLower := l, stRising := rising\<rparr>);
               s2 = s1\<lparr>stClose := iClose c\<rparr>
           in if stRising s2 then s2\<lparr>stValues := [stLower s2, Fin 1]\<rparr>
              else s2\<lparr>stValues := [stUpper s2, Fin (- 1)]\<rparr>)"

definition SuperTrend_Ready :: "SuperTrend \<Rightarrow> bool" where
  "SuperTrend_Ready s = wlReady (atSmooth (stSpan s))"

definition SuperTrend_Warmup :: "SuperTrend \<Rightarrow> int" where "SuperTrend_Warmup s = atPeriod (stSpan s)"

definition SuperTrend_PrimeBars :: "SuperTrend \<Rightarrow> int" where
  "SuperTrend_PrimeBars s = max (atPeriod (stSpan s) * wilderPrimeFactor) pathPrimeBars"

definition SuperTrend_Reset :: "SuperTrend \<Rightarrow> SuperTrend" where
  "SuperTrend_Reset s =
     s\<lparr>stSpan := atr_reset (stSpan s), stUpper := 0, stLower := 0, stClose := 0, stRising := False,
       stStarted := False, stValues := [0, 0]\<rparr>"

section \<open>Parabolic SAR\<close>

definition zero_icandle :: icandle where
  "zero_icandle = \<lparr>iTS = zero_time, iOpen = 0, iHigh = 0, iLow = 0, iClose = 0, iVolume = 0\<rparr>"

record ParabolicSAR =
  psStep :: f64
  psCeiling :: f64
  psPrevious :: icandle
  psOlder :: icandle
  psBars :: int
  psSar :: f64
  psExtreme :: f64
  psRate :: f64
  psRising :: bool
  psValues :: "f64 list"

definition NewParabolicSAR :: "f64 \<Rightarrow> f64 \<Rightarrow> ParabolicSAR" where
  "NewParabolicSAR step ceil =
     \<lparr>psStep = step, psCeiling = ceil, psPrevious = zero_icandle, psOlder = zero_icandle, psBars = 0,
      psSar = 0, psExtreme = 0, psRate = 0, psRising = False, psValues = [0, 0]\<rparr>"

definition psar_advance :: "icandle \<Rightarrow> ParabolicSAR \<Rightarrow> ParabolicSAR" where
  "psar_advance c p =
     (let sar = psSar p + psRate p * (psExtreme p - psSar p)
      in if psRising p then
           let sar1 = math_Min sar (math_Min (iLow (psPrevious p)) (iLow (psOlder p)))
           in if iLow c < sar1
              then p\<lparr>psRising := False, psSar := psExtreme p, psExtreme := iLow c, psRate := psStep p\<rparr>
              else if iHigh c > psExtreme p
              then p\<lparr>psSar := sar1, psExtreme := iHigh c, psRate := math_Min (psRate p + psStep p) (psCeiling p)\<rparr>
              else p\<lparr>psSar := sar1\<rparr>
         else
           let sar1 = math_Max sar (math_Max (iHigh (psPrevious p)) (iHigh (psOlder p)))
           in if iHigh c > sar1
              then p\<lparr>psRising := True, psSar := psExtreme p, psExtreme := iHigh c, psRate := psStep p\<rparr>
              else if iLow c < psExtreme p
              then p\<lparr>psSar := sar1, psExtreme := iLow c, psRate := math_Min (psRate p + psStep p) (psCeiling p)\<rparr>
              else p\<lparr>psSar := sar1\<rparr>)"

definition psar_emit :: "ParabolicSAR \<Rightarrow> ParabolicSAR" where
  "psar_emit p = p\<lparr>psValues := [psSar p, if \<not> psRising p then Fin (- 1) else Fin 1]\<rparr>"

definition ParabolicSAR_Update :: "icandle \<Rightarrow> ParabolicSAR \<Rightarrow> ParabolicSAR" where
  "ParabolicSAR_Update c p =
     (let p1 =
        (if psBars p = 0 then p\<lparr>psPrevious := c\<rparr>
         else if psBars p = 1 then
           let rising = iClose c \<ge> iClose (psPrevious p);
               q = (if rising
                    then p\<lparr>psSar := math_Min (iLow (psPrevious p)) (iLow c),
                           psExtreme := math_Max (iHigh (psPrevious p)) (iHigh c)\<rparr>
                    else p\<lparr>psSar := math_Max (iHigh (psPrevious p)) (iHigh c),
                           psExtreme := math_Min (iLow (psPrevious p)) (iLow c)\<rparr>)
           in psar_emit (q\<lparr>psRising := rising, psRate := psStep p, psOlder := psPrevious p, psPrevious := c\<rparr>)
         else
           let q = psar_advance c p in psar_emit (q\<lparr>psOlder := psPrevious q, psPrevious := c\<rparr>))
      in p1\<lparr>psBars := psBars p + 1\<rparr>)"

definition ParabolicSAR_Ready :: "ParabolicSAR \<Rightarrow> bool" where "ParabolicSAR_Ready p \<longleftrightarrow> psBars p > 1"

definition ParabolicSAR_Reset :: "ParabolicSAR \<Rightarrow> ParabolicSAR" where
  "ParabolicSAR_Reset p =
     p\<lparr>psPrevious := zero_icandle, psOlder := zero_icandle, psBars := 0, psSar := 0, psExtreme := 0,
       psRate := 0, psRising := False, psValues := [0, 0]\<rparr>"

end
