(* ===== verification/Oscillators.thy ===== *)
theory Oscillators
  imports Overlays
begin

text \<open>
  The indicators of the momentum and volume groups (internal/indicator/rsi.go, stoch.go, stochrsi.go,
  macd.go, momentum.go, roc.go, willr.go, cci.go, aroon.go, adx.go, mfi.go, obv.go, adline.go,
  chaikinosc.go and volumema.go).
\<close>

section \<open>Relative strength index\<close>

record RSI =
  rsiPeriod :: int
  rsiSource :: source
  rsiGains :: wilder
  rsiLosses :: wilder
  rsiPrev :: f64
  rsiSeen :: bool
  rsiValue :: f64

definition NewRSI :: "int \<Rightarrow> source \<Rightarrow> RSI" where
  "NewRSI p s =
     (let period = max p 1
      in \<lparr>rsiPeriod = period, rsiSource = s, rsiGains = newWilder period, rsiLosses = newWilder period,
          rsiPrev = 0, rsiSeen = False, rsiValue = 0\<rparr>)"

definition RSI_Update :: "icandle \<Rightarrow> RSI \<Rightarrow> RSI" where
  "RSI_Update c r =
     (let price = source_value (rsiSource r) c
      in if \<not> rsiSeen r then r\<lparr>rsiPrev := price, rsiSeen := True\<rparr>
         else
           let change = price - rsiPrev r;
               gain = (if change > 0 then change else 0); loss = (if change > 0 then 0 else - change);
               gains = wilder_push gain (rsiGains r); losses = wilder_push loss (rsiLosses r);
               r1 = r\<lparr>rsiPrev := price, rsiGains := gains, rsiLosses := losses\<rparr>
           in if \<not> wlReady gains then r1
              else if feq (wlValue losses) 0 then r1\<lparr>rsiValue := Fin 100\<rparr>
              else r1\<lparr>rsiValue := Fin 100 - Fin 100 / (Fin 1 + wlValue gains / wlValue losses)\<rparr>)"

definition RSI_Ready :: "RSI \<Rightarrow> bool" where "RSI_Ready r = wlReady (rsiGains r)"

definition RSI_Warmup :: "RSI \<Rightarrow> int" where "RSI_Warmup r = rsiPeriod r"

definition RSI_PrimeBars :: "RSI \<Rightarrow> int" where "RSI_PrimeBars r = rsiPeriod r * wilderPrimeFactor"

definition RSI_Reset :: "RSI \<Rightarrow> RSI" where
  "RSI_Reset r =
     r\<lparr>rsiGains := wilder_reset (rsiGains r), rsiLosses := wilder_reset (rsiLosses r), rsiPrev := 0,
       rsiSeen := False, rsiValue := 0\<rparr>"

section \<open>Stochastic oscillators\<close>

definition stochasticPercent :: "f64 \<Rightarrow> f64 \<Rightarrow> f64 \<Rightarrow> f64" where
  "stochasticPercent price upper lower =
     (if upper \<le> lower then Fin 50 else Fin 100 * (price - lower) / (upper - lower))"

definition boundedPercent :: "f64 \<Rightarrow> f64" where
  "boundedPercent v = go_min (go_max v 0) (Fin 100)"

record Stochastic =
  stoK :: int
  stoSmooth :: int
  stoD :: int
  stoHigh :: extreme
  stoLow :: extreme
  stoFast :: ring
  stoSlow :: ring
  stoValues :: "f64 list"

definition NewStochastic :: "int \<Rightarrow> int \<Rightarrow> int \<Rightarrow> Stochastic" where
  "NewStochastic k0 smooth0 d0 =
     (let k = max k0 1; smooth = max smooth0 1; d = max d0 1
      in \<lparr>stoK = k, stoSmooth = smooth, stoD = d, stoHigh = newExtreme k True,
          stoLow = newExtreme k False, stoFast = newRing smooth, stoSlow = newRing d,
          stoValues = [0, 0]\<rparr>)"

definition Stochastic_Update :: "icandle \<Rightarrow> Stochastic \<Rightarrow> Stochastic" where
  "Stochastic_Update c s =
     (let high = extreme_push (iHigh c) (stoHigh s); low = extreme_push (iLow c) (stoLow s);
          s1 = s\<lparr>stoHigh := high, stoLow := low\<rparr>
      in if \<not> extreme_full high then s1
         else
           let fast = ring_push (stochasticPercent (iClose c) (extreme_value high) (extreme_value low)) (stoFast s);
               s2 = s1\<lparr>stoFast := fast\<rparr>
           in if \<not> ring_full fast then s2
              else
                let smoothed = boundedPercent (ring_mean fast); slow = ring_push smoothed (stoSlow s);
                    s3 = s2\<lparr>stoSlow := slow\<rparr>
                in if \<not> ring_full slow then s3
                   else s3\<lparr>stoValues := [smoothed, boundedPercent (ring_mean slow)]\<rparr>)"

definition Stochastic_Ready :: "Stochastic \<Rightarrow> bool" where "Stochastic_Ready s = ring_full (stoSlow s)"

definition Stochastic_Warmup :: "Stochastic \<Rightarrow> int" where
  "Stochastic_Warmup s = stoK s + stoSmooth s + stoD s - 3"

definition Stochastic_Reset :: "Stochastic \<Rightarrow> Stochastic" where
  "Stochastic_Reset s =
     s\<lparr>stoHigh := extreme_reset (stoHigh s), stoLow := extreme_reset (stoLow s),
       stoFast := ring_reset (stoFast s), stoSlow := ring_reset (stoSlow s), stoValues := [0, 0]\<rparr>"

record StochRSI =
  srStoch :: int
  srK :: int
  srD :: int
  srRsi :: RSI
  srHigh :: extreme
  srLow :: extreme
  srFast :: ring
  srSlow :: ring
  srValues :: "f64 list"

definition NewStochRSI :: "int \<Rightarrow> int \<Rightarrow> int \<Rightarrow> int \<Rightarrow> source \<Rightarrow> StochRSI" where
  "NewStochRSI period stoch0 k0 d0 src =
     (let stoch = max stoch0 1; k = max k0 1; d = max d0 1
      in \<lparr>srStoch = stoch, srK = k, srD = d, srRsi = NewRSI period src, srHigh = newExtreme stoch True,
          srLow = newExtreme stoch False, srFast = newRing k, srSlow = newRing d, srValues = [0, 0]\<rparr>)"

definition StochRSI_Update :: "icandle \<Rightarrow> StochRSI \<Rightarrow> StochRSI" where
  "StochRSI_Update c s =
     (let rsi = RSI_Update c (srRsi s); s0 = s\<lparr>srRsi := rsi\<rparr>
      in if \<not> RSI_Ready rsi then s0
         else
           let strength = rsiValue rsi;
               high = extreme_push strength (srHigh s); low = extreme_push strength (srLow s);
               s1 = s0\<lparr>srHigh := high, srLow := low\<rparr>
           in if \<not> extreme_full high then s1
              else
                let fast = ring_push (stochasticPercent strength (extreme_value high) (extreme_value low)) (srFast s);
                    s2 = s1\<lparr>srFast := fast\<rparr>
                in if \<not> ring_full fast then s2
                   else
                     let smoothed = boundedPercent (ring_mean fast); slow = ring_push smoothed (srSlow s);
                         s3 = s2\<lparr>srSlow := slow\<rparr>
                     in if \<not> ring_full slow then s3
                        else s3\<lparr>srValues := [smoothed, boundedPercent (ring_mean slow)]\<rparr>)"

definition StochRSI_Ready :: "StochRSI \<Rightarrow> bool" where "StochRSI_Ready s = ring_full (srSlow s)"

definition StochRSI_Warmup :: "StochRSI \<Rightarrow> int" where
  "StochRSI_Warmup s = RSI_Warmup (srRsi s) + srStoch s + srK s + srD s - 3"

definition StochRSI_PrimeBars :: "StochRSI \<Rightarrow> int" where
  "StochRSI_PrimeBars s = RSI_PrimeBars (srRsi s) + srStoch s + srK s + srD s"

definition StochRSI_Reset :: "StochRSI \<Rightarrow> StochRSI" where
  "StochRSI_Reset s =
     s\<lparr>srRsi := RSI_Reset (srRsi s), srHigh := extreme_reset (srHigh s), srLow := extreme_reset (srLow s),
       srFast := ring_reset (srFast s), srSlow := ring_reset (srSlow s), srValues := [0, 0]\<rparr>"

section \<open>MACD\<close>

record MACD =
  macdSource :: source
  macdFast :: ema
  macdSlow :: ema
  macdSignal :: ema
  macdValues :: "f64 list"

definition NewMACD :: "int \<Rightarrow> int \<Rightarrow> int \<Rightarrow> source \<Rightarrow> MACD" where
  "NewMACD fast slow signal src =
     \<lparr>macdSource = src, macdFast = newEMA fast, macdSlow = newEMA slow, macdSignal = newEMA signal,
      macdValues = [0, 0, 0]\<rparr>"

definition MACD_Update :: "icandle \<Rightarrow> MACD \<Rightarrow> MACD" where
  "MACD_Update c m =
     (let price = source_value (macdSource m) c; fast = ema_push price (macdFast m);
          slow = ema_push price (macdSlow m); m1 = m\<lparr>macdFast := fast, macdSlow := slow\<rparr>
      in if \<not> emReady slow then m1
         else
           let line = emValue fast - emValue slow; signal = ema_push line (macdSignal m);
               m2 = m1\<lparr>macdSignal := signal\<rparr>
           in if \<not> emReady signal then m2
              else m2\<lparr>macdValues := [line, emValue signal, line - emValue signal]\<rparr>)"

definition MACD_Ready :: "MACD \<Rightarrow> bool" where "MACD_Ready m = emReady (macdSignal m)"

definition MACD_Warmup :: "MACD \<Rightarrow> int" where
  "MACD_Warmup m = emPeriod (macdSlow m) - 1 + emPeriod (macdSignal m) - 1"

definition MACD_PrimeBars :: "MACD \<Rightarrow> int" where
  "MACD_PrimeBars m = (emPeriod (macdSlow m) + emPeriod (macdSignal m)) * emaPrimeFactor"

definition MACD_Reset :: "MACD \<Rightarrow> MACD" where
  "MACD_Reset m =
     m\<lparr>macdFast := ema_reset (macdFast m), macdSlow := ema_reset (macdSlow m),
       macdSignal := ema_reset (macdSignal m), macdValues := [0, 0, 0]\<rparr>"

section \<open>Momentum and rate of change\<close>

record Momentum =
  momPeriod :: int
  momSource :: source
  momWindow :: ring
  momValue :: f64

definition NewMomentum :: "int \<Rightarrow> source \<Rightarrow> Momentum" where
  "NewMomentum p s =
     (let period = max p 1
      in \<lparr>momPeriod = period, momSource = s, momWindow = newRing (period + 1), momValue = 0\<rparr>)"

definition Momentum_Update :: "icandle \<Rightarrow> Momentum \<Rightarrow> Momentum" where
  "Momentum_Update c m =
     (let price = source_value (momSource m) c; w = ring_push price (momWindow m);
          m1 = m\<lparr>momWindow := w\<rparr>
      in if \<not> ring_full w then m1 else m1\<lparr>momValue := price - ring_at w 0\<rparr>)"

definition Momentum_Ready :: "Momentum \<Rightarrow> bool" where "Momentum_Ready m = ring_full (momWindow m)"

definition Momentum_Warmup :: "Momentum \<Rightarrow> int" where "Momentum_Warmup m = momPeriod m"

definition Momentum_Reset :: "Momentum \<Rightarrow> Momentum" where
  "Momentum_Reset m = m\<lparr>momWindow := ring_reset (momWindow m), momValue := 0\<rparr>"

record ROC =
  rocPeriod :: int
  rocSource :: source
  rocWindow :: ring
  rocValue :: f64

definition NewROC :: "int \<Rightarrow> source \<Rightarrow> ROC" where
  "NewROC p s =
     (let period = max p 1
      in \<lparr>rocPeriod = period, rocSource = s, rocWindow = newRing (period + 1), rocValue = 0\<rparr>)"

definition ROC_Update :: "icandle \<Rightarrow> ROC \<Rightarrow> ROC" where
  "ROC_Update c r =
     (let price = source_value (rocSource r) c; w = ring_push price (rocWindow r); r1 = r\<lparr>rocWindow := w\<rparr>
      in if \<not> ring_full w then r1
         else
           let past = ring_at w 0
           in if feq past 0 then r1\<lparr>rocValue := 0\<rparr>
              else r1\<lparr>rocValue := Fin 100 * (price - past) / past\<rparr>)"

definition ROC_Ready :: "ROC \<Rightarrow> bool" where "ROC_Ready r = ring_full (rocWindow r)"

definition ROC_Warmup :: "ROC \<Rightarrow> int" where "ROC_Warmup r = rocPeriod r"

definition ROC_Reset :: "ROC \<Rightarrow> ROC" where
  "ROC_Reset r = r\<lparr>rocWindow := ring_reset (rocWindow r), rocValue := 0\<rparr>"

section \<open>Williams %R\<close>

record WilliamsR =
  wrPeriod :: int
  wrHigh :: extreme
  wrLow :: extreme
  wrValue :: f64

definition NewWilliamsR :: "int \<Rightarrow> WilliamsR" where
  "NewWilliamsR p =
     (let period = max p 1
      in \<lparr>wrPeriod = period, wrHigh = newExtreme period True, wrLow = newExtreme period False, wrValue = 0\<rparr>)"

definition WilliamsR_Update :: "icandle \<Rightarrow> WilliamsR \<Rightarrow> WilliamsR" where
  "WilliamsR_Update c w =
     (let high = extreme_push (iHigh c) (wrHigh w); low = extreme_push (iLow c) (wrLow w);
          w1 = w\<lparr>wrHigh := high, wrLow := low\<rparr>
      in if \<not> extreme_full high then w1
         else w1\<lparr>wrValue := stochasticPercent (iClose c) (extreme_value high) (extreme_value low) - Fin 100\<rparr>)"

definition WilliamsR_Ready :: "WilliamsR \<Rightarrow> bool" where "WilliamsR_Ready w = extreme_full (wrHigh w)"

definition WilliamsR_Warmup :: "WilliamsR \<Rightarrow> int" where "WilliamsR_Warmup w = wrPeriod w - 1"

definition WilliamsR_Reset :: "WilliamsR \<Rightarrow> WilliamsR" where
  "WilliamsR_Reset w =
     w\<lparr>wrHigh := extreme_reset (wrHigh w), wrLow := extreme_reset (wrLow w), wrValue := 0\<rparr>"

section \<open>Commodity channel index\<close>

record CCI =
  cciPeriod :: int
  cciWindow :: ring
  cciValue :: f64

definition cciFactor :: f64 where "cciFactor = rnd (15 / 1000)"

definition NewCCI :: "int \<Rightarrow> CCI" where
  "NewCCI p = (let period = max p 1 in \<lparr>cciPeriod = period, cciWindow = newRing period, cciValue = 0\<rparr>)"

definition CCI_Update :: "icandle \<Rightarrow> CCI \<Rightarrow> CCI" where
  "CCI_Update c i =
     (let w = ring_push ((iHigh c + iLow c + iClose c) / Fin 3) (cciWindow i); i1 = i\<lparr>cciWindow := w\<rparr>
      in if \<not> ring_full w then i1
         else
           let mean = ring_mean w;
               spread = fold (\<lambda>k acc. acc + \<bar>ring_at w k - mean\<bar>) [0..cciPeriod i - 1] 0 / float_of_int (cciPeriod i)
           in if feq spread 0 then i1\<lparr>cciValue := 0\<rparr>
              else i1\<lparr>cciValue := (ring_at w (cciPeriod i - 1) - mean) / (cciFactor * spread)\<rparr>)"

definition CCI_Ready :: "CCI \<Rightarrow> bool" where "CCI_Ready i = ring_full (cciWindow i)"

definition CCI_Warmup :: "CCI \<Rightarrow> int" where "CCI_Warmup i = cciPeriod i - 1"

definition CCI_Reset :: "CCI \<Rightarrow> CCI" where
  "CCI_Reset i = i\<lparr>cciWindow := ring_reset (cciWindow i), cciValue := 0\<rparr>"

section \<open>Aroon\<close>

record Aroon =
  aroPeriod :: int
  aroHigh :: extreme
  aroLow :: extreme
  aroValues :: "f64 list"

definition NewAroon :: "int \<Rightarrow> Aroon" where
  "NewAroon p =
     (let period = max p 1
      in \<lparr>aroPeriod = period, aroHigh = newExtreme (period + 1) True, aroLow = newExtreme (period + 1) False,
          aroValues = [0, 0, 0]\<rparr>)"

definition Aroon_Update :: "icandle \<Rightarrow> Aroon \<Rightarrow> Aroon" where
  "Aroon_Update c a =
     (let high = extreme_push (iHigh c) (aroHigh a); low = extreme_push (iLow c) (aroLow a);
          a1 = a\<lparr>aroHigh := high, aroLow := low\<rparr>
      in if \<not> extreme_full high then a1
         else
           let up = Fin 100 * float_of_int (aroPeriod a - extreme_age high) / float_of_int (aroPeriod a);
               down = Fin 100 * float_of_int (aroPeriod a - extreme_age low) / float_of_int (aroPeriod a)
           in a1\<lparr>aroValues := [up, down, up - down]\<rparr>)"

definition Aroon_Ready :: "Aroon \<Rightarrow> bool" where "Aroon_Ready a = extreme_full (aroHigh a)"

definition Aroon_Warmup :: "Aroon \<Rightarrow> int" where "Aroon_Warmup a = aroPeriod a"

definition Aroon_Reset :: "Aroon \<Rightarrow> Aroon" where
  "Aroon_Reset a =
     a\<lparr>aroHigh := extreme_reset (aroHigh a), aroLow := extreme_reset (aroLow a), aroValues := [0, 0, 0]\<rparr>"

section \<open>Average directional index\<close>

record ADX =
  adxPeriod :: int
  adxPrevious :: icandle
  adxSeen :: bool
  adxSpan :: wilder
  adxPlus :: wilder
  adxMinus :: wilder
  adxIndex :: wilder
  adxValues :: "f64 list"

definition NewADX :: "int \<Rightarrow> ADX" where
  "NewADX p =
     (let period = max p 1
      in \<lparr>adxPeriod = period, adxPrevious = zero_icandle, adxSeen = False, adxSpan = newWilder period,
          adxPlus = newWilder period, adxMinus = newWilder period, adxIndex = newWilder period,
          adxValues = [0, 0, 0]\<rparr>)"

definition ADX_Update :: "icandle \<Rightarrow> ADX \<Rightarrow> ADX" where
  "ADX_Update c a =
     (if \<not> adxSeen a then a\<lparr>adxPrevious := c, adxSeen := True\<rparr>
      else
        let prev = adxPrevious a; up = iHigh c - iHigh prev; down = iLow prev - iLow c;
            plus = (if up > down \<and> up > 0 then up else 0);
            minus = (if down > up \<and> down > 0 then down else 0);
            spread = math_Max (iHigh c - iLow c) (math_Max \<bar>iHigh c - iClose prev\<bar> \<bar>iLow c - iClose prev\<bar>);
            a1 = a\<lparr>adxPrevious := c, adxSpan := wilder_push spread (adxSpan a),
                   adxPlus := wilder_push plus (adxPlus a), adxMinus := wilder_push minus (adxMinus a)\<rparr>
        in if \<not> wlReady (adxSpan a1) then a1
           else
             let scaled = wlValue (adxSpan a1) > 0;
                 plusDI = (if scaled then Fin 100 * wlValue (adxPlus a1) / wlValue (adxSpan a1) else 0);
                 minusDI = (if scaled then Fin 100 * wlValue (adxMinus a1) / wlValue (adxSpan a1) else 0);
                 sum = plusDI + minusDI;
                 strength = (if sum > 0 then Fin 100 * \<bar>plusDI - minusDI\<bar> / sum else 0);
                 a2 = a1\<lparr>adxIndex := wilder_push strength (adxIndex a1)\<rparr>
             in if \<not> wlReady (adxIndex a2) then a2
                else a2\<lparr>adxValues := [wlValue (adxIndex a2), plusDI, minusDI]\<rparr>)"

definition ADX_Ready :: "ADX \<Rightarrow> bool" where "ADX_Ready a = wlReady (adxIndex a)"

definition ADX_Warmup :: "ADX \<Rightarrow> int" where "ADX_Warmup a = 2 * adxPeriod a - 1"

definition ADX_PrimeBars :: "ADX \<Rightarrow> int" where "ADX_PrimeBars a = 2 * adxPeriod a * wilderPrimeFactor"

definition ADX_Reset :: "ADX \<Rightarrow> ADX" where
  "ADX_Reset a =
     a\<lparr>adxPrevious := zero_icandle, adxSeen := False, adxSpan := wilder_reset (adxSpan a),
       adxPlus := wilder_reset (adxPlus a), adxMinus := wilder_reset (adxMinus a),
       adxIndex := wilder_reset (adxIndex a), adxValues := [0, 0, 0]\<rparr>"

section \<open>Money flow index\<close>

record MFI =
  mfiPeriod :: int
  mfiPrevious :: f64
  mfiSeen :: bool
  mfiPositive :: ring
  mfiNegative :: ring
  mfiValue :: f64

definition NewMFI :: "int \<Rightarrow> MFI" where
  "NewMFI p =
     (let period = max p 1
      in \<lparr>mfiPeriod = period, mfiPrevious = 0, mfiSeen = False, mfiPositive = newRing period,
          mfiNegative = newRing period, mfiValue = 0\<rparr>)"

definition MFI_Update :: "icandle \<Rightarrow> MFI \<Rightarrow> MFI" where
  "MFI_Update c m =
     (let typical = (iHigh c + iLow c + iClose c) / Fin 3
      in if \<not> mfiSeen m then m\<lparr>mfiPrevious := typical, mfiSeen := True\<rparr>
         else
           let flow = typical * iVolume c;
               positive = (if typical > mfiPrevious m then flow else 0);
               negative = (if typical > mfiPrevious m then 0 else if typical < mfiPrevious m then flow else 0);
               m1 = m\<lparr>mfiPrevious := typical, mfiPositive := ring_push positive (mfiPositive m),
                      mfiNegative := ring_push negative (mfiNegative m)\<rparr>
           in if \<not> ring_full (mfiPositive m1) then m1
              else if feq (rTotal (mfiNegative m1)) 0 then m1\<lparr>mfiValue := Fin 100\<rparr>
              else m1\<lparr>mfiValue := boundedPercent
                 (Fin 100 - Fin 100 / (Fin 1 + rTotal (mfiPositive m1) / rTotal (mfiNegative m1)))\<rparr>)"

definition MFI_Ready :: "MFI \<Rightarrow> bool" where "MFI_Ready m = ring_full (mfiPositive m)"

definition MFI_Warmup :: "MFI \<Rightarrow> int" where "MFI_Warmup m = mfiPeriod m"

definition MFI_Reset :: "MFI \<Rightarrow> MFI" where
  "MFI_Reset m =
     m\<lparr>mfiPrevious := 0, mfiSeen := False, mfiPositive := ring_reset (mfiPositive m),
       mfiNegative := ring_reset (mfiNegative m), mfiValue := 0\<rparr>"

section \<open>On-balance volume and accumulation\<close>

record OBV =
  obvPrevious :: f64
  obvSeen :: bool
  obvReady :: bool
  obvTotal :: f64
  obvValue :: f64

definition NewOBV :: OBV where
  "NewOBV = \<lparr>obvPrevious = 0, obvSeen = False, obvReady = False, obvTotal = 0, obvValue = 0\<rparr>"

definition OBV_Update :: "icandle \<Rightarrow> OBV \<Rightarrow> OBV" where
  "OBV_Update c b =
     (let b1 =
        (if obvSeen b then
           let sum = (if iClose c > obvPrevious b then obvTotal b + iVolume c
                      else if iClose c < obvPrevious b then obvTotal b - iVolume c else obvTotal b)
           in b\<lparr>obvTotal := sum, obvValue := sum, obvReady := True\<rparr>
         else b)
      in b1\<lparr>obvPrevious := iClose c, obvSeen := True\<rparr>)"

definition OBV_Anchor :: "OBV \<Rightarrow> OBV" where "OBV_Anchor b = b\<lparr>obvTotal := 0\<rparr>"

definition OBV_Reset :: "OBV \<Rightarrow> OBV" where
  "OBV_Reset b = b\<lparr>obvPrevious := 0, obvSeen := False, obvReady := False, obvTotal := 0, obvValue := 0\<rparr>"

record ADLine =
  adTotal :: f64
  adReady :: bool
  adValue :: f64

definition NewADLine :: ADLine where "NewADLine = \<lparr>adTotal = 0, adReady = False, adValue = 0\<rparr>"

definition ADLine_Update :: "icandle \<Rightarrow> ADLine \<Rightarrow> ADLine" where
  "ADLine_Update c a =
     (let t = accumulation_push c (adTotal a) in a\<lparr>adTotal := t, adValue := t, adReady := True\<rparr>)"

definition ADLine_Anchor :: "ADLine \<Rightarrow> ADLine" where "ADLine_Anchor a = a\<lparr>adTotal := 0\<rparr>"

definition ADLine_Reset :: "ADLine \<Rightarrow> ADLine" where
  "ADLine_Reset a = a\<lparr>adTotal := 0, adReady := False, adValue := 0\<rparr>"

record ChaikinOscillator =
  coTotal :: f64
  coFast :: ema
  coSlow :: ema
  coValue :: f64

definition NewChaikinOscillator :: "int \<Rightarrow> int \<Rightarrow> ChaikinOscillator" where
  "NewChaikinOscillator fast slow = \<lparr>coTotal = 0, coFast = newEMA fast, coSlow = newEMA slow, coValue = 0\<rparr>"

definition ChaikinOscillator_Update :: "icandle \<Rightarrow> ChaikinOscillator \<Rightarrow> ChaikinOscillator" where
  "ChaikinOscillator_Update c o0 =
     (let t = accumulation_push c (coTotal o0); fast = ema_push t (coFast o0); slow = ema_push t (coSlow o0);
          o1 = o0\<lparr>coTotal := t, coFast := fast, coSlow := slow\<rparr>
      in if \<not> emReady slow then o1 else o1\<lparr>coValue := emValue fast - emValue slow\<rparr>)"

definition ChaikinOscillator_Ready :: "ChaikinOscillator \<Rightarrow> bool" where
  "ChaikinOscillator_Ready i = emReady (coSlow i)"

definition ChaikinOscillator_Warmup :: "ChaikinOscillator \<Rightarrow> int" where
  "ChaikinOscillator_Warmup i = emPeriod (coSlow i) - 1"

definition ChaikinOscillator_PrimeBars :: "ChaikinOscillator \<Rightarrow> int" where
  "ChaikinOscillator_PrimeBars i = emPeriod (coSlow i) * emaPrimeFactor"

definition ChaikinOscillator_Reset :: "ChaikinOscillator \<Rightarrow> ChaikinOscillator" where
  "ChaikinOscillator_Reset i =
     i\<lparr>coTotal := 0, coFast := ema_reset (coFast i), coSlow := ema_reset (coSlow i), coValue := 0\<rparr>"

record VolumeMA =
  vmaPeriod :: int
  vmaWindow :: ring
  vmaValue :: f64

definition NewVolumeMA :: "int \<Rightarrow> VolumeMA" where
  "NewVolumeMA p = (let period = max p 1 in \<lparr>vmaPeriod = period, vmaWindow = newRing period, vmaValue = 0\<rparr>)"

definition VolumeMA_Update :: "icandle \<Rightarrow> VolumeMA \<Rightarrow> VolumeMA" where
  "VolumeMA_Update c v =
     (let w = ring_push (iVolume c) (vmaWindow v); v1 = v\<lparr>vmaWindow := w\<rparr>
      in if \<not> ring_full w then v1 else v1\<lparr>vmaValue := ring_mean w\<rparr>)"

definition VolumeMA_Ready :: "VolumeMA \<Rightarrow> bool" where "VolumeMA_Ready v = ring_full (vmaWindow v)"

definition VolumeMA_Warmup :: "VolumeMA \<Rightarrow> int" where "VolumeMA_Warmup v = vmaPeriod v - 1"

definition VolumeMA_Reset :: "VolumeMA \<Rightarrow> VolumeMA" where
  "VolumeMA_Reset v = v\<lparr>vmaWindow := ring_reset (vmaWindow v), vmaValue := 0\<rparr>"

end
