(* ===== verification/Volatility.thy ===== *)
theory Volatility
  imports Oscillators
begin

text \<open>
  The indicators of the volatility and structure groups (internal/indicator/bbands.go, stddev.go,
  histvol.go, atr.go, chaikinvol.go, zigzag.go, fractals.go and pivots.go). The natural logarithm of
  the historical volatility is a field of its record: \<open>math.Log\<close> is a parameter of the model.
\<close>

section \<open>Bollinger bands and standard deviation\<close>

record BollingerBands =
  bbPeriod :: int
  bbMult :: f64
  bbSource :: source
  bbWindow :: window
  bbValues :: "f64 list"

definition NewBollingerBands :: "int \<Rightarrow> f64 \<Rightarrow> source \<Rightarrow> BollingerBands" where
  "NewBollingerBands p mult s =
     (let period = max p 1
      in \<lparr>bbPeriod = period, bbMult = mult, bbSource = s, bbWindow = newWindow period, bbValues = [0, 0, 0]\<rparr>)"

definition BollingerBands_Update :: "icandle \<Rightarrow> BollingerBands \<Rightarrow> BollingerBands" where
  "BollingerBands_Update c b =
     (let w = window_push (source_value (bbSource b) c) (bbWindow b); b1 = b\<lparr>bbWindow := w\<rparr>
      in if \<not> ring_full (wRing w) then b1
         else
           let middle = ring_mean (wRing w); spread = bbMult b * window_stddev w
           in b1\<lparr>bbValues := [middle + spread, middle, middle - spread]\<rparr>)"

definition BollingerBands_Ready :: "BollingerBands \<Rightarrow> bool" where
  "BollingerBands_Ready b = ring_full (wRing (bbWindow b))"

definition BollingerBands_Warmup :: "BollingerBands \<Rightarrow> int" where
  "BollingerBands_Warmup b = bbPeriod b - 1"

definition BollingerBands_Reset :: "BollingerBands \<Rightarrow> BollingerBands" where
  "BollingerBands_Reset b = b\<lparr>bbWindow := window_reset (bbWindow b), bbValues := [0, 0, 0]\<rparr>"

record StdDev =
  sdPeriod :: int
  sdSource :: source
  sdWindow :: window
  sdValue :: f64

definition NewStdDev :: "int \<Rightarrow> source \<Rightarrow> StdDev" where
  "NewStdDev p s =
     (let period = max p 1
      in \<lparr>sdPeriod = period, sdSource = s, sdWindow = newWindow period, sdValue = 0\<rparr>)"

definition StdDev_Update :: "icandle \<Rightarrow> StdDev \<Rightarrow> StdDev" where
  "StdDev_Update c s =
     (let w = window_push (source_value (sdSource s) c) (sdWindow s); s1 = s\<lparr>sdWindow := w\<rparr>
      in if \<not> ring_full (wRing w) then s1 else s1\<lparr>sdValue := window_stddev w\<rparr>)"

definition StdDev_Ready :: "StdDev \<Rightarrow> bool" where "StdDev_Ready s = ring_full (wRing (sdWindow s))"

definition StdDev_Warmup :: "StdDev \<Rightarrow> int" where "StdDev_Warmup s = sdPeriod s - 1"

definition StdDev_Reset :: "StdDev \<Rightarrow> StdDev" where
  "StdDev_Reset s = s\<lparr>sdWindow := window_reset (sdWindow s), sdValue := 0\<rparr>"

section \<open>Historical volatility\<close>

record HistVol =
  hvLn :: "f64 \<Rightarrow> f64"
  hvPeriod :: int
  hvAnnual :: int
  hvSource :: source
  hvPrevious :: f64
  hvSeen :: bool
  hvWindow :: window
  hvValue :: f64

definition NewHistVol :: "(f64 \<Rightarrow> f64) \<Rightarrow> int \<Rightarrow> int \<Rightarrow> source \<Rightarrow> HistVol" where
  "NewHistVol math_Log p annual s =
     (let period = max p 1
      in \<lparr>hvLn = math_Log, hvPeriod = period, hvAnnual = max annual 1, hvSource = s, hvPrevious = 0,
          hvSeen = False, hvWindow = newWindow period, hvValue = 0\<rparr>)"

definition HistVol_Update :: "icandle \<Rightarrow> HistVol \<Rightarrow> HistVol" where
  "HistVol_Update c h =
     (let price = source_value (hvSource h) c
      in if \<not> hvSeen h then h\<lparr>hvPrevious := price, hvSeen := True\<rparr>
         else
           let change = (if price > 0 \<and> hvPrevious h > 0 then hvLn h (price / hvPrevious h) else 0);
               w = window_push change (hvWindow h); h1 = h\<lparr>hvPrevious := price, hvWindow := w\<rparr>
           in if \<not> ring_full (wRing w) then h1
              else h1\<lparr>hvValue := Fin 100 * window_stddev w * math_Sqrt (float_of_int (hvAnnual h))\<rparr>)"

definition HistVol_Ready :: "HistVol \<Rightarrow> bool" where "HistVol_Ready h = ring_full (wRing (hvWindow h))"

definition HistVol_Warmup :: "HistVol \<Rightarrow> int" where "HistVol_Warmup h = hvPeriod h"

definition HistVol_Reset :: "HistVol \<Rightarrow> HistVol" where
  "HistVol_Reset h =
     h\<lparr>hvPrevious := 0, hvSeen := False, hvWindow := window_reset (hvWindow h), hvValue := 0\<rparr>"

section \<open>Average true range\<close>

record ATR =
  atrInner :: atr
  atrValue :: f64

definition NewATR :: "int \<Rightarrow> ATR" where "NewATR p = \<lparr>atrInner = newATR p, atrValue = 0\<rparr>"

definition ATR_Update :: "icandle \<Rightarrow> ATR \<Rightarrow> ATR" where
  "ATR_Update c a =
     (let i = atr_push c (atrInner a) in a\<lparr>atrInner := i, atrValue := wlValue (atSmooth i)\<rparr>)"

definition ATR_Ready :: "ATR \<Rightarrow> bool" where "ATR_Ready a = wlReady (atSmooth (atrInner a))"

definition ATR_Warmup :: "ATR \<Rightarrow> int" where "ATR_Warmup a = atPeriod (atrInner a)"

definition ATR_PrimeBars :: "ATR \<Rightarrow> int" where
  "ATR_PrimeBars a = atPeriod (atrInner a) * wilderPrimeFactor"

definition ATR_Reset :: "ATR \<Rightarrow> ATR" where
  "ATR_Reset a = a\<lparr>atrInner := atr_reset (atrInner a), atrValue := 0\<rparr>"

section \<open>Chaikin volatility\<close>

record ChaikinVol =
  cvPeriod :: int
  cvChange :: int
  cvSpread :: ema
  cvWindow :: ring
  cvValue :: f64

definition NewChaikinVol :: "int \<Rightarrow> int \<Rightarrow> ChaikinVol" where
  "NewChaikinVol p ch =
     (let period = max p 1; change = max ch 1
      in \<lparr>cvPeriod = period, cvChange = change, cvSpread = newEMA period, cvWindow = newRing (change + 1),
          cvValue = 0\<rparr>)"

definition ChaikinVol_Update :: "icandle \<Rightarrow> ChaikinVol \<Rightarrow> ChaikinVol" where
  "ChaikinVol_Update c v =
     (let spread = ema_push (iHigh c - iLow c) (cvSpread v); v1 = v\<lparr>cvSpread := spread\<rparr>
      in if \<not> emReady spread then v1
         else
           let w = ring_push (emValue spread) (cvWindow v); v2 = v1\<lparr>cvWindow := w\<rparr>
           in if \<not> ring_full w then v2
              else
                let past = ring_at w 0
                in if feq past 0 then v2\<lparr>cvValue := 0\<rparr>
                   else v2\<lparr>cvValue := Fin 100 * (emValue spread - past) / past\<rparr>)"

definition ChaikinVol_Ready :: "ChaikinVol \<Rightarrow> bool" where "ChaikinVol_Ready v = ring_full (cvWindow v)"

definition ChaikinVol_Warmup :: "ChaikinVol \<Rightarrow> int" where
  "ChaikinVol_Warmup v = cvPeriod v - 1 + cvChange v"

definition ChaikinVol_PrimeBars :: "ChaikinVol \<Rightarrow> int" where
  "ChaikinVol_PrimeBars v = cvPeriod v * emaPrimeFactor + cvChange v"

definition ChaikinVol_Reset :: "ChaikinVol \<Rightarrow> ChaikinVol" where
  "ChaikinVol_Reset v =
     v\<lparr>cvSpread := ema_reset (cvSpread v), cvWindow := ring_reset (cvWindow v), cvValue := 0\<rparr>"

section \<open>ZigZag\<close>

record ZigZag =
  zzThreshold :: f64
  zzPivot :: f64
  zzExtreme :: f64
  zzDirection :: f64
  zzStarted :: bool
  zzValues :: "f64 list"

definition NewZigZag :: "f64 \<Rightarrow> ZigZag" where
  "NewZigZag deviation =
     \<lparr>zzThreshold = deviation / Fin 100, zzPivot = 0, zzExtreme = 0, zzDirection = 0, zzStarted = False,
      zzValues = [0, 0]\<rparr>"

definition zigzag_moved :: "ZigZag \<Rightarrow> f64 \<Rightarrow> f64 \<Rightarrow> bool" where
  "zigzag_moved z from to = (if from \<le> 0 then False else \<bar>to - from\<bar> / from \<ge> zzThreshold z)"

definition ZigZag_Update :: "icandle \<Rightarrow> ZigZag \<Rightarrow> ZigZag" where
  "ZigZag_Update c z =
     (if \<not> zzStarted z
      then z\<lparr>zzPivot := iClose c, zzExtreme := iClose c, zzStarted := True, zzValues := [iClose c, zzDirection z]\<rparr>
      else
        let z1 =
          (if zzDirection z > 0 then
             let top = math_Max (zzExtreme z) (iHigh c)
             in if zigzag_moved z top (iLow c)
                then z\<lparr>zzPivot := top, zzExtreme := iLow c, zzDirection := Fin (- 1)\<rparr>
                else z\<lparr>zzExtreme := top\<rparr>
           else if zzDirection z < 0 then
             let bottom = math_Min (zzExtreme z) (iLow c)
             in if zigzag_moved z bottom (iHigh c)
                then z\<lparr>zzPivot := bottom, zzExtreme := iHigh c, zzDirection := Fin 1\<rparr>
                else z\<lparr>zzExtreme := bottom\<rparr>
           else if iHigh c > zzPivot z \<and> zigzag_moved z (zzPivot z) (iHigh c)
           then z\<lparr>zzExtreme := iHigh c, zzDirection := Fin 1\<rparr>
           else if iLow c < zzPivot z \<and> zigzag_moved z (zzPivot z) (iLow c)
           then z\<lparr>zzExtreme := iLow c, zzDirection := Fin (- 1)\<rparr>
           else z)
        in z1\<lparr>zzValues := [zzExtreme z1, zzDirection z1]\<rparr>)"

definition ZigZag_Reset :: "ZigZag \<Rightarrow> ZigZag" where
  "ZigZag_Reset z =
     z\<lparr>zzPivot := 0, zzExtreme := 0, zzDirection := 0, zzStarted := False, zzValues := [0, 0]\<rparr>"

section \<open>Fractals\<close>

record Fractals =
  frPeriod :: int
  frSpan :: int
  frHighs :: ring
  frLows :: ring
  frReady :: bool
  frValues :: "f64 list"

definition NewFractals :: "int \<Rightarrow> Fractals" where
  "NewFractals p =
     (let period = max p 1; width = 2 * period + 1
      in \<lparr>frPeriod = period, frSpan = width, frHighs = newRing width, frLows = newRing width,
          frReady = False, frValues = [0, 0]\<rparr>)"

fun fractal_loop :: "ring \<Rightarrow> bool \<Rightarrow> f64 \<Rightarrow> int \<Rightarrow> int list \<Rightarrow> f64 option" where
  "fractal_loop w peak centre period [] = Some centre"
| "fractal_loop w peak centre period (i # is) =
     (if i = period then fractal_loop w peak centre period is
      else if peak \<and> ring_at w i \<ge> centre then None
      else if \<not> peak \<and> ring_at w i \<le> centre then None
      else fractal_loop w peak centre period is)"

definition fractal_pivot :: "Fractals \<Rightarrow> ring \<Rightarrow> bool \<Rightarrow> f64 option" where
  "fractal_pivot f w peak = fractal_loop w peak (ring_at w (frPeriod f)) (frPeriod f) [0..frSpan f - 1]"

definition Fractals_Update :: "icandle \<Rightarrow> Fractals \<Rightarrow> Fractals" where
  "Fractals_Update c f0 =
     (let f = f0\<lparr>frHighs := ring_push (iHigh c) (frHighs f0), frLows := ring_push (iLow c) (frLows f0)\<rparr>
      in if \<not> ring_full (frHighs f) then f
         else
           let seeded =
                 (if \<not> frReady f
                  then f\<lparr>frValues :=
                          [fold (\<lambda>i acc. go_max acc (ring_at (frHighs f) i)) [1..frSpan f - 1] (ring_at (frHighs f) 0),
                           fold (\<lambda>i acc. go_min acc (ring_at (frLows f) i)) [1..frSpan f - 1] (ring_at (frLows f) 0)],
                         frReady := True\<rparr>
                  else f);
               peaked = (case fractal_pivot seeded (frHighs seeded) True of
                           Some v \<Rightarrow> seeded\<lparr>frValues := (frValues seeded)[0 := v]\<rparr> | None \<Rightarrow> seeded)
           in case fractal_pivot peaked (frLows peaked) False of
                Some v \<Rightarrow> peaked\<lparr>frValues := (frValues peaked)[1 := v]\<rparr> | None \<Rightarrow> peaked)"

definition Fractals_Warmup :: "Fractals \<Rightarrow> int" where "Fractals_Warmup f = 2 * frPeriod f"

definition Fractals_Reset :: "Fractals \<Rightarrow> Fractals" where
  "Fractals_Reset f =
     f\<lparr>frHighs := ring_reset (frHighs f), frLows := ring_reset (frLows f), frReady := False, frValues := [0, 0]\<rparr>"

section \<open>Pivot points\<close>

record PivotPoints =
  ppPeriod :: int
  ppFib :: bool
  ppHigh :: extreme
  ppLow :: extreme
  ppCloses :: ring
  ppReady :: bool
  ppValues :: "f64 list"

definition NewPivotPoints :: "int \<Rightarrow> bool \<Rightarrow> PivotPoints" where
  "NewPivotPoints p fib =
     (let period = max p 1
      in \<lparr>ppPeriod = period, ppFib = fib, ppHigh = newExtreme period True, ppLow = newExtreme period False,
          ppCloses = newRing period, ppReady = False, ppValues = [0, 0, 0, 0, 0, 0, 0]\<rparr>)"

definition pivot_compute :: "bool \<Rightarrow> f64 \<Rightarrow> f64 \<Rightarrow> f64 \<Rightarrow> f64 list" where
  "pivot_compute fib high low lst =
     (let pivot = (high + low + lst) / Fin 3; width = high - low
      in if fib then
           [pivot, pivot + rnd (382 / 1000) * width, pivot + rnd (618 / 1000) * width, pivot + Fin 1 * width,
            pivot - rnd (382 / 1000) * width, pivot - rnd (618 / 1000) * width, pivot - Fin 1 * width]
         else
           [pivot, Fin 2 * pivot - low, pivot + width, high + Fin 2 * (pivot - low),
            Fin 2 * pivot - high, pivot - width, low - Fin 2 * (high - pivot)])"

definition PivotPoints_Update :: "icandle \<Rightarrow> PivotPoints \<Rightarrow> PivotPoints" where
  "PivotPoints_Update c p =
     (let p1 = (if extreme_full (ppHigh p)
                then p\<lparr>ppValues := pivot_compute (ppFib p) (extreme_value (ppHigh p)) (extreme_value (ppLow p))
                                     (ring_at (ppCloses p) (ppPeriod p - 1)), ppReady := True\<rparr>
                else p)
      in p1\<lparr>ppHigh := extreme_push (iHigh c) (ppHigh p), ppLow := extreme_push (iLow c) (ppLow p),
            ppCloses := ring_push (iClose c) (ppCloses p)\<rparr>)"

definition PivotPoints_Warmup :: "PivotPoints \<Rightarrow> int" where "PivotPoints_Warmup p = ppPeriod p"

definition PivotPoints_Reset :: "PivotPoints \<Rightarrow> PivotPoints" where
  "PivotPoints_Reset p =
     p\<lparr>ppHigh := extreme_reset (ppHigh p), ppLow := extreme_reset (ppLow p),
       ppCloses := ring_reset (ppCloses p), ppReady := False, ppValues := [0, 0, 0, 0, 0, 0, 0]\<rparr>"

end
