(* ===== verification/Indicators.thy ===== *)
theory Indicators
  imports Volatility
begin

text \<open>
  The interface \<open>Indicator\<close> (internal/indicator/indicator.go): a value of the type \<open>indicator\<close> is one
  of the library's indicators, the interface's methods dispatch on it, and \<open>Emit\<close> and \<open>Compute\<close> run
  it over a series. The contract every indicator keeps is the locale \<open>streaming_indicator\<close>: an
  indicator is ready exactly from its \<open>Warmup\<close> on, and its outputs keep their number.
\<close>

datatype indicator =
    ISMA SMA
  | IEMA EMA
  | IWMA WMA
  | IDEMA DEMA
  | ITEMA TEMA
  | IHMA HMA
  | IVWMA VWMA
  | IVWAP VWAP
  | IKeltner Keltner
  | IDonchian Donchian
  | IIchimoku Ichimoku
  | ISuperTrend SuperTrend
  | IParabolicSAR ParabolicSAR
  | IRSI RSI
  | IStochastic Stochastic
  | IStochRSI StochRSI
  | IMACD MACD
  | IMomentum Momentum
  | IROC ROC
  | IWilliamsR WilliamsR
  | ICCI CCI
  | IAroon Aroon
  | IADX ADX
  | IMFI MFI
  | IOBV OBV
  | IADLine ADLine
  | IChaikinOscillator ChaikinOscillator
  | IVolumeMA VolumeMA
  | IBollingerBands BollingerBands
  | IStdDev StdDev
  | IHistVol HistVol
  | IATR ATR
  | IChaikinVol ChaikinVol
  | IZigZag ZigZag
  | IFractals Fractals
  | IPivotPoints PivotPoints

fun Update :: "icandle \<Rightarrow> indicator \<Rightarrow> indicator" where
  "Update c (ISMA x) = ISMA (SMA_Update c x)"
| "Update c (IEMA x) = IEMA (EMA_Update c x)"
| "Update c (IWMA x) = IWMA (WMA_Update c x)"
| "Update c (IDEMA x) = IDEMA (DEMA_Update c x)"
| "Update c (ITEMA x) = ITEMA (TEMA_Update c x)"
| "Update c (IHMA x) = IHMA (HMA_Update c x)"
| "Update c (IVWMA x) = IVWMA (VWMA_Update c x)"
| "Update c (IVWAP x) = IVWAP (VWAP_Update c x)"
| "Update c (IKeltner x) = IKeltner (Keltner_Update c x)"
| "Update c (IDonchian x) = IDonchian (Donchian_Update c x)"
| "Update c (IIchimoku x) = IIchimoku (Ichimoku_Update c x)"
| "Update c (ISuperTrend x) = ISuperTrend (SuperTrend_Update c x)"
| "Update c (IParabolicSAR x) = IParabolicSAR (ParabolicSAR_Update c x)"
| "Update c (IRSI x) = IRSI (RSI_Update c x)"
| "Update c (IStochastic x) = IStochastic (Stochastic_Update c x)"
| "Update c (IStochRSI x) = IStochRSI (StochRSI_Update c x)"
| "Update c (IMACD x) = IMACD (MACD_Update c x)"
| "Update c (IMomentum x) = IMomentum (Momentum_Update c x)"
| "Update c (IROC x) = IROC (ROC_Update c x)"
| "Update c (IWilliamsR x) = IWilliamsR (WilliamsR_Update c x)"
| "Update c (ICCI x) = ICCI (CCI_Update c x)"
| "Update c (IAroon x) = IAroon (Aroon_Update c x)"
| "Update c (IADX x) = IADX (ADX_Update c x)"
| "Update c (IMFI x) = IMFI (MFI_Update c x)"
| "Update c (IOBV x) = IOBV (OBV_Update c x)"
| "Update c (IADLine x) = IADLine (ADLine_Update c x)"
| "Update c (IChaikinOscillator x) = IChaikinOscillator (ChaikinOscillator_Update c x)"
| "Update c (IVolumeMA x) = IVolumeMA (VolumeMA_Update c x)"
| "Update c (IBollingerBands x) = IBollingerBands (BollingerBands_Update c x)"
| "Update c (IStdDev x) = IStdDev (StdDev_Update c x)"
| "Update c (IHistVol x) = IHistVol (HistVol_Update c x)"
| "Update c (IATR x) = IATR (ATR_Update c x)"
| "Update c (IChaikinVol x) = IChaikinVol (ChaikinVol_Update c x)"
| "Update c (IZigZag x) = IZigZag (ZigZag_Update c x)"
| "Update c (IFractals x) = IFractals (Fractals_Update c x)"
| "Update c (IPivotPoints x) = IPivotPoints (PivotPoints_Update c x)"

fun Values :: "indicator \<Rightarrow> f64 list" where
  "Values (ISMA x) = [smaValue x]"
| "Values (IEMA x) = [emaValue x]"
| "Values (IWMA x) = [wmaValue x]"
| "Values (IDEMA x) = [demaValue x]"
| "Values (ITEMA x) = [temaValue x]"
| "Values (IHMA x) = [hmaValue x]"
| "Values (IVWMA x) = [vwmaValue x]"
| "Values (IVWAP x) = [vwapValue x]"
| "Values (IKeltner x) = kelValues x"
| "Values (IDonchian x) = donValues x"
| "Values (IIchimoku x) = ichValues x"
| "Values (ISuperTrend x) = stValues x"
| "Values (IParabolicSAR x) = psValues x"
| "Values (IRSI x) = [rsiValue x]"
| "Values (IStochastic x) = stoValues x"
| "Values (IStochRSI x) = srValues x"
| "Values (IMACD x) = macdValues x"
| "Values (IMomentum x) = [momValue x]"
| "Values (IROC x) = [rocValue x]"
| "Values (IWilliamsR x) = [wrValue x]"
| "Values (ICCI x) = [cciValue x]"
| "Values (IAroon x) = aroValues x"
| "Values (IADX x) = adxValues x"
| "Values (IMFI x) = [mfiValue x]"
| "Values (IOBV x) = [obvValue x]"
| "Values (IADLine x) = [adValue x]"
| "Values (IChaikinOscillator x) = [coValue x]"
| "Values (IVolumeMA x) = [vmaValue x]"
| "Values (IBollingerBands x) = bbValues x"
| "Values (IStdDev x) = [sdValue x]"
| "Values (IHistVol x) = [hvValue x]"
| "Values (IATR x) = [atrValue x]"
| "Values (IChaikinVol x) = [cvValue x]"
| "Values (IZigZag x) = zzValues x"
| "Values (IFractals x) = frValues x"
| "Values (IPivotPoints x) = ppValues x"

fun Ready :: "indicator \<Rightarrow> bool" where
  "Ready (ISMA x) = SMA_Ready x"
| "Ready (IEMA x) = EMA_Ready x"
| "Ready (IWMA x) = WMA_Ready x"
| "Ready (IDEMA x) = DEMA_Ready x"
| "Ready (ITEMA x) = TEMA_Ready x"
| "Ready (IHMA x) = HMA_Ready x"
| "Ready (IVWMA x) = VWMA_Ready x"
| "Ready (IVWAP x) = VWAP_Ready x"
| "Ready (IKeltner x) = Keltner_Ready x"
| "Ready (IDonchian x) = Donchian_Ready x"
| "Ready (IIchimoku x) = Ichimoku_Ready x"
| "Ready (ISuperTrend x) = SuperTrend_Ready x"
| "Ready (IParabolicSAR x) = ParabolicSAR_Ready x"
| "Ready (IRSI x) = RSI_Ready x"
| "Ready (IStochastic x) = Stochastic_Ready x"
| "Ready (IStochRSI x) = StochRSI_Ready x"
| "Ready (IMACD x) = MACD_Ready x"
| "Ready (IMomentum x) = Momentum_Ready x"
| "Ready (IROC x) = ROC_Ready x"
| "Ready (IWilliamsR x) = WilliamsR_Ready x"
| "Ready (ICCI x) = CCI_Ready x"
| "Ready (IAroon x) = Aroon_Ready x"
| "Ready (IADX x) = ADX_Ready x"
| "Ready (IMFI x) = MFI_Ready x"
| "Ready (IOBV x) = obvReady x"
| "Ready (IADLine x) = adReady x"
| "Ready (IChaikinOscillator x) = ChaikinOscillator_Ready x"
| "Ready (IVolumeMA x) = VolumeMA_Ready x"
| "Ready (IBollingerBands x) = BollingerBands_Ready x"
| "Ready (IStdDev x) = StdDev_Ready x"
| "Ready (IHistVol x) = HistVol_Ready x"
| "Ready (IATR x) = ATR_Ready x"
| "Ready (IChaikinVol x) = ChaikinVol_Ready x"
| "Ready (IZigZag x) = zzStarted x"
| "Ready (IFractals x) = frReady x"
| "Ready (IPivotPoints x) = ppReady x"

fun Warmup :: "indicator \<Rightarrow> int" where
  "Warmup (ISMA x) = SMA_Warmup x"
| "Warmup (IEMA x) = EMA_Warmup x"
| "Warmup (IWMA x) = WMA_Warmup x"
| "Warmup (IDEMA x) = DEMA_Warmup x"
| "Warmup (ITEMA x) = TEMA_Warmup x"
| "Warmup (IHMA x) = HMA_Warmup x"
| "Warmup (IVWMA x) = VWMA_Warmup x"
| "Warmup (IVWAP x) = VWAP_Warmup x"
| "Warmup (IKeltner x) = Keltner_Warmup x"
| "Warmup (IDonchian x) = Donchian_Warmup x"
| "Warmup (IIchimoku x) = Ichimoku_Warmup x"
| "Warmup (ISuperTrend x) = SuperTrend_Warmup x"
| "Warmup (IParabolicSAR x) = 1"
| "Warmup (IRSI x) = RSI_Warmup x"
| "Warmup (IStochastic x) = Stochastic_Warmup x"
| "Warmup (IStochRSI x) = StochRSI_Warmup x"
| "Warmup (IMACD x) = MACD_Warmup x"
| "Warmup (IMomentum x) = Momentum_Warmup x"
| "Warmup (IROC x) = ROC_Warmup x"
| "Warmup (IWilliamsR x) = WilliamsR_Warmup x"
| "Warmup (ICCI x) = CCI_Warmup x"
| "Warmup (IAroon x) = Aroon_Warmup x"
| "Warmup (IADX x) = ADX_Warmup x"
| "Warmup (IMFI x) = MFI_Warmup x"
| "Warmup (IOBV x) = 1"
| "Warmup (IADLine x) = 0"
| "Warmup (IChaikinOscillator x) = ChaikinOscillator_Warmup x"
| "Warmup (IVolumeMA x) = VolumeMA_Warmup x"
| "Warmup (IBollingerBands x) = BollingerBands_Warmup x"
| "Warmup (IStdDev x) = StdDev_Warmup x"
| "Warmup (IHistVol x) = HistVol_Warmup x"
| "Warmup (IATR x) = ATR_Warmup x"
| "Warmup (IChaikinVol x) = ChaikinVol_Warmup x"
| "Warmup (IZigZag x) = 0"
| "Warmup (IFractals x) = Fractals_Warmup x"
| "Warmup (IPivotPoints x) = PivotPoints_Warmup x"

fun Reset :: "indicator \<Rightarrow> indicator" where
  "Reset (ISMA x) = ISMA (SMA_Reset x)"
| "Reset (IEMA x) = IEMA (EMA_Reset x)"
| "Reset (IWMA x) = IWMA (WMA_Reset x)"
| "Reset (IDEMA x) = IDEMA (DEMA_Reset x)"
| "Reset (ITEMA x) = ITEMA (TEMA_Reset x)"
| "Reset (IHMA x) = IHMA (HMA_Reset x)"
| "Reset (IVWMA x) = IVWMA (VWMA_Reset x)"
| "Reset (IVWAP x) = IVWAP (VWAP_Reset x)"
| "Reset (IKeltner x) = IKeltner (Keltner_Reset x)"
| "Reset (IDonchian x) = IDonchian (Donchian_Reset x)"
| "Reset (IIchimoku x) = IIchimoku (Ichimoku_Reset x)"
| "Reset (ISuperTrend x) = ISuperTrend (SuperTrend_Reset x)"
| "Reset (IParabolicSAR x) = IParabolicSAR (ParabolicSAR_Reset x)"
| "Reset (IRSI x) = IRSI (RSI_Reset x)"
| "Reset (IStochastic x) = IStochastic (Stochastic_Reset x)"
| "Reset (IStochRSI x) = IStochRSI (StochRSI_Reset x)"
| "Reset (IMACD x) = IMACD (MACD_Reset x)"
| "Reset (IMomentum x) = IMomentum (Momentum_Reset x)"
| "Reset (IROC x) = IROC (ROC_Reset x)"
| "Reset (IWilliamsR x) = IWilliamsR (WilliamsR_Reset x)"
| "Reset (ICCI x) = ICCI (CCI_Reset x)"
| "Reset (IAroon x) = IAroon (Aroon_Reset x)"
| "Reset (IADX x) = IADX (ADX_Reset x)"
| "Reset (IMFI x) = IMFI (MFI_Reset x)"
| "Reset (IOBV x) = IOBV (OBV_Reset x)"
| "Reset (IADLine x) = IADLine (ADLine_Reset x)"
| "Reset (IChaikinOscillator x) = IChaikinOscillator (ChaikinOscillator_Reset x)"
| "Reset (IVolumeMA x) = IVolumeMA (VolumeMA_Reset x)"
| "Reset (IBollingerBands x) = IBollingerBands (BollingerBands_Reset x)"
| "Reset (IStdDev x) = IStdDev (StdDev_Reset x)"
| "Reset (IHistVol x) = IHistVol (HistVol_Reset x)"
| "Reset (IATR x) = IATR (ATR_Reset x)"
| "Reset (IChaikinVol x) = IChaikinVol (ChaikinVol_Reset x)"
| "Reset (IZigZag x) = IZigZag (ZigZag_Reset x)"
| "Reset (IFractals x) = IFractals (Fractals_Reset x)"
| "Reset (IPivotPoints x) = IPivotPoints (PivotPoints_Reset x)"

text \<open>\<open>primeDepth\<close>: the bars a \<open>Primer\<close> asks for, the warm-up of any other indicator; and \<open>Anchor\<close>,
  which only the accumulating indicators implement.\<close>

fun primeDepth :: "indicator \<Rightarrow> int" where
  "primeDepth (IEMA x) = EMA_PrimeBars x"
| "primeDepth (IDEMA x) = DEMA_PrimeBars x"
| "primeDepth (ITEMA x) = TEMA_PrimeBars x"
| "primeDepth (IKeltner x) = Keltner_PrimeBars x"
| "primeDepth (ISuperTrend x) = SuperTrend_PrimeBars x"
| "primeDepth (IParabolicSAR x) = pathPrimeBars"
| "primeDepth (IRSI x) = RSI_PrimeBars x"
| "primeDepth (IStochRSI x) = StochRSI_PrimeBars x"
| "primeDepth (IMACD x) = MACD_PrimeBars x"
| "primeDepth (IADX x) = ADX_PrimeBars x"
| "primeDepth (IChaikinOscillator x) = ChaikinOscillator_PrimeBars x"
| "primeDepth (IATR x) = ATR_PrimeBars x"
| "primeDepth (IChaikinVol x) = ChaikinVol_PrimeBars x"
| "primeDepth (IZigZag x) = pathPrimeBars"
| "primeDepth (IFractals x) = pathPrimeBars"
| "primeDepth i = Warmup i"

definition MaxPrimeBars :: int where "MaxPrimeBars = 5000"

definition PrimeBars :: "indicator list \<Rightarrow> int" where
  "PrimeBars is = min (fold (\<lambda>i bars. max bars (primeDepth i)) is 0) MaxPrimeBars"

fun Anchor :: "indicator \<Rightarrow> indicator" where
  "Anchor (IOBV x) = IOBV (OBV_Anchor x)"
| "Anchor (IADLine x) = IADLine (ADLine_Anchor x)"
| "Anchor i = i"

section \<open>Running an indicator\<close>

definition Feed :: "icandle list \<Rightarrow> indicator \<Rightarrow> indicator" where
  "Feed cs i = fold Update cs i"

record emission =
  emStart :: nat
  emValues :: "f64 list list"

fun emit_loop :: "nat \<Rightarrow> indicator \<Rightarrow> emission \<Rightarrow> icandle list \<Rightarrow> indicator \<times> emission" where
  "emit_loop pos i r [] = (i, r)"
| "emit_loop pos i r (c # cs) =
     (let i1 = Update c i
      in if \<not> Ready i1 then emit_loop (pos + 1) i1 r cs
         else
           let values = Values i1;
               r1 = (if pos < emStart r then \<lparr>emStart = pos, emValues = map (\<lambda>_. []) values\<rparr> else r)
           in emit_loop (pos + 1) i1
                (r1\<lparr>emValues := map (\<lambda>(column, v). column @ [v]) (zip (emValues r1) values)\<rparr>) cs)"

definition Emit :: "indicator \<Rightarrow> icandle list \<Rightarrow> indicator \<times> emission" where
  "Emit i cs = emit_loop 0 i \<lparr>emStart = length cs, emValues = []\<rparr> cs"

definition Compute :: "indicator \<Rightarrow> icandle list \<Rightarrow> indicator \<times> emission" where
  "Compute i cs = Emit (Reset i) cs"

section \<open>Counting\<close>

text \<open>How many updates an indicator has seen, read off the counters of its blocks.\<close>

lemma ring_push_full [simp]: "ring_aged n r \<Longrightarrow> ring_full (ring_push v r) \<longleftrightarrow> ring_size r \<le> Suc n"
  by (metis ring_aged_full ring_aged_push ring_size_simps(2))

lemma wilder_push_ready [simp]: "wilder_aged n w \<Longrightarrow> wlReady (wilder_push v w) \<longleftrightarrow> nat (wlPeriod w) \<le> Suc n"
  by (metis wilder_aged_push wilder_aged_ready wilder_period_simps(2))

lemma ema_push_ready [simp]: "ema_aged n e \<Longrightarrow> emReady (ema_push v e) \<longleftrightarrow> nat (emPeriod e) \<le> Suc n"
  by (metis ema_aged_push ema_aged_ready ema_period_simps(2))

lemma wma_push_ready [simp]: "wma_aged n e \<Longrightarrow> wmReady (wma_push v e) \<longleftrightarrow> nat (wmPeriod e) \<le> Suc n"
  by (metis wma_aged_push wma_aged_ready wma_period_simps(2))

lemma extreme_push_full [simp]: "extreme_aged n e \<Longrightarrow> extreme_full (extreme_push v e) \<longleftrightarrow> eSize e \<le> Suc n"
  by (metis extreme_aged_full extreme_aged_push extreme_size_simps(2))

lemma atr_push_ready [simp]: "atr_aged n a \<Longrightarrow> wlReady (atSmooth (atr_push c a)) \<longleftrightarrow> nat (atPeriod a) \<le> n"
  by (metis atr_aged_push atr_aged_ready atr_period_simps(2) less_Suc_eq_le)

text \<open>What a second stage has seen when the first stage, of period \<open>p\<close>, has seen \<open>n\<close>.\<close>

definition delay :: "nat \<Rightarrow> int \<Rightarrow> nat" where
  "delay n p = n - nat (p - 1)"

lemma delay_0 [simp]: "delay 0 p = 0"
  by (simp add: delay_def)

lemma delay_Suc [simp]: "0 < p \<Longrightarrow> delay (Suc n) p = (if nat p \<le> Suc n then Suc (delay n p) else delay n p)"
  by (auto simp: delay_def)

definition rsi_aged :: "nat \<Rightarrow> RSI \<Rightarrow> bool" where
  "rsi_aged n s \<longleftrightarrow> 0 < rsiPeriod s \<and> rsiSeen s = (0 < n) \<and> wlPeriod (rsiGains s) = rsiPeriod s
     \<and> wilder_aged (n - 1) (rsiGains s)"

fun aged :: "nat \<Rightarrow> indicator \<Rightarrow> bool" where
  "aged n (ISMA s) \<longleftrightarrow> 0 < smaPeriod s \<and>
     ring_size (smaWindow s) = nat (smaPeriod s) \<and> ring_aged n (smaWindow s)"
| "aged n (IEMA s) \<longleftrightarrow> ema_aged n (emaInner s)"
| "aged n (IWMA s) \<longleftrightarrow> wma_aged n (wmaInner s)"
| "aged n (IDEMA s) \<longleftrightarrow> 0 < demaPeriod s \<and>
     emPeriod (demaFirst s) = demaPeriod s \<and> emPeriod (demaSecond s) = demaPeriod s \<and>
     ema_aged n (demaFirst s) \<and> ema_aged (delay n (demaPeriod s)) (demaSecond s)"
| "aged n (ITEMA s) \<longleftrightarrow> 0 < temaPeriod s \<and>
     emPeriod (temaFirst s) = temaPeriod s \<and> emPeriod (temaSecond s) = temaPeriod s \<and>
     emPeriod (temaThird s) = temaPeriod s \<and> ema_aged n (temaFirst s) \<and>
     ema_aged (delay n (temaPeriod s)) (temaSecond s) \<and>
     ema_aged (delay (delay n (temaPeriod s)) (temaPeriod s)) (temaThird s)"
| "aged n (IHMA s) \<longleftrightarrow> 0 < hmaPeriod s \<and> 0 < hmaRoot s \<and>
     wmPeriod (hmaFull s) = hmaPeriod s \<and> wmPeriod (hmaHull s) = hmaRoot s \<and>
     wma_aged n (hmaFull s) \<and> wma_aged (delay n (hmaPeriod s)) (hmaHull s)"
| "aged n (IVWMA s) \<longleftrightarrow> 0 < vwmaPeriod s \<and>
     ring_size (vwmaPrice s) = nat (vwmaPeriod s) \<and> ring_aged n (vwmaPrice s)"
| "aged n (IVWAP s) \<longleftrightarrow> 0 < vwapPeriod s \<and>
     ring_size (vwapTypical s) = nat (vwapPeriod s) \<and> ring_aged n (vwapTypical s)"
| "aged n (IKeltner s) \<longleftrightarrow> 0 < kelPeriod s \<and>
     emPeriod (kelBasis s) = kelPeriod s \<and> ema_aged n (kelBasis s) \<and>
     0 < atPeriod (kelSpan s) \<and> atr_aged n (kelSpan s) \<and> length (kelValues s) = 3"
| "aged n (IDonchian s) \<longleftrightarrow> 0 < donPeriod s \<and>
     eSize (donHigh s) = nat (donPeriod s) \<and> extreme_aged n (donHigh s) \<and>
     length (donValues s) = 3"
| "aged n (IIchimoku s) \<longleftrightarrow> 0 < ichTenkan s \<and> 0 < ichKijun s \<and>
     0 < ichSenkou s \<and> eSize (ichTenkanHigh s) = nat (ichTenkan s) \<and>
     eSize (ichKijunHigh s) = nat (ichKijun s) \<and>
     eSize (ichSenkouHigh s) = nat (ichSenkou s) \<and> extreme_aged n (ichTenkanHigh s) \<and>
     extreme_aged n (ichKijunHigh s) \<and> extreme_aged n (ichSenkouHigh s) \<and>
     length (ichValues s) = 5"
| "aged n (ISuperTrend s) \<longleftrightarrow> 0 < atPeriod (stSpan s) \<and>
     atr_aged n (stSpan s) \<and> length (stValues s) = 2"
| "aged n (IParabolicSAR s) \<longleftrightarrow> psBars s = int n \<and> length (psValues s) = 2"
| "aged n (IRSI s) \<longleftrightarrow> rsi_aged n s"
| "aged n (IStochastic s) \<longleftrightarrow> 0 < stoK s \<and> 0 < stoSmooth s \<and> 0 < stoD s \<and>
     eSize (stoHigh s) = nat (stoK s) \<and> ring_size (stoFast s) = nat (stoSmooth s) \<and>
     ring_size (stoSlow s) = nat (stoD s) \<and> extreme_aged n (stoHigh s) \<and>
     ring_aged (delay n (stoK s)) (stoFast s) \<and>
     ring_aged (delay (delay n (stoK s)) (stoSmooth s)) (stoSlow s) \<and> length (stoValues s) = 2"
| "aged n (IStochRSI s) \<longleftrightarrow> 0 < rsiPeriod (srRsi s) \<and> 0 < srStoch s \<and>
     0 < srK s \<and> 0 < srD s \<and> rsi_aged n (srRsi s) \<and>
     eSize (srHigh s) = nat (srStoch s) \<and> ring_size (srFast s) = nat (srK s) \<and>
     ring_size (srSlow s) = nat (srD s) \<and>
     extreme_aged (delay n (rsiPeriod (srRsi s) + 1)) (srHigh s) \<and>
     ring_aged (delay (delay n (rsiPeriod (srRsi s) + 1)) (srStoch s)) (srFast s) \<and>
     ring_aged (delay (delay (delay n (rsiPeriod (srRsi s) + 1)) (srStoch s)) (srK s)) (srSlow s) \<and>
     length (srValues s) = 2"
| "aged n (IMACD s) \<longleftrightarrow> 0 < emPeriod (macdSlow s) \<and>
     0 < emPeriod (macdSignal s) \<and> ema_aged n (macdSlow s) \<and>
     ema_aged (delay n (emPeriod (macdSlow s))) (macdSignal s) \<and> length (macdValues s) = 3"
| "aged n (IMomentum s) \<longleftrightarrow> 0 < momPeriod s \<and>
     ring_size (momWindow s) = nat (momPeriod s + 1) \<and> ring_aged n (momWindow s)"
| "aged n (IROC s) \<longleftrightarrow> 0 < rocPeriod s \<and>
     ring_size (rocWindow s) = nat (rocPeriod s + 1) \<and> ring_aged n (rocWindow s)"
| "aged n (IWilliamsR s) \<longleftrightarrow> 0 < wrPeriod s \<and>
     eSize (wrHigh s) = nat (wrPeriod s) \<and> extreme_aged n (wrHigh s)"
| "aged n (ICCI s) \<longleftrightarrow> 0 < cciPeriod s \<and>
     ring_size (cciWindow s) = nat (cciPeriod s) \<and> ring_aged n (cciWindow s)"
| "aged n (IAroon s) \<longleftrightarrow> 0 < aroPeriod s \<and>
     eSize (aroHigh s) = nat (aroPeriod s + 1) \<and> extreme_aged n (aroHigh s) \<and>
     length (aroValues s) = 3"
| "aged n (IADX s) \<longleftrightarrow> 0 < adxPeriod s \<and> adxSeen s = (0 < n) \<and>
     wlPeriod (adxSpan s) = adxPeriod s \<and> wlPeriod (adxIndex s) = adxPeriod s \<and>
     wilder_aged (n - 1) (adxSpan s) \<and>
     wilder_aged (delay (n - 1) (adxPeriod s)) (adxIndex s) \<and> length (adxValues s) = 3"
| "aged n (IMFI s) \<longleftrightarrow> 0 < mfiPeriod s \<and> mfiSeen s = (0 < n) \<and>
     ring_size (mfiPositive s) = nat (mfiPeriod s) \<and> ring_aged (n - 1) (mfiPositive s)"
| "aged n (IOBV s) \<longleftrightarrow> obvSeen s = (0 < n) \<and> obvReady s = (1 < n)"
| "aged n (IADLine s) \<longleftrightarrow> adReady s = (0 < n)"
| "aged n (IChaikinOscillator s) \<longleftrightarrow> 0 < emPeriod (coSlow s) \<and> ema_aged n (coSlow s)"
| "aged n (IVolumeMA s) \<longleftrightarrow> 0 < vmaPeriod s \<and>
     ring_size (vmaWindow s) = nat (vmaPeriod s) \<and> ring_aged n (vmaWindow s)"
| "aged n (IBollingerBands s) \<longleftrightarrow> 0 < bbPeriod s \<and>
     ring_size (wRing (bbWindow s)) = nat (bbPeriod s) \<and> ring_aged n (wRing (bbWindow s)) \<and>
     length (bbValues s) = 3"
| "aged n (IStdDev s) \<longleftrightarrow> 0 < sdPeriod s \<and>
     ring_size (wRing (sdWindow s)) = nat (sdPeriod s) \<and> ring_aged n (wRing (sdWindow s))"
| "aged n (IHistVol s) \<longleftrightarrow> 0 < hvPeriod s \<and> hvSeen s = (0 < n) \<and>
     ring_size (wRing (hvWindow s)) = nat (hvPeriod s) \<and> ring_aged (n - 1) (wRing (hvWindow s))"
| "aged n (IATR s) \<longleftrightarrow> 0 < atPeriod (atrInner s) \<and> atr_aged n (atrInner s)"
| "aged n (IChaikinVol s) \<longleftrightarrow> 0 < cvPeriod s \<and> 0 < cvChange s \<and>
     emPeriod (cvSpread s) = cvPeriod s \<and> ring_size (cvWindow s) = nat (cvChange s + 1) \<and>
     ema_aged n (cvSpread s) \<and> ring_aged (delay n (cvPeriod s)) (cvWindow s)"
| "aged n (IZigZag s) \<longleftrightarrow> zzStarted s = (0 < n) \<and> length (zzValues s) = 2"
| "aged n (IFractals s) \<longleftrightarrow> 0 < frPeriod s \<and> frSpan s = 2 * frPeriod s + 1 \<and>
     ring_size (frHighs s) = nat (frSpan s) \<and> ring_aged n (frHighs s) \<and>
     frReady s = (nat (frSpan s) \<le> n) \<and> length (frValues s) = 2"
| "aged n (IPivotPoints s) \<longleftrightarrow> 0 < ppPeriod s \<and>
     eSize (ppHigh s) = nat (ppPeriod s) \<and> extreme_aged n (ppHigh s) \<and>
     ppReady s = (nat (ppPeriod s) < n) \<and> length (ppValues s) = 7"

lemmas ind_update_defs =
  SMA_Update_def
  EMA_Update_def
  WMA_Update_def
  DEMA_Update_def
  TEMA_Update_def
  HMA_Update_def
  VWMA_Update_def
  VWAP_Update_def
  Keltner_Update_def
  Donchian_Update_def
  Ichimoku_Update_def
  SuperTrend_Update_def
  ParabolicSAR_Update_def
  RSI_Update_def
  Stochastic_Update_def
  StochRSI_Update_def
  MACD_Update_def
  Momentum_Update_def
  ROC_Update_def
  WilliamsR_Update_def
  CCI_Update_def
  Aroon_Update_def
  ADX_Update_def
  MFI_Update_def
  OBV_Update_def
  ADLine_Update_def
  ChaikinOscillator_Update_def
  VolumeMA_Update_def
  BollingerBands_Update_def
  StdDev_Update_def
  HistVol_Update_def
  ATR_Update_def
  ChaikinVol_Update_def
  ZigZag_Update_def
  Fractals_Update_def
  PivotPoints_Update_def

lemmas ind_reset_defs =
  SMA_Reset_def
  EMA_Reset_def
  WMA_Reset_def
  DEMA_Reset_def
  TEMA_Reset_def
  HMA_Reset_def
  VWMA_Reset_def
  VWAP_Reset_def
  Keltner_Reset_def
  Donchian_Reset_def
  Ichimoku_Reset_def
  SuperTrend_Reset_def
  ParabolicSAR_Reset_def
  RSI_Reset_def
  Stochastic_Reset_def
  StochRSI_Reset_def
  MACD_Reset_def
  Momentum_Reset_def
  ROC_Reset_def
  WilliamsR_Reset_def
  CCI_Reset_def
  Aroon_Reset_def
  ADX_Reset_def
  MFI_Reset_def
  OBV_Reset_def
  ADLine_Reset_def
  ChaikinOscillator_Reset_def
  VolumeMA_Reset_def
  BollingerBands_Reset_def
  StdDev_Reset_def
  HistVol_Reset_def
  ATR_Reset_def
  ChaikinVol_Reset_def
  ZigZag_Reset_def
  Fractals_Reset_def
  PivotPoints_Reset_def

lemmas ind_warmup_defs =
  SMA_Warmup_def
  EMA_Warmup_def
  WMA_Warmup_def
  DEMA_Warmup_def
  TEMA_Warmup_def
  HMA_Warmup_def
  VWMA_Warmup_def
  VWAP_Warmup_def
  Keltner_Warmup_def
  Donchian_Warmup_def
  Ichimoku_Warmup_def
  SuperTrend_Warmup_def
  RSI_Warmup_def
  Stochastic_Warmup_def
  StochRSI_Warmup_def
  MACD_Warmup_def
  Momentum_Warmup_def
  ROC_Warmup_def
  WilliamsR_Warmup_def
  CCI_Warmup_def
  Aroon_Warmup_def
  ADX_Warmup_def
  MFI_Warmup_def
  ChaikinOscillator_Warmup_def
  VolumeMA_Warmup_def
  BollingerBands_Warmup_def
  StdDev_Warmup_def
  HistVol_Warmup_def
  ATR_Warmup_def
  ChaikinVol_Warmup_def
  Fractals_Warmup_def
  PivotPoints_Warmup_def

lemmas ind_ready_defs =
  SMA_Ready_def
  EMA_Ready_def
  WMA_Ready_def
  DEMA_Ready_def
  TEMA_Ready_def
  HMA_Ready_def
  VWMA_Ready_def
  VWAP_Ready_def
  Keltner_Ready_def
  Donchian_Ready_def
  Ichimoku_Ready_def
  SuperTrend_Ready_def
  ParabolicSAR_Ready_def
  RSI_Ready_def
  Stochastic_Ready_def
  StochRSI_Ready_def
  MACD_Ready_def
  Momentum_Ready_def
  ROC_Ready_def
  WilliamsR_Ready_def
  CCI_Ready_def
  Aroon_Ready_def
  ADX_Ready_def
  MFI_Ready_def
  ChaikinOscillator_Ready_def
  VolumeMA_Ready_def
  BollingerBands_Ready_def
  StdDev_Ready_def
  HistVol_Ready_def
  ATR_Ready_def
  ChaikinVol_Ready_def

lemma rsi_aged_update: "rsi_aged n s \<Longrightarrow> rsi_aged (Suc n) (RSI_Update c s)"
  by (cases n) (simp_all add: rsi_aged_def RSI_Update_def Let_def wilder_aged_push)

lemma rsi_aged_ready: "rsi_aged n s \<Longrightarrow> RSI_Ready s \<longleftrightarrow> nat (rsiPeriod s) < n"
  by (auto simp: rsi_aged_def RSI_Ready_def wilder_aged_ready)

lemma rsi_update_ready [simp]:
  "rsi_aged n s \<Longrightarrow> RSI_Ready (RSI_Update c s) \<longleftrightarrow> nat (rsiPeriod s + 1) \<le> Suc n"
  using rsi_aged_ready [OF rsi_aged_update, of n s c] by (auto simp: rsi_aged_def RSI_Update_def Let_def)

lemma psar_emit_values [simp]: "length (psValues (psar_emit p)) = 2" "psBars (psar_emit p) = psBars p"
  by (simp_all add: psar_emit_def)

lemma pivot_compute_length [simp]: "length (pivot_compute f h l x) = 7"
  by (simp add: pivot_compute_def Let_def)

lemma Fractals_Update_fields [simp]:
  "frPeriod (Fractals_Update c f) = frPeriod f" "frSpan (Fractals_Update c f) = frSpan f"
  "frHighs (Fractals_Update c f) = ring_push (iHigh c) (frHighs f)"
  "frReady (Fractals_Update c f) \<longleftrightarrow> frReady f \<or> ring_full (ring_push (iHigh c) (frHighs f))"
  "length (frValues f) = 2 \<Longrightarrow> length (frValues (Fractals_Update c f)) = 2"
  by (simp_all add: Fractals_Update_def Let_def split: option.splits)

lemma rsi_period_update [simp]: "rsiPeriod (RSI_Update c s) = rsiPeriod s"
  by (simp add: RSI_Update_def Let_def)

lemma aged_SMA: "aged n (ISMA s) \<Longrightarrow> aged (Suc n) (ISMA (SMA_Update c s))"
  by (auto simp: SMA_Update_def Let_def aged_simps)

lemma aged_EMA: "aged n (IEMA s) \<Longrightarrow> aged (Suc n) (IEMA (EMA_Update c s))"
  by (auto simp: EMA_Update_def Let_def aged_simps)

lemma aged_WMA: "aged n (IWMA s) \<Longrightarrow> aged (Suc n) (IWMA (WMA_Update c s))"
  by (auto simp: WMA_Update_def Let_def aged_simps)

lemma aged_DEMA: "aged n (IDEMA s) \<Longrightarrow> aged (Suc n) (IDEMA (DEMA_Update c s))"
  by (auto simp: DEMA_Update_def Let_def aged_simps)

lemma aged_TEMA: "aged n (ITEMA s) \<Longrightarrow> aged (Suc n) (ITEMA (TEMA_Update c s))"
  by (auto simp: TEMA_Update_def Let_def aged_simps)

lemma aged_HMA: "aged n (IHMA s) \<Longrightarrow> aged (Suc n) (IHMA (HMA_Update c s))"
  by (auto simp: HMA_Update_def Let_def aged_simps)

lemma aged_VWMA: "aged n (IVWMA s) \<Longrightarrow> aged (Suc n) (IVWMA (VWMA_Update c s))"
  by (auto simp: VWMA_Update_def Let_def aged_simps)

lemma aged_VWAP: "aged n (IVWAP s) \<Longrightarrow> aged (Suc n) (IVWAP (VWAP_Update c s))"
  by (auto simp: VWAP_Update_def Let_def aged_simps)

lemma aged_Keltner: "aged n (IKeltner s) \<Longrightarrow> aged (Suc n) (IKeltner (Keltner_Update c s))"
  by (auto simp: Keltner_Update_def Let_def aged_simps)

lemma aged_Donchian: "aged n (IDonchian s) \<Longrightarrow> aged (Suc n) (IDonchian (Donchian_Update c s))"
  by (auto simp: Donchian_Update_def Let_def aged_simps)

lemma aged_Ichimoku: "aged n (IIchimoku s) \<Longrightarrow> aged (Suc n) (IIchimoku (Ichimoku_Update c s))"
  by (auto simp: Ichimoku_Update_def Let_def aged_simps)

lemma aged_SuperTrend: "aged n (ISuperTrend s) \<Longrightarrow> aged (Suc n) (ISuperTrend (SuperTrend_Update c s))"
  by (auto simp: SuperTrend_Update_def Let_def aged_simps)

lemma aged_ParabolicSAR: "aged n (IParabolicSAR s) \<Longrightarrow> aged (Suc n) (IParabolicSAR (ParabolicSAR_Update c s))"
  by (auto simp: ParabolicSAR_Update_def Let_def aged_simps)

lemma aged_RSI: "aged n (IRSI s) \<Longrightarrow> aged (Suc n) (IRSI (RSI_Update c s))"
  by (simp add: rsi_aged_update)

lemma aged_Stochastic: "aged n (IStochastic s) \<Longrightarrow> aged (Suc n) (IStochastic (Stochastic_Update c s))"
  by (auto simp: Stochastic_Update_def Let_def aged_simps)

lemma aged_StochRSI: "aged n (IStochRSI s) \<Longrightarrow> aged (Suc n) (IStochRSI (StochRSI_Update c s))"
  by (simp only: aged.simps, elim conjE, cases "nat (rsiPeriod (srRsi s) + 1) \<le> Suc n";
      cases "nat (srStoch s) \<le> Suc (delay n (rsiPeriod (srRsi s) + 1))";
      cases "nat (srK s) \<le> Suc (delay (delay n (rsiPeriod (srRsi s) + 1)) (srStoch s))")
    (simp_all add: StochRSI_Update_def Let_def aged_simps rsi_aged_update)

lemma aged_MACD: "aged n (IMACD s) \<Longrightarrow> aged (Suc n) (IMACD (MACD_Update c s))"
  by (auto simp: MACD_Update_def Let_def aged_simps)

lemma aged_Momentum: "aged n (IMomentum s) \<Longrightarrow> aged (Suc n) (IMomentum (Momentum_Update c s))"
  by (auto simp: Momentum_Update_def Let_def aged_simps)

lemma aged_ROC: "aged n (IROC s) \<Longrightarrow> aged (Suc n) (IROC (ROC_Update c s))"
  by (auto simp: ROC_Update_def Let_def aged_simps)

lemma aged_WilliamsR: "aged n (IWilliamsR s) \<Longrightarrow> aged (Suc n) (IWilliamsR (WilliamsR_Update c s))"
  by (auto simp: WilliamsR_Update_def Let_def aged_simps)

lemma aged_CCI: "aged n (ICCI s) \<Longrightarrow> aged (Suc n) (ICCI (CCI_Update c s))"
  by (auto simp: CCI_Update_def Let_def aged_simps)

lemma aged_Aroon: "aged n (IAroon s) \<Longrightarrow> aged (Suc n) (IAroon (Aroon_Update c s))"
  by (auto simp: Aroon_Update_def Let_def aged_simps)

lemma aged_ADX: "aged n (IADX s) \<Longrightarrow> aged (Suc n) (IADX (ADX_Update c s))"
  by (cases n) (auto simp: ADX_Update_def Let_def aged_simps)

lemma aged_MFI: "aged n (IMFI s) \<Longrightarrow> aged (Suc n) (IMFI (MFI_Update c s))"
  by (cases n) (auto simp: MFI_Update_def Let_def aged_simps)

lemma aged_OBV: "aged n (IOBV s) \<Longrightarrow> aged (Suc n) (IOBV (OBV_Update c s))"
  by (auto simp: OBV_Update_def Let_def aged_simps)

lemma aged_ADLine: "aged n (IADLine s) \<Longrightarrow> aged (Suc n) (IADLine (ADLine_Update c s))"
  by (auto simp: ADLine_Update_def Let_def aged_simps)

lemma aged_ChaikinOscillator: "aged n (IChaikinOscillator s) \<Longrightarrow> aged (Suc n) (IChaikinOscillator (ChaikinOscillator_Update c s))"
  by (auto simp: ChaikinOscillator_Update_def Let_def aged_simps)

lemma aged_VolumeMA: "aged n (IVolumeMA s) \<Longrightarrow> aged (Suc n) (IVolumeMA (VolumeMA_Update c s))"
  by (auto simp: VolumeMA_Update_def Let_def aged_simps)

lemma aged_BollingerBands: "aged n (IBollingerBands s) \<Longrightarrow> aged (Suc n) (IBollingerBands (BollingerBands_Update c s))"
  by (auto simp: BollingerBands_Update_def Let_def aged_simps)

lemma aged_StdDev: "aged n (IStdDev s) \<Longrightarrow> aged (Suc n) (IStdDev (StdDev_Update c s))"
  by (auto simp: StdDev_Update_def Let_def aged_simps)

lemma aged_HistVol: "aged n (IHistVol s) \<Longrightarrow> aged (Suc n) (IHistVol (HistVol_Update c s))"
  by (cases n) (auto simp: HistVol_Update_def Let_def aged_simps)

lemma aged_ATR: "aged n (IATR s) \<Longrightarrow> aged (Suc n) (IATR (ATR_Update c s))"
  by (auto simp: ATR_Update_def Let_def aged_simps)

lemma aged_ChaikinVol: "aged n (IChaikinVol s) \<Longrightarrow> aged (Suc n) (IChaikinVol (ChaikinVol_Update c s))"
  by (auto simp: ChaikinVol_Update_def Let_def aged_simps)

lemma aged_ZigZag: "aged n (IZigZag s) \<Longrightarrow> aged (Suc n) (IZigZag (ZigZag_Update c s))"
  by (auto simp: ZigZag_Update_def Let_def aged_simps)

lemma aged_Fractals: "aged n (IFractals s) \<Longrightarrow> aged (Suc n) (IFractals (Fractals_Update c s))"
  by (auto simp: aged_simps)

lemma aged_PivotPoints: "aged n (IPivotPoints s) \<Longrightarrow> aged (Suc n) (IPivotPoints (PivotPoints_Update c s))"
  by (auto simp: PivotPoints_Update_def Let_def aged_simps)

end
