(* ===== verification/Stdlib.thy ===== *)
theory Stdlib
  imports Candles
begin

text \<open>
  What the program uses of Go's standard library beside floating point: \<open>strings.TrimSpace\<close>,
  \<open>strings.ToUpper\<close> and \<open>ToLower\<close> on ASCII text, \<open>sort.Search\<close>, and civil dates. An instant is a
  number of nanoseconds (theory Candles); the offset a location has from UTC at an instant is the
  function \<open>zone\<close> of the definitions that read a civil date off an instant.
\<close>

section \<open>Text\<close>

definition lower_char :: "char \<Rightarrow> char" where
  "lower_char c = (let n = of_char c :: nat in if 65 \<le> n \<and> n \<le> 90 then char_of (n + 32) else c)"

definition upper_char :: "char \<Rightarrow> char" where
  "upper_char c = (let n = of_char c :: nat in if 97 \<le> n \<and> n \<le> 122 then char_of (n - 32) else c)"

definition to_upper :: "string \<Rightarrow> string" where
  "to_upper = map upper_char"

definition is_space :: "char \<Rightarrow> bool" where
  "is_space c = (let n = of_char c :: nat in n = 32 \<or> (9 \<le> n \<and> n \<le> 13))"

definition trim_space :: "string \<Rightarrow> string" where
  "trim_space s = rev (dropWhile is_space (rev (dropWhile is_space s)))"

section \<open>Binary search\<close>

text \<open>\<open>sort.Search\<close>: the loop on \<open>[i, j)\<close>.\<close>

function search_loop :: "(nat \<Rightarrow> bool) \<Rightarrow> nat \<Rightarrow> nat \<Rightarrow> nat" where
  "search_loop f i j =
     (if i < j then (let h = (i + j) div 2 in if \<not> f h then search_loop f (h + 1) j else search_loop f i h) else i)"
  by pat_completeness auto

termination by (relation "measure (\<lambda>(f, i, j). j - i)") auto

declare search_loop.simps [simp del]

definition sort_Search :: "nat \<Rightarrow> (nat \<Rightarrow> bool) \<Rightarrow> nat" where
  "sort_Search n f = search_loop f 0 n"

lemma search_loop_correct:
  assumes "\<And>a b. a \<le> b \<Longrightarrow> b < n \<Longrightarrow> f a \<Longrightarrow> f b" and "i \<le> j" and "j \<le> n"
    and "\<And>k. k < i \<Longrightarrow> \<not> f k" and "\<And>k. j \<le> k \<Longrightarrow> k < n \<Longrightarrow> f k"
  shows "search_loop f i j \<le> n \<and> (\<forall>k. k < search_loop f i j \<longrightarrow> \<not> f k) \<and> (\<forall>k. search_loop f i j \<le> k \<and> k < n \<longrightarrow> f k)"
  using assms
proof (induction f i j rule: search_loop.induct)
  case (1 f i j)
  show ?case
  proof (cases "i < j")
    case True
    let ?h = "(i + j) div 2"
    have h: "i \<le> ?h" "?h < j" using True by auto
    show ?thesis
    proof (cases "f ?h")
      case False
      have less: "\<not> f k" if "k < ?h + 1" for k
      proof -
        have "k \<le> ?h" "?h < n" using that h 1(5) by linarith+
        then show ?thesis using 1(3) [of k ?h] False by blast
      qed
      have "search_loop f i j = search_loop f (?h + 1) j"
        using True False by (simp add: search_loop.simps [of f i j] Let_def)
      moreover note 1(1) [OF True refl False 1(3) _ 1(5) less 1(7)]
      ultimately show ?thesis using h by simp
    next
      case f: True
      have more: "f k" if "?h \<le> k" "k < n" for k
        using 1(3) [of ?h k] f that by blast
      have "search_loop f i j = search_loop f i ?h"
        using True f by (simp add: search_loop.simps [of f i j] Let_def)
      moreover have "search_loop f i ?h \<le> n \<and> (\<forall>k. k < search_loop f i ?h \<longrightarrow> \<not> f k) \<and> (\<forall>k. search_loop f i ?h \<le> k \<and> k < n \<longrightarrow> f k)"
      proof (rule 1(2) [OF True refl _ 1(3)])
        show "\<not> \<not> f ?h" using f by simp
        show "i \<le> ?h" by (rule h(1))
        show "?h \<le> n" using h 1(5) by linarith
      qed (use 1(6) more in auto)
      ultimately show ?thesis by simp
    qed
  next
    case False
    then have "i = j" using 1(4) by simp
    then show ?thesis using 1(5,6,7) \<open>i = j\<close> by (simp add: search_loop.simps [of f j j])
  qed
qed

text \<open>For a predicate that stays true once it is true, \<open>sort.Search\<close> finds the first index it holds at.\<close>

lemma sort_Search_first:
  assumes "\<And>a b. a \<le> b \<Longrightarrow> b < n \<Longrightarrow> f a \<Longrightarrow> f b"
  shows "sort_Search n f \<le> n" and "k < sort_Search n f \<Longrightarrow> \<not> f k"
    and "sort_Search n f \<le> k \<Longrightarrow> k < n \<Longrightarrow> f k"
  using search_loop_correct [of n f 0 n] assms by (auto simp: sort_Search_def)

section \<open>Civil dates\<close>

text \<open>Days are numbered from 1 January 1970; \<open>year_start\<close> counts them from 1 January of year 0.\<close>

definition leap :: "int \<Rightarrow> bool" where
  "leap y \<longleftrightarrow> 4 dvd y \<and> (\<not> 100 dvd y \<or> 400 dvd y)"

definition year_start :: "int \<Rightarrow> int" where
  "year_start y = 365 * y + (y + 3) div 4 - (y + 99) div 100 + (y + 399) div 400"

definition epoch_days :: int where "epoch_days = 719528"

definition month_start :: "bool \<Rightarrow> int \<Rightarrow> int" where
  "month_start lp m =
     [0, 31, 59, 90, 120, 151, 181, 212, 243, 273, 304, 334] ! nat (m - 1) + (if lp \<and> 2 < m then 1 else 0)"

definition month_days :: "int \<Rightarrow> int \<Rightarrow> int" where
  "month_days y m = [31, if leap y then 29 else 28, 31, 30, 31, 30, 31, 31, 30, 31, 30, 31] ! nat (m - 1)"

definition days_from_civil :: "int \<Rightarrow> int \<Rightarrow> int \<Rightarrow> int" where
  "days_from_civil y m d = year_start y - epoch_days + month_start (leap y) m + d - 1"

definition year_of :: "int \<Rightarrow> int" where
  "year_of n =
     (let e = n + epoch_days; y = 400 * e div 146097
      in if e < year_start y then y - 1 else if year_start (y + 1) \<le> e then y + 1 else y)"

definition month_of :: "bool \<Rightarrow> int \<Rightarrow> int" where
  "month_of lp yd = int (length (filter (\<lambda>m. month_start lp m \<le> yd) [1, 2, 3, 4, 5, 6, 7, 8, 9, 10, 11, 12]))"

definition civil_from_days :: "int \<Rightarrow> int \<times> int \<times> int" where
  "civil_from_days n =
     (let y = year_of n; yd = n + epoch_days - year_start y; m = month_of (leap y) yd
      in (y, m, yd - month_start (leap y) m + 1))"

definition civil_ok :: "int \<Rightarrow> int \<Rightarrow> int \<Rightarrow> bool" where
  "civil_ok y m d \<longleftrightarrow> 1 \<le> m \<and> m \<le> 12 \<and> 1 \<le> d \<and> d \<le> month_days y m"

lemma round_up_bounds:
  fixes c y :: int
  assumes "0 < c"
  shows "y \<le> c * ((y + (c - 1)) div c)" and "c * ((y + (c - 1)) div c) \<le> y + (c - 1)"
  using pos_mod_bound [OF assms, of "y + (c - 1)"] pos_mod_sign [OF assms, of "y + (c - 1)"]
    mult_div_mod_eq [of c "y + (c - 1)"] by linarith+

lemma round_up_step:
  fixes c y :: int
  assumes "0 < c" and "c1 = c - 1"
  shows "(y + 1 + c1) div c = (y + c1) div c + (if c dvd y then 1 else 0)"
proof -
  obtain k r where y: "y = c * k + r" "0 \<le> r" "r < c"
    using pos_mod_bound [OF assms(1), of y] pos_mod_sign [OF assms(1), of y] mult_div_mod_eq [of c y] by metis
  have next_y: "(y + 1 + (c - 1)) div c = k + 1"
    by (rule int_div_pos_eq [where r = r]) (use y in \<open>simp_all add: algebra_simps\<close>)
  show ?thesis
  proof (cases "r = 0")
    case True
    then have "(y + (c - 1)) div c = k"
      by (intro int_div_pos_eq [where r = "c - 1"]) (use y assms in \<open>simp_all add: algebra_simps\<close>)
    then show ?thesis using next_y True y assms(2) by simp
  next
    case False
    then have "(y + (c - 1)) div c = k + 1"
      by (intro int_div_pos_eq [where r = "r - 1"]) (use y in \<open>simp_all add: algebra_simps\<close>)
    moreover have "\<not> c dvd y" using y False zdvd_not_zless [of r c] by (simp add: dvd_add_right_iff)
    ultimately show ?thesis using next_y assms(2) by simp
  qed
qed

lemma year_start_step: "year_start (y + 1) = year_start y + (if leap y then 366 else 365)"
proof -
  define p4 p100 p400 q4 q100 q400 where "p4 = (y + 3) div 4" "p100 = (y + 99) div 100" "p400 = (y + 399) div 400"
    "q4 = (y + 1 + 3) div 4" "q100 = (y + 1 + 99) div 100" "q400 = (y + 1 + 399) div 400"
  note d = this
  have "q4 = p4 + (if 4 dvd y then 1 else 0)" "q100 = p100 + (if 100 dvd y then 1 else 0)"
    "q400 = p400 + (if 400 dvd y then 1 else 0)"
    unfolding d by (rule round_up_step; simp)+
  moreover have "year_start y = 365 * y + p4 - p100 + p400" "year_start (y + 1) = 365 * (y + 1) + q4 - q100 + q400"
    by (simp_all only: year_start_def d)
  moreover have "400 dvd y \<Longrightarrow> 100 dvd y" "100 dvd y \<Longrightarrow> 4 dvd y"
    using dvd_trans [of 100 400 y] dvd_trans [of 4 100 y] by simp_all
  ultimately show ?thesis unfolding leap_def by (cases "4 dvd y"; cases "100 dvd y"; cases "400 dvd y") simp_all
qed

lemma year_start_bounds: "146097 * y - 396 \<le> 400 * year_start y" "400 * year_start y \<le> 146097 * y + 699"
  using round_up_bounds [of 4 y] round_up_bounds [of 100 y] round_up_bounds [of 400 y]
  by (simp_all add: year_start_def)

lemma year_of_bounds: "year_start (year_of n) \<le> n + epoch_days \<and> n + epoch_days < year_start (year_of n + 1)"
proof -
  define e where "e = n + epoch_days"
  define y where "y = 400 * e div 146097"
  have y: "146097 * y \<le> 400 * e" "400 * e < 146097 * y + 146097"
    using pos_mod_bound [of 146097 "400 * e"] pos_mod_sign [of 146097 "400 * e"] mult_div_mod_eq [of 146097 "400 * e"]
    unfolding y_def by linarith+
  have "400 * year_start (y - 1) \<le> 400 * e" using year_start_bounds(2) [of "y - 1"] y by (simp add: algebra_simps)
  moreover have "400 * e < 400 * year_start (y + 2)" using year_start_bounds(1) [of "y + 2"] y by (simp add: algebra_simps)
  ultimately show ?thesis
    unfolding year_of_def Let_def e_def [symmetric] y_def [symmetric] by (auto simp: algebra_simps)
qed

lemma year_start_mono: "a \<le> b \<Longrightarrow> year_start a \<le> year_start b"
proof (induction b rule: int_ge_induct)
  case (step i)
  then show ?case by (simp add: year_start_step split: if_splits)
qed simp

lemma year_of_unique: "year_start y \<le> n + epoch_days \<Longrightarrow> n + epoch_days < year_start (y + 1) \<Longrightarrow> year_of n = y"
  using year_of_bounds [of n] year_start_mono [of "y + 1" "year_of n"] year_start_mono [of "year_of n + 1" y]
  by linarith

lemma month_cases: "1 \<le> m \<Longrightarrow> m \<le> 12 \<Longrightarrow> m \<in> {1, 2, 3, 4, 5, 6, 7, 8, 9, 10, 11, 12 :: int}"
  by (simp, presburger)

lemma month_of_start:
  assumes "1 \<le> m" and "m \<le> 12" and "1 \<le> d" and "d \<le> month_days y m"
  shows "month_of (leap y) (month_start (leap y) m + d - 1) = m"
    and "0 \<le> month_start (leap y) m + d - 1"
    and "month_start (leap y) m + d - 1 < (if leap y then 366 else 365)"
  using month_cases [OF assms(1,2)] assms(3,4)
  by (elim insertE emptyE; cases "leap y"; simp add: month_start_def month_days_def month_of_def)+

lemma civil_from_days_from_civil:
  assumes "civil_ok y m d"
  shows "civil_from_days (days_from_civil y m d) = (y, m, d)"
proof -
  let ?yd = "month_start (leap y) m + d - 1"
  have yd: "month_of (leap y) ?yd = m" "0 \<le> ?yd" "?yd < (if leap y then 366 else 365)"
    using assms month_of_start [of m d y] by (simp_all add: civil_ok_def)
  have "year_of (days_from_civil y m d) = y"
    by (rule year_of_unique) (use yd in \<open>simp_all add: days_from_civil_def year_start_step\<close>)
  then show ?thesis using yd(1) by (simp add: civil_from_days_def days_from_civil_def Let_def add_diff_eq)
qed

lemma days_from_civil_from_days:
  "case civil_from_days n of (y, m, d) \<Rightarrow> days_from_civil y m d = n"
  by (simp add: civil_from_days_def days_from_civil_def Let_def)

lemma month_of_ok:
  assumes "0 \<le> yd" and "yd < (if leap y then 366 else 365)"
  shows "civil_ok y (month_of (leap y) yd) (yd - month_start (leap y) (month_of (leap y) yd) + 1)"
proof -
  have "\<exists>m d. 1 \<le> m \<and> m \<le> 12 \<and> 1 \<le> d \<and> d \<le> month_days y m \<and> yd = month_start (leap y) m + d - 1"
  proof -
    have "\<exists>m\<in>{1, 2, 3, 4, 5, 6, 7, 8, 9, 10, 11, 12}. month_start (leap y) m \<le> yd \<and> yd < month_start (leap y) m + month_days y m"
      using assms by (cases "leap y") (simp_all add: month_start_def month_days_def, linarith+)
    then obtain m where m: "m \<in> {1, 2, 3, 4, 5, 6, 7, 8, 9, 10, 11, 12 :: int}"
      "month_start (leap y) m \<le> yd" "yd < month_start (leap y) m + month_days y m" by blast
    then show ?thesis by (intro exI [of _ m] exI [of _ "yd - month_start (leap y) m + 1"]) auto
  qed
  then obtain m d where md: "1 \<le> m" "m \<le> 12" "1 \<le> d" "d \<le> month_days y m" "yd = month_start (leap y) m + d - 1"
    by blast
  then show ?thesis using month_of_start(1) [of m d y] by (simp add: civil_ok_def)
qed

lemma civil_from_days_ok: "case civil_from_days n of (y, m, d) \<Rightarrow> civil_ok y m d"
  using month_of_ok [of "n + epoch_days - year_start (year_of n)" "year_of n"] year_of_bounds [of n]
  by (simp add: civil_from_days_def Let_def year_start_step)

section \<open>Instants and their days\<close>

definition day_ns :: int where "day_ns = 86400 * 10 ^ 9"

text \<open>\<open>time.Date(t.Year(), t.Month(), t.Day(), 0, 0, 0, 0, time.UTC)\<close> for a time in a location with the
  offsets \<open>zone\<close>.\<close>

definition day_number :: "(time \<Rightarrow> int) \<Rightarrow> time \<Rightarrow> int" where
  "day_number zone t = (t + zone t) div day_ns"

definition utc_midnight :: "int \<Rightarrow> time" where
  "utc_midnight n = n * day_ns"

section \<open>Dates as text\<close>

definition digit_of :: "char \<Rightarrow> int option" where
  "digit_of c = (let n = int (of_char c) in if 48 \<le> n \<and> n \<le> 57 then Some (n - 48) else None)"

definition digit_char :: "int \<Rightarrow> char" where
  "digit_char d = char_of (nat (48 + d))"

fun number_of :: "string \<Rightarrow> int \<Rightarrow> int option" where
  "number_of [] acc = Some acc"
| "number_of (c # cs) acc = (case digit_of c of None \<Rightarrow> None | Some d \<Rightarrow> number_of cs (10 * acc + d))"

text \<open>\<open>time.Parse(time.DateOnly, s)\<close>, as a day number: four digits, two and two, and a day the month has.\<close>

definition parse_date :: "string \<Rightarrow> int option" where
  "parse_date s =
     (if length s \<noteq> 10 \<or> s ! 4 \<noteq> CHR ''-'' \<or> s ! 7 \<noteq> CHR ''-'' then None
      else
        (case (number_of (take 4 s) 0, number_of (take 2 (drop 5 s)) 0, number_of (drop 8 s) 0) of
           (Some y, Some m, Some d) \<Rightarrow> if civil_ok y m d then Some (days_from_civil y m d) else None
         | _ \<Rightarrow> None))"

text \<open>\<open>t.Format(time.DateOnly)\<close> of a day, for years 0 to 9999.\<close>

definition format_date :: "int \<Rightarrow> string" where
  "format_date n =
     (case civil_from_days n of
        (y, m, d) \<Rightarrow>
          [digit_char (y div 1000), digit_char (y div 100 mod 10), digit_char (y div 10 mod 10), digit_char (y mod 10),
           CHR ''-'', digit_char (m div 10), digit_char (m mod 10), CHR ''-'', digit_char (d div 10), digit_char (d mod 10)])"

lemma digit_of_char [simp]: "0 \<le> d \<Longrightarrow> d \<le> 9 \<Longrightarrow> digit_of (digit_char d) = Some d"
proof -
  assume d: "0 \<le> d" "d \<le> 9"
  then have "nat (48 + d) < 256" by simp
  then have "of_char (char_of (nat (48 + d)) :: char) = nat (48 + d)" by simp
  then show ?thesis using d by (simp add: digit_of_def digit_char_def Let_def)
qed

lemma digits_of_number:
  fixes y :: int
  shows "10 * (y div 10) + y mod 10 = y"
    and "10 * (10 * (10 * (y div 1000) + y div 100 mod 10) + y div 10 mod 10) + y mod 10 = y"
proof -
  have q: "y div 100 = y div 10 div 10" "y div 1000 = y div 10 div 10 div 10"
    using zdiv_zmult2_eq [of 10 y 10] zdiv_zmult2_eq [of 10 "y div 10" 10] zdiv_zmult2_eq [of 100 y 10] by simp_all
  show "10 * (y div 10) + y mod 10 = y" by (rule mult_div_mod_eq)
  show "10 * (10 * (10 * (y div 1000) + y div 100 mod 10) + y div 10 mod 10) + y mod 10 = y"
    unfolding q by (simp only: mult_div_mod_eq)
qed

definition is_digit :: "int \<Rightarrow> bool" where "is_digit d \<longleftrightarrow> 0 \<le> d \<and> d \<le> 9"

lemma is_digit_mod [simp]: "is_digit (k mod 10)"
  using pos_mod_bound [of 10 k] by (simp add: is_digit_def)

lemma digit_of_is_digit [simp]: "is_digit d \<Longrightarrow> digit_of (digit_char d) = Some d"
  by (simp add: is_digit_def)

lemma number_of_four:
  assumes "is_digit (y div 1000)"
  shows "number_of [digit_char (y div 1000), digit_char (y div 100 mod 10), digit_char (y div 10 mod 10), digit_char (y mod 10)] 0
    = Some (10 * (10 * (10 * (y div 1000) + y div 100 mod 10) + y div 10 mod 10) + y mod 10)"
proof -
  have "number_of [digit_char a, digit_char b, digit_char c, digit_char d] 0 = Some (10 * (10 * (10 * a + b) + c) + d)"
    if "is_digit a" "is_digit b" "is_digit c" "is_digit d" for a b c d
    using that by simp
  then show ?thesis using assms by (simp del: number_of.simps)
qed

lemma number_of_two: "is_digit a \<Longrightarrow> is_digit b \<Longrightarrow> number_of [digit_char a, digit_char b] 0 = Some (10 * a + b)"
  by simp

lemma month_days_le:
  assumes "1 \<le> m" and "m \<le> 12"
  shows "month_days y m \<le> 31"
  using month_cases [OF assms] by (elim insertE emptyE; simp add: month_days_def)

lemma parse_format_date:
  assumes "0 \<le> year_of n" and "year_of n \<le> 9999"
  shows "parse_date (format_date n) = Some n"
proof -
  obtain y m d where c: "civil_from_days n = (y, m, d)" by (cases "civil_from_days n") auto
  have ok: "civil_ok y m d" and n: "days_from_civil y m d = n"
    using civil_from_days_ok [of n] days_from_civil_from_days [of n] by (simp_all add: c)
  have y: "0 \<le> y" "y \<le> 9999" using assms c by (auto simp: civil_from_days_def Let_def)
  have m: "1 \<le> m" "m \<le> 12" and d: "1 \<le> d" "d \<le> 31"
    using ok month_days_le [of m y] by (simp_all add: civil_ok_def)
  have r: "is_digit (y div 1000)" "is_digit (m div 10)" "is_digit (d div 10)"
    using y m d by (simp_all add: is_digit_def pos_imp_zdiv_nonneg_iff)
  have "number_of [digit_char (y div 1000), digit_char (y div 100 mod 10), digit_char (y div 10 mod 10), digit_char (y mod 10)] 0 = Some y"
    unfolding number_of_four [OF r(1)] by (simp only: digits_of_number(2))
  moreover have "number_of [digit_char (m div 10), digit_char (m mod 10)] 0 = Some m"
    unfolding number_of_two [OF r(2) is_digit_mod] by (simp only: digits_of_number(1))
  moreover have "number_of [digit_char (d div 10), digit_char (d mod 10)] 0 = Some d"
    unfolding number_of_two [OF r(3) is_digit_mod] by (simp only: digits_of_number(1))
  ultimately show ?thesis using ok n by (simp add: parse_date_def format_date_def c del: number_of.simps)
qed

end
