(* ===== verification/Registry.thy ===== *)
theory Registry
  imports Indicators Stdlib
begin

text \<open>
  The catalogue of indicators (internal/indicator/registry.go and the \<open>init\<close> functions of the
  indicators' files) and the construction of an instance from a name and its parameters
  (internal/indicator/request.go). The parameter values of a request are a list of named values, in
  the order one iteration of the Go map visits them; an instance's key is the structured value whose
  rendering the code joins with colons. \<open>math.Log\<close>, which only the historical volatility uses, is the
  argument \<open>math_Log\<close>.
\<close>

datatype param_kind = ParamInt | ParamFloat

datatype group = GroupOverlay | GroupMomentum | GroupVolatility | GroupVolume | GroupStructure

record param =
  pmName :: string
  pmKind :: param_kind
  pmDefault :: f64
  pmMin :: f64
  pmMax :: f64

record params =
  pValues :: "string \<rightharpoonup> f64"
  pSource :: source

definition param_float :: "params \<Rightarrow> string \<Rightarrow> f64" where
  "param_float p name = (case pValues p name of Some v \<Rightarrow> v | None \<Rightarrow> 0)"

text \<open>Go's \<open>int(x)\<close>, 64 bits wide.\<close>

definition go_int :: "f64 \<Rightarrow> int" where
  "go_int x = sint (i64_of x)"

definition param_int :: "params \<Rightarrow> string \<Rightarrow> int" where
  "param_int p name = go_int (param_float p name)"

record spec =
  spName :: string
  spGroup :: group
  spOverlay :: bool
  spSourced :: bool
  spParams :: "param list"
  spOutputs :: "string list"
  spOffsets :: "params \<Rightarrow> int list"
  spValidate :: "params \<Rightarrow> string option"
  spNew :: "params \<Rightarrow> indicator"

definition no_offsets :: "params \<Rightarrow> int list" where "no_offsets p = []"

definition ichimoku_offsets :: "params \<Rightarrow> int list" where
  "ichimoku_offsets p = (let ahead = param_int p ''displacement'' in [0, 0, ahead, ahead, - ahead])"

definition spec_ok :: "params \<Rightarrow> string option" where "spec_ok p = None"

definition fast_below_slow :: "params \<Rightarrow> string option" where
  "fast_below_slow p =
     (if param_int p ''fast'' \<ge> param_int p ''slow'' then Some ''fast must be shorter than slow'' else None)"

definition step_below_max :: "params \<Rightarrow> string option" where
  "step_below_max p =
     (if param_float p ''step'' > param_float p ''max'' then Some ''step must not exceed max'' else None)"

section \<open>The catalogue\<close>

definition spec_ad :: "spec" where
  "spec_ad =
    \<lparr>spName = ''ad'', spGroup = GroupVolume, spOverlay = False, spSourced = False,
     spParams =
      [],
     spOutputs = [''ad''],
     spOffsets = no_offsets, spValidate = spec_ok,
     spNew = (\<lambda>p. IADLine (NewADLine))\<rparr>"

definition spec_adx :: "spec" where
  "spec_adx =
    \<lparr>spName = ''adx'', spGroup = GroupMomentum, spOverlay = False, spSourced = False,
     spParams =
      [\<lparr>pmName = ''period'', pmKind = ParamInt, pmDefault = Fin 14, pmMin = Fin 1, pmMax = Fin 2000\<rparr>],
     spOutputs = [''adx'', ''plus_di'', ''minus_di''],
     spOffsets = no_offsets, spValidate = spec_ok,
     spNew = (\<lambda>p. IADX (NewADX (param_int p ''period'')))\<rparr>"

definition spec_aroon :: "spec" where
  "spec_aroon =
    \<lparr>spName = ''aroon'', spGroup = GroupMomentum, spOverlay = False, spSourced = False,
     spParams =
      [\<lparr>pmName = ''period'', pmKind = ParamInt, pmDefault = Fin 25, pmMin = Fin 1, pmMax = Fin 2000\<rparr>],
     spOutputs = [''up'', ''down'', ''oscillator''],
     spOffsets = no_offsets, spValidate = spec_ok,
     spNew = (\<lambda>p. IAroon (NewAroon (param_int p ''period'')))\<rparr>"

definition spec_atr :: "spec" where
  "spec_atr =
    \<lparr>spName = ''atr'', spGroup = GroupVolatility, spOverlay = False, spSourced = False,
     spParams =
      [\<lparr>pmName = ''period'', pmKind = ParamInt, pmDefault = Fin 14, pmMin = Fin 1, pmMax = Fin 2000\<rparr>],
     spOutputs = [''atr''],
     spOffsets = no_offsets, spValidate = spec_ok,
     spNew = (\<lambda>p. IATR (NewATR (param_int p ''period'')))\<rparr>"

definition spec_bb :: "spec" where
  "spec_bb =
    \<lparr>spName = ''bb'', spGroup = GroupVolatility, spOverlay = True, spSourced = True,
     spParams =
      [\<lparr>pmName = ''period'', pmKind = ParamInt, pmDefault = Fin 20, pmMin = Fin 2, pmMax = Fin 2000\<rparr>,
       \<lparr>pmName = ''mult'', pmKind = ParamFloat, pmDefault = Fin 2, pmMin = rnd (1 / 10), pmMax = Fin 10\<rparr>],
     spOutputs = [''upper'', ''middle'', ''lower''],
     spOffsets = no_offsets, spValidate = spec_ok,
     spNew = (\<lambda>p. IBollingerBands (NewBollingerBands (param_int p ''period'') (param_float p ''mult'') (pSource p)))\<rparr>"

definition spec_cci :: "spec" where
  "spec_cci =
    \<lparr>spName = ''cci'', spGroup = GroupMomentum, spOverlay = False, spSourced = False,
     spParams =
      [\<lparr>pmName = ''period'', pmKind = ParamInt, pmDefault = Fin 20, pmMin = Fin 1, pmMax = Fin 2000\<rparr>],
     spOutputs = [''cci''],
     spOffsets = no_offsets, spValidate = spec_ok,
     spNew = (\<lambda>p. ICCI (NewCCI (param_int p ''period'')))\<rparr>"

definition spec_chaikin :: "spec" where
  "spec_chaikin =
    \<lparr>spName = ''chaikin'', spGroup = GroupVolume, spOverlay = False, spSourced = False,
     spParams =
      [\<lparr>pmName = ''fast'', pmKind = ParamInt, pmDefault = Fin 3, pmMin = Fin 1, pmMax = Fin 2000\<rparr>,
       \<lparr>pmName = ''slow'', pmKind = ParamInt, pmDefault = Fin 10, pmMin = Fin 2, pmMax = Fin 2000\<rparr>],
     spOutputs = [''chaikin''],
     spOffsets = no_offsets, spValidate = fast_below_slow,
     spNew = (\<lambda>p. IChaikinOscillator (NewChaikinOscillator (param_int p ''fast'') (param_int p ''slow'')))\<rparr>"

definition spec_cvol :: "spec" where
  "spec_cvol =
    \<lparr>spName = ''cvol'', spGroup = GroupVolatility, spOverlay = False, spSourced = False,
     spParams =
      [\<lparr>pmName = ''period'', pmKind = ParamInt, pmDefault = Fin 10, pmMin = Fin 1, pmMax = Fin 2000\<rparr>,
       \<lparr>pmName = ''roc'', pmKind = ParamInt, pmDefault = Fin 10, pmMin = Fin 1, pmMax = Fin 2000\<rparr>],
     spOutputs = [''cvol''],
     spOffsets = no_offsets, spValidate = spec_ok,
     spNew = (\<lambda>p. IChaikinVol (NewChaikinVol (param_int p ''period'') (param_int p ''roc'')))\<rparr>"

definition spec_dema :: "spec" where
  "spec_dema =
    \<lparr>spName = ''dema'', spGroup = GroupOverlay, spOverlay = True, spSourced = True,
     spParams =
      [\<lparr>pmName = ''period'', pmKind = ParamInt, pmDefault = Fin 20, pmMin = Fin 1, pmMax = Fin 2000\<rparr>],
     spOutputs = [''dema''],
     spOffsets = no_offsets, spValidate = spec_ok,
     spNew = (\<lambda>p. IDEMA (NewDEMA (param_int p ''period'') (pSource p)))\<rparr>"

definition spec_donchian :: "spec" where
  "spec_donchian =
    \<lparr>spName = ''donchian'', spGroup = GroupOverlay, spOverlay = True, spSourced = False,
     spParams =
      [\<lparr>pmName = ''period'', pmKind = ParamInt, pmDefault = Fin 20, pmMin = Fin 1, pmMax = Fin 2000\<rparr>],
     spOutputs = [''upper'', ''middle'', ''lower''],
     spOffsets = no_offsets, spValidate = spec_ok,
     spNew = (\<lambda>p. IDonchian (NewDonchian (param_int p ''period'')))\<rparr>"

definition spec_ema :: "spec" where
  "spec_ema =
    \<lparr>spName = ''ema'', spGroup = GroupOverlay, spOverlay = True, spSourced = True,
     spParams =
      [\<lparr>pmName = ''period'', pmKind = ParamInt, pmDefault = Fin 20, pmMin = Fin 1, pmMax = Fin 2000\<rparr>],
     spOutputs = [''ema''],
     spOffsets = no_offsets, spValidate = spec_ok,
     spNew = (\<lambda>p. IEMA (NewEMA (param_int p ''period'') (pSource p)))\<rparr>"

definition spec_fractals :: "spec" where
  "spec_fractals =
    \<lparr>spName = ''fractals'', spGroup = GroupStructure, spOverlay = True, spSourced = False,
     spParams =
      [\<lparr>pmName = ''period'', pmKind = ParamInt, pmDefault = Fin 2, pmMin = Fin 1, pmMax = Fin 100\<rparr>],
     spOutputs = [''up'', ''down''],
     spOffsets = no_offsets, spValidate = spec_ok,
     spNew = (\<lambda>p. IFractals (NewFractals (param_int p ''period'')))\<rparr>"

definition spec_hv :: "(f64 \<Rightarrow> f64) \<Rightarrow> spec" where
  "spec_hv math_Log =
    \<lparr>spName = ''hv'', spGroup = GroupVolatility, spOverlay = False, spSourced = True,
     spParams =
      [\<lparr>pmName = ''period'', pmKind = ParamInt, pmDefault = Fin 20, pmMin = Fin 2, pmMax = Fin 2000\<rparr>,
       \<lparr>pmName = ''annual'', pmKind = ParamInt, pmDefault = Fin 252, pmMin = Fin 1, pmMax = Fin 2000\<rparr>],
     spOutputs = [''hv''],
     spOffsets = no_offsets, spValidate = spec_ok,
     spNew = (\<lambda>p. IHistVol (NewHistVol math_Log (param_int p ''period'') (param_int p ''annual'') (pSource p)))\<rparr>"

definition spec_hma :: "spec" where
  "spec_hma =
    \<lparr>spName = ''hma'', spGroup = GroupOverlay, spOverlay = True, spSourced = True,
     spParams =
      [\<lparr>pmName = ''period'', pmKind = ParamInt, pmDefault = Fin 9, pmMin = Fin 1, pmMax = Fin 2000\<rparr>],
     spOutputs = [''hma''],
     spOffsets = no_offsets, spValidate = spec_ok,
     spNew = (\<lambda>p. IHMA (NewHMA (param_int p ''period'') (pSource p)))\<rparr>"

definition spec_ichimoku :: "spec" where
  "spec_ichimoku =
    \<lparr>spName = ''ichimoku'', spGroup = GroupOverlay, spOverlay = True, spSourced = False,
     spParams =
      [\<lparr>pmName = ''tenkan'', pmKind = ParamInt, pmDefault = Fin 9, pmMin = Fin 1, pmMax = Fin 2000\<rparr>,
       \<lparr>pmName = ''kijun'', pmKind = ParamInt, pmDefault = Fin 26, pmMin = Fin 1, pmMax = Fin 2000\<rparr>,
       \<lparr>pmName = ''senkou'', pmKind = ParamInt, pmDefault = Fin 52, pmMin = Fin 1, pmMax = Fin 2000\<rparr>,
       \<lparr>pmName = ''displacement'', pmKind = ParamInt, pmDefault = Fin 26, pmMin = Fin 0, pmMax = Fin 2000\<rparr>],
     spOutputs = [''tenkan'', ''kijun'', ''senkou_a'', ''senkou_b'', ''chikou''],
     spOffsets = ichimoku_offsets, spValidate = spec_ok,
     spNew = (\<lambda>p. IIchimoku (NewIchimoku (param_int p ''tenkan'') (param_int p ''kijun'') (param_int p ''senkou'')))\<rparr>"

definition spec_keltner :: "spec" where
  "spec_keltner =
    \<lparr>spName = ''keltner'', spGroup = GroupOverlay, spOverlay = True, spSourced = False,
     spParams =
      [\<lparr>pmName = ''period'', pmKind = ParamInt, pmDefault = Fin 20, pmMin = Fin 1, pmMax = Fin 2000\<rparr>,
       \<lparr>pmName = ''mult'', pmKind = ParamFloat, pmDefault = Fin 2, pmMin = rnd (1 / 10), pmMax = Fin 10\<rparr>,
       \<lparr>pmName = ''atr'', pmKind = ParamInt, pmDefault = Fin 10, pmMin = Fin 1, pmMax = Fin 2000\<rparr>],
     spOutputs = [''upper'', ''middle'', ''lower''],
     spOffsets = no_offsets, spValidate = spec_ok,
     spNew = (\<lambda>p. IKeltner (NewKeltner (param_int p ''period'') (param_float p ''mult'') (param_int p ''atr'')))\<rparr>"

definition spec_macd :: "spec" where
  "spec_macd =
    \<lparr>spName = ''macd'', spGroup = GroupMomentum, spOverlay = False, spSourced = True,
     spParams =
      [\<lparr>pmName = ''fast'', pmKind = ParamInt, pmDefault = Fin 12, pmMin = Fin 1, pmMax = Fin 2000\<rparr>,
       \<lparr>pmName = ''slow'', pmKind = ParamInt, pmDefault = Fin 26, pmMin = Fin 2, pmMax = Fin 2000\<rparr>,
       \<lparr>pmName = ''signal'', pmKind = ParamInt, pmDefault = Fin 9, pmMin = Fin 1, pmMax = Fin 2000\<rparr>],
     spOutputs = [''macd'', ''signal'', ''histogram''],
     spOffsets = no_offsets, spValidate = fast_below_slow,
     spNew = (\<lambda>p. IMACD (NewMACD (param_int p ''fast'') (param_int p ''slow'') (param_int p ''signal'') (pSource p)))\<rparr>"

definition spec_mfi :: "spec" where
  "spec_mfi =
    \<lparr>spName = ''mfi'', spGroup = GroupVolume, spOverlay = False, spSourced = False,
     spParams =
      [\<lparr>pmName = ''period'', pmKind = ParamInt, pmDefault = Fin 14, pmMin = Fin 1, pmMax = Fin 2000\<rparr>],
     spOutputs = [''mfi''],
     spOffsets = no_offsets, spValidate = spec_ok,
     spNew = (\<lambda>p. IMFI (NewMFI (param_int p ''period'')))\<rparr>"

definition spec_mom :: "spec" where
  "spec_mom =
    \<lparr>spName = ''mom'', spGroup = GroupMomentum, spOverlay = False, spSourced = True,
     spParams =
      [\<lparr>pmName = ''period'', pmKind = ParamInt, pmDefault = Fin 10, pmMin = Fin 1, pmMax = Fin 2000\<rparr>],
     spOutputs = [''mom''],
     spOffsets = no_offsets, spValidate = spec_ok,
     spNew = (\<lambda>p. IMomentum (NewMomentum (param_int p ''period'') (pSource p)))\<rparr>"

definition spec_obv :: "spec" where
  "spec_obv =
    \<lparr>spName = ''obv'', spGroup = GroupVolume, spOverlay = False, spSourced = False,
     spParams =
      [],
     spOutputs = [''obv''],
     spOffsets = no_offsets, spValidate = spec_ok,
     spNew = (\<lambda>p. IOBV (NewOBV))\<rparr>"

definition spec_pivots :: "spec" where
  "spec_pivots =
    \<lparr>spName = ''pivots'', spGroup = GroupStructure, spOverlay = True, spSourced = False,
     spParams =
      [\<lparr>pmName = ''period'', pmKind = ParamInt, pmDefault = Fin 1, pmMin = Fin 1, pmMax = Fin 2000\<rparr>],
     spOutputs = [''pivot'', ''r1'', ''r2'', ''r3'', ''s1'', ''s2'', ''s3''],
     spOffsets = no_offsets, spValidate = spec_ok,
     spNew = (\<lambda>p. IPivotPoints (NewPivotPoints (param_int p ''period'') False))\<rparr>"

definition spec_fibpivots :: "spec" where
  "spec_fibpivots =
    \<lparr>spName = ''fibpivots'', spGroup = GroupStructure, spOverlay = True, spSourced = False,
     spParams =
      [\<lparr>pmName = ''period'', pmKind = ParamInt, pmDefault = Fin 1, pmMin = Fin 1, pmMax = Fin 2000\<rparr>],
     spOutputs = [''pivot'', ''r1'', ''r2'', ''r3'', ''s1'', ''s2'', ''s3''],
     spOffsets = no_offsets, spValidate = spec_ok,
     spNew = (\<lambda>p. IPivotPoints (NewPivotPoints (param_int p ''period'') True))\<rparr>"

definition spec_psar :: "spec" where
  "spec_psar =
    \<lparr>spName = ''psar'', spGroup = GroupOverlay, spOverlay = True, spSourced = False,
     spParams =
      [\<lparr>pmName = ''step'', pmKind = ParamFloat, pmDefault = rnd (1 / 50), pmMin = rnd (1 / 1000), pmMax = Fin 1\<rparr>,
       \<lparr>pmName = ''max'', pmKind = ParamFloat, pmDefault = rnd (1 / 5), pmMin = rnd (1 / 1000), pmMax = Fin 1\<rparr>],
     spOutputs = [''sar'', ''direction''],
     spOffsets = no_offsets, spValidate = step_below_max,
     spNew = (\<lambda>p. IParabolicSAR (NewParabolicSAR (param_float p ''step'') (param_float p ''max'')))\<rparr>"

definition spec_roc :: "spec" where
  "spec_roc =
    \<lparr>spName = ''roc'', spGroup = GroupMomentum, spOverlay = False, spSourced = True,
     spParams =
      [\<lparr>pmName = ''period'', pmKind = ParamInt, pmDefault = Fin 12, pmMin = Fin 1, pmMax = Fin 2000\<rparr>],
     spOutputs = [''roc''],
     spOffsets = no_offsets, spValidate = spec_ok,
     spNew = (\<lambda>p. IROC (NewROC (param_int p ''period'') (pSource p)))\<rparr>"

definition spec_rsi :: "spec" where
  "spec_rsi =
    \<lparr>spName = ''rsi'', spGroup = GroupMomentum, spOverlay = False, spSourced = True,
     spParams =
      [\<lparr>pmName = ''period'', pmKind = ParamInt, pmDefault = Fin 14, pmMin = Fin 2, pmMax = Fin 2000\<rparr>],
     spOutputs = [''rsi''],
     spOffsets = no_offsets, spValidate = spec_ok,
     spNew = (\<lambda>p. IRSI (NewRSI (param_int p ''period'') (pSource p)))\<rparr>"

definition spec_sma :: "spec" where
  "spec_sma =
    \<lparr>spName = ''sma'', spGroup = GroupOverlay, spOverlay = True, spSourced = True,
     spParams =
      [\<lparr>pmName = ''period'', pmKind = ParamInt, pmDefault = Fin 20, pmMin = Fin 1, pmMax = Fin 2000\<rparr>],
     spOutputs = [''sma''],
     spOffsets = no_offsets, spValidate = spec_ok,
     spNew = (\<lambda>p. ISMA (NewSMA (param_int p ''period'') (pSource p)))\<rparr>"

definition spec_stddev :: "spec" where
  "spec_stddev =
    \<lparr>spName = ''stddev'', spGroup = GroupVolatility, spOverlay = False, spSourced = True,
     spParams =
      [\<lparr>pmName = ''period'', pmKind = ParamInt, pmDefault = Fin 20, pmMin = Fin 2, pmMax = Fin 2000\<rparr>],
     spOutputs = [''stddev''],
     spOffsets = no_offsets, spValidate = spec_ok,
     spNew = (\<lambda>p. IStdDev (NewStdDev (param_int p ''period'') (pSource p)))\<rparr>"

definition spec_stoch :: "spec" where
  "spec_stoch =
    \<lparr>spName = ''stoch'', spGroup = GroupMomentum, spOverlay = False, spSourced = False,
     spParams =
      [\<lparr>pmName = ''k'', pmKind = ParamInt, pmDefault = Fin 14, pmMin = Fin 1, pmMax = Fin 2000\<rparr>,
       \<lparr>pmName = ''smooth'', pmKind = ParamInt, pmDefault = Fin 3, pmMin = Fin 1, pmMax = Fin 2000\<rparr>,
       \<lparr>pmName = ''d'', pmKind = ParamInt, pmDefault = Fin 3, pmMin = Fin 1, pmMax = Fin 2000\<rparr>],
     spOutputs = [''k'', ''d''],
     spOffsets = no_offsets, spValidate = spec_ok,
     spNew = (\<lambda>p. IStochastic (NewStochastic (param_int p ''k'') (param_int p ''smooth'') (param_int p ''d'')))\<rparr>"

definition spec_stochrsi :: "spec" where
  "spec_stochrsi =
    \<lparr>spName = ''stochrsi'', spGroup = GroupMomentum, spOverlay = False, spSourced = True,
     spParams =
      [\<lparr>pmName = ''rsi'', pmKind = ParamInt, pmDefault = Fin 14, pmMin = Fin 2, pmMax = Fin 2000\<rparr>,
       \<lparr>pmName = ''stoch'', pmKind = ParamInt, pmDefault = Fin 14, pmMin = Fin 1, pmMax = Fin 2000\<rparr>,
       \<lparr>pmName = ''k'', pmKind = ParamInt, pmDefault = Fin 3, pmMin = Fin 1, pmMax = Fin 2000\<rparr>,
       \<lparr>pmName = ''d'', pmKind = ParamInt, pmDefault = Fin 3, pmMin = Fin 1, pmMax = Fin 2000\<rparr>],
     spOutputs = [''k'', ''d''],
     spOffsets = no_offsets, spValidate = spec_ok,
     spNew = (\<lambda>p. IStochRSI (NewStochRSI (param_int p ''rsi'') (param_int p ''stoch'') (param_int p ''k'') (param_int p ''d'') (pSource p)))\<rparr>"

definition spec_supertrend :: "spec" where
  "spec_supertrend =
    \<lparr>spName = ''supertrend'', spGroup = GroupOverlay, spOverlay = True, spSourced = False,
     spParams =
      [\<lparr>pmName = ''period'', pmKind = ParamInt, pmDefault = Fin 10, pmMin = Fin 1, pmMax = Fin 2000\<rparr>,
       \<lparr>pmName = ''mult'', pmKind = ParamFloat, pmDefault = Fin 3, pmMin = rnd (1 / 10), pmMax = Fin 20\<rparr>],
     spOutputs = [''supertrend'', ''direction''],
     spOffsets = no_offsets, spValidate = spec_ok,
     spNew = (\<lambda>p. ISuperTrend (NewSuperTrend (param_int p ''period'') (param_float p ''mult'')))\<rparr>"

definition spec_tema :: "spec" where
  "spec_tema =
    \<lparr>spName = ''tema'', spGroup = GroupOverlay, spOverlay = True, spSourced = True,
     spParams =
      [\<lparr>pmName = ''period'', pmKind = ParamInt, pmDefault = Fin 20, pmMin = Fin 1, pmMax = Fin 2000\<rparr>],
     spOutputs = [''tema''],
     spOffsets = no_offsets, spValidate = spec_ok,
     spNew = (\<lambda>p. ITEMA (NewTEMA (param_int p ''period'') (pSource p)))\<rparr>"

definition spec_volma :: "spec" where
  "spec_volma =
    \<lparr>spName = ''volma'', spGroup = GroupVolume, spOverlay = False, spSourced = False,
     spParams =
      [\<lparr>pmName = ''period'', pmKind = ParamInt, pmDefault = Fin 20, pmMin = Fin 1, pmMax = Fin 2000\<rparr>],
     spOutputs = [''volma''],
     spOffsets = no_offsets, spValidate = spec_ok,
     spNew = (\<lambda>p. IVolumeMA (NewVolumeMA (param_int p ''period'')))\<rparr>"

definition spec_vwap :: "spec" where
  "spec_vwap =
    \<lparr>spName = ''vwap'', spGroup = GroupOverlay, spOverlay = True, spSourced = False,
     spParams =
      [\<lparr>pmName = ''period'', pmKind = ParamInt, pmDefault = Fin 20, pmMin = Fin 1, pmMax = Fin 2000\<rparr>],
     spOutputs = [''vwap''],
     spOffsets = no_offsets, spValidate = spec_ok,
     spNew = (\<lambda>p. IVWAP (NewVWAP (param_int p ''period'')))\<rparr>"

definition spec_vwma :: "spec" where
  "spec_vwma =
    \<lparr>spName = ''vwma'', spGroup = GroupVolume, spOverlay = True, spSourced = True,
     spParams =
      [\<lparr>pmName = ''period'', pmKind = ParamInt, pmDefault = Fin 20, pmMin = Fin 1, pmMax = Fin 2000\<rparr>],
     spOutputs = [''vwma''],
     spOffsets = no_offsets, spValidate = spec_ok,
     spNew = (\<lambda>p. IVWMA (NewVWMA (param_int p ''period'') (pSource p)))\<rparr>"

definition spec_willr :: "spec" where
  "spec_willr =
    \<lparr>spName = ''willr'', spGroup = GroupMomentum, spOverlay = False, spSourced = False,
     spParams =
      [\<lparr>pmName = ''period'', pmKind = ParamInt, pmDefault = Fin 14, pmMin = Fin 1, pmMax = Fin 2000\<rparr>],
     spOutputs = [''willr''],
     spOffsets = no_offsets, spValidate = spec_ok,
     spNew = (\<lambda>p. IWilliamsR (NewWilliamsR (param_int p ''period'')))\<rparr>"

definition spec_wma :: "spec" where
  "spec_wma =
    \<lparr>spName = ''wma'', spGroup = GroupOverlay, spOverlay = True, spSourced = True,
     spParams =
      [\<lparr>pmName = ''period'', pmKind = ParamInt, pmDefault = Fin 20, pmMin = Fin 1, pmMax = Fin 2000\<rparr>],
     spOutputs = [''wma''],
     spOffsets = no_offsets, spValidate = spec_ok,
     spNew = (\<lambda>p. IWMA (NewWMA (param_int p ''period'') (pSource p)))\<rparr>"

definition spec_zigzag :: "spec" where
  "spec_zigzag =
    \<lparr>spName = ''zigzag'', spGroup = GroupStructure, spOverlay = True, spSourced = False,
     spParams =
      [\<lparr>pmName = ''deviation'', pmKind = ParamFloat, pmDefault = Fin 5, pmMin = rnd (1 / 10), pmMax = Fin 100\<rparr>],
     spOutputs = [''zigzag'', ''direction''],
     spOffsets = no_offsets, spValidate = spec_ok,
     spNew = (\<lambda>p. IZigZag (NewZigZag (param_float p ''deviation'')))\<rparr>"

definition registry :: "(f64 \<Rightarrow> f64) \<Rightarrow> spec list" where
  "registry math_Log =
    [spec_ad, spec_adx, spec_aroon, spec_atr, spec_bb, spec_cci, spec_chaikin, spec_cvol,
     spec_dema, spec_donchian, spec_ema, spec_fractals, spec_hv math_Log, spec_hma,
     spec_ichimoku, spec_keltner, spec_macd, spec_mfi, spec_mom, spec_obv, spec_pivots,
     spec_fibpivots, spec_psar, spec_roc, spec_rsi, spec_sma, spec_stddev, spec_stoch,
     spec_stochrsi, spec_supertrend, spec_tema, spec_volma, spec_vwap, spec_vwma,
     spec_willr, spec_wma, spec_zigzag]"

lemmas spec_defs =
  spec_ad_def
  spec_adx_def
  spec_aroon_def
  spec_atr_def
  spec_bb_def
  spec_cci_def
  spec_chaikin_def
  spec_cvol_def
  spec_dema_def
  spec_donchian_def
  spec_ema_def
  spec_fractals_def
  spec_hv_def
  spec_hma_def
  spec_ichimoku_def
  spec_keltner_def
  spec_macd_def
  spec_mfi_def
  spec_mom_def
  spec_obv_def
  spec_pivots_def
  spec_fibpivots_def
  spec_psar_def
  spec_roc_def
  spec_rsi_def
  spec_sma_def
  spec_stddev_def
  spec_stoch_def
  spec_stochrsi_def
  spec_supertrend_def
  spec_tema_def
  spec_volma_def
  spec_vwap_def
  spec_vwma_def
  spec_willr_def
  spec_wma_def
  spec_zigzag_def

section \<open>Registration\<close>

text \<open>The checks of \<open>Spec.validate\<close>: a failing one is a panic at start-up. Names are ASCII.\<close>

definition normal_name :: "string \<Rightarrow> string" where
  "normal_name s = map lower_char (trim_space s)"

datatype spec_fault =
    BadName | NoOutputs | BadParam string | MinAboveMax string | DefaultOutside string

fun param_faults :: "param list \<Rightarrow> spec_fault option" where
  "param_faults [] = None"
| "param_faults (p # ps) =
     (if pmName p = '''' \<or> pmName p = ''source'' then Some (BadParam (pmName p))
      else if pmMin p > pmMax p then Some (MinAboveMax (pmName p))
      else if pmDefault p < pmMin p \<or> pmDefault p > pmMax p then Some (DefaultOutside (pmName p))
      else param_faults ps)"

definition spec_validate :: "spec \<Rightarrow> spec_fault option" where
  "spec_validate s =
     (if spName s \<noteq> normal_name (spName s) \<or> spName s = '''' then Some BadName
      else if spOutputs s = [] then Some NoOutputs
      else param_faults (spParams s))"

text \<open>\<open>Register\<close>: \<open>None\<close> is a panic.\<close>

definition Register :: "spec \<Rightarrow> spec list \<Rightarrow> spec list option" where
  "Register s specs =
     (if spec_validate s \<noteq> None then None
      else if spName s \<in> spName ` set specs then None
      else Some (specs @ [s]))"

fun register_all :: "spec list \<Rightarrow> spec list \<Rightarrow> spec list option" where
  "register_all [] specs = Some specs"
| "register_all (s # ss) specs =
     (case Register s specs of None \<Rightarrow> None | Some specs1 \<Rightarrow> register_all ss specs1)"

definition Lookup :: "spec list \<Rightarrow> string \<Rightarrow> spec option" where
  "Lookup specs name = find (\<lambda>s. spName s = normal_name name) specs"

section \<open>Resolving parameters\<close>

datatype param_error =
    UnknownIndicator string
  | OutOfRange string string f64
  | NotWhole string string f64
  | UnknownParam string string
  | NotSourced string
  | UnknownSource string
  | InvalidParams string string

fun resolve_loop ::
  "string \<Rightarrow> (string \<times> f64) list \<Rightarrow> param list \<Rightarrow> (string \<rightharpoonup> f64) \<Rightarrow> param_error + (string \<rightharpoonup> f64)" where
  "resolve_loop name values [] acc = Inr acc"
| "resolve_loop name values (p # ps) acc =
     (let v = (case map_of values (pmName p) of None \<Rightarrow> pmDefault p | Some v \<Rightarrow> v)
      in if v < pmMin p \<or> v > pmMax p then Inl (OutOfRange name (pmName p) v)
         else if pmKind p = ParamInt \<and> \<not> feq v (float_of_int (go_int v))
         then Inl (NotWhole name (pmName p) v)
         else resolve_loop name values ps (acc(pmName p \<mapsto> v)))"

text \<open>A source is one of the fields a rule may name; of these the volume is no indicator source.\<close>

definition resolve :: "spec \<Rightarrow> (string \<times> f64) list \<Rightarrow> price_field option \<Rightarrow> param_error + params" where
  "resolve s values src =
     (case resolve_loop (spName s) values (spParams s) Map.empty of
        Inl e \<Rightarrow> Inl e
      | Inr vs \<Rightarrow>
          (case find (\<lambda>(n, _). n \<notin> pmName ` set (spParams s)) values of
             Some (n, _) \<Rightarrow> Inl (UnknownParam (spName s) n)
           | None \<Rightarrow>
               (case (case src of
                        None \<Rightarrow> Inr \<lparr>pValues = vs, pSource = SourceClose\<rparr>
                      | Some f \<Rightarrow>
                          if \<not> spSourced s then Inl (NotSourced (spName s))
                          else (case f of
                                  FieldVolume \<Rightarrow> Inl (UnknownSource (spName s))
                                | FieldSource x \<Rightarrow> Inr \<lparr>pValues = vs, pSource = x\<rparr>)) of
                  Inl e \<Rightarrow> Inl e
                | Inr p \<Rightarrow>
                    (case spValidate s p of
                       Some m \<Rightarrow> Inl (InvalidParams (spName s) m)
                     | None \<Rightarrow> Inr p))))"

record inst_key =
  kName :: string
  kValues :: "f64 option list"
  kSource :: "source option"

definition spec_key :: "spec \<Rightarrow> params \<Rightarrow> inst_key" where
  "spec_key s p =
     \<lparr>kName = spName s, kValues = map (\<lambda>q. pValues p (pmName q)) (spParams s),
      kSource = (if spSourced s \<and> pSource p \<noteq> SourceClose then Some (pSource p) else None)\<rparr>"

record instance_of =
  inKey :: inst_key
  inSpec :: spec
  inParams :: params
  inOffsets :: "int list"
  inIndicator :: indicator

text \<open>\<open>Spec.offsets\<close>: one offset per output, those the specification does not give being 0.\<close>

definition offsets :: "spec \<Rightarrow> params \<Rightarrow> int list" where
  "offsets s p =
     (let given = take (length (spOutputs s)) (spOffsets s p)
      in given @ replicate (length (spOutputs s) - length given) 0)"

definition New :: "spec list \<Rightarrow> string \<Rightarrow> (string \<times> f64) list \<Rightarrow> price_field option \<Rightarrow> param_error + instance_of" where
  "New specs name values src =
     (case Lookup specs name of
        None \<Rightarrow> Inl (UnknownIndicator name)
      | Some s \<Rightarrow>
          (case resolve s values src of
             Inl e \<Rightarrow> Inl e
           | Inr p \<Rightarrow> Inr \<lparr>inKey = spec_key s p, inSpec = s, inParams = p, inOffsets = offsets s p,
                         inIndicator = spNew s p\<rparr>))"

definition MaxOffset :: "instance_of list \<Rightarrow> int" where
  "MaxOffset is = fold (\<lambda>i ahead. fold (\<lambda>d a. max a d) (inOffsets i) ahead) is 0"

end
