(* ===== verification/Indicator_Contract.thy ===== *)
theory Indicator_Contract
  imports Registry
begin

text \<open>
  The contract of the interface \<open>Indicator\<close>, as a locale, and its interpretation on the library's
  indicators: ready exactly from the warm-up on, a number of outputs that never changes, and a
  \<open>Reset\<close> that leaves no trace of the past. \<open>Emit\<close> and \<open>Compute\<close> follow in closed form for every
  instance the registry builds, and the catalogue itself is shown to register without a panic.
\<close>

section \<open>The contract\<close>

locale streaming_indicator = history_machine update "\<lambda>h. seen (length h)"
  for update :: "'c \<Rightarrow> 'i \<Rightarrow> 'i" and seen :: "nat \<Rightarrow> 'i \<Rightarrow> bool" +
  fixes reset :: "'i \<Rightarrow> 'i"
    and vals :: "'i \<Rightarrow> 'v list"
    and rdy :: "'i \<Rightarrow> bool"
    and warm :: "'i \<Rightarrow> int"
  assumes rdy_seen: "seen n i \<Longrightarrow> rdy i \<longleftrightarrow> warm i < int n"
    and warm_update: "warm (update c i) = warm i"
    and width_update: "seen n i \<Longrightarrow> length (vals (update c i)) = length (vals i)"
    and reset_update: "reset (update c i) = reset i"
begin

lemma seen_run: "seen 0 i \<Longrightarrow> seen (length cs) (fold update cs i)"
  using repr_run [of i cs] by simp

lemma warm_run: "warm (fold update cs i) = warm i"
  by (induction cs arbitrary: i) (simp_all add: warm_update)

lemma reset_run: "reset (fold update cs i) = reset i"
  by (induction cs arbitrary: i) (simp_all add: reset_update)

lemma rdy_run: "seen 0 i \<Longrightarrow> rdy (fold update cs i) \<longleftrightarrow> warm i < int (length cs)"
  using rdy_seen [OF seen_run] by (simp add: warm_run)

lemma width_run: "seen 0 i \<Longrightarrow> length (vals (fold update cs i)) = length (vals i)"
proof (induction cs rule: rev_induct)
  case (snoc c cs)
  then show ?case using width_update [OF seen_run [OF snoc.prems, of cs]] by simp
qed simp

end

section \<open>The library keeps it\<close>

lemma psar_reset_simps [simp]:
  "ParabolicSAR_Reset (psar_emit p) = ParabolicSAR_Reset p"
  "ParabolicSAR_Reset (psar_advance c p) = ParabolicSAR_Reset p"
  by (simp_all add: ParabolicSAR_Reset_def psar_emit_def psar_advance_def Let_def)

lemma psar_reset_fields [simp]:
  "ParabolicSAR_Reset (p\<lparr>psOlder := a\<rparr>) = ParabolicSAR_Reset p"
  "ParabolicSAR_Reset (p\<lparr>psPrevious := b\<rparr>) = ParabolicSAR_Reset p"
  "ParabolicSAR_Reset (p\<lparr>psBars := n\<rparr>) = ParabolicSAR_Reset p"
  by (simp_all add: ParabolicSAR_Reset_def)

lemma Fractals_Update_lows [simp]: "frLows (Fractals_Update c f) = ring_push (iLow c) (frLows f)"
  by (simp add: Fractals_Update_def Let_def split: option.splits)

lemma warmup_SMA: "SMA_Warmup (SMA_Update c s) = SMA_Warmup s"
  by (simp add: SMA_Warmup_def SMA_Update_def Let_def)

lemma reset_SMA: "SMA_Reset (SMA_Update c s) = SMA_Reset s"
  by (simp add: SMA_Reset_def SMA_Update_def Let_def)

lemma warmup_EMA: "EMA_Warmup (EMA_Update c s) = EMA_Warmup s"
  by (simp add: EMA_Warmup_def EMA_Update_def Let_def)

lemma reset_EMA: "EMA_Reset (EMA_Update c s) = EMA_Reset s"
  by (simp add: EMA_Reset_def EMA_Update_def Let_def)

lemma warmup_WMA: "WMA_Warmup (WMA_Update c s) = WMA_Warmup s"
  by (simp add: WMA_Warmup_def WMA_Update_def Let_def)

lemma reset_WMA: "WMA_Reset (WMA_Update c s) = WMA_Reset s"
  by (simp add: WMA_Reset_def WMA_Update_def Let_def)

lemma warmup_DEMA: "DEMA_Warmup (DEMA_Update c s) = DEMA_Warmup s"
  by (simp add: DEMA_Warmup_def DEMA_Update_def Let_def)

lemma reset_DEMA: "DEMA_Reset (DEMA_Update c s) = DEMA_Reset s"
  by (simp add: DEMA_Reset_def DEMA_Update_def Let_def)

lemma warmup_TEMA: "TEMA_Warmup (TEMA_Update c s) = TEMA_Warmup s"
  by (simp add: TEMA_Warmup_def TEMA_Update_def Let_def)

lemma reset_TEMA: "TEMA_Reset (TEMA_Update c s) = TEMA_Reset s"
  by (simp add: TEMA_Reset_def TEMA_Update_def Let_def)

lemma warmup_HMA: "HMA_Warmup (HMA_Update c s) = HMA_Warmup s"
  by (simp add: HMA_Warmup_def HMA_Update_def Let_def)

lemma reset_HMA: "HMA_Reset (HMA_Update c s) = HMA_Reset s"
  by (simp add: HMA_Reset_def HMA_Update_def Let_def)

lemma warmup_VWMA: "VWMA_Warmup (VWMA_Update c s) = VWMA_Warmup s"
  by (simp add: VWMA_Warmup_def VWMA_Update_def Let_def)

lemma reset_VWMA: "VWMA_Reset (VWMA_Update c s) = VWMA_Reset s"
  by (simp add: VWMA_Reset_def VWMA_Update_def Let_def)

lemma warmup_VWAP: "VWAP_Warmup (VWAP_Update c s) = VWAP_Warmup s"
  by (simp add: VWAP_Warmup_def VWAP_Update_def Let_def)

lemma reset_VWAP: "VWAP_Reset (VWAP_Update c s) = VWAP_Reset s"
  by (simp add: VWAP_Reset_def VWAP_Update_def Let_def)

lemma warmup_Keltner: "Keltner_Warmup (Keltner_Update c s) = Keltner_Warmup s"
  by (simp add: Keltner_Warmup_def Keltner_Update_def Let_def)

lemma reset_Keltner: "Keltner_Reset (Keltner_Update c s) = Keltner_Reset s"
  by (simp add: Keltner_Reset_def Keltner_Update_def Let_def)

lemma warmup_Donchian: "Donchian_Warmup (Donchian_Update c s) = Donchian_Warmup s"
  by (simp add: Donchian_Warmup_def Donchian_Update_def Let_def)

lemma reset_Donchian: "Donchian_Reset (Donchian_Update c s) = Donchian_Reset s"
  by (simp add: Donchian_Reset_def Donchian_Update_def Let_def)

lemma warmup_Ichimoku: "Ichimoku_Warmup (Ichimoku_Update c s) = Ichimoku_Warmup s"
  by (simp add: Ichimoku_Warmup_def Ichimoku_Update_def Let_def)

lemma reset_Ichimoku: "Ichimoku_Reset (Ichimoku_Update c s) = Ichimoku_Reset s"
  by (simp add: Ichimoku_Reset_def Ichimoku_Update_def Let_def)

lemma warmup_SuperTrend: "SuperTrend_Warmup (SuperTrend_Update c s) = SuperTrend_Warmup s"
  by (simp add: SuperTrend_Warmup_def SuperTrend_Update_def Let_def)

lemma reset_SuperTrend: "SuperTrend_Reset (SuperTrend_Update c s) = SuperTrend_Reset s"
  by (simp add: SuperTrend_Reset_def SuperTrend_Update_def Let_def)

lemma reset_ParabolicSAR: "ParabolicSAR_Reset (ParabolicSAR_Update c s) = ParabolicSAR_Reset s"
proof -
  have "ParabolicSAR_Reset (psar_emit (q\<lparr>psRising := r, psRate := a, psOlder := x, psPrevious := y\<rparr>)) =
    ParabolicSAR_Reset q" for q r a x y
    by (simp add: ParabolicSAR_Reset_def psar_emit_def)
  moreover have "ParabolicSAR_Reset (s\<lparr>psSar := a, psExtreme := b\<rparr>) = ParabolicSAR_Reset s" for a b
    by (simp add: ParabolicSAR_Reset_def)
  ultimately show ?thesis by (simp add: ParabolicSAR_Update_def Let_def)
qed

lemma warmup_RSI: "RSI_Warmup (RSI_Update c s) = RSI_Warmup s"
  by (simp add: RSI_Warmup_def RSI_Update_def Let_def)

lemma reset_RSI: "RSI_Reset (RSI_Update c s) = RSI_Reset s"
  by (simp add: RSI_Reset_def RSI_Update_def Let_def)

lemma warmup_Stochastic: "Stochastic_Warmup (Stochastic_Update c s) = Stochastic_Warmup s"
  by (simp add: Stochastic_Warmup_def Stochastic_Update_def Let_def)

lemma reset_Stochastic: "Stochastic_Reset (Stochastic_Update c s) = Stochastic_Reset s"
  by (simp add: Stochastic_Reset_def Stochastic_Update_def Let_def)

lemma warmup_StochRSI: "StochRSI_Warmup (StochRSI_Update c s) = StochRSI_Warmup s"
  by (simp add: StochRSI_Warmup_def StochRSI_Update_def RSI_Warmup_def Let_def)

lemma reset_StochRSI: "StochRSI_Reset (StochRSI_Update c s) = StochRSI_Reset s"
  by (simp add: StochRSI_Reset_def StochRSI_Update_def reset_RSI Let_def)

lemma warmup_MACD: "MACD_Warmup (MACD_Update c s) = MACD_Warmup s"
  by (simp add: MACD_Warmup_def MACD_Update_def Let_def)

lemma reset_MACD: "MACD_Reset (MACD_Update c s) = MACD_Reset s"
  by (simp add: MACD_Reset_def MACD_Update_def Let_def)

lemma warmup_Momentum: "Momentum_Warmup (Momentum_Update c s) = Momentum_Warmup s"
  by (simp add: Momentum_Warmup_def Momentum_Update_def Let_def)

lemma reset_Momentum: "Momentum_Reset (Momentum_Update c s) = Momentum_Reset s"
  by (simp add: Momentum_Reset_def Momentum_Update_def Let_def)

lemma warmup_ROC: "ROC_Warmup (ROC_Update c s) = ROC_Warmup s"
  by (simp add: ROC_Warmup_def ROC_Update_def Let_def)

lemma reset_ROC: "ROC_Reset (ROC_Update c s) = ROC_Reset s"
  by (simp add: ROC_Reset_def ROC_Update_def Let_def)

lemma warmup_WilliamsR: "WilliamsR_Warmup (WilliamsR_Update c s) = WilliamsR_Warmup s"
  by (simp add: WilliamsR_Warmup_def WilliamsR_Update_def Let_def)

lemma reset_WilliamsR: "WilliamsR_Reset (WilliamsR_Update c s) = WilliamsR_Reset s"
  by (simp add: WilliamsR_Reset_def WilliamsR_Update_def Let_def)

lemma warmup_CCI: "CCI_Warmup (CCI_Update c s) = CCI_Warmup s"
  by (simp add: CCI_Warmup_def CCI_Update_def Let_def)

lemma reset_CCI: "CCI_Reset (CCI_Update c s) = CCI_Reset s"
  by (simp add: CCI_Reset_def CCI_Update_def Let_def)

lemma warmup_Aroon: "Aroon_Warmup (Aroon_Update c s) = Aroon_Warmup s"
  by (simp add: Aroon_Warmup_def Aroon_Update_def Let_def)

lemma reset_Aroon: "Aroon_Reset (Aroon_Update c s) = Aroon_Reset s"
  by (simp add: Aroon_Reset_def Aroon_Update_def Let_def)

lemma warmup_ADX: "ADX_Warmup (ADX_Update c s) = ADX_Warmup s"
  by (simp add: ADX_Warmup_def ADX_Update_def Let_def)

lemma reset_ADX: "ADX_Reset (ADX_Update c s) = ADX_Reset s"
  by (simp add: ADX_Reset_def ADX_Update_def Let_def)

lemma warmup_MFI: "MFI_Warmup (MFI_Update c s) = MFI_Warmup s"
  by (simp add: MFI_Warmup_def MFI_Update_def Let_def)

lemma reset_MFI: "MFI_Reset (MFI_Update c s) = MFI_Reset s"
  by (simp add: MFI_Reset_def MFI_Update_def Let_def)

lemma reset_OBV: "OBV_Reset (OBV_Update c s) = OBV_Reset s"
  by (simp add: OBV_Reset_def OBV_Update_def Let_def)

lemma reset_ADLine: "ADLine_Reset (ADLine_Update c s) = ADLine_Reset s"
  by (simp add: ADLine_Reset_def ADLine_Update_def Let_def)

lemma warmup_ChaikinOscillator: "ChaikinOscillator_Warmup (ChaikinOscillator_Update c s) = ChaikinOscillator_Warmup s"
  by (simp add: ChaikinOscillator_Warmup_def ChaikinOscillator_Update_def Let_def)

lemma reset_ChaikinOscillator: "ChaikinOscillator_Reset (ChaikinOscillator_Update c s) = ChaikinOscillator_Reset s"
  by (simp add: ChaikinOscillator_Reset_def ChaikinOscillator_Update_def Let_def)

lemma warmup_VolumeMA: "VolumeMA_Warmup (VolumeMA_Update c s) = VolumeMA_Warmup s"
  by (simp add: VolumeMA_Warmup_def VolumeMA_Update_def Let_def)

lemma reset_VolumeMA: "VolumeMA_Reset (VolumeMA_Update c s) = VolumeMA_Reset s"
  by (simp add: VolumeMA_Reset_def VolumeMA_Update_def Let_def)

lemma warmup_BollingerBands: "BollingerBands_Warmup (BollingerBands_Update c s) = BollingerBands_Warmup s"
  by (simp add: BollingerBands_Warmup_def BollingerBands_Update_def Let_def)

lemma reset_BollingerBands: "BollingerBands_Reset (BollingerBands_Update c s) = BollingerBands_Reset s"
  by (simp add: BollingerBands_Reset_def BollingerBands_Update_def Let_def)

lemma warmup_StdDev: "StdDev_Warmup (StdDev_Update c s) = StdDev_Warmup s"
  by (simp add: StdDev_Warmup_def StdDev_Update_def Let_def)

lemma reset_StdDev: "StdDev_Reset (StdDev_Update c s) = StdDev_Reset s"
  by (simp add: StdDev_Reset_def StdDev_Update_def Let_def)

lemma warmup_HistVol: "HistVol_Warmup (HistVol_Update c s) = HistVol_Warmup s"
  by (simp add: HistVol_Warmup_def HistVol_Update_def Let_def)

lemma reset_HistVol: "HistVol_Reset (HistVol_Update c s) = HistVol_Reset s"
  by (simp add: HistVol_Reset_def HistVol_Update_def Let_def)

lemma warmup_ATR: "ATR_Warmup (ATR_Update c s) = ATR_Warmup s"
  by (simp add: ATR_Warmup_def ATR_Update_def Let_def)

lemma reset_ATR: "ATR_Reset (ATR_Update c s) = ATR_Reset s"
  by (simp add: ATR_Reset_def ATR_Update_def Let_def)

lemma warmup_ChaikinVol: "ChaikinVol_Warmup (ChaikinVol_Update c s) = ChaikinVol_Warmup s"
  by (simp add: ChaikinVol_Warmup_def ChaikinVol_Update_def Let_def)

lemma reset_ChaikinVol: "ChaikinVol_Reset (ChaikinVol_Update c s) = ChaikinVol_Reset s"
  by (simp add: ChaikinVol_Reset_def ChaikinVol_Update_def Let_def)

lemma reset_ZigZag: "ZigZag_Reset (ZigZag_Update c s) = ZigZag_Reset s"
  by (simp add: ZigZag_Reset_def ZigZag_Update_def Let_def)

lemma warmup_Fractals: "Fractals_Warmup (Fractals_Update c s) = Fractals_Warmup s"
  by (simp add: Fractals_Warmup_def)

lemma reset_Fractals: "Fractals_Reset (Fractals_Update c s) = Fractals_Reset s"
  by (rule Fractals.equality) (simp_all add: Fractals_Reset_def)

lemma warmup_PivotPoints: "PivotPoints_Warmup (PivotPoints_Update c s) = PivotPoints_Warmup s"
  by (simp add: PivotPoints_Warmup_def PivotPoints_Update_def Let_def)

lemma reset_PivotPoints: "PivotPoints_Reset (PivotPoints_Update c s) = PivotPoints_Reset s"
  by (simp add: PivotPoints_Reset_def PivotPoints_Update_def Let_def)

lemmas warmup_updates =
  warmup_SMA
  warmup_EMA
  warmup_WMA
  warmup_DEMA
  warmup_TEMA
  warmup_HMA
  warmup_VWMA
  warmup_VWAP
  warmup_Keltner
  warmup_Donchian
  warmup_Ichimoku
  warmup_SuperTrend
  warmup_RSI
  warmup_Stochastic
  warmup_StochRSI
  warmup_MACD
  warmup_Momentum
  warmup_ROC
  warmup_WilliamsR
  warmup_CCI
  warmup_Aroon
  warmup_ADX
  warmup_MFI
  warmup_ChaikinOscillator
  warmup_VolumeMA
  warmup_BollingerBands
  warmup_StdDev
  warmup_HistVol
  warmup_ATR
  warmup_ChaikinVol
  warmup_Fractals
  warmup_PivotPoints

lemmas reset_updates =
  reset_SMA
  reset_EMA
  reset_WMA
  reset_DEMA
  reset_TEMA
  reset_HMA
  reset_VWMA
  reset_VWAP
  reset_Keltner
  reset_Donchian
  reset_Ichimoku
  reset_SuperTrend
  reset_ParabolicSAR
  reset_RSI
  reset_Stochastic
  reset_StochRSI
  reset_MACD
  reset_Momentum
  reset_ROC
  reset_WilliamsR
  reset_CCI
  reset_Aroon
  reset_ADX
  reset_MFI
  reset_OBV
  reset_ADLine
  reset_ChaikinOscillator
  reset_VolumeMA
  reset_BollingerBands
  reset_StdDev
  reset_HistVol
  reset_ATR
  reset_ChaikinVol
  reset_ZigZag
  reset_Fractals
  reset_PivotPoints

lemma aged_update: "aged n i \<Longrightarrow> aged (Suc n) (Update c i)"
  by (cases i)
    (simp_all only: Update.simps aged_SMA aged_EMA aged_WMA aged_DEMA aged_TEMA aged_HMA aged_VWMA
      aged_VWAP aged_Keltner aged_Donchian aged_Ichimoku aged_SuperTrend aged_ParabolicSAR aged_RSI
      aged_Stochastic aged_StochRSI aged_MACD aged_Momentum aged_ROC aged_WilliamsR aged_CCI aged_Aroon
      aged_ADX aged_MFI aged_OBV aged_ADLine aged_ChaikinOscillator aged_VolumeMA aged_BollingerBands
      aged_StdDev aged_HistVol aged_ATR aged_ChaikinVol aged_ZigZag aged_Fractals aged_PivotPoints)

lemma Warmup_update: "Warmup (Update c i) = Warmup i"
  by (cases i) (simp_all add: warmup_updates)

lemma Ready_aged: "aged n i \<Longrightarrow> Ready i \<longleftrightarrow> Warmup i < int n"
proof (cases i)
  case (IStochastic s)
  assume "aged n i"
  then show ?thesis unfolding IStochastic
    by (auto simp: Stochastic_Ready_def Stochastic_Warmup_def aged_simps delay_def)
next
  case (IRSI s)
  assume "aged n i"
  then show ?thesis unfolding IRSI using rsi_aged_ready [of n s]
    by (auto simp: RSI_Warmup_def rsi_aged_def)
qed (auto simp: ind_ready_defs ind_warmup_defs aged_simps delay_def rsi_aged_ready)

lemma Values_update: "aged n i \<Longrightarrow> length (Values (Update c i)) = length (Values i)"
  using aged_update [of n i c] by (cases i) auto

lemma Reset_update: "Reset (Update c i) = Reset i"
  by (cases i) (simp_all add: reset_updates)

interpretation ind: streaming_indicator Update aged Reset Values Ready Warmup
  by unfold_locales (simp_all add: aged_update Ready_aged Warmup_update Values_update Reset_update)

section \<open>New instances\<close>

text \<open>A freshly constructed indicator has seen nothing, and resetting it changes nothing.\<close>

definition fresh :: "indicator \<Rightarrow> bool" where
  "fresh i \<longleftrightarrow> aged 0 i \<and> Reset i = i"

lemma max_one_pos [simp]: "0 < max p (1 :: int)" "0 < 2 * max p (1 :: int) + 1"
  by simp_all

lemma fresh_SMA [simp]: "fresh (ISMA (NewSMA p s))"
  by (simp add: fresh_def NewSMA_def SMA_Reset_def aged_simps Let_def)

lemma fresh_EMA [simp]: "fresh (IEMA (NewEMA p s))"
  by (simp add: fresh_def NewEMA_def EMA_Reset_def aged_simps Let_def)

lemma fresh_WMA [simp]: "fresh (IWMA (NewWMA p s))"
  by (simp add: fresh_def NewWMA_def WMA_Reset_def aged_simps Let_def)

lemma fresh_DEMA [simp]: "fresh (IDEMA (NewDEMA p s))"
  by (simp add: fresh_def NewDEMA_def DEMA_Reset_def aged_simps Let_def)

lemma fresh_TEMA [simp]: "fresh (ITEMA (NewTEMA p s))"
  by (simp add: fresh_def NewTEMA_def TEMA_Reset_def aged_simps Let_def)

lemma fresh_HMA [simp]: "fresh (IHMA (NewHMA p s))"
  by (simp add: fresh_def NewHMA_def HMA_Reset_def aged_simps Let_def)

lemma fresh_VWMA [simp]: "fresh (IVWMA (NewVWMA p s))"
  by (simp add: fresh_def NewVWMA_def VWMA_Reset_def aged_simps Let_def)

lemma fresh_VWAP [simp]: "fresh (IVWAP (NewVWAP p))"
  by (simp add: fresh_def NewVWAP_def VWAP_Reset_def aged_simps Let_def)

lemma fresh_Keltner [simp]: "fresh (IKeltner (NewKeltner p m a))"
  by (simp add: fresh_def NewKeltner_def Keltner_Reset_def aged_simps Let_def)

lemma width_Keltner [simp]: "length (kelValues (NewKeltner p m a)) = 3"
  by (simp add: NewKeltner_def Let_def)

lemma fresh_Donchian [simp]: "fresh (IDonchian (NewDonchian p))"
  by (simp add: fresh_def NewDonchian_def Donchian_Reset_def aged_simps Let_def)

lemma width_Donchian [simp]: "length (donValues (NewDonchian p)) = 3"
  by (simp add: NewDonchian_def Let_def)

lemma fresh_Ichimoku [simp]: "fresh (IIchimoku (NewIchimoku t k s))"
  by (simp add: fresh_def NewIchimoku_def Ichimoku_Reset_def aged_simps Let_def)

lemma width_Ichimoku [simp]: "length (ichValues (NewIchimoku t k s)) = 5"
  by (simp add: NewIchimoku_def Let_def)

lemma fresh_SuperTrend [simp]: "fresh (ISuperTrend (NewSuperTrend p m))"
  by (simp add: fresh_def NewSuperTrend_def SuperTrend_Reset_def aged_simps Let_def)

lemma width_SuperTrend [simp]: "length (stValues (NewSuperTrend p m)) = 2"
  by (simp add: NewSuperTrend_def Let_def)

lemma fresh_ParabolicSAR [simp]: "fresh (IParabolicSAR (NewParabolicSAR a b))"
  by (simp add: fresh_def NewParabolicSAR_def ParabolicSAR_Reset_def aged_simps Let_def)

lemma width_ParabolicSAR [simp]: "length (psValues (NewParabolicSAR a b)) = 2"
  by (simp add: NewParabolicSAR_def Let_def)

lemma fresh_RSI [simp]: "fresh (IRSI (NewRSI p s))"
  by (simp add: fresh_def NewRSI_def RSI_Reset_def rsi_aged_def aged_simps Let_def)

lemma fresh_Stochastic [simp]: "fresh (IStochastic (NewStochastic k m d))"
  by (simp add: fresh_def NewStochastic_def Stochastic_Reset_def aged_simps Let_def)

lemma width_Stochastic [simp]: "length (stoValues (NewStochastic k m d)) = 2"
  by (simp add: NewStochastic_def Let_def)

lemma fresh_StochRSI [simp]: "fresh (IStochRSI (NewStochRSI p t k d s))"
  by (simp add: fresh_def NewStochRSI_def StochRSI_Reset_def rsi_aged_def NewRSI_def RSI_Reset_def aged_simps Let_def)

lemma width_StochRSI [simp]: "length (srValues (NewStochRSI p t k d s)) = 2"
  by (simp add: NewStochRSI_def Let_def)

lemma fresh_MACD [simp]: "fresh (IMACD (NewMACD f w g s))"
  by (simp add: fresh_def NewMACD_def MACD_Reset_def aged_simps Let_def)

lemma width_MACD [simp]: "length (macdValues (NewMACD f w g s)) = 3"
  by (simp add: NewMACD_def Let_def)

lemma fresh_Momentum [simp]: "fresh (IMomentum (NewMomentum p s))"
  by (simp add: fresh_def NewMomentum_def Momentum_Reset_def aged_simps Let_def)

lemma fresh_ROC [simp]: "fresh (IROC (NewROC p s))"
  by (simp add: fresh_def NewROC_def ROC_Reset_def aged_simps Let_def)

lemma fresh_WilliamsR [simp]: "fresh (IWilliamsR (NewWilliamsR p))"
  by (simp add: fresh_def NewWilliamsR_def WilliamsR_Reset_def aged_simps Let_def)

lemma fresh_CCI [simp]: "fresh (ICCI (NewCCI p))"
  by (simp add: fresh_def NewCCI_def CCI_Reset_def aged_simps Let_def)

lemma fresh_Aroon [simp]: "fresh (IAroon (NewAroon p))"
  by (simp add: fresh_def NewAroon_def Aroon_Reset_def aged_simps Let_def)

lemma width_Aroon [simp]: "length (aroValues (NewAroon p)) = 3"
  by (simp add: NewAroon_def Let_def)

lemma fresh_ADX [simp]: "fresh (IADX (NewADX p))"
  by (simp add: fresh_def NewADX_def ADX_Reset_def aged_simps Let_def)

lemma width_ADX [simp]: "length (adxValues (NewADX p)) = 3"
  by (simp add: NewADX_def Let_def)

lemma fresh_MFI [simp]: "fresh (IMFI (NewMFI p))"
  by (simp add: fresh_def NewMFI_def MFI_Reset_def aged_simps Let_def)

lemma fresh_OBV [simp]: "fresh (IOBV (NewOBV))"
  by (simp add: fresh_def NewOBV_def OBV_Reset_def aged_simps Let_def)

lemma fresh_ADLine [simp]: "fresh (IADLine (NewADLine))"
  by (simp add: fresh_def NewADLine_def ADLine_Reset_def aged_simps Let_def)

lemma fresh_ChaikinOscillator [simp]: "fresh (IChaikinOscillator (NewChaikinOscillator f w))"
  by (simp add: fresh_def NewChaikinOscillator_def ChaikinOscillator_Reset_def aged_simps Let_def)

lemma fresh_VolumeMA [simp]: "fresh (IVolumeMA (NewVolumeMA p))"
  by (simp add: fresh_def NewVolumeMA_def VolumeMA_Reset_def aged_simps Let_def)

lemma fresh_BollingerBands [simp]: "fresh (IBollingerBands (NewBollingerBands p m s))"
  by (simp add: fresh_def NewBollingerBands_def BollingerBands_Reset_def aged_simps Let_def)

lemma width_BollingerBands [simp]: "length (bbValues (NewBollingerBands p m s)) = 3"
  by (simp add: NewBollingerBands_def Let_def)

lemma fresh_StdDev [simp]: "fresh (IStdDev (NewStdDev p s))"
  by (simp add: fresh_def NewStdDev_def StdDev_Reset_def aged_simps Let_def)

lemma fresh_HistVol [simp]: "fresh (IHistVol (NewHistVol l p a s))"
  by (simp add: fresh_def NewHistVol_def HistVol_Reset_def aged_simps Let_def)

lemma fresh_ATR [simp]: "fresh (IATR (NewATR p))"
  by (simp add: fresh_def NewATR_def ATR_Reset_def aged_simps Let_def)

lemma fresh_ChaikinVol [simp]: "fresh (IChaikinVol (NewChaikinVol p c))"
  by (simp add: fresh_def NewChaikinVol_def ChaikinVol_Reset_def aged_simps Let_def)

lemma fresh_ZigZag [simp]: "fresh (IZigZag (NewZigZag d))"
  by (simp add: fresh_def NewZigZag_def ZigZag_Reset_def aged_simps Let_def)

lemma width_ZigZag [simp]: "length (zzValues (NewZigZag d)) = 2"
  by (simp add: NewZigZag_def Let_def)

lemma fresh_Fractals [simp]: "fresh (IFractals (NewFractals p))"
  by (simp add: fresh_def NewFractals_def Fractals_Reset_def aged_simps Let_def)

lemma width_Fractals [simp]: "length (frValues (NewFractals p)) = 2"
  by (simp add: NewFractals_def Let_def)

lemma fresh_PivotPoints [simp]: "fresh (IPivotPoints (NewPivotPoints p b))"
  by (simp add: fresh_def NewPivotPoints_def PivotPoints_Reset_def aged_simps Let_def)

lemma width_PivotPoints [simp]: "length (ppValues (NewPivotPoints p b)) = 7"
  by (simp add: NewPivotPoints_def Let_def)

lemma registry_new:
  "list_all (\<lambda>s. \<forall>p. fresh (spNew s p) \<and> length (Values (spNew s p)) = length (spOutputs s))
     (registry math_Log)"
  by (simp add: registry_def spec_defs)

lemma register_all_ok:
  "list_all (\<lambda>s. spec_validate s = None) ss \<Longrightarrow> distinct (map spName (specs @ ss)) \<Longrightarrow>
   register_all ss specs = Some (specs @ ss)"
  by (induction ss arbitrary: specs) (auto simp: Register_def)

lemma Lookup_distinct:
  "distinct (map spName specs) \<Longrightarrow> s \<in> set specs \<Longrightarrow> normal_name (spName s) = spName s \<Longrightarrow>
   Lookup specs (spName s) = Some s"
  by (induction specs) (auto simp: Lookup_def image_iff)

lemma rnd_not_less: "p \<le> q \<Longrightarrow> \<not> rnd q < rnd p"
  using rnd_mono [of p q] by (simp add: f64_not_less)

lemma fin_not_less_rnd: "rnd k = Fin k \<Longrightarrow> p \<le> k \<Longrightarrow> \<not> Fin k < rnd p"
  using rnd_not_less [of p k] by simp

lemma registry_names: "distinct (map spName (registry math_Log))"
  by (simp add: registry_def spec_defs)

lemma registry_valid: "list_all (\<lambda>s. spec_validate s = None) (registry math_Log)"
  by (simp add: registry_def spec_defs spec_validate_def normal_name_def trim_space_def lower_char_def is_space_def
      rnd_not_less fin_not_less_rnd rnd_numeral Let_def)

lemma registry_normal: "list_all (\<lambda>s. normal_name (spName s) = spName s) (registry math_Log)"
  using registry_valid by (rule list.pred_mono_strong) (auto simp: spec_validate_def split: if_splits)

text \<open>Building the catalogue never panics: every specification passes \<open>Spec.validate\<close> (a usable
  name, at least one output, parameters whose defaults lie within their bounds), no name is registered
  twice, and each name finds its specification again.\<close>

theorem catalogue_registers:
  "register_all (registry math_Log) [] = Some (registry math_Log)
   \<and> map (Lookup (registry math_Log)) (map spName (registry math_Log)) = map Some (registry math_Log)"
  using register_all_ok [OF registry_valid, of "[]"] registry_names registry_normal
  by (auto simp: list_all_iff intro: Lookup_distinct)

section \<open>\<open>Emit\<close> in closed form\<close>

definition emitted :: "indicator \<Rightarrow> icandle list \<Rightarrow> nat \<Rightarrow> emission" where
  "emitted i cs pos =
     (let w = nat (Warmup i)
      in if pos \<le> w then \<lparr>emStart = length cs, emValues = []\<rparr>
         else \<lparr>emStart = w,
               emValues = map (\<lambda>j. map (\<lambda>p. Values (Feed (take (Suc p) cs) i) ! j) [w..<pos])
                            [0..<length (Values i)]\<rparr>)"

lemma Warmup_nonneg: "aged 0 i \<Longrightarrow> 0 \<le> Warmup i"
  using Ready_aged [of 0 i] by (cases i) (auto simp: ind_warmup_defs ema_aged_def wma_aged_def rsi_aged_def)

lemma zip_columns:
  "length vs = k \<Longrightarrow>
   map (\<lambda>(column, v). column @ [v]) (zip (map f [0..<k]) vs) = map (\<lambda>j. f j @ [vs ! j]) [0..<k]"
  by (rule nth_equalityI) simp_all

lemma emit_step:
  assumes "aged 0 i" and "pos < length cs"
  defines "r \<equiv> emitted i cs pos" and "j \<equiv> Feed (take (Suc pos) cs) i"
  shows "(if \<not> Ready j then r
          else (let r1 = (if pos < emStart r then \<lparr>emStart = pos, emValues = map (\<lambda>_. []) (Values j)\<rparr> else r)
                in r1\<lparr>emValues := map (\<lambda>(column, v). column @ [v]) (zip (emValues r1) (Values j))\<rparr>))
         = emitted i cs (Suc pos)"
proof -
  let ?w = "nat (Warmup i)" and ?k = "length (Values i)"
  let ?f = "\<lambda>p j. Values (Feed (take (Suc p) cs) i) ! j"
  have len: "length (Values j) = ?k"
    unfolding j_def Feed_def by (rule ind.width_run [OF assms(1)])
  have "Ready j \<longleftrightarrow> Warmup i < int (Suc pos)"
    unfolding j_def Feed_def using ind.rdy_run [OF assms(1), of "take (Suc pos) cs"] assms(2) by simp
  then have ready: "Ready j \<longleftrightarrow> ?w \<le> pos" using Warmup_nonneg [OF assms(1)] by linarith
  consider "pos < ?w" | "pos = ?w" | "?w < pos" by linarith
  then show ?thesis
  proof cases
    case 1
    then show ?thesis using ready by (simp add: r_def emitted_def)
  next
    case 2
    have "map (\<lambda>_. [] :: f64 list) (Values j) = map (\<lambda>_. []) [0..<?k]" using len by (simp add: map_replicate_const)
    then show ?thesis using 2 ready assms(2) zip_columns [OF len, of "\<lambda>_. []"]
      by (simp add: r_def emitted_def j_def Let_def)
  next
    case 3
    then show ?thesis using ready zip_columns [OF len, of "\<lambda>j. map (\<lambda>p. ?f p j) [?w..<pos]"]
      by (simp add: r_def emitted_def j_def Let_def)
  qed
qed

lemma emit_loop_closed:
  assumes "aged 0 i"
  shows "cs = past @ rest \<Longrightarrow>
    emit_loop (length past) (Feed past i) (emitted i cs (length past)) rest
    = (Feed cs i, emitted i cs (length cs))"
proof (induction rest arbitrary: past)
  case (Cons c rest)
  have t: "take (Suc (length past)) cs = past @ [c]" and l: "length past < length cs"
    using Cons.prems by simp_all
  have u: "Update c (Feed past i) = Feed (past @ [c]) i" by (simp add: Feed_def)
  show ?case
    using emit_step [OF assms l] Cons.IH [of "past @ [c]"] Cons.prems
    by (simp add: Let_def u t split: if_splits)
qed simp

lemma Emit_closed: "aged 0 i \<Longrightarrow> Emit i cs = (Feed cs i, emitted i cs (length cs))"
  using emit_loop_closed [of i cs "[]" cs] by (simp add: Emit_def Feed_def emitted_def)

lemma Lookup_in: "Lookup specs name = Some s \<Longrightarrow> s \<in> set specs"
  by (simp add: Lookup_def find_Some_iff) force

lemma New_fresh:
  assumes "New (registry math_Log) name values src = Inr inst"
  shows "fresh (inIndicator inst)" and "length (Values (inIndicator inst)) = length (spOutputs (inSpec inst))"
proof -
  obtain s p where "s \<in> set (registry math_Log)" "inIndicator inst = spNew s p" "inSpec inst = s"
    using assms by (auto simp: New_def split: option.splits sum.splits dest!: Lookup_in)
  then show "fresh (inIndicator inst)" and "length (Values (inIndicator inst)) = length (spOutputs (inSpec inst))"
    using registry_new [of math_Log] by (auto simp: list_all_iff)
qed

text \<open>C20: what \<open>Compute\<close> returns for any instance the registry can build, whatever the instance was fed
  before: it starts at the indicator's \<open>Warmup\<close> (or at the end of a shorter series), has one column per
  declared output, and the value of a column at a bar is the one the freshly built indicator shows after
  that bar. So \<open>Reset\<close> forgets the past entirely and \<open>Warmup\<close> is exact for all 37 catalogue entries.\<close>

theorem compute_of_any_instance:
  "case New (registry math_Log) name values src of
     Inl e \<Rightarrow> True
   | Inr inst \<Rightarrow>
       (let i = inIndicator inst; w = nat (Warmup i)
        in Compute (Feed past i) cs =
             (Feed cs i,
              if length cs \<le> w then \<lparr>emStart = length cs, emValues = []\<rparr>
              else \<lparr>emStart = w,
                    emValues = map (\<lambda>j. map (\<lambda>p. Values (Feed (take (Suc p) cs) i) ! j) [w..<length cs])
                                 [0..<length (spOutputs (inSpec inst))]\<rparr>))"
proof (cases "New (registry math_Log) name values src")
  case (Inr inst)
  have f: "aged 0 (inIndicator inst)" "Reset (inIndicator inst) = inIndicator inst"
    using New_fresh(1) [OF Inr] by (simp_all add: fresh_def)
  have "Reset (Feed past (inIndicator inst)) = inIndicator inst"
    unfolding Feed_def by (simp add: ind.reset_run f)
  then show ?thesis
    using Emit_closed [OF f(1), of cs] New_fresh(2) [OF Inr] Inr
    by (simp add: Compute_def emitted_def Let_def)
qed simp

end
