(* ===== verification/Rules.thy ===== *)
theory Rules
  imports Strategy_Spec
begin

text \<open>
  Compiled rules and their evaluation (internal/strategy/eval.go). A \<open>Frame\<close> is the pair of lookups
  a rule reads, each of them possibly without an answer; \<open>Eval\<close>'s pair of a value and a \<open>known\<close> flag
  is a \<open>bool option\<close>, \<open>None\<close> when the verdict is unknown. The lemmas show that the two early-exit
  loops compute the strong Kleene connectives, that more information never turns a verdict around,
  and that \<open>depth\<close> bounds how far back a rule reads.
\<close>

record frame =
  fr_slot :: "int \<Rightarrow> int \<Rightarrow> f64 option"
  fr_field :: "price_field \<Rightarrow> int \<Rightarrow> f64 option"

record rterm =
  tKind :: operand_kind
  tSlot :: int
  tField :: price_field
  tValue :: f64
  tBack :: int

datatype rule =
    AllRule "rule list"
  | AnyRule "rule list"
  | NotRule rule
  | CompareRule comparator "rterm list" int

definition term_at :: "frame \<Rightarrow> rterm \<Rightarrow> int \<Rightarrow> f64 option" where
  "term_at f t extra =
     (case tKind t of
        OperandLiteral \<Rightarrow> Some (tValue t)
      | OperandField \<Rightarrow> fr_field f (tField t) (tBack t + extra)
      | OperandInput \<Rightarrow> fr_slot f (tSlot t) (tBack t + extra))"

definition eval_epsilon :: f64 where
  "eval_epsilon = rnd (1 / 10 ^ 9)"

definition nearly :: "f64 \<Rightarrow> f64 \<Rightarrow> bool" where
  "nearly a b =
     (let diff = \<bar>a - b\<bar>
      in if diff \<le> eval_epsilon then True else diff \<le> eval_epsilon * math_Max \<bar>a\<bar> \<bar>b\<bar>)"

definition rule_cross :: "frame \<Rightarrow> comparator \<Rightarrow> rterm list \<Rightarrow> bool option" where
  "rule_cross f op ts =
     (case term_at f (ts ! 0) 0 of None \<Rightarrow> None | Some now \<Rightarrow>
      case term_at f (ts ! 1) 0 of None \<Rightarrow> None | Some against \<Rightarrow>
      case term_at f (ts ! 0) 1 of None \<Rightarrow> None | Some before \<Rightarrow>
      case term_at f (ts ! 1) 1 of None \<Rightarrow> None | Some againstBefore \<Rightarrow>
        if op = OpCrossesAbove then Some (now > against \<and> before \<le> againstBefore)
        else Some (now < against \<and> before \<ge> againstBefore))"

fun trend_from :: "frame \<Rightarrow> comparator \<Rightarrow> rterm \<Rightarrow> nat list \<Rightarrow> bool option" where
  "trend_from f op t [] = Some True"
| "trend_from f op t (i # is) =
     (case term_at f t (int i) of None \<Rightarrow> None | Some now \<Rightarrow>
      case term_at f t (int i + 1) of None \<Rightarrow> None | Some before \<Rightarrow>
        let rose = (if op = OpFalling then now < before else now > before)
        in if \<not> rose then Some False else trend_from f op t is)"

definition rule_trend :: "frame \<Rightarrow> comparator \<Rightarrow> rterm list \<Rightarrow> int \<Rightarrow> bool option" where
  "rule_trend f op ts bars = trend_from f op (ts ! 0) [0..<nat bars]"

definition rule_span :: "frame \<Rightarrow> rterm list \<Rightarrow> bool option" where
  "rule_span f ts =
     (case term_at f (ts ! 0) 0 of None \<Rightarrow> None | Some v \<Rightarrow>
      case term_at f (ts ! 1) 0 of None \<Rightarrow> None | Some low \<Rightarrow>
      case term_at f (ts ! 2) 0 of None \<Rightarrow> None | Some high \<Rightarrow> Some (v \<ge> low \<and> v \<le> high))"

definition rule_compare :: "frame \<Rightarrow> comparator \<Rightarrow> rterm list \<Rightarrow> int \<Rightarrow> bool option" where
  "rule_compare f op ts bars =
     (if op \<in> {OpRising, OpFalling} then rule_trend f op ts bars
      else if op \<in> {OpCrossesAbove, OpCrossesBelow} then rule_cross f op ts
      else if op = OpBetween then rule_span f ts
      else
        case term_at f (ts ! 0) 0 of None \<Rightarrow> None | Some left \<Rightarrow>
        case term_at f (ts ! 1) 0 of None \<Rightarrow> None | Some right \<Rightarrow>
          (case op of
             OpGT \<Rightarrow> Some (left > right)
           | OpLT \<Rightarrow> Some (left < right)
           | OpGTE \<Rightarrow> Some (left \<ge> right)
           | OpLTE \<Rightarrow> Some (left \<le> right)
           | OpEQ \<Rightarrow> Some (nearly left right)
           | _ \<Rightarrow> None))"

text \<open>The loops of \<open>allRule.Eval\<close> and \<open>anyRule.Eval\<close> carry the flag \<open>settled\<close> and stop at the first
  operand that decides the verdict.\<close>

fun eval :: "frame \<Rightarrow> rule \<Rightarrow> bool option"
  and eval_all :: "frame \<Rightarrow> bool \<Rightarrow> rule list \<Rightarrow> bool option"
  and eval_any :: "frame \<Rightarrow> bool \<Rightarrow> rule list \<Rightarrow> bool option" where
  "eval f (AllRule rs) = eval_all f True rs"
| "eval f (AnyRule rs) = eval_any f True rs"
| "eval f (NotRule r) = (case eval f r of None \<Rightarrow> None | Some v \<Rightarrow> Some (\<not> v))"
| "eval f (CompareRule op ts bars) = rule_compare f op ts bars"
| "eval_all f settled [] = (if \<not> settled then None else Some True)"
| "eval_all f settled (r # rs) =
     (case eval f r of
        Some False \<Rightarrow> Some False
      | None \<Rightarrow> eval_all f False rs
      | Some True \<Rightarrow> eval_all f settled rs)"
| "eval_any f settled [] = (if \<not> settled then None else Some False)"
| "eval_any f settled (r # rs) =
     (case eval f r of
        Some True \<Rightarrow> Some True
      | None \<Rightarrow> eval_any f False rs
      | Some False \<Rightarrow> eval_any f settled rs)"

definition compare_depth :: "comparator \<Rightarrow> rterm list \<Rightarrow> int \<Rightarrow> int" where
  "compare_depth op ts bars =
     (let extra = (if op \<in> {OpCrossesAbove, OpCrossesBelow} then 1
                   else if op \<in> {OpRising, OpFalling} then bars else 0)
      in fold (\<lambda>t deep. if tKind t \<noteq> OperandLiteral then max deep (tBack t + extra) else deep) ts 0)"

fun depth :: "rule \<Rightarrow> int" and deepest :: "int \<Rightarrow> rule list \<Rightarrow> int" where
  "depth (AllRule rs) = deepest 0 rs"
| "depth (AnyRule rs) = deepest 0 rs"
| "depth (NotRule r) = depth r"
| "depth (CompareRule op ts bars) = compare_depth op ts bars"
| "deepest deep [] = deep"
| "deepest deep (r # rs) = deepest (max deep (depth r)) rs"

definition depthOf :: "rule option \<Rightarrow> int" where
  "depthOf r = (case r of None \<Rightarrow> 0 | Some r \<Rightarrow> depth r)"

definition fires :: "rule option \<Rightarrow> frame \<Rightarrow> bool" where
  "fires r f = (case r of None \<Rightarrow> False | Some r \<Rightarrow> (case eval f r of None \<Rightarrow> False | Some v \<Rightarrow> v))"

text \<open>The shape the compiler gives every comparison: enough terms for its operator.\<close>

definition terms_needed :: "comparator \<Rightarrow> nat" where
  "terms_needed op = (case op of OpRising \<Rightarrow> 1 | OpFalling \<Rightarrow> 1 | OpBetween \<Rightarrow> 3 | _ \<Rightarrow> 2)"

fun wf_rule :: "rule \<Rightarrow> bool" where
  "wf_rule (AllRule rs) \<longleftrightarrow> list_all wf_rule rs"
| "wf_rule (AnyRule rs) \<longleftrightarrow> list_all wf_rule rs"
| "wf_rule (NotRule r) \<longleftrightarrow> wf_rule r"
| "wf_rule (CompareRule op ts bars) \<longleftrightarrow> terms_needed op \<le> length ts"

section \<open>The connectives\<close>

definition kleene_all :: "bool option list \<Rightarrow> bool option" where
  "kleene_all vs = (if Some False \<in> set vs then Some False else if None \<in> set vs then None else Some True)"

definition kleene_any :: "bool option list \<Rightarrow> bool option" where
  "kleene_any vs = (if Some True \<in> set vs then Some True else if None \<in> set vs then None else Some False)"

lemma eval_all_kleene:
  "eval_all f settled rs =
     (let v = kleene_all (map (eval f) rs) in if v = Some True \<and> \<not> settled then None else v)"
  by (induction rs arbitrary: settled)
    (auto simp: kleene_all_def Let_def split: option.splits bool.splits)

lemma eval_any_kleene:
  "eval_any f settled rs =
     (let v = kleene_any (map (eval f) rs) in if v = Some False \<and> \<not> settled then None else v)"
  by (induction rs arbitrary: settled)
    (auto simp: kleene_any_def Let_def split: option.splits bool.splits)

lemma eval_AllRule: "eval f (AllRule rs) = kleene_all (map (eval f) rs)"
  by (simp add: eval_all_kleene Let_def)

lemma eval_AnyRule: "eval f (AnyRule rs) = kleene_any (map (eval f) rs)"
  by (simp add: eval_any_kleene Let_def)

lemma kleene_dual: "kleene_any (map (map_option HOL.Not) vs) = map_option HOL.Not (kleene_all vs)"
proof -
  have "map_option HOL.Not v = Some True \<longleftrightarrow> v = Some False" for v by (cases v) auto
  then have "Some True \<in> map_option HOL.Not ` set vs \<longleftrightarrow> Some False \<in> set vs"
    by (metis image_iff option.simps(9) not_False_eq_True)
  moreover have "None \<in> map_option HOL.Not ` set vs \<longleftrightarrow> None \<in> set vs" by (auto simp: image_iff)
  ultimately show ?thesis by (simp add: kleene_all_def kleene_any_def)
qed

lemma eval_NotRule: "eval f (NotRule r) = map_option HOL.Not (eval f r)"
  by (simp split: option.splits)

text \<open>C21: the early-exit loops of \<open>all\<close> and \<open>any\<close> compute the strong Kleene connectives, whatever the
  order of the operands: \<open>all\<close> is false as soon as one operand is known false, unknown when none is
  false and one is unknown, true otherwise; \<open>any\<close> dually; and a negated \<open>all\<close> is the \<open>any\<close> of the
  negations.\<close>

theorem connectives_are_kleene:
  "eval f (AllRule rs) = kleene_all (map (eval f) rs)
   \<and> eval f (AnyRule rs) = kleene_any (map (eval f) rs)
   \<and> eval f (NotRule (AllRule rs)) = eval f (AnyRule (map NotRule rs))"
proof -
  have "map (eval f) (map NotRule rs) = map (map_option HOL.Not) (map (eval f) rs)"
    by (simp add: eval_NotRule del: eval.simps)
  then show ?thesis
    by (simp only: eval_AllRule eval_AnyRule eval_NotRule kleene_dual)
qed

section \<open>Information\<close>

text \<open>\<open>g\<close> knows whatever \<open>f\<close> knows.\<close>

definition frame_le :: "frame \<Rightarrow> frame \<Rightarrow> bool" where
  "frame_le f g \<longleftrightarrow>
     (\<forall>s b. fr_slot f s b \<noteq> None \<longrightarrow> fr_slot g s b = fr_slot f s b) \<and>
     (\<forall>p b. fr_field f p b \<noteq> None \<longrightarrow> fr_field g p b = fr_field f p b)"

lemma term_at_mono: "frame_le f g \<Longrightarrow> term_at f t e = Some v \<Longrightarrow> term_at g t e = Some v"
  by (cases "tKind t") (simp_all add: frame_le_def term_at_def)

lemma trend_mono: "frame_le f g \<Longrightarrow> trend_from f op t is = Some v \<Longrightarrow> trend_from g op t is = Some v"
  by (induction "is") (auto simp: Let_def term_at_mono split: option.splits if_splits)

lemma compare_mono:
  assumes "frame_le f g" and "rule_compare f op ts bars = Some v"
  shows "rule_compare g op ts bars = Some v"
  using assms(2) term_at_mono [OF assms(1)] trend_mono [OF assms(1)]
  by (auto simp: rule_compare_def rule_cross_def rule_span_def rule_trend_def
      split: option.splits if_splits comparator.splits)

lemma kleene_all_mono:
  assumes "\<And>r v. r \<in> set rs \<Longrightarrow> e r = Some v \<Longrightarrow> e' r = Some v" and "kleene_all (map e rs) = Some v"
  shows "kleene_all (map e' rs) = Some v"
proof (cases "Some False \<in> set (map e rs)")
  case True
  then have "Some False \<in> set (map e' rs)" using assms(1) by (auto simp: image_iff) metis
  with True assms(2) show ?thesis by (simp add: kleene_all_def)
next
  case False
  with assms(2) have n: "None \<notin> set (map e rs)" and v: "v = True"
    by (auto simp: kleene_all_def split: if_splits)
  have "e' r = Some True" if "r \<in> set rs" for r
    using that False n assms(1) [OF that, of True] by (cases "e r") (force simp: image_iff)+
  then show ?thesis using v by (auto simp: kleene_all_def)
qed

lemma kleene_any_mono:
  assumes "\<And>r v. r \<in> set rs \<Longrightarrow> e r = Some v \<Longrightarrow> e' r = Some v" and "kleene_any (map e rs) = Some v"
  shows "kleene_any (map e' rs) = Some v"
proof (cases "Some True \<in> set (map e rs)")
  case True
  then have "Some True \<in> set (map e' rs)" using assms(1) by (auto simp: image_iff) metis
  with True assms(2) show ?thesis by (simp add: kleene_any_def)
next
  case False
  with assms(2) have n: "None \<notin> set (map e rs)" and v: "v = False"
    by (auto simp: kleene_any_def split: if_splits)
  have "e' r = Some False" if "r \<in> set rs" for r
    using that False n assms(1) [OF that, of False] by (cases "e r") (force simp: image_iff)+
  then show ?thesis using v by (auto simp: kleene_any_def)
qed

lemma eval_mono:
  assumes "frame_le f g"
  shows "eval f r = Some v \<Longrightarrow> eval g r = Some v"
proof (induction r arbitrary: v)
  case (AllRule rs)
  then show ?case by (simp only: eval_AllRule) (rule kleene_all_mono)
next
  case (AnyRule rs)
  then show ?case by (simp only: eval_AnyRule) (rule kleene_any_mono)
next
  case (NotRule r)
  then show ?case by (auto simp: eval_NotRule simp del: eval.simps)
next
  case (CompareRule op ts bars)
  then show ?case using compare_mono [OF assms] by simp
qed

text \<open>C29: information is monotone: a verdict a rule reaches on a frame it also reaches on every frame
  that knows at least as much, so an indicator that becomes ready can turn an unknown verdict into a
  known one but never a known verdict around.\<close>

theorem verdict_never_turns:
  assumes "frame_le f g" and "eval f r = Some v"
  shows "eval g r = Some v"
  using assms by (rule eval_mono)

lemma verdict_never_turns_witness:
  "eval \<lparr>fr_slot = \<lambda>_ _. Some (Fin 1), fr_field = \<lambda>_ _. Some (Fin 7)\<rparr>
     (AnyRule [CompareRule OpGT [\<lparr>tKind = OperandField, tSlot = -1, tField = FieldVolume, tValue = 0, tBack = 0\<rparr>,
                                 \<lparr>tKind = OperandLiteral, tSlot = -1, tField = FieldVolume, tValue = Fin 5, tBack = 0\<rparr>] 1,
               CompareRule OpRising [\<lparr>tKind = OperandInput, tSlot = 0, tField = FieldVolume, tValue = 0, tBack = 0\<rparr>] 2])
   = Some True"
  by (rule verdict_never_turns [of "\<lparr>fr_slot = \<lambda>_ _. None, fr_field = \<lambda>_ _. Some (Fin 7)\<rparr>"])
    (simp_all add: frame_le_def rule_compare_def term_at_def)

section \<open>Depth\<close>

text \<open>The frame that answers only up to \<open>d\<close> bars back.\<close>

definition cut_frame :: "int \<Rightarrow> frame \<Rightarrow> frame" where
  "cut_frame d f =
     \<lparr>fr_slot = \<lambda>s b. if b \<le> d then fr_slot f s b else None,
      fr_field = \<lambda>p b. if b \<le> d then fr_field f p b else None\<rparr>"

lemma deepest_ge: "deep \<le> deepest deep rs \<and> (\<forall>r\<in>set rs. depth r \<le> deepest deep rs)"
proof (induction rs arbitrary: deep)
  case (Cons r rs)
  have "deep \<le> max deep (depth r)" and "depth r \<le> max deep (depth r)" by simp_all
  then show ?case using Cons [of "max deep (depth r)"] by (auto intro: order_trans)
qed simp

lemma depth_fold_ge:
  fixes g :: "rterm \<Rightarrow> int"
  shows "deep \<le> fold (\<lambda>t d. if p t then max d (g t) else d) ts deep
   \<and> (\<forall>t\<in>set ts. p t \<longrightarrow> g t \<le> fold (\<lambda>t d. if p t then max d (g t) else d) ts deep)"
proof (induction ts arbitrary: deep)
  case Nil
  then show ?case by simp
next
  case (Cons t ts)
  have a: "deep \<le> (if p t then max deep (g t) else deep)" and b: "p t \<Longrightarrow> g t \<le> (if p t then max deep (g t) else deep)"
    by auto
  show ?case using Cons [of "if p t then max deep (g t) else deep"] a b by fastforce
qed

lemma term_at_cut:
  assumes "tKind t \<noteq> OperandLiteral \<Longrightarrow> tBack t + e \<le> d"
  shows "term_at (cut_frame d f) t e = term_at f t e"
  using assms by (cases "tKind t") (auto simp: term_at_def cut_frame_def)

lemma compare_depth_ge:
  assumes "t \<in> set ts" and "tKind t \<noteq> OperandLiteral"
  shows "tBack t + (if op \<in> {OpCrossesAbove, OpCrossesBelow} then 1
           else if op \<in> {OpRising, OpFalling} then bars else 0) \<le> compare_depth op ts bars"
  using depth_fold_ge [where p = "\<lambda>t. tKind t \<noteq> OperandLiteral" and ts = ts and deep = 0
      and g = "\<lambda>t. tBack t + (if op \<in> {OpCrossesAbove, OpCrossesBelow} then 1
                else if op \<in> {OpRising, OpFalling} then bars else 0)"] assms
  unfolding compare_depth_def Let_def by blast

lemma trend_cut:
  assumes "\<forall>i\<in>set is. tKind t \<noteq> OperandLiteral \<longrightarrow> tBack t + int i + 1 \<le> d"
  shows "trend_from (cut_frame d f) op t is = trend_from f op t is"
  using assms
proof (induction "is")
  case (Cons i "is")
  have "term_at (cut_frame d f) t (int i) = term_at f t (int i)"
    and "term_at (cut_frame d f) t (int i + 1) = term_at f t (int i + 1)"
    using Cons.prems by (auto intro!: term_at_cut)
  moreover have "trend_from (cut_frame d f) op t is = trend_from f op t is"
    using Cons by simp
  ultimately show ?case by (simp only: trend_from.simps)
qed simp

lemma compare_cut:
  assumes wf: "terms_needed op \<le> length ts" and d: "compare_depth op ts bars \<le> d"
  shows "rule_compare (cut_frame d f) op ts bars = rule_compare f op ts bars"
proof -
  have at: "term_at (cut_frame d f) (ts ! n) e = term_at f (ts ! n) e"
    if "n < length ts" "e \<le> (if op \<in> {OpCrossesAbove, OpCrossesBelow} then 1
         else if op \<in> {OpRising, OpFalling} then bars else 0)" for n e
    using compare_depth_ge [of "ts ! n" ts op bars] that d by (intro term_at_cut) (auto split: if_splits)
  consider (trend) "op \<in> {OpRising, OpFalling}" | (cross) "op \<in> {OpCrossesAbove, OpCrossesBelow}"
    | (between) "op = OpBetween" | (plain) "op \<in> {OpGT, OpLT, OpGTE, OpLTE, OpEQ}"
    by (cases op) auto
  then show ?thesis
  proof cases
    case trend
    then have "0 < length ts" using wf by (auto simp: terms_needed_def)
    then have "ts ! 0 \<in> set ts" by (rule nth_mem)
    then have "trend_from (cut_frame d f) op (ts ! 0) [0..<nat bars] = trend_from f op (ts ! 0) [0..<nat bars]"
      using compare_depth_ge [of "ts ! 0" ts op bars] d trend by (intro trend_cut) auto
    then show ?thesis using trend by (auto simp: rule_compare_def rule_trend_def)
  next
    case cross
    then have "0 < length ts" "1 < length ts" using wf by (auto simp: terms_needed_def)
    then show ?thesis using cross at [of 0 0] at [of 0 1] at [of 1 0] at [of 1 1]
      by (auto simp: rule_compare_def rule_cross_def simp del: One_nat_def cong: option.case_cong)
  next
    case between
    then have "0 < length ts" "1 < length ts" "2 < length ts" using wf by (auto simp: terms_needed_def)
    then show ?thesis using between at [of 0 0] at [of 1 0] at [of 2 0]
      by (simp add: rule_compare_def rule_span_def del: One_nat_def cong: option.case_cong)
  next
    case plain
    then have "0 < length ts" "1 < length ts" using wf by (auto simp: terms_needed_def)
    then show ?thesis using plain at [of 0 0] at [of 1 0]
      by (auto simp: rule_compare_def simp del: One_nat_def cong: option.case_cong)
  qed
qed

lemma eval_cut: "wf_rule r \<Longrightarrow> depth r \<le> d \<Longrightarrow> eval (cut_frame d f) r = eval f r"
proof (induction r)
  case (AllRule rs)
  then have "map (eval (cut_frame d f)) rs = map (eval f) rs"
    using deepest_ge [of 0 rs] by (auto simp: list_all_iff)
  then show ?case by (simp only: eval_AllRule)
next
  case (AnyRule rs)
  then have "map (eval (cut_frame d f)) rs = map (eval f) rs"
    using deepest_ge [of 0 rs] by (auto simp: list_all_iff)
  then show ?case by (simp only: eval_AnyRule)
next
  case (NotRule r)
  then show ?case by simp
next
  case (CompareRule op ts bars)
  then show ?case by (simp add: compare_cut)
qed

text \<open>C30: \<open>depth\<close> bounds how far back a rule reads: cutting the frame off \<open>depth\<close> bars back changes no
  verdict, so a history of \<open>depth + 1\<close> bars is enough to evaluate it.\<close>

theorem depth_bounds_reads:
  assumes "wf_rule r"
  shows "eval (cut_frame (depth r) f) r = eval f r"
  using assms by (intro eval_cut) simp_all

lemma depth_bounds_reads_witness:
  "eval (cut_frame 3 \<lparr>fr_slot = \<lambda>s b. if b < 10 then Some (Fin (10 - of_int b)) else None, fr_field = \<lambda>_ _. None\<rparr>)
     (CompareRule OpRising [\<lparr>tKind = OperandInput, tSlot = 0, tField = FieldVolume, tValue = 0, tBack = 1\<rparr>] 2)
   = Some True"
proof -
  let ?r = "CompareRule OpRising [\<lparr>tKind = OperandInput, tSlot = 0, tField = FieldVolume, tValue = 0, tBack = 1\<rparr>] 2"
  have d: "depth ?r = 3" by (simp add: compare_depth_def)
  show ?thesis
    using depth_bounds_reads [of ?r "\<lparr>fr_slot = \<lambda>s b. if b < 10 then Some (Fin (10 - of_int b)) else None, fr_field = \<lambda>_ _. None\<rparr>"]
    unfolding d by (simp add: terms_needed_def rule_compare_def rule_trend_def term_at_def upt_rec)
qed

end
