(* ===== verification/Tape.thy ===== *)
theory Tape
  imports Compile
begin

text \<open>
  The tape (\<open>Tape\<close> in internal/strategy/eval.go): the last \<open>size\<close> bars and, for every slot of the
  plan, its last \<open>size\<close> values in circular buffers. The units' indicators, which the Go tape reaches
  through its plan, are the field \<open>tpUnits\<close>. The tape refines the unbounded history: the pure function
  \<open>history\<close> computes every slot's value at every bar from the candles alone, and the tape answers what
  that history answers, cut off at its size.
\<close>

record tape =
  tpUnits :: "unit_t list"
  tpSlots :: "slot list"
  tpIndex :: "string \<rightharpoonup> nat"
  tpSize :: int
  tpAt :: int
  tpFilled :: int
  tpBars :: "icandle list"
  tpValues :: "f64 list list"

definition reset_unit :: "unit_t \<Rightarrow> unit_t" where
  "reset_unit u = u\<lparr>uInstance := (uInstance u)\<lparr>inIndicator := Reset (inIndicator (uInstance u))\<rparr>\<rparr>"

definition NewTape :: "plan \<Rightarrow> tape" where
  "NewTape p =
     (let n = max (plDepth p + 1) 2
      in \<lparr>tpUnits = map reset_unit (plUnits p), tpSlots = plSlots p, tpIndex = plIndex p, tpSize = n,
          tpAt = - 1, tpFilled = 0, tpBars = replicate (nat n) zero_icandle,
          tpValues = replicate (length (plSlots p)) (replicate (nat n) 0)\<rparr>)"

text \<open>\<open>index\<close> spells out a non-negative remainder, \<open>((at - back) % size + size) % size\<close>.\<close>

definition tape_index :: "tape \<Rightarrow> int \<Rightarrow> nat" where
  "tape_index t back = nat ((tpAt t - back) mod tpSize t)"

definition reachable :: "tape \<Rightarrow> int \<Rightarrow> bool" where
  "reachable t back \<longleftrightarrow> back \<ge> 0 \<and> back < tpSize t \<and> back < tpFilled t"

definition known_value :: "f64 \<Rightarrow> f64 option" where
  "known_value v = (if v = NaN then None else Some v)"

definition tape_slot :: "tape \<Rightarrow> int \<Rightarrow> int \<Rightarrow> f64 option" where
  "tape_slot t slot back =
     (if slot < 0 \<or> slot \<ge> int (length (tpValues t)) \<or> \<not> reachable t back then None
      else known_value (tpValues t ! nat slot ! tape_index t back))"

definition tape_field :: "tape \<Rightarrow> price_field \<Rightarrow> int \<Rightarrow> f64 option" where
  "tape_field t f back =
     (if \<not> reachable t back then None else Some (field_value f (tpBars t ! tape_index t back)))"

definition tape_candle :: "tape \<Rightarrow> icandle option" where
  "tape_candle t = (if tpFilled t = 0 then None else Some (tpBars t ! nat (tpAt t)))"

definition tape_value :: "tape \<Rightarrow> string \<Rightarrow> f64 option" where
  "tape_value t name = (case tpIndex t name of None \<Rightarrow> None | Some s \<Rightarrow> tape_slot t (int s) 0)"

definition frame_of :: "tape \<Rightarrow> frame" where
  "frame_of t = \<lparr>fr_slot = tape_slot t, fr_field = tape_field t\<rparr>"

definition tape_entry :: "leg \<Rightarrow> tape \<Rightarrow> bool" where
  "tape_entry l t = fires (lgEntry l) (frame_of t)"

definition tape_exit :: "leg \<Rightarrow> tape \<Rightarrow> bool" where
  "tape_exit l t = fires (lgExit l) (frame_of t)"

definition put :: "nat \<Rightarrow> f64 \<Rightarrow> tape \<Rightarrow> tape" where
  "put s v t = t\<lparr>tpValues := (tpValues t)[s := (tpValues t ! s)[nat (tpAt t) := v]]\<rparr>"

definition blank :: "unit_t \<Rightarrow> tape \<Rightarrow> tape" where
  "blank u t = fold (\<lambda>s. put s NaN) (uSlots u) t"

text \<open>The candle a unit reads when it is fed by another unit's slot.\<close>

definition feed_candle :: "icandle \<Rightarrow> f64 \<Rightarrow> icandle" where
  "feed_candle c v = \<lparr>iTS = iTS c, iOpen = v, iHigh = v, iLow = v, iClose = v, iVolume = iVolume c\<rparr>"

definition output_value :: "slot list \<Rightarrow> f64 list \<Rightarrow> nat \<Rightarrow> f64" where
  "output_value slots vs s =
     (let output = slOutput (slots ! s)
      in if output \<ge> int (length vs) then NaN else vs ! nat output)"

text \<open>One round of the loop over the plan's units in \<open>Push\<close>.\<close>

definition push_unit :: "icandle \<Rightarrow> nat \<Rightarrow> tape \<Rightarrow> tape" where
  "push_unit c i t =
     (let u = tpUnits t ! i
      in case (if uFeed u \<ge> 0
               then (case tape_slot t (uFeed u) 0 of None \<Rightarrow> None | Some v \<Rightarrow> Some (feed_candle c v))
               else Some c) of
           None \<Rightarrow> blank u t
         | Some feed \<Rightarrow>
             (let ind = Update feed (inIndicator (uInstance u));
                  u1 = u\<lparr>uInstance := (uInstance u)\<lparr>inIndicator := ind\<rparr>\<rparr>;
                  t1 = t\<lparr>tpUnits := (tpUnits t)[i := u1]\<rparr>
              in if \<not> Ready ind then blank u1 t1
                 else fold (\<lambda>s. put s (output_value (tpSlots t) (Values ind) s)) (uSlots u) t1))"

definition Push :: "icandle \<Rightarrow> tape \<Rightarrow> tape" where
  "Push c t =
     (let n = (tpAt t + 1) mod tpSize t;
          t1 = t\<lparr>tpAt := n, tpFilled := tpFilled t + 1, tpBars := (tpBars t)[nat n := c]\<rparr>
      in fold (push_unit c) [0..<length (tpUnits t1)] t1)"

definition Prime :: "icandle list \<Rightarrow> tape \<Rightarrow> tape" where
  "Prime cs t = fold Push cs t"

section \<open>The history\<close>

text \<open>The same round on a row of slot values, without a buffer.\<close>

definition row_unit :: "slot list \<Rightarrow> icandle \<Rightarrow> nat \<Rightarrow> unit_t list \<times> f64 list \<Rightarrow> unit_t list \<times> f64 list" where
  "row_unit slots c i st =
     (case st of (us, row) \<Rightarrow>
        let u = us ! i
        in case (if uFeed u \<ge> 0
                 then (case known_value (row ! nat (uFeed u)) of None \<Rightarrow> None | Some v \<Rightarrow> Some (feed_candle c v))
                 else Some c) of
             None \<Rightarrow> (us, fold (\<lambda>s r. r[s := NaN]) (uSlots u) row)
           | Some feed \<Rightarrow>
               (let ind = Update feed (inIndicator (uInstance u));
                    us1 = us[i := u\<lparr>uInstance := (uInstance u)\<lparr>inIndicator := ind\<rparr>\<rparr>]
                in if \<not> Ready ind then (us1, fold (\<lambda>s r. r[s := NaN]) (uSlots u) row)
                   else (us1, fold (\<lambda>s r. r[s := output_value slots (Values ind) s]) (uSlots u) row)))"

definition hist_step ::
  "slot list \<Rightarrow> icandle \<Rightarrow> unit_t list \<times> f64 list list \<Rightarrow> unit_t list \<times> f64 list list" where
  "hist_step slots c st =
     (case st of (us, rows) \<Rightarrow>
        let (us1, row) = fold (row_unit slots c) [0..<length us] (us, replicate (length slots) NaN)
        in (us1, rows @ [row]))"

definition history :: "plan \<Rightarrow> icandle list \<Rightarrow> unit_t list \<times> f64 list list" where
  "history p cs = fold (hist_step (plSlots p)) cs (map reset_unit (plUnits p), [])"

definition history_frame :: "plan \<Rightarrow> icandle list \<Rightarrow> frame" where
  "history_frame p cs =
     \<lparr>fr_slot = \<lambda>s b. if 0 \<le> s \<and> s < int (length (plSlots p)) \<and> 0 \<le> b \<and> b < int (length cs)
                      then known_value (snd (history p cs) ! (length cs - 1 - nat b) ! nat s) else None,
      fr_field = \<lambda>f b. if 0 \<le> b \<and> b < int (length cs)
                       then Some (field_value f (cs ! (length cs - 1 - nat b))) else None\<rparr>"

text \<open>What the compiler guarantees of a plan's units and slots.\<close>

definition wf_unit :: "slot list \<Rightarrow> nat \<Rightarrow> unit_t \<Rightarrow> bool" where
  "wf_unit slots i u \<longleftrightarrow>
     (uFeed u < 0 \<or> nat (uFeed u) < length slots \<and> slUnit (slots ! nat (uFeed u)) < i) \<and>
     (\<forall>s. s \<in> set (uSlots u) \<longleftrightarrow> s < length slots \<and> slUnit (slots ! s) = i)"

definition wf_units :: "slot list \<Rightarrow> unit_t list \<Rightarrow> bool" where
  "wf_units slots us \<longleftrightarrow>
     (\<forall>i<length us. wf_unit slots i (us ! i)) \<and> (\<forall>s<length slots. slUnit (slots ! s) < length us)"

section \<open>A round of the loop\<close>

text \<open>\<open>col\<close> is the row a push is writing; \<open>same_else\<close> says that nothing but that row and the units
  changed.\<close>

definition col :: "tape \<Rightarrow> f64 list" where
  "col t = map (\<lambda>c. c ! nat (tpAt t)) (tpValues t)"

definition tape_ok :: "tape \<Rightarrow> bool" where
  "tape_ok t \<longleftrightarrow> 0 \<le> tpAt t \<and> tpAt t < tpSize t \<and> length (tpValues t) = length (tpSlots t)
     \<and> (\<forall>c\<in>set (tpValues t). length c = nat (tpSize t)) \<and> length (tpBars t) = nat (tpSize t)"

definition same_else :: "tape \<Rightarrow> tape \<Rightarrow> bool" where
  "same_else t t' \<longleftrightarrow>
     tpSlots t' = tpSlots t \<and> tpIndex t' = tpIndex t \<and> tpSize t' = tpSize t \<and> tpAt t' = tpAt t \<and>
     tpFilled t' = tpFilled t \<and> tpBars t' = tpBars t \<and> length (tpValues t') = length (tpValues t) \<and>
     (\<forall>s<length (tpValues t). length (tpValues t' ! s) = length (tpValues t ! s) \<and>
        (\<forall>k. k \<noteq> nat (tpAt t) \<longrightarrow> tpValues t' ! s ! k = tpValues t ! s ! k))"

lemma same_else_refl: "same_else t t"
  by (simp add: same_else_def)

lemma same_else_trans: "same_else t u \<Longrightarrow> same_else u v \<Longrightarrow> same_else t v"
  by (simp add: same_else_def)

lemma same_else_units: "same_else t (t\<lparr>tpUnits := us\<rparr>)"
  by (simp add: same_else_def)

lemma tape_ok_same: "tape_ok t \<Longrightarrow> same_else t u \<Longrightarrow> tape_ok u"
  unfolding tape_ok_def same_else_def all_set_conv_all_nth by simp

lemma put_same: "s < length (tpValues t) \<Longrightarrow> same_else t (put s v t)"
  by (auto simp: same_else_def put_def nth_list_update)

lemma put_units [simp]: "tpUnits (put s v t) = tpUnits t"
  by (simp add: put_def)

lemma put_length [simp]: "length (tpValues (put s v t)) = length (tpValues t)"
  by (simp add: put_def)

lemma col_put:
  assumes "tape_ok t" and "s < length (tpValues t)"
  shows "col (put s v t) = (col t)[s := v]"
proof (rule nth_equalityI)
  have "nat (tpAt t) < length (tpValues t ! s)"
    using assms by (auto simp: tape_ok_def)
  then show "col (put s v t) ! i = (col t)[s := v] ! i" if "i < length (col (put s v t))" for i
    using that assms(2) by (auto simp: col_def put_def nth_list_update)
qed (simp add: col_def put_def)

lemma fold_put:
  "tape_ok t \<Longrightarrow> \<forall>s\<in>set xs. s < length (tpValues t) \<Longrightarrow>
   same_else t (fold (\<lambda>s. put s (f s)) xs t) \<and>
   tpUnits (fold (\<lambda>s. put s (f s)) xs t) = tpUnits t \<and>
   col (fold (\<lambda>s. put s (f s)) xs t) = fold (\<lambda>s r. r[s := f s]) xs (col t)"
proof (induction xs arbitrary: t)
  case (Cons s xs)
  have s: "s < length (tpValues t)" using Cons.prems by simp
  have ok: "tape_ok (put s (f s) t)" using tape_ok_same [OF Cons.prems(1) put_same [OF s]] .
  show ?case
    using Cons.IH [OF ok] Cons.prems s same_else_trans [OF put_same [OF s, of "f s"]]
    by (simp add: col_put)
qed (simp add: same_else_refl)

lemma slot_now:
  assumes "tape_ok t" and "0 < tpFilled t" and "0 \<le> s" and "nat s < length (tpSlots t)"
  shows "tape_slot t s 0 = known_value (col t ! nat s)"
  using assms by (auto simp: tape_slot_def tape_ok_def reachable_def tape_index_def col_def)

lemma push_unit_row:
  assumes ok: "tape_ok t" and f: "0 < tpFilled t" and wf: "wf_unit (tpSlots t) i (tpUnits t ! i)"
  shows "same_else t (push_unit c i t)"
    and "row_unit (tpSlots t) c i (tpUnits t, col t) = (tpUnits (push_unit c i t), col (push_unit c i t))"
proof -
  let ?u = "tpUnits t ! i"
  have v: "\<forall>s\<in>set (uSlots ?u). s < length (tpValues t)"
    using wf ok by (auto simp: wf_unit_def tape_ok_def)
  have slot: "0 \<le> uFeed ?u \<Longrightarrow> tape_slot t (uFeed ?u) 0 = known_value (col t ! nat (uFeed ?u))"
    using wf by (intro slot_now [OF ok f]) (auto simp: wf_unit_def)
  have ok1: "tape_ok (t\<lparr>tpUnits := us\<rparr>)" for us
    using ok by (simp add: tape_ok_def)
  have col1: "col (t\<lparr>tpUnits := us\<rparr>) = col t" for us
    by (simp add: col_def)
  have tr: "same_else (t\<lparr>tpUnits := us\<rparr>) u \<Longrightarrow> same_else t u" for us u
    using same_else_trans [OF same_else_units] .
  have s0: "same_else t (fold (\<lambda>s. put s (f s)) (uSlots ?u) t)"
    "tpUnits (fold (\<lambda>s. put s (f s)) (uSlots ?u) t) = tpUnits t"
    "col (fold (\<lambda>s. put s (f s)) (uSlots ?u) t) = fold (\<lambda>s r. r[s := f s]) (uSlots ?u) (col t)" for f
    using fold_put [OF ok v, of f] by simp_all
  have s1: "same_else t (fold (\<lambda>s. put s (f s)) (uSlots ?u) (t\<lparr>tpUnits := us\<rparr>))"
    "tpUnits (fold (\<lambda>s. put s (f s)) (uSlots ?u) (t\<lparr>tpUnits := us\<rparr>)) = us"
    "col (fold (\<lambda>s. put s (f s)) (uSlots ?u) (t\<lparr>tpUnits := us\<rparr>)) = fold (\<lambda>s r. r[s := f s]) (uSlots ?u) (col t)" for f us
    using fold_put [OF ok1, of "uSlots ?u" us f] v tr by (auto simp: col1)
  show "same_else t (push_unit c i t)"
    by (simp add: push_unit_def blank_def Let_def s0 s1 split: option.split)
  show "row_unit (tpSlots t) c i (tpUnits t, col t) = (tpUnits (push_unit c i t), col (push_unit c i t))"
    using slot by (simp add: push_unit_def row_unit_def blank_def Let_def s0 s1 split: option.split)
qed

lemma row_unit_shape:
  "length (fst (row_unit slots c i (us, row))) = length us"
  "length (snd (row_unit slots c i (us, row))) = length row"
  "j < length us \<Longrightarrow> uFeed (fst (row_unit slots c i (us, row)) ! j) = uFeed (us ! j)
     \<and> uSlots (fst (row_unit slots c i (us, row)) ! j) = uSlots (us ! j)"
proof -
  have l: "length (fold (\<lambda>s r. r[s := f s]) xs row) = length row" for f xs and row :: "f64 list"
    by (induction xs arbitrary: row) simp_all
  show "length (fst (row_unit slots c i (us, row))) = length us"
    "length (snd (row_unit slots c i (us, row))) = length row"
    by (simp_all add: row_unit_def Let_def l split: option.split)
  show "uFeed (fst (row_unit slots c i (us, row)) ! j) = uFeed (us ! j)
     \<and> uSlots (fst (row_unit slots c i (us, row)) ! j) = uSlots (us ! j)" if "j < length us"
    using that by (cases "j = i") (simp_all add: row_unit_def Let_def split: option.split)
qed

lemma row_unit_wf: "wf_units slots us \<Longrightarrow> wf_units slots (fst (row_unit slots c i (us, row)))"
  using row_unit_shape by (simp add: wf_units_def wf_unit_def)

section \<open>A row depends on no earlier content of the buffer\<close>

definition agree :: "slot list \<Rightarrow> nat \<Rightarrow> f64 list \<Rightarrow> f64 list \<Rightarrow> bool" where
  "agree slots i r r' \<longleftrightarrow> length r = length slots \<and> length r' = length slots \<and>
     (\<forall>s<length slots. slUnit (slots ! s) < i \<longrightarrow> r ! s = r' ! s)"

lemma fold_update_nth:
  "s < length row \<Longrightarrow>
   fold (\<lambda>s r. r[s := f s]) xs row ! s = (if s \<in> set xs then f s else row ! s)"
  by (induction xs arbitrary: row) auto

lemma fold_update_length [simp]: "length (fold (\<lambda>s r. r[s := f s]) xs row) = length row"
  by (induction xs arbitrary: row) simp_all

lemma agree_fold:
  assumes "agree slots i r r'" and "\<And>s. s \<in> set xs \<longleftrightarrow> s < length slots \<and> slUnit (slots ! s) = i"
  shows "agree slots (Suc i) (fold (\<lambda>s r. r[s := f s]) xs r) (fold (\<lambda>s r. r[s := f s]) xs r')"
  using assms by (auto simp: agree_def fold_update_nth less_Suc_eq)

lemma row_unit_agree:
  assumes wf: "wf_units slots us" and i: "i < length us" and a: "agree slots i r r'"
  shows "fst (row_unit slots c i (us, r)) = fst (row_unit slots c i (us, r'))
    \<and> agree slots (Suc i) (snd (row_unit slots c i (us, r))) (snd (row_unit slots c i (us, r')))"
proof -
  let ?u = "us ! i"
  have w: "wf_unit slots i ?u" using wf i by (simp add: wf_units_def)
  have feed: "0 \<le> uFeed ?u \<Longrightarrow> r ! nat (uFeed ?u) = r' ! nat (uFeed ?u)"
    using w a by (auto simp: wf_unit_def agree_def)
  have ag: "agree slots (Suc i) (fold (\<lambda>s r. r[s := f s]) (uSlots ?u) r) (fold (\<lambda>s r. r[s := f s]) (uSlots ?u) r')" for f
    using w by (intro agree_fold [OF a]) (simp add: wf_unit_def)
  show ?thesis
    using feed ag by (simp add: row_unit_def Let_def split: option.split)
qed

lemma rows_agree:
  assumes "wf_units slots us" and "agree slots 0 r r'" and "k \<le> length us"
  shows "fst (fold (row_unit slots c) [0..<k] (us, r)) = fst (fold (row_unit slots c) [0..<k] (us, r'))
    \<and> agree slots k (snd (fold (row_unit slots c) [0..<k] (us, r))) (snd (fold (row_unit slots c) [0..<k] (us, r')))
    \<and> wf_units slots (fst (fold (row_unit slots c) [0..<k] (us, r)))
    \<and> length (fst (fold (row_unit slots c) [0..<k] (us, r))) = length us"
  using assms(3)
proof (induction k)
  case 0
  then show ?case using assms by simp
next
  case (Suc k)
  obtain us1 r1 where e: "fold (row_unit slots c) [0..<k] (us, r) = (us1, r1)" by force
  obtain us2 r2 where e': "fold (row_unit slots c) [0..<k] (us, r') = (us2, r2)" by force
  have "us1 = us2 \<and> agree slots k r1 r2 \<and> wf_units slots us1 \<and> length us1 = length us"
    using Suc by (auto simp: e e')
  then have IH: "us1 = us2" "agree slots k r1 r2" "wf_units slots us1" "length us1 = length us" by blast+
  show ?case
    using row_unit_agree [OF IH(3) _ IH(2)] row_unit_wf [OF IH(3)] row_unit_shape(1) IH(4) Suc.prems
    by (simp add: e e' flip: IH(1))
qed

lemma agree_all:
  assumes "agree slots n r r'" and "\<forall>s<length slots. slUnit (slots ! s) < n"
  shows "r = r'"
  using assms by (auto simp: agree_def intro!: nth_equalityI)

section \<open>The tape refines the history\<close>

definition tape_repr :: "plan \<Rightarrow> icandle list \<Rightarrow> tape \<Rightarrow> bool" where
  "tape_repr p h t \<longleftrightarrow>
     (case history p h of (us, rows) \<Rightarrow>
        wf_units (plSlots p) us \<and> length us = length (plUnits p) \<and> length rows = length h \<and>
        tpUnits t = us \<and> tpSlots t = plSlots p \<and> tpSize t = max (plDepth p + 1) 2 \<and>
        tpFilled t = int (length h) \<and>
        tpAt t = (if h = [] then - 1 else (int (length h) - 1) mod tpSize t) \<and>
        length (tpValues t) = length (plSlots p) \<and>
        (\<forall>c\<in>set (tpValues t). length c = nat (tpSize t)) \<and> length (tpBars t) = nat (tpSize t) \<and>
        (\<forall>q<length h. length h \<le> q + nat (tpSize t) \<longrightarrow>
           tpBars t ! (q mod nat (tpSize t)) = h ! q \<and>
           (\<forall>s<length (plSlots p). tpValues t ! s ! (q mod nat (tpSize t)) = rows ! q ! s)))"

lemma wf_units_reset: "wf_units slots us \<Longrightarrow> wf_units slots (map reset_unit us)"
  by (simp add: wf_units_def wf_unit_def reset_unit_def)

lemma tape_repr_new: "wf_units (plSlots p) (plUnits p) \<Longrightarrow> tape_repr p [] (NewTape p)"
  by (simp add: tape_repr_def history_def NewTape_def Let_def wf_units_reset)

lemma fold_push_unit:
  assumes ok: "tape_ok t" and f: "0 < tpFilled t" and wf: "wf_units (tpSlots t) (tpUnits t)"
    and k: "k \<le> length (tpUnits t)"
  shows "same_else t (fold (push_unit c) [0..<k] t) \<and>
    fold (row_unit (tpSlots t) c) [0..<k] (tpUnits t, col t)
      = (tpUnits (fold (push_unit c) [0..<k] t), col (fold (push_unit c) [0..<k] t))"
  using k
proof (induction k)
  case 0
  then show ?case by (simp add: same_else_refl)
next
  case (Suc k)
  let ?t = "fold (push_unit c) [0..<k] t"
  have same: "same_else t ?t" and row: "fold (row_unit (tpSlots t) c) [0..<k] (tpUnits t, col t) = (tpUnits ?t, col ?t)"
    using Suc by simp_all
  have "agree (tpSlots t) 0 (col t) (col t)" using ok by (simp add: agree_def col_def tape_ok_def)
  from rows_agree [OF wf this, of k c] have w: "wf_units (tpSlots t) (tpUnits ?t)" "length (tpUnits ?t) = length (tpUnits t)"
    using Suc.prems row by simp_all
  have ok': "tape_ok ?t" by (rule tape_ok_same [OF ok same])
  have e: "tpSlots ?t = tpSlots t" "tpFilled ?t = tpFilled t" using same by (simp_all add: same_else_def)
  have "wf_unit (tpSlots ?t) k (tpUnits ?t ! k)" using w Suc.prems by (simp add: wf_units_def e)
  from push_unit_row [OF ok' _ this, of c] have
    "same_else ?t (push_unit c k ?t)"
    "row_unit (tpSlots t) c k (tpUnits ?t, col ?t) = (tpUnits (push_unit c k ?t), col (push_unit c k ?t))"
    using f by (simp_all add: e)
  then show ?case using same same_else_trans row by auto
qed

lemma tape_repr_push:
  assumes "tape_repr p h t"
  shows "tape_repr p (h @ [c]) (Push c t)"
proof -
  obtain us rows where hist: "history p h = (us, rows)" by force
  let ?n = "nat (tpSize t)" and ?L = "length h" and ?k = "length (plSlots p)"
  have wf: "wf_units (plSlots p) us" and lus: "length us = length (plUnits p)" and lr: "length rows = ?L"
    and tu: "tpUnits t = us" and ts: "tpSlots t = plSlots p" and sz: "tpSize t = max (plDepth p + 1) 2"
    and fl: "tpFilled t = int ?L" and at: "tpAt t = (if h = [] then - 1 else (int ?L - 1) mod tpSize t)"
    and lv: "length (tpValues t) = ?k" and lc: "\<forall>c\<in>set (tpValues t). length c = ?n"
    and lb: "length (tpBars t) = ?n"
    and win: "\<And>q. q < ?L \<Longrightarrow> ?L \<le> q + ?n \<Longrightarrow> tpBars t ! (q mod ?n) = h ! q \<and>
      (\<forall>s<?k. tpValues t ! s ! (q mod ?n) = rows ! q ! s)"
    using assms unfolding tape_repr_def hist prod.case by blast+
  have n: "0 < tpSize t" "0 < ?n" using sz by simp_all
  have pos: "(tpAt t + 1) mod tpSize t = int (?L mod ?n)"
    using n at by (simp add: mod_add_left_eq of_nat_mod)
  define t1 where "t1 = t\<lparr>tpAt := int (?L mod ?n), tpFilled := int (Suc ?L), tpBars := (tpBars t)[?L mod ?n := c]\<rparr>"
  have push: "Push c t = fold (push_unit c) [0..<length us] t1"
    using pos by (simp add: Push_def t1_def fl tu Let_def add.commute [of 1])
  have lt: "?L mod ?n < ?n" using n by simp
  have "int (?L mod ?n) < tpSize t" using lt n(1) by linarith
  then have ok: "tape_ok t1" using lv lc lb n by (simp add: tape_ok_def t1_def ts)
  have u1: "tpUnits t1 = us" "tpSlots t1 = plSlots p" by (simp_all add: t1_def tu ts)
  note FP = fold_push_unit [OF ok, of "length us" c, unfolded u1]
  have same: "same_else t1 (Push c t)"
    and fp: "fold (row_unit (plSlots p) c) [0..<length us] (us, col t1) = (tpUnits (Push c t), col (Push c t))"
    using FP wf by (simp_all add: push t1_def)
  obtain us' row where row: "fold (row_unit (plSlots p) c) [0..<length us] (us, replicate ?k NaN) = (us', row)"
    by force
  have "agree (plSlots p) 0 (col t1) (replicate ?k NaN)"
    using lv by (simp add: agree_def col_def t1_def)
  from rows_agree [OF wf this order_refl, of c] fp row
  have ag: "tpUnits (Push c t) = us'" "agree (plSlots p) (length us) (col (Push c t)) row"
    "wf_units (plSlots p) us'" "length us' = length us"
    by auto
  have cr: "col (Push c t) = row"
    by (rule agree_all [OF ag(2)]) (use wf in \<open>simp add: wf_units_def\<close>)
  have hist': "history p (h @ [c]) = (us', rows @ [row])"
    using hist row by (simp add: history_def hist_step_def)
  have at': "tpAt (Push c t) = int (?L mod ?n)" and sz': "tpSize (Push c t) = tpSize t"
    and vl: "length (tpValues (Push c t)) = ?k" and bars: "tpBars (Push c t) = (tpBars t)[?L mod ?n := c]"
    and fl': "tpFilled (Push c t) = int (Suc ?L)" and ts': "tpSlots (Push c t) = plSlots p"
    using same lv by (simp_all add: same_else_def t1_def ts)
  have keep: "tpValues (Push c t) ! s ! k = tpValues t ! s ! k" if "s < ?k" "k \<noteq> ?L mod ?n" for s k
    using same that lv by (simp add: same_else_def t1_def)
  have lens: "\<forall>c'\<in>set (tpValues (Push c t)). length c' = ?n"
    using tape_ok_same [OF ok same] sz' by (simp add: tape_ok_def)
  have new: "tpValues (Push c t) ! s ! (?L mod ?n) = row ! s" if "s < ?k" for s
    using arg_cong [OF cr, of "\<lambda>r. r ! s"] that vl at' by (simp add: col_def)
  have "tpBars (Push c t) ! (q mod ?n) = (h @ [c]) ! q \<and>
      (\<forall>s<?k. tpValues (Push c t) ! s ! (q mod ?n) = (rows @ [row]) ! q ! s)"
    if q: "q < Suc ?L" "Suc ?L \<le> q + ?n" for q
  proof (cases "q = ?L")
    case True
    then show ?thesis using new lt lb lr by (simp add: bars nth_append)
  next
    case False
    then have ql: "q < ?L" and "?L < q + ?n" using q by simp_all
    then have "q mod ?n \<noteq> ?L mod ?n" using mod_neq_window by blast
    then show ?thesis using win [OF ql] q keep lr ql by (simp add: bars nth_append)
  qed
  then show ?thesis
    unfolding tape_repr_def hist' prod.case
    using ag lus lr ts' sz sz' fl' at' vl lens lb bars n
    by (simp add: of_nat_mod less_Suc_eq)
qed

interpretation tape: history_machine Push "tape_repr p" for p
  by unfold_locales (rule tape_repr_push)

lemma tape_repr_frame:
  assumes "tape_repr p h t"
  shows "frame_of t = cut_frame (max (plDepth p) 1) (history_frame p h)"
proof -
  obtain us rows where hist: "history p h = (us, rows)" by force
  let ?n = "nat (tpSize t)" and ?L = "length h" and ?k = "length (plSlots p)"
  have sz: "tpSize t = max (plDepth p) 1 + 1" and fl: "tpFilled t = int ?L"
    and at: "tpAt t = (if h = [] then - 1 else (int ?L - 1) mod tpSize t)"
    and lv: "length (tpValues t) = ?k"
    and win: "\<And>q. q < ?L \<Longrightarrow> ?L \<le> q + ?n \<Longrightarrow> tpBars t ! (q mod ?n) = h ! q \<and>
      (\<forall>s<?k. tpValues t ! s ! (q mod ?n) = rows ! q ! s)"
    using assms unfolding tape_repr_def hist prod.case by (blast | simp)+
  have reach: "reachable t b \<longleftrightarrow> 0 \<le> b \<and> b \<le> max (plDepth p) 1 \<and> b < int ?L" for b
    by (auto simp: reachable_def sz fl)
  have idx: "tape_index t b = (?L - 1 - nat b) mod ?n" if "0 \<le> b" "b < int ?L" for b
  proof -
    have "(tpAt t - b) mod tpSize t = (int ?L - 1 - b) mod tpSize t"
      using that at by (simp add: mod_diff_left_eq)
    also have "\<dots> = int (?L - 1 - nat b) mod tpSize t" using that by (simp add: of_nat_diff algebra_simps)
    finally show ?thesis using sz by (simp add: tape_index_def nat_mod_distrib)
  qed
  have w: "tpBars t ! tape_index t b = h ! (?L - 1 - nat b) \<and>
      (\<forall>s<?k. tpValues t ! s ! tape_index t b = rows ! (?L - 1 - nat b) ! s)"
    if "0 \<le> b" "b < int ?L" "b \<le> max (plDepth p) 1" for b
  proof -
    define m where "m = nat b"
    have m: "b = int m" using that(1) by (simp add: m_def)
    have "int ?n = max (plDepth p) 1 + 1" using sz by simp
    then have "?L - 1 - m < ?L" and "?L \<le> ?L - 1 - m + ?n" using that m by linarith+
    then show ?thesis using win [of "?L - 1 - m"] idx [OF that(1,2)] m by simp
  qed
  have "tape_slot t s b = fr_slot (cut_frame (max (plDepth p) 1) (history_frame p h)) s b" for s b
  proof (cases "0 \<le> s \<and> s < int ?k \<and> 0 \<le> b \<and> b < int ?L \<and> b \<le> max (plDepth p) 1")
    case True
    then have "nat s < ?k" by linarith
    then show ?thesis using True w [of b]
      by (simp add: cut_frame_def history_frame_def tape_slot_def reach lv hist)
  next
    case False
    then show ?thesis by (simp add: cut_frame_def history_frame_def tape_slot_def reach lv)
  qed
  moreover have "tape_field t f b = fr_field (cut_frame (max (plDepth p) 1) (history_frame p h)) f b" for f b
    using w [of b] by (simp add: cut_frame_def history_frame_def tape_field_def reach)
  ultimately show ?thesis by (simp add: frame_of_def fun_eq_iff)
qed

end
