(* ===== verification/Plans.thy ===== *)
theory Plans
  imports Tape
begin

text \<open>
  What the compiler (Compile) guarantees to the tape (Tape): the units of a compiled plan only read
  from earlier units, every slot is filled by the unit it belongs to, every slot a rule names exists and
  the plan's depth covers every rule. With it the verdicts of a compiled strategy on the tape are those
  on the unbounded history.
\<close>

definition feed_ok :: "slot list \<Rightarrow> int \<Rightarrow> bool" where
  "feed_ok slots feed \<longleftrightarrow> feed < 0 \<or> nat feed < length slots"

definition builder_ok :: "builder \<Rightarrow> bool" where
  "builder_ok b \<longleftrightarrow>
     wf_units (bSlots b) (bUnits b) \<and>
     (\<forall>k u. bUnitKeys b k = Some u \<longrightarrow> u < length (bUnits b)) \<and>
     (\<forall>k s. bSlotKeys b k = Some s \<longrightarrow> s < length (bSlots b)) \<and>
     (\<forall>n s. bIndex b n = Some s \<longrightarrow> s < length (bSlots b)) \<and>
     (\<forall>n h. bBuilt b n = Some h \<longrightarrow> feed_ok (bSlots b) (hdFeed h))"

definition grows :: "builder \<Rightarrow> builder \<Rightarrow> bool" where
  "grows b b' \<longleftrightarrow> builder_ok b' \<and> length (bSlots b) \<le> length (bSlots b')"

lemma grows_trans: "grows a b \<Longrightarrow> grows b c \<Longrightarrow> grows a c"
  by (simp add: grows_def)

lemma grows_refl: "builder_ok b \<Longrightarrow> grows b b"
  by (simp add: grows_def)

lemma attach_unit_ok:
  assumes ok: "builder_ok b" and f: "feed_ok (bSlots b) feed" and a: "attach_unit b inst feed = (b', u)"
  shows "builder_ok b' \<and> bSlots b' = bSlots b \<and> u < length (bUnits b')"
proof (cases "bUnitKeys b (inKey inst, feed)")
  case (Some x)
  then show ?thesis using ok a by (auto simp: attach_unit_def builder_ok_def)
next
  case None
  let ?new = "\<lparr>uInstance = inst, uFeed = feed, uSlots = [], uWarmup = 0, uPrime = 0\<rparr>"
  have b': "b' = b\<lparr>bUnitKeys := (bUnitKeys b)((inKey inst, feed) \<mapsto> length (bUnits b)), bUnits := bUnits b @ [?new]\<rparr>"
    and u: "u = length (bUnits b)"
    using None a by (auto simp: attach_unit_def Let_def)
  have w: "wf_units (bSlots b) (bUnits b)" using ok by (simp add: builder_ok_def)
  have "wf_units (bSlots b) (bUnits b @ [?new])"
    using w f by (auto simp: wf_units_def wf_unit_def nth_append less_Suc_eq feed_ok_def)
  then show ?thesis using ok by (auto simp: b' u builder_ok_def less_Suc_eq)
qed

lemma attach_ok:
  assumes ok: "builder_ok b" and f: "feed_ok (bSlots b) feed" and a: "attach b inst feed output name = (b', s)"
  shows "grows b b' \<and> s < length (bSlots b')"
proof -
  obtain b1 u where b1: "attach_unit b inst feed = (b1, u)" by force
  from attach_unit_ok [OF ok f b1] have ok1: "builder_ok b1" and sl: "bSlots b1 = bSlots b" and u: "u < length (bUnits b1)"
    by simp_all
  show ?thesis
  proof (cases "bSlotKeys b1 (inKey inst, feed, output)")
    case (Some x)
    then show ?thesis using ok1 sl a b1 by (auto simp: attach_def grows_def builder_ok_def)
  next
    case None
    let ?s = "length (bSlots b1)" and ?n = "\<lparr>slUnit = u, slOutput = output, slName = name\<rparr>"
    let ?us = "(bUnits b1)[u := (bUnits b1 ! u)\<lparr>uSlots := uSlots (bUnits b1 ! u) @ [length (bSlots b1)]\<rparr>]"
    have b': "b' = b1\<lparr>bSlotKeys := (bSlotKeys b1)((inKey inst, feed, output) \<mapsto> ?s), bSlots := bSlots b1 @ [?n], bUnits := ?us\<rparr>"
      and s: "s = ?s"
      using None a b1 by (auto simp: attach_def Let_def)
    have w: "wf_units (bSlots b1) (bUnits b1)" using ok1 by (simp add: builder_ok_def)
    have "wf_unit (bSlots b1 @ [?n]) i (?us ! i)" if i: "i < length (bUnits b1)" for i
    proof -
      have wi: "wf_unit (bSlots b1) i (bUnits b1 ! i)" using w i by (simp add: wf_units_def)
      have fe: "uFeed (?us ! i) = uFeed (bUnits b1 ! i)"
        and se: "set (uSlots (?us ! i)) = set (uSlots (bUnits b1 ! i)) \<union> (if i = u then {?s} else {})"
        using i by (cases "i = u"; simp)+
      have old: "k \<in> set (uSlots (bUnits b1 ! i)) \<longleftrightarrow> k < ?s \<and> slUnit (bSlots b1 ! k) = i" for k
        using wi by (simp add: wf_unit_def)
      have "k \<in> set (uSlots (?us ! i)) \<longleftrightarrow> k < Suc ?s \<and> slUnit ((bSlots b1 @ [?n]) ! k) = i" for k
        unfolding se using old [of k] by (cases "k = ?s") (simp_all add: nth_append less_Suc_eq)
      then show ?thesis using wi unfolding wf_unit_def fe by (auto simp: nth_append)
    qed
    moreover have "slUnit ((bSlots b1 @ [?n]) ! k) < length (bUnits b1)" if "k < Suc ?s" for k
      using w u that by (auto simp: wf_units_def nth_append less_Suc_eq)
    ultimately have "wf_units (bSlots b1 @ [?n]) ?us" by (simp add: wf_units_def)
    moreover have "k < length (bUnits b1)" if "bUnitKeys b1 x = Some k" for x k
      using ok1 that unfolding builder_ok_def by blast
    moreover have "k < Suc ?s" if "((bSlotKeys b1)((inKey inst, feed, output) \<mapsto> ?s)) x = Some k" for x k
    proof (cases "x = (inKey inst, feed, output)")
      case False
      then have "k < ?s" using ok1 that unfolding builder_ok_def by (metis fun_upd_other)
      then show ?thesis by simp
    qed (use that in simp)
    moreover have "k < Suc ?s" if "bIndex b1 x = Some k" for x k
      using ok1 that by (auto simp: builder_ok_def less_Suc_eq)
    moreover have "feed_ok (bSlots b1 @ [?n]) (hdFeed h)" if "bBuilt b1 x = Some h" for x h
      using ok1 that by (auto simp: builder_ok_def feed_ok_def less_Suc_eq)
    ultimately have "builder_ok b'" unfolding builder_ok_def b' by simp
    then show ?thesis using sl by (simp add: b' s grows_def)
  qed
qed

section \<open>Inputs\<close>

lemma add_input_ok:
  assumes ok: "builder_ok b" and a: "add_input reg s b name = Inr b'"
  shows "grows b b'"
proof -
  obtain feed where feed: "(case map_of (spec_chains s) name of None \<Rightarrow> Inr (- 1)
      | Some up \<Rightarrow> (case bIndex b up of None \<Rightarrow> Inl (NoUpstreamSlot name up) | Some k \<Rightarrow> Inr (int k))) = Inr feed"
    using a by (auto simp: add_input_def Let_def split: sum.splits)
  have f: "feed_ok (bSlots b) feed"
    using feed ok by (auto simp: feed_ok_def builder_ok_def split: option.splits)
  obtain inst b2 k out where
    at: "attach (b\<lparr>bBuilt := (bBuilt b)(name \<mapsto> \<lparr>hdInstance = inst, hdFeed = feed\<rparr>)\<rparr>) inst feed out name = (b2, k)"
    and b': "b' = b2\<lparr>bIndex := (bIndex b2)(name \<mapsto> k)\<rparr>"
    using a feed by (auto simp: add_input_def Let_def split: sum.splits prod.splits)
  have "builder_ok (b\<lparr>bBuilt := (bBuilt b)(name \<mapsto> \<lparr>hdInstance = inst, hdFeed = feed\<rparr>)\<rparr>)"
    using ok f by (auto simp: builder_ok_def)
  from attach_ok [OF this _ at] f show ?thesis
    by (auto simp: b' grows_def builder_ok_def)
qed

lemma add_inputs_ok: "builder_ok b \<Longrightarrow> add_inputs reg s b ns = Inr b' \<Longrightarrow> grows b b'"
proof (induction ns arbitrary: b)
  case (Cons n ns)
  then obtain b1 where b1: "add_input reg s b n = Inr b1" "add_inputs reg s b1 ns = Inr b'"
    by (auto split: sum.splits)
  have g: "grows b b1" by (rule add_input_ok [OF Cons.prems(1) b1(1)])
  then have "grows b1 b'" using Cons.IH [OF _ b1(2)] by (simp add: grows_def)
  with g show ?case by (rule grows_trans)
qed (simp add: grows_refl)

section \<open>Rules\<close>

text \<open>The shape the parser gives a comparison, and what a compiled rule may read.\<close>

fun node_ok :: "node \<Rightarrow> bool" where
  "node_ok (All ns) \<longleftrightarrow> list_all node_ok ns"
| "node_ok (Any ns) \<longleftrightarrow> list_all node_ok ns"
| "node_ok (node.Not n) \<longleftrightarrow> node_ok n"
| "node_ok (Compare op xs) \<longleftrightarrow> (if op = OpRising \<or> op = OpFalling then length xs = 2 else length xs = fst (arity op))"
| "node_ok (StopLoss l) \<longleftrightarrow> True"
| "node_ok (TakeProfit l) \<longleftrightarrow> True"

definition term_reads :: "nat \<Rightarrow> rterm \<Rightarrow> bool" where
  "term_reads n t \<longleftrightarrow> (if tKind t = OperandInput then 0 \<le> tSlot t \<and> tSlot t < int n else True)"

fun rule_reads :: "nat \<Rightarrow> rule \<Rightarrow> bool" where
  "rule_reads n (AllRule rs) \<longleftrightarrow> list_all (rule_reads n) rs"
| "rule_reads n (AnyRule rs) \<longleftrightarrow> list_all (rule_reads n) rs"
| "rule_reads n (NotRule r) \<longleftrightarrow> rule_reads n r"
| "rule_reads n (CompareRule op ts bars) \<longleftrightarrow> list_all (term_reads n) ts"

lemma term_reads_mono: "term_reads n t \<Longrightarrow> n \<le> m \<Longrightarrow> term_reads m t"
  by (auto simp: term_reads_def)

lemma rule_reads_mono: "rule_reads n r \<Longrightarrow> n \<le> m \<Longrightarrow> rule_reads m r"
  by (induction r) (auto simp: list_all_iff term_reads_def)

lemma operand_line_ok:
  assumes "builder_ok b" and "operand_line b x = Inr (b', k)"
  shows "grows b b' \<and> k < length (bSlots b')"
proof (cases "oOutput x = ''''")
  case True
  then show ?thesis using assms by (auto simp: operand_line_def grows_refl builder_ok_def split: option.splits)
next
  case False
  then obtain h where h: "bBuilt b (oInput x) = Some h"
    and a: "attach b (hdInstance h) (hdFeed h) (outputOf (hdInstance h) (oOutput x)) (operand_ref x) = (b', k)"
    using assms(2) by (auto simp: operand_line_def split: option.splits if_splits)
  have "feed_ok (bSlots b) (hdFeed h)" using assms(1) h by (simp add: builder_ok_def)
  from attach_ok [OF assms(1) this a] show ?thesis .
qed

lemma build_terms_ok:
  "builder_ok b \<Longrightarrow> build_terms b xs = Inr (b', ts) \<Longrightarrow>
   grows b b' \<and> length ts = length xs \<and> list_all (term_reads (length (bSlots b'))) ts"
proof (induction xs arbitrary: b ts)
  case Nil
  then show ?case by (simp add: grows_refl)
next
  case (Cons x xs)
  let ?t = "\<lparr>tKind = oKind x, tSlot = - 1, tField = oField x, tValue = oValue x, tBack = oBack x\<rparr>"
  obtain b1 t1 ts' where
    one: "(if oKind x = OperandInput
           then (case operand_line b x of Inl e \<Rightarrow> Inl e | Inr (b1, k) \<Rightarrow> Inr (b1, ?t\<lparr>tSlot := int k\<rparr>))
           else Inr (b, ?t)) = Inr (b1, t1)"
    and more: "build_terms b1 xs = Inr (b', ts')" and ts: "ts = t1 # ts'"
    using Cons.prems(2) by (auto simp: Let_def split: sum.splits prod.splits)
  have g: "grows b b1 \<and> term_reads (length (bSlots b1)) t1"
    using one Cons.prems(1) operand_line_ok [OF Cons.prems(1)]
    by (auto simp: term_reads_def grows_refl split: if_splits sum.splits prod.splits)
  then have r: "grows b1 b' \<and> length ts' = length xs \<and> list_all (term_reads (length (bSlots b'))) ts'"
    using Cons.IH [OF _ more] by (simp add: grows_def)
  then show ?case using g grows_trans [of b b1 b'] term_reads_mono [of "length (bSlots b1)" t1 "length (bSlots b')"]
    by (simp add: ts grows_def)
qed

lemma build_compare_ok:
  assumes "builder_ok b" and "build_compare b op xs = Inr (b', r)"
  shows "grows b b' \<and> rule_reads (length (bSlots b')) r \<and> (if node_ok (Compare op xs) then wf_rule r else True)"
proof -
  obtain ts where ts: "build_terms b (if op = OpRising \<or> op = OpFalling then take 1 xs else xs) = Inr (b', ts)"
    and r: "r = CompareRule op ts (if op = OpRising \<or> op = OpFalling then go_int (oValue (xs ! 1)) else 1)"
    using assms(2) by (auto simp: build_compare_def Let_def split: sum.splits prod.splits)
  show ?thesis
    using build_terms_ok [OF assms(1) ts] by (cases op) (auto simp: r terms_needed_def arity_def)
qed

lemma build_rule_ok:
  "builder_ok b \<Longrightarrow> build_rule b n = Inr (b', r) \<Longrightarrow>
     grows b b' \<and> rule_reads (length (bSlots b')) r \<and> (if node_ok n then wf_rule r else True)"
  "builder_ok b \<Longrightarrow> build_rules b ns = Inr (b', rs) \<Longrightarrow>
     grows b b' \<and> list_all (rule_reads (length (bSlots b'))) rs \<and> (if list_all node_ok ns then list_all wf_rule rs else True)"
proof (induction b n and b ns arbitrary: b' r and b' rs rule: build_rule_build_rules.induct)
  case (1 b ns)
  then obtain rs where "build_rules b ns = Inr (b', rs)" "r = AllRule rs" by (auto split: sum.splits)
  then show ?case using 1 by simp
next
  case (2 b ns)
  then obtain rs where "build_rules b ns = Inr (b', rs)" "r = AnyRule rs" by (auto split: sum.splits)
  then show ?case using 2 by simp
next
  case (3 b n)
  then obtain r1 where "build_rule b n = Inr (b', r1)" "r = NotRule r1" by (auto split: sum.splits)
  then show ?case using 3 by simp
next
  case (4 b op xs)
  then show ?case using build_compare_ok [of b op xs b' r] by (simp del: node_ok.simps)
next
  case (8 b n ns)
  then obtain b1 r1 rs1 where a: "build_rule b n = Inr (b1, r1)" "build_rules b1 ns = Inr (b', rs1)" "rs = r1 # rs1"
    by (auto split: sum.splits prod.splits)
  have g1: "grows b b1" and x1: "rule_reads (length (bSlots b1)) r1" "if node_ok n then wf_rule r1 else True"
    using 8(1) [OF 8(3) a(1)] by simp_all
  have g2: "grows b1 b'" and x2: "list_all (rule_reads (length (bSlots b'))) rs1"
    "if list_all node_ok ns then list_all wf_rule rs1 else True"
    using 8(2) [OF a(1) refl _ a(2)] g1 by (simp_all add: grows_def)
  show ?case
    using grows_trans [OF g1 g2] rule_reads_mono [OF x1(1)] g2 x1 x2 by (auto simp: a(3) grows_def split: if_splits)
qed (simp_all add: grows_refl)

section \<open>Brackets and legs\<close>

lemma build_bracket_ok: "builder_ok b \<Longrightarrow> build_bracket reg b l = Inr (b', k) \<Longrightarrow> grows b b'"
  using attach_ok [of b "- 1"]
  by (auto simp: build_bracket_def Let_def grows_refl feed_ok_def split: if_splits sum.splits prod.splits)

lemma hoist_ok:
  "builder_ok b \<Longrightarrow> hoist reg b lg n = Inr (b', lg', res) \<Longrightarrow>
     grows b b' \<and> lgEntry lg' = lgEntry lg \<and> lgExit lg' = lgExit lg \<and>
     (if node_ok n then (case res of None \<Rightarrow> True | Some r \<Rightarrow> node_ok r) else True)"
  "builder_ok b \<Longrightarrow> hoist_list reg b lg ns = Inr (b', lg', kept) \<Longrightarrow>
     grows b b' \<and> lgEntry lg' = lgEntry lg \<and> lgExit lg' = lgExit lg \<and>
     (if list_all node_ok ns then list_all node_ok kept else True)"
proof (induction reg b lg n and reg b lg ns arbitrary: b' lg' res and b' lg' kept rule: hoist_hoist_list.induct)
  case (1 reg b lg l)
  obtain k where k: "build_bracket reg b l = Inr (b', k)" "lg' = lg\<lparr>lgStop := Some k\<rparr>" "res = None"
    using 1(2) by (auto split: sum.splits prod.splits)
  show ?case using build_bracket_ok [OF 1(1) k(1)] by (simp add: k)
next
  case (2 reg b lg l)
  obtain k where k: "build_bracket reg b l = Inr (b', k)" "lg' = lg\<lparr>lgTarget := Some k\<rparr>" "res = None"
    using 2(2) by (auto split: sum.splits prod.splits)
  show ?case using build_bracket_ok [OF 2(1) k(1)] by (simp add: k)
next
  case (3 reg b lg ns)
  obtain kept where k: "hoist_list reg b lg ns = Inr (b', lg', kept)"
    and res: "res = (case kept of [] \<Rightarrow> None | [n] \<Rightarrow> Some n | _ \<Rightarrow> Some (Any kept))"
    using 3(3) by (auto split: sum.splits prod.splits)
  show ?case using 3(1) [OF 3(2) k] by (auto simp: res split: list.splits)
next
  case (6 reg b lg n ns)
  obtain b1 lg1 r kept1 where a: "hoist reg b lg n = Inr (b1, lg1, r)"
    "hoist_list reg b1 lg1 ns = Inr (b', lg', kept1)" "kept = (case r of None \<Rightarrow> kept1 | Some x \<Rightarrow> x # kept1)"
    using 6(4) by (auto split: sum.splits prod.splits)
  have h1: "grows b b1 \<and> lgEntry lg1 = lgEntry lg \<and> lgExit lg1 = lgExit lg \<and>
     (if node_ok n then (case r of None \<Rightarrow> True | Some x \<Rightarrow> node_ok x) else True)"
    by (rule 6(1) [OF 6(3) a(1)])
  then have "builder_ok b1" by (simp add: grows_def)
  from 6(2) [OF a(1) refl refl this a(2)] h1 show ?case
    using grows_trans [of b b1 b'] by (auto simp: a(3) split: option.splits)
qed (simp_all add: grows_refl)

definition leg_reads :: "nat \<Rightarrow> leg \<Rightarrow> bool" where
  "leg_reads n l \<longleftrightarrow>
     (case lgEntry l of None \<Rightarrow> True | Some r \<Rightarrow> rule_reads n r) \<and>
     (case lgExit l of None \<Rightarrow> True | Some r \<Rightarrow> rule_reads n r)"

definition leg_wf :: "leg \<Rightarrow> bool" where
  "leg_wf l \<longleftrightarrow>
     (case lgEntry l of None \<Rightarrow> True | Some r \<Rightarrow> wf_rule r) \<and>
     (case lgExit l of None \<Rightarrow> True | Some r \<Rightarrow> wf_rule r)"

definition opt_node_ok :: "node option \<Rightarrow> bool" where
  "opt_node_ok n \<longleftrightarrow> (case n of None \<Rightarrow> True | Some x \<Rightarrow> node_ok x)"

lemma build_leg_ok:
  assumes ok: "builder_ok b" and l: "build_leg reg b entry exit = Inr (b', lg)"
  shows "grows b b' \<and> leg_reads (length (bSlots b')) lg \<and>
    (if opt_node_ok entry \<and> opt_node_ok exit then leg_wf lg else True)"
proof (cases entry)
  case None
  then show ?thesis using l ok
    by (auto simp: build_leg_def grows_refl empty_leg_def leg_reads_def leg_wf_def)
next
  case (Some en)
  obtain b1 r where r: "build_rule b en = Inr (b1, r)"
    using l Some by (auto simp: build_leg_def split: sum.splits prod.splits)
  have e1: "grows b b1" "rule_reads (length (bSlots b1)) r" "if node_ok en then wf_rule r else True"
    using build_rule_ok(1) [OF ok r] by simp_all
  then have ok1: "builder_ok b1" by (simp add: grows_def)
  show ?thesis
  proof (cases exit)
    case None
    then show ?thesis using l Some r e1
      by (auto simp: build_leg_def empty_leg_def leg_reads_def leg_wf_def opt_node_ok_def Let_def)
  next
    case (Some ex)
    obtain b2 lg1 res where h: "hoist reg b1 (empty_leg\<lparr>lgEntry := Some r\<rparr>) ex = Inr (b2, lg1, res)"
      using l \<open>entry = Some en\<close> Some r by (auto simp: build_leg_def Let_def split: sum.splits prod.splits)
    have h1: "grows b1 b2" "lgEntry lg1 = Some r" "lgExit lg1 = None"
      "if node_ok ex then (case res of None \<Rightarrow> True | Some x \<Rightarrow> node_ok x) else True"
      using hoist_ok(1) [OF ok1 h] by (simp_all add: empty_leg_def)
    have ok2: "builder_ok b2" using h1(1) by (simp add: grows_def)
    have r2: "rule_reads (length (bSlots b2)) r" using rule_reads_mono [OF e1(2)] h1(1) by (simp add: grows_def)
    show ?thesis
    proof (cases res)
      case None
      then have "b' = b2" "lg = lg1" using l \<open>entry = Some en\<close> \<open>exit = Some ex\<close> r h
        by (simp_all add: build_leg_def Let_def)
      then show ?thesis using grows_trans [OF e1(1) h1(1)] e1 h1 r2 \<open>entry = Some en\<close> Some
        by (auto simp: leg_reads_def leg_wf_def opt_node_ok_def)
    next
      case (Some residual)
      obtain r1 where f: "build_rule b2 residual = Inr (b', r1)" "lg = lg1\<lparr>lgExit := Some r1\<rparr>"
        using l \<open>entry = Some en\<close> \<open>exit = Some ex\<close> r h Some
        by (auto simp: build_leg_def Let_def split: sum.splits prod.splits)
      have f1: "grows b2 b'" "rule_reads (length (bSlots b')) r1" "if node_ok residual then wf_rule r1 else True"
        using build_rule_ok(1) [OF ok2 f(1)] by simp_all
      have "rule_reads (length (bSlots b')) r" using rule_reads_mono [OF r2] f1(1) by (simp add: grows_def)
      then show ?thesis
        using grows_trans [OF grows_trans [OF e1(1) h1(1)] f1(1)] e1 h1 f1 f(2) Some \<open>entry = Some en\<close> \<open>exit = Some ex\<close>
        by (auto simp: leg_reads_def leg_wf_def opt_node_ok_def)
    qed
  qed
qed

section \<open>Plans\<close>

definition plan_rules :: "plan \<Rightarrow> rule option list" where
  "plan_rules p = [lgEntry (plLong p), lgExit (plLong p), lgEntry (plShort p), lgExit (plShort p)]"

definition spec_arity_ok :: "spec_t \<Rightarrow> bool" where
  "spec_arity_ok s \<longleftrightarrow> list_all opt_node_ok
     [sdLong (sEntry s), sdShort (sEntry s), exitOf (sExit s) False, exitOf (sExit s) True]"

lemma measure_unit_shape:
  "length (fst (measure_unit slots i (us, w, q))) = length us"
  "j < length us \<Longrightarrow> uFeed (fst (measure_unit slots i (us, w, q)) ! j) = uFeed (us ! j)
     \<and> uSlots (fst (measure_unit slots i (us, w, q)) ! j) = uSlots (us ! j)"
  by (simp add: measure_unit_def Let_def)
     (cases "j = i"; simp add: measure_unit_def Let_def)

lemma measure_fold_wf:
  "wf_units slots (fst st) \<Longrightarrow> wf_units slots (fst (fold (measure_unit slots) is st))"
proof (induction "is" arbitrary: st)
  case (Cons i "is")
  obtain us w q where st: "st = (us, w, q)" by (cases st) auto
  have "wf_units slots (fst (measure_unit slots i st))"
    using Cons.prems measure_unit_shape [where slots = slots and i = i and us = us and w = w and q = q]
    by (simp add: st wf_units_def wf_unit_def)
  then show ?case using Cons.IH by simp
qed simp

lemma measure_plan_simps [simp]:
  "plSlots (measure_plan p) = plSlots p" "plLong (measure_plan p) = plLong p"
  "plShort (measure_plan p) = plShort p" "plDepth (measure_plan p) = plDepth p"
  "plIndex (measure_plan p) = plIndex p"
  by (simp_all add: measure_plan_def Let_def split: prod.splits)

lemma measure_plan_wf: "wf_units (plSlots p) (plUnits p) \<Longrightarrow> wf_units (plSlots p) (plUnits (measure_plan p))"
  using measure_fold_wf [of "plSlots p" "(plUnits p, plWarmup p, plPrimeBars p)" "[0..<length (plUnits p)]"]
  by (cases "fold (measure_unit (plSlots p)) [0..<length (plUnits p)] (plUnits p, plWarmup p, plPrimeBars p)")
     (simp add: measure_plan_def)

lemma empty_builder_ok: "builder_ok empty_builder"
  by (simp add: builder_ok_def empty_builder_def wf_units_def)

lemma leg_reads_mono: "leg_reads n l \<Longrightarrow> n \<le> m \<Longrightarrow> leg_reads m l"
  using rule_reads_mono by (auto simp: leg_reads_def split: option.splits)

lemma Compile_ok:
  assumes "Compile reg s = Inr p"
  shows "wf_units (plSlots p) (plUnits p)" and "leg_reads (length (plSlots p)) (plLong p)"
    and "leg_reads (length (plSlots p)) (plShort p)"
    and "if spec_arity_ok s then leg_wf (plLong p) \<and> leg_wf (plShort p) else True"
    and "\<forall>r\<in>set (plan_rules p). depthOf r \<le> plDepth p"
proof -
  obtain b b1 b2 long short where
    i: "compile_inputs reg s empty_builder = Inr b"
    and l: "build_leg reg b (sdLong (sEntry s)) (exitOf (sExit s) False) = Inr (b1, long)"
    and h: "build_leg reg b1 (sdShort (sEntry s)) (exitOf (sExit s) True) = Inr (b2, short)"
    and p: "p = measure_plan
      \<lparr>plSpec = s, plUnits = bUnits b2, plSlots = bSlots b2, plIndex = bIndex b2,
       plLong = long, plShort = short,
       plDepth = max (max (depthOf (lgEntry long)) (depthOf (lgExit long)))
                     (max (depthOf (lgEntry short)) (depthOf (lgExit short))),
       plWarmup = 0, plPrimeBars = 0\<rparr>"
    using assms by (auto simp: Compile_def split: sum.splits prod.splits)
  have "grows empty_builder b"
    using add_inputs_ok [OF empty_builder_ok] i by (simp add: compile_inputs_def)
  then have ok: "builder_ok b" by (simp add: grows_def)
  note L = build_leg_ok [OF ok l]
  have ok1: "builder_ok b1" using L by (simp add: grows_def)
  note S = build_leg_ok [OF ok1 h]
  show "wf_units (plSlots p) (plUnits p)"
    using S measure_plan_wf [where p = "\<lparr>plSpec = s, plUnits = bUnits b2, plSlots = bSlots b2, plIndex = bIndex b2,
       plLong = long, plShort = short,
       plDepth = max (max (depthOf (lgEntry long)) (depthOf (lgExit long)))
                     (max (depthOf (lgEntry short)) (depthOf (lgExit short))),
       plWarmup = 0, plPrimeBars = 0\<rparr>"]
    by (simp add: p grows_def builder_ok_def)
  show "leg_reads (length (plSlots p)) (plLong p)" "leg_reads (length (plSlots p)) (plShort p)"
    using L S leg_reads_mono [of "length (bSlots b1)" long "length (bSlots b2)"] by (simp_all add: p grows_def)
  show "if spec_arity_ok s then leg_wf (plLong p) \<and> leg_wf (plShort p) else True"
    using L S by (auto simp: p spec_arity_ok_def split: if_splits)
  show "\<forall>r\<in>set (plan_rules p). depthOf r \<le> plDepth p"
    by (auto simp: p plan_rules_def)
qed

text \<open>C19: the compiler never builds a plan the tape could misread: in a compiled plan an indicator only
  reads a slot filled by an earlier unit, every slot belongs to exactly the unit that fills it, every
  rule reads only slots the plan has, and the plan's depth is at least that of each of its rules.\<close>

theorem compiled_plan_sound:
  "case Compile reg s of
     Inl e \<Rightarrow> True
   | Inr p \<Rightarrow>
       wf_units (plSlots p) (plUnits p)
       \<and> leg_reads (length (plSlots p)) (plLong p) \<and> leg_reads (length (plSlots p)) (plShort p)
       \<and> list_all (\<lambda>r. depthOf r \<le> plDepth p) (plan_rules p)"
  using Compile_ok [of reg s] by (auto simp: list_all_iff split: sum.split)

text \<open>C17: the tape is exact and never looks ahead: for any compiled plan and any series of candles pushed
  into a new tape, what the tape answers is the unbounded history of those candles cut off at the plan's
  depth, a function of the candles pushed so far alone.\<close>

theorem tape_is_cut_history:
  "case Compile reg s of
     Inl e \<Rightarrow> True
   | Inr p \<Rightarrow> frame_of (Prime cs (NewTape p)) = cut_frame (max (plDepth p) 1) (history_frame p cs)"
proof (cases "Compile reg s")
  case (Inr p)
  have "tape_repr p cs (Prime cs (NewTape p))"
    unfolding Prime_def by (rule tape.repr_run [OF tape_repr_new [OF Compile_ok(1) [OF Inr]]])
  then show ?thesis by (simp add: Inr tape_repr_frame)
qed simp

lemma verdict_exact:
  assumes "spec_arity_ok s" and "Compile reg s = Inr p" and "r \<in> set (plan_rules p)"
  shows "fires r (frame_of (Prime cs (NewTape p))) = fires r (history_frame p cs)"
proof (cases r)
  case (Some q)
  have "frame_of (Prime cs (NewTape p)) = cut_frame (max (plDepth p) 1) (history_frame p cs)"
    using tape_repr_frame [OF tape.repr_run [OF tape_repr_new [OF Compile_ok(1) [OF assms(2)]]]]
    by (simp add: Prime_def)
  moreover have "wf_rule q"
    using Compile_ok(4) [OF assms(2)] assms(1,3) Some
    by (auto simp: leg_wf_def plan_rules_def split: option.splits)
  moreover have "depth q \<le> max (plDepth p) 1"
    using Compile_ok(5) [OF assms(2)] assms(3) Some by (force simp: depthOf_def)
  ultimately show ?thesis by (simp add: Some fires_def eval_cut)
qed (simp add: fires_def)

text \<open>C18: bounding the tape by the plan's depth loses nothing: for a specification whose comparisons have
  the arity the parser enforces, every entry and exit rule of the compiled plan fires on the tape exactly
  when it fires on the unbounded history.\<close>

theorem tape_verdict_exact:
  "case Compile reg s of
     Inl e \<Rightarrow> True
   | Inr p \<Rightarrow>
       (if spec_arity_ok s
        then list_all (\<lambda>r. fires r (frame_of (Prime cs (NewTape p))) = fires r (history_frame p cs)) (plan_rules p)
        else True)"
  using verdict_exact [of s reg] by (auto simp: list_all_iff split: sum.split)

end
