(* ===== verification/Broker.thy ===== *)
theory Broker
  imports Strategy_Spec
begin

text \<open>
  The broker simulation (internal/backtest/broker.go): how an order fills against a bar, what
  slippage and the tick grid do to the price, and the notional and fees of a fill in cents.
\<close>

datatype order_kind = OrderMarket | OrderLimit | OrderStop

datatype order_side = Buy | Sell

record order =
  Kind :: order_kind
  Side :: order_side
  Price :: f64

record bar =
  Open :: f64
  High :: f64
  Low :: f64
  Close :: f64

definition barOf :: "candle \<Rightarrow> bar" where
  "barOf c = \<lparr>Open = cOpen c, High = cHigh c, Low = cLow c, Close = cClose c\<rparr>"

definition closeOf :: "candle \<Rightarrow> bar" where
  "closeOf c = \<lparr>Open = cClose c, High = cClose c, Low = cClose c, Close = cClose c\<rparr>"

definition order_fill :: "order \<Rightarrow> bar \<Rightarrow> f64 option" where
  "order_fill ord b =
     (case Kind ord of
        OrderMarket \<Rightarrow> Some (Open b)
      | OrderLimit \<Rightarrow>
          if Side ord = Buy then
            if Low b > Price ord then None else Some (math_Min (Open b) (Price ord))
          else if High b < Price ord then None else Some (math_Max (Open b) (Price ord))
      | OrderStop \<Rightarrow>
          if Side ord = Buy then
            if High b < Price ord then None else Some (math_Max (Open b) (Price ord))
          else if Low b > Price ord then None else Some (math_Min (Open b) (Price ord)))"

definition tickEpsilon :: f64 where
  "tickEpsilon = rnd (1 / 10 ^ 9)"

record costing =
  Costs :: costs
  TickSize :: f64

definition slipped :: "f64 \<Rightarrow> f64 \<Rightarrow> bool \<Rightarrow> f64" where
  "slipped price bps buy =
     (let move = price * bps / Fin 10000 in if buy then price + move else price - move)"

definition roundTick :: "f64 \<Rightarrow> f64 \<Rightarrow> bool \<Rightarrow> f64" where
  "roundTick price tick up =
     (if tick \<le> 0 \<or> price \<le> 0 then price
      else
        let steps = price / tick; near = math_Round steps
        in if \<bar>steps - near\<bar> \<le> tickEpsilon * math_Max 1 \<bar>steps\<bar> then price
           else if up then math_Ceil steps * tick
           else math_Floor steps * tick)"

definition costing_fill :: "costing \<Rightarrow> order \<Rightarrow> f64 \<Rightarrow> f64" where
  "costing_fill c ord raw =
     (let price = (if Kind ord \<noteq> OrderLimit then slipped raw (SlippageBPS (Costs c)) (Side ord = Buy) else raw)
      in roundTick price (TickSize c) (Side ord = Buy))"

definition notional :: "i64 \<Rightarrow> f64 \<Rightarrow> i64" where
  "notional qty price = i64_of (math_Round (float_of qty * price * Fin 100))"

definition fees :: "costing \<Rightarrow> i64 \<Rightarrow> i64" where
  "fees c cents =
     (let n = (if cents <s 0 then - cents else cents)
      in BrokerageCents (Costs c) + i64_of (math_Round (float_of n * FeeBPS (Costs c) / Fin 10000)))"

definition resting :: "order \<Rightarrow> bar \<Rightarrow> bool" where
  "resting ord b \<longleftrightarrow> order_fill ord b \<noteq> None"


section \<open>Fills stay inside the bar\<close>

definition bar_ok :: "bar \<Rightarrow> bool" where
  "bar_ok b \<longleftrightarrow> Low b \<le> Open b \<and> Open b \<le> High b"

text \<open>How much better or worse than the order's own price a fill may be.\<close>

definition respects_price :: "order \<Rightarrow> f64 \<Rightarrow> bool" where
  "respects_price ord p \<longleftrightarrow>
     (case (Kind ord, Side ord) of
        (OrderMarket, _) \<Rightarrow> True
      | (OrderLimit, Buy) \<Rightarrow> p \<le> Price ord
      | (OrderLimit, Sell) \<Rightarrow> Price ord \<le> p
      | (OrderStop, Buy) \<Rightarrow> Price ord \<le> p
      | (OrderStop, Sell) \<Rightarrow> p \<le> Price ord)"

lemma min_between:
  assumes "lo \<le> x" and "x \<le> hi" and "\<not> y < lo" and "y \<noteq> NaN"
  shows "lo \<le> math_Min x y \<and> math_Min x y \<le> hi \<and> math_Min x y \<le> y"
proof -
  have n: "x \<noteq> NaN" "lo \<noteq> NaN" using assms by auto
  have "lo \<le> y" using assms(3,4) n by (simp add: f64_not_less)
  then show ?thesis
    using math_Min_cases [OF n(1) assms(4)] math_Min_le [OF n(1) assms(4)] assms(1,2)
    by (metis f64_le_trans)
qed

lemma max_between:
  assumes "lo \<le> x" and "x \<le> hi" and "\<not> hi < y" and "y \<noteq> NaN"
  shows "lo \<le> math_Max x y \<and> math_Max x y \<le> hi \<and> y \<le> math_Max x y"
proof -
  have n: "x \<noteq> NaN" "hi \<noteq> NaN" using assms by auto
  have "y \<le> hi" using assms(3,4) n by (simp add: f64_not_less)
  then show ?thesis
    using math_Max_cases [OF n(1) assms(4)] math_Max_ge [OF n(1) assms(4)] assms(1,2)
    by (metis f64_le_trans)
qed

lemma order_fill_between:
  assumes "bar_ok b" and "Kind ord = OrderMarket \<or> Price ord \<noteq> NaN" and "order_fill ord b = Some p"
  shows "Low b \<le> p \<and> p \<le> High b \<and> respects_price ord p"
  using assms min_between [of "Low b" "Open b" "High b" "Price ord"]
    max_between [of "Low b" "Open b" "High b" "Price ord"]
  by (auto simp: order_fill_def bar_ok_def respects_price_def
      split: order_kind.splits order_side.splits if_splits)

section \<open>Slippage and the tick grid never help\<close>

lemma tickEpsilon_pos: "\<exists>q. tickEpsilon = Fin q \<and> 0 < q"
proof -
  have e: "rnd (1 / 10 ^ 9) = Fin (of_int (rne ((1 / 10 ^ 9) / pow2 (- 30 - 52))) * pow2 (- 30 - 52))"
    by (rule rnd_eval) (simp_all add: pow2_def)
  have "rne ((1 / 10 ^ 9) / pow2 (- 30 - 52)) > 0"
    by (simp add: pow2_def rne_def Let_def)
  then have "0 < of_int (rne ((1 / 10 ^ 9) / pow2 (- 30 - 52))) * pow2 (- 30 - 52)"
    by (simp only: zero_less_mult_iff pow2_pos of_int_0_less_iff) simp
  then show ?thesis using e unfolding tickEpsilon_def by blast
qed

lemma tickEpsilon_mult_nonneg: "0 \<le> tickEpsilon * math_Max 1 \<bar>Fin s\<bar>"
proof -
  obtain q where q: "tickEpsilon = Fin q" "0 < q" using tickEpsilon_pos by blast
  have "math_Max 1 \<bar>Fin s\<bar> = 1 \<or> math_Max 1 \<bar>Fin s\<bar> = \<bar>Fin s\<bar>"
    by (rule math_Max_cases) (auto simp: one_f64_def)
  then obtain r where r: "math_Max 1 \<bar>Fin s\<bar> = Fin r" by (auto simp: one_f64_def)
  have "(1 :: f64) \<le> Fin r"
    using math_Max_ge [of 1 "\<bar>Fin s\<bar>"] r by (auto simp: one_f64_def)
  then have "1 \<le> r" by (simp add: one_f64_def)
  then show ?thesis using q unfolding r q(1) by (intro mult_nonneg) (auto simp: zero_f64_def)
qed

lemma math_Round_int: "s = of_int \<lfloor>s\<rfloor> \<Longrightarrow> 0 \<le> s \<Longrightarrow> math_Round (Fin s) = Fin s"
proof -
  assume s: "s = of_int \<lfloor>s\<rfloor>" and "0 \<le> s"
  obtain n where n: "s = of_int n" using s by blast
  have "\<lfloor>(of_int n :: rat) + 1 / 2\<rfloor> = n" by (simp add: floor_eq_iff)
  then show ?thesis using \<open>0 \<le> s\<close> by (auto simp: n Let_def zero_of_def)
qed

text \<open>A price off the grid has a fractional number of ticks.\<close>

lemma off_grid_fraction:
  assumes "0 \<le> s" and "\<not> \<bar>Fin s - math_Round (Fin s)\<bar> \<le> tickEpsilon * math_Max 1 \<bar>Fin s\<bar>"
  shows "s \<noteq> of_int \<lfloor>s\<rfloor>"
proof
  assume "s = of_int \<lfloor>s\<rfloor>"
  then have "math_Round (Fin s) = Fin s" using assms(1) by (rule math_Round_int)
  then have "\<bar>Fin s - math_Round (Fin s)\<bar> = 0"
    by (simp add: f64_arith_Fin zero_f64_def)
  then show False using assms(2) tickEpsilon_mult_nonneg [of s] by simp
qed

lemma math_Ceil_Fin: "0 < s \<Longrightarrow> math_Ceil (Fin s) = Fin (of_int \<lceil>s\<rceil>)"
proof -
  assume s: "0 < s"
  then have "\<lfloor>- s\<rfloor> \<noteq> 0" using floor_less_zero [of "- s"] by linarith
  then show ?thesis using s by (simp add: math_Ceil_def ceiling_def)
qed

lemma steps_cases:
  assumes "0 < p" and "0 < tick" and "Fin p / tick = st"
  obtains "st = PInf" | "st = Fin 0" | s t where "st = Fin s" "0 < s" "tick = Fin t" "0 < t" "rnd (p / t) = Fin s"
proof (cases tick)
  case (Fin t)
  then have t: "0 < t" using assms(2) by (simp add: zero_f64_def)
  then have st: "st = rnd (p / t)"
    using assms by (auto simp: Fin f64_arith_Fin)
  have "0 \<le> rnd (p / t)" using assms(1) t by (intro rnd_nonneg) simp
  then consider "st = PInf" | "st = NZero" | s where "st = Fin s" "0 \<le> s"
    using st by (auto simp: f64_nonneg_cases)
  then show thesis
  proof cases
    case 2
    then show ?thesis using st assms(1) t by (auto simp: rnd_def Let_def divide_less_0_iff split: if_splits)
  next
    case (3 s)
    then show ?thesis using that Fin t st by (cases "s = 0") auto
  qed (use that in auto)
qed (use assms that in \<open>auto simp: zero_f64_def less_f64_def divide_f64_def is_inf_def zero_of_def\<close>)

lemma roundTick_kept:
  "tick \<le> 0 \<or> price \<le> 0 \<or>
     \<bar>price / tick - math_Round (price / tick)\<bar> \<le> tickEpsilon * math_Max 1 \<bar>price / tick\<bar>
   \<Longrightarrow> roundTick price tick up = price"
  by (auto simp: roundTick_def Let_def)

text \<open>The two directions share the case split: off the grid, with both numbers positive, the
  number of ticks is a positive fraction or has overflowed.\<close>

lemma roundTick_cases:
  assumes "is_fin price" and "tick \<noteq> NaN"
  obtains "roundTick price tick up = price"
  | "0 < price" "0 < tick" "price / tick = PInf"
  | p s t where "price = Fin p" "0 < p" "tick = Fin t" "0 < t" "price / tick = Fin s" "0 < s"
      "rnd (p / t) = Fin s" "s \<noteq> of_int \<lfloor>s\<rfloor>"
      "roundTick price tick up = Fin (of_int (if up then \<lceil>s\<rceil> else \<lfloor>s\<rfloor>)) * tick"
proof (cases "tick \<le> 0 \<or> price \<le> 0 \<or>
    \<bar>price / tick - math_Round (price / tick)\<bar> \<le> tickEpsilon * math_Max 1 \<bar>price / tick\<bar>")
  case True
  then show ?thesis by (intro that(1) roundTick_kept)
next
  case False
  have np: "price \<noteq> NaN" using assms(1) by auto
  have pos: "0 < tick" "0 < price"
    using False assms np by (simp_all add: f64_not_le zero_f64_def)
  obtain p where p: "price = Fin p" "0 < p"
    using pos assms(1) by (auto simp: f64_pos_cases)
  obtain st where st: "Fin p / tick = st" by blast
  show ?thesis
  proof (rule steps_cases [OF p(2) pos(1) st])
    assume "st = PInf"
    then show ?thesis using that(2) pos st p by simp
  next
    assume "st = Fin 0"
    then have False using False p st tickEpsilon_mult_nonneg [of 0] math_Round_int [of 0]
      by (simp add: f64_arith_Fin zero_f64_def del: math_Round.simps)
    then show ?thesis ..
  next
    fix s t assume s: "st = Fin s" "0 < s" and t: "tick = Fin t" "0 < t" and q: "rnd (p / t) = Fin s"
    have n: "s \<noteq> of_int \<lfloor>s\<rfloor>" using False p st s by (intro off_grid_fraction) auto
    have "roundTick price tick up = Fin (of_int (if up then \<lceil>s\<rceil> else \<lfloor>s\<rfloor>)) * tick"
      using False st s p by (auto simp: roundTick_def Let_def math_Ceil_Fin)
    then show ?thesis using that(3) p s t q st n by blast
  qed
qed

lemma roundTick_up:
  assumes "is_fin price" and "wf_f64 price" and "tick \<noteq> NaN"
  shows "price \<le> roundTick price tick True"
proof (rule roundTick_cases [OF assms(1,3), where up = True])
  assume "roundTick price tick True = price"
  then show ?thesis using assms(1) by (auto intro: f64_le_refl)
next
  assume h: "0 < price" "0 < tick" "price / tick = PInf"
  have "PInf * tick = PInf" using h(2)
    by (auto simp: f64_pos_cases times_f64_def is_inf_def inf_of_def Let_def)
  moreover have "\<bar>PInf - math_Round PInf\<bar> = NaN" by (simp add: minus_f64_def plus_f64_def is_inf_def)
  ultimately show ?thesis using h assms(1)
    by (cases price) (auto simp: roundTick_def Let_def math_Ceil_def less_eq_f64_def)
next
  fix p s t
  assume h: "price = Fin p" "0 < p" "tick = Fin t" "0 < t" "0 < s" "rnd (p / t) = Fin s" "s \<noteq> of_int \<lfloor>s\<rfloor>"
    "roundTick price tick True = Fin (of_int (if True then \<lceil>s\<rceil> else \<lfloor>s\<rfloor>)) * tick"
  have "p \<le> of_int \<lceil>s\<rceil> * t"
    using ceiling_of_rnd(1) [OF h(6,7)] h(4) by (simp add: divide_le_eq)
  then have "Fin p \<le> rnd (of_int \<lceil>s\<rceil> * t)"
    using assms(2) h(1) by (intro rnd_ge_wf) auto
  moreover have "\<lceil>s\<rceil> \<noteq> 0" using h(5) zero_less_ceiling [of s] by linarith
  ultimately show ?thesis using h(1,3,4,8) by (simp add: f64_arith_Fin)
qed

lemma roundTick_down:
  assumes "is_fin price" and "wf_f64 price" and "tick \<noteq> NaN" and "price / tick \<noteq> PInf"
  shows "roundTick price tick False \<le> price"
proof (rule roundTick_cases [OF assms(1,3), where up = False])
  assume "roundTick price tick False = price"
  then show ?thesis using assms(1) by (auto intro: f64_le_refl)
next
  assume "price / tick = PInf"
  then show ?thesis using assms(4) by simp
next
  fix p s t
  assume h: "price = Fin p" "0 < p" "tick = Fin t" "0 < t" "0 < s" "rnd (p / t) = Fin s" "s \<noteq> of_int \<lfloor>s\<rfloor>"
    "roundTick price tick False = Fin (of_int (if False then \<lceil>s\<rceil> else \<lfloor>s\<rfloor>)) * tick"
  have "of_int \<lfloor>s\<rfloor> * t \<le> p"
    using ceiling_of_rnd(2) [OF h(6,7)] h(4) by (simp add: le_divide_eq)
  then have le: "rnd (of_int \<lfloor>s\<rfloor> * t) \<le> Fin p"
    using assms(2) h(1) by (intro rnd_le_wf) auto
  have "0 \<le> \<lfloor>s\<rfloor>" using h(5) by simp
  then show ?thesis using le h(1-4,8)
    by (cases "\<lfloor>s\<rfloor> = 0") (auto simp: f64_arith_Fin zero_of_def)
qed

lemma slipped_worse:
  assumes "0 \<le> raw" "is_fin raw" "wf_f64 raw" and "0 \<le> bps" "is_fin bps"
    and "is_fin (slipped raw bps buy)"
  shows "if buy then raw \<le> slipped raw bps buy else slipped raw bps buy \<le> raw"
proof -
  have m: "0 \<le> raw * bps" using assms by (intro mult_nonneg)
  have "0 \<le> raw * bps / Fin 10000"
  proof (cases "is_fin (raw * bps)")
    case True
    then show ?thesis using m by (intro div_nonneg) auto
  next
    case False
    then have "raw * bps = PInf" using m by (auto simp: f64_nonneg_cases)
    then show ?thesis by (simp add: divide_f64_def is_inf_def inf_of_def zero_f64_def less_eq_f64_def)
  qed
  then show ?thesis
    using add_nonneg_ge [OF _ assms(3,2)] diff_nonneg_le [OF _ assms(3,2)]
    by (auto simp: slipped_def Let_def)
qed

lemma wf_slipped [simp]: "wf_f64 raw \<Longrightarrow> wf_f64 (slipped raw bps buy)"
  by (simp add: slipped_def Let_def)


section \<open>Properties\<close>

text \<open>C31: whatever order fills, fills at a price the bar traded at, between its low and its high,
  and never worse than a limit or better than a stop; an order rests unfilled exactly when the bar
  did not reach its price.\<close>

theorem fill_within_bar:
  assumes "bar_ok b" and "Kind ord = OrderMarket \<or> Price ord \<noteq> NaN"
  shows "(case order_fill ord b of
      Some p \<Rightarrow> Low b \<le> p \<and> p \<le> High b \<and> respects_price ord p
    | None \<Rightarrow> (Kind ord, Side ord) \<in> {(OrderLimit, Buy), (OrderStop, Sell)} \<and> Price ord < Low b
        \<or> (Kind ord, Side ord) \<in> {(OrderLimit, Sell), (OrderStop, Buy)} \<and> High b < Price ord)"
proof (cases "order_fill ord b")
  case None
  then show ?thesis
    by (auto simp: order_fill_def split: order_kind.splits if_splits) (cases "Side ord"; simp)+
next
  case (Some p)
  then show ?thesis using order_fill_between [OF assms Some] by simp
qed

theorem fill_within_bar_witness:
  "order_fill \<lparr>Kind = OrderLimit, Side = Sell, Price = Fin 12\<rparr>
      \<lparr>Open = Fin 10, High = Fin 13, Low = Fin 9, Close = Fin 11\<rparr> = Some (Fin 12)
   \<and> Fin 9 \<le> Fin 12 \<and> Fin 12 \<le> Fin 13"
proof -
  let ?b = "\<lparr>Open = Fin 10, High = Fin 13, Low = Fin 9, Close = Fin 11\<rparr>"
  let ?o = "\<lparr>Kind = OrderLimit, Side = Sell, Price = Fin 12\<rparr>"
  have f: "order_fill ?o ?b = Some (Fin 12)"
    by (simp add: order_fill_def math_Max_def f64_consts)
  have "bar_ok ?b" by (simp add: bar_ok_def)
  from fill_within_bar [OF this, of ?o] f show ?thesis by simp
qed

text \<open>slippage and the rounding to the tick grid, computed in floating point, never improve a
  price: a market or stop buy is filled at or above the raw price, a sell at or below it.\<close>

theorem market_fill_never_helps:
  assumes "Kind ord \<noteq> OrderLimit"
    and "0 < raw" "is_fin raw" "wf_f64 raw"
    and "0 \<le> SlippageBPS (Costs c)" "is_fin (SlippageBPS (Costs c))"
    and "is_fin (slipped raw (SlippageBPS (Costs c)) (Side ord = Buy))"
    and "TickSize c \<noteq> NaN"
    and "slipped raw (SlippageBPS (Costs c)) (Side ord = Buy) / TickSize c \<noteq> PInf"
  shows "(Side ord = Buy \<longrightarrow> raw \<le> costing_fill c ord raw) \<and>
         (Side ord = Sell \<longrightarrow> costing_fill c ord raw \<le> raw)"
proof -
  let ?p = "slipped raw (SlippageBPS (Costs c)) (Side ord = Buy)"
  have cf: "costing_fill c ord raw = roundTick ?p (TickSize c) (Side ord = Buy)"
    using assms(1) by (simp add: costing_fill_def Let_def)
  have sl: "if Side ord = Buy then raw \<le> ?p else ?p \<le> raw"
    by (rule slipped_worse) (use assms in \<open>auto intro: f64_less_le\<close>)
  have "?p \<le> roundTick ?p (TickSize c) True" and "roundTick ?p (TickSize c) False \<le> ?p"
    using assms by (intro roundTick_up roundTick_down; simp)+
  then show ?thesis using sl
    unfolding cf by (cases "Side ord = Buy") (auto elim: f64_le_trans)
qed

theorem market_fill_never_helps_witness:
  "Fin 100 \<le> costing_fill
     \<lparr>Costs = \<lparr>BrokerageCents = 0, FeeBPS = Fin 3, SlippageBPS = Fin 100\<rparr>, TickSize = Fin 2\<rparr>
     \<lparr>Kind = OrderMarket, Side = Buy, Price = 0\<rparr> (Fin 100)"
proof -
  have s: "slipped (Fin 100) (Fin 100) True = Fin 101"
    by (simp add: slipped_def Let_def f64_arith_Fin rnd_numeral)
  have n: "nearest 100 = (100 :: rat)" using nearest_of_int [of 100] by simp
  have p: "(100 :: rat) < pow2 1024" using pow2_53_less by simp
  show ?thesis
    using market_fill_never_helps [of "\<lparr>Kind = OrderMarket, Side = Buy, Price = 0\<rparr>" "Fin 100"
        "\<lparr>Costs = \<lparr>BrokerageCents = 0, FeeBPS = Fin 3, SlippageBPS = Fin 100\<rparr>, TickSize = Fin 2\<rparr>"]
    by (simp add: s n p f64_consts f64_arith_Fin rnd_half)
qed

end
