(* ===== verification/Actions.thy ===== *)
theory Actions
  imports Broker
begin

text \<open>
  Corporate actions (internal/backtest/actions.go), read off the ratio of the adjusted to the
  unadjusted close: each bar after the first is classified once, against the bar before it, as
  nothing, a cash dividend, a split or grouping by a term of a fixed table, or a move too large
  to explain.
\<close>

definition maxImpliedYield :: f64 where "maxImpliedYield = rnd (3 / 10)"

definition splitTolerance :: f64 where "splitTolerance = rnd (1 / 100)"

definition flatRatio :: f64 where "flatRatio = rnd (1 / 10 ^ 6)"

definition splitTerms :: "f64 list" where
  "splitTerms =
     [Fin (3 / 2), Fin 2, Fin (5 / 2), Fin 3, rnd (10 / 3), Fin 4, Fin 5, Fin 6, Fin 8, Fin 10,
      Fin 15, Fin 20, Fin 25, Fin 50, Fin 100]"

definition splitCandidates :: "f64 list" where
  "splitCandidates = concat (map (\<lambda>term. [term, 1 / term]) splitTerms)"

datatype basis = BasisTotal | BasisPrice

record actions =
  perShare :: "f64 list"
  factor :: "f64 list"
  events :: nat
  splits :: nat
  unadjusted :: nat
  unpriced :: nat

definition ratioOf :: "candle \<Rightarrow> f64" where
  "ratioOf c =
     (case cAdj c of
        None \<Rightarrow> 0
      | Some adj \<Rightarrow> if cClose c \<le> 0 then 0 else adj / cClose c)"

definition splitFactor :: "f64 \<Rightarrow> f64 option" where
  "splitFactor ratio =
     (let want = 1 / ratio;
          best = fst (fold (\<lambda>candidate (best, gap).
             let off = \<bar>candidate - want\<bar> / want in
             if off < gap then (candidate, off) else (best, gap)) splitCandidates (0, splitTolerance))
      in if best > 0 then Some best else None)"

datatype action = NoAction | Dividend f64 | Split f64 | Unpriced

definition action_of :: "candle option \<Rightarrow> candle \<Rightarrow> action" where
  "action_of previous c =
     (case previous of
        None \<Rightarrow> NoAction
      | Some prev \<Rightarrow>
          let before = ratioOf prev; after = ratioOf c in
          if before \<le> 0 \<or> after \<le> 0 then NoAction
          else
            let ratio = before / after in
            if ratio \<le> 0 \<or> ratio = NaN \<or> is_inf ratio \<or> \<bar>ratio - 1\<bar> \<le> flatRatio then NoAction
            else
              let cash = cClose prev * (1 - ratio) in
              if cash > 0 \<and> cash \<le> cClose prev * maxImpliedYield then Dividend cash
              else (case splitFactor ratio of Some f \<Rightarrow> Split f | None \<Rightarrow> Unpriced))"

fun actions_from :: "candle option \<Rightarrow> candle list \<Rightarrow> actions" where
  "actions_from previous [] =
     \<lparr>perShare = [], factor = [], events = 0, splits = 0, unadjusted = 0, unpriced = 0\<rparr>"
| "actions_from previous (c # cs) =
     (let act = action_of previous c; rest = actions_from (Some c) cs in
      \<lparr>perShare = (case act of Dividend cash \<Rightarrow> cash | _ \<Rightarrow> 0) # perShare rest,
       factor = (case act of Split f \<Rightarrow> f | _ \<Rightarrow> 0) # factor rest,
       events = (case act of Dividend _ \<Rightarrow> 1 | _ \<Rightarrow> 0) + events rest,
       splits = (case act of Split _ \<Rightarrow> 1 | _ \<Rightarrow> 0) + splits rest,
       unadjusted = (if cAdj c = None then 1 else 0) + unadjusted rest,
       unpriced = (case act of Unpriced \<Rightarrow> 1 | _ \<Rightarrow> 0) + unpriced rest\<rparr>)"

definition actionsOf :: "candle list \<Rightarrow> actions" where
  "actionsOf cs = actions_from None cs"

definition dividendAt :: "actions \<Rightarrow> nat \<Rightarrow> f64" where
  "dividendAt a i = (if i \<ge> length (perShare a) then 0 else perShare a ! i)"

definition factorAt :: "actions \<Rightarrow> nat \<Rightarrow> f64" where
  "factorAt a i = (if i \<ge> length (factor a) then 0 else factor a ! i)"

definition actions_basis :: "actions \<Rightarrow> basis" where
  "actions_basis a = (if unadjusted a = length (perShare a) then BasisPrice else BasisTotal)"

section \<open>Structure\<close>

lemma actions_lengths [simp]:
  "length (perShare (actions_from p cs)) = length cs"
  "length (factor (actions_from p cs)) = length cs"
  by (induction cs arbitrary: p) (auto simp: Let_def)

definition action_at :: "candle list \<Rightarrow> nat \<Rightarrow> action" where
  "action_at cs i = action_of (if i = 0 then None else Some (cs ! (i - 1))) (cs ! i)"

lemma actions_from_nth:
  assumes "i < length cs"
  shows "perShare (actions_from p cs) ! i =
      (case action_of (if i = 0 then p else Some (cs ! (i - 1))) (cs ! i) of Dividend cash \<Rightarrow> cash | _ \<Rightarrow> 0)"
    and "factor (actions_from p cs) ! i =
      (case action_of (if i = 0 then p else Some (cs ! (i - 1))) (cs ! i) of Split f \<Rightarrow> f | _ \<Rightarrow> 0)"
  using assms
  by (induction cs arbitrary: p i) (auto simp: Let_def nth_Cons split: nat.splits)

lemma dividendAt_eq:
  "dividendAt (actionsOf cs) i =
     (if i < length cs then (case action_at cs i of Dividend cash \<Rightarrow> cash | _ \<Rightarrow> 0) else 0)"
  by (simp add: dividendAt_def actionsOf_def action_at_def actions_from_nth)

lemma factorAt_eq:
  "factorAt (actionsOf cs) i =
     (if i < length cs then (case action_at cs i of Split f \<Rightarrow> f | _ \<Rightarrow> 0) else 0)"
  by (simp add: factorAt_def actionsOf_def action_at_def actions_from_nth)

lemma fold_best_in:
  "fst (fold (\<lambda>candidate (best, gap).
     let off = \<bar>candidate - want\<bar> / want in
     if off < gap then (candidate, off) else (best, gap)) cs (b, g)) \<in> insert b (set cs)"
  by (induction cs arbitrary: b g) (auto simp: Let_def)

lemma splitFactor_table: "splitFactor r = Some f \<Longrightarrow> f \<in> set splitCandidates \<and> 0 < f"
  using fold_best_in [of "1 / r" splitCandidates 0 splitTolerance]
  by (auto simp: splitFactor_def Let_def split: if_splits)

lemma action_of_shape:
  "action_of p c = Dividend cash \<Longrightarrow> 0 < cash \<and> (\<exists>b. p = Some b \<and> cash \<le> cClose b * maxImpliedYield)"
  "action_of p c = Split f \<Longrightarrow> f \<in> set splitCandidates \<and> 0 < f"
  by (auto simp: action_of_def Let_def dest: splitFactor_table split: option.splits if_splits)

subsection \<open>The classes as a list\<close>

fun is_dividend :: "action \<Rightarrow> bool" where
  "is_dividend (Dividend _) = True"
| "is_dividend _ = False"

fun is_split :: "action \<Rightarrow> bool" where
  "is_split (Split _) = True"
| "is_split _ = False"

fun acts_of :: "candle option \<Rightarrow> candle list \<Rightarrow> action list" where
  "acts_of p [] = []"
| "acts_of p (c # cs) = action_of p c # acts_of (Some c) cs"

lemma acts_of_nth:
  "length (acts_of p cs) = length cs"
  "i < length cs \<Longrightarrow> acts_of p cs ! i = action_of (if i = 0 then p else Some (cs ! (i - 1))) (cs ! i)"
  by (induction cs arbitrary: p i) (auto simp: nth_Cons split: nat.splits)

lemma acts_of_None: "acts_of None cs = map (action_at cs) [0..<length cs]"
  by (intro nth_equalityI) (auto simp: acts_of_nth action_at_def)

lemma actions_counters:
  "events (actions_from p cs) = length (filter is_dividend (acts_of p cs))"
  "splits (actions_from p cs) = length (filter is_split (acts_of p cs))"
  "unpriced (actions_from p cs) = length (filter ((=) Unpriced) (acts_of p cs))"
  "unadjusted (actions_from p cs) = length (filter (\<lambda>c. cAdj c = None) cs)"
  by (induction cs arbitrary: p) (auto simp: Let_def split: action.splits)

section \<open>Locality\<close>

text \<open>The classification of a bar reads that bar and the one before it: a longer history, or a
  different future, changes nothing.\<close>

lemma action_at_prefix:
  assumes "take n cs = take n ds" and "i < n"
  shows "action_at cs i = action_at ds i \<and> (i < length cs \<longleftrightarrow> i < length ds)"
proof -
  have nth: "cs ! j = ds ! j" if "j < n" for j
    by (metis assms(1) nth_take that)
  have "length (take n cs) = length (take n ds)" by (simp only: assms(1))
  then have "i < length cs \<longleftrightarrow> i < length ds" using assms(2) by (simp add: min_def split: if_splits)
  then show ?thesis using nth assms(2) by (simp add: action_at_def)
qed

lemma dividendAt_prefix:
  "take n cs = take n ds \<Longrightarrow> i < n \<Longrightarrow> dividendAt (actionsOf cs) i = dividendAt (actionsOf ds) i"
  using action_at_prefix [of n cs ds i] by (simp add: dividendAt_eq)

lemma factorAt_prefix:
  "take n cs = take n ds \<Longrightarrow> i < n \<Longrightarrow> factorAt (actionsOf cs) i = factorAt (actionsOf ds) i"
  using action_at_prefix [of n cs ds i] by (simp add: factorAt_eq)

section \<open>Properties\<close>

text \<open>a bar carries at most one corporate action: a positive dividend of at most the implied
  yield bound on the previous close, or a positive split factor out of the table of terms and
  their reciprocals; the first bar, and any index past the last, carries neither.\<close>

theorem one_action_per_bar:
  "if 0 < i \<and> i < length cs then
     (case action_at cs i of
        Dividend cash \<Rightarrow> dividendAt (actionsOf cs) i = cash \<and> factorAt (actionsOf cs) i = 0
          \<and> 0 < cash \<and> cash \<le> cClose (cs ! (i - 1)) * maxImpliedYield
      | Split f \<Rightarrow> dividendAt (actionsOf cs) i = 0 \<and> factorAt (actionsOf cs) i = f
          \<and> 0 < f \<and> f \<in> set splitCandidates
      | _ \<Rightarrow> dividendAt (actionsOf cs) i = 0 \<and> factorAt (actionsOf cs) i = 0)
   else dividendAt (actionsOf cs) i = 0 \<and> factorAt (actionsOf cs) i = 0"
proof -
  have z: "action_at cs 0 = NoAction" by (simp add: action_at_def action_of_def)
  have d: "0 < cash \<and> cash \<le> cClose (cs ! (i - 1)) * maxImpliedYield"
    if "action_at cs i = Dividend cash" "0 < i" for cash
    using that action_of_shape(1) [of "Some (cs ! (i - 1))" "cs ! i" cash]
    by (auto simp: action_at_def)
  have s: "0 < f \<and> f \<in> set splitCandidates" if "action_at cs i = Split f" for f
    using that action_of_shape(2) [of "if i = 0 then None else Some (cs ! (i - 1))" "cs ! i" f]
    by (auto simp: action_at_def)
  show ?thesis using z d s by (cases "i = 0") (auto simp: dividendAt_eq factorAt_eq split: action.split)
qed

text \<open>The counters of the scan are the numbers of bars of each class, the classes are disjoint
  and leave out the first bar, and a series is on a price-return basis just when no bar of it
  carries an adjusted close.\<close>

theorem action_counts:
  "let acts = map (action_at cs) [0..<length cs]; found = actionsOf cs in
   events found = length (filter is_dividend acts) \<and>
   splits found = length (filter is_split acts) \<and>
   unpriced found = length (filter ((=) Unpriced) acts) \<and>
   events found + splits found + unpriced found \<le> length cs - 1 \<and>
   (actions_basis found = BasisPrice) = (filter (\<lambda>c. cAdj c \<noteq> None) cs = [])"
proof -
  have total: "length (filter is_dividend as) + length (filter is_split as) + length (filter ((=) Unpriced) as)
      + length (filter ((=) NoAction) as) = length as" for as
  proof (induction as)
    case (Cons a as)
    then show ?case by (cases a) auto
  qed simp
  have first: "0 < length (filter ((=) NoAction) (acts_of None cs))" if "cs \<noteq> []"
    using that by (cases cs) (simp_all add: action_of_def)
  have bound: "length (filter is_dividend (acts_of None cs)) + length (filter is_split (acts_of None cs))
      + length (filter ((=) Unpriced) (acts_of None cs)) \<le> length cs - 1"
    using total [of "acts_of None cs"] first acts_of_nth(1) [of None cs]
    by (cases "cs = []") (simp, linarith)
  have basis: "length (filter (\<lambda>c. cAdj c = None) cs) = length cs \<longleftrightarrow> filter (\<lambda>c. cAdj c \<noteq> None) cs = []"
    using sum_length_filter_compl [of "\<lambda>c. cAdj c = None" cs] by auto
  show ?thesis using bound basis
    by (simp add: Let_def actionsOf_def actions_counters actions_basis_def flip: acts_of_None)
qed

end
