(* ===== verification/Rates.thy ===== *)
theory Rates
  imports Stdlib
begin

text \<open>
  The interest and stock-loan rates a run reads (internal/market/rates.go and borrow.go): steps of an
  annual rate in force from a day on, the windows in which a share cannot be borrowed, the conversion to
  a rate per bar and the checks of the loaders, from the decoded file on. \<open>math.Pow\<close> is the argument
  \<open>math_Pow\<close>; the location of the times asked for is the argument \<open>zone\<close>. The loader's maps are lists of
  entries in the order one iteration of the Go map visits them.
\<close>

record rate_step =
  rsFrom :: time
  rsAnnualPct :: f64

record rates =
  rtSeries :: string
  rtSource :: string
  rtBasis :: f64
  rtThrough :: time
  rtSteps :: "rate_step list"

record rates_file =
  rfSeries :: string
  rfSource :: string
  rfBasis :: f64
  rfThrough :: string
  rfRates :: "(string \<times> f64) list"

datatype load_error =
    SeriesRequired
  | BadBasis f64
  | BadThrough
  | RatesEmpty string
  | BadFrom string nat
  | PctOutside string nat f64
  | NotAfterPrevious string nat
  | ThroughBeforeLast string
  | BadFallback f64
  | NoTicker
  | BadWindowFrom nat
  | BadWindowTo nat
  | WindowReversed nat
  | WindowTicker nat

definition date_at :: "string \<Rightarrow> time option" where
  "date_at s = map_option utc_midnight (parse_date s)"

text \<open>The loop both loaders run over the steps of a rate, with the steps read so far; \<open>key\<close> names the
  entry in the errors.\<close>

fun read_steps :: "f64 \<Rightarrow> string \<Rightarrow> rate_step list \<Rightarrow> (string \<times> f64) list \<Rightarrow> load_error + rate_step list" where
  "read_steps highest key acc [] = Inr acc"
| "read_steps highest key acc ((day, pct) # rest) =
     (case date_at day of
        None \<Rightarrow> Inl (BadFrom key (length acc))
      | Some start \<Rightarrow>
          if pct < 0 \<or> pct > highest then Inl (PctOutside key (length acc) pct)
          else if acc \<noteq> [] \<and> \<not> start > rsFrom (last acc) then Inl (NotAfterPrevious key (length acc))
          else read_steps highest key (acc @ [\<lparr>rsFrom = start, rsAnnualPct = pct\<rparr>]) rest)"

definition LoadRates :: "rates_file \<Rightarrow> load_error + rates" where
  "LoadRates f =
     (if rfSeries f = '''' then Inl SeriesRequired
      else if rfBasis f < 1 then Inl (BadBasis (rfBasis f))
      else
        (case date_at (rfThrough f) of
           None \<Rightarrow> Inl BadThrough
         | Some through \<Rightarrow>
             if rfRates f = [] then Inl (RatesEmpty '''')
             else
               (case read_steps (Fin 100) '''' [] (rfRates f) of
                  Inl e \<Rightarrow> Inl e
                | Inr steps \<Rightarrow>
                    if through < rsFrom (last steps) then Inl (ThroughBeforeLast '''')
                    else Inr \<lparr>rtSeries = rfSeries f, rtSource = rfSource f, rtBasis = rfBasis f,
                              rtThrough = through, rtSteps = steps\<rparr>)))"

definition rates_Covers :: "rates \<Rightarrow> time \<Rightarrow> time \<Rightarrow> bool" where
  "rates_Covers r start finish \<longleftrightarrow> \<not> start < rsFrom (rtSteps r ! 0) \<and> \<not> finish > rtThrough r + day_ns"

definition dayOf :: "(time \<Rightarrow> int) \<Rightarrow> time \<Rightarrow> time" where
  "dayOf zone day = utc_midnight (day_number zone day)"

text \<open>The search both rate tables share: the last step that is not after the day, the first one before all.\<close>

definition step_at :: "rate_step list \<Rightarrow> time \<Rightarrow> f64" where
  "step_at steps at_day =
     (let i = sort_Search (length steps) (\<lambda>i. rsFrom (steps ! i) > at_day)
      in if i = 0 then rsAnnualPct (steps ! 0) else rsAnnualPct (steps ! (i - 1)))"

definition rates_AnnualPct :: "(time \<Rightarrow> int) \<Rightarrow> rates \<Rightarrow> time \<Rightarrow> f64" where
  "rates_AnnualPct zone r day = step_at (rtSteps r) (dayOf zone day)"

definition per_period :: "(f64 \<Rightarrow> f64 \<Rightarrow> f64) \<Rightarrow> f64 \<Rightarrow> f64 \<Rightarrow> f64 \<Rightarrow> f64" where
  "per_period math_Pow basis pct periods =
     (let annual = pct / Fin 100; daily = math_Pow (1 + annual) (1 / basis) - 1
      in math_Pow (1 + daily) (basis / periods) - 1)"

definition rates_PerPeriod :: "(f64 \<Rightarrow> f64 \<Rightarrow> f64) \<Rightarrow> (time \<Rightarrow> int) \<Rightarrow> rates \<Rightarrow> time \<Rightarrow> f64 \<Rightarrow> f64" where
  "rates_PerPeriod math_Pow zone r day periods =
     (if periods \<le> 0 then 0 else per_period math_Pow (rtBasis r) (rates_AnnualPct zone r day) periods)"

section \<open>Borrowing\<close>

definition MaxBorrowAnnual :: f64 where "MaxBorrowAnnual = Fin 300"

record borrow_window =
  bwFrom :: time
  bwTo :: time

record borrow =
  brSource :: string
  brBasis :: f64
  brThrough :: time
  brFallback :: f64
  brRates :: "string \<rightharpoonup> rate_step list"
  brUnavailable :: "string \<rightharpoonup> borrow_window list"

record borrow_file =
  bfSource :: string
  bfBasis :: f64
  bfThrough :: string
  bfFallback :: f64
  bfRates :: "(string \<times> (string \<times> f64) list) list"
  bfUnavailable :: "(string \<times> string \<times> string) list"

definition ticker_key :: "string \<Rightarrow> string" where
  "ticker_key s = to_upper (trim_space s)"

fun read_rates :: "time \<Rightarrow> (string \<rightharpoonup> rate_step list) \<Rightarrow> (string \<times> (string \<times> f64) list) list \<Rightarrow>
    load_error + (string \<rightharpoonup> rate_step list)" where
  "read_rates through acc [] = Inr acc"
| "read_rates through acc ((ticker, entries) # rest) =
     (let key = ticker_key ticker
      in if key = '''' then Inl NoTicker
         else if entries = [] then Inl (RatesEmpty key)
         else
           (case read_steps MaxBorrowAnnual key [] entries of
              Inl e \<Rightarrow> Inl e
            | Inr steps \<Rightarrow>
                if through < rsFrom (last steps) then Inl (ThroughBeforeLast key)
                else read_rates through (acc(key \<mapsto> steps)) rest))"

fun read_windows :: "time \<Rightarrow> nat \<Rightarrow> (string \<rightharpoonup> borrow_window list) \<Rightarrow> (string \<times> string \<times> string) list \<Rightarrow>
    load_error + (string \<rightharpoonup> borrow_window list)" where
  "read_windows through i acc [] = Inr acc"
| "read_windows through i acc ((ticker, fromText, toText) # rest) =
     (let key = ticker_key ticker
      in if key = '''' then Inl (WindowTicker i)
         else
           (case date_at fromText of
              None \<Rightarrow> Inl (BadWindowFrom i)
            | Some start \<Rightarrow>
                (case (if toText = '''' then Some through else date_at toText) of
                   None \<Rightarrow> Inl (BadWindowTo i)
                 | Some finish \<Rightarrow>
                     if finish < start then Inl (WindowReversed i)
                     else
                       (let held = (case acc key of None \<Rightarrow> [] | Some ws \<Rightarrow> ws)
                        in read_windows through (i + 1)
                             (acc(key \<mapsto> held @ [\<lparr>bwFrom = start, bwTo = finish\<rparr>])) rest))))"

definition LoadBorrow :: "borrow_file \<Rightarrow> load_error + borrow" where
  "LoadBorrow f =
     (if bfBasis f < 1 then Inl (BadBasis (bfBasis f))
      else if bfFallback f < 0 \<or> bfFallback f > MaxBorrowAnnual then Inl (BadFallback (bfFallback f))
      else
        (case date_at (bfThrough f) of
           None \<Rightarrow> Inl BadThrough
         | Some through \<Rightarrow>
             (case read_rates through Map.empty (bfRates f) of
                Inl e \<Rightarrow> Inl e
              | Inr rs \<Rightarrow>
                  (case read_windows through 0 Map.empty (bfUnavailable f) of
                     Inl e \<Rightarrow> Inl e
                   | Inr ws \<Rightarrow>
                       Inr \<lparr>brSource = bfSource f, brBasis = bfBasis f, brThrough = through,
                            brFallback = bfFallback f, brRates = rs, brUnavailable = ws\<rparr>))))"

definition borrow_Covers :: "borrow \<Rightarrow> time \<Rightarrow> bool" where
  "borrow_Covers b finish \<longleftrightarrow> \<not> finish > brThrough b + day_ns"

definition borrow_AnnualPct :: "(time \<Rightarrow> int) \<Rightarrow> borrow \<Rightarrow> string \<Rightarrow> time \<Rightarrow> f64" where
  "borrow_AnnualPct zone b ticker day =
     (case brRates b (to_upper ticker) of
        None \<Rightarrow> brFallback b
      | Some steps \<Rightarrow> step_at steps (dayOf zone day))"

definition borrow_PerPeriod :: "(f64 \<Rightarrow> f64 \<Rightarrow> f64) \<Rightarrow> (time \<Rightarrow> int) \<Rightarrow> borrow \<Rightarrow> string \<Rightarrow> time \<Rightarrow> f64 \<Rightarrow> f64" where
  "borrow_PerPeriod math_Pow zone b ticker day periods =
     (if periods \<le> 0 then 0 else per_period math_Pow (brBasis b) (borrow_AnnualPct zone b ticker day) periods)"

definition Available :: "(time \<Rightarrow> int) \<Rightarrow> borrow \<Rightarrow> string \<Rightarrow> time \<Rightarrow> bool" where
  "Available zone b ticker day =
     (case brUnavailable b (to_upper ticker) of
        None \<Rightarrow> True
      | Some windows \<Rightarrow>
          (let d = dayOf zone day in \<not> list_ex (\<lambda>w. \<not> d < bwFrom w \<and> \<not> d > bwTo w) windows))"

section \<open>The steps of a loaded table\<close>

definition steps_ok :: "f64 \<Rightarrow> rate_step list \<Rightarrow> bool" where
  "steps_ok highest steps \<longleftrightarrow>
     sorted_wrt (<) (map rsFrom steps) \<and> list_all (\<lambda>s. \<not> rsAnnualPct s < 0 \<and> \<not> rsAnnualPct s > highest) steps"

lemma steps_ok_snoc:
  assumes "steps_ok highest acc" and "acc = [] \<or> rsFrom (last acc) < rsFrom s"
    and "\<not> rsAnnualPct s < 0" and "\<not> rsAnnualPct s > highest"
  shows "steps_ok highest (acc @ [s])"
proof -
  have "rsFrom x < rsFrom s" if "x \<in> set acc" for x
  proof -
    have "acc \<noteq> []" using that by auto
    then obtain ys l where acc: "acc = ys @ [l]" by (cases acc rule: rev_cases) auto
    then have "rsFrom x \<le> rsFrom l" using that assms(1) by (auto simp: steps_ok_def sorted_wrt_append)
    then show ?thesis using assms(2) acc by auto
  qed
  then show ?thesis using assms by (auto simp: steps_ok_def sorted_wrt_append)
qed

lemma read_steps_ok:
  "steps_ok highest acc \<Longrightarrow> read_steps highest key acc es = Inr steps \<Longrightarrow>
   steps_ok highest steps \<and> length steps = length acc + length es"
proof (induction highest key acc es rule: read_steps.induct)
  case (2 highest key acc day pct rest)
  obtain start where s: "date_at day = Some start" "\<not> pct < 0" "\<not> pct > highest" "acc = [] \<or> start > rsFrom (last acc)"
    "read_steps highest key (acc @ [\<lparr>rsFrom = start, rsAnnualPct = pct\<rparr>]) rest = Inr steps"
    using "2.prems"(2) by (auto split: option.splits if_splits)
  have ok: "steps_ok highest (acc @ [\<lparr>rsFrom = start, rsAnnualPct = pct\<rparr>])"
    using steps_ok_snoc [OF "2.prems"(1), of "\<lparr>rsFrom = start, rsAnnualPct = pct\<rparr>"] s by simp
  show ?case using "2.IH" [OF s(1)] s ok by auto
qed simp

lemma LoadRates_ok:
  assumes "LoadRates f = Inr r"
  shows "steps_ok (Fin 100) (rtSteps r) \<and> rtSteps r \<noteq> [] \<and> \<not> rtBasis r < 1"
proof -
  obtain through steps where l: "rfRates f \<noteq> []" "read_steps (Fin 100) '''' [] (rfRates f) = Inr steps"
    "\<not> rfBasis f < 1" "rtSteps r = steps" "rtBasis r = rfBasis f"
    using assms by (auto simp: LoadRates_def split: if_splits option.splits sum.splits)
  have "steps_ok (Fin 100) steps \<and> length steps = length (rfRates f)"
    using read_steps_ok [OF _ l(2)] by (simp add: steps_ok_def)
  then show ?thesis using l(1,3,4,5) by auto
qed

text \<open>The step in force: the last one that starts no later than the day.\<close>

definition in_force :: "rate_step list \<Rightarrow> time \<Rightarrow> rate_step \<Rightarrow> bool" where
  "in_force steps d s \<longleftrightarrow>
     (case filter (\<lambda>x. rsFrom x \<le> d) steps of [] \<Rightarrow> s = hd steps | xs \<Rightarrow> s = last xs)"

lemma filter_take_sorted:
  "sorted_wrt (<) (map rsFrom steps) \<Longrightarrow> i \<le> length steps \<Longrightarrow>
   (\<And>k. k < i \<Longrightarrow> rsFrom (steps ! k) \<le> d) \<Longrightarrow> (\<And>k. i \<le> k \<Longrightarrow> k < length steps \<Longrightarrow> d < rsFrom (steps ! k)) \<Longrightarrow>
   filter (\<lambda>x. rsFrom x \<le> d) steps = take i steps"
proof -
  assume a: "i \<le> length steps" "\<And>k. k < i \<Longrightarrow> rsFrom (steps ! k) \<le> d"
    "\<And>k. i \<le> k \<Longrightarrow> k < length steps \<Longrightarrow> d < rsFrom (steps ! k)"
  have "filter (\<lambda>x. rsFrom x \<le> d) (take i steps) = take i steps"
    using a(1,2) by (auto simp: filter_id_conv in_set_conv_nth)
  moreover have "filter (\<lambda>x. rsFrom x \<le> d) (drop i steps) = []"
  proof (unfold filter_empty_conv, intro ballI)
    fix x assume "x \<in> set (drop i steps)"
    then obtain k where "k < length steps - i" "x = steps ! (i + k)" by (auto simp: in_set_conv_nth)
    then show "\<not> rsFrom x \<le> d" using a(3) [of "i + k"] by (simp add: less_diff_conv add.commute)
  qed
  ultimately show ?thesis by (metis append_take_drop_id filter_append append_Nil2)
qed

lemma step_at_in_force:
  assumes "steps_ok highest steps" and "steps \<noteq> []"
  shows "\<exists>s. in_force steps d s \<and> step_at steps d = rsAnnualPct s"
proof -
  define i where "i = sort_Search (length steps) (\<lambda>i. rsFrom (steps ! i) > d)"
  have sw: "sorted_wrt (<) (map rsFrom steps)" using assms(1) by (simp add: steps_ok_def)
  have mono: "rsFrom (steps ! a) > d \<Longrightarrow> rsFrom (steps ! b) > d" if "a \<le> b" "b < length steps" for a b
    using sorted_wrt_nth_less [OF sw, of a b] that by (cases "a = b") auto
  have len: "i \<le> length steps" unfolding i_def by (rule sort_Search_first(1)) (rule mono)
  have below: "rsFrom (steps ! k) \<le> d" if "k < i" for k
    using sort_Search_first(2) [where f = "\<lambda>i. rsFrom (steps ! i) > d" and n = "length steps" and k = k] mono that
    unfolding i_def by fastforce
  have above: "d < rsFrom (steps ! k)" if "i \<le> k" "k < length steps" for k
    using sort_Search_first(3) [where f = "\<lambda>i. rsFrom (steps ! i) > d" and n = "length steps" and k = k] mono that
    unfolding i_def by fastforce
  have fl: "filter (\<lambda>x. rsFrom x \<le> d) steps = take i steps"
    by (rule filter_take_sorted [OF sw len below above])
  have st: "step_at steps d = (if i = 0 then rsAnnualPct (steps ! 0) else rsAnnualPct (steps ! (i - 1)))"
    by (simp add: step_at_def i_def [symmetric])
  show ?thesis
  proof (cases "i = 0")
    case True
    then show ?thesis using assms(2) fl st
      by (intro exI [of _ "hd steps"]) (simp add: in_force_def hd_conv_nth)
  next
    case False
    obtain x xs where t: "take i steps = x # xs" using False assms(2) by (cases "take i steps") auto
    have "last (take i steps) = steps ! (i - 1)"
      using False assms(2) len by (simp add: last_conv_nth min_def)
    then show ?thesis using False fl st t
      by (intro exI [of _ "steps ! (i - 1)"]) (simp add: in_force_def)
  qed
qed

lemma read_rates_ok:
  "(\<And>k steps. acc k = Some steps \<Longrightarrow> steps_ok MaxBorrowAnnual steps \<and> steps \<noteq> []) \<Longrightarrow>
   read_rates through acc es = Inr m \<Longrightarrow> m k = Some steps \<Longrightarrow> steps_ok MaxBorrowAnnual steps \<and> steps \<noteq> []"
proof (induction through acc es rule: read_rates.induct)
  case (2 through acc ticker entries rest)
  obtain st where r: "ticker_key ticker \<noteq> ''''" "entries \<noteq> []"
    "read_steps MaxBorrowAnnual (ticker_key ticker) [] entries = Inr st"
    "\<not> through < rsFrom (last st)" "read_rates through (acc(ticker_key ticker \<mapsto> st)) rest = Inr m"
    using "2.prems"(2) by (auto simp: Let_def split: if_splits sum.splits)
  have st: "steps_ok MaxBorrowAnnual st \<and> st \<noteq> []"
    using read_steps_ok [OF _ r(3)] r(2) by (auto simp: steps_ok_def)
  have "steps_ok MaxBorrowAnnual s' \<and> s' \<noteq> []" if "(acc(ticker_key ticker \<mapsto> st)) k' = Some s'" for k' s'
    using that st "2.prems"(1) [of k' s'] by (auto split: if_splits)
  from "2.IH" [OF refl r(1,2,3) r(4) this r(5) "2.prems"(3)] show ?case .
qed auto

text \<open>C16: once a rate file or a borrow file is loaded, the rate read for any day is that of the step in
  force (the last step that starts no later than the day, the first step before all of them), a ticker
  without steps pays the file's fallback, and every rate is between zero and the loader's maximum.\<close>

theorem loaded_rate_in_force:
  "(case LoadRates f of
      Inl e \<Rightarrow> True
    | Inr r \<Rightarrow> \<exists>s. in_force (rtSteps r) (dayOf zone day) s \<and> s \<in> set (rtSteps r) \<and>
        rates_AnnualPct zone r day = rsAnnualPct s \<and> \<not> rsAnnualPct s < 0 \<and> \<not> rsAnnualPct s > Fin 100) \<and>
   (case LoadBorrow g of
      Inl e \<Rightarrow> True
    | Inr b \<Rightarrow>
        (case brRates b (to_upper ticker) of
           None \<Rightarrow> borrow_AnnualPct zone b ticker day = brFallback b
         | Some steps \<Rightarrow> \<exists>s. in_force steps (dayOf zone day) s \<and> s \<in> set steps \<and>
             borrow_AnnualPct zone b ticker day = rsAnnualPct s \<and> \<not> rsAnnualPct s < 0 \<and> \<not> rsAnnualPct s > MaxBorrowAnnual))"
proof -
  have force: "\<exists>s. in_force steps d s \<and> s \<in> set steps \<and> step_at steps d = rsAnnualPct s \<and>
      \<not> rsAnnualPct s < 0 \<and> \<not> rsAnnualPct s > highest" if ok: "steps_ok highest steps" and ne: "steps \<noteq> []" for highest steps d
  proof -
    obtain s where s: "in_force steps d s" "step_at steps d = rsAnnualPct s" using step_at_in_force [OF ok ne] by blast
    have "s \<in> set steps"
    proof (cases "filter (\<lambda>x. rsFrom x \<le> d) steps")
      case (Cons x xs)
      then have "s \<in> set (filter (\<lambda>x. rsFrom x \<le> d) steps)" using s(1) by (simp add: in_force_def)
      then show ?thesis by simp
    qed (use s(1) ne in \<open>simp add: in_force_def\<close>)
    then show ?thesis using s ok by (auto simp: steps_ok_def list_all_iff)
  qed
  have "steps_ok MaxBorrowAnnual steps \<and> steps \<noteq> []" if lb: "LoadBorrow g = Inr b" and br: "brRates b k = Some steps" for b k steps
  proof -
    obtain through m where "read_rates through Map.empty (bfRates g) = Inr m" "brRates b = m"
      using lb by (auto simp: LoadBorrow_def split: if_splits option.splits sum.splits)
    then show ?thesis using read_rates_ok [of Map.empty through "bfRates g" m k steps] br by simp
  qed
  then show ?thesis using LoadRates_ok [of f] force
    by (auto simp: rates_AnnualPct_def borrow_AnnualPct_def split: sum.splits option.splits)
qed

end
