(* ===== verification/Results.thy ===== *)
theory Results
  imports Actions Rates Indicator_Base
begin

text \<open>
  What a run reports (internal/backtest/run.go, metrics.go, stats.go and score.go): trades, the equity
  curve, the per-symbol and the aggregate metrics, the tally of the trades, the risk statistics of a
  curve and the score that ranks a run. Money is 64-bit, the counters are unbounded integers, a nil
  pointer is \<open>None\<close>. \<open>math.Pow\<close> is the argument \<open>math_Pow\<close>.
\<close>

datatype side_name = SideLong | SideShort

definition sideName :: "bool \<Rightarrow> side_name" where
  "sideName short = (if short then SideShort else SideLong)"

datatype exit_reason = ReasonSignal | ReasonStop | ReasonTarget | ReasonSplit | ReasonEndOfRun

record trade =
  trSeq :: i32
  trSymbolID :: i64
  trSymbol :: string
  trSide :: side_name
  trQty :: i64
  trEntryTS :: time
  trEntryPrice :: f64
  trExitTS :: time
  trExitPrice :: f64
  trPnL :: i64
  trFees :: i64
  trDividends :: i64
  trBorrow :: i64
  trSplitCash :: i64
  trReason :: exit_reason

record equity_point =
  epTS :: time
  epCents :: i64

record drawdown =
  ddPct :: f64
  ddCents :: i64
  ddPeakTS :: time
  ddTroughTS :: time
  ddBars :: int
  ddRecovered :: bool

definition no_drawdown :: drawdown where
  "no_drawdown = \<lparr>ddPct = 0, ddCents = 0, ddPeakTS = zero_time, ddTroughTS = zero_time, ddBars = 0, ddRecovered = False\<rparr>"

datatype bench_kind = BenchmarkHold | BenchmarkIndex

record benchmark =
  bmKind :: bench_kind
  bmSymbol :: string
  bmBasis :: basis
  bmReturnPct :: f64
  bmCAGRPct :: f64
  bmVolatilityPct :: f64
  bmMaxDrawdownPct :: f64
  bmSharpe :: f64
  bmExcessPct :: f64
  bmCorrelation :: f64
  bmBeta :: f64
  bmDividends :: i64
  bmFees :: i64
  bmUnavailable :: string
  bmCurve :: "i64 list option"
  bmSteps :: "f64 list"

record symbol_stats =
  ssSymbol :: string
  ssSymbolID :: i64
  ssBasis :: basis
  ssCapital :: i64
  ssFinalEquity :: i64
  ssTrades :: int
  ssWins :: int
  ssLosses :: int
  ssWinRatePct :: f64
  ssPnL :: i64
  ssFees :: i64
  ssDividends :: i64
  ssBorrow :: i64
  ssBorrowAnnualPct :: f64
  ssBarsInMarket :: int
  ssTimeInMarket :: f64
  ssContributionPct :: f64
  ssReturnPct :: f64
  ssCAGRPct :: f64
  ssVolatilityPct :: f64
  ssMaxDrawdown :: drawdown
  ssSharpe :: f64
  ssSortino :: f64
  ssCalmar :: f64
  ssProfitFactor :: "f64 option"
  ssExpectancy :: i64
  ssBenchmarks :: "benchmark list"

definition new_stats :: "string \<Rightarrow> basis \<Rightarrow> symbol_stats" where
  "new_stats ticker bs =
     \<lparr>ssSymbol = ticker, ssSymbolID = 0, ssBasis = bs, ssCapital = 0, ssFinalEquity = 0, ssTrades = 0,
      ssWins = 0, ssLosses = 0, ssWinRatePct = 0, ssPnL = 0, ssFees = 0, ssDividends = 0, ssBorrow = 0,
      ssBorrowAnnualPct = 0, ssBarsInMarket = 0, ssTimeInMarket = 0, ssContributionPct = 0, ssReturnPct = 0,
      ssCAGRPct = 0, ssVolatilityPct = 0, ssMaxDrawdown = no_drawdown, ssSharpe = 0, ssSortino = 0,
      ssCalmar = 0, ssProfitFactor = None, ssExpectancy = 0, ssBenchmarks = []\<rparr>"

record metrics =
  mBasis :: basis
  mBars :: int
  mBarsInMarket :: int
  mTimeInMarket :: f64
  mBarsPerYear :: f64
  mCapital :: i64
  mFinalEquity :: i64
  mPnL :: i64
  mFees :: i64
  mDividends :: i64
  mDividendEvents :: int
  mBorrow :: i64
  mBorrowStale :: bool
  mSplitCash :: i64
  mReturnPct :: f64
  mCAGRPct :: f64
  mVolatilityPct :: f64
  mMaxDrawdown :: drawdown
  mLongestDrawdownBars :: int
  mSharpe :: f64
  mSortino :: f64
  mCalmar :: f64
  mRiskFreePct :: f64
  mRiskFreeStale :: bool
  mTrades :: int
  mLongTrades :: int
  mShortTrades :: int
  mWins :: int
  mLosses :: int
  mScratches :: int
  mWinRatePct :: f64
  mProfitFactor :: "f64 option"
  mExpectancy :: i64
  mAvgWin :: i64
  mAvgLoss :: i64
  mLargestWin :: i64
  mLargestLoss :: i64
  mMaxConsecLosses :: int
  mAvgHoldingBars :: f64
  mExitsBySignal :: int
  mExitsByStop :: int
  mExitsByTarget :: int
  mExitsBySplit :: int
  mExitsAtEnd :: int
  mAmbiguousBars :: int
  mSkippedEntries :: int
  mShortsUnavailable :: int
  mUnadjustedBars :: int
  mUnpricedActions :: int
  mSplitEvents :: int
  mSplitsApplied :: int
  mSymbols :: "symbol_stats list"
  mBenchmarks :: "benchmark list"

definition new_metrics :: metrics where
  "new_metrics =
     \<lparr>mBasis = BasisPrice, mBars = 0, mBarsInMarket = 0, mTimeInMarket = 0, mBarsPerYear = 0, mCapital = 0,
      mFinalEquity = 0, mPnL = 0, mFees = 0, mDividends = 0, mDividendEvents = 0, mBorrow = 0, mBorrowStale = False,
      mSplitCash = 0, mReturnPct = 0, mCAGRPct = 0, mVolatilityPct = 0, mMaxDrawdown = no_drawdown,
      mLongestDrawdownBars = 0, mSharpe = 0, mSortino = 0, mCalmar = 0, mRiskFreePct = 0, mRiskFreeStale = False,
      mTrades = 0, mLongTrades = 0, mShortTrades = 0, mWins = 0, mLosses = 0, mScratches = 0, mWinRatePct = 0,
      mProfitFactor = None, mExpectancy = 0, mAvgWin = 0, mAvgLoss = 0, mLargestWin = 0, mLargestLoss = 0,
      mMaxConsecLosses = 0, mAvgHoldingBars = 0, mExitsBySignal = 0, mExitsByStop = 0, mExitsByTarget = 0,
      mExitsBySplit = 0, mExitsAtEnd = 0, mAmbiguousBars = 0, mSkippedEntries = 0, mShortsUnavailable = 0,
      mUnadjustedBars = 0, mUnpricedActions = 0, mSplitEvents = 0, mSplitsApplied = 0, mSymbols = [],
      mBenchmarks = []\<rparr>"

section \<open>Statistics of a curve\<close>

fun returns_from :: "i64 \<Rightarrow> equity_point list \<Rightarrow> f64 list" where
  "returns_from prev [] = []"
| "returns_from prev (p # ps) =
     (if prev = 0 then 0 else float_of (epCents p - prev) / \<bar>float_of prev\<bar>) # returns_from (epCents p) ps"

definition returnsOf :: "equity_point list \<Rightarrow> f64 list" where
  "returnsOf curve = (case curve of [] \<Rightarrow> [] | p # ps \<Rightarrow> returns_from (epCents p) ps)"

definition float_len :: "'a list \<Rightarrow> f64" where
  "float_len xs = float_of_int (int (length xs))"

definition mean :: "f64 list \<Rightarrow> f64" where
  "mean values = (if values = [] then 0 else fold (\<lambda>v total. total + v) values 0 / float_len values)"

definition stddev :: "f64 list \<Rightarrow> f64" where
  "stddev values =
     (if length values < 2 then 0
      else
        let avg = mean values;
            squares = fold (\<lambda>v acc. let delta = v - avg in acc + delta * delta) values 0
        in math_Sqrt (squares / float_of_int (int (length values) - 1)))"

definition downside :: "f64 list \<Rightarrow> f64 \<Rightarrow> f64" where
  "downside values target =
     (if length values < 2 then 0
      else
        let squares = fold (\<lambda>v acc. let delta = v - target in if delta < 0 then acc + delta * delta else acc) values 0
        in math_Sqrt (squares / float_of_int (int (length values) - 1)))"

definition annualizedVol :: "f64 list \<Rightarrow> f64 \<Rightarrow> f64" where
  "annualizedVol steps periods = (if periods \<le> 0 then 0 else stddev steps * math_Sqrt periods * Fin 100)"

text \<open>\<open>Time.Sub\<close> saturates; \<open>Duration.Hours\<close> splits off the whole hours.\<close>

definition time_sub :: "time \<Rightarrow> time \<Rightarrow> int" where
  "time_sub a b = max (- (2 ^ 63)) (min (2 ^ 63 - 1) (a - b))"

definition hour_ns :: int where "hour_ns = 3600 * 10 ^ 9"

definition hours_of :: "int \<Rightarrow> f64" where
  "hours_of d =
     float_of_int (tdiv d hour_ns) + float_of_int (d - tdiv d hour_ns * hour_ns) / float_of_int hour_ns"

definition cagr :: "(f64 \<Rightarrow> f64 \<Rightarrow> f64) \<Rightarrow> i64 \<Rightarrow> i64 \<Rightarrow> int \<Rightarrow> f64" where
  "cagr math_Pow first finish duration =
     (let years = hours_of duration / Fin 24 / Fin (36525 / 100)
      in if first \<le>s 0 \<or> finish \<le>s 0 \<or> years \<le> 0 then 0
         else (math_Pow (float_of finish / float_of first) (1 / years) - 1) * Fin 100)"

definition sharpe :: "f64 list \<Rightarrow> f64 \<Rightarrow> f64" where
  "sharpe excess periods =
     (let spread = stddev excess
      in if feq spread 0 \<or> periods \<le> 0 then 0 else mean excess / spread * math_Sqrt periods)"

definition sortino :: "f64 list \<Rightarrow> f64 \<Rightarrow> f64" where
  "sortino excess periods =
     (let spread = downside excess 0
      in if feq spread 0 \<or> periods \<le> 0 then 0 else mean excess / spread * math_Sqrt periods)"

definition calmar :: "f64 \<Rightarrow> f64 \<Rightarrow> f64" where
  "calmar annual maxDrawdown = (if maxDrawdown \<ge> 0 then 0 else annual / (- maxDrawdown))"

text \<open>The loop of \<open>deepestDrawdown\<close> from index \<open>i\<close> on: the worst fall, the peak, its index, the worst peak's cents.\<close>

fun drawdown_loop :: "int \<Rightarrow> equity_point list \<Rightarrow> drawdown \<times> equity_point \<times> int \<times> i64 \<Rightarrow> drawdown \<times> i64" where
  "drawdown_loop i [] (worst, peak, peakAt, peakCents) = (worst, peakCents)"
| "drawdown_loop i (point # ps) (worst, peak, peakAt, peakCents) =
     (if epCents peak \<le>s epCents point then drawdown_loop (i + 1) ps (worst, point, i, peakCents)
      else if epCents peak \<le>s 0 then drawdown_loop (i + 1) ps (worst, peak, peakAt, peakCents)
      else
        let fall = float_of (epCents point - epCents peak) / float_of (epCents peak) * Fin 100
        in if fall < ddPct worst then
             drawdown_loop (i + 1) ps
               (\<lparr>ddPct = fall, ddCents = epCents point - epCents peak, ddPeakTS = epTS peak, ddTroughTS = epTS point,
                 ddBars = i - peakAt, ddRecovered = False\<rparr>, peak, peakAt, epCents peak)
           else drawdown_loop (i + 1) ps (worst, peak, peakAt, peakCents))"

definition deepestDrawdown :: "equity_point list \<Rightarrow> drawdown" where
  "deepestDrawdown curve =
     (case curve of
        [] \<Rightarrow> no_drawdown
      | p # ps \<Rightarrow>
          (let (worst, peakCents) = drawdown_loop 0 curve (no_drawdown, p, 0, 0)
           in if feq (ddPct worst) 0 then no_drawdown
              else if list_ex (\<lambda>q. epTS q > ddTroughTS worst \<and> peakCents \<le>s epCents q) curve
                then worst\<lparr>ddRecovered := True\<rparr>
              else worst))"

fun longest_loop :: "int \<Rightarrow> equity_point list \<Rightarrow> i64 \<Rightarrow> int \<Rightarrow> int \<Rightarrow> int" where
  "longest_loop i [] peak peakAt longest = longest"
| "longest_loop i (p # ps) peak peakAt longest =
     (if peak \<le>s epCents p then longest_loop (i + 1) ps (epCents p) i longest
      else longest_loop (i + 1) ps peak peakAt (max longest (i - peakAt)))"

definition longestDrawdown :: "equity_point list \<Rightarrow> int" where
  "longestDrawdown curve = (case curve of [] \<Rightarrow> 0 | p # ps \<Rightarrow> longest_loop 0 curve (epCents p) 0 0)"

section \<open>The tally of the trades\<close>

text \<open>\<open>stampIndex\<close>: the index of a second on the timeline, a later stamp of the same second winning.\<close>

fun stamp_index :: "int \<Rightarrow> time list \<Rightarrow> int \<rightharpoonup> int" where
  "stamp_index i [] = Map.empty"
| "stamp_index i (t # ts) = [unix_of t \<mapsto> i] ++ stamp_index (i + 1) ts"

definition index_at :: "(int \<rightharpoonup> int) \<Rightarrow> time \<Rightarrow> int" where
  "index_at index t = (case index (unix_of t) of None \<Rightarrow> 0 | Some i \<Rightarrow> i)"

record tally =
  tlMetrics :: metrics
  tlGrossWin :: i64
  tlGrossLoss :: i64
  tlStreak :: int
  tlHolding :: int

definition tally_result :: "trade \<Rightarrow> tally \<Rightarrow> tally" where
  "tally_result tr t =
     (let m = tlMetrics t
      in if 0 <s trPnL tr then
           t\<lparr>tlMetrics := m\<lparr>mWins := mWins m + 1, mLargestWin := i64_max_of (mLargestWin m) (trPnL tr)\<rparr>,
             tlGrossWin := tlGrossWin t + trPnL tr, tlStreak := 0\<rparr>
         else if trPnL tr <s 0 then
           t\<lparr>tlMetrics := m\<lparr>mLosses := mLosses m + 1, mLargestLoss := i64_min_of (mLargestLoss m) (trPnL tr),
                             mMaxConsecLosses := max (mMaxConsecLosses m) (tlStreak t + 1)\<rparr>,
             tlGrossLoss := tlGrossLoss t + (- trPnL tr), tlStreak := tlStreak t + 1\<rparr>
         else t\<lparr>tlMetrics := m\<lparr>mScratches := mScratches m + 1\<rparr>, tlStreak := 0\<rparr>)"

definition tally_side :: "trade \<Rightarrow> metrics \<Rightarrow> metrics" where
  "tally_side tr m =
     (if trSide tr = SideShort then m\<lparr>mShortTrades := mShortTrades m + 1\<rparr>
      else m\<lparr>mLongTrades := mLongTrades m + 1\<rparr>)"

definition tally_reason :: "trade \<Rightarrow> metrics \<Rightarrow> metrics" where
  "tally_reason tr m =
     (case trReason tr of
        ReasonSignal \<Rightarrow> m\<lparr>mExitsBySignal := mExitsBySignal m + 1\<rparr>
      | ReasonStop \<Rightarrow> m\<lparr>mExitsByStop := mExitsByStop m + 1\<rparr>
      | ReasonTarget \<Rightarrow> m\<lparr>mExitsByTarget := mExitsByTarget m + 1\<rparr>
      | ReasonSplit \<Rightarrow> m\<lparr>mExitsBySplit := mExitsBySplit m + 1\<rparr>
      | ReasonEndOfRun \<Rightarrow> m\<lparr>mExitsAtEnd := mExitsAtEnd m + 1\<rparr>)"

definition tally_trade :: "(int \<rightharpoonup> int) \<Rightarrow> trade \<Rightarrow> tally \<Rightarrow> tally" where
  "tally_trade index tr t0 =
     (let t = tally_result tr t0;
          m = tally_side tr (tlMetrics t);
          m1 = m\<lparr>mFees := mFees m + trFees tr\<rparr>
      in t\<lparr>tlMetrics := tally_reason tr m1,
           tlHolding := tlHolding t + (index_at index (trExitTS tr) - index_at index (trEntryTS tr))\<rparr>)"

definition tally_ratios :: "tally \<Rightarrow> metrics" where
  "tally_ratios t =
     (let m = tlMetrics t
      in if mTrades m = 0 then m
         else
           m\<lparr>mWinRatePct := float_of_int (mWins m) / float_of_int (mTrades m) * Fin 100,
             mExpectancy := i64_div (tlGrossWin t - tlGrossLoss t) (word_of_int (mTrades m)),
             mAvgHoldingBars := float_of_int (tlHolding t) / float_of_int (mTrades m),
             mAvgWin := (if mWins m > 0 then i64_div (tlGrossWin t) (word_of_int (mWins m)) else mAvgWin m),
             mAvgLoss := (if mLosses m > 0 then i64_div (- tlGrossLoss t) (word_of_int (mLosses m)) else mAvgLoss m),
             mProfitFactor := (if 0 <s tlGrossLoss t then Some (float_of (tlGrossWin t) / float_of (tlGrossLoss t))
                               else mProfitFactor m)\<rparr>)"

definition tallyTrades :: "metrics \<Rightarrow> trade list \<Rightarrow> time list \<Rightarrow> metrics" where
  "tallyTrades m trades stamps =
     tally_ratios
       (fold (tally_trade (stamp_index 0 stamps)) trades
         \<lparr>tlMetrics = m, tlGrossWin = 0, tlGrossLoss = 0, tlStreak = 0, tlHolding = 0\<rparr>)"

section \<open>Risk\<close>

definition excess_of :: "f64 list \<Rightarrow> f64 list \<Rightarrow> f64 list" where
  "excess_of steps rf = map (\<lambda>(s, r). s - r) (zip steps rf)"

definition riskOf :: "(f64 \<Rightarrow> f64 \<Rightarrow> f64) \<Rightarrow> metrics \<Rightarrow> equity_point list \<Rightarrow> f64 list \<Rightarrow> f64 list \<Rightarrow> f64 \<Rightarrow> metrics" where
  "riskOf math_Pow m equity steps rf periods =
     (let first = hd equity; final = last equity;
          annual = cagr math_Pow (epCents first) (epCents final) (time_sub (epTS final) (epTS first));
          deepest = deepestDrawdown equity;
          excess = excess_of steps rf
      in m\<lparr>mCAGRPct := annual, mVolatilityPct := annualizedVol steps periods, mMaxDrawdown := deepest,
           mLongestDrawdownBars := longestDrawdown equity, mCalmar := calmar annual (ddPct deepest),
           mSharpe := sharpe excess periods, mSortino := sortino excess periods\<rparr>)"

definition riskFreeOf :: "(f64 \<Rightarrow> f64 \<Rightarrow> f64) \<Rightarrow> (time \<Rightarrow> int) \<Rightarrow> metrics \<Rightarrow> rates option \<Rightarrow> equity_point list \<Rightarrow> f64 \<Rightarrow> metrics \<times> f64 list" where
  "riskFreeOf math_Pow zone m rs equity periods =
     (case rs of
        None \<Rightarrow> (m, replicate (length equity - 1) 0)
      | Some r \<Rightarrow>
          (m\<lparr>mRiskFreePct := rates_AnnualPct zone r (epTS (last equity)),
             mRiskFreeStale := \<not> rates_Covers r (epTS (hd equity)) (epTS (last equity))\<rparr>,
           map (\<lambda>p. rates_PerPeriod math_Pow zone r (epTS p) periods) (tl equity)))"

section \<open>The score of a run\<close>

datatype objective =
    ObjectiveReturn | ObjectiveCAGR | ObjectiveSharpe | ObjectiveSortino
  | ObjectiveCalmar | ObjectiveProfitFactor | ObjectiveExpectancy

definition Score :: "metrics \<Rightarrow> objective \<Rightarrow> f64 option" where
  "Score m obj =
     (if mTrades m = 0 then None
      else
        (case obj of
           ObjectiveReturn \<Rightarrow> Some (mReturnPct m)
         | ObjectiveCAGR \<Rightarrow> Some (mCAGRPct m)
         | ObjectiveSharpe \<Rightarrow> Some (mSharpe m)
         | ObjectiveSortino \<Rightarrow> Some (mSortino m)
         | ObjectiveCalmar \<Rightarrow> Some (mCalmar m)
         | ObjectiveExpectancy \<Rightarrow> Some (float_of (mExpectancy m))
         | ObjectiveProfitFactor \<Rightarrow> (case mProfitFactor m of None \<Rightarrow> Some PInf | Some f \<Rightarrow> Some f)))"

end
