(* ===== verification/Engine.thy ===== *)
theory Engine
  imports Results Tape
begin

text \<open>
  The back-test engine (internal/backtest/engine.go, book.go and sizing.go): one symbol's book (bars,
  corporate actions, tape, position, pending order), the handlers of one bar in the order the engine
  calls them, the sizing of an entry and the marking of the equity. A handler takes the engine and the
  book it works on and returns both; the loop over the books writes the book back. \<open>math.Pow\<close> and the
  location of the borrow file's days are fields of \<open>env\<close>.
\<close>

record env =
  ePow :: "f64 \<Rightarrow> f64 \<Rightarrow> f64"
  eZone :: "time \<Rightarrow> int"

record symbol =
  syID :: i64
  syTicker :: string
  syKind :: string
  syLotSize :: i64
  syTickSize :: f64

record instrument =
  isSymbol :: symbol
  isPrime :: "candle list"
  isCandles :: "candle list"

record request =
  rqPlan :: plan
  rqInstruments :: "instrument list"
  rqTimeframe :: string
  rqCapital :: i64
  rqIndex :: "candle list"
  rqIndexSymbol :: string
  rqRates :: "rates option"
  rqBorrow :: "borrow option"
  rqBarsPerYear :: f64

record position =
  psOpen :: bool
  psShort :: bool
  psQty :: i64
  psEntryTS :: time
  psEntryPrice :: f64
  psEntry :: i64
  psFees :: i64
  psDiv :: i64
  psBorrow :: i64
  psOwed :: f64
  psSplit :: i64
  psStop :: f64
  psTarget :: f64

definition no_position :: position where
  "no_position =
     \<lparr>psOpen = False, psShort = False, psQty = 0, psEntryTS = zero_time, psEntryPrice = 0, psEntry = 0, psFees = 0,
      psDiv = 0, psBorrow = 0, psOwed = 0, psSplit = 0, psStop = 0, psTarget = 0\<rparr>"

text \<open>The engine's \<open>bracket\<close>: a level fixed when the signal fires; \<open>None\<close> is one that is not set.\<close>

type_synonym set_bracket = "(level_type \<times> f64) option"

definition distance :: "set_bracket \<Rightarrow> f64 \<Rightarrow> f64" where
  "distance b entry =
     (case b of
        None \<Rightarrow> 0
      | Some (k, v) \<Rightarrow> if k = LevelPct then entry * v else v)"

definition bracket_level :: "set_bracket \<Rightarrow> f64 \<Rightarrow> bool \<Rightarrow> f64" where
  "bracket_level b entry upward =
     (if b = None then 0 else if upward then entry + distance b entry else entry - distance b entry)"

datatype intent_kind = IntentNone | IntentEnter | IntentExit

record intent =
  itKind :: intent_kind
  itShort :: bool
  itStop :: set_bracket
  itTarget :: set_bracket

definition no_intent :: intent where
  "no_intent = \<lparr>itKind = IntentNone, itShort = False, itStop = None, itTarget = None\<rparr>"

record book =
  boSymbol :: symbol
  boCandles :: "candle list"
  boActs :: actions
  boTape :: tape
  boCosting :: costing
  boAt :: nat
  boPos :: position
  boPending :: intent
  boStats :: symbol_stats

record engine =
  enReq :: request
  enBooks :: "book list"
  enStamps :: "time list"
  enCash :: i64
  enTrades :: "trade list"
  enEquity :: "equity_point list"
  enHeld :: "time list"
  enMetrics :: metrics
  enSeq :: i32

section \<open>Books\<close>

definition newBook :: "plan \<Rightarrow> instrument \<Rightarrow> book" where
  "newBook pl inst =
     (let acts = actionsOf (isCandles inst)
      in \<lparr>boSymbol = isSymbol inst, boCandles = isCandles inst, boActs = acts,
          boTape = Prime (candlesFor (isPrime inst)) (NewTape pl),
          boCosting = \<lparr>Costs = sCosts (plSpec pl), TickSize = syTickSize (isSymbol inst)\<rparr>,
          boAt = 0, boPos = no_position, boPending = no_intent,
          boStats = new_stats (syTicker (isSymbol inst)) (actions_basis acts)\<rparr>)"

definition advance :: "time \<Rightarrow> book \<Rightarrow> (book \<times> candle \<times> nat) option" where
  "advance ts b =
     (if boAt b \<ge> length (boCandles b) \<or> cTS (boCandles b ! boAt b) \<noteq> ts then None
      else Some (b\<lparr>boAt := boAt b + 1\<rparr>, boCandles b ! boAt b, boAt b))"

definition final :: "book \<Rightarrow> nat \<Rightarrow> bool" where
  "final b i \<longleftrightarrow> int i = int (length (boCandles b)) - 1"

definition held_candle :: "book \<Rightarrow> candle option" where
  "held_candle b = (if boAt b < 1 then None else Some (boCandles b ! (boAt b - 1)))"

definition timelineOf :: "book list \<Rightarrow> time list" where
  "timelineOf books =
     (case books of
        [b] \<Rightarrow> map cTS (boCandles b)
      | _ \<Rightarrow> sort (remdups (concat (map (\<lambda>b. map cTS (boCandles b)) books))))"

definition newEngine :: "request \<Rightarrow> engine" where
  "newEngine req =
     (let books = map (newBook (rqPlan req)) (rqInstruments req)
      in \<lparr>enReq = req, enBooks = books, enStamps = timelineOf books, enCash = rqCapital req, enTrades = [],
          enEquity = [], enHeld = [], enMetrics = new_metrics\<lparr>mCapital := rqCapital req\<rparr>, enSeq = 0\<rparr>)"

definition trading_days :: f64 where "trading_days = Fin 252"

definition periods :: "engine \<Rightarrow> f64" where
  "periods e = (if rqBarsPerYear (enReq e) > 0 then rqBarsPerYear (enReq e) else trading_days)"

section \<open>Corporate actions and borrowing\<close>

definition add_cash :: "i64 \<Rightarrow> engine \<Rightarrow> engine" where
  "add_cash cents e = e\<lparr>enCash := enCash e + cents\<rparr>"

definition credit :: "nat \<Rightarrow> engine \<Rightarrow> book \<Rightarrow> engine \<times> book" where
  "credit i e b =
     (if \<not> psOpen (boPos b) then (e, b)
      else
        let perShare = dividendAt (boActs b) i
        in if perShare \<le> 0 then (e, b)
           else
             let p = boPos b;
                 raw = i64_of (math_Round (float_of (psQty p) * perShare * Fin 100));
                 paid = (if psShort p then - raw else raw);
                 m = enMetrics e
             in ((add_cash paid e)\<lparr>enMetrics := m\<lparr>mDividends := mDividends m + paid, mDividendEvents := mDividendEvents m + 1\<rparr>\<rparr>,
                 b\<lparr>boPos := p\<lparr>psDiv := psDiv p + paid\<rparr>,
                   boStats := (boStats b)\<lparr>ssDividends := ssDividends (boStats b) + paid\<rparr>\<rparr>))"

definition settleBorrow :: "i64 \<Rightarrow> engine \<Rightarrow> book \<Rightarrow> engine \<times> book" where
  "settleBorrow cents e b =
     (if cents \<le>s 0 then (e, b)
      else
        let p = boPos b; m = enMetrics e
        in ((add_cash (- cents) e)\<lparr>enMetrics := m\<lparr>mBorrow := mBorrow m + cents\<rparr>\<rparr>,
            b\<lparr>boPos := p\<lparr>psOwed := psOwed p - float_of cents, psBorrow := psBorrow p + cents\<rparr>,
              boStats := (boStats b)\<lparr>ssBorrow := ssBorrow (boStats b) + cents\<rparr>\<rparr>))"

definition charge :: "env \<Rightarrow> nat \<Rightarrow> engine \<Rightarrow> book \<Rightarrow> engine \<times> book" where
  "charge v i e b =
     (case rqBorrow (enReq e) of
        None \<Rightarrow> (e, b)
      | Some br \<Rightarrow>
          if \<not> psOpen (boPos b) \<or> \<not> psShort (boPos b) \<or> i = 0 then (e, b)
          else
            let prev = boCandles b ! (i - 1);
                rate = borrow_PerPeriod (ePow v) (eZone v) br (syTicker (boSymbol b)) (cTS prev) (periods e)
            in if rate \<le> 0 then (e, b)
               else
                 let p = boPos b;
                     owed = psOwed p + float_of (notional (psQty p) (cClose prev)) * rate
                 in settleBorrow (i64_of owed) e (b\<lparr>boPos := p\<lparr>psOwed := owed\<rparr>\<rparr>))"

definition record_trade :: "time \<Rightarrow> f64 \<Rightarrow> i64 \<Rightarrow> i64 \<Rightarrow> exit_reason \<Rightarrow> engine \<Rightarrow> book \<Rightarrow> engine \<times> book" where
  "record_trade ts price gross fee reason e0 b0 =
     (let (e, b) = settleBorrow (i64_of (math_Round (psOwed (boPos b0)))) e0 b0;
          p = boPos b;
          sy = boSymbol b;
          total = psFees p + fee;
          pnl = gross + psDiv p + psSplit p - psBorrow p - total;
          tr = \<lparr>trSeq = enSeq e + 1, trSymbolID = syID sy, trSymbol = syTicker sy, trSide = sideName (psShort p),
                trQty = psQty p, trEntryTS = psEntryTS p, trEntryPrice = psEntryPrice p, trExitTS = ts,
                trExitPrice = price, trPnL = pnl, trFees = total, trDividends = psDiv p, trBorrow = psBorrow p,
                trSplitCash = psSplit p, trReason = reason\<rparr>;
          s = boStats b;
          s1 = s\<lparr>ssTrades := ssTrades s + 1, ssPnL := ssPnL s + pnl, ssFees := ssFees s + total\<rparr>
      in (e\<lparr>enSeq := enSeq e + 1, enTrades := enTrades e @ [tr]\<rparr>,
          b\<lparr>boStats := (if 0 <s pnl then s1\<lparr>ssWins := ssWins s + 1\<rparr>
                        else if pnl <s 0 then s1\<lparr>ssLosses := ssLosses s + 1\<rparr> else s1),
            boPos := no_position\<rparr>))"

definition cashOut :: "f64 \<Rightarrow> f64 \<Rightarrow> engine \<Rightarrow> book \<Rightarrow> engine \<times> book" where
  "cashOut shares price e b =
     (if shares \<le> 0 \<or> price \<le> 0 then (e, b)
      else
        let raw = i64_of (math_Round (shares * price * Fin 100))
        in if raw = 0 then (e, b)
           else
             let p = boPos b; m = enMetrics e; cash = (if psShort p then - raw else raw)
             in ((add_cash cash e)\<lparr>enMetrics := m\<lparr>mSplitCash := mSplitCash m + cash\<rparr>\<rparr>,
                 b\<lparr>boPos := p\<lparr>psSplit := psSplit p + cash\<rparr>\<rparr>))"

definition settle :: "candle \<Rightarrow> f64 \<Rightarrow> f64 \<Rightarrow> engine \<Rightarrow> book \<Rightarrow> engine \<times> book" where
  "settle c price shares e0 b0 =
     (let (e, b) = cashOut shares price e0 b0;
          gross = (if psShort (boPos b) then psEntry (boPos b) else - psEntry (boPos b))
      in record_trade (cTS c) price gross 0 ReasonSplit e b)"

definition splitEpsilon :: f64 where "splitEpsilon = rnd (1 / 10 ^ 9)"

definition adjust :: "nat \<Rightarrow> candle \<Rightarrow> engine \<Rightarrow> book \<Rightarrow> engine \<times> book" where
  "adjust i c e0 b =
     (let factor = factorAt (boActs b) i
      in if factor \<le> 0 then (e0, b)
         else
           let e = e0\<lparr>enMetrics := (enMetrics e0)\<lparr>mSplitEvents := mSplitEvents (enMetrics e0) + 1\<rparr>\<rparr>
           in if \<not> psOpen (boPos b) then (e, b)
              else
                let price = (if cOpen c \<le> 0 then cClose c else cOpen c);
                    exact = float_of (psQty (boPos b)) * factor;
                    qty = i64_of (math_Floor (exact + splitEpsilon))
                in if qty <s 1 then settle c price exact e b
                   else
                     let (e1, b1) = cashOut (exact - float_of qty) price e b;
                         p = boPos b1
                     in (e1\<lparr>enMetrics := (enMetrics e1)\<lparr>mSplitsApplied := mSplitsApplied (enMetrics e1) + 1\<rparr>\<rparr>,
                         b1\<lparr>boPos := p\<lparr>psQty := qty, psEntryPrice := psEntryPrice p / factor,
                              psStop := (if 0 < psStop p then psStop p / factor else psStop p),
                              psTarget := (if 0 < psTarget p then psTarget p / factor else psTarget p)\<rparr>\<rparr>))"

section \<open>Signals\<close>

definition bracketFor :: "book \<Rightarrow> Compile.bracket option \<Rightarrow> set_bracket option" where
  "bracketFor b lv =
     (case lv of
        None \<Rightarrow> Some None
      | Some k \<Rightarrow>
          if lType (bkLevel k) = LevelPct then Some (Some (LevelPct, lValue (bkLevel k)))
          else
            (case tape_slot (boTape b) (bkSlot k) 0 of
               None \<Rightarrow> None
             | Some width \<Rightarrow> if width \<le> 0 then None else Some (Some (LevelATR, lMult (bkLevel k) * width))))"

definition skip_entry :: "engine \<Rightarrow> engine" where
  "skip_entry e = e\<lparr>enMetrics := (enMetrics e)\<lparr>mSkippedEntries := mSkippedEntries (enMetrics e) + 1\<rparr>\<rparr>"

text \<open>The loop over the two directions: a leg that does not fire leaves the bar to the next one.\<close>

fun offer :: "bool list \<Rightarrow> engine \<Rightarrow> book \<Rightarrow> engine \<times> book" where
  "offer [] e b = (e, b)"
| "offer (short # rest) e b =
     (let lg = plan_leg (rqPlan (enReq e)) short
      in if \<not> Trades lg \<or> \<not> tape_entry lg (boTape b) then offer rest e b
         else
           (case bracketFor b (lgStop lg) of
              None \<Rightarrow> (skip_entry e, b)
            | Some st \<Rightarrow>
                (case bracketFor b (lgTarget lg) of
                   None \<Rightarrow> (skip_entry e, b)
                 | Some tg \<Rightarrow>
                     (e, b\<lparr>boPending := \<lparr>itKind = IntentEnter, itShort = short, itStop = st, itTarget = tg\<rparr>\<rparr>))))"

definition signal :: "engine \<Rightarrow> book \<Rightarrow> engine \<times> book" where
  "signal e b0 =
     (let b = b0\<lparr>boPending := no_intent\<rparr>
      in if psOpen (boPos b) then
           (if tape_exit (plan_leg (rqPlan (enReq e)) (psShort (boPos b))) (boTape b)
            then (e, b\<lparr>boPending := no_intent\<lparr>itKind := IntentExit\<rparr>\<rparr>) else (e, b))
         else offer [False, True] e b)"

section \<open>Sizing\<close>

definition sharesFor :: "i64 \<Rightarrow> f64 \<Rightarrow> i64" where
  "sharesFor cents price =
     (if cents <s 1 \<or> price \<le> 0 then 0 else i64_of (math_Floor (float_of cents / (price * Fin 100))))"

definition affordable :: "engine \<Rightarrow> book \<Rightarrow> f64 \<Rightarrow> i64" where
  "affordable e b price =
     (let budget = float_of (enCash e - BrokerageCents (Costs (boCosting b)));
          each = price * Fin 100 * (1 + FeeBPS (Costs (boCosting b)) / Fin 10000)
      in if budget \<le> 0 \<or> each \<le> 0 then 0 else i64_of (math_Floor (budget / each)))"

definition cost :: "book \<Rightarrow> i64 \<Rightarrow> f64 \<Rightarrow> i64" where
  "cost b qty price = (let n = notional qty price in n + fees (boCosting b) n)"

definition lot_of :: "book \<Rightarrow> i64" where
  "lot_of b = i64_max_of (syLotSize (boSymbol b)) 1"

lemma lot_of_pos: "0 <s lot_of b"
  by (auto simp: lot_of_def i64_max_of_def word_sless_alt)

lemma sint_sub_lot:
  fixes q l :: i64
  assumes "0 <s q" and "0 <s l"
  shows "sint (q - l) = sint q - sint l"
proof -
  have "0 < sint q" "0 < sint l" using assms by (simp_all add: word_sless_alt)
  moreover have "sint q < 2 ^ 63" "sint l < 2 ^ 63" using sint_lt [of q] sint_lt [of l] by simp_all
  ultimately show ?thesis by (simp add: sint_word_ariths(2) signed_take_bit_int_eq_self)
qed

text \<open>The loop that takes lots off until the entry is paid for.\<close>

function trim_qty :: "engine \<Rightarrow> book \<Rightarrow> f64 \<Rightarrow> i64 \<Rightarrow> i64" where
  "trim_qty e b price qty =
     (if 0 <s qty \<and> enCash e <s cost b qty price then trim_qty e b price (qty - lot_of b) else qty)"
  by pat_completeness auto

termination
proof (relation "measure (\<lambda>(e, b, price, qty). nat (sint qty))")
  fix e b price and qty :: i64
  assume a: "0 <s qty \<and> enCash e <s cost b qty price"
  have "0 < sint qty" "0 < sint (lot_of b)" using a lot_of_pos [of b] by (simp_all add: word_sless_alt)
  then show "((e, b, price, qty - lot_of b), e, b, price, qty) \<in> measure (\<lambda>(e, b, price, qty). nat (sint qty))"
    using sint_sub_lot [of qty "lot_of b"] a lot_of_pos [of b] by simp
qed simp

declare trim_qty.simps [simp del]

definition wanted :: "engine \<Rightarrow> f64 \<Rightarrow> f64 \<Rightarrow> i64 option" where
  "wanted e price stopDistance =
     (let sz = sSizing (plSpec (rqPlan (enReq e)))
      in case szType sz of
           SizeFixedQty \<Rightarrow> Some (i64_of (szValue sz))
         | SizePctEquity \<Rightarrow> Some (sharesFor (i64_of (math_Round (float_of (enCash e) * szValue sz))) price)
         | SizeFixedCash \<Rightarrow> Some (sharesFor (i64_of (szValue sz)) price)
         | SizeRiskPct \<Rightarrow>
             if stopDistance \<le> 0 then None
             else Some (i64_of (math_Floor (float_of (enCash e) * szValue sz / Fin 100 / stopDistance))))"

definition size_entry :: "engine \<Rightarrow> book \<Rightarrow> f64 \<Rightarrow> f64 \<Rightarrow> i64" where
  "size_entry e b price stopDistance =
     (if price \<le> 0 then 0
      else
        (case wanted e price stopDistance of
           None \<Rightarrow> 0
         | Some qty \<Rightarrow>
             (let q1 = i64_min_of qty (affordable e b price);
                  q2 = i64_div q1 (lot_of b) * lot_of b
              in i64_max_of (trim_qty e b price q2) 0)))"

section \<open>Entries and exits\<close>

definition closingSide :: "bool \<Rightarrow> order_side" where
  "closingSide short = (if short then Buy else Sell)"

definition enter :: "env \<Rightarrow> candle \<Rightarrow> intent \<Rightarrow> engine \<Rightarrow> book \<Rightarrow> engine \<times> book" where
  "enter v c want e b =
     (if itShort want \<and> (case rqBorrow (enReq e) of None \<Rightarrow> False
                           | Some br \<Rightarrow> \<not> Available (eZone v) br (syTicker (boSymbol b)) (cTS c)) then
        (skip_entry (e\<lparr>enMetrics := (enMetrics e)\<lparr>mShortsUnavailable := mShortsUnavailable (enMetrics e) + 1\<rparr>\<rparr>), b)
      else
        let ord = \<lparr>Kind = OrderMarket, Side = (if itShort want then Sell else Buy), Price = 0\<rparr>
        in case order_fill ord (barOf c) of
             None \<Rightarrow> (e, b)
           | Some raw \<Rightarrow>
               (let price = costing_fill (boCosting b) ord raw
                in if price \<le> 0 then (e, b)
                   else
                     let qty = size_entry e b price (distance (itStop want) price)
                     in if qty <s 1 then (skip_entry e, b)
                        else
                          let n = notional qty price; f = fees (boCosting b) n
                          in (add_cash (if itShort want then n - f else - (n + f)) e,
                              b\<lparr>boPos := \<lparr>psOpen = True, psShort = itShort want, psQty = qty, psEntryTS = cTS c,
                                   psEntryPrice = price, psEntry = n, psFees = f, psDiv = 0, psBorrow = 0, psOwed = 0,
                                   psSplit = 0, psStop = bracket_level (itStop want) price (itShort want),
                                   psTarget = bracket_level (itTarget want) price (\<not> itShort want)\<rparr>\<rparr>)))"

definition exit_position :: "candle \<Rightarrow> bar \<Rightarrow> order \<Rightarrow> exit_reason \<Rightarrow> engine \<Rightarrow> book \<Rightarrow> engine \<times> book" where
  "exit_position c br ord reason e b =
     (case order_fill ord br of
        None \<Rightarrow> (e, b)
      | Some raw \<Rightarrow>
          (let p = boPos b;
               price = costing_fill (boCosting b) ord raw;
               n = notional (psQty p) price;
               f = fees (boCosting b) n;
               gross = (if psShort p then psEntry p - n else n - psEntry p)
           in record_trade (cTS c) price gross f reason (add_cash (if psShort p then - (n + f) else n - f) e) b))"

definition market_close :: "position \<Rightarrow> order" where
  "market_close p = \<lparr>Kind = OrderMarket, Side = closingSide (psShort p), Price = 0\<rparr>"

definition fill_pending :: "env \<Rightarrow> candle \<Rightarrow> engine \<Rightarrow> book \<Rightarrow> engine \<times> book" where
  "fill_pending v c e b0 =
     (let pending = boPending b0; b = b0\<lparr>boPending := no_intent\<rparr>
      in if itKind pending = IntentNone then (e, b)
         else if itKind pending = IntentEnter \<and> \<not> psOpen (boPos b) then enter v c pending e b
         else if itKind pending = IntentExit \<and> psOpen (boPos b) then
           exit_position c (barOf c) (market_close (boPos b)) ReasonSignal e b
         else (e, b))"

definition brackets :: "candle \<Rightarrow> engine \<Rightarrow> book \<Rightarrow> engine \<times> book" where
  "brackets c e0 b =
     (if \<not> psOpen (boPos b) then (e0, b)
      else
        let p = boPos b;
            br = barOf c;
            stop = \<lparr>Kind = OrderStop, Side = closingSide (psShort p), Price = psStop p\<rparr>;
            target = \<lparr>Kind = OrderLimit, Side = closingSide (psShort p), Price = psTarget p\<rparr>;
            hitStop = (0 < psStop p \<and> resting stop br);
            hitTarget = (0 < psTarget p \<and> resting target br);
            e = (if hitStop \<and> hitTarget
                 then e0\<lparr>enMetrics := (enMetrics e0)\<lparr>mAmbiguousBars := mAmbiguousBars (enMetrics e0) + 1\<rparr>\<rparr> else e0)
        in if hitStop then exit_position c br stop ReasonStop e b
           else if hitTarget then exit_position c br target ReasonTarget e b
           else (e, b))"

definition closeOut :: "candle \<Rightarrow> engine \<Rightarrow> book \<Rightarrow> engine \<times> book" where
  "closeOut c e b0 =
     (let b = b0\<lparr>boPending := no_intent\<rparr>
      in if \<not> psOpen (boPos b) then (e, b)
         else exit_position c (closeOf c) (market_close (boPos b)) ReasonEndOfRun e b)"

section \<open>The run\<close>

definition push_tape :: "candle \<Rightarrow> book \<Rightarrow> book" where
  "push_tape c b = b\<lparr>boTape := Push (candleFor c) (boTape b)\<rparr>"

text \<open>One bar of one book, in the order of the loop of \<open>run\<close>.\<close>

definition bar_step :: "env \<Rightarrow> nat \<Rightarrow> candle \<Rightarrow> engine \<Rightarrow> book \<Rightarrow> engine \<times> book" where
  "bar_step v i c e b =
     (let (e1, b1) = credit i e b;
          (e2, b2) = charge v i e1 b1;
          (e3, b3) = adjust i c e2 b2;
          (e4, b4) = fill_pending v c e3 b3;
          (e5, b5) = brackets c e4 b4;
          b6 = push_tape c b5
      in if final b6 i then closeOut c e5 b6 else signal e5 b6)"

fun step_books :: "env \<Rightarrow> time \<Rightarrow> engine \<Rightarrow> book list \<Rightarrow> engine \<times> book list" where
  "step_books v ts e [] = (e, [])"
| "step_books v ts e (b # bs) =
     (let (e1, b1) = (case advance ts b of None \<Rightarrow> (e, b) | Some (b', c, i) \<Rightarrow> bar_step v i c e b');
          (e2, bs2) = step_books v ts e1 bs
      in (e2, b1 # bs2))"

definition open_value :: "book \<Rightarrow> i64" where
  "open_value b =
     (case held_candle b of
        None \<Rightarrow> 0
      | Some c \<Rightarrow>
          (let n = notional (psQty (boPos b)) (cClose c) in if psShort (boPos b) then - n else n))"

definition marked :: "book \<Rightarrow> bool" where
  "marked b \<longleftrightarrow> psOpen (boPos b) \<and> held_candle b \<noteq> None"

definition mark_book :: "book \<Rightarrow> book" where
  "mark_book b =
     (if marked b then b\<lparr>boStats := (boStats b)\<lparr>ssBarsInMarket := ssBarsInMarket (boStats b) + 1\<rparr>\<rparr> else b)"

definition mark :: "time \<Rightarrow> engine \<Rightarrow> engine" where
  "mark ts e =
     (let equity = fold (\<lambda>b acc. if marked b then acc + open_value b else acc) (enBooks e) (enCash e);
          books = map mark_book (enBooks e);
          held = list_ex marked (enBooks e);
          m = enMetrics e
      in e\<lparr>enBooks := books,
           enMetrics := (if held then m\<lparr>mBarsInMarket := mBarsInMarket m + 1\<rparr> else m),
           enHeld := (if held then enHeld e @ [ts] else enHeld e),
           enEquity := enEquity e @ [\<lparr>epTS = ts, epCents = equity\<rparr>]\<rparr>)"

definition stamp_step :: "env \<Rightarrow> time \<Rightarrow> engine \<Rightarrow> engine" where
  "stamp_step v ts e =
     (let (e1, books) = step_books v ts e (enBooks e) in mark ts (e1\<lparr>enBooks := books\<rparr>))"

definition run_stamps :: "env \<Rightarrow> time list \<Rightarrow> engine \<Rightarrow> engine" where
  "run_stamps v stamps e = fold (stamp_step v) stamps e"

definition engine_run :: "env \<Rightarrow> request \<Rightarrow> engine" where
  "engine_run v req = (let e = newEngine req in run_stamps v (enStamps e) e)"

end
