(* ===== verification/Accounts.thy ===== *)
theory Accounts
  imports Engine
begin

text \<open>
  The books of the engine balance. Four accounts are followed through every handler: cash, dividends,
  borrow fees and the cash paid out for split fractions. What an account holds is always what the closed
  trades report plus what the open positions carry, so the final equity is the capital plus the profits
  of the trades, to the cent and with 64-bit arithmetic. The loop over the bars is an instance of the
  conserving machine of the prelude.
\<close>

datatype account = Cash | Dividends | Borrowing | SplitCash

fun posted :: "account \<Rightarrow> engine \<Rightarrow> i64" where
  "posted Cash e = enCash e"
| "posted Dividends e = mDividends (enMetrics e)"
| "posted Borrowing e = mBorrow (enMetrics e)"
| "posted SplitCash e = mSplitCash (enMetrics e)"

fun traded :: "account \<Rightarrow> trade \<Rightarrow> i64" where
  "traded Cash t = trPnL t"
| "traded Dividends t = trDividends t"
| "traded Borrowing t = trBorrow t"
| "traded SplitCash t = trSplitCash t"

text \<open>What an open position has moved so far; a short was paid its entry, a long paid for it.\<close>

fun carried :: "account \<Rightarrow> position \<Rightarrow> i64" where
  "carried Cash p =
     (if psOpen p then (if psShort p then psEntry p else - psEntry p) - psFees p + psDiv p + psSplit p - psBorrow p else 0)"
| "carried Dividends p = (if psOpen p then psDiv p else 0)"
| "carried Borrowing p = (if psOpen p then psBorrow p else 0)"
| "carried SplitCash p = (if psOpen p then psSplit p else 0)"

definition closed_total :: "account \<Rightarrow> engine \<Rightarrow> i64" where
  "closed_total a e = sum_list (map (traded a) (enTrades e))"

definition net :: "account \<Rightarrow> engine \<Rightarrow> book \<Rightarrow> i64" where
  "net a e b = posted a e - closed_total a e - carried a (boPos b)"

text \<open>Trades are numbered from one without gaps; an open position holds at least one share.\<close>

definition trades_ok :: "engine \<Rightarrow> bool" where
  "trades_ok e \<longleftrightarrow>
     enSeq e = word_of_nat (length (enTrades e)) \<and>
     map trSeq (enTrades e) = map word_of_nat [1..<Suc (length (enTrades e))] \<and>
     list_all (\<lambda>t. 1 \<le>s trQty t) (enTrades e)"

definition book_ok :: "book \<Rightarrow> bool" where
  "book_ok b \<longleftrightarrow> (if psOpen (boPos b) then 1 \<le>s psQty (boPos b) else True)"

definition same_frame :: "engine \<Rightarrow> book \<Rightarrow> engine \<Rightarrow> book \<Rightarrow> bool" where
  "same_frame e b e' b' \<longleftrightarrow>
     boCandles b' = boCandles b \<and> boAt b' = boAt b \<and> boSymbol b' = boSymbol b \<and> boCosting b' = boCosting b \<and>
     boActs b' = boActs b \<and>
     enBooks e' = enBooks e \<and> enReq e' = enReq e \<and> enStamps e' = enStamps e \<and> enEquity e' = enEquity e \<and>
     enHeld e' = enHeld e"

text \<open>A handler that leaves every account balanced and only touches its own book.\<close>

definition balanced :: "(engine \<Rightarrow> book \<Rightarrow> engine \<times> book) \<Rightarrow> engine \<Rightarrow> book \<Rightarrow> bool" where
  "balanced f e b \<longleftrightarrow>
     (case f e b of (e', b') \<Rightarrow>
        trades_ok e' \<and> book_ok b' \<and> (\<forall>a. net a e' b' = net a e b) \<and> same_frame e b e' b')"

lemma balancedI:
  assumes "f e b = (e', b')" and "trades_ok e'" and "book_ok b'" and "\<And>a. net a e' b' = net a e b"
    and "same_frame e b e' b'"
  shows "balanced f e b"
  using assms by (simp add: balanced_def)

lemma balancedE:
  assumes "balanced f e b" and "f e b = (e', b')"
  shows "trades_ok e'" and "book_ok b'" and "\<And>a. net a e' b' = net a e b" and "same_frame e b e' b'"
  using assms by (simp_all add: balanced_def)

lemma same_frame_trans: "same_frame e b e1 b1 \<Longrightarrow> same_frame e1 b1 e2 b2 \<Longrightarrow> same_frame e b e2 b2"
  by (simp add: same_frame_def)

lemma same_frame_refl [simp]: "same_frame e b e b"
  by (simp add: same_frame_def)

lemma balanced_comp:
  assumes "balanced f e b"
    and "\<And>e' b'. f e b = (e', b') \<Longrightarrow> trades_ok e' \<Longrightarrow> book_ok b' \<Longrightarrow> same_frame e b e' b' \<Longrightarrow> balanced g e' b'"
  shows "balanced (\<lambda>e b. case f e b of (e', b') \<Rightarrow> g e' b') e b"
proof -
  obtain e1 b1 where f: "f e b = (e1, b1)" by (cases "f e b")
  note F = balancedE [OF assms(1) f]
  obtain e2 b2 where g: "g e1 b1 = (e2, b2)" by (cases "g e1 b1")
  note G = balancedE [OF assms(2) [OF f F(1,2,4)] g]
  show ?thesis
    by (rule balancedI [where e' = e2 and b' = b2]) (use f g F G same_frame_trans [OF F(4) G(4)] in auto)
qed

lemma balanced_same:
  "trades_ok e \<Longrightarrow> book_ok b \<Longrightarrow> f e b = (e', b') \<Longrightarrow> enTrades e' = enTrades e \<Longrightarrow> enSeq e' = enSeq e \<Longrightarrow>
   book_ok b' \<Longrightarrow> (\<And>a. posted a e' - carried a (boPos b') = posted a e - carried a (boPos b)) \<Longrightarrow>
   same_frame e b e' b' \<Longrightarrow> balanced f e b"
  by (rule balancedI [where e' = e' and b' = b'])
     (auto simp: trades_ok_def net_def closed_total_def algebra_simps)

lemma posted_add_cash [simp]:
  "posted a (add_cash x e) = posted a e + (if a = Cash then x else 0)"
  by (cases a) (simp_all add: add_cash_def)

lemma add_cash_simps [simp]:
  "enTrades (add_cash x e) = enTrades e" "enSeq (add_cash x e) = enSeq e" "enMetrics (add_cash x e) = enMetrics e"
  "enBooks (add_cash x e) = enBooks e" "enReq (add_cash x e) = enReq e" "enStamps (add_cash x e) = enStamps e"
  "enEquity (add_cash x e) = enEquity e" "enHeld (add_cash x e) = enHeld e" "enCash (add_cash x e) = enCash e + x"
  by (simp_all add: add_cash_def)

section \<open>Handlers that move money through an open position\<close>

lemma settleBorrow_balanced:
  assumes "trades_ok e" and "book_ok b" and "psOpen (boPos b)"
  shows "balanced (settleBorrow cents) e b"
proof (rule balanced_same [OF assms(1,2)])
  show "settleBorrow cents e b = (fst (settleBorrow cents e b), snd (settleBorrow cents e b))" by simp
  fix a show "posted a (fst (settleBorrow cents e b)) - carried a (boPos (snd (settleBorrow cents e b)))
    = posted a e - carried a (boPos b)"
    using assms(3) by (cases a) (simp_all add: settleBorrow_def Let_def)
qed (use assms in \<open>simp_all add: settleBorrow_def book_ok_def same_frame_def Let_def\<close>)

lemma cashOut_balanced:
  assumes "trades_ok e" and "book_ok b" and "psOpen (boPos b)"
  shows "balanced (cashOut shares price) e b"
proof (rule balanced_same [OF assms(1,2)])
  show "cashOut shares price e b = (fst (cashOut shares price e b), snd (cashOut shares price e b))" by simp
  fix a show "posted a (fst (cashOut shares price e b)) - carried a (boPos (snd (cashOut shares price e b)))
    = posted a e - carried a (boPos b)"
    using assms(3) by (cases a) (simp_all add: cashOut_def Let_def)
qed (use assms in \<open>simp_all add: cashOut_def book_ok_def same_frame_def Let_def\<close>)

lemma credit_balanced:
  assumes "trades_ok e" and "book_ok b"
  shows "balanced (credit i) e b"
proof (rule balanced_same [OF assms(1,2)])
  show "credit i e b = (fst (credit i e b), snd (credit i e b))" by simp
  fix a show "posted a (fst (credit i e b)) - carried a (boPos (snd (credit i e b))) = posted a e - carried a (boPos b)"
    by (cases a) (simp_all add: credit_def Let_def)
qed (use assms in \<open>simp_all add: credit_def book_ok_def same_frame_def Let_def\<close>)

lemma charge_balanced:
  assumes "trades_ok e" and "book_ok b"
  shows "balanced (charge v i) e b"
proof (cases "charge v i e b = (e, b)")
  case True
  then show ?thesis by (intro balancedI [where e' = e and b' = b]) (use assms in auto)
next
  case False
  then obtain owed where o': "psOpen (boPos b)"
    "charge v i e b = settleBorrow (i64_of owed) e (b\<lparr>boPos := (boPos b)\<lparr>psOwed := owed\<rparr>\<rparr>)"
    by (auto simp: charge_def Let_def split: option.splits if_splits)
  let ?b = "b\<lparr>boPos := (boPos b)\<lparr>psOwed := owed\<rparr>\<rparr>"
  obtain e' b' where f: "settleBorrow (i64_of owed) e ?b = (e', b')" by force
  have "balanced (settleBorrow (i64_of owed)) e ?b"
    by (rule settleBorrow_balanced) (use assms o' in \<open>simp_all add: book_ok_def\<close>)
  note S = balancedE [OF this f]
  have "carried a (boPos ?b) = carried a (boPos b)" for a by (cases a) simp_all
  then have "net a e ?b = net a e b" for a by (simp add: net_def)
  with S show ?thesis
    by (intro balancedI [where e' = e' and b' = b']) (simp_all add: o' f same_frame_def)
qed

text \<open>Closing a position: what the trade reports is what the position carried and the closing flow.\<close>

definition closing_gap :: "position \<Rightarrow> i64 \<Rightarrow> i64 \<Rightarrow> account \<Rightarrow> i64" where
  "closing_gap p gross fee a = (if a = Cash then (if psShort p then psEntry p else - psEntry p) - gross + fee else 0)"

lemma trades_ok_snoc:
  assumes "trades_ok e" and "enSeq e' = enSeq e + 1" and "enTrades e' = enTrades e @ [t]"
    and "trSeq t = enSeq e + 1" and "1 \<le>s trQty t"
  shows "trades_ok e'"
  using assms by (simp add: trades_ok_def)

lemma record_trade_net:
  assumes ok: "trades_ok e" "book_ok b" "psOpen (boPos b)"
    and r: "record_trade ts price gross fee reason e b = (e', b')"
  shows "trades_ok e'" and "boPos b' = no_position" and "same_frame e b e' b'" and "boPending b' = boPending b"
    and "net a e' b' = net a e b + closing_gap (boPos b) gross fee a"
proof -
  obtain e1 b1 where s1: "settleBorrow (i64_of (math_Round (psOwed (boPos b)))) e b = (e1, b1)" by force
  note S = balancedE [OF settleBorrow_balanced [OF ok] s1]
  have keep: "enTrades e1 = enTrades e" "enSeq e1 = enSeq e" "psOpen (boPos b1)" "psShort (boPos b1) = psShort (boPos b)"
    "psEntry (boPos b1) = psEntry (boPos b)" "psFees (boPos b1) = psFees (boPos b)" "psQty (boPos b1) = psQty (boPos b)"
    "boPending b1 = boPending b"
    using s1 ok(3) by (auto simp: settleBorrow_def Let_def split: if_splits)
  obtain t where t: "enTrades e' = enTrades e1 @ [t]" "enSeq e' = enSeq e1 + 1" "trSeq t = enSeq e1 + 1"
    "trQty t = psQty (boPos b1)" "enCash e' = enCash e1" "enMetrics e' = enMetrics e1" "boPos b' = no_position"
    "trPnL t = gross + psDiv (boPos b1) + psSplit (boPos b1) - psBorrow (boPos b1) - (psFees (boPos b1) + fee)"
    "trDividends t = psDiv (boPos b1)" "trBorrow t = psBorrow (boPos b1)" "trSplitCash t = psSplit (boPos b1)"
    and fr: "same_frame e1 b1 e' b'" and pend: "boPending b' = boPending b1"
    using r s1 by (auto simp: record_trade_def Let_def same_frame_def)
  show "trades_ok e'"
    by (rule trades_ok_snoc [OF S(1) t(2,1,3)]) (use t keep ok in \<open>simp add: book_ok_def\<close>)
  show "boPos b' = no_position" "boPending b' = boPending b" using t(7) keep pend by simp_all
  show "same_frame e b e' b'" by (rule same_frame_trans [OF S(4) fr])
  have "net a e' b' = net a e1 b1 + closing_gap (boPos b) gross fee a"
    using keep t by (cases a) (simp_all add: net_def closed_total_def closing_gap_def no_position_def algebra_simps)
  then show "net a e' b' = net a e b + closing_gap (boPos b) gross fee a" by (simp add: S(3))
qed

lemma book_ok_closed: "boPos b = no_position \<Longrightarrow> book_ok b"
  by (simp add: book_ok_def no_position_def)

lemma settle_balanced:
  assumes "trades_ok e" and "book_ok b" and "psOpen (boPos b)"
  shows "balanced (settle c price shares) e b"
proof -
  obtain e1 b1 where c1: "cashOut shares price e b = (e1, b1)" by force
  note C = balancedE [OF cashOut_balanced [OF assms] c1]
  have op: "psOpen (boPos b1)" using c1 assms(3) by (auto simp: cashOut_def Let_def split: if_splits)
  obtain e2 b2 where s2: "settle c price shares e b = (e2, b2)" by force
  then have r: "record_trade (cTS c) price (if psShort (boPos b1) then psEntry (boPos b1) else - psEntry (boPos b1)) 0
      ReasonSplit e1 b1 = (e2, b2)"
    using c1 by (simp add: settle_def Let_def)
  note R = record_trade_net [OF C(1,2) op r]
  have "net a e2 b2 = net a e b" for a using R(5) [of a] C(3) [of a] by (simp add: closing_gap_def)
  then show ?thesis
    using s2 R book_ok_closed same_frame_trans [OF C(4) R(3)] by (intro balancedI [where e' = e2 and b' = b2]) auto
qed

lemma adjust_balanced:
  assumes "trades_ok e" and "book_ok b"
  shows "balanced (adjust i c) e b"
proof -
  let ?e = "e\<lparr>enMetrics := (enMetrics e)\<lparr>mSplitEvents := mSplitEvents (enMetrics e) + 1\<rparr>\<rparr>"
  have ok: "trades_ok ?e" using assms(1) by (simp add: trades_ok_def)
  have pe: "posted a ?e = posted a e" for a by (cases a) simp_all
  have ne: "net a ?e b' = net a e b'" for a b' by (simp add: net_def pe closed_total_def)
  let ?f = "factorAt (boActs b) i" and ?price = "if cOpen c \<le> 0 then cClose c else cOpen c"
  let ?exact = "float_of (psQty (boPos b)) * ?f"
  let ?qty = "i64_of (math_Floor (?exact + splitEpsilon))"
  consider (idle) "?f \<le> 0" | (closed) "\<not> ?f \<le> 0" "\<not> psOpen (boPos b)"
    | (gone) "\<not> ?f \<le> 0" "psOpen (boPos b)" "?qty <s 1"
    | (kept) "\<not> ?f \<le> 0" "psOpen (boPos b)" "\<not> ?qty <s 1" by blast
  then show ?thesis
  proof cases
    case idle
    then show ?thesis by (intro balancedI [where e' = e and b' = b]) (use assms in \<open>auto simp: adjust_def\<close>)
  next
    case closed
    then show ?thesis
      by (intro balancedI [where e' = ?e and b' = b]) (use assms ok ne in \<open>auto simp: adjust_def same_frame_def\<close>)
  next
    case gone
    obtain e' b' where s': "settle c ?price ?exact ?e b = (e', b')" by force
    have "adjust i c e b = (e', b')" using gone s' by (simp add: adjust_def Let_def)
    moreover note balancedE [OF settle_balanced [OF ok assms(2) gone(2)] s']
    ultimately show ?thesis by (intro balancedI [where e' = e' and b' = b']) (auto simp: ne same_frame_def)
  next
    case kept
    obtain e1 b1 where c1: "cashOut (?exact - float_of ?qty) ?price ?e b = (e1, b1)" by force
    note C = balancedE [OF cashOut_balanced [OF ok assms(2) kept(2)] c1]
    let ?e1 = "e1\<lparr>enMetrics := (enMetrics e1)\<lparr>mSplitsApplied := mSplitsApplied (enMetrics e1) + 1\<rparr>\<rparr>"
    let ?b1 = "b1\<lparr>boPos := (boPos b1)\<lparr>psQty := ?qty, psEntryPrice := psEntryPrice (boPos b1) / ?f,
                   psStop := (if 0 < psStop (boPos b1) then psStop (boPos b1) / ?f else psStop (boPos b1)),
                   psTarget := (if 0 < psTarget (boPos b1) then psTarget (boPos b1) / ?f else psTarget (boPos b1))\<rparr>\<rparr>"
    have "adjust i c e b = (?e1, ?b1)" using kept c1 by (simp add: adjust_def Let_def)
    moreover have "trades_ok ?e1" using C(1) by (simp add: trades_ok_def)
    moreover have "1 \<le>s ?qty" using kept(3) by (simp add: word_sless_alt word_sle_eq)
    then have "book_ok ?b1" by (simp add: book_ok_def)
    moreover have "net a ?e1 ?b1 = net a e b" for a
    proof -
      have "net a ?e1 ?b1 = net a e1 b1" by (cases a) (simp_all add: net_def closed_total_def)
      then show ?thesis using C(3) [of a] ne by simp
    qed
    moreover have "same_frame e b ?e1 ?b1" using C(4) by (simp add: same_frame_def)
    ultimately show ?thesis by (rule balancedI)
  qed
qed

section \<open>Entries and exits\<close>

lemma posted_skip_entry [simp]: "posted a (skip_entry e) = posted a e"
  by (cases a) (simp_all add: skip_entry_def)

lemma skip_entry_simps [simp]:
  "enTrades (skip_entry e) = enTrades e" "enSeq (skip_entry e) = enSeq e" "enBooks (skip_entry e) = enBooks e"
  "enReq (skip_entry e) = enReq e" "enStamps (skip_entry e) = enStamps e" "enEquity (skip_entry e) = enEquity e"
  "enHeld (skip_entry e) = enHeld e" "enCash (skip_entry e) = enCash e"
  by (simp_all add: skip_entry_def)

text \<open>Handlers that move no money and keep the position.\<close>

lemma balanced_quiet:
  assumes "trades_ok e" and "book_ok b" and "f e b = (e', b')" and "enTrades e' = enTrades e" and "enSeq e' = enSeq e"
    and "\<And>a. posted a e' = posted a e" and "boPos b' = boPos b" and "same_frame e b e' b'"
  shows "balanced f e b"
  by (rule balanced_same [where e' = e' and b' = b']) (use assms in \<open>simp_all add: book_ok_def\<close>)

lemma exit_balanced:
  assumes "trades_ok e" and "book_ok b" and "psOpen (boPos b)"
  shows "balanced (exit_position c br ord reason) e b"
proof (cases "order_fill ord br")
  case None
  then show ?thesis by (intro balancedI [where e' = e and b' = b]) (use assms in \<open>auto simp: exit_position_def\<close>)
next
  case (Some raw)
  define n where "n = notional (psQty (boPos b)) (costing_fill (boCosting b) ord raw)"
  define f where "f = fees (boCosting b) n"
  let ?e = "add_cash (if psShort (boPos b) then - (n + f) else n - f) e"
  let ?gross = "if psShort (boPos b) then psEntry (boPos b) - n else n - psEntry (boPos b)"
  obtain e' b' where r: "record_trade (cTS c) (costing_fill (boCosting b) ord raw) ?gross f reason ?e b = (e', b')" by force
  have ok: "trades_ok ?e" using assms(1) by (simp add: trades_ok_def)
  note R = record_trade_net [OF ok assms(2,3) r]
  have "net a e' b' = net a e b" for a
    using R(5) [of a] by (cases a) (simp_all add: net_def closed_total_def closing_gap_def)
  moreover have "exit_position c br ord reason e b = (e', b')"
    using Some r by (cases "psShort (boPos b)") (simp_all add: exit_position_def Let_def n_def f_def)
  moreover have "same_frame e b e' b'" using R(3) by (simp add: same_frame_def)
  ultimately show ?thesis
    using R(1,2) book_ok_closed by (intro balancedI [where e' = e' and b' = b']) auto
qed

lemma exit_closes:
  assumes "trades_ok e" and "book_ok b" and "psOpen (boPos b)" and "Kind ord = OrderMarket"
  shows "boPos (snd (exit_position c br ord reason e b)) = no_position"
proof -
  let ?p = "costing_fill (boCosting b) ord (Open br)"
  let ?n = "notional (psQty (boPos b)) ?p"
  let ?f = "fees (boCosting b) ?n"
  let ?e = "add_cash (if psShort (boPos b) then - (?n + ?f) else ?n - ?f) e"
  have ok: "trades_ok ?e" using assms(1) by (simp add: trades_ok_def)
  obtain e' b' where r: "record_trade (cTS c) ?p (if psShort (boPos b) then psEntry (boPos b) - ?n else ?n - psEntry (boPos b))
      ?f reason ?e b = (e', b')" by force
  show ?thesis
    using record_trade_net(2) [OF ok assms(2,3) r] r assms(4)
    by (simp add: exit_position_def order_fill_def Let_def)
qed

lemma enter_balanced:
  assumes "trades_ok e" and "book_ok b" and "\<not> psOpen (boPos b)"
  shows "balanced (enter v c want) e b"
proof -
  let ?ord = "\<lparr>Kind = OrderMarket, Side = (if itShort want then Sell else Buy), Price = 0\<rparr>"
  define price where "price = costing_fill (boCosting b) ?ord (cOpen c)"
  define qty where "qty = size_entry e b price (distance (itStop want) price)"
  define n where "n = notional qty price"
  define f where "f = fees (boCosting b) n"
  have fill: "order_fill ?ord (barOf c) = Some (cOpen c)" by (simp add: order_fill_def barOf_def)
  let ?barred = "itShort want \<and> (case rqBorrow (enReq e) of None \<Rightarrow> False
      | Some br \<Rightarrow> \<not> Available (eZone v) br (syTicker (boSymbol b)) (cTS c))"
  let ?eu = "e\<lparr>enMetrics := (enMetrics e)\<lparr>mShortsUnavailable := mShortsUnavailable (enMetrics e) + 1\<rparr>\<rparr>"
  have pu: "posted a ?eu = posted a e" for a by (cases a) simp_all
  consider (barred) "?barred" | (worthless) "\<not> ?barred" "price \<le> 0"
    | (small) "\<not> ?barred" "\<not> price \<le> 0" "qty <s 1" | (taken) "\<not> ?barred" "\<not> price \<le> 0" "\<not> qty <s 1" by blast
  then show ?thesis
  proof cases
    case barred
    then show ?thesis
      by (intro balanced_quiet [OF assms(1,2), where e' = "skip_entry ?eu" and b' = b])
         (auto simp: enter_def pu same_frame_def)
  next
    case worthless
    then have "enter v c want e b = (e, b)"
      unfolding enter_def price_def by (simp only: if_False fill Let_def option.case if_True)
    then show ?thesis by (intro balancedI [where e' = e and b' = b]) (use assms in auto)
  next
    case small
    then have "enter v c want e b = (skip_entry e, b)"
      unfolding enter_def price_def qty_def by (simp only: if_False fill Let_def option.case if_True)
    then show ?thesis
      by (intro balanced_quiet [OF assms(1,2), where e' = "skip_entry e" and b' = b]) (auto simp: same_frame_def)
  next
    case taken
    let ?b = "b\<lparr>boPos := \<lparr>psOpen = True, psShort = itShort want, psQty = qty, psEntryTS = cTS c,
      psEntryPrice = price, psEntry = n, psFees = f, psDiv = 0, psBorrow = 0, psOwed = 0,
      psSplit = 0, psStop = bracket_level (itStop want) price (itShort want),
      psTarget = bracket_level (itTarget want) price (\<not> itShort want)\<rparr>\<rparr>"
    let ?e = "add_cash (if itShort want then n - f else - (n + f)) e"
    have "enter v c want e b = (?e, ?b)"
      using taken unfolding enter_def price_def qty_def n_def f_def by (simp only: if_False fill Let_def option.case)
    moreover have "1 \<le>s qty" using taken(3) by (simp add: word_sless_alt word_sle_eq)
    then have "book_ok ?b" by (simp add: book_ok_def)
    moreover have "posted a ?e - carried a (boPos ?b) = posted a e - carried a (boPos b)" for a
      using assms(3) by (cases a) simp_all
    ultimately show ?thesis
      by (intro balanced_same [OF assms(1,2), where e' = ?e and b' = ?b]) (auto simp: same_frame_def)
  qed
qed

lemma clear_pending_ok [simp]:
  "book_ok (b\<lparr>boPending := x\<rparr>) = book_ok b" "net a e (b\<lparr>boPending := x\<rparr>) = net a e b"
  "same_frame e (b\<lparr>boPending := x\<rparr>) e' b' = same_frame e b e' b'"
  "book_ok (push_tape c b) = book_ok b" "net a e (push_tape c b) = net a e b"
  by (simp_all add: book_ok_def net_def same_frame_def push_tape_def)

lemma balanced_pending:
  assumes "balanced f e (b\<lparr>boPending := x\<rparr>)" and "g e b = f e (b\<lparr>boPending := x\<rparr>)"
  shows "balanced g e b"
  using assms by (simp add: balanced_def)

lemma fill_pending_balanced:
  assumes "trades_ok e" and "book_ok b"
  shows "balanced (fill_pending v c) e b"
proof -
  let ?b = "b\<lparr>boPending := no_intent\<rparr>"
  have ok: "book_ok ?b" using assms(2) by simp
  consider (enter) "itKind (boPending b) = IntentEnter" "\<not> psOpen (boPos b)"
    | (exit) "itKind (boPending b) = IntentExit" "psOpen (boPos b)"
    | (none) "fill_pending v c e b = (e, ?b)"
    by (cases "itKind (boPending b)"; cases "psOpen (boPos b)") (auto simp: fill_pending_def Let_def)
  then show ?thesis
  proof cases
    case enter
    then show ?thesis
      by (intro balanced_pending [OF enter_balanced [OF assms(1) ok, of v c "boPending b"]]) (auto simp: fill_pending_def Let_def)
  next
    case exit
    then show ?thesis
      by (intro balanced_pending [OF exit_balanced [OF assms(1) ok, of c "barOf c" "market_close (boPos b)" ReasonSignal]])
         (auto simp: fill_pending_def Let_def)
  next
    case none
    then show ?thesis by (intro balanced_quiet [OF assms, where e' = e and b' = ?b]) (auto simp: same_frame_def)
  qed
qed

lemma brackets_balanced:
  assumes "trades_ok e" and "book_ok b"
  shows "balanced (brackets c) e b"
proof -
  let ?e = "e\<lparr>enMetrics := (enMetrics e)\<lparr>mAmbiguousBars := mAmbiguousBars (enMetrics e) + 1\<rparr>\<rparr>"
  have p: "posted a ?e = posted a e" for a by (cases a) simp_all
  let ?stop = "\<lparr>Kind = OrderStop, Side = closingSide (psShort (boPos b)), Price = psStop (boPos b)\<rparr>"
  let ?target = "\<lparr>Kind = OrderLimit, Side = closingSide (psShort (boPos b)), Price = psTarget (boPos b)\<rparr>"
  let ?hs = "0 < psStop (boPos b) \<and> resting ?stop (barOf c)" and ?ht = "0 < psTarget (boPos b) \<and> resting ?target (barOf c)"
  define e1 where "e1 = (if psOpen (boPos b) \<and> ?hs \<and> ?ht then ?e else e)"
  have e1: "e1 = e \<or> e1 = ?e" by (simp add: e1_def)
  have eq: "brackets c e b = (if \<not> psOpen (boPos b) then (e1, b) else if ?hs then exit_position c (barOf c) ?stop ReasonStop e1 b
      else if ?ht then exit_position c (barOf c) ?target ReasonTarget e1 b else (e1, b))"
    by (simp add: brackets_def Let_def e1_def)
  have br: "brackets c e b = (e1, b) \<or> psOpen (boPos b) \<and> (\<exists>ord reason. brackets c e b = exit_position c (barOf c) ord reason e1 b)"
    using eq by (cases "psOpen (boPos b)"; cases ?hs; cases ?ht) auto
  have ok1: "trades_ok e1" and n1: "net a e1 b' = net a e b'" and f1: "same_frame e1 b e2 b2 = same_frame e b e2 b2" for a b' e2 b2
    using e1 assms(1) by (auto simp: trades_ok_def net_def closed_total_def p same_frame_def)
  from br show ?thesis
  proof (elim disjE conjE exE)
    assume "brackets c e b = (e1, b)"
    then show ?thesis
      using ok1 n1 f1 [of e1 b] assms(2) by (intro balancedI [where e' = e1 and b' = b]) auto
  next
    fix ord reason assume op: "psOpen (boPos b)" and x: "brackets c e b = exit_position c (barOf c) ord reason e1 b"
    have "balanced (exit_position c (barOf c) ord reason) e1 b" by (rule exit_balanced [OF ok1 assms(2) op])
    then show ?thesis by (simp add: balanced_def x n1 f1)
  qed
qed

lemma closeOut_balanced:
  assumes "trades_ok e" and "book_ok b"
  shows "balanced (closeOut c) e b" and "\<not> psOpen (boPos (snd (closeOut c e b)))"
proof -
  let ?b = "b\<lparr>boPending := no_intent\<rparr>"
  have ok: "book_ok ?b" using assms(2) by simp
  have both: "balanced (closeOut c) e b \<and> \<not> psOpen (boPos (snd (closeOut c e b)))"
  proof (cases "psOpen (boPos b)")
    case True
    then have op: "psOpen (boPos ?b)" by simp
    have "closeOut c e b = exit_position c (closeOf c) (market_close (boPos ?b)) ReasonEndOfRun e ?b"
      using True by (simp add: closeOut_def)
    then show ?thesis
      using balanced_pending [OF exit_balanced [OF assms(1) ok op]] exit_closes [OF assms(1) ok op]
      by (simp add: market_close_def no_position_def)
  next
    case False
    then have "closeOut c e b = (e, ?b)" by (simp add: closeOut_def)
    then show ?thesis using False balanced_quiet [OF assms, of "closeOut c" e ?b] by (auto simp: same_frame_def)
  qed
  then show "balanced (closeOut c) e b" "\<not> psOpen (boPos (snd (closeOut c e b)))" by simp_all
qed

lemma offer_quiet:
  "\<exists>pend. offer ds e b = (e, b\<lparr>boPending := pend\<rparr>) \<or> offer ds e b = (skip_entry e, b\<lparr>boPending := pend\<rparr>)"
proof (induction ds)
  case Nil
  then show ?case by (intro exI [of _ "boPending b"]) simp
next
  case (Cons d ds)
  have "b = b\<lparr>boPending := boPending b\<rparr>" by simp
  then show ?case using Cons by (auto simp: Let_def split: option.splits intro: exI [of _ "boPending b"])
qed

lemma signal_quiet: "\<exists>e' pend. signal e b = (e', b\<lparr>boPending := pend\<rparr>) \<and> (e' = e \<or> e' = skip_entry e)"
proof (cases "psOpen (boPos b)")
  case True
  then show ?thesis by (simp add: signal_def Let_def) blast
next
  case False
  then have "signal e b = offer [False, True] e (b\<lparr>boPending := no_intent\<rparr>)"
    by (simp add: signal_def Let_def del: offer.simps)
  then show ?thesis using offer_quiet [of "[False, True]" e "b\<lparr>boPending := no_intent\<rparr>"] by (auto simp del: offer.simps)
qed

lemma signal_balanced:
  assumes "trades_ok e" and "book_ok b"
  shows "balanced signal e b"
proof -
  obtain e' pend where "signal e b = (e', b\<lparr>boPending := pend\<rparr>)" "e' = e \<or> e' = skip_entry e"
    using signal_quiet [of e b] by blast
  then show ?thesis
    using balanced_quiet [OF assms, of signal e' "b\<lparr>boPending := pend\<rparr>"] by (auto simp: same_frame_def)
qed

section \<open>The bar and the run\<close>

lemma bar_step_comp:
  "bar_step v i c =
     (\<lambda>e b. case (\<lambda>e b. case (\<lambda>e b. case (\<lambda>e b. case (\<lambda>e b. case credit i e b of (e, b) \<Rightarrow> charge v i e b) e b
        of (e, b) \<Rightarrow> adjust i c e b) e b of (e, b) \<Rightarrow> fill_pending v c e b) e b of (e, b) \<Rightarrow> brackets c e b) e b
      of (e, b) \<Rightarrow> (\<lambda>e b. if final (push_tape c b) i then closeOut c e (push_tape c b) else signal e (push_tape c b)) e b)"
  by (intro ext) (simp add: bar_step_def Let_def split: prod.splits)

lemma push_tape_balanced:
  assumes "balanced f e (push_tape c b)"
  shows "balanced (\<lambda>e b. f e (push_tape c b)) e b"
  using assms by (auto simp: balanced_def same_frame_def push_tape_def net_def)

lemma bar_step_balanced:
  assumes "trades_ok e" and "book_ok b"
  shows "balanced (bar_step v i c) e b"
  unfolding bar_step_comp
proof (intro balanced_comp)
  show "balanced (credit i) e b" by (rule credit_balanced [OF assms])
next
  fix e b assume ok: "trades_ok e" "book_ok b"
  have ok': "book_ok (push_tape c b)" using ok(2) by simp
  show "balanced (\<lambda>e b. if final (push_tape c b) i then closeOut c e (push_tape c b) else signal e (push_tape c b)) e b"
  proof (cases "final (push_tape c b) i")
    case True
    then show ?thesis
      using push_tape_balanced [OF closeOut_balanced(1) [OF ok(1) ok']] by (simp add: balanced_def)
  next
    case False
    then show ?thesis
      using push_tape_balanced [OF signal_balanced [OF ok(1) ok']] by (simp add: balanced_def)
  qed
qed (rule charge_balanced adjust_balanced fill_pending_balanced brackets_balanced; assumption)+

lemma bar_step_final:
  assumes "trades_ok e" and "book_ok b" and "final b i"
  shows "\<not> psOpen (boPos (snd (bar_step v i c e b)))"
proof -
  obtain e1 b1 where 1: "credit i e b = (e1, b1)" by force
  note B1 = balancedE [OF credit_balanced [OF assms(1,2)] 1]
  obtain e2 b2 where 2: "charge v i e1 b1 = (e2, b2)" by force
  note B2 = balancedE [OF charge_balanced [OF B1(1,2)] 2]
  obtain e3 b3 where 3: "adjust i c e2 b2 = (e3, b3)" by force
  note B3 = balancedE [OF adjust_balanced [OF B2(1,2)] 3]
  obtain e4 b4 where 4: "fill_pending v c e3 b3 = (e4, b4)" by force
  note B4 = balancedE [OF fill_pending_balanced [OF B3(1,2)] 4]
  obtain e5 b5 where 5: "brackets c e4 b4 = (e5, b5)" by force
  note B5 = balancedE [OF brackets_balanced [OF B4(1,2)] 5]
  have "final (push_tape c b5) i"
    using assms(3) B1(4) B2(4) B3(4) B4(4) B5(4) by (simp add: final_def push_tape_def same_frame_def)
  then have "bar_step v i c e b = closeOut c e5 (push_tape c b5)" using 1 2 3 4 5 by (simp add: bar_step_def)
  then show ?thesis using closeOut_balanced(2) [OF B5(1), of "push_tape c b5" c] B5(2) by simp
qed

definition carried_all :: "account \<Rightarrow> book list \<Rightarrow> i64" where
  "carried_all a bs = sum_list (map (\<lambda>b. carried a (boPos b)) bs)"

definition balance :: "engine \<Rightarrow> account \<Rightarrow> i64" where
  "balance e a = posted a e - closed_total a e - carried_all a (enBooks e)"

definition engine_ok :: "engine \<Rightarrow> bool" where
  "engine_ok e \<longleftrightarrow> trades_ok e \<and> list_all book_ok (enBooks e)"

lemma carry_over:
  fixes x0 x1 x2 :: i64
  assumes "x1 - k1 = x0 - k0" and "x2 - s2 = x1 - s1"
  shows "x2 - (k1 + s2) = x0 - (k0 + s1)"
proof -
  have "x2 - (k1 + s2) = (x2 - s2) - k1" by simp
  also have "\<dots> = (x1 - k1) - s1" using assms(2) by simp
  also have "\<dots> = x0 - (k0 + s1)" using assms(1) by simp
  finally show ?thesis .
qed

lemma step_books_balanced:
  "trades_ok e \<Longrightarrow> list_all book_ok bs \<Longrightarrow> step_books v ts e bs = (e', bs') \<Longrightarrow>
   trades_ok e' \<and> list_all book_ok bs' \<and>
   (\<forall>a. posted a e' - closed_total a e' - carried_all a bs' = posted a e - closed_total a e - carried_all a bs) \<and>
   enReq e' = enReq e \<and> enStamps e' = enStamps e \<and> enEquity e' = enEquity e \<and> enHeld e' = enHeld e \<and> enBooks e' = enBooks e"
proof (induction bs arbitrary: e e' bs')
  case Nil
  then show ?case by simp
next
  case (Cons b bs)
  obtain e1 b1 where one: "(case advance ts b of None \<Rightarrow> (e, b) | Some (b', c, i) \<Rightarrow> bar_step v i c e b') = (e1, b1)" by force
  obtain bs2 where more: "step_books v ts e1 bs = (e', bs2)" and bs': "bs' = b1 # bs2"
    using Cons.prems(3) one by (auto split: prod.splits)
  have ok: "trades_ok e" "book_ok b" using Cons.prems by simp_all
  have B: "trades_ok e1 \<and> book_ok b1 \<and> (\<forall>a. net a e1 b1 = net a e b) \<and> enReq e1 = enReq e \<and> enStamps e1 = enStamps e
      \<and> enEquity e1 = enEquity e \<and> enHeld e1 = enHeld e \<and> enBooks e1 = enBooks e"
  proof (cases "advance ts b")
    case None
    then show ?thesis using one ok by simp
  next
    case (Some x)
    obtain b' c i where x: "x = (b', c, i)" by (cases x) auto
    have b': "book_ok b'" "net a e b' = net a e b" for a
      using Some ok(2) by (auto simp: x advance_def book_ok_def net_def split: if_splits)
    have step: "bar_step v i c e b' = (e1, b1)" using one Some x by simp
    show ?thesis using balancedE [OF bar_step_balanced [OF ok(1) b'(1)] step] b'(2) by (simp add: same_frame_def)
  qed
  then have R: "trades_ok e' \<and> list_all book_ok bs2 \<and>
      (\<forall>a. posted a e' - closed_total a e' - carried_all a bs2 = posted a e1 - closed_total a e1 - carried_all a bs) \<and>
      enReq e' = enReq e1 \<and> enStamps e' = enStamps e1 \<and> enEquity e' = enEquity e1 \<and> enHeld e' = enHeld e1 \<and> enBooks e' = enBooks e1"
    using Cons.IH [OF _ _ more] Cons.prems(2) by simp
  have "posted a e' - closed_total a e' - carried_all a bs' = posted a e - closed_total a e - carried_all a (b # bs)" for a
    using carry_over [of "posted a e1 - closed_total a e1" "carried a (boPos b1)" "posted a e - closed_total a e"
        "carried a (boPos b)" "posted a e' - closed_total a e'" "carried_all a bs2" "carried_all a bs"] B R
    by (simp add: bs' carried_all_def net_def)
  then show ?case using B R by (simp add: bs')
qed

lemma mark_simps [simp]:
  "enTrades (mark ts e) = enTrades e" "enSeq (mark ts e) = enSeq e" "enCash (mark ts e) = enCash e"
  "enReq (mark ts e) = enReq e" "enStamps (mark ts e) = enStamps e" "posted a (mark ts e) = posted a e"
  by (cases a; simp add: mark_def Let_def)+

lemma mark_book_simps [simp]:
  "boPos (mark_book b) = boPos b" "boAt (mark_book b) = boAt b" "boCandles (mark_book b) = boCandles b"
  by (simp_all add: mark_book_def)

lemma mark_book_ok: "book_ok (mark_book b) = book_ok b"
  by (simp add: book_ok_def)

lemma mark_enBooks: "enBooks (mark ts e) = map mark_book (enBooks e)"
  by (simp add: mark_def Let_def)

lemma mark_books:
  "carried_all a (enBooks (mark ts e)) = carried_all a (enBooks e)"
  "list_all book_ok (enBooks (mark ts e)) = list_all book_ok (enBooks e)"
  by (simp_all add: mark_enBooks carried_all_def o_def list.pred_map mark_book_ok)

lemma stamp_step_ok:
  assumes "engine_ok e"
  shows "engine_ok (stamp_step v ts e)" and "balance (stamp_step v ts e) = balance e"
proof -
  obtain e1 bs where s: "step_books v ts e (enBooks e) = (e1, bs)" by force
  note S = step_books_balanced [OF _ _ s]
  have "trades_ok e" "list_all book_ok (enBooks e)" using assms by (simp_all add: engine_ok_def)
  note S = S [OF this]
  have st: "stamp_step v ts e = mark ts (e1\<lparr>enBooks := bs\<rparr>)" by (simp add: stamp_step_def s)
  show "engine_ok (stamp_step v ts e)"
    using S by (simp add: st engine_ok_def mark_books trades_ok_def)
  have "posted a (e1\<lparr>enBooks := bs\<rparr>) = posted a e1" for a by (cases a) simp_all
  then have "balance (stamp_step v ts e) a = balance e a" for a
    using S by (simp add: st balance_def mark_books closed_total_def)
  then show "balance (stamp_step v ts e) = balance e" by (rule ext)
qed

interpretation ledger: conserving_machine "stamp_step v" engine_ok balance for v
  by unfold_locales (simp_all add: stamp_step_ok)

section \<open>The end of a run\<close>

text \<open>Every book still has its remaining bars ahead on the timeline, and a book without bars left holds nothing.\<close>

definition on_time :: "time list \<Rightarrow> book \<Rightarrow> bool" where
  "on_time stamps b \<longleftrightarrow>
     subseq (map cTS (drop (boAt b) (boCandles b))) stamps \<and>
     (if boAt b < length (boCandles b) then True else \<not> psOpen (boPos b))"

lemma subseq_head:
  "subseq xs (t # ts) \<Longrightarrow> if xs \<noteq> [] \<and> hd xs = t then subseq (tl xs) ts else subseq xs ts"
  by (cases xs) (auto elim: list_emb.cases dest: subseq_Cons')

lemma on_time_step:
  assumes "trades_ok e" and "book_ok b" and "on_time (ts # stamps) b"
  shows "on_time stamps (snd (case advance ts b of None \<Rightarrow> (e, b) | Some (b', c, i) \<Rightarrow> bar_step v i c e b'))"
proof (cases "advance ts b")
  case None
  have "subseq (map cTS (drop (boAt b) (boCandles b))) stamps"
    using subseq_head [of _ ts stamps] assms(3) None
    by (auto simp: on_time_def advance_def hd_map hd_drop_conv_nth split: if_splits)
  then show ?thesis using None assms(3) by (simp add: on_time_def)
next
  case (Some x)
  then have i: "boAt b < length (boCandles b)" "cTS (boCandles b ! boAt b) = ts"
    and x: "x = (b\<lparr>boAt := boAt b + 1\<rparr>, boCandles b ! boAt b, boAt b)"
    by (auto simp: advance_def split: if_splits)
  let ?b = "b\<lparr>boAt := boAt b + 1\<rparr>"
  obtain e1 b1 where step: "bar_step v (boAt b) (boCandles b ! boAt b) e ?b = (e1, b1)" by force
  have ok: "book_ok ?b" using assms(2) by (simp add: book_ok_def)
  note B = balancedE [OF bar_step_balanced [OF assms(1) ok] step]
  have at1: "boAt b1 = boAt b + 1" "boCandles b1 = boCandles b" using B(4) by (simp_all add: same_frame_def)
  have "subseq (map cTS (drop (boAt b + 1) (boCandles b))) stamps"
    using subseq_head [of "map cTS (drop (boAt b) (boCandles b))" ts stamps] assms(3) i
    by (simp add: on_time_def hd_map hd_drop_conv_nth tl_drop [symmetric] map_tl drop_Suc)
  moreover have "\<not> psOpen (boPos b1)" if "\<not> boAt b + 1 < length (boCandles b)"
  proof -
    have "final ?b (boAt b)" using that i(1) by (simp add: final_def)
    from bar_step_final [OF assms(1) ok this, of v "boCandles b ! boAt b"] step show ?thesis by simp
  qed
  ultimately show ?thesis using Some step by (simp add: x on_time_def at1)
qed

lemma step_books_on_time:
  "trades_ok e \<Longrightarrow> list_all book_ok bs \<Longrightarrow> list_all (on_time (ts # stamps)) bs \<Longrightarrow>
   list_all (on_time stamps) (snd (step_books v ts e bs))"
proof (induction bs arbitrary: e)
  case (Cons b bs)
  obtain e1 b1 where one: "(case advance ts b of None \<Rightarrow> (e, b) | Some (b', c, i) \<Rightarrow> bar_step v i c e b') = (e1, b1)" by force
  have "trades_ok e1"
  proof (cases "advance ts b")
    case (Some x)
    then obtain b' c i where x: "x = (b', c, i)" "book_ok b'"
      using Cons.prems(2) by (cases x) (auto simp: advance_def book_ok_def split: if_splits)
    then show ?thesis using balancedE(1) [OF bar_step_balanced [OF Cons.prems(1) x(2)]] one Some by auto
  qed (use one Cons.prems in auto)
  then show ?case
    using Cons.IH [of e1] Cons.prems on_time_step [OF Cons.prems(1), of b ts stamps v] one
    by (auto split: prod.splits)
qed simp

lemma on_time_mark: "on_time stamps (mark_book b) = on_time stamps b"
  by (simp add: on_time_def)

lemma run_on_time:
  "engine_ok e \<Longrightarrow> list_all (on_time stamps) (enBooks e) \<Longrightarrow> list_all (on_time []) (enBooks (run_stamps v stamps e))"
proof (induction stamps arbitrary: e)
  case (Cons ts stamps)
  obtain e1 bs where s: "step_books v ts e (enBooks e) = (e1, bs)" by force
  have "list_all (on_time stamps) bs"
    using step_books_on_time [of e "enBooks e" ts stamps v] Cons.prems s by (simp add: engine_ok_def)
  then have "list_all (on_time stamps) (enBooks (stamp_step v ts e))"
    by (simp add: stamp_step_def s mark_enBooks list.pred_map o_def on_time_mark)
  then show ?case using Cons.IH [OF stamp_step_ok(1) [OF Cons.prems(1)]] by (simp add: run_stamps_def)
qed (simp add: run_stamps_def)

lemma done_flat: "list_all (on_time []) bs \<Longrightarrow> list_all (\<lambda>b. \<not> psOpen (boPos b)) bs"
  by (fastforce simp: list_all_iff on_time_def dest: list_emb_Nil2)

lemma flat_carries_nothing: "list_all (\<lambda>b. \<not> psOpen (boPos b)) bs \<Longrightarrow> carried_all a bs = 0"
  by (induction bs) (cases a, simp_all add: carried_all_def)+

lemma last_equity:
  assumes "list_all (\<lambda>b. \<not> psOpen (boPos b)) (enBooks (run_stamps v stamps e))" and "stamps \<noteq> []"
  shows "epCents (last (enEquity (run_stamps v stamps e))) = enCash (run_stamps v stamps e)"
    and "enEquity (run_stamps v stamps e) \<noteq> []"
proof -
  obtain ts stamps' where st: "stamps = stamps' @ [ts]" using assms(2) by (cases stamps rule: rev_cases) auto
  obtain e1 where e1: "run_stamps v stamps e = mark ts e1"
    by (cases "step_books v ts (fold (stamp_step v) stamps' e) (enBooks (fold (stamp_step v) stamps' e))")
       (simp add: st run_stamps_def stamp_step_def)
  have flat: "list_all (\<lambda>b. \<not> psOpen (boPos b)) (enBooks e1)"
    using assms(1) by (simp add: e1 mark_enBooks list.pred_map o_def)
  have "fold (\<lambda>b acc. if marked b then acc + open_value b else acc) bs c = c" if "list_all (\<lambda>b. \<not> psOpen (boPos b)) bs" for bs c
    using that by (induction bs) (simp_all add: marked_def)
  then show "epCents (last (enEquity (run_stamps v stamps e))) = enCash (run_stamps v stamps e)"
    and "enEquity (run_stamps v stamps e) \<noteq> []"
    using flat by (simp_all add: e1) (simp_all add: mark_def Let_def)
qed

lemma new_engine_ok: "engine_ok (newEngine req)"
  by (simp add: engine_ok_def newEngine_def trades_ok_def Let_def list_all_iff newBook_def book_ok_def no_position_def)

lemma new_engine_balance: "balance (newEngine req) a = (if a = Cash then rqCapital req else 0)"
proof -
  have "carried_all a (enBooks (newEngine req)) = 0"
    by (rule flat_carries_nothing) (simp add: newEngine_def Let_def list_all_iff newBook_def no_position_def)
  then show ?thesis
    by (cases a) (simp_all add: balance_def closed_total_def newEngine_def Let_def new_metrics_def)
qed

lemma new_engine_on_time_single:
  assumes "rqInstruments req = [inst]"
  shows "list_all (on_time (enStamps (newEngine req))) (enBooks (newEngine req))"
  using assms by (simp add: newEngine_def Let_def timelineOf_def newBook_def on_time_def no_position_def)

lemma engine_run_accounts:
  assumes "list_all (on_time (enStamps (newEngine req))) (enBooks (newEngine req))"
  shows "engine_ok (engine_run v req)"
    and "list_all (\<lambda>b. \<not> psOpen (boPos b)) (enBooks (engine_run v req))"
    and "posted a (engine_run v req) = (if a = Cash then rqCapital req else 0) + closed_total a (engine_run v req)"
proof -
  have run: "engine_run v req = run_stamps v (enStamps (newEngine req)) (newEngine req)"
    by (simp add: engine_run_def Let_def)
  show ok: "engine_ok (engine_run v req)"
    unfolding run run_stamps_def by (rule ledger.run_invar [OF new_engine_ok])
  show flat: "list_all (\<lambda>b. \<not> psOpen (boPos b)) (enBooks (engine_run v req))"
    unfolding run by (rule done_flat [OF run_on_time [OF new_engine_ok assms]])
  have "balance (engine_run v req) a = balance (newEngine req) a"
    unfolding run run_stamps_def by (simp add: ledger.run_quantity [OF new_engine_ok])
  then show "posted a (engine_run v req) = (if a = Cash then rqCapital req else 0) + closed_total a (engine_run v req)"
    using flat_carries_nothing [OF flat, of a] new_engine_balance [of req a]
    by (simp add: balance_def algebra_simps)
qed

end
