(* ===== verification/Lookahead.thy ===== *)
theory Lookahead
  imports Accounts
begin

text \<open>
  The engine never reads the future. Two runs whose candles agree up to a bar, and both go on after it,
  are the same run up to that bar: same trades, same equity, same position, same pending order. Each
  handler is shown to commute with exchanging the parts of the state that hold the future: the book's
  candles and corporate actions, the basis derived from them, the request's instruments and the timeline.
\<close>

record future =
  fuCandles :: "candle list"
  fuActs :: actions
  fuBasis :: basis
  fuInstruments :: "instrument list"
  fuStamps :: "time list"
  fuBooks :: "book list"

definition swapB :: "future \<Rightarrow> book \<Rightarrow> book" where
  "swapB x b = b\<lparr>boCandles := fuCandles x, boActs := fuActs x, boStats := (boStats b)\<lparr>ssBasis := fuBasis x\<rparr>\<rparr>"

definition swapE :: "future \<Rightarrow> engine \<Rightarrow> engine" where
  "swapE x e = e\<lparr>enReq := (enReq e)\<lparr>rqInstruments := fuInstruments x\<rparr>, enStamps := fuStamps x, enBooks := fuBooks x\<rparr>"

definition swap :: "future \<Rightarrow> engine \<times> book \<Rightarrow> engine \<times> book" where
  "swap x eb = (swapE x (fst eb), swapB x (snd eb))"

lemma swap_pair [simp]: "swap x (e, b) = (swapE x e, swapB x b)"
  by (simp add: swap_def)

lemma swap_flow [simp]:
  "(case swap x r of (e, b) \<Rightarrow> f e b) = (case r of (e, b) \<Rightarrow> f (swapE x e) (swapB x b))"
  "swap x (case r of (e, b) \<Rightarrow> g e b) = (case r of (e, b) \<Rightarrow> swap x (g e b))"
  "swap x (if c then r else r') = (if c then swap x r else swap x r')"
  by (simp_all add: swap_def split_beta)

lemma swapB_fields [simp]:
  "boSymbol (swapB x b) = boSymbol b" "boTape (swapB x b) = boTape b" "boCosting (swapB x b) = boCosting b"
  "boAt (swapB x b) = boAt b" "boPos (swapB x b) = boPos b" "boPending (swapB x b) = boPending b"
  "boCandles (swapB x b) = fuCandles x" "boActs (swapB x b) = fuActs x"
  "boStats (swapB x b) = (boStats b)\<lparr>ssBasis := fuBasis x\<rparr>"
  by (simp_all add: swapB_def)

lemma swapE_fields [simp]:
  "enCash (swapE x e) = enCash e" "enTrades (swapE x e) = enTrades e" "enEquity (swapE x e) = enEquity e"
  "enHeld (swapE x e) = enHeld e" "enMetrics (swapE x e) = enMetrics e" "enSeq (swapE x e) = enSeq e"
  "enBooks (swapE x e) = fuBooks x" "rqPlan (enReq (swapE x e)) = rqPlan (enReq e)"
  "rqBorrow (enReq (swapE x e)) = rqBorrow (enReq e)" "rqBarsPerYear (enReq (swapE x e)) = rqBarsPerYear (enReq e)"
  by (simp_all add: swapE_def)

lemma swapB_updates [simp]:
  "(swapB x b)\<lparr>boPos := p\<rparr> = swapB x (b\<lparr>boPos := p\<rparr>)"
  "(swapB x b)\<lparr>boPending := i\<rparr> = swapB x (b\<lparr>boPending := i\<rparr>)"
  "(swapB x b)\<lparr>boTape := t\<rparr> = swapB x (b\<lparr>boTape := t\<rparr>)"
  "(swapB x b)\<lparr>boAt := n\<rparr> = swapB x (b\<lparr>boAt := n\<rparr>)"
  "(swapB x b)\<lparr>boStats := s\<lparr>ssBasis := fuBasis x\<rparr>\<rparr> = swapB x (b\<lparr>boStats := s\<rparr>)"
  "swapB x (swapB x b) = swapB x b"
  by (simp_all add: swapB_def)

lemma swapE_updates [simp]:
  "(swapE x e)\<lparr>enCash := c\<rparr> = swapE x (e\<lparr>enCash := c\<rparr>)"
  "(swapE x e)\<lparr>enMetrics := m\<rparr> = swapE x (e\<lparr>enMetrics := m\<rparr>)"
  "(swapE x e)\<lparr>enSeq := s\<rparr> = swapE x (e\<lparr>enSeq := s\<rparr>)"
  "(swapE x e)\<lparr>enTrades := t\<rparr> = swapE x (e\<lparr>enTrades := t\<rparr>)"
  "(swapE x e)\<lparr>enEquity := q\<rparr> = swapE x (e\<lparr>enEquity := q\<rparr>)"
  "(swapE x e)\<lparr>enHeld := h\<rparr> = swapE x (e\<lparr>enHeld := h\<rparr>)"
  "add_cash y (swapE x e) = swapE x (add_cash y e)"
  "skip_entry (swapE x e) = swapE x (skip_entry e)"
  by (simp_all add: swapE_def add_cash_def skip_entry_def)

lemma periods_swap [simp]: "periods (swapE x e) = periods e"
  by (simp add: periods_def)

lemma settleBorrow_swap: "settleBorrow cents (swapE x e) (swapB x b) = swap x (settleBorrow cents e b)"
  by (simp add: settleBorrow_def Let_def swapB_def)

lemma cashOut_swap: "cashOut shares price (swapE x e) (swapB x b) = swap x (cashOut shares price e b)"
  by (simp add: cashOut_def Let_def)

lemma record_trade_swap:
  "record_trade ts price gross fee reason (swapE x e) (swapB x b) = swap x (record_trade ts price gross fee reason e b)"
  by (cases "settleBorrow (i64_of (math_Round (psOwed (boPos b)))) e b")
     (simp add: record_trade_def settleBorrow_swap Let_def; simp add: swapB_def)

lemma settle_swap: "settle c price shares (swapE x e) (swapB x b) = swap x (settle c price shares e b)"
  by (cases "cashOut shares price e b") (simp add: settle_def cashOut_swap Let_def record_trade_swap)

lemma credit_swap:
  "dividendAt (fuActs x) i = dividendAt (boActs b) i \<Longrightarrow> credit i (swapE x e) (swapB x b) = swap x (credit i e b)"
  by (simp add: credit_def Let_def swapB_def)

lemma charge_swap:
  "0 < i \<Longrightarrow> fuCandles x ! (i - 1) = boCandles b ! (i - 1) \<Longrightarrow>
   charge v i (swapE x e) (swapB x b) = swap x (charge v i e b)"
  by (simp add: charge_def Let_def settleBorrow_swap split: option.splits)

lemma charge_first_swap: "charge v 0 (swapE x e) (swapB x b) = swap x (charge v 0 e b)"
  by (simp add: charge_def split: option.splits)

lemma adjust_swap:
  "factorAt (fuActs x) i = factorAt (boActs b) i \<Longrightarrow> adjust i c (swapE x e) (swapB x b) = swap x (adjust i c e b)"
  by (simp add: adjust_def Let_def cashOut_swap settle_swap cong: if_cong)

lemma cost_swap [simp]: "cost (swapB x b) q p = cost b q p" "lot_of (swapB x b) = lot_of b"
  by (simp_all add: cost_def lot_of_def)

lemma trim_qty_swap [simp]: "trim_qty (swapE x e) (swapB x b) price q = trim_qty e b price q"
  by (induction e b price q rule: trim_qty.induct) (subst (1 2) trim_qty.simps, simp)

lemma size_entry_swap [simp]: "size_entry (swapE x e) (swapB x b) price d = size_entry e b price d"
  by (simp add: size_entry_def wanted_def affordable_def Let_def cong: option.case_cong sizing_type.case_cong)

lemma enter_swap: "enter v c want (swapE x e) (swapB x b) = swap x (enter v c want e b)"
  by (simp add: enter_def Let_def split: option.splits)

lemma exit_swap: "exit_position c br ord reason (swapE x e) (swapB x b) = swap x (exit_position c br ord reason e b)"
  by (simp add: exit_position_def Let_def record_trade_swap split: option.splits)

lemma fill_pending_swap: "fill_pending v c (swapE x e) (swapB x b) = swap x (fill_pending v c e b)"
  by (simp add: fill_pending_def Let_def enter_swap exit_swap)

lemma brackets_swap: "brackets c (swapE x e) (swapB x b) = swap x (brackets c e b)"
  by (simp add: brackets_def Let_def exit_swap)

lemma closeOut_swap: "closeOut c (swapE x e) (swapB x b) = swap x (closeOut c e b)"
  by (simp add: closeOut_def Let_def exit_swap)

lemma bracketFor_swap [simp]: "bracketFor (swapB x b) lv = bracketFor b lv"
  by (simp add: bracketFor_def split: option.splits)

lemma offer_swap: "offer ds (swapE x e) (swapB x b) = swap x (offer ds e b)"
  by (induction ds) (simp_all add: Let_def split: option.splits)

lemma signal_swap: "signal (swapE x e) (swapB x b) = swap x (signal e b)"
  by (simp add: signal_def Let_def offer_swap del: offer.simps)

lemma push_tape_swap [simp]: "push_tape c (swapB x b) = swapB x (push_tape c b)"
  by (simp add: push_tape_def)

section \<open>A bar\<close>

definition agrees :: "future \<Rightarrow> nat \<Rightarrow> book \<Rightarrow> bool" where
  "agrees x i b \<longleftrightarrow>
     dividendAt (fuActs x) i = dividendAt (boActs b) i \<and> factorAt (fuActs x) i = factorAt (boActs b) i \<and>
     (i = 0 \<or> fuCandles x ! (i - 1) = boCandles b ! (i - 1)) \<and>
     (int i = int (length (fuCandles x)) - 1 \<longleftrightarrow> int i = int (length (boCandles b)) - 1)"

lemma agrees_frame: "same_frame e b e' b' \<Longrightarrow> agrees x i b' = agrees x i b"
  by (simp add: agrees_def same_frame_def)

lemma bar_step_swap:
  assumes "trades_ok e" and "book_ok b" and "agrees x i b"
  shows "bar_step v i c (swapE x e) (swapB x b) = swap x (bar_step v i c e b)"
proof -
  obtain e1 b1 where 1: "credit i e b = (e1, b1)" by force
  note B1 = balancedE [OF credit_balanced [OF assms(1,2)] 1]
  obtain e2 b2 where 2: "charge v i e1 b1 = (e2, b2)" by force
  note B2 = balancedE [OF charge_balanced [OF B1(1,2)] 2]
  obtain e3 b3 where 3: "adjust i c e2 b2 = (e3, b3)" by force
  note B3 = balancedE [OF adjust_balanced [OF B2(1,2)] 3]
  obtain e4 b4 where 4: "fill_pending v c e3 b3 = (e4, b4)" by force
  note B4 = balancedE [OF fill_pending_balanced [OF B3(1,2)] 4]
  obtain e5 b5 where 5: "brackets c e4 b4 = (e5, b5)" by force
  note B5 = balancedE [OF brackets_balanced [OF B4(1,2)] 5]
  have a1: "agrees x i b1" using assms(3) agrees_frame [OF B1(4)] by simp
  have a2: "agrees x i b2" using a1 agrees_frame [OF B2(4)] by simp
  have a5: "agrees x i b5" using a2 agrees_frame [OF B3(4)] agrees_frame [OF B4(4)] agrees_frame [OF B5(4)] by simp
  have "credit i (swapE x e) (swapB x b) = (swapE x e1, swapB x b1)"
    using assms(3) by (simp add: credit_swap agrees_def 1)
  moreover have "charge v i (swapE x e1) (swapB x b1) = (swapE x e2, swapB x b2)"
    using a1 charge_swap [of i x b1 v e1] charge_first_swap [of v x e1 b1] 2 by (cases "i = 0") (auto simp: agrees_def)
  moreover have "adjust i c (swapE x e2) (swapB x b2) = (swapE x e3, swapB x b3)"
    using a2 by (simp add: adjust_swap agrees_def 3)
  moreover have "final (push_tape c (swapB x b5)) i = final (push_tape c b5) i"
    using a5 by (simp add: final_def agrees_def push_tape_def)
  ultimately show ?thesis
    by (simp add: bar_step_def 1 2 3 4 5 fill_pending_swap brackets_swap closeOut_swap signal_swap Let_def)
qed

section \<open>A run\<close>

lemma swapB_books [simp]: "swapB (x\<lparr>fuBooks := bs\<rparr>) = swapB x"
  by (rule ext) (simp add: swapB_def)

definition swapR :: "future \<Rightarrow> engine \<Rightarrow> engine" where
  "swapR x e = swapE (x\<lparr>fuBooks := map (swapB x) (enBooks e)\<rparr>) e"

text \<open>The book of a one-symbol engine at bar \<open>k\<close> of its candles.\<close>

definition at_bar :: "candle list \<Rightarrow> nat \<Rightarrow> engine \<Rightarrow> bool" where
  "at_bar cs k e \<longleftrightarrow>
     engine_ok e \<and> (\<exists>b. enBooks e = [b] \<and> boCandles b = cs \<and> boActs b = actionsOf cs \<and> boAt b = k)"

lemma bar_step_frame:
  assumes "trades_ok e" and "book_ok b" and "bar_step v i c e b = (e', b')"
  shows "boCandles b' = boCandles b" and "boActs b' = boActs b" and "boAt b' = boAt b" and "enBooks e' = enBooks e"
  using balancedE(4) [OF bar_step_balanced [OF assms(1,2)] assms(3)] by (simp_all add: same_frame_def)

lemma mark_book_acts [simp]: "boActs (mark_book b) = boActs b"
  by (simp add: mark_book_def)

text \<open>The bar a one-symbol engine works on.\<close>

lemma at_bar_step:
  assumes "at_bar cs k e" and "k < length cs" and "ts = cTS (cs ! k)"
  obtains b e1 b1 where "enBooks e = [b]" and "boCandles b = cs" and "boActs b = actionsOf cs" and "boAt b = k"
    and "engine_ok e" and "trades_ok e" and "book_ok (b\<lparr>boAt := Suc k\<rparr>)"
    and "bar_step v k (cs ! k) e (b\<lparr>boAt := Suc k\<rparr>) = (e1, b1)"
    and "boCandles b1 = cs" and "boActs b1 = actionsOf cs" and "boAt b1 = Suc k"
    and "stamp_step v ts e = mark ts (e1\<lparr>enBooks := [b1]\<rparr>)"
proof -
  obtain b where b: "enBooks e = [b]" "boCandles b = cs" "boActs b = actionsOf cs" "boAt b = k"
    and ok: "engine_ok e" using assms(1) by (auto simp: at_bar_def)
  let ?b = "b\<lparr>boAt := Suc k\<rparr>"
  have adv: "advance ts b = Some (?b, cs ! k, k)" using assms b by (simp add: advance_def)
  have oks: "trades_ok e" "book_ok ?b" using ok b(1) by (simp_all add: engine_ok_def book_ok_def)
  obtain e1 b1 where st: "bar_step v k (cs ! k) e ?b = (e1, b1)" by force
  have "stamp_step v ts e = mark ts (e1\<lparr>enBooks := [b1]\<rparr>)" by (simp add: stamp_step_def b(1) adv st)
  then show ?thesis using that [OF b ok oks st] bar_step_frame [OF oks st] b by simp
qed

lemma stamp_step_at_bar:
  assumes "at_bar cs k e" and "k < length cs" and "ts = cTS (cs ! k)"
  shows "at_bar cs (Suc k) (stamp_step v ts e)"
proof -
  obtain b1 e1 where s: "engine_ok e" "boCandles b1 = cs" "boActs b1 = actionsOf cs" "boAt b1 = Suc k"
    "stamp_step v ts e = mark ts (e1\<lparr>enBooks := [b1]\<rparr>)"
    by (rule at_bar_step [OF assms])
  then show ?thesis using stamp_step_ok(1) [OF s(1), of v ts] by (simp add: at_bar_def mark_enBooks)
qed

lemma open_value_swap:
  "fuCandles x ! (boAt b - 1) = boCandles b ! (boAt b - 1) \<Longrightarrow> open_value (swapB x b) = open_value b"
  by (simp add: open_value_def held_candle_def split: option.splits)

lemma marked_swap [simp]: "marked (swapB x b) = marked b"
  by (simp add: marked_def held_candle_def)

lemma mark_book_swap: "mark_book (swapB x b) = swapB x (mark_book b)"
  by (simp add: mark_book_def)

lemma mark_swap:
  assumes "fuCandles x ! (boAt b - 1) = boCandles b ! (boAt b - 1)"
  shows "mark ts ((swapE (x\<lparr>fuBooks := bs\<rparr>) e)\<lparr>enBooks := [swapB x b]\<rparr>) = swapR x (mark ts (e\<lparr>enBooks := [b]\<rparr>))"
  by (simp add: mark_def swapR_def Let_def open_value_swap [OF assms] mark_book_swap; simp add: swapE_def)

lemma stamp_step_swap:
  assumes "at_bar cs k e" and "Suc k < length cs" and "Suc k < length (fuCandles x)" and "ts = cTS (cs ! k)"
    and "take (Suc k) (fuCandles x) = take (Suc k) cs" and "fuActs x = actionsOf (fuCandles x)"
  shows "stamp_step v ts (swapR x e) = swapR x (stamp_step v ts e)"
proof -
  have k: "k < length cs" using assms(2) by simp
  obtain b e1 b1 where b: "enBooks e = [b]" "boCandles b = cs" "boActs b = actionsOf cs" "boAt b = k"
    and oks: "trades_ok e" "book_ok (b\<lparr>boAt := Suc k\<rparr>)"
    and st: "bar_step v k (cs ! k) e (b\<lparr>boAt := Suc k\<rparr>) = (e1, b1)"
    and b1: "boCandles b1 = cs" "boAt b1 = Suc k"
    and step: "stamp_step v ts e = mark ts (e1\<lparr>enBooks := [b1]\<rparr>)"
    by (rule at_bar_step [OF assms(1) k assms(4)])
  let ?b = "b\<lparr>boAt := Suc k\<rparr>" and ?x = "x\<lparr>fuBooks := [swapB x b]\<rparr>"
  have same: "fuCandles x ! j = cs ! j" if "j < Suc k" for j by (metis assms(5) nth_take that)
  have ag: "agrees ?x k ?b"
    using assms(2,3,6) b same dividendAt_prefix [OF assms(5), of k] factorAt_prefix [OF assms(5), of k]
    by (auto simp: agrees_def)
  have "advance ts (swapB x b) = Some (swapB x ?b, cs ! k, k)"
    using assms b same [of k] by (simp add: advance_def)
  moreover have "bar_step v k (cs ! k) (swapE ?x e) (swapB x ?b) = (swapE ?x e1, swapB x b1)"
    using bar_step_swap [OF oks ag, of v "cs ! k"] by (simp add: st)
  ultimately have "stamp_step v ts (swapR x e) = mark ts ((swapE ?x e1)\<lparr>enBooks := [swapB x b1]\<rparr>)"
    by (simp add: stamp_step_def swapR_def b(1))
  then show ?thesis using mark_swap [of x b1 ts "[swapB x b]" e1] same [of k] b1 step by simp
qed

lemma run_swap:
  assumes "at_bar cs 0 e" and "n < length cs" and "n < length (fuCandles x)"
    and "take n (fuCandles x) = take n cs" and "fuActs x = actionsOf (fuCandles x)"
  shows "run_stamps v (map cTS (take n cs)) (swapR x e) = swapR x (run_stamps v (map cTS (take n cs)) e)
    \<and> at_bar cs n (run_stamps v (map cTS (take n cs)) e)"
  using assms(2,3,4)
proof (induction n)
  case 0
  then show ?case using assms(1) by (simp add: run_stamps_def)
next
  case (Suc n)
  have "take n (fuCandles x) = take n cs"
    using Suc.prems(3) by (metis min.absorb1 le_add2 plus_1_eq_Suc take_take)
  note IH = Suc.IH [OF _ _ this]
  have more: "run_stamps v (map cTS (take (Suc n) cs)) f = stamp_step v (cTS (cs ! n)) (run_stamps v (map cTS (take n cs)) f)" for f
    using Suc.prems(1) by (simp add: run_stamps_def take_Suc_conv_app_nth)
  have at_n: "at_bar cs n (run_stamps v (map cTS (take n cs)) e)" using IH Suc.prems by simp
  show ?case
    using IH Suc.prems stamp_step_swap [OF at_n Suc.prems(1,2) refl Suc.prems(3) assms(5), of v]
      stamp_step_at_bar [OF at_n _ refl, of v]
    by (simp add: more)
qed

text \<open>What a run shows of itself after some of its bars.\<close>

definition seen :: "engine \<Rightarrow> trade list \<times> equity_point list \<times> i64 \<times> time list \<times> position list \<times> intent list" where
  "seen e = (enTrades e, enEquity e, enCash e, enHeld e, map boPos (enBooks e), map boPending (enBooks e))"

lemma seen_swapR: "seen (swapR x e) = seen e"
  by (simp add: seen_def swapR_def o_def)

lemma new_engine_swap:
  "newEngine (req\<lparr>rqInstruments := [inst\<lparr>isCandles := ds\<rparr>]\<rparr>) =
   swapR \<lparr>fuCandles = ds, fuActs = actionsOf ds, fuBasis = actions_basis (actionsOf ds),
          fuInstruments = [inst\<lparr>isCandles := ds\<rparr>], fuStamps = map cTS ds, fuBooks = []\<rparr>
     (newEngine (req\<lparr>rqInstruments := [inst\<lparr>isCandles := cs\<rparr>]\<rparr>))"
  by (simp add: newEngine_def swapR_def swapE_def newBook_def timelineOf_def Let_def swapB_def new_stats_def)

text \<open>C2: no lookahead: what a one-symbol run has traded, marked, holds and ordered after the bars
  \<open>past\<close> is the same whatever bars follow them, as long as at least one does.\<close>

theorem no_lookahead:
  "seen (run_stamps v (map cTS past) (newEngine (req\<lparr>rqInstruments := [inst\<lparr>isCandles := past @ c # cs\<rparr>]\<rparr>)))
   = seen (run_stamps v (map cTS past) (newEngine (req\<lparr>rqInstruments := [inst\<lparr>isCandles := past @ d # ds\<rparr>]\<rparr>)))"
proof -
  let ?e = "newEngine (req\<lparr>rqInstruments := [inst\<lparr>isCandles := past @ c # cs\<rparr>]\<rparr>)"
  let ?x = "\<lparr>fuCandles = past @ d # ds, fuActs = actionsOf (past @ d # ds), fuBasis = actions_basis (actionsOf (past @ d # ds)),
          fuInstruments = [inst\<lparr>isCandles := past @ d # ds\<rparr>], fuStamps = map cTS (past @ d # ds), fuBooks = []\<rparr>"
  have "at_bar (past @ c # cs) 0 ?e"
    using new_engine_ok by (simp add: at_bar_def) (simp add: newEngine_def newBook_def Let_def)
  from run_swap [OF this, of "length past" ?x v]
  have "run_stamps v (map cTS past) (swapR ?x ?e) = swapR ?x (run_stamps v (map cTS past) ?e)" by simp
  then show ?thesis
    by (simp only: new_engine_swap [where req = req and inst = inst and ds = "past @ d # ds" and cs = "past @ c # cs"] seen_swapR)
qed

end
