(* ===== verification/Sizing.thy ===== *)
theory Sizing
  imports Engine
begin

text \<open>
  What the sizing of an entry guarantees (internal/backtest/sizing.go), in 64-bit arithmetic: the loop
  that takes lots off ends at a whole number of lots that the cash pays for, and an entry never spends
  more than it checked.
\<close>

lemma sint_i64_bounds: "- (2 ^ 63) \<le> sint (x :: i64)" "sint (x :: i64) < 2 ^ 63"
  using sint_ge [of x] sint_lt [of x] by simp_all

lemma tdiv_times_bounds:
  assumes "0 < b"
  shows "\<bar>tdiv a b * b\<bar> \<le> \<bar>a\<bar>" and "\<bar>tdiv a b\<bar> \<le> \<bar>a\<bar>" and "0 \<le> a \<Longrightarrow> 0 \<le> tdiv a b * b" and "a < 0 \<Longrightarrow> tdiv a b * b \<le> 0"
proof -
  define d where "d = \<bar>a\<bar> div b"
  have m: "d * b \<le> \<bar>a\<bar>" "0 \<le> d"
    using assms pos_mod_sign [OF assms, of "\<bar>a\<bar>"] div_mult_mod_eq [of "\<bar>a\<bar>" b] unfolding d_def
    by (linarith, simp add: pos_imp_zdiv_nonneg_iff)
  have t: "tdiv a b = (if a < 0 then - d else d)" using assms by (simp add: tdiv_def d_def)
  have "d * 1 \<le> d * b" using assms m(2) by (intro mult_left_mono) simp_all
  then show "\<bar>tdiv a b\<bar> \<le> \<bar>a\<bar>" unfolding t using m by (cases "a < 0") simp_all
  show "\<bar>tdiv a b * b\<bar> \<le> \<bar>a\<bar>" unfolding t using m assms by (cases "a < 0") (simp_all add: abs_mult)
  show "0 \<le> a \<Longrightarrow> 0 \<le> tdiv a b * b" "a < 0 \<Longrightarrow> tdiv a b * b \<le> 0"
    unfolding t using m assms by simp_all
qed

text \<open>\<open>qty / lot * lot\<close>: the multiple of the lot next to the quantity on the side of zero.\<close>

lemma sint_whole_lots:
  fixes q l :: i64
  assumes "0 <s l"
  shows "sint (i64_div q l * l) = tdiv (sint q) (sint l) * sint l"
proof -
  have l: "0 < sint l" using assms by (simp add: word_sless_alt)
  note b = tdiv_times_bounds [OF l, of "sint q"] and s = sint_i64_bounds [of q]
  have "- (2 ^ 63) \<le> tdiv (sint q) (sint l) * sint l \<and> tdiv (sint q) (sint l) * sint l < 2 ^ 63"
    using b s by (cases "sint q < 0") linarith+
  moreover have "i64_div q l * l = word_of_int (tdiv (sint q) (sint l) * sint l)"
    by (simp add: i64_div_def)
  ultimately show ?thesis using sint_i64 by presburger
qed

lemma trim_qty_ok:
  assumes "sint (lot_of b) dvd sint q"
  shows "sint (lot_of b) dvd sint (trim_qty e b price q) \<and> trim_qty e b price q \<le>s q \<and>
    \<not> (0 <s trim_qty e b price q \<and> enCash e <s cost b (trim_qty e b price q) price)"
  using assms
proof (induction e b price q rule: trim_qty.induct)
  case (1 e b price q)
  show ?case
  proof (cases "0 <s q \<and> enCash e <s cost b q price")
    case True
    have s: "sint (q - lot_of b) = sint q - sint (lot_of b)" using sint_sub_lot True lot_of_pos by blast
    have "0 < sint (lot_of b)" using lot_of_pos [of b] by (simp add: word_sless_alt)
    then have "q - lot_of b \<le>s q" by (simp add: word_sle_eq s)
    moreover have "sint (lot_of b) dvd sint (q - lot_of b)" using "1.prems" by (simp add: s)
    moreover have "trim_qty e b price q = trim_qty e b price (q - lot_of b)"
      using True by (simp add: trim_qty.simps [of e b price q])
    ultimately show ?thesis using "1.IH" [OF True] by (auto simp: word_sle_eq)
  next
    case False
    then have "trim_qty e b price q = q" unfolding trim_qty.simps [of e b price q] by (simp only: if_False)
    then show ?thesis using "1.prems" False by (simp add: word_sle_eq)
  qed
qed

text \<open>C13: what \<open>size\<close> returns is never negative, is a whole number of lots, is at most what the sizing rule
  asked for and what the cash affords, and its cost, fees included, is at most the cash; computed in
  64-bit arithmetic, for any price, stop and cash.\<close>

theorem sizing_is_paid_for:
  "let qty = size_entry e b price stop
   in 0 \<le>s qty \<and> sint (lot_of b) dvd sint qty \<and>
      (if qty = 0 then True
       else cost b qty price \<le>s enCash e \<and> qty \<le>s affordable e b price \<and>
         (case wanted e price stop of None \<Rightarrow> False | Some w \<Rightarrow> qty \<le>s w))"
proof -
  define qty where "qty = size_entry e b price stop"
  have zero: "qty = 0 \<or> (\<exists>w. wanted e price stop = Some w \<and>
      qty = i64_max_of (trim_qty e b price (i64_div (i64_min_of w (affordable e b price)) (lot_of b) * lot_of b)) 0)"
    by (auto simp: qty_def size_entry_def Let_def split: option.splits)
  show ?thesis
  proof (cases "qty = 0")
    case False
    then obtain w where w: "wanted e price stop = Some w"
      and q: "qty = i64_max_of (trim_qty e b price (i64_div (i64_min_of w (affordable e b price)) (lot_of b) * lot_of b)) 0"
      using zero by blast
    define q1 where "q1 = i64_min_of w (affordable e b price)"
    define q2 where "q2 = i64_div q1 (lot_of b) * lot_of b"
    have l: "0 < sint (lot_of b)" using lot_of_pos [of b] by (simp add: word_sless_alt)
    have s2: "sint q2 = tdiv (sint q1) (sint (lot_of b)) * sint (lot_of b)"
      unfolding q2_def by (rule sint_whole_lots [OF lot_of_pos])
    have "sint (lot_of b) dvd sint q2" by (simp add: s2)
    note T = trim_qty_ok [OF this, of e price]
    have qt1: "qty = trim_qty e b price q2" "\<not> qty <s 0"
      using False by (simp_all add: q q1_def [symmetric] q2_def [symmetric] i64_max_of_def split: if_splits)
    have nz: "sint qty \<noteq> 0" using False by (metis signed_0 signed_word_eqI)
    have qt: "qty = trim_qty e b price q2" "0 <s qty"
      using qt1 nz by (simp_all add: word_sless_alt)
    have "0 < sint q2" using T qt by (simp add: word_sle_eq word_sless_alt)
    then have "sint q2 \<le> sint q1" using tdiv_times_bounds(1,4) [OF l, of "sint q1"] s2 by (cases "sint q1 < 0") auto
    then have "qty \<le>s q1" using T qt(1) by (simp add: word_sle_eq)
    moreover have "q1 \<le>s w" "q1 \<le>s affordable e b price"
      by (auto simp: q1_def i64_min_of_def word_sle_eq word_sless_alt)
    ultimately have le: "qty \<le>s w" "qty \<le>s affordable e b price" by (simp_all add: word_sle_eq)
    have "cost b qty price \<le>s enCash e" using T qt by (simp add: word_sle_eq word_sless_alt)
    then show ?thesis using T qt le w False
      by (simp add: qty_def [symmetric] word_sle_eq word_sless_alt)
  qed (simp add: qty_def)
qed

end

