(* ===== verification/Benchmarks.thy ===== *)
theory Benchmarks
  imports Engine
begin

text \<open>
  The benchmarks of a run (internal/backtest/benchmark.go): buy and hold of the run's symbols at the
  run's costs, the market index rebased to the capital, and the statistics that compare a benchmark with
  the strategy.
\<close>

record holding =
  hgQty :: i64
  hgLast :: f64
  hgAt :: nat
  hgDividends :: i64
  hgFees :: i64

definition no_holding :: holding where
  "no_holding = \<lparr>hgQty = 0, hgLast = 0, hgAt = 0, hgDividends = 0, hgFees = 0\<rparr>"

section \<open>Buy and hold\<close>

function trim_hold :: "book \<Rightarrow> i64 \<Rightarrow> f64 \<Rightarrow> i64 \<Rightarrow> i64" where
  "trim_hold b capital price qty =
     (if 0 <s qty then
        (if cost b qty price \<le>s capital then qty else trim_hold b capital price (qty - lot_of b))
      else qty)"
  by pat_completeness auto

termination
proof (relation "measure (\<lambda>(b, capital, price, qty). nat (sint qty))")
  fix b capital price and qty :: i64
  assume a: "0 <s qty"
  have "0 < sint qty" "0 < sint (lot_of b)" using a lot_of_pos [of b] by (simp_all add: word_sless_alt)
  then show "((b, capital, price, qty - lot_of b), b, capital, price, qty) \<in> measure (\<lambda>(b, capital, price, qty). nat (sint qty))"
    using sint_sub_lot [of qty "lot_of b"] a lot_of_pos [of b] by simp
qed simp

declare trim_hold.simps [simp del]

definition affordableQty :: "i64 \<Rightarrow> f64 \<Rightarrow> book \<Rightarrow> i64" where
  "affordableQty capital price b =
     (let budget = float_of (capital - BrokerageCents (Costs (boCosting b)));
          each = price * Fin 100 * (1 + FeeBPS (Costs (boCosting b)) / Fin 10000)
      in if budget \<le> 0 \<or> each \<le> 0 then 0
         else i64_max_of (trim_hold b capital price (i64_div (i64_of (math_Floor (budget / each))) (lot_of b) * lot_of b)) 0)"

definition hold_actions :: "book \<Rightarrow> nat \<Rightarrow> candle \<Rightarrow> i64 \<times> holding \<Rightarrow> i64 \<times> holding" where
  "hold_actions b i c st =
     (let (cash, lg) = st
      in if hgQty lg \<le>s 0 then (cash, lg)
         else
           let perShare = dividendAt (boActs b) i;
               paid = i64_of (math_Round (float_of (hgQty lg) * perShare * Fin 100));
               (cash1, lg1) = (if perShare > 0 then (cash + paid, lg\<lparr>hgDividends := hgDividends lg + paid\<rparr>) else (cash, lg));
               fac = factorAt (boActs b) i;
               price = (if cOpen c \<le> 0 then cClose c else cOpen c);
               exact = float_of (hgQty lg1) * fac;
               next_qty = i64_of (math_Floor (exact + splitEpsilon))
           in if fac > 0 then
                (cash1 + i64_of (math_Round ((exact - float_of next_qty) * price * Fin 100)), lg1\<lparr>hgQty := next_qty\<rparr>)
              else (cash1, lg1))"

definition hold_buy :: "book \<Rightarrow> nat \<Rightarrow> candle \<Rightarrow> i64 \<Rightarrow> i64 \<times> holding \<times> bool \<Rightarrow> i64 \<times> holding \<times> bool" where
  "hold_buy b i c share st =
     (let (cash, lg, bought) = st
      in if i = 1 \<and> hgQty lg = 0 then
           (let entry = costing_fill (boCosting b) \<lparr>Kind = OrderMarket, Side = Buy, Price = 0\<rparr> (cOpen c);
                qty = affordableQty share entry b
            in if entry > 0 \<and> 0 <s qty then
                 (let n = notional qty entry; f = fees (boCosting b) n
                  in (cash - (n + f), lg\<lparr>hgQty := qty, hgFees := f\<rparr>, True))
               else (cash, lg, bought))
         else (cash, lg, bought))"

definition hold_leg :: "time \<Rightarrow> i64 \<Rightarrow> book \<Rightarrow> i64 \<times> holding \<times> bool \<Rightarrow> i64 \<times> holding \<times> bool" where
  "hold_leg ts share b st =
     (let (cash, lg, bought) = st
      in if hgAt lg \<ge> length (boCandles b) \<or> cTS (boCandles b ! hgAt lg) \<noteq> ts then (cash, lg, bought)
         else
           let c = boCandles b ! hgAt lg;
               i = hgAt lg;
               (cash1, lg1) = hold_actions b i c (cash, lg\<lparr>hgAt := hgAt lg + 1\<rparr>);
               (cash2, lg2, bought2) = hold_buy b i c share (cash1, lg1, bought)
           in (cash2, lg2\<lparr>hgLast := cClose c\<rparr>, bought2))"

fun hold_round :: "time \<Rightarrow> i64 \<Rightarrow> book list \<Rightarrow> i64 \<times> holding list \<times> bool \<Rightarrow> i64 \<times> holding list \<times> bool" where
  "hold_round ts share (b # bs) (cash, lg # lgs, bought) =
     (let (cash1, lg1, bought1) = hold_leg ts share b (cash, lg, bought);
          (cash2, lgs2, bought2) = hold_round ts share bs (cash1, lgs, bought1)
      in (cash2, lg1 # lgs2, bought2))"
| "hold_round ts share _ (cash, lgs, bought) = (cash, lgs, bought)"

definition hold_value :: "i64 \<Rightarrow> holding list \<Rightarrow> i64" where
  "hold_value cash lgs = fold (\<lambda>lg acc. acc + notional (hgQty lg) (hgLast lg)) lgs cash"

fun hold_loop :: "time list \<Rightarrow> i64 \<Rightarrow> book list \<Rightarrow> i64 \<times> holding list \<times> bool \<Rightarrow> i64 list \<Rightarrow> i64 list \<times> i64 \<times> holding list \<times> bool" where
  "hold_loop [] share bs (cash, lgs, bought) curve = (curve, cash, lgs, bought)"
| "hold_loop (ts # stamps) share bs (cash, lgs, bought) curve =
     (let (cash1, lgs1, bought1) = hold_round ts share bs (cash, lgs, bought)
      in hold_loop stamps share bs (cash1, lgs1, bought1) (curve @ [hold_value cash1 lgs1]))"

fun hold_close :: "book list \<Rightarrow> holding list \<Rightarrow> i64 \<Rightarrow> i64 \<times> holding list" where
  "hold_close (b # bs) (lg # lgs) acc =
     (if hgQty lg = 0 then
        (let (total1, lgs1) = hold_close bs lgs acc in (total1, lg # lgs1))
      else
        let exit = costing_fill (boCosting b) \<lparr>Kind = OrderMarket, Side = Sell, Price = 0\<rparr> (hgLast lg);
            n = notional (hgQty lg) exit;
            f = fees (boCosting b) n;
            (total1, lgs1) = hold_close bs lgs (acc + (n - f))
        in (total1, lg\<lparr>hgFees := hgFees lg + f\<rparr> # lgs1))"
| "hold_close _ lgs acc = (acc, lgs)"

definition join_names :: "string list \<Rightarrow> string" where
  "join_names names = (case names of [] \<Rightarrow> '''' | n # ns \<Rightarrow> n @ concat (map (\<lambda>x. '', '' @ x) ns))"

definition basketName :: "book list \<Rightarrow> string" where
  "basketName bs = join_names (map (\<lambda>b. syTicker (boSymbol b)) bs)"

definition new_benchmark :: "bench_kind \<Rightarrow> string \<Rightarrow> basis \<Rightarrow> benchmark" where
  "new_benchmark k name bs =
     \<lparr>bmKind = k, bmSymbol = name, bmBasis = bs, bmReturnPct = 0, bmCAGRPct = 0, bmVolatilityPct = 0,
      bmMaxDrawdownPct = 0, bmSharpe = 0, bmExcessPct = 0, bmCorrelation = 0, bmBeta = 0, bmDividends = 0,
      bmFees = 0, bmUnavailable = '''', bmCurve = None, bmSteps = []\<rparr>"

definition holdBenchmark :: "request \<Rightarrow> book list \<Rightarrow> time list \<Rightarrow> basis \<Rightarrow> benchmark" where
  "holdBenchmark req bs stamps base =
     (let mark0 = new_benchmark BenchmarkHold (basketName bs) base
      in if bs = [] \<or> length stamps < 2 then mark0\<lparr>bmUnavailable := ''there are no bars to hold''\<rparr>
         else
           let share = i64_div (rqCapital req) (word_of_nat (length bs));
               (curve, cash, lgs, bought) = hold_loop stamps share bs (rqCapital req, replicate (length bs) no_holding, False) []
           in if \<not> bought then
                mark0\<lparr>bmUnavailable := ''starting capital does not cover one lot at the opening price''\<rparr>
              else
                let (final_cash, lgs1) = hold_close bs lgs cash
                in mark0\<lparr>bmDividends := sum_list (map hgDividends lgs1), bmFees := sum_list (map hgFees lgs1),
                         bmCurve := Some (curve[length curve - 1 := final_cash])\<rparr>)"

section \<open>The index\<close>

fun close_map :: "candle list \<Rightarrow> int \<rightharpoonup> f64" where
  "close_map [] = Map.empty"
| "close_map (c # cs) = [unix_of (cTS c) \<mapsto> cClose c] ++ close_map cs"

fun align_loop :: "(int \<rightharpoonup> f64) \<Rightarrow> time list \<Rightarrow> f64 \<Rightarrow> nat \<Rightarrow> f64 list \<Rightarrow> (f64 list \<times> nat) option" where
  "align_loop byTS [] prev matched out = Some (out, matched)"
| "align_loop byTS (ts # stamps) prev matched out =
     (let (prev1, matched1) =
            (case byTS (unix_of ts) of
               None \<Rightarrow> (prev, matched)
             | Some c \<Rightarrow> if c > 0 then (c, matched + 1) else (prev, matched))
      in if prev1 \<le> 0 then None else align_loop byTS stamps prev1 matched1 (out @ [prev1]))"

definition alignCloses :: "time list \<Rightarrow> candle list \<Rightarrow> f64 list option" where
  "alignCloses stamps index =
     (case align_loop (close_map index) stamps 0 0 [] of
        None \<Rightarrow> None
      | Some (closes, matched) \<Rightarrow> if matched < 2 then None else Some closes)"

definition indexBenchmark :: "request \<Rightarrow> time list \<Rightarrow> benchmark" where
  "indexBenchmark req stamps =
     (let mark0 = new_benchmark BenchmarkIndex (rqIndexSymbol req) BasisTotal
      in if rqIndexSymbol req = '''' then mark0\<lparr>bmUnavailable := ''no benchmark index is configured''\<rparr>
         else if length (rqIndex req) < 2 then
           mark0\<lparr>bmUnavailable := ''no '' @ rqIndexSymbol req @ '' candles cover this range''\<rparr>
         else
           (case alignCloses stamps (rqIndex req) of
              None \<Rightarrow> mark0\<lparr>bmUnavailable := ''no '' @ rqIndexSymbol req @ '' candle lines up with the first bar of the run''\<rparr>
            | Some closes \<Rightarrow>
                mark0\<lparr>bmCurve := Some (map (\<lambda>c. i64_of (math_Round (float_of (rqCapital req) * c / hd closes))) closes)\<rparr>))"

section \<open>Comparison\<close>

definition covariance :: "f64 list \<Rightarrow> f64 list \<Rightarrow> f64" where
  "covariance a b =
     (let avgA = mean a; avgB = mean b
      in fold (\<lambda>(x, y) acc. acc + (x - avgA) * (y - avgB)) (zip a b) 0 / float_of_int (int (length a) - 1))"

definition correlation :: "f64 list \<Rightarrow> f64 list \<Rightarrow> f64" where
  "correlation a b =
     (if length a \<noteq> length b \<or> length a < 2 then 0
      else if feq (stddev a) 0 \<or> feq (stddev b) 0 then 0
      else covariance a b / (stddev a * stddev b))"

definition beta :: "f64 list \<Rightarrow> f64 list \<Rightarrow> f64" where
  "beta a b =
     (if length a \<noteq> length b \<or> length a < 2 then 0
      else if feq (stddev b) 0 then 0
      else covariance a b / (stddev b * stddev b))"

definition bench_score :: "env \<Rightarrow> time list \<Rightarrow> f64 list \<Rightarrow> f64 list \<Rightarrow> f64 \<Rightarrow> benchmark \<Rightarrow> benchmark" where
  "bench_score v stamps strat rf per bm =
     (case bmCurve bm of
        None \<Rightarrow> bm
      | Some curve \<Rightarrow>
          if length curve < 2 \<or> length curve \<noteq> length stamps \<or> bmUnavailable bm \<noteq> '''' then bm
          else
            let points = map (\<lambda>(t, c). \<lparr>epTS = t, epCents = c\<rparr>) (zip stamps curve);
                steps = returnsOf points;
                first = hd curve;
                finish = last curve
            in bm\<lparr>bmSteps := steps,
                  bmReturnPct := (if 0 <s first then float_of (finish - first) / float_of first * Fin 100 else bmReturnPct bm),
                  bmCAGRPct := cagr (ePow v) first finish (time_sub (last stamps) (hd stamps)),
                  bmVolatilityPct := annualizedVol steps per,
                  bmMaxDrawdownPct := ddPct (deepestDrawdown points),
                  bmSharpe := (if length rf = length steps then sharpe (excess_of steps rf) per else bmSharpe bm),
                  bmCorrelation := correlation strat steps,
                  bmBeta := beta strat steps\<rparr>)"

end

