(* ===== verification/Runs.thy ===== *)
theory Runs
  imports Benchmarks "HOL-Library.Product_Lexorder"
begin

text \<open>
  A whole run (internal/backtest/run.go, metrics.go and basket.go): the summary of an engine, the checks
  of \<open>Run\<close>, and a basket as one run per symbol on its share of the capital whose curves are summed and
  whose trades are merged. The slices of several sleeves are lists in the order of the request's
  instruments.
\<close>

record sleeve =
  slvSymbol :: string
  slvSymbolID :: i64
  slvCapital :: i64
  slvEquity :: "equity_point list"

record run_result =
  rlTrades :: "trade list"
  rlEquity :: "equity_point list"
  rlHold :: "i64 list option"
  rlIndex :: "i64 list option"
  rlSleeves :: "sleeve list"
  rlMetrics :: metrics
  rlHeld :: "time list"

section \<open>The summary of an engine\<close>

definition engine_basis :: "engine \<Rightarrow> basis" where
  "engine_basis e = (if list_ex (\<lambda>b. actions_basis (boActs b) = BasisTotal) (enBooks e) then BasisTotal else BasisPrice)"

definition describe_symbol :: "env \<Rightarrow> engine \<Rightarrow> time \<Rightarrow> book \<Rightarrow> symbol_stats" where
  "describe_symbol v e final_ts b =
     (let s = boStats b; m = enMetrics e
      in s\<lparr>ssSymbolID := syID (boSymbol b),
           ssWinRatePct := (if ssTrades s > 0 then float_of_int (ssWins s) / float_of_int (ssTrades s) * Fin 100 else ssWinRatePct s),
           ssContributionPct := (if 0 <s mCapital m then float_of (ssPnL s) / float_of (mCapital m) * Fin 100 else ssContributionPct s),
           ssBorrowAnnualPct := (case rqBorrow (enReq e) of None \<Rightarrow> ssBorrowAnnualPct s
              | Some br \<Rightarrow> borrow_AnnualPct (eZone v) br (syTicker (boSymbol b)) final_ts)\<rparr>)"

definition describeSymbols :: "env \<Rightarrow> engine \<Rightarrow> metrics" where
  "describeSymbols v e =
     (let final_ts = (case enStamps e of [] \<Rightarrow> zero_time | _ \<Rightarrow> last (enStamps e));
          m = (enMetrics e)\<lparr>mSymbols := map (describe_symbol v e final_ts) (enBooks e)\<rparr>
      in case rqBorrow (enReq e) of
           None \<Rightarrow> m
         | Some br \<Rightarrow> if final_ts = zero_time then m else m\<lparr>mBorrowStale := \<not> borrow_Covers br final_ts\<rparr>)"

definition with_excess :: "metrics \<Rightarrow> benchmark \<Rightarrow> benchmark" where
  "with_excess m bm = (if bmUnavailable bm = '''' then bm\<lparr>bmExcessPct := mReturnPct m - bmReturnPct bm\<rparr> else bm)"

text \<open>\<open>compare\<close>: the two benchmarks of the run, with their curves.\<close>

definition compare_run :: "env \<Rightarrow> engine \<Rightarrow> metrics \<Rightarrow> f64 list \<Rightarrow> f64 list \<Rightarrow> f64 \<Rightarrow> benchmark \<times> benchmark" where
  "compare_run v e m steps rf per =
     (let stamps = map epTS (enEquity e);
          hold = bench_score v stamps steps rf per (holdBenchmark (enReq e) (enBooks e) (enStamps e) (engine_basis e));
          index = bench_score v stamps steps rf per (indexBenchmark (enReq e) (enStamps e))
      in (with_excess m hold, with_excess m index))"

definition totals :: "metrics \<Rightarrow> metrics" where
  "totals m =
     (let pnl = mFinalEquity m - mCapital m
      in m\<lparr>mPnL := pnl,
           mReturnPct := (if 0 <s mCapital m then float_of pnl / float_of (mCapital m) * Fin 100 else mReturnPct m),
           mTimeInMarket := (if mBars m > 0 then float_of_int (mBarsInMarket m) / float_of_int (mBars m) * Fin 100
                             else mTimeInMarket m)\<rparr>)"

definition counted :: "engine \<Rightarrow> metrics" where
  "counted e =
     (enMetrics e)\<lparr>mBars := int (length (enStamps e)), mTrades := int (length (enTrades e)),
        mFinalEquity := (if enEquity e = [] then enCash e else epCents (last (enEquity e))),
        mBasis := engine_basis e,
        mUnadjustedBars := mUnadjustedBars (enMetrics e) + sum_list (map (\<lambda>b. int (unadjusted (boActs b))) (enBooks e)),
        mUnpricedActions := mUnpricedActions (enMetrics e) + sum_list (map (\<lambda>b. int (unpriced (boActs b))) (enBooks e))\<rparr>"

definition summarize :: "env \<Rightarrow> engine \<Rightarrow> metrics \<times> i64 list option \<times> i64 list option" where
  "summarize v e =
     (let m1 = tallyTrades (counted e) (enTrades e) (enStamps e);
          m2 = (totals (describeSymbols v (e\<lparr>enMetrics := m1\<rparr>)))\<lparr>mBarsPerYear := periods e\<rparr>
      in if length (enEquity e) < 2 then (m2, None, None)
         else
           let steps = returnsOf (enEquity e);
               (m3, rf) = riskFreeOf (ePow v) (eZone v) m2 (rqRates (enReq e)) (enEquity e) (periods e);
               m4 = riskOf (ePow v) m3 (enEquity e) steps rf (periods e);
               (hold, index) = compare_run v e m4 steps rf (periods e)
           in (m4\<lparr>mBenchmarks := [hold, index]\<rparr>, bmCurve hold, bmCurve index))"

definition runSleeve :: "env \<Rightarrow> request \<Rightarrow> instrument \<Rightarrow> i64 \<Rightarrow> run_result" where
  "runSleeve v req inst capital =
     (let e = engine_run v (req\<lparr>rqInstruments := [inst], rqCapital := capital\<rparr>);
          (m, hold, index) = summarize v e
      in \<lparr>rlTrades = enTrades e, rlEquity = enEquity e, rlHold = hold, rlIndex = index, rlSleeves = [],
          rlMetrics = m, rlHeld = enHeld e\<rparr>)"

definition sleeveStats :: "run_result \<Rightarrow> symbol \<Rightarrow> i64 \<Rightarrow> i64 \<Rightarrow> symbol_stats" where
  "sleeveStats slv sy capital whole =
     (let m = rlMetrics slv;
          s = (case mSymbols m of [] \<Rightarrow> new_stats (syTicker sy) (mBasis m) | x # _ \<Rightarrow> x)
      in s\<lparr>ssSymbol := syTicker sy, ssSymbolID := syID sy, ssCapital := capital,
           ssFinalEquity := mFinalEquity m, ssDividends := mDividends m, ssBorrow := mBorrow m,
           ssTimeInMarket := mTimeInMarket m, ssReturnPct := mReturnPct m, ssCAGRPct := mCAGRPct m,
           ssVolatilityPct := mVolatilityPct m, ssMaxDrawdown := mMaxDrawdown m, ssSharpe := mSharpe m,
           ssSortino := mSortino m, ssCalmar := mCalmar m, ssProfitFactor := mProfitFactor m,
           ssExpectancy := mExpectancy m, ssBenchmarks := mBenchmarks m,
           ssContributionPct := (if 0 <s whole then float_of (ssPnL s) / float_of whole * Fin 100 else 0)\<rparr>)"

section \<open>Baskets\<close>

definition splitCapital :: "i64 \<Rightarrow> nat \<Rightarrow> i64 list" where
  "splitCapital sum_c n =
     (let base = i64_div sum_c (word_of_nat n); extra = i64_mod sum_c (word_of_nat n)
      in map (\<lambda>i. if word_of_nat i <s extra then base + 1 else base) [0..<n])"

definition unionStamps :: "run_result list \<Rightarrow> time list" where
  "unionStamps slvs = sort (remdups (concat (map (\<lambda>s. map epTS (rlEquity s)) slvs)))"

text \<open>The inner loop of \<open>alignSleeve\<close>: the points due by a stamp move the last value.\<close>

fun catch_up :: "time \<Rightarrow> (time \<times> i64) list \<Rightarrow> i64 \<Rightarrow> i64 \<times> (time \<times> i64) list" where
  "catch_up ts [] prev = (prev, [])"
| "catch_up ts ((t, c) # own) prev = (if t > ts then (prev, (t, c) # own) else catch_up ts own c)"

fun align_from :: "time list \<Rightarrow> (time \<times> i64) list \<Rightarrow> i64 \<Rightarrow> i64 list" where
  "align_from [] own prev = []"
| "align_from (ts # stamps) own prev =
     (let (now, rest) = catch_up ts own prev in now # align_from stamps rest now)"

definition alignSleeve :: "time list \<Rightarrow> time list \<Rightarrow> i64 list \<Rightarrow> i64 \<Rightarrow> i64 list" where
  "alignSleeve stamps own values start = align_from stamps (zip own values) start"

definition pointsOf :: "time list \<Rightarrow> i64 list \<Rightarrow> equity_point list" where
  "pointsOf stamps cents = map (\<lambda>(t, c). \<lparr>epTS = t, epCents = c\<rparr>) (zip stamps cents)"

text \<open>\<open>total[k] += cents\<close>, curve by curve.\<close>

definition add_curve :: "i64 list \<Rightarrow> i64 list \<Rightarrow> i64 list" where
  "add_curve curve sum_c = map (\<lambda>(t, c). t + c) (zip sum_c curve)"

definition sumAligned :: "i64 list list \<Rightarrow> time list \<Rightarrow> equity_point list" where
  "sumAligned curves stamps = pointsOf stamps (fold add_curve curves (replicate (length stamps) 0))"

fun sumBenchmark_from :: "time list \<Rightarrow> bench_kind \<Rightarrow> (run_result \<times> i64) list \<Rightarrow> i64 list \<Rightarrow> i64 list option" where
  "sumBenchmark_from stamps k [] sum_c = Some sum_c"
| "sumBenchmark_from stamps k ((slv, share) # slvs) sum_c =
     (case (if k = BenchmarkIndex then rlIndex slv else rlHold slv) of
        None \<Rightarrow> None
      | Some curve \<Rightarrow>
          if length curve \<noteq> length (rlEquity slv) \<or> curve = [] then None
          else sumBenchmark_from stamps k slvs
                 (add_curve (alignSleeve stamps (map epTS (rlEquity slv)) curve share) sum_c))"

definition sumBenchmark :: "run_result list \<Rightarrow> i64 list \<Rightarrow> time list \<Rightarrow> bench_kind \<Rightarrow> i64 list option" where
  "sumBenchmark slvs shares stamps k = sumBenchmark_from stamps k (zip slvs shares) (replicate (length stamps) 0)"

fun renumber :: "i32 \<Rightarrow> trade list \<Rightarrow> trade list" where
  "renumber i [] = []"
| "renumber i (t # ts) = t\<lparr>trSeq := i\<rparr> # renumber (i + 1) ts"

definition trade_key :: "trade \<Rightarrow> time \<times> time \<times> string" where
  "trade_key t = (trEntryTS t, trExitTS t, trSymbol t)"

definition mergeTrades :: "run_result list \<Rightarrow> trade list" where
  "mergeTrades slvs = renumber 1 (sort_key trade_key (concat (map rlTrades slvs)))"

definition barsPerYear :: "request \<Rightarrow> f64" where
  "barsPerYear req = (if rqBarsPerYear req > 0 then rqBarsPerYear req else trading_days)"

definition sleeveStatsOf :: "run_result list \<Rightarrow> instrument list \<Rightarrow> i64 list \<Rightarrow> i64 \<Rightarrow> symbol_stats list" where
  "sleeveStatsOf slvs insts shares capital =
     map (\<lambda>(slv, inst, share). sleeveStats slv (isSymbol inst) share capital) (zip slvs (zip insts shares))"

definition benchmarkOf :: "benchmark list \<Rightarrow> bench_kind \<Rightarrow> benchmark option" where
  "benchmarkOf marks k = find (\<lambda>b. bmKind b = k) marks"

fun missingBenchmark :: "run_result list \<Rightarrow> bench_kind \<Rightarrow> string" where
  "missingBenchmark [] k = ''one of the basket's symbols has no comparable curve''"
| "missingBenchmark (slv # slvs) k =
     (case benchmarkOf (mBenchmarks (rlMetrics slv)) k of
        Some b \<Rightarrow> if bmUnavailable b \<noteq> '''' then bmUnavailable b else missingBenchmark slvs k
      | None \<Rightarrow> missingBenchmark slvs k)"

definition add_found :: "bench_kind \<Rightarrow> run_result \<Rightarrow> benchmark \<Rightarrow> benchmark" where
  "add_found k slv bm =
     (case benchmarkOf (mBenchmarks (rlMetrics slv)) k of
        None \<Rightarrow> bm
      | Some f \<Rightarrow> bm\<lparr>bmDividends := bmDividends bm + bmDividends f, bmFees := bmFees bm + bmFees f\<rparr>)"

definition aggregate_mark :: "env \<Rightarrow> run_result list \<Rightarrow> time list \<Rightarrow> metrics \<Rightarrow> f64 list \<Rightarrow> f64 list \<Rightarrow> benchmark \<Rightarrow> benchmark" where
  "aggregate_mark v slvs stamps m steps rf bm =
     (if bmCurve bm = None then bm\<lparr>bmUnavailable := missingBenchmark slvs (bmKind bm)\<rparr>
      else with_excess m (bench_score v stamps steps rf (mBarsPerYear m) (fold (add_found (bmKind bm)) slvs bm)))"

definition aggregateBenchmarks :: "env \<Rightarrow> request \<Rightarrow> run_result list \<Rightarrow> time list \<Rightarrow> metrics \<Rightarrow> f64 list \<Rightarrow> f64 list \<Rightarrow>
    i64 list option \<Rightarrow> i64 list option \<Rightarrow> benchmark list" where
  "aggregateBenchmarks v req slvs stamps m steps rf hold index =
     map (aggregate_mark v slvs stamps m steps rf)
       [(new_benchmark BenchmarkHold (join_names (map (\<lambda>i. syTicker (isSymbol i)) (rqInstruments req))) (mBasis m))\<lparr>bmCurve := hold\<rparr>,
        (new_benchmark BenchmarkIndex (rqIndexSymbol req) BasisTotal)\<lparr>bmCurve := index\<rparr>]"

definition absorb :: "run_result \<Rightarrow> metrics \<Rightarrow> metrics" where
  "absorb slv m =
     (let s = rlMetrics slv
      in m\<lparr>mBasis := (if mBasis s = BasisTotal then BasisTotal else mBasis m),
           mDividends := mDividends m + mDividends s, mDividendEvents := mDividendEvents m + mDividendEvents s,
           mBorrow := mBorrow m + mBorrow s, mBorrowStale := (mBorrowStale m \<or> mBorrowStale s),
           mSplitCash := mSplitCash m + mSplitCash s, mSkippedEntries := mSkippedEntries m + mSkippedEntries s,
           mShortsUnavailable := mShortsUnavailable m + mShortsUnavailable s,
           mUnadjustedBars := mUnadjustedBars m + mUnadjustedBars s,
           mUnpricedActions := mUnpricedActions m + mUnpricedActions s,
           mSplitEvents := mSplitEvents m + mSplitEvents s, mSplitsApplied := mSplitsApplied m + mSplitsApplied s,
           mAmbiguousBars := mAmbiguousBars m + mAmbiguousBars s\<rparr>)"

definition exposed_bars :: "run_result list \<Rightarrow> int" where
  "exposed_bars slvs = int (length (remdups (concat (map (\<lambda>s. map unix_of (rlHeld s)) slvs))))"

definition aggregateMetrics :: "env \<Rightarrow> request \<Rightarrow> run_result list \<Rightarrow> i64 list \<Rightarrow> time list \<Rightarrow> equity_point list \<Rightarrow>
    trade list \<Rightarrow> i64 list option \<Rightarrow> i64 list option \<Rightarrow> metrics" where
  "aggregateMetrics v req slvs shares stamps equity trades hold index =
     (let m0 = new_metrics\<lparr>mBars := int (length stamps), mTrades := int (length trades), mCapital := rqCapital req,
                 mBarsPerYear := barsPerYear req, mBasis := BasisPrice\<rparr>;
          m1 = (fold absorb slvs m0)\<lparr>mBarsInMarket := exposed_bars slvs,
                 mFinalEquity := (if equity = [] then rqCapital req else epCents (last equity))\<rparr>;
          m2 = totals ((tallyTrades m1 trades stamps)\<lparr>mSymbols := sleeveStatsOf slvs (rqInstruments req) shares (rqCapital req)\<rparr>)
      in if length equity < 2 then m2
         else
           let steps = returnsOf equity;
               (m3, rf) = riskFreeOf (ePow v) (eZone v) m2 (rqRates req) equity (mBarsPerYear m2);
               m4 = riskOf (ePow v) m3 equity steps rf (mBarsPerYear m3)
           in m4\<lparr>mBenchmarks := aggregateBenchmarks v req slvs stamps m4 steps rf hold index\<rparr>)"

definition runBasket :: "env \<Rightarrow> request \<Rightarrow> i64 list \<Rightarrow> run_result" where
  "runBasket v req shares =
     (let slvs = map (\<lambda>(inst, share). runSleeve v req inst share) (zip (rqInstruments req) shares);
          stamps = unionStamps slvs;
          trades = mergeTrades slvs;
          aligned = map (\<lambda>(slv, share). alignSleeve stamps (map epTS (rlEquity slv)) (map epCents (rlEquity slv)) share)
                      (zip slvs shares);
          equity = sumAligned aligned stamps;
          hold = sumBenchmark slvs shares stamps BenchmarkHold;
          index = sumBenchmark slvs shares stamps BenchmarkIndex
      in \<lparr>rlTrades = trades, rlEquity = equity, rlHold = hold, rlIndex = index,
          rlSleeves = map (\<lambda>(inst, share, curve). \<lparr>slvSymbol = syTicker (isSymbol inst), slvSymbolID = syID (isSymbol inst),
                             slvCapital = share, slvEquity = pointsOf stamps curve\<rparr>)
                        (zip (rqInstruments req) (zip shares aligned)),
          rlMetrics = aggregateMetrics v req slvs shares stamps equity trades hold index, rlHeld = []\<rparr>)"

section \<open>Run\<close>

datatype run_error =
    NoPlan
  | NoCapital
  | NoSymbols
  | TooFewCandles string nat
  | CapitalTooThin i64 nat

definition Run :: "env \<Rightarrow> plan option \<Rightarrow> request \<Rightarrow> run_error + run_result" where
  "Run v pl req0 =
     (case pl of
        None \<Rightarrow> Inl NoPlan
      | Some p \<Rightarrow>
          (let req = req0\<lparr>rqPlan := p\<rparr>; insts = rqInstruments req
           in if rqCapital req <s 1 then Inl NoCapital
              else if insts = [] then Inl NoSymbols
              else
                (case find (\<lambda>i. length (isCandles i) < 2) insts of
                   Some i \<Rightarrow> Inl (TooFewCandles (syTicker (isSymbol i)) (length (isCandles i)))
                 | None \<Rightarrow>
                     (let shares = splitCapital (rqCapital req) (length insts)
                      in if last shares <s 1 then Inl (CapitalTooThin (rqCapital req) (length insts))
                         else
                           (case insts of
                              [inst] \<Rightarrow>
                                (let r = runSleeve v req inst (hd shares)
                                 in Inr (r\<lparr>rlMetrics := (rlMetrics r)\<lparr>mSymbols :=
                                      [sleeveStats r (isSymbol inst) (hd shares) (rqCapital req)]\<rparr>\<rparr>))
                            | _ \<Rightarrow> Inr (runBasket v req shares))))))"

end

