(* ===== verification/Balance.thy ===== *)
theory Balance
  imports Runs Accounts "HOL-Library.Multiset"
begin

text \<open>
  The accounts of a whole run: what the summary reports is what the trades add up to, for one symbol and
  for a basket, whose sleeves share the capital out exactly and whose trades are merged without loss.
\<close>

section \<open>The summary keeps the accounts\<close>

text \<open>The fields of the metrics the accounts are read from.\<close>

definition accounts_of :: "metrics \<Rightarrow> i64 \<times> i64 \<times> i64 \<times> i64 \<times> i64" where
  "accounts_of m = (mCapital m, mFinalEquity m, mDividends m, mBorrow m, mSplitCash m)"

lemma accounts_tally_trade [simp]: "accounts_of (tlMetrics (tally_trade ix tr t)) = accounts_of (tlMetrics t)"
  by (cases "trReason tr") (simp_all add: tally_trade_def tally_result_def tally_side_def tally_reason_def Let_def accounts_of_def)

lemma accounts_tally_fold: "accounts_of (tlMetrics (fold (tally_trade ix) trs t)) = accounts_of (tlMetrics t)"
  by (induction trs arbitrary: t) simp_all

lemma accounts_tally [simp]: "accounts_of (tallyTrades m trs stamps) = accounts_of m"
proof -
  have "accounts_of (tally_ratios t) = accounts_of (tlMetrics t)" for t
    by (simp add: tally_ratios_def Let_def accounts_of_def)
  then show ?thesis by (simp add: tallyTrades_def accounts_tally_fold)
qed

lemma accounts_describe [simp]: "accounts_of (describeSymbols v e) = accounts_of (enMetrics e)"
  by (simp add: describeSymbols_def Let_def accounts_of_def split: option.splits)

lemma accounts_totals [simp]: "accounts_of (totals m) = accounts_of m"
  by (simp add: totals_def Let_def accounts_of_def)

lemma accounts_riskOf [simp]: "accounts_of (riskOf pw m eq steps rf per) = accounts_of m"
  by (simp add: riskOf_def Let_def accounts_of_def)

lemma accounts_riskFree [simp]: "accounts_of (fst (riskFreeOf pw zone m rs eq per)) = accounts_of m"
  by (simp add: riskFreeOf_def accounts_of_def split: option.splits)

lemma accounts_minor [simp]:
  "accounts_of (m\<lparr>mBarsPerYear := x\<rparr>) = accounts_of m" "accounts_of (m\<lparr>mBenchmarks := bs\<rparr>) = accounts_of m"
  "accounts_of (m\<lparr>mSymbols := ss\<rparr>) = accounts_of m" "accounts_of (m\<lparr>mBarsInMarket := n\<rparr>) = accounts_of m"
  by (simp_all add: accounts_of_def)

lemma accounts_summarize: "accounts_of (fst (summarize v e)) = accounts_of (counted e)"
proof -
  define m2 where "m2 = (totals (describeSymbols v (e\<lparr>enMetrics := tallyTrades (counted e) (enTrades e) (enStamps e)\<rparr>)))
    \<lparr>mBarsPerYear := periods e\<rparr>"
  have m2: "accounts_of m2 = accounts_of (counted e)" by (simp add: m2_def)
  obtain m3 rf where rf: "riskFreeOf (ePow v) (eZone v) m2 (rqRates (enReq e)) (enEquity e) (periods e) = (m3, rf)" by force
  have m3: "accounts_of m3 = accounts_of m2"
    using accounts_riskFree [of "ePow v" "eZone v" m2 "rqRates (enReq e)" "enEquity e" "periods e"] by (simp add: rf)
  show ?thesis
    using m2 m3 by (simp add: summarize_def Let_def m2_def [symmetric] rf split: prod.splits)
qed

text \<open>The profit the summary reports.\<close>

definition profit_ok :: "metrics \<Rightarrow> bool" where
  "profit_ok m \<longleftrightarrow> mPnL m = mFinalEquity m - mCapital m"

lemma profit_ok_steps [simp]:
  "profit_ok (totals m)" "profit_ok (riskOf pw m eq steps rf per) = profit_ok m"
  "profit_ok (fst (riskFreeOf pw zone m rs eq per)) = profit_ok m"
  "profit_ok (m\<lparr>mBarsPerYear := x\<rparr>) = profit_ok m" "profit_ok (m\<lparr>mBenchmarks := bs\<rparr>) = profit_ok m"
  by (simp_all add: profit_ok_def totals_def riskOf_def riskFreeOf_def Let_def split: option.splits)

lemma profit_summarize: "profit_ok (fst (summarize v e))"
  using profit_ok_steps(3) [of "ePow v" "eZone v"] by (simp add: summarize_def Let_def split_beta)

definition sum_of :: "(trade \<Rightarrow> i64) \<Rightarrow> trade list \<Rightarrow> i64" where
  "sum_of f ts = sum_list (map f ts)"

text \<open>A result balances with a capital: its summary is the sum of its trades.\<close>

definition balances :: "i64 \<Rightarrow> run_result \<Rightarrow> bool" where
  "balances capital r \<longleftrightarrow>
     mCapital (rlMetrics r) = capital \<and>
     mFinalEquity (rlMetrics r) = capital + sum_of trPnL (rlTrades r) \<and>
     mPnL (rlMetrics r) = sum_of trPnL (rlTrades r) \<and>
     mDividends (rlMetrics r) = sum_of trDividends (rlTrades r) \<and>
     mBorrow (rlMetrics r) = sum_of trBorrow (rlTrades r) \<and>
     mSplitCash (rlMetrics r) = sum_of trSplitCash (rlTrades r) \<and>
     (rlEquity r = [] \<or> epCents (last (rlEquity r)) = capital + sum_of trPnL (rlTrades r))"

lemma balances_last:
  "balances capital r \<Longrightarrow> rlEquity r \<noteq> [] \<Longrightarrow> epCents (last (rlEquity r)) = capital + sum_of trPnL (rlTrades r)"
  by (simp add: balances_def)

section \<open>A sleeve\<close>

lemma runSleeve_engine:
  "rlTrades (runSleeve v req inst capital) = enTrades (engine_run v (req\<lparr>rqInstruments := [inst], rqCapital := capital\<rparr>))"
  "rlEquity (runSleeve v req inst capital) = enEquity (engine_run v (req\<lparr>rqInstruments := [inst], rqCapital := capital\<rparr>))"
  "rlMetrics (runSleeve v req inst capital) = fst (summarize v (engine_run v (req\<lparr>rqInstruments := [inst], rqCapital := capital\<rparr>)))"
  by (simp_all add: runSleeve_def Let_def split_beta)

text \<open>No handler touches the capital the metrics record.\<close>

definition keeps_capital :: "(engine \<Rightarrow> book \<Rightarrow> engine \<times> book) \<Rightarrow> bool" where
  "keeps_capital f \<longleftrightarrow> (\<forall>e b. mCapital (enMetrics (fst (f e b))) = mCapital (enMetrics e))"

lemma keeps_capitalD: "keeps_capital f \<Longrightarrow> f e b = (e', b') \<Longrightarrow> mCapital (enMetrics e') = mCapital (enMetrics e)"
  by (metis keeps_capital_def fst_conv)

lemma capital_simple:
  "keeps_capital (credit i)" "keeps_capital (settleBorrow cents)" "keeps_capital (cashOut shares price)"
  by (simp_all add: keeps_capital_def credit_def settleBorrow_def cashOut_def add_cash_def Let_def)

lemma capital_charge: "keeps_capital (charge v i)"
  using capital_simple(2) by (simp add: keeps_capital_def charge_def Let_def split: option.splits)

lemma capital_record: "keeps_capital (record_trade ts price gross fee reason)"
  using capital_simple(2) by (simp add: keeps_capital_def record_trade_def Let_def split_beta)

lemma capital_settle: "keeps_capital (settle c price shares)"
  using capital_simple(3) capital_record by (simp add: keeps_capital_def settle_def Let_def split_beta)

lemma capital_adjust: "keeps_capital (adjust i c)"
  using capital_simple(3) capital_settle by (simp add: keeps_capital_def adjust_def Let_def split_beta)

lemma capital_exit: "keeps_capital (exit_position c br ord reason)"
  using capital_record by (simp add: keeps_capital_def exit_position_def add_cash_def Let_def split: option.splits)

lemma capital_skip [simp]: "mCapital (enMetrics (skip_entry e)) = mCapital (enMetrics e)"
  by (simp add: skip_entry_def)

lemma capital_enter: "keeps_capital (enter v c want)"
  by (simp add: keeps_capital_def enter_def add_cash_def Let_def split: option.splits)

lemma capital_fill: "keeps_capital (fill_pending v c)"
  using capital_enter capital_exit by (simp add: keeps_capital_def fill_pending_def Let_def)

lemma capital_brackets: "keeps_capital (brackets c)"
  using capital_exit by (simp add: keeps_capital_def brackets_def Let_def)

lemma capital_close: "keeps_capital (closeOut c)"
  using capital_exit by (simp add: keeps_capital_def closeOut_def Let_def)

lemma capital_offer: "mCapital (enMetrics (fst (offer dirs e b))) = mCapital (enMetrics e)"
  by (induction dirs) (simp_all add: Let_def split: option.splits)

lemma capital_signal: "keeps_capital signal"
  by (simp add: keeps_capital_def signal_def Let_def capital_offer del: offer.simps)

lemma capital_bar: "keeps_capital (bar_step v i c)"
proof -
  have "mCapital (enMetrics (fst (bar_step v i c e b))) = mCapital (enMetrics e)" for e b
  proof -
    obtain e1 b1 where 1: "credit i e b = (e1, b1)" by force
    obtain e2 b2 where 2: "charge v i e1 b1 = (e2, b2)" by force
    obtain e3 b3 where 3: "adjust i c e2 b2 = (e3, b3)" by force
    obtain e4 b4 where 4: "fill_pending v c e3 b3 = (e4, b4)" by force
    obtain e5 b5 where 5: "brackets c e4 b4 = (e5, b5)" by force
    note step = keeps_capitalD [OF capital_simple(1) 1] keeps_capitalD [OF capital_charge 2]
      keeps_capitalD [OF capital_adjust 3] keeps_capitalD [OF capital_fill 4] keeps_capitalD [OF capital_brackets 5]
    show ?thesis
      using step capital_close capital_signal
      by (simp add: bar_step_def 1 2 3 4 5 Let_def keeps_capital_def)
  qed
  then show ?thesis by (simp add: keeps_capital_def)
qed

lemma capital_books: "mCapital (enMetrics (fst (step_books v ts e bs))) = mCapital (enMetrics e)"
proof (induction bs arbitrary: e)
  case (Cons b bs)
  obtain e1 b1 where one: "(case advance ts b of None \<Rightarrow> (e, b) | Some (b', c, i) \<Rightarrow> bar_step v i c e b') = (e1, b1)" by force
  then have "mCapital (enMetrics e1) = mCapital (enMetrics e)"
    by (auto split: option.splits dest: keeps_capitalD [OF capital_bar])
  then show ?case using Cons.IH [of e1] by (simp add: one split_beta)
qed simp

lemma stamp_step_capital: "mCapital (enMetrics (stamp_step v ts e)) = mCapital (enMetrics e)"
  using capital_books [of v ts e "enBooks e"] by (simp add: stamp_step_def mark_def Let_def split_beta)

lemma run_capital: "mCapital (enMetrics (engine_run v req)) = rqCapital req"
proof -
  have "mCapital (enMetrics (run_stamps v stamps e)) = mCapital (enMetrics e)" for stamps e
    by (induction stamps arbitrary: e) (simp_all add: run_stamps_def stamp_step_capital)
  then show ?thesis by (simp add: engine_run_def newEngine_def Let_def)
qed

text \<open>The run of one symbol balances with the capital it was given.\<close>

lemma runSleeve_balances: "balances capital (runSleeve v req inst capital)"
proof -
  let ?req = "req\<lparr>rqInstruments := [inst], rqCapital := capital\<rparr>"
  let ?e = "engine_run v ?req"
  note E = engine_run_accounts [OF new_engine_on_time_single, of ?req inst]
  have insts: "rqInstruments ?req = [inst]" by simp
  have post: "posted a ?e = (if a = Cash then capital else 0) + closed_total a ?e" for a
    using E(3) [OF insts] by simp
  have run: "?e = run_stamps v (enStamps (newEngine ?req)) (newEngine ?req)" by (simp add: engine_run_def Let_def)
  have fin: "(if enEquity ?e = [] then enCash ?e else epCents (last (enEquity ?e))) = enCash ?e"
    using last_equity(1) [of v "enStamps (newEngine ?req)" "newEngine ?req"] E(2) [OF insts]
    by (cases "enStamps (newEngine ?req) = []") (simp_all add: run [symmetric], simp add: run run_stamps_def newEngine_def Let_def)
  have acc: "accounts_of (fst (summarize v ?e)) = accounts_of (counted ?e)" by (rule accounts_summarize)
  have cap: "mCapital (enMetrics ?e) = capital" using run_capital [of v ?req] by simp
  have "mFinalEquity (fst (summarize v ?e)) = enCash ?e" "mCapital (fst (summarize v ?e)) = capital"
    and "mDividends (fst (summarize v ?e)) = mDividends (enMetrics ?e)"
    and "mBorrow (fst (summarize v ?e)) = mBorrow (enMetrics ?e)"
    and "mSplitCash (fst (summarize v ?e)) = mSplitCash (enMetrics ?e)"
    using acc fin cap by (simp_all add: accounts_of_def counted_def)
  moreover have "traded Cash = trPnL" "traded Dividends = trDividends" "traded Borrowing = trBorrow" "traded SplitCash = trSplitCash"
    by (simp_all add: fun_eq_iff)
  moreover note profit_summarize [of v ?e, unfolded profit_ok_def]
  moreover have "enEquity ?e = [] \<or> epCents (last (enEquity ?e)) = enCash ?e"
    using fin by (simp split: if_splits)
  ultimately show ?thesis
    using post [of Cash] post [of Dividends] post [of Borrowing] post [of SplitCash]
    by (simp add: balances_def runSleeve_engine sum_of_def closed_total_def)
qed

section \<open>Sharing the capital out\<close>

lemma count_below: "length (filter (\<lambda>i. i < k) [0..<n]) = min k n"
  by (induction n) (auto simp: min_def)

lemma sum_list_bump:
  "sum_list (map (\<lambda>i. if P i then b + 1 else b) xs) = of_nat (length xs) * b + (of_nat (length (filter P xs)) :: i64)"
  by (induction xs) (simp_all add: algebra_simps)

lemma sint_fits: "0 \<le> x \<Longrightarrow> x < 2 ^ 63 \<Longrightarrow> sint (word_of_int x :: i64) = x"
  by (rule sint_i64) simp_all

lemma sint_word_of_nat: "n < 2 ^ 63 \<Longrightarrow> sint (word_of_nat n :: i64) = int n"
  using sint_fits [of "int n"] by simp

lemma word_of_nat_sint: "0 \<le> sint x \<Longrightarrow> word_of_nat (nat (sint x)) = (x :: i64)"
  by simp

lemma add_diff_inverse_word: "a + (b - a) = (b :: i64)"
  by simp

lemma split_division:
  assumes "0 < n" and "n < 2 ^ 63" and "0 \<le>s c"
  shows "sint (i64_div c (word_of_nat n)) = sint c div int n"
    and "sint (i64_mod c (word_of_nat n)) = sint c mod int n"
proof -
  have n: "sint (word_of_nat n :: i64) = int n" using assms(2) by (rule sint_word_of_nat)
  have c: "0 \<le> sint c" "sint c < 2 ^ 63" using assms(3) sint_lt [of c] by (simp_all add: word_sle_eq)
  have q: "0 \<le> sint c div int n" "sint c div int n \<le> sint c"
    using assms(1) c zdiv_mono2 [of "sint c" 1 "int n"] by (simp_all add: pos_imp_zdiv_nonneg_iff)
  have d: "i64_div c (word_of_nat n) = word_of_int (sint c div int n)"
    using c n assms(1) by (simp add: i64_div_def tdiv_def)
  show "sint (i64_div c (word_of_nat n)) = sint c div int n" using q c by (simp add: d sint_fits)
  have "int n < 2 ^ 63" using assms(2) by simp
  then have m: "0 \<le> sint c mod int n" "sint c mod int n < 2 ^ 63"
    using assms(1) pos_mod_sign [of "int n" "sint c"] pos_mod_bound [of "int n" "sint c"] by linarith+
  have "i64_mod c (word_of_nat n) = word_of_int (sint c - sint c div int n * int n)"
    by (simp add: i64_mod_def d)
  also have "sint c - sint c div int n * int n = sint c mod int n"
    using minus_div_mult_eq_mod by blast
  finally show "sint (i64_mod c (word_of_nat n)) = sint c mod int n" using sint_fits m by simp
qed

lemma splitCapital_sum:
  assumes "0 < n" and "n < 2 ^ 63" and "0 \<le>s c"
  shows "sum_list (splitCapital c n) = c"
proof -
  let ?b = "i64_div c (word_of_nat n)" and ?x = "i64_mod c (word_of_nat n)"
  note D = split_division [OF assms]
  have x: "0 \<le> sint ?x" "sint ?x < int n" using D(2) assms(1) by simp_all
  have less: "(word_of_nat i <s ?x) = (i < nat (sint ?x))" if i: "i < n" for i
  proof -
    have "sint (word_of_nat i :: i64) = int i" by (rule sint_word_of_nat) (use i assms(2) in linarith)
    then show ?thesis using x by (simp only: word_sless_alt zless_nat_eq_int_zless)
  qed
  have "filter (\<lambda>i. word_of_nat i <s ?x) [0..<n] = filter (\<lambda>i. i < nat (sint ?x)) [0..<n]"
    by (rule filter_cong) (simp_all add: less)
  then have len: "length (filter (\<lambda>i. word_of_nat i <s ?x) [0..<n]) = nat (sint ?x)"
    using x by (simp add: count_below min_def)
  have "sum_list (splitCapital c n) = of_nat n * ?b + of_nat (nat (sint ?x))"
    unfolding splitCapital_def Let_def sum_list_bump len by (simp only: length_upt diff_zero)
  also have "of_nat (nat (sint ?x)) = ?x"
    by (rule word_of_nat_sint [OF x(1)])
  also have "of_nat n * ?b + ?x = c" by (simp only: i64_mod_def mult.commute add_diff_inverse_word)
  finally show ?thesis .
qed

lemma splitCapital_shares:
  assumes "n < 2 ^ 63" and "0 \<le>s c" and "i < n"
  shows "sint (splitCapital c n ! i) = sint c div int n + (if int i < sint c mod int n then 1 else 0)"
proof -
  have n: "0 < n" using assms(3) by simp
  note D = split_division [OF n assms(1,2)]
  have less: "(word_of_nat i <s i64_mod c (word_of_nat n)) = (int i < sint c mod int n)"
  proof -
    have "sint (word_of_nat i :: i64) = int i" by (rule sint_word_of_nat) (use assms in linarith)
    then show ?thesis using D(2) by (simp only: word_sless_alt)
  qed
  have "sint c div int n + 1 < 2 ^ 63" if "int i < sint c mod int n"
  proof -
    have "sint c mod int n + sint c div int n * int n = sint c" by simp
    moreover have "0 \<le> sint c div int n" using assms n by (simp add: word_sle_eq pos_imp_zdiv_nonneg_iff)
    ultimately have "sint c div int n + sint c mod int n \<le> sint c"
      using n mult_left_mono [of 1 "int n" "sint c div int n"] by linarith
    moreover have "1 < int n" using that n pos_mod_bound [of "int n" "sint c"] by linarith
    ultimately show ?thesis using that n sint_lt [of c] by simp
  qed
  moreover have "0 \<le> sint c div int n" using assms n by (simp add: word_sle_eq pos_imp_zdiv_nonneg_iff)
  moreover have "sint c div int n + 1 < 2 ^ 63 \<Longrightarrow> sint (i64_div c (word_of_nat n) + 1) = sint c div int n + 1"
    using D(1) \<open>0 \<le> sint c div int n\<close> by (simp add: sint_word_ariths(1) signed_take_bit_int_eq_self)
  ultimately show ?thesis using assms(3) D(1) by (auto simp: splitCapital_def Let_def less)
qed

section \<open>Aligned curves\<close>

lemma length_align_from [simp]: "length (align_from stamps own prev) = length stamps"
  by (induction stamps arbitrary: own prev) (simp_all add: split_beta)

lemma catch_up_all:
  "list_all (\<lambda>(t, c). t \<le> ts) own \<Longrightarrow> catch_up ts own prev = ((if own = [] then prev else snd (last own)), [])"
  by (induction ts own prev rule: catch_up.induct) auto

lemma catch_up_suffix: "\<exists>taken. own = taken @ snd (catch_up ts own prev) \<and>
    fst (catch_up ts own prev) = (if taken = [] then prev else snd (last taken))"
proof (induction ts own prev rule: catch_up.induct)
  case (2 ts t c own prev)
  show ?case
  proof (cases "t > ts")
    case False
    then obtain taken where "own = taken @ snd (catch_up ts own c)"
      "fst (catch_up ts own c) = (if taken = [] then c else snd (last taken))" using 2 by auto
    then show ?thesis using False by (intro exI [of _ "(t, c) # taken"]) auto
  qed simp
qed simp

text \<open>At a stamp no point is later than, the curve stands at its last point.\<close>

lemma align_last:
  "stamps \<noteq> [] \<Longrightarrow> list_all (\<lambda>(t, c). t \<le> last stamps) own \<Longrightarrow>
   last (align_from stamps own prev) = (if own = [] then prev else snd (last own))"
proof (induction stamps arbitrary: own prev)
  case (Cons ts stamps)
  obtain now tail where cu: "catch_up ts own prev = (now, tail)" by force
  show ?case
  proof (cases "stamps = []")
    case True
    then show ?thesis using Cons.prems(2) catch_up_all [of ts own prev] by simp
  next
    case False
    obtain taken where t: "own = taken @ tail" "now = (if taken = [] then prev else snd (last taken))"
      using catch_up_suffix [of own ts prev] cu by auto
    have "list_all (\<lambda>(t, c). t \<le> last stamps) tail" using Cons.prems(2) False t(1) by simp
    moreover have "align_from stamps tail now \<noteq> []" using False by (cases stamps) (simp_all add: split_beta)
    ultimately show ?thesis using Cons.IH [OF False, of tail now] False t cu by simp
  qed
qed simp

lemma sorted_le_last: "sorted xs \<Longrightarrow> x \<in> set xs \<Longrightarrow> x \<le> last xs"
  by (induction xs) auto

lemma unionStamps_mem: "s \<in> set slvs \<Longrightarrow> p \<in> set (rlEquity s) \<Longrightarrow> epTS p \<in> set (unionStamps slvs)"
  by (auto simp: unionStamps_def)

lemma unionStamps_last:
  assumes "s \<in> set slvs" and "p \<in> set (rlEquity s)"
  shows "epTS p \<le> last (unionStamps slvs)"
  by (rule sorted_le_last [OF _ unionStamps_mem [OF assms]]) (simp add: unionStamps_def)

lemma alignSleeve_last:
  assumes "s \<in> set slvs" and "rlEquity s \<noteq> []"
  shows "last (alignSleeve (unionStamps slvs) (map epTS (rlEquity s)) (map epCents (rlEquity s)) start)
    = epCents (last (rlEquity s))"
proof -
  let ?own = "zip (map epTS (rlEquity s)) (map epCents (rlEquity s))"
  have z: "?own = map (\<lambda>p. (epTS p, epCents p)) (rlEquity s)" by (induction "rlEquity s") (simp_all add: zip_map_map zip_same_conv_map)
  have "list_all (\<lambda>(t, c). t \<le> last (unionStamps slvs)) ?own"
    using unionStamps_last [OF assms(1)] by (auto simp: z list_all_iff)
  moreover have "unionStamps slvs \<noteq> []"
    using unionStamps_mem [OF assms(1) hd_in_set [OF assms(2)]] by auto
  ultimately show ?thesis using assms(2) by (simp add: alignSleeve_def align_last, simp add: z last_map)
qed

lemma length_alignSleeve [simp]: "length (alignSleeve stamps own values start) = length stamps"
  by (simp add: alignSleeve_def)

lemma length_add_curve: "length curve = length acc \<Longrightarrow> length (add_curve curve acc) = length acc"
  by (simp add: add_curve_def)

lemma add_curves:
  "list_all (\<lambda>c. length c = length acc) curves \<Longrightarrow> k < length acc \<Longrightarrow>
   length (fold add_curve curves acc) = length acc \<and>
   fold add_curve curves acc ! k = acc ! k + sum_list (map (\<lambda>c. c ! k) curves)"
proof (induction curves arbitrary: acc)
  case (Cons c curves)
  have l: "length (add_curve c acc) = length acc" using Cons.prems by (simp add: length_add_curve)
  then have "add_curve c acc ! k = acc ! k + c ! k" using Cons.prems by (simp add: add_curve_def)
  then show ?case using Cons.IH [of "add_curve c acc"] Cons.prems l by (simp add: algebra_simps)
qed simp

lemma last_pointsOf:
  assumes "stamps \<noteq> []" and "length cs = length stamps"
  shows "last (pointsOf stamps cs) = \<lparr>epTS = last stamps, epCents = last cs\<rparr>"
proof -
  have "cs \<noteq> []" "zip stamps cs \<noteq> []" using assms by auto
  then show ?thesis using assms by (simp add: pointsOf_def last_map last_zip)
qed

lemma sumAligned_last:
  assumes "stamps \<noteq> []" and "list_all (\<lambda>c. length c = length stamps) curves"
  shows "sumAligned curves stamps \<noteq> []" and "epCents (last (sumAligned curves stamps)) = sum_list (map last curves)"
proof -
  let ?k = "length stamps - 1" and ?s = "fold add_curve curves (replicate (length stamps) 0)"
  have k: "?k < length (replicate (length stamps) (0 :: i64))" using assms(1) by simp
  note A = add_curves [OF _ k, of curves]
  have len: "length ?s = length stamps" "?s ! ?k = sum_list (map (\<lambda>c. c ! ?k) curves)" using A assms by simp_all
  have m: "map (\<lambda>c. c ! ?k) curves = map last curves"
    by (rule map_cong) (use assms in \<open>auto simp: list_all_iff last_conv_nth simp flip: length_greater_0_conv\<close>)
  have "?s \<noteq> []" using len(1) assms(1) by auto
  then have s: "last ?s = sum_list (map last curves)" using len(2) last_conv_nth [of ?s] by (simp only: len(1) m simp_thms)
  show "sumAligned curves stamps \<noteq> []" using len assms(1) by (auto simp: sumAligned_def pointsOf_def)
  have "last (pointsOf stamps ?s) = \<lparr>epTS = last stamps, epCents = last ?s\<rparr>"
    by (rule last_pointsOf [OF assms(1) len(1)])
  then show "epCents (last (sumAligned curves stamps)) = sum_list (map last curves)" by (simp add: sumAligned_def s)
qed

section \<open>A basket\<close>

lemma sum_renumber: "(\<And>t i. f (t\<lparr>trSeq := i\<rparr>) = f t) \<Longrightarrow> map f (renumber i ts) = map f ts"
  by (induction ts arbitrary: i) simp_all

lemma sum_concat: "sum_of f (concat tss) = sum_list (map (sum_of f) tss)"
  by (induction tss) (simp_all add: sum_of_def)

lemma sum_mergeTrades:
  assumes "\<And>t i. f (t\<lparr>trSeq := i\<rparr>) = f t"
  shows "sum_of f (mergeTrades slvs) = sum_list (map (\<lambda>s. sum_of f (rlTrades s)) slvs)"
proof -
  have "sum_list (map f (sort_key trade_key ts)) = sum_list (map f ts)" for ts
    by (metis mset_map mset_sort sum_mset_sum_list)
  then have "sum_of f (mergeTrades slvs) = sum_of f (concat (map rlTrades slvs))"
    by (simp add: mergeTrades_def sum_of_def sum_renumber [OF assms])
  then show ?thesis by (simp add: sum_concat o_def)
qed

lemma absorb_fold:
  "mCapital (fold absorb slvs m) = mCapital m"
  "mDividends (fold absorb slvs m) = mDividends m + sum_list (map (\<lambda>s. mDividends (rlMetrics s)) slvs)"
  "mBorrow (fold absorb slvs m) = mBorrow m + sum_list (map (\<lambda>s. mBorrow (rlMetrics s)) slvs)"
  "mSplitCash (fold absorb slvs m) = mSplitCash m + sum_list (map (\<lambda>s. mSplitCash (rlMetrics s)) slvs)"
  by (induction slvs arbitrary: m) (simp_all add: absorb_def Let_def algebra_simps)

lemma aggregate_accounts:
  assumes "equity \<noteq> []"
  shows "accounts_of (aggregateMetrics v req slvs shares stamps equity trades hold index) =
    (rqCapital req, epCents (last equity), sum_list (map (\<lambda>s. mDividends (rlMetrics s)) slvs),
     sum_list (map (\<lambda>s. mBorrow (rlMetrics s)) slvs), sum_list (map (\<lambda>s. mSplitCash (rlMetrics s)) slvs))"
    and "mPnL (aggregateMetrics v req slvs shares stamps equity trades hold index) = epCents (last equity) - rqCapital req"
proof -
  let ?m0 = "new_metrics\<lparr>mBars := int (length stamps), mTrades := int (length trades), mCapital := rqCapital req,
    mBarsPerYear := barsPerYear req, mBasis := BasisPrice\<rparr>"
  let ?m1 = "(fold absorb slvs ?m0)\<lparr>mBarsInMarket := exposed_bars slvs,
    mFinalEquity := (if equity = [] then rqCapital req else epCents (last equity))\<rparr>"
  let ?m2 = "totals ((tallyTrades ?m1 trades stamps)\<lparr>mSymbols := sleeveStatsOf slvs (rqInstruments req) shares (rqCapital req)\<rparr>)"
  obtain m3 rf where rf: "riskFreeOf (ePow v) (eZone v) ?m2 (rqRates req) equity (mBarsPerYear ?m2) = (m3, rf)" by force
  have m3: "accounts_of m3 = accounts_of ?m2" "profit_ok m3"
    using accounts_riskFree [of "ePow v" "eZone v" ?m2 "rqRates req" equity "mBarsPerYear ?m2"]
      profit_ok_steps(3) [of "ePow v" "eZone v" ?m2 "rqRates req" equity "mBarsPerYear ?m2"] by (simp_all add: rf)
  have agg: "accounts_of (aggregateMetrics v req slvs shares stamps equity trades hold index) = accounts_of ?m1"
    "profit_ok (aggregateMetrics v req slvs shares stamps equity trades hold index)"
    unfolding aggregateMetrics_def Let_def rf using m3 by simp_all
  show acc: "accounts_of (aggregateMetrics v req slvs shares stamps equity trades hold index) =
    (rqCapital req, epCents (last equity), sum_list (map (\<lambda>s. mDividends (rlMetrics s)) slvs),
     sum_list (map (\<lambda>s. mBorrow (rlMetrics s)) slvs), sum_list (map (\<lambda>s. mSplitCash (rlMetrics s)) slvs))"
    unfolding agg(1) using assms by (simp add: accounts_of_def absorb_fold new_metrics_def)
  show "mPnL (aggregateMetrics v req slvs shares stamps equity trades hold index) = epCents (last equity) - rqCapital req"
    using agg(2) acc by (simp add: profit_ok_def accounts_of_def)
qed

lemma runSleeve_equity:
  assumes "isCandles inst \<noteq> []"
  shows "rlEquity (runSleeve v req inst capital) \<noteq> []"
proof -
  let ?req = "req\<lparr>rqInstruments := [inst], rqCapital := capital\<rparr>"
  have run: "engine_run v ?req = run_stamps v (enStamps (newEngine ?req)) (newEngine ?req)" by (simp add: engine_run_def Let_def)
  have "enStamps (newEngine ?req) \<noteq> []" using assms by (simp add: newEngine_def newBook_def timelineOf_def Let_def)
  then show ?thesis
    using last_equity(2) [of v "enStamps (newEngine ?req)" "newEngine ?req"]
      engine_run_accounts(2) [OF new_engine_on_time_single, of ?req inst v] by (simp add: runSleeve_engine run)
qed

lemma sum_list_diff_word:
  "sum_list (map (\<lambda>x. f x + g x) xs) = sum_list (map f xs) + (sum_list (map g xs) :: i64)"
  by (induction xs) simp_all

lemma runBasket_balances:
  assumes len: "length shares = length (rqInstruments req)" and some: "rqInstruments req \<noteq> []"
    and bars: "list_all (\<lambda>i. isCandles i \<noteq> []) (rqInstruments req)"
    and shares: "sum_list shares = rqCapital req"
  shows "balances (rqCapital req) (runBasket v req shares)"
proof -
  let ?pairs = "zip (rqInstruments req) shares"
  define slvs where "slvs = map (\<lambda>(inst, share). runSleeve v req inst share) ?pairs"
  define stamps where "stamps = unionStamps slvs"
  define aligned where "aligned = map (\<lambda>(slv, share). alignSleeve stamps (map epTS (rlEquity slv)) (map epCents (rlEquity slv)) share)
    (zip slvs shares)"
  define equity where "equity = sumAligned aligned stamps"
  let ?hold = "sumBenchmark slvs shares stamps BenchmarkHold" and ?index = "sumBenchmark slvs shares stamps BenchmarkIndex"
  have run: "rlTrades (runBasket v req shares) = mergeTrades slvs" "rlEquity (runBasket v req shares) = equity"
    "rlMetrics (runBasket v req shares) = aggregateMetrics v req slvs shares stamps equity (mergeTrades slvs) ?hold ?index"
    by (simp_all add: runBasket_def Let_def slvs_def stamps_def aligned_def equity_def)
  have member: "isCandles i \<noteq> []" if "(i, c) \<in> set ?pairs" for i c
    using bars set_zip_leftD [OF that] by (simp add: list_all_iff)
  have bal: "balances c (runSleeve v req i c) \<and> rlEquity (runSleeve v req i c) \<noteq> []" if "(i, c) \<in> set ?pairs" for i c
    using runSleeve_balances runSleeve_equity [OF member [OF that]] by simp
  have zs: "zip slvs shares = map (\<lambda>(i, c). (runSleeve v req i c, c)) ?pairs"
    using len unfolding slvs_def by (induction rule: list_induct2) auto
  have in_slvs: "runSleeve v req i c \<in> set slvs" if "(i, c) \<in> set ?pairs" for i c
    using that by (force simp: slvs_def)
  obtain i c where ic: "(i, c) \<in> set ?pairs" using some len by (cases "rqInstruments req"; cases shares) auto
  have stamps: "stamps \<noteq> []"
    using unionStamps_mem [OF in_slvs [OF ic] hd_in_set] bal [OF ic] by (auto simp: stamps_def)
  have lens: "list_all (\<lambda>x. length x = length stamps) aligned"
    by (simp add: aligned_def list_all_iff split: prod.splits)
  have "map last aligned = map (\<lambda>(i, c). epCents (last (rlEquity (runSleeve v req i c)))) ?pairs"
    unfolding aligned_def zs
    by (auto simp: stamps_def alignSleeve_last [OF in_slvs] bal)
  also have "\<dots> = map (\<lambda>p. snd p + sum_of trPnL (rlTrades (runSleeve v req (fst p) (snd p)))) ?pairs"
    using bal by (auto simp: balances_last)
  finally have "sum_list (map last aligned) = sum_list shares + sum_list (map (\<lambda>s. sum_of trPnL (rlTrades s)) slvs)"
    using len by (simp add: sum_list_diff_word slvs_def o_def split_beta)
  then have last_e: "epCents (last equity) = rqCapital req + sum_of trPnL (mergeTrades slvs)"
    using sumAligned_last(2) [OF stamps lens] sum_mergeTrades [of trPnL slvs] by (simp add: equity_def shares)
  have eq: "equity \<noteq> []" using sumAligned_last(1) [OF stamps lens] by (simp add: equity_def)
  have each: "sum_list (map (\<lambda>s. g (rlMetrics s)) slvs) = sum_of f (mergeTrades slvs)"
    if "\<And>i c. (i, c) \<in> set ?pairs \<Longrightarrow> g (rlMetrics (runSleeve v req i c)) = sum_of f (rlTrades (runSleeve v req i c))"
      "\<And>t n. f (t\<lparr>trSeq := n\<rparr>) = f t" for f :: "trade \<Rightarrow> i64" and g
  proof -
    have "map (\<lambda>s. g (rlMetrics s)) slvs = map (\<lambda>s. sum_of f (rlTrades s)) slvs"
      using that(1) by (auto simp: slvs_def)
    then show ?thesis by (simp only: sum_mergeTrades [OF that(2)])
  qed
  note A = aggregate_accounts [OF eq, of v req slvs shares stamps "mergeTrades slvs" ?hold ?index]
  show ?thesis
    using A last_e each [of mDividends trDividends] each [of mBorrow trBorrow] each [of mSplitCash trSplitCash] bal
    by (simp add: balances_def run accounts_of_def)
qed

section \<open>Every run\<close>

lemma Run_balances:
  assumes "Run v pl req = Inr r" and "length (rqInstruments req) < 2 ^ 63"
  shows "balances (rqCapital req) r"
proof -
  obtain p where p: "pl = Some p" using assms(1) by (cases pl) (simp_all add: Run_def)
  define rq where "rq = req\<lparr>rqPlan := p\<rparr>"
  let ?insts = "rqInstruments rq" and ?shares = "splitCapital (rqCapital rq) (length (rqInstruments rq))"
  have rq: "rqInstruments rq = rqInstruments req" "rqCapital rq = rqCapital req" by (simp_all add: rq_def)
  have guards: "\<not> rqCapital rq <s 1" "?insts \<noteq> []" "find (\<lambda>i. length (isCandles i) < 2) ?insts = None" "\<not> last ?shares <s 1"
    using assms(1) by (auto simp: Run_def p Let_def rq_def split: if_splits option.splits)
  have pos: "0 \<le>s rqCapital rq" using guards(1) by (simp add: word_sless_alt word_sle_eq)
  have n: "0 < length ?insts" "length ?insts < 2 ^ 63" using guards(2) assms(2) by (simp_all add: rq)
  have shares: "length ?shares = length ?insts" "sum_list ?shares = rqCapital rq"
    using splitCapital_sum [OF n pos] by (simp_all add: splitCapital_def Let_def)
  have bars: "list_all (\<lambda>i. isCandles i \<noteq> []) ?insts"
    using guards(3) by (auto simp: find_None_iff list_all_iff)
  have res: "r = (case ?insts of
      [inst] \<Rightarrow> (let r = runSleeve v rq inst (hd ?shares)
        in r\<lparr>rlMetrics := (rlMetrics r)\<lparr>mSymbols := [sleeveStats r (isSymbol inst) (hd ?shares) (rqCapital rq)]\<rparr>\<rparr>)
    | _ \<Rightarrow> runBasket v rq ?shares)"
    using assms(1) guards by (simp add: Run_def p Let_def rq_def [symmetric] split: list.splits if_splits)
  have "balances (rqCapital rq) r"
  proof (cases "length ?insts = 1")
    case one: True
    then obtain inst where inst: "?insts = [inst]" by (auto simp: length_Suc_conv)
    have "hd ?shares = rqCapital rq"
      using shares inst by (cases ?shares) simp_all
    then show ?thesis
      using runSleeve_balances [of "rqCapital rq" v rq inst] by (simp add: res inst balances_def Let_def)
  next
    case False
    then have "r = runBasket v rq ?shares" by (cases ?insts rule: remdups_adj.cases) (simp_all add: res guards(2))
    then show ?thesis using runBasket_balances [OF shares(1) guards(2) bars shares(2)] by simp
  qed
  then show "balances (rqCapital req) r" by (simp add: rq)
qed

text \<open>C1: A run that returns balances. The metrics start from the capital of the request; the final equity, and the
  last point of the equity curve, are the capital plus the profit of every trade; the profit, the
  dividends, the borrow cost and the split cash reported are the sums over the trades. For a basket the
  same holds of the sleeves together: no cent is lost in the sharing out of the capital, the alignment of
  the curves or the merge of the trades. The arithmetic is the 64-bit one, and the basket has fewer
  than 2^63 symbols.\<close>

theorem run_balances:
  "case Run v pl req of
     Inl err \<Rightarrow> True
   | Inr r \<Rightarrow> if length (rqInstruments req) < 2 ^ 63 then balances (rqCapital req) r else True"
  using Run_balances [of v pl req] by (simp split: sum.splits)

text \<open>C14: The capital of a basket is shared out to the cent: the shares of n symbols add up to the capital, and
  each is the quotient, or one cent more for the first symbols.\<close>

theorem splitCapital_exact:
  "if 0 < n \<and> n < 2 ^ 63 \<and> 0 \<le>s c then
     sum_list (splitCapital c n) = c \<and>
     map sint (splitCapital c n) = map (\<lambda>i. sint c div int n + (if int i < sint c mod int n then 1 else 0)) [0..<n]
   else True"
proof (cases "0 < n \<and> n < 2 ^ 63 \<and> 0 \<le>s c")
  case True
  then have n: "0 < n" "n < 2 ^ 63" "0 \<le>s c" by blast+
  have "length (splitCapital c n) = n" by (simp add: splitCapital_def Let_def)
  then have "map sint (splitCapital c n) = map (\<lambda>i. sint c div int n + (if int i < sint c mod int n then 1 else 0)) [0..<n]"
    by (intro nth_equalityI) (simp_all add: splitCapital_shares [OF n(2,3)])
  then show ?thesis using splitCapital_sum [OF n] by (simp only: True if_True simp_thms)
qed (simp only: if_False)

text \<open>A trade but for its number.\<close>

definition unnumbered :: "trade \<Rightarrow> trade" where
  "unnumbered t = t\<lparr>trSeq := 0\<rparr>"

lemma renumber_unnumbered: "map unnumbered (renumber i ts) = map unnumbered ts"
  by (induction ts arbitrary: i) (simp_all add: unnumbered_def)

lemma renumber_keys: "map trade_key (renumber i ts) = map trade_key ts"
  by (induction ts arbitrary: i) (simp_all add: trade_key_def)

lemma renumber_seq: "map trSeq (renumber i ts) = map (\<lambda>k. i + word_of_nat k) [0..<length ts]"
proof (induction ts arbitrary: i)
  case (Cons t ts)
  have "map (\<lambda>k. i + word_of_nat k) [0..<Suc (length ts)] = i # map (\<lambda>k. (i + 1) + word_of_nat k) [0..<length ts]"
    by (simp only: upt_conv_Cons list.map map_Suc_upt [symmetric] map_map o_def) (simp add: algebra_simps)
  then show ?case using Cons by simp
qed simp

text \<open>C15: Merging the trades of the sleeves loses and invents none: but for their numbers they are the same trades, in
  the order of entry, exit and symbol, and they are numbered from 1.\<close>

theorem mergeTrades_keeps_all:
  "mset (map unnumbered (mergeTrades slvs)) = mset (map unnumbered (concat (map rlTrades slvs))) \<and>
   sorted (map trade_key (mergeTrades slvs)) \<and>
   map trSeq (mergeTrades slvs) = map (\<lambda>k. 1 + word_of_nat k) [0..<length (concat (map rlTrades slvs))]"
  by (simp add: mergeTrades_def renumber_unnumbered renumber_keys renumber_seq)

end
