(* ===== verification/Text.thy ===== *)
theory Text
  imports Stdlib
begin

text \<open>
  The parts of Go's \<open>strings\<close> and \<open>strconv\<close> the market and sweep packages use, on byte strings of
  ASCII text.
\<close>

definition to_lower :: "string \<Rightarrow> string" where
  "to_lower = map lower_char"

text \<open>\<open>strings.Cut\<close> at a one-byte separator.\<close>

fun cut_at :: "char \<Rightarrow> string \<Rightarrow> (string \<times> string) option" where
  "cut_at c [] = None"
| "cut_at c (x # xs) =
     (if x = c then Some ([], xs)
      else (case cut_at c xs of None \<Rightarrow> None | Some (before, after) \<Rightarrow> Some (x # before, after)))"

text \<open>\<open>strings.Split\<close> on a one-byte separator: one piece more than there are separators.\<close>

fun split_on :: "char \<Rightarrow> string \<Rightarrow> string list" where
  "split_on c [] = [[]]"
| "split_on c (x # xs) =
     (if x = c then [] # split_on c xs
      else (case split_on c xs of [] \<Rightarrow> [[x]] | p # ps \<Rightarrow> (x # p) # ps))"

definition join_with :: "string \<Rightarrow> string list \<Rightarrow> string" where
  "join_with sep names = (case names of [] \<Rightarrow> [] | n # ns \<Rightarrow> n @ concat (map (\<lambda>m. sep @ m) ns))"

text \<open>\<open>strings.ReplaceAll\<close> of a two-byte text by one byte.\<close>

fun replace_pair :: "char \<Rightarrow> char \<Rightarrow> char \<Rightarrow> string \<Rightarrow> string" where
  "replace_pair a b c (x # y # xs) =
     (if x = a \<and> y = b then c # replace_pair a b c xs else x # replace_pair a b c (y # xs))"
| "replace_pair a b c xs = xs"

text \<open>\<open>strconv.Atoi\<close>: an optional sign, digits, and a value that fits an \<open>int\<close>.\<close>

definition Atoi :: "string \<Rightarrow> int option" where
  "Atoi s =
     (let (negative, digits) =
        (case s of [] \<Rightarrow> (False, []) | c # cs \<Rightarrow>
           if c = CHR ''-'' then (True, cs) else if c = CHR ''+'' then (False, cs) else (False, s))
      in if digits = [] then None
         else
           (case number_of digits 0 of
              None \<Rightarrow> None
            | Some n \<Rightarrow>
                (let v = (if negative then - n else n)
                 in if v < - (2 ^ 63) \<or> 2 ^ 63 \<le> v then None else Some v)))"

lemma cut_at_glue: "cut_at c xs = Some (a, b) \<Longrightarrow> xs = a @ c # b \<and> c \<notin> set a"
  by (induction xs arbitrary: a b) (auto split: if_splits option.splits)

lemma cut_at_append: "c \<notin> set a \<Longrightarrow> cut_at c (a @ c # b) = Some (a, b)"
  by (induction a) auto

lemma split_on_nonempty [simp]: "split_on c xs \<noteq> []"
  by (induction xs) (auto split: list.splits)

lemma split_on_no_sep: "p \<in> set (split_on c xs) \<Longrightarrow> c \<notin> set p"
  by (induction xs arbitrary: p) (auto split: list.splits if_splits)

text \<open>Joining the pieces of a split gives the text back.\<close>

lemma join_split: "join_with [c] (split_on c xs) = xs"
proof (induction xs)
  case (Cons x xs)
  obtain p ps where s: "split_on c xs = p # ps" by (cases "split_on c xs") auto
  then show ?case using Cons by (simp add: join_with_def)
qed (simp add: join_with_def)

lemma number_of_digits: "number_of s acc = Some n \<Longrightarrow> 0 \<le> acc \<Longrightarrow> 0 \<le> n"
  by (induction s arbitrary: acc) (auto simp: digit_of_def Let_def split: option.splits if_splits)

end
