(* ===== verification/Calendar.thy ===== *)
theory Calendar
  imports Text Results
begin

text \<open>
  Timeframes and the trading calendar (internal/market/timeframe.go, calendar.go and the bucket functions of
  candle.go). A location is the offset from UTC at every instant and the instant \<open>time.Date\<close> answers
  for a reading of the wall clock, both in nanoseconds: the time zone data is not part of the program. The
  calendar file is modelled after its JSON is decoded.
\<close>

section \<open>Timeframes\<close>

definition TF5m :: string where "TF5m = ''5m''"
definition TF15m :: string where "TF15m = ''15m''"
definition TF30m :: string where "TF30m = ''30m''"
definition TF1h :: string where "TF1h = ''1h''"
definition TF1d :: string where "TF1d = ''1d''"

definition Timeframes :: "string list" where "Timeframes = [TF5m, TF15m, TF30m, TF1h, TF1d]"
definition StoredTimeframes :: "string list" where "StoredTimeframes = [TF5m, TF1d]"

definition tf_Valid :: "string \<Rightarrow> bool" where "tf_Valid tf \<longleftrightarrow> tf \<in> set Timeframes"
definition tf_Stored :: "string \<Rightarrow> bool" where "tf_Stored tf \<longleftrightarrow> tf \<in> set StoredTimeframes"
definition tf_Intraday :: "string \<Rightarrow> bool" where "tf_Intraday tf \<longleftrightarrow> tf_Valid tf \<and> tf \<noteq> TF1d"

definition minute_ns :: int where "minute_ns = 60 * 10 ^ 9"

definition BaseBucket :: int where "BaseBucket = 5 * minute_ns"

definition BucketWidth :: "string \<Rightarrow> int" where
  "BucketWidth tf =
     (if tf = TF5m then 5 * minute_ns else if tf = TF15m then 15 * minute_ns else if tf = TF30m then 30 * minute_ns
      else if tf = TF1h then 60 * minute_ns else 0)"

definition tf_Base :: "string \<Rightarrow> string" where
  "tf_Base tf = (if tf = TF1d then TF1d else TF5m)"

definition BaseBars :: "string \<Rightarrow> int" where
  "BaseBars tf = (if \<not> tf_Intraday tf then 0 else tdiv (BucketWidth tf) BaseBucket)"

definition BrapiInterval :: "string \<Rightarrow> string" where
  "BrapiInterval tf = (if tf = TF1h then ''60m'' else tf)"

definition JoinTimeframes :: "string list \<Rightarrow> string" where
  "JoinTimeframes tfs = join_with '', '' tfs"

datatype tf_error = UnknownTimeframe string | NotStored string

definition ParseTimeframe :: "string \<Rightarrow> tf_error + string" where
  "ParseTimeframe text = (let tf = to_lower (trim_space text) in if tf_Valid tf then Inr tf else Inl (UnknownTimeframe text))"

definition ParseStoredTimeframe :: "string \<Rightarrow> tf_error + string" where
  "ParseStoredTimeframe text =
     (case ParseTimeframe text of
        Inl err \<Rightarrow> Inl err
      | Inr tf \<Rightarrow> if tf_Stored tf then Inr tf else Inl (NotStored tf))"

section \<open>The calendar\<close>

record location =
  locOffset :: "time \<Rightarrow> int"
  locInstant :: "int \<Rightarrow> time"

definition wall :: "location \<Rightarrow> time \<Rightarrow> int" where
  "wall loc t = t + locOffset loc t"

text \<open>The day of a time in a location, and \<open>dateKey\<close> of it.\<close>

definition local_day :: "location \<Rightarrow> time \<Rightarrow> int" where
  "local_day loc t = day_number (locOffset loc) t"

definition dateKey :: "location \<Rightarrow> time \<Rightarrow> string" where
  "dateKey loc t = format_date (local_day loc t)"

record session =
  seDay :: time
  seOpen :: time
  seClose :: time

definition session_Duration :: "session \<Rightarrow> int" where
  "session_Duration s = time_sub (seClose s) (seOpen s)"

definition session_Contains :: "session \<Rightarrow> time \<Rightarrow> bool" where
  "session_Contains s ts \<longleftrightarrow> \<not> ts < seOpen s \<and> ts < seClose s"

record holiday =
  hoDate :: time
  hoName :: string
  hoOpenMin :: int
  hoCloseMin :: int
  hoClosed :: bool

record calendar =
  calLoc :: location
  calOpenMin :: int
  calCloseMin :: int
  calDays :: "string \<rightharpoonup> holiday"
  calMinYear :: int
  calMaxYear :: int

text \<open>\<open>calendarFile\<close>; a holiday entry is its date, name, open and close.\<close>

record calendar_file =
  cfTimezone :: string
  cfOpen :: string
  cfClose :: string
  cfHolidays :: "(string \<times> string \<times> string \<times> string) list"

datatype calendar_error =
    BadTimezone string
  | BadClock string
  | CloseNotAfterOpen
  | NoHolidays
  | BadHolidayDate nat
  | HolidayUnnamed nat
  | BadHolidayClock nat string
  | HolidayCloseNotAfterOpen nat
  | DuplicateHoliday string

definition parseClock :: "string \<Rightarrow> int option" where
  "parseClock text =
     (case cut_at (CHR '':'') text of
        None \<Rightarrow> None
      | Some (hourText, minuteText) \<Rightarrow>
          (case Atoi hourText of
             None \<Rightarrow> None
           | Some hour \<Rightarrow>
               if hour < 0 \<or> hour > 23 then None
               else
                 (case Atoi minuteText of
                    None \<Rightarrow> None
                  | Some minute \<Rightarrow> if minute < 0 \<or> minute > 59 then None else Some (hour * 60 + minute))))"

text \<open>The hours of one holiday entry: its own where it gives them, otherwise the regular ones.\<close>

definition holiday_hours :: "nat \<Rightarrow> int \<Rightarrow> int \<Rightarrow> string \<Rightarrow> string \<Rightarrow> calendar_error + (int \<times> int \<times> bool)" where
  "holiday_hours i openMin closeMin openText closeText =
     (if openText = [] \<and> closeText = [] then Inr (openMin, closeMin, True)
      else
        (case (if openText = [] then Some openMin else parseClock openText) of
           None \<Rightarrow> Inl (BadHolidayClock i openText)
         | Some op \<Rightarrow>
             (case (if closeText = [] then Some closeMin else parseClock closeText) of
                None \<Rightarrow> Inl (BadHolidayClock i closeText)
              | Some cl \<Rightarrow> if cl \<le> op then Inl (HolidayCloseNotAfterOpen i) else Inr (op, cl, False))))"

fun read_holidays :: "nat \<Rightarrow> calendar \<Rightarrow> (string \<times> string \<times> string \<times> string) list \<Rightarrow> calendar_error + calendar" where
  "read_holidays i c [] = Inr c"
| "read_holidays i c ((dateText, name, openText, closeText) # rest) =
     (case parse_date dateText of
        None \<Rightarrow> Inl (BadHolidayDate i)
      | Some n \<Rightarrow>
          if name = [] then Inl (HolidayUnnamed i)
          else
            (case holiday_hours i (calOpenMin c) (calCloseMin c) openText closeText of
               Inl err \<Rightarrow> Inl err
             | Inr (op, cl, shut) \<Rightarrow>
                 (let date = locInstant (calLoc c) (n * day_ns);
                      key = dateKey (calLoc c) date;
                      year = year_of (local_day (calLoc c) date)
                  in if calDays c key \<noteq> None then Inl (DuplicateHoliday dateText)
                     else read_holidays (i + 1)
                       (c\<lparr>calDays := (calDays c)(key \<mapsto> \<lparr>hoDate = date, hoName = name, hoOpenMin = op, hoCloseMin = cl, hoClosed = shut\<rparr>),
                          calMinYear := (if calMinYear c = 0 \<or> year < calMinYear c then year else calMinYear c),
                          calMaxYear := (if year > calMaxYear c then year else calMaxYear c)\<rparr>) rest)))"

definition LoadCalendar :: "(string \<rightharpoonup> location) \<Rightarrow> calendar_file \<Rightarrow> calendar_error + calendar" where
  "LoadCalendar zones f =
     (case zones (cfTimezone f) of
        None \<Rightarrow> Inl (BadTimezone (cfTimezone f))
      | Some loc \<Rightarrow>
          (case parseClock (cfOpen f) of
             None \<Rightarrow> Inl (BadClock (cfOpen f))
           | Some op \<Rightarrow>
               (case parseClock (cfClose f) of
                  None \<Rightarrow> Inl (BadClock (cfClose f))
                | Some cl \<Rightarrow>
                    if cl \<le> op then Inl CloseNotAfterOpen
                    else if cfHolidays f = [] then Inl NoHolidays
                    else read_holidays 0 \<lparr>calLoc = loc, calOpenMin = op, calCloseMin = cl, calDays = Map.empty,
                           calMinYear = 0, calMaxYear = 0\<rparr> (cfHolidays f))))"

definition RegularSession :: "calendar \<Rightarrow> int" where
  "RegularSession c = (calCloseMin c - calOpenMin c) * minute_ns"

definition cal_Covers :: "calendar \<Rightarrow> time \<Rightarrow> bool" where
  "cal_Covers c day = (let year = year_of (local_day (calLoc c) day) in year \<ge> calMinYear c \<and> year \<le> calMaxYear c)"

definition cal_Holiday :: "calendar \<Rightarrow> time \<Rightarrow> holiday option" where
  "cal_Holiday c day = calDays c (dateKey (calLoc c) day)"

definition midnight :: "calendar \<Rightarrow> time \<Rightarrow> time" where
  "midnight c day = locInstant (calLoc c) (local_day (calLoc c) day * day_ns)"

definition clock_at :: "calendar \<Rightarrow> time \<Rightarrow> int \<Rightarrow> time" where
  "clock_at c mid minutes = locInstant (calLoc c) (local_day (calLoc c) mid * day_ns + minutes * minute_ns)"

text \<open>\<open>AddDate(0, 0, n)\<close> of a time in the calendar's location: the same reading of the clock, \<open>n\<close> days on.\<close>

definition add_days :: "calendar \<Rightarrow> int \<Rightarrow> time \<Rightarrow> time" where
  "add_days c n t = locInstant (calLoc c) (wall (calLoc c) t + n * day_ns)"

text \<open>\<open>Weekday\<close>, 0 for Sunday.\<close>

definition weekday :: "int \<Rightarrow> int" where
  "weekday n = (n + 4) mod 7"

definition Session :: "calendar \<Rightarrow> time \<Rightarrow> session option" where
  "Session c day =
     (let mid = midnight c day; wd = weekday (local_day (calLoc c) mid)
      in if wd = 6 \<or> wd = 0 then None
         else
           (case calDays c (dateKey (calLoc c) mid) of
              None \<Rightarrow> Some \<lparr>seDay = mid, seOpen = clock_at c mid (calOpenMin c), seClose = clock_at c mid (calCloseMin c)\<rparr>
            | Some h \<Rightarrow>
                if hoClosed h then None
                else Some \<lparr>seDay = mid, seOpen = clock_at c mid (hoOpenMin h), seClose = clock_at c mid (hoCloseMin h)\<rparr>))"

definition IsTradingDay :: "calendar \<Rightarrow> time \<Rightarrow> bool" where
  "IsTradingDay c day \<longleftrightarrow> Session c day \<noteq> None"

definition SessionAt :: "calendar \<Rightarrow> time \<Rightarrow> session option" where
  "SessionAt c ts =
     (case Session c ts of None \<Rightarrow> None | Some s \<Rightarrow> if session_Contains s ts then Some s else None)"

text \<open>The search of \<open>NextTradingDay\<close> and \<open>PrevTradingDay\<close>, \<open>n\<close> days at most.\<close>

definition maxDaySearch :: nat where "maxDaySearch = 30"

fun search_days :: "calendar \<Rightarrow> int \<Rightarrow> nat \<Rightarrow> time \<Rightarrow> time option" where
  "search_days c step 0 cursor = None"
| "search_days c step (Suc n) cursor =
     (let cursor' = add_days c step cursor
      in if IsTradingDay c cursor' then Some cursor' else search_days c step n cursor')"

definition NextTradingDay :: "calendar \<Rightarrow> time \<Rightarrow> time option" where
  "NextTradingDay c day = search_days c 1 maxDaySearch (midnight c day)"

definition PrevTradingDay :: "calendar \<Rightarrow> time \<Rightarrow> time option" where
  "PrevTradingDay c day = search_days c (- 1) maxDaySearch (midnight c day)"

text \<open>The loop of \<open>TradingDays\<close>; \<open>None\<close> is a loop that does not end.\<close>

partial_function (option) days_from :: "calendar \<Rightarrow> time \<Rightarrow> time \<Rightarrow> time list option" where
  "days_from c end_ts cursor =
     (if cursor > end_ts then Some []
      else
        Option.bind (days_from c end_ts (add_days c 1 cursor))
          (\<lambda>days. Some (if IsTradingDay c cursor then cursor # days else days)))"

definition TradingDays :: "calendar \<Rightarrow> time \<Rightarrow> time \<Rightarrow> time list option" where
  "TradingDays c from_ts to_ts = days_from c to_ts (midnight c from_ts)"

section \<open>Buckets\<close>

datatype bucket_error = UnknownBucketTimeframe string | NotATradingDay time | OutsideSession time session

definition BucketOpen :: "calendar \<Rightarrow> string \<Rightarrow> time \<Rightarrow> bucket_error + time" where
  "BucketOpen c tf ts =
     (if \<not> tf_Valid tf then Inl (UnknownBucketTimeframe tf)
      else
        (case Session c ts of
           None \<Rightarrow> Inl (NotATradingDay ts)
         | Some s \<Rightarrow>
             if tf = TF1d then Inr (seOpen s)
             else if ts < seOpen s \<or> \<not> ts < seClose s then Inl (OutsideSession ts s)
             else Inr (seOpen s + tdiv (time_sub ts (seOpen s)) (BucketWidth tf) * BucketWidth tf)))"

definition DayBounds :: "calendar \<Rightarrow> time \<Rightarrow> time \<Rightarrow> time \<times> time" where
  "DayBounds c from_ts to_ts = (midnight c from_ts, add_days c 1 (midnight c to_ts))"

definition BucketCount :: "string \<Rightarrow> session \<Rightarrow> int" where
  "BucketCount tf s =
     (if tf = TF1d then 1
      else if BucketWidth tf \<le> 0 then 0
      else tdiv (session_Duration s + BucketWidth tf - 1) (BucketWidth tf))"

definition SessionBuckets :: "string \<Rightarrow> session \<Rightarrow> time list" where
  "SessionBuckets tf s =
     (if tf = TF1d then [seOpen s]
      else map (\<lambda>i. seOpen s + int i * BucketWidth tf) [0..<nat (BucketCount tf s)])"

text \<open>The loop of \<open>FutureBuckets\<close> over the trading days, with the buckets found so far.\<close>

partial_function (option) future_from :: "calendar \<Rightarrow> string \<Rightarrow> time \<Rightarrow> nat \<Rightarrow> time list \<Rightarrow> time \<Rightarrow> time list option" where
  "future_from c tf after count found cursor =
     (if length found \<ge> count then Some found
      else
        (let more_found = (case Session c cursor of None \<Rightarrow> [] | Some s \<Rightarrow> filter (\<lambda>b. b > after) (SessionBuckets tf s));
             found' = take count (found @ more_found)
         in if length found' = count then Some found'
            else (case NextTradingDay c cursor of None \<Rightarrow> Some found' | Some next_day \<Rightarrow> future_from c tf after count found' next_day)))"

definition FutureBuckets :: "calendar \<Rightarrow> string \<Rightarrow> time \<Rightarrow> int \<Rightarrow> time list option" where
  "FutureBuckets c tf after count =
     (if count < 1 \<or> \<not> tf_Valid tf then Some [] else future_from c tf after (nat count) [] after)"

definition BarsPerYear :: "calendar \<Rightarrow> string \<Rightarrow> f64" where
  "BarsPerYear c tf =
     (if \<not> tf_Intraday tf then Fin 252
      else
        (let minutes = (\<lambda>d. float_of_int (tdiv d minute_ns) + float_of_int (d - tdiv d minute_ns * minute_ns) / float_of_int minute_ns);
             width = minutes (BucketWidth tf)
         in if width \<le> 0 then Fin 252
            else Fin 252 * math_Max (math_Floor (minutes (RegularSession c) / width)) 1))"

section \<open>The clock and the file\<close>

text \<open>A clock text that parses is a minute of the day, and the hour and minute it is written from.\<close>

theorem parsed_clock_in_day:
  "case parseClock text of
     None \<Rightarrow> True
   | Some m \<Rightarrow>
       0 \<le> m \<and> m < 1440 \<and>
       (case cut_at (CHR '':'') text of
          None \<Rightarrow> False
        | Some (hh, mm) \<Rightarrow> Atoi hh = Some (m div 60) \<and> Atoi mm = Some (m mod 60))"
proof (cases "parseClock text")
  case (Some m)
  then obtain hh mm h n where p: "cut_at (CHR '':'') text = Some (hh, mm)" "Atoi hh = Some h" "Atoi mm = Some n"
    and b: "0 \<le> h" "h \<le> 23" "0 \<le> n" "n \<le> 59" and m: "m = h * 60 + n"
    by (auto simp: parseClock_def split: option.splits if_splits)
  have "m div 60 = h" "m mod 60 = n" using b m by simp_all
  then show ?thesis using Some p b m by simp
qed simp

lemma parseClock_bounds: "parseClock text = Some m \<Longrightarrow> 0 \<le> m \<and> m < 1440"
  by (auto simp: parseClock_def split: option.splits if_splits)

definition hours_ok :: "int \<Rightarrow> int \<Rightarrow> bool" where
  "hours_ok op cl \<longleftrightarrow> 0 \<le> op \<and> op < cl \<and> cl < 1440"

definition holiday_year :: "calendar \<Rightarrow> holiday \<Rightarrow> int" where
  "holiday_year c h = year_of (local_day (calLoc c) (hoDate h))"

text \<open>What a loaded calendar promises: sessions open before they close, within a day, each holiday is filed
  under its date and named, and the years of the holidays are covered, as long as none is of the year 0,
  which the code takes for "no year yet".\<close>

definition calendar_ok :: "calendar \<Rightarrow> bool" where
  "calendar_ok c \<longleftrightarrow>
     hours_ok (calOpenMin c) (calCloseMin c) \<and>
     (\<forall>key h. calDays c key = Some h \<longrightarrow>
        hours_ok (hoOpenMin h) (hoCloseMin h) \<and> key = dateKey (calLoc c) (hoDate h) \<and> hoName h \<noteq> []) \<and>
     ((\<forall>h \<in> ran (calDays c). 0 < holiday_year c h) \<longrightarrow>
        (if calDays c = Map.empty then calMinYear c = 0 else 0 < calMinYear c) \<and>
        (\<forall>h \<in> ran (calDays c). cal_Covers c (hoDate h)))"

lemma holiday_hours_ok:
  "hours_ok op cl \<Longrightarrow> holiday_hours i op cl ot ct = Inr (op', cl', shut) \<Longrightarrow> hours_ok op' cl'"
  by (auto simp: holiday_hours_def hours_ok_def dest: parseClock_bounds split: if_splits option.splits)

lemma read_holidays_ok:
  "calendar_ok c \<Longrightarrow> read_holidays i c es = Inr c' \<Longrightarrow> calendar_ok c'"
proof (induction i c es rule: read_holidays.induct)
  case (2 i c dateText name ot ct rest)
  obtain n op cl shut where n: "parse_date dateText = Some n" "name \<noteq> []"
    and h: "holiday_hours i (calOpenMin c) (calCloseMin c) ot ct = Inr (op, cl, shut)"
    using 2(3) by (auto split: option.splits if_splits sum.splits)
  define date where "date = locInstant (calLoc c) (n * day_ns)"
  define key where "key = dateKey (calLoc c) date"
  define year where "year = year_of (local_day (calLoc c) date)"
  let ?h = "\<lparr>hoDate = date, hoName = name, hoOpenMin = op, hoCloseMin = cl, hoClosed = shut\<rparr>"
  let ?c = "c\<lparr>calDays := (calDays c)(key \<mapsto> ?h), calMinYear := (if calMinYear c = 0 \<or> year < calMinYear c then year else calMinYear c),
              calMaxYear := (if year > calMaxYear c then year else calMaxYear c)\<rparr>"
  have r: "read_holidays (i + 1) ?c rest = Inr c'" and fresh: "calDays c key = None"
    using 2(3) n h by (auto simp: Let_def date_def [symmetric] key_def [symmetric] year_def [symmetric] split: if_splits)
  have d: "calDays ?c = (calDays c)(key \<mapsto> ?h)" "calLoc ?c = calLoc c" by simp_all
  have rng: "ran (calDays ?c) = insert ?h (ran (calDays c))" using fresh by (simp add: ran_map_upd)
  have yr: "holiday_year ?c h = holiday_year c h" "holiday_year c ?h = year" for h
    by (simp_all add: holiday_year_def year_def)
  have "calendar_ok ?c"
    unfolding calendar_ok_def
  proof (intro conjI impI allI)
    show "hours_ok (calOpenMin ?c) (calCloseMin ?c)" using 2(2) by (simp add: calendar_ok_def)
    fix k g assume g: "calDays ?c k = Some g"
    have "hours_ok op cl" using holiday_hours_ok [OF _ h] 2(2) by (simp add: calendar_ok_def)
    then have "hours_ok (hoOpenMin g) (hoCloseMin g) \<and> k = dateKey (calLoc c) (hoDate g) \<and> hoName g \<noteq> []"
      using g 2(2) n(2) by (auto simp: calendar_ok_def key_def split: if_splits)
    then show "hours_ok (hoOpenMin g) (hoCloseMin g)" "k = dateKey (calLoc ?c) (hoDate g)" "hoName g \<noteq> []" by simp_all
  next
    assume pos: "\<forall>h \<in> ran (calDays ?c). 0 < holiday_year ?c h"
    then have y: "0 < year" and old: "\<forall>h \<in> ran (calDays c). 0 < holiday_year c h"
      unfolding rng yr(1) by (simp_all add: yr)
    then have c: "if calDays c = Map.empty then calMinYear c = 0 else 0 < calMinYear c" "\<forall>h \<in> ran (calDays c). cal_Covers c (hoDate h)"
      using 2(2) by (simp_all add: calendar_ok_def)
    show "if calDays ?c = Map.empty then calMinYear ?c = 0 else 0 < calMinYear ?c" using y c(1) by (auto split: if_splits)
    have "cal_Covers ?c (hoDate g)" if "g \<in> ran (calDays c)" for g
    proof -
      have "calDays c \<noteq> Map.empty" using that by auto
      then have "0 < calMinYear c" using c(1) by simp
      then show ?thesis using c(2) that by (auto simp: cal_Covers_def Let_def)
    qed
    moreover have "cal_Covers ?c (hoDate ?h)" by (auto simp: cal_Covers_def Let_def year_def [symmetric])
    ultimately show "\<forall>h \<in> ran (calDays ?c). cal_Covers ?c (hoDate h)" unfolding rng by blast
  qed
  then show ?case
    using 2(1) [OF n(1,2) h refl refl date_def key_def year_def _ _ r] fresh by simp
qed simp

text \<open>What a file says of a holiday, its entry read on its own: its date is a date, it has a name, and its hours, its own where
  it gives them, are in order. An entry without hours is a day without a session.\<close>

definition holiday_of :: "location \<Rightarrow> int \<Rightarrow> int \<Rightarrow> string \<times> string \<times> string \<times> string \<Rightarrow> holiday option" where
  "holiday_of loc op cl = (\<lambda>(date_text, name, open_text, close_text).
     (case (parse_date date_text, if open_text = [] then Some op else parseClock open_text,
            if close_text = [] then Some cl else parseClock close_text) of
        (Some n, Some a, Some b) \<Rightarrow>
          if name \<noteq> [] \<and> a < b
          then Some \<lparr>hoDate = locInstant loc (n * day_ns), hoName = name, hoOpenMin = a, hoCloseMin = b,
                     hoClosed = (open_text = [] \<and> close_text = [])\<rparr>
          else None
      | _ \<Rightarrow> None))"

abbreviation holiday_key :: "location \<Rightarrow> holiday \<Rightarrow> string" where
  "holiday_key loc h \<equiv> dateKey loc (hoDate h)"

definition holidays_read :: "calendar \<Rightarrow> (string \<times> string \<times> string \<times> string) list \<Rightarrow> holiday list \<Rightarrow> bool" where
  "holidays_read c es hs \<longleftrightarrow>
     map (holiday_of (calLoc c) (calOpenMin c) (calCloseMin c)) es = map Some hs \<and> distinct (map (holiday_key (calLoc c)) hs)"

text \<open>The calendar a file describes: its location, its regular hours, its holidays under their dates, and, as long as none
  is of the year 0, the years from the first holiday to the last.\<close>

definition calendar_of :: "(string \<rightharpoonup> location) \<Rightarrow> calendar_file \<Rightarrow> calendar \<Rightarrow> bool" where
  "calendar_of zones f c \<longleftrightarrow>
     zones (cfTimezone f) = Some (calLoc c) \<and> parseClock (cfOpen f) = Some (calOpenMin c) \<and>
     parseClock (cfClose f) = Some (calCloseMin c) \<and> calOpenMin c < calCloseMin c \<and> cfHolidays f \<noteq> [] \<and>
     (\<exists>hs. holidays_read c (cfHolidays f) hs \<and> calDays c = map_of (map (\<lambda>h. (holiday_key (calLoc c) h, h)) hs) \<and>
        (if list_all (\<lambda>h. 0 < holiday_year c h) hs
         then calMinYear c = Min (holiday_year c ` set hs) \<and> calMaxYear c = Max (holiday_year c ` set hs) else True))"

definition add_holiday :: "holiday \<Rightarrow> calendar \<Rightarrow> calendar" where
  "add_holiday h c =
     c\<lparr>calDays := (calDays c)(holiday_key (calLoc c) h \<mapsto> h),
       calMinYear := (if calMinYear c = 0 \<or> holiday_year c h < calMinYear c then holiday_year c h else calMinYear c),
       calMaxYear := (if holiday_year c h > calMaxYear c then holiday_year c h else calMaxYear c)\<rparr>"

lemma add_holiday_simps [simp]:
  "calLoc (add_holiday h c) = calLoc c" "calOpenMin (add_holiday h c) = calOpenMin c" "calCloseMin (add_holiday h c) = calCloseMin c"
  "calDays (add_holiday h c) = (calDays c)(holiday_key (calLoc c) h \<mapsto> h)" "holiday_year (add_holiday h c) = holiday_year c"
  by (simp_all add: add_holiday_def holiday_year_def [abs_def])

lemma add_holidays_simps [simp]:
  "calLoc (fold add_holiday hs c) = calLoc c" "calOpenMin (fold add_holiday hs c) = calOpenMin c"
  "calCloseMin (fold add_holiday hs c) = calCloseMin c" "holiday_year (fold add_holiday hs c) = holiday_year c"
  by (induction hs arbitrary: c) simp_all

lemma holiday_hours_read:
  assumes "op < cl"
  shows "holiday_hours i op cl ot ct = Inr (a, b, shut) \<longleftrightarrow>
    (if ot = [] then Some op else parseClock ot) = Some a \<and> (if ct = [] then Some cl else parseClock ct) = Some b \<and> a < b \<and>
    shut = (ot = [] \<and> ct = [])"
  using assms by (auto simp: holiday_hours_def split: option.splits)

lemma read_holidays_Cons:
  assumes "calOpenMin c < calCloseMin c"
  shows "read_holidays i c (e # es) = Inr c' \<longleftrightarrow>
    (\<exists>h. holiday_of (calLoc c) (calOpenMin c) (calCloseMin c) e = Some h \<and> calDays c (holiday_key (calLoc c) h) = None \<and>
      read_holidays (i + 1) (add_holiday h c) es = Inr c')"
proof -
  obtain dt nm ot ct where e: "e = (dt, nm, ot, ct)" by (cases e)
  show ?thesis
  proof (cases "parse_date dt = None \<or> nm = []")
    case True
    then show ?thesis by (auto simp: e holiday_of_def split: option.splits)
  next
    case False
    then obtain n where n: "parse_date dt = Some n" "nm \<noteq> []" by auto
    show ?thesis
    proof (cases "holiday_hours i (calOpenMin c) (calCloseMin c) ot ct")
      case (Inl err)
      define A where "A = (if ot = [] then Some (calOpenMin c) else parseClock ot)"
      define B where "B = (if ct = [] then Some (calCloseMin c) else parseClock ct)"
      have "\<not> (A = Some a \<and> B = Some b \<and> a < b)" for a b
        using holiday_hours_read [OF assms, of i ot ct a b "ot = [] \<and> ct = []"] Inl by (auto simp: A_def B_def)
      moreover have "holiday_of (calLoc c) (calOpenMin c) (calCloseMin c) e \<noteq> None \<Longrightarrow> \<exists>a b. A = Some a \<and> B = Some b \<and> a < b"
        unfolding e holiday_of_def prod.case A_def [symmetric] B_def [symmetric]
        by (cases A; cases B) (auto simp: n split: if_splits)
      ultimately have "holiday_of (calLoc c) (calOpenMin c) (calCloseMin c) e = None" by blast
      then show ?thesis using Inl n by (simp add: e)
    next
      case (Inr abs)
      obtain a b shut where abs: "abs = (a, b, shut)" by (cases abs)
      note R = Inr [unfolded abs, unfolded holiday_hours_read [OF assms]]
      let ?h = "\<lparr>hoDate = locInstant (calLoc c) (n * day_ns), hoName = nm, hoOpenMin = a, hoCloseMin = b, hoClosed = shut\<rparr>"
      have "holiday_of (calLoc c) (calOpenMin c) (calCloseMin c) e = Some ?h" using R n by (simp add: e holiday_of_def)
      moreover have "read_holidays i c (e # es) =
          (if calDays c (holiday_key (calLoc c) ?h) \<noteq> None then Inl (DuplicateHoliday dt) else read_holidays (i + 1) (add_holiday ?h c) es)"
        using n by (simp add: e Inr abs Let_def add_holiday_def holiday_year_def)
      ultimately show ?thesis by auto
    qed
  qed
qed

lemma read_holidays_exact:
  assumes "calOpenMin c < calCloseMin c"
  shows "read_holidays i c es = Inr c' \<longleftrightarrow>
    (\<exists>hs. holidays_read c es hs \<and> list_all (\<lambda>h. calDays c (holiday_key (calLoc c) h) = None) hs \<and> c' = fold add_holiday hs c)"
  using assms
proof (induction es arbitrary: i c)
  case Nil
  then show ?case by (auto simp: holidays_read_def)
next
  case (Cons e es)
  show ?case
  proof
    assume "read_holidays i c (e # es) = Inr c'"
    then obtain h where h: "holiday_of (calLoc c) (calOpenMin c) (calCloseMin c) e = Some h" "calDays c (holiday_key (calLoc c) h) = None"
      "read_holidays (i + 1) (add_holiday h c) es = Inr c'" using read_holidays_Cons [OF Cons.prems] by blast
    then obtain hs where hs: "holidays_read (add_holiday h c) es hs"
      "list_all (\<lambda>g. calDays (add_holiday h c) (holiday_key (calLoc c) g) = None) hs" "c' = fold add_holiday hs (add_holiday h c)"
      using Cons.IH [of "add_holiday h c" "i + 1"] Cons.prems by auto
    then have "holidays_read c (e # es) (h # hs) \<and> list_all (\<lambda>h. calDays c (holiday_key (calLoc c) h) = None) (h # hs) \<and>
        c' = fold add_holiday (h # hs) c"
      using h by (auto simp: holidays_read_def list_all_iff split: if_splits)
    then show "\<exists>hs. holidays_read c (e # es) hs \<and> list_all (\<lambda>h. calDays c (holiday_key (calLoc c) h) = None) hs \<and> c' = fold add_holiday hs c"
      by blast
  next
    assume "\<exists>hs. holidays_read c (e # es) hs \<and> list_all (\<lambda>h. calDays c (holiday_key (calLoc c) h) = None) hs \<and> c' = fold add_holiday hs c"
    then obtain h hs where hs: "holidays_read c (e # es) (h # hs)"
      "list_all (\<lambda>h. calDays c (holiday_key (calLoc c) h) = None) (h # hs)" "c' = fold add_holiday (h # hs) c"
      by (auto simp: holidays_read_def Cons_eq_map_conv map_eq_Cons_conv)
    have other: "holiday_key (calLoc c) g \<noteq> holiday_key (calLoc c) h" if "g \<in> set hs" for g
      using hs(1) imageI [OF that, of "holiday_key (calLoc c)"] by (auto simp: holidays_read_def)
    have "read_holidays (i + 1) (add_holiday h c) es = Inr c'"
      using other Cons.IH [of "add_holiday h c" "i + 1"] Cons.prems hs
      by (auto simp: holidays_read_def list_all_iff intro!: exI [of _ hs])
    then show "read_holidays i c (e # es) = Inr c'"
      using read_holidays_Cons [OF Cons.prems] hs by (auto simp: holidays_read_def)
  qed
qed

lemma added_days:
  "distinct (map (holiday_key (calLoc c)) hs) \<Longrightarrow>
    calDays (fold add_holiday hs c) = calDays c ++ map_of (map (\<lambda>h. (holiday_key (calLoc c) h, h)) hs)"
proof (induction hs arbitrary: c)
  case (Cons h hs)
  have "map_of (map (\<lambda>h. (holiday_key (calLoc c) h, h)) hs) (holiday_key (calLoc c) h) = None"
    using Cons.prems by (auto simp: map_of_eq_None_iff)
  then show ?case using Cons.IH [of "add_holiday h c"] Cons.prems by (auto simp: fun_eq_iff map_add_def split: option.splits)
qed simp

lemma added_years:
  "list_all (\<lambda>h. 0 < holiday_year c h) hs \<Longrightarrow> 0 < calMinYear c \<Longrightarrow> calMinYear c \<le> calMaxYear c \<Longrightarrow>
    calMinYear (fold add_holiday hs c) = Min (insert (calMinYear c) (holiday_year c ` set hs)) \<and>
    calMaxYear (fold add_holiday hs c) = Max (insert (calMaxYear c) (holiday_year c ` set hs))"
proof (induction hs arbitrary: c)
  case (Cons h hs)
  let ?c = "add_holiday h c"
  have y: "calMinYear ?c = min (holiday_year c h) (calMinYear c)" "calMaxYear ?c = max (holiday_year c h) (calMaxYear c)"
    using Cons.prems by (auto simp: add_holiday_def)
  have "calMinYear (fold add_holiday hs ?c) = Min (insert (calMinYear ?c) (holiday_year c ` set hs)) \<and>
      calMaxYear (fold add_holiday hs ?c) = Max (insert (calMaxYear ?c) (holiday_year c ` set hs))"
    using Cons.IH [of ?c] Cons.prems y by (simp add: list_all_iff)
  moreover have "Min (insert (min a b) S) = Min (insert b (insert a S))" "Max (insert (max a d) S) = Max (insert d (insert a S))"
    if "finite S" for a b d :: int and S
    by (cases "S = {}"; simp add: that max.assoc max.left_commute max.commute min.assoc min.left_commute min.commute)+
  ultimately show ?case using y by simp
qed simp

text \<open>C36: A calendar that loads is the one its file describes, with all its holidays, each as its entry says, and the
  regular hours, and keeps its promises; and a file is refused only when it describes none: an unknown time zone, hours that
  do not parse or are not in order, no holidays, an entry that cannot be read, or a date given twice.\<close>

theorem loaded_calendar_sound:
  "case LoadCalendar zones f of
     Inl err \<Rightarrow> \<not> (\<exists>c. calendar_of zones f c)
   | Inr c \<Rightarrow> calendar_of zones f c \<and> calendar_ok c"
proof (cases "\<exists>loc op cl. zones (cfTimezone f) = Some loc \<and> parseClock (cfOpen f) = Some op \<and> parseClock (cfClose f) = Some cl \<and>
    op < cl \<and> cfHolidays f \<noteq> []")
  case False
  then have "\<not> (\<exists>c. calendar_of zones f c)" by (auto simp: calendar_of_def)
  moreover have "\<exists>err. LoadCalendar zones f = Inl err" using False by (auto simp: LoadCalendar_def not_le split: option.splits)
  ultimately show ?thesis by auto
next
  case True
  then obtain loc op cl where p: "zones (cfTimezone f) = Some loc" "parseClock (cfOpen f) = Some op" "parseClock (cfClose f) = Some cl"
    "op < cl" "cfHolidays f \<noteq> []" by blast
  let ?c0 = "\<lparr>calLoc = loc, calOpenMin = op, calCloseMin = cl, calDays = Map.empty, calMinYear = 0, calMaxYear = 0\<rparr>"
  have load: "LoadCalendar zones f = read_holidays 0 ?c0 (cfHolidays f)" using p by (simp add: LoadCalendar_def)
  note R = read_holidays_exact [of ?c0 0 "cfHolidays f", simplified, OF p(4)]
  show ?thesis
  proof (cases "read_holidays 0 ?c0 (cfHolidays f)")
    case (Inl err)
    have False if "calendar_of zones f c" for c
    proof -
      obtain hs where "holidays_read c (cfHolidays f) hs" using \<open>calendar_of zones f c\<close> by (auto simp: calendar_of_def)
      then have "holidays_read ?c0 (cfHolidays f) hs"
        using that p by (auto simp: calendar_of_def holidays_read_def)
      then show False using R [of "fold add_holiday hs ?c0"] Inl by (auto simp: list_all_iff)
    qed
    then show ?thesis using load Inl by auto
  next
    case (Inr c)
    then obtain hs where hs: "holidays_read ?c0 (cfHolidays f) hs" "c = fold add_holiday hs ?c0" using R [of c] by auto
    have c: "calLoc c = loc" "calOpenMin c = op" "calCloseMin c = cl" "holiday_year c = holiday_year ?c0" by (simp_all add: hs)
    have days: "calDays c = map_of (map (\<lambda>h. (holiday_key loc h, h)) hs)"
      using added_days [of ?c0 hs] hs by (simp add: holidays_read_def)
    obtain h gs where gs: "hs = h # gs" using hs(1) p(5) by (cases hs) (auto simp: holidays_read_def)
    have "calMinYear c = Min (holiday_year c ` set hs) \<and> calMaxYear c = Max (holiday_year c ` set hs)"
      if "list_all (\<lambda>h. 0 < holiday_year c h) hs"
      using that added_years [of "add_holiday h ?c0" gs] unfolding c(4) by (simp add: hs(2) gs) (simp add: add_holiday_def)
    then have "calendar_of zones f c" using p hs(1) days by (auto simp: calendar_of_def c holidays_read_def)
    moreover have "hours_ok op cl" using parseClock_bounds [OF p(2)] parseClock_bounds [OF p(3)] p(4) by (simp add: hours_ok_def)
    then have "calendar_ok c" using read_holidays_ok [OF _ Inr] by (simp add: calendar_ok_def)
    ultimately show ?thesis using load Inr by simp
  qed
qed

section \<open>Buckets tile the session\<close>

lemma width_pos: "tf_Valid tf \<Longrightarrow> tf \<noteq> TF1d \<Longrightarrow> 0 < BucketWidth tf"
  by (auto simp: tf_Valid_def Timeframes_def BucketWidth_def minute_ns_def)

lemma tdiv_floor: "0 \<le> a \<Longrightarrow> 0 < b \<Longrightarrow> tdiv a b = a div b"
  by (simp add: tdiv_def)

lemma time_sub_fits: "0 \<le> a - b \<Longrightarrow> a - b < 2 ^ 63 \<Longrightarrow> time_sub a b = a - b"
  by (simp add: time_sub_def)

text \<open>The start of the bucket of a time, by floor division.\<close>

lemma BucketOpen_inside:
  assumes "tf_Valid tf" and "tf \<noteq> TF1d" and "Session c ts = Some s" and "seOpen s \<le> ts" and "ts < seClose s"
    and "seClose s - seOpen s < 2 ^ 63"
  shows "BucketOpen c tf ts = Inr (seOpen s + (ts - seOpen s) div BucketWidth tf * BucketWidth tf)"
  using assms width_pos [OF assms(1,2)]
  by (simp add: BucketOpen_def time_sub_fits tdiv_floor)

lemma round_up_div:
  fixes d w :: int
  assumes "0 < w" and "0 \<le> x" and "x < d"
  shows "x div w < (d + w - 1) div w"
proof -
  have "w * (x div w) \<le> x" using assms(1) by (metis mult_div_mod_eq pos_mod_sign le_add_same_cancel1)
  then have "w * (x div w) + w \<le> d + w - 1" using assms(3) by linarith
  then have "(x div w + 1) * w \<le> d + w - 1" by (simp add: algebra_simps)
  then show ?thesis using zdiv_mono1 [of "(x div w + 1) * w" "d + w - 1" w] assms(1) by simp
qed

lemma div_bounds:
  fixes w :: int
  assumes "0 < w"
  shows "x div w * w \<le> x" and "x < x div w * w + w"
  using div_mult_mod_eq [of x w] pos_mod_sign [OF assms, of x] pos_mod_bound [OF assms, of x] by linarith+

text \<open>The bucket of a time is a bucket of its session and holds the time; for the daily timeframe it is the
  session's open. (Sessions last less than 2^63 nanoseconds.)\<close>

theorem bucket_of_session:
  "case BucketOpen c tf ts of
     Inl err \<Rightarrow> True
   | Inr b \<Rightarrow>
       (case Session c ts of
          None \<Rightarrow> False
        | Some s \<Rightarrow>
            if seClose s - seOpen s < 2 ^ 63 then
              b \<in> set (SessionBuckets tf s) \<and> (if tf = TF1d then b = seOpen s else b \<le> ts \<and> ts < b + BucketWidth tf)
            else True)"
proof (cases "BucketOpen c tf ts")
  case (Inr b)
  then obtain s where s: "Session c ts = Some s" and v: "tf_Valid tf"
    by (auto simp: BucketOpen_def split: if_splits option.splits)
  consider (daily) "tf = TF1d" | (intraday) "tf \<noteq> TF1d" by blast
  then show ?thesis
  proof cases
    case daily
    then show ?thesis using Inr s v by (simp add: BucketOpen_def SessionBuckets_def)
  next
    case intraday
    have i: "seOpen s \<le> ts" "ts < seClose s"
      using Inr s v intraday by (auto simp: BucketOpen_def split: if_splits)
    let ?w = "BucketWidth tf" and ?k = "(ts - seOpen s) div BucketWidth tf"
    have w: "0 < ?w" by (rule width_pos [OF v intraday])
    have "b \<in> set (SessionBuckets tf s) \<and> b \<le> ts \<and> ts < b + ?w" if short: "seClose s - seOpen s < 2 ^ 63"
    proof -
      have b: "b = seOpen s + ?k * ?w" using BucketOpen_inside [OF v intraday s i short] Inr by simp
      have k: "0 \<le> ?k" using i w by (simp add: pos_imp_zdiv_nonneg_iff)
      have "BucketCount tf s = (seClose s - seOpen s + ?w - 1) div ?w"
        using i short w intraday by (simp add: BucketCount_def session_Duration_def time_sub_fits tdiv_floor)
      then have "?k < BucketCount tf s" using round_up_div [OF w, of "ts - seOpen s" "seClose s - seOpen s"] i by simp
      then have lt: "nat ?k \<in> set [0..<nat (BucketCount tf s)]" using k by simp
      have eq: "b = (\<lambda>i. seOpen s + int i * ?w) (nat ?k)" using b k by simp
      from image_eqI [where f = "\<lambda>i. seOpen s + int i * ?w", OF eq lt] have mem: "b \<in> set (SessionBuckets tf s)" using intraday by (simp only: SessionBuckets_def if_False set_map)
      show ?thesis using mem b div_bounds [OF w, of "ts - seOpen s"] by (intro conjI) linarith+
    qed
    then show ?thesis using Inr s intraday by auto
  qed
qed simp

section \<open>Trading days\<close>

text \<open>
  The documented behaviour of a location from a reading of the clock on: every reading names one instant,
  the instant shows that reading, and instants and readings are in the same order. It holds of a location
  without changes of its offset from then on, as that of the calendar file since its first year.
\<close>

definition steady :: "location \<Rightarrow> int \<Rightarrow> bool" where
  "steady loc w0 \<longleftrightarrow>
     (\<forall>w \<ge> w0. wall loc (locInstant loc w) = w \<and> (\<forall>t. locInstant loc w \<le> t \<longleftrightarrow> w \<le> wall loc t))"

text \<open>The first instant of a day of the calendar.\<close>

definition day_start :: "calendar \<Rightarrow> int \<Rightarrow> time" where
  "day_start c n = locInstant (calLoc c) (n * day_ns)"

lemma day_ns_pos: "0 < day_ns" by (simp add: day_ns_def)

lemma local_day_wall: "local_day loc t = wall loc t div day_ns"
  by (simp add: local_day_def day_number_def wall_def)

lemma le_div_iff:
  fixes w :: int
  assumes w: "0 < w"
  shows "n * w \<le> x \<longleftrightarrow> n \<le> x div w"
proof
  assume "n * w \<le> x"
  then show "n \<le> x div w" using w zdiv_mono1 [of "n * w" x w] by simp
next
  assume n: "n \<le> x div w"
  have "n * w \<le> x div w * w" using n w by simp
  also have "\<dots> \<le> x" using w by (metis div_mult_mod_eq le_add_same_cancel1 pos_mod_sign)
  finally show "n * w \<le> x" .
qed

lemma day_start_day:
  assumes "steady (calLoc c) w0" and "w0 \<le> n * day_ns"
  shows "local_day (calLoc c) (day_start c n) = n" and "midnight c (day_start c n) = day_start c n"
    and "add_days c k (day_start c n) = day_start c (n + k)"
    and "day_start c n \<le> t \<longleftrightarrow> n \<le> local_day (calLoc c) t"
proof -
  have w: "wall (calLoc c) (day_start c n) = n * day_ns" using assms by (simp add: steady_def day_start_def)
  then show d: "local_day (calLoc c) (day_start c n) = n" using day_ns_pos by (simp add: local_day_wall)
  show "midnight c (day_start c n) = day_start c n" by (simp add: midnight_def d, simp add: day_start_def)
  show "add_days c k (day_start c n) = day_start c (n + k)"
    by (simp add: add_days_def w, simp add: day_start_def algebra_simps)
  have "day_start c n \<le> t \<longleftrightarrow> n * day_ns \<le> wall (calLoc c) t" using assms by (simp add: steady_def day_start_def)
  also have "\<dots> \<longleftrightarrow> n \<le> local_day (calLoc c) t"
    using day_ns_pos by (simp add: local_day_wall le_div_iff)
  finally show "day_start c n \<le> t \<longleftrightarrow> n \<le> local_day (calLoc c) t" .
qed

lemma days_from_exact:
  assumes "steady (calLoc c) w0" and "w0 \<le> n * day_ns"
  shows "days_from c end_ts (day_start c n) =
    Some (map (day_start c) (filter (\<lambda>d. IsTradingDay c (day_start c d)) [n..local_day (calLoc c) end_ts]))"
  using assms(2)
proof (induction "nat (local_day (calLoc c) end_ts + 1 - n)" arbitrary: n)
  case 0
  then have "\<not> day_start c n \<le> end_ts" using day_start_day(4) [OF assms(1) 0(2)] by simp
  then show ?case using 0 by (subst days_from.simps) simp
next
  case (Suc k)
  let ?e = "local_day (calLoc c) end_ts"
  have n: "n \<le> ?e" using Suc(2) by simp
  have le: "w0 \<le> (n + 1) * day_ns" using Suc(3) day_ns_pos by (simp add: algebra_simps)
  have "day_start c n \<le> end_ts" using day_start_day(4) [OF assms(1) Suc(3)] n by simp
  moreover have "days_from c end_ts (day_start c (n + 1)) =
      Some (map (day_start c) (filter (\<lambda>d. IsTradingDay c (day_start c d)) [n + 1..?e]))"
    by (rule Suc(1)) (use Suc(2) le in auto)
  ultimately show ?case
    using n day_start_day(3) [OF assms(1) Suc(3), of 1] by (subst days_from.simps) (simp add: upto_rec1)
qed

text \<open>C33: From a day on which the location is steady, \<open>TradingDays\<close> ends, and answers the first instants of exactly the
  days of the range, in order, that have a session.\<close>

theorem trading_days_exact:
  assumes "steady (calLoc c) (local_day (calLoc c) from_ts * day_ns)"
  shows "TradingDays c from_ts to_ts =
    Some (map (day_start c) (filter (\<lambda>d. IsTradingDay c (day_start c d))
      [local_day (calLoc c) from_ts..local_day (calLoc c) to_ts]))"
proof -
  have "midnight c from_ts = day_start c (local_day (calLoc c) from_ts)" by (simp add: midnight_def day_start_def)
  then show ?thesis using days_from_exact [OF assms] by (simp add: TradingDays_def)
qed

text \<open>Three hours west of UTC, and the week of Christmas 2025: Wednesday to Monday, the 25th closed.\<close>

definition west :: location where
  "west = \<lparr>locOffset = (\<lambda>t. - 180 * minute_ns), locInstant = (\<lambda>w. w + 180 * minute_ns)\<rparr>"

definition christmas :: calendar where
  "christmas =
     \<lparr>calLoc = west, calOpenMin = 600, calCloseMin = 1020,
      calDays = [''2025-12-25'' \<mapsto> \<lparr>hoDate = day_ns * 20447 + 180 * minute_ns, hoName = ''Natal'', hoOpenMin = 600, hoCloseMin = 1020,
                   hoClosed = True\<rparr>], calMinYear = 2025, calMaxYear = 2025\<rparr>"

lemma west_steady: "steady west w0"
  by (auto simp: steady_def wall_def west_def)

theorem trading_days_exact_witness:
  "TradingDays christmas (day_start christmas 20446) (day_start christmas 20451) =
   Some (map (day_start christmas) [20446, 20448, 20451])"
proof -
  have "local_day (calLoc christmas) (day_start christmas 20446) = 20446"
    "local_day (calLoc christmas) (day_start christmas 20451) = 20451" by code_simp+
  moreover have "filter (\<lambda>d. IsTradingDay christmas (day_start christmas d)) [20446..20451] = [20446, 20448, 20451]" by code_simp
  moreover have "steady (calLoc christmas) (local_day (calLoc christmas) (day_start christmas 20446) * day_ns)"
    using west_steady by (simp add: christmas_def)
  ultimately show ?thesis using trading_days_exact [of christmas "day_start christmas 20446" "day_start christmas 20451"] by simp
qed

text \<open>A session only depends on the day of the time it is asked for, as the search for the next one does.\<close>

lemma Session_local: "local_day (calLoc c) t = local_day (calLoc c) t' \<Longrightarrow> Session c t = Session c t'"
  by (simp add: Session_def midnight_def)

lemma search_days_exact:
  assumes "steady (calLoc c) w0" and "w0 \<le> n * day_ns"
  shows "search_days c 1 k (day_start c n) =
    map_option (day_start c) (find (\<lambda>d. IsTradingDay c (day_start c d)) [n + 1..n + int k])"
  using assms(2)
proof (induction k arbitrary: n)
  case (Suc k)
  have le: "w0 \<le> (n + 1) * day_ns" using Suc(2) day_ns_pos by (simp add: algebra_simps)
  have "[n + 1..n + int (Suc k)] = (n + 1) # [n + 1 + 1..(n + 1) + int k]"
  proof -
    have "n + int (Suc k) = (n + 1) + int k" by simp
    moreover have "n + 1 \<le> (n + 1) + int k" by simp
    ultimately show ?thesis using upto_rec1 [of "n + 1" "(n + 1) + int k"] by metis
  qed
  then show ?case
    using Suc(1) [OF le] day_start_day(3) [OF assms(1) Suc(2), of 1] by (simp add: Let_def)
qed simp

text \<open>C34: \<open>NextTradingDay\<close> answers the first of the thirty following days that has a session, if there is one.\<close>

theorem next_trading_day_exact:
  assumes "steady (calLoc c) (local_day (calLoc c) day * day_ns)"
  shows "NextTradingDay c day =
    map_option (day_start c) (find (\<lambda>d. IsTradingDay c (day_start c d))
      [local_day (calLoc c) day + 1..local_day (calLoc c) day + 30])"
proof -
  have "midnight c day = day_start c (local_day (calLoc c) day)" by (simp add: midnight_def day_start_def)
  then show ?thesis using search_days_exact [OF assms order_refl, of 30] by (simp add: NextTradingDay_def maxDaySearch_def)
qed

theorem next_trading_day_exact_witness:
  "NextTradingDay christmas (day_start christmas 20446) = Some (day_start christmas 20448)"
proof -
  have "local_day (calLoc christmas) (day_start christmas 20446) = 20446" by code_simp
  moreover have "find (\<lambda>d. IsTradingDay christmas (day_start christmas d)) [20446 + 1..20446 + 30] = Some 20448" by code_simp
  moreover have "steady (calLoc christmas) (local_day (calLoc christmas) (day_start christmas 20446) * day_ns)"
    using west_steady by (simp add: christmas_def)
  ultimately show ?thesis using next_trading_day_exact [of christmas "day_start christmas 20446"] by simp
qed

lemma instant_order:
  assumes "steady loc w0" and "w0 \<le> a" and "w0 \<le> b"
  shows "locInstant loc a \<le> locInstant loc b \<longleftrightarrow> a \<le> b"
  using assms by (simp add: steady_def)

lemma instant_less: "steady loc w0 \<Longrightarrow> w0 \<le> a \<Longrightarrow> w0 \<le> b \<Longrightarrow> locInstant loc a < locInstant loc b \<longleftrightarrow> a < b"
  using instant_order [of loc w0 b a] by (metis not_le)

lemma calendar_hours:
  "calendar_ok c \<Longrightarrow> hours_ok (calOpenMin c) (calCloseMin c)"
  "calendar_ok c \<Longrightarrow> calDays c key = Some h \<Longrightarrow> hours_ok (hoOpenMin h) (hoCloseMin h)"
  by (auto simp: calendar_ok_def)

lemma session_times:
  assumes "steady (calLoc c) w0" and "w0 \<le> n * day_ns" and "calendar_ok c" and "local_day (calLoc c) t = n"
    and "Session c t = Some s"
  shows "day_start c n \<le> seOpen s" and "seOpen s < seClose s" and "seClose s < day_start c (n + 1)"
proof -
  note D = day_start_day [OF assms(1,2)]
  have mid: "midnight c t = day_start c n" by (simp add: midnight_def day_start_def assms(4))
  obtain op cl where h: "hours_ok op cl" "seOpen s = clock_at c (day_start c n) op" "seClose s = clock_at c (day_start c n) cl"
    using assms(5) calendar_hours [OF assms(3)] by (force simp: Session_def mid Let_def split: if_splits option.splits)
  have o: "0 \<le> op * minute_ns" "op * minute_ns < cl * minute_ns" "cl * minute_ns < day_ns"
    using h(1) by (simp_all add: hours_ok_def minute_ns_def day_ns_def)
  have c: "seOpen s = locInstant (calLoc c) (n * day_ns + op * minute_ns)" "seClose s = locInstant (calLoc c) (n * day_ns + cl * minute_ns)"
    by (simp_all add: h clock_at_def D(1))
  show "day_start c n \<le> seOpen s" unfolding c day_start_def
    by (subst instant_order [OF assms(1)]) (use assms(2) o in auto)
  show "seOpen s < seClose s" unfolding c
    by (subst instant_less [OF assms(1)]) (use assms(2) o in auto)
  show "seClose s < day_start c (n + 1)" unfolding c day_start_def
    by (subst instant_less [OF assms(1)]) (use assms(2) o in \<open>auto simp: algebra_simps\<close>)
qed

lemma sorted_multiples: "0 < (w :: int) \<Longrightarrow> sorted_wrt (<) (map (\<lambda>i. a + int i * w) [0..<k])"
  by (auto simp: sorted_wrt_iff_nth_less)

lemma SessionBuckets_ordered:
  assumes "tf_Valid tf" and "seOpen s < seClose s"
  shows "sorted_wrt (<) (SessionBuckets tf s)" and "SessionBuckets tf s \<noteq> []" and "hd (SessionBuckets tf s) = seOpen s"
    and "b \<in> set (SessionBuckets tf s) \<Longrightarrow> seOpen s \<le> b \<and> b < seClose s"
proof -
  consider (daily) "tf = TF1d" | (intraday) "tf \<noteq> TF1d" by blast
  then have "sorted_wrt (<) (SessionBuckets tf s) \<and> SessionBuckets tf s \<noteq> [] \<and> hd (SessionBuckets tf s) = seOpen s \<and>
    (b \<in> set (SessionBuckets tf s) \<longrightarrow> seOpen s \<le> b \<and> b < seClose s)"
  proof cases
    case daily
    then show ?thesis using assms(2) by (simp add: SessionBuckets_def)
  next
    case intraday
    let ?w = "BucketWidth tf" and ?d = "session_Duration s"
    have w: "0 < ?w" by (rule width_pos [OF assms(1) intraday])
    have d: "0 < ?d" "?d \<le> seClose s - seOpen s" using assms(2) by (auto simp: session_Duration_def time_sub_def)
    have n: "BucketCount tf s = (?d + ?w - 1) div ?w" using intraday w d by (simp add: BucketCount_def tdiv_floor)
    have pos: "0 < BucketCount tf s" using round_up_div [OF w, of 0 ?d] d by (simp add: n)
    have "seOpen s \<le> b \<and> b < seClose s" if b: "b \<in> set (SessionBuckets tf s)"
    proof -
      obtain i where i: "i < nat (BucketCount tf s)" "b = seOpen s + int i * ?w"
        using b intraday by (auto simp: SessionBuckets_def)
      have "int i + 1 \<le> BucketCount tf s" using i(1) by simp
      then have "(int i + 1) * ?w \<le> ?d + ?w - 1" unfolding n by (simp only: le_div_iff [OF w])
      then have "int i * ?w < ?d" by (simp add: algebra_simps)
      moreover have "0 \<le> int i * ?w" using w by simp
      ultimately show ?thesis using i(2) d by linarith
    qed
    then show ?thesis
      using intraday w pos sorted_multiples [OF w] by (simp add: SessionBuckets_def hd_map)
  qed
  then show "sorted_wrt (<) (SessionBuckets tf s)" and "SessionBuckets tf s \<noteq> []" and "hd (SessionBuckets tf s) = seOpen s"
    and "b \<in> set (SessionBuckets tf s) \<Longrightarrow> seOpen s \<le> b \<and> b < seClose s" by auto
qed

lemma day_start_order:
  assumes "steady (calLoc c) w0" and "w0 \<le> n * day_ns"
  shows "n \<le> m \<Longrightarrow> w0 \<le> m * day_ns" and "n \<le> m \<Longrightarrow> day_start c n \<le> day_start c m"
    and "n < m \<Longrightarrow> day_start c n < day_start c m"
proof -
  have le: "n * day_ns \<le> m * day_ns" if "n \<le> m" using that day_ns_pos by simp
  show w: "w0 \<le> m * day_ns" if "n \<le> m" using le [OF that] assms(2) by linarith
  show "day_start c n \<le> day_start c m" if "n \<le> m"
    unfolding day_start_def using instant_order [OF assms w [OF that]] le [OF that] by simp
  show "day_start c n < day_start c m" if "n < m"
    unfolding day_start_def using instant_less [OF assms w] that day_ns_pos by simp
qed

section \<open>Buckets to come\<close>

text \<open>The times of a range that open a bucket: those \<open>BucketOpen\<close> answers for themselves.\<close>

definition openings :: "calendar \<Rightarrow> string \<Rightarrow> time \<Rightarrow> time \<Rightarrow> time list" where
  "openings c tf a b = filter (\<lambda>t. BucketOpen c tf t = Inr t) [a..b - 1]"

lemma openings_split:
  assumes "a \<le> b" and "b \<le> d"
  shows "openings c tf a d = openings c tf a b @ openings c tf b d"
proof (cases "b = d")
  case False
  then show ?thesis using assms upto_split1 [of a b "d - 1"] by (simp add: openings_def)
qed (simp add: openings_def)

lemma filter_upto_after: "filter (\<lambda>t. p t \<and> after < t) [a..b] = filter p [max (after + 1) a..b]"
proof (induction a b rule: upto.induct)
  case (1 a b)
  show ?case
  proof (cases "a \<le> b")
    case True
    then have "[a..b] = a # [a + 1..b]" by (rule upto_rec1)
    then show ?thesis using 1 [OF True] by (cases "after < a") (simp_all add: max_def split: if_splits)
  qed simp
qed

lemma openings_after: "filter (\<lambda>t. after < t) (openings c tf a b) = openings c tf (max (after + 1) a) b"
  using filter_upto_after [of "\<lambda>t. BucketOpen c tf t = Inr t" after a "b - 1"] by (simp add: openings_def conj_commute)

text \<open>Offsets from UTC are less than a day, so sessions are far shorter than a \<open>time.Duration\<close> can hold.\<close>

definition offsets_small :: "location \<Rightarrow> bool" where
  "offsets_small loc \<longleftrightarrow> (\<forall>t. \<bar>locOffset loc t\<bar> < day_ns)"

lemma session_short:
  assumes "steady (calLoc c) w0" and "w0 \<le> n * day_ns" and "calendar_ok c" and "local_day (calLoc c) t = n"
    and "Session c t = Some s" and "offsets_small (calLoc c)"
  shows "seClose s - seOpen s < 2 ^ 63"
proof -
  note D = day_start_day [OF assms(1,2)]
  have mid: "midnight c t = day_start c n" by (simp add: midnight_def day_start_def assms(4))
  obtain op cl where h: "hours_ok op cl" "seOpen s = clock_at c (day_start c n) op" "seClose s = clock_at c (day_start c n) cl"
    using assms(5) calendar_hours [OF assms(3)] by (force simp: Session_def mid Let_def split: if_splits option.splits)
  have o: "0 \<le> op * minute_ns" "op * minute_ns < cl * minute_ns" "cl * minute_ns < day_ns"
    using h(1) by (simp_all add: hours_ok_def minute_ns_def day_ns_def)
  have w: "wall (calLoc c) (seOpen s) = n * day_ns + op * minute_ns" "wall (calLoc c) (seClose s) = n * day_ns + cl * minute_ns"
    using assms(1,2) o by (simp_all add: h clock_at_def D(1) steady_def)
  have "\<bar>locOffset (calLoc c) (seOpen s)\<bar> < day_ns" "\<bar>locOffset (calLoc c) (seClose s)\<bar> < day_ns"
    using assms(6) by (simp_all add: offsets_small_def)
  then have "seClose s - seOpen s < 3 * day_ns" using w o unfolding wall_def by linarith
  then show ?thesis by (simp add: day_ns_def)
qed

text \<open>The openings of a day are the buckets of its session.\<close>

lemma opening_in_session:
  assumes "tf_Valid tf" and "Session c t = Some s" and "seOpen s < seClose s" and "seClose s - seOpen s < 2 ^ 63"
  shows "BucketOpen c tf t = Inr t \<longleftrightarrow> t \<in> set (SessionBuckets tf s)"
proof (cases "tf = TF1d")
  case True
  then show ?thesis using assms(1,2) by (auto simp: BucketOpen_def SessionBuckets_def)
next
  case False
  show ?thesis
  proof
    assume "BucketOpen c tf t = Inr t"
    then show "t \<in> set (SessionBuckets tf s)" using bucket_of_session [where c = c and tf = tf and ts = t] assms(2,4) False by simp
  next
    assume t: "t \<in> set (SessionBuckets tf s)"
    then obtain i where i: "t = seOpen s + int i * BucketWidth tf" using False by (auto simp: SessionBuckets_def)
    have b: "seOpen s \<le> t" "t < seClose s" using SessionBuckets_ordered(4) [OF assms(1,3) t] by simp_all
    have "0 < BucketWidth tf" by (rule width_pos [OF assms(1) False])
    then show "BucketOpen c tf t = Inr t"
      using BucketOpen_inside [OF assms(1) False assms(2) b assms(4)] by (simp add: i)
  qed
qed

lemma openings_day:
  assumes "steady (calLoc c) w0" and "w0 \<le> n * day_ns" and "calendar_ok c" and "tf_Valid tf" and "offsets_small (calLoc c)"
  shows "openings c tf (day_start c n) (day_start c (n + 1)) =
    (case Session c (day_start c n) of None \<Rightarrow> [] | Some s \<Rightarrow> SessionBuckets tf s)"
proof -
  note D = day_start_day [OF assms(1,2)]
  have w1: "w0 \<le> (n + 1) * day_ns" using assms(2) day_ns_pos by (simp add: algebra_simps)
  have day: "local_day (calLoc c) t = n" if "day_start c n \<le> t" "t < day_start c (n + 1)" for t
    using that D(4) [of t] day_start_day(4) [OF assms(1) w1, of t] by simp
  have same: "Session c t = Session c (day_start c n)" if "day_start c n \<le> t" "t < day_start c (n + 1)" for t
    using day [OF that] D(1) by (intro Session_local) simp
  show ?thesis
  proof (cases "Session c (day_start c n)")
    case None
    then have "BucketOpen c tf t \<noteq> Inr t" if "day_start c n \<le> t" "t < day_start c (n + 1)" for t
      using same [OF that] by (simp add: BucketOpen_def)
    then show ?thesis using None by (auto simp: openings_def filter_empty_conv)
  next
    case (Some s)
    note T = session_times [OF assms(1-3) D(1) Some] and short = session_short [OF assms(1-3) D(1) Some assms(5)]
    note S = SessionBuckets_ordered [OF assms(4) T(2)]
    have "BucketOpen c tf t = Inr t \<longleftrightarrow> t \<in> set (SessionBuckets tf s)" if "day_start c n \<le> t" "t < day_start c (n + 1)" for t
      using opening_in_session [OF assms(4) _ T(2) short] same [OF that] Some by simp
    moreover have "day_start c n \<le> t \<and> t < day_start c (n + 1)" if "t \<in> set (SessionBuckets tf s)" for t
      using S(4) [OF that] T by linarith
    ultimately have "set (openings c tf (day_start c n) (day_start c (n + 1))) = set (SessionBuckets tf s)"
      by (auto simp: openings_def)
    then have "openings c tf (day_start c n) (day_start c (n + 1)) = SessionBuckets tf s"
      by (intro strict_sorted_equal S(1)) (simp_all add: openings_def sorted_wrt_filter)
    then show ?thesis using Some by simp
  qed
qed

text \<open>What the loop finds on the day it stands on, and that days without a session add nothing.\<close>

definition day_buckets :: "calendar \<Rightarrow> string \<Rightarrow> time \<Rightarrow> time \<Rightarrow> time list" where
  "day_buckets c tf after cursor =
     (case Session c cursor of None \<Rightarrow> [] | Some s \<Rightarrow> filter (\<lambda>b. b > after) (SessionBuckets tf s))"

lemma day_buckets_openings:
  assumes "steady (calLoc c) w0" and "w0 \<le> n * day_ns" and "calendar_ok c" and "tf_Valid tf" and "offsets_small (calLoc c)"
    and "local_day (calLoc c) cursor = n"
  shows "day_buckets c tf after cursor = openings c tf (max (after + 1) (day_start c n)) (day_start c (n + 1))"
proof -
  have "Session c cursor = Session c (day_start c n)"
    using day_start_day(1) [OF assms(1,2)] assms(6) by (intro Session_local) simp
  then have "day_buckets c tf after cursor = filter (\<lambda>t. after < t) (openings c tf (day_start c n) (day_start c (n + 1)))"
    using openings_day [OF assms(1-5)] by (simp add: day_buckets_def split: option.splits)
  then show ?thesis by (simp only: openings_after)
qed

lemma openings_quiet:
  assumes "steady (calLoc c) w0" and "w0 \<le> n * day_ns" and "n \<le> m"
    and quiet: "\<And>d. n \<le> d \<Longrightarrow> d < m \<Longrightarrow> \<not> IsTradingDay c (day_start c d)"
  shows "openings c tf (day_start c n) (day_start c m) = []"
proof -
  have "BucketOpen c tf t \<noteq> Inr t" if t: "day_start c n \<le> t" "t < day_start c m" for t
  proof -
    let ?d = "local_day (calLoc c) t"
    have d: "n \<le> ?d" using t(1) day_start_day(4) [OF assms(1,2)] by simp
    then have w: "w0 \<le> ?d * day_ns" and m: "w0 \<le> m * day_ns"
      using day_start_order(1) [OF assms(1,2)] assms(3) by blast+
    have "?d < m" using t(2) day_start_day(4) [OF assms(1) m, of t] by simp
    then have "Session c (day_start c ?d) = None" using quiet [OF d] by (simp add: IsTradingDay_def)
    moreover have "Session c t = Session c (day_start c ?d)"
      using day_start_day(1) [OF assms(1) w] by (intro Session_local) simp
    ultimately show ?thesis by (simp add: BucketOpen_def)
  qed
  then show ?thesis by (auto simp: openings_def filter_empty_conv)
qed

lemma future_unfold:
  "future_from c tf after count found cursor =
     (if length found \<ge> count then Some found
      else
        (let found' = take count (found @ day_buckets c tf after cursor)
         in if length found' = count then Some found'
            else (case NextTradingDay c cursor of None \<Rightarrow> Some found' | Some next_day \<Rightarrow> future_from c tf after count found' next_day)))"
  by (subst future_from.simps) (simp only: day_buckets_def Let_def)

lemma future_step:
  assumes "length found < count" and "new = take count (found @ day_buckets c tf after cursor)"
  shows "length new = count \<or> NextTradingDay c cursor = None \<Longrightarrow> future_from c tf after count found cursor = Some new"
    and "length new \<noteq> count \<Longrightarrow> NextTradingDay c cursor = Some next_day \<Longrightarrow>
      future_from c tf after count found cursor = future_from c tf after count new next_day"
proof -
  have "future_from c tf after count found cursor =
      (if length new = count then Some new
       else (case NextTradingDay c cursor of None \<Rightarrow> Some new | Some next_day \<Rightarrow> future_from c tf after count new next_day))"
    using assms(1) unfolding assms(2) by (subst future_unfold) (simp only: not_le [symmetric] if_False Let_def)
  then show "length new = count \<or> NextTradingDay c cursor = None \<Longrightarrow> future_from c tf after count found cursor = Some new"
    and "length new \<noteq> count \<Longrightarrow> NextTradingDay c cursor = Some next_day \<Longrightarrow>
      future_from c tf after count found cursor = future_from c tf after count new next_day" by auto
qed

lemma future_new:
  assumes "steady (calLoc c) w0" and "w0 \<le> n * day_ns" and "calendar_ok c" and "tf_Valid tf" and "offsets_small (calLoc c)"
    and "local_day (calLoc c) cursor = n" and "after < day_start c (n + 1)"
  shows "openings c tf (after + 1) (day_start c n) @ day_buckets c tf after cursor = openings c tf (after + 1) (day_start c (n + 1))"
proof -
  have le: "day_start c n \<le> day_start c (n + 1)" by (rule day_start_order(2) [OF assms(1,2)]) simp
  note D = day_buckets_openings [OF assms(1-6), of after]
  show ?thesis
  proof (cases "after + 1 \<le> day_start c n")
    case True
    then show ?thesis using D openings_split [OF True le] by (simp add: max_def)
  next
    case False
    then have "openings c tf (after + 1) (day_start c n) = []" by (simp add: openings_def)
    then show ?thesis using D False by (simp add: max_def)
  qed
qed

text \<open>The search stops with the first openings after a time, as many as were asked for or all there are before thirty days
  without a session.\<close>

definition first_openings :: "calendar \<Rightarrow> string \<Rightarrow> time \<Rightarrow> nat \<Rightarrow> int \<Rightarrow> time list \<Rightarrow> bool" where
  "first_openings c tf after count m bs \<longleftrightarrow>
     bs = take count (openings c tf (after + 1) (day_start c (m + 1))) \<and>
     (length bs = count \<or> find (\<lambda>d. IsTradingDay c (day_start c d)) [m + 1..m + 30] = None)"

lemma next_day_found:
  assumes "steady (calLoc c) w0" and "w0 \<le> local_day (calLoc c) cursor * day_ns" and "n = local_day (calLoc c) cursor"
  shows "NextTradingDay c cursor = map_option (day_start c) (find (\<lambda>d. IsTradingDay c (day_start c d)) [n + 1..n + 30])"
proof -
  have "midnight c cursor = day_start c n" by (simp add: midnight_def day_start_def assms(3))
  then show ?thesis using search_days_exact [OF assms(1), of n 30] assms(2,3) by (simp add: NextTradingDay_def maxDaySearch_def)
qed

lemma find_upto:
  assumes "find p [a..b] = Some (m :: int)"
  shows "a \<le> m" and "p m" and "\<And>d. a \<le> d \<Longrightarrow> d < m \<Longrightarrow> \<not> p d"
proof -
  obtain i where i: "i < length [a..b]" "p ([a..b] ! i)" "m = [a..b] ! i" "\<forall>j<i. \<not> p ([a..b] ! j)"
    using assms by (auto simp: find_Some_iff)
  have m: "m = a + int i" using i(1,3) by (simp add: nth_upto)
  then show "a \<le> m" "p m" using i(2,3) by auto
  show "\<not> p d" if "a \<le> d" "d < m" for d
  proof -
    have "nat (d - a) < i" and "[a..b] ! nat (d - a) = d" using that m i(1) by (auto simp: nth_upto)
    then show ?thesis using i(4) by metis
  qed
qed

lemma future_from_openings:
  assumes st: "steady (calLoc c) w0" and ok: "calendar_ok c" and tf: "tf_Valid tf" and off: "offsets_small (calLoc c)"
  shows "w0 \<le> n * day_ns \<Longrightarrow> local_day (calLoc c) cursor = n \<Longrightarrow> after < day_start c (n + 1) \<Longrightarrow>
    found = openings c tf (after + 1) (day_start c n) \<Longrightarrow> length found < count \<Longrightarrow>
    \<exists>m bs. n \<le> m \<and> future_from c tf after count found cursor = Some bs \<and> first_openings c tf after count m bs"
proof (induction "2 * (count - length found) + (if IsTradingDay c cursor \<and> after < day_start c n then 0 else 1)"
    arbitrary: found cursor n rule: less_induct)
  case less
  define new where "new = take count (found @ day_buckets c tf after cursor)"
  have new: "new = take count (openings c tf (after + 1) (day_start c (n + 1)))"
    using future_new [OF st less.prems(1) ok tf off less.prems(2,3)] less.prems(4) by (simp add: new_def)
  note nx = next_day_found [OF st _ less.prems(2) [symmetric]]
  show ?case
  proof (cases "length new = count \<or> NextTradingDay c cursor = None")
    case True
    then have "future_from c tf after count found cursor = Some new" using future_step(1) [OF less.prems(5) new_def] by simp
    moreover have "first_openings c tf after count n new"
      using True nx less.prems(1,2) unfolding first_openings_def new by auto
    ultimately show ?thesis by blast
  next
    case more: False
    then obtain m where m: "find (\<lambda>d. IsTradingDay c (day_start c d)) [n + 1..n + 30] = Some m"
        "NextTradingDay c cursor = Some (day_start c m)"
      using nx less.prems(1,2) by auto
    note F = find_upto [OF m(1)]
    have w1: "w0 \<le> (n + 1) * day_ns" and wm: "w0 \<le> m * day_ns"
      using day_start_order(1) [OF st less.prems(1)] F(1) by simp_all
    have mono: "day_start c (n + 1) \<le> day_start c m" and less_m: "day_start c m < day_start c (m + 1)"
      using day_start_order(2) [OF st w1 F(1)] day_start_order(3) [OF st wm, of "m + 1"] by simp_all
    have all: "new = openings c tf (after + 1) (day_start c (n + 1))"
      using more new by (metis length_take min_def take_all_iff)
    have quiet: "openings c tf (day_start c (n + 1)) (day_start c m) = []" by (rule openings_quiet [OF st w1 F(1)]) (rule F(3))
    have found': "new = openings c tf (after + 1) (day_start c m)"
      using openings_split [of "after + 1" "day_start c (n + 1)" "day_start c m" c tf] less.prems(3) mono all quiet by simp
    have "length new \<le> count" by (simp only: new_def length_take min.cobounded2)
    then have len: "length new < count" using more by simp
    have grow: "length found \<le> length new" and
      strict: "IsTradingDay c cursor \<Longrightarrow> after < day_start c n \<Longrightarrow> length found < length new"
    proof -
      have l: "length new = length found + length (day_buckets c tf after cursor)" using len by (auto simp: new_def)
      then show "length found \<le> length new" by simp
      show "length found < length new" if trading: "IsTradingDay c cursor" and later: "after < day_start c n"
      proof -
        obtain s where s: "Session c cursor = Some s" using trading by (auto simp: IsTradingDay_def)
        note T = session_times [OF st less.prems(1) ok less.prems(2) s]
        have "seOpen s \<in> set (SessionBuckets tf s)" using SessionBuckets_ordered(2,3) [OF tf T(2)] hd_in_set by metis
        then have "seOpen s \<in> set (day_buckets c tf after cursor)" using T(1) later by (simp add: day_buckets_def s)
        then show ?thesis using l length_pos_if_in_set by fastforce
      qed
    qed
    have step: "future_from c tf after count found cursor = future_from c tf after count new (day_start c m)"
      using future_step(2) [OF less.prems(5) new_def _ m(2)] more by simp
    have am: "after < day_start c m" using less.prems(3) mono by simp
    have "\<exists>k bs. m \<le> k \<and> future_from c tf after count new (day_start c m) = Some bs \<and> first_openings c tf after count k bs"
    proof (rule less.hyps [OF _ wm day_start_day(1) [OF st wm] _ found' len])
      show "after < day_start c (m + 1)" using am less_m by simp
      show "2 * (count - length new) + (if IsTradingDay c (day_start c m) \<and> after < day_start c m then 0 else 1)
        < 2 * (count - length found) + (if IsTradingDay c cursor \<and> after < day_start c n then 0 else 1)"
        using F(2) am grow strict len by (auto simp: less_diff_conv)
    qed
    then show ?thesis using F(1) unfolding step by (meson dual_order.trans le_add_same_cancel1 order.trans zero_le_one)
  qed
qed

text \<open>C35: On a loaded calendar whose location is less than a day from UTC, from a time on whose day it is steady, \<open>FutureBuckets\<close>
  ends with the first times after it that open a bucket (those \<open>BucketOpen\<close> answers for themselves), in their order and
  without leaving one out: as many as were asked for, or all of them up to a day that thirty days without a session follow.\<close>

theorem future_buckets_ahead:
  assumes "steady (calLoc c) (local_day (calLoc c) after * day_ns)" and "calendar_ok c" and "offsets_small (calLoc c)"
  shows "case FutureBuckets c tf after count of
    None \<Rightarrow> False
  | Some bs \<Rightarrow>
      if count < 1 \<or> \<not> tf_Valid tf then bs = []
      else \<exists>m \<ge> local_day (calLoc c) after. first_openings c tf after (nat count) m bs"
proof (cases "count < 1 \<or> \<not> tf_Valid tf")
  case True
  then show ?thesis by (auto simp: FutureBuckets_def)
next
  case False
  let ?n = "local_day (calLoc c) after"
  have w1: "?n * day_ns \<le> (?n + 1) * day_ns" using day_ns_pos by simp
  have "after < day_start c (?n + 1)" using day_start_day(4) [OF assms(1) w1, of after] by simp
  moreover have "openings c tf (after + 1) (day_start c ?n) = []"
    using day_start_day(4) [OF assms(1) order_refl, of after] by (simp add: openings_def)
  ultimately show ?thesis
    using future_from_openings [OF assms(1,2) _ assms(3) order_refl refl, of tf after "[]" "nat count"] False
    by (auto simp: FutureBuckets_def)
qed

theorem future_buckets_ahead_witness:
  "case FutureBuckets christmas TF1d (day_start christmas 20446) 3 of
    None \<Rightarrow> False
  | Some bs \<Rightarrow> \<exists>m \<ge> 20446. first_openings christmas TF1d (day_start christmas 20446) 3 m bs"
proof -
  have d: "local_day (calLoc christmas) (day_start christmas 20446) = 20446" by code_simp
  have "steady (calLoc christmas) (local_day (calLoc christmas) (day_start christmas 20446) * day_ns)"
    using west_steady by (simp add: christmas_def)
  moreover have key: "''2025-12-25'' = dateKey west (day_ns * 20447 + 180 * minute_ns)" by code_simp
  have "year_of (local_day west (day_ns * 20447 + 180 * minute_ns)) = 2025" by code_simp
  then have "calendar_ok christmas"
    using key by (simp add: calendar_ok_def christmas_def hours_ok_def ran_def cal_Covers_def Let_def)
  moreover have "offsets_small (calLoc christmas)" by (simp add: offsets_small_def christmas_def west_def minute_ns_def day_ns_def)
  ultimately show ?thesis using future_buckets_ahead [where c = christmas and after = "day_start christmas 20446" and tf = TF1d and count = 3] d
    by (auto simp: tf_Valid_def Timeframes_def split: option.splits)
qed

end
