(* ===== verification/Resample.thy ===== *)
theory Resample
  imports Calendar
begin

text \<open>
  Folding five-minute candles into longer ones (internal/market/resample.go), and the reads of stored candles built on
  it: \<open>Load\<close> (service.go), \<open>Page\<close> (page.go) and \<open>Prime\<close> (prime.go). The store is a function from a symbol
  and a stored timeframe to its candles, in the order of their timestamps, \<open>None\<close> where the read fails; the
  queries are those of internal/db/candles.sql.go.
\<close>

section \<open>Resampling\<close>

datatype resample_error =
    NoCalendar
  | UnknownTarget string
  | NotResamplable
  | BadBase nat candle_error
  | NotAscending nat
  | NoBucket nat bucket_error
  | NotAligned nat time

text \<open>The candle a bucket starts with, and a candle folded into it.\<close>

definition start_candle :: "time \<Rightarrow> candle \<Rightarrow> candle" where
  "start_candle start k =
     \<lparr>cTS = start, cOpen = cOpen k, cHigh = cHigh k, cLow = cLow k, cClose = 0, cAdj = None, cVolume = 0\<rparr>"

definition fold_in :: "candle \<Rightarrow> candle \<Rightarrow> candle" where
  "fold_in k cur =
     cur\<lparr>cHigh := go_max (cHigh cur) (cHigh k), cLow := go_min (cLow cur) (cLow k), cClose := cClose k,
         cVolume := cVolume cur + cVolume k, cAdj := (case cAdj k of None \<Rightarrow> cAdj cur | Some a \<Rightarrow> Some a)\<rparr>"

text \<open>The checks of one base candle; the answer is the start of its bucket.\<close>

definition check_base :: "calendar \<Rightarrow> string \<Rightarrow> nat \<Rightarrow> time \<Rightarrow> candle \<Rightarrow> resample_error + time" where
  "check_base c tf i prev k =
     (case validate k of
        Some err \<Rightarrow> Inl (BadBase i err)
      | None \<Rightarrow>
          if prev \<noteq> zero_time \<and> \<not> cTS k > prev then Inl (NotAscending i)
          else
            (case BucketOpen c TF5m (cTS k) of
               Inl err \<Rightarrow> Inl (NoBucket i err)
             | Inr aligned \<Rightarrow>
                 if aligned \<noteq> cTS k then Inl (NotAligned i aligned)
                 else (case BucketOpen c tf (cTS k) of Inl err \<Rightarrow> Inl (NoBucket i err) | Inr start \<Rightarrow> Inr start)))"

text \<open>The loop, with the candles flushed and the bucket that is open.\<close>

fun resample_loop :: "calendar \<Rightarrow> string \<Rightarrow> nat \<Rightarrow> time \<Rightarrow> candle list \<Rightarrow> (time \<times> candle) option \<Rightarrow> candle list \<Rightarrow>
    resample_error + candle list" where
  "resample_loop c tf i prev out cur [] = Inr (case cur of None \<Rightarrow> out | Some (b, x) \<Rightarrow> out @ [x])"
| "resample_loop c tf i prev out cur (k # ks) =
     (case check_base c tf i prev k of
        Inl err \<Rightarrow> Inl err
      | Inr start \<Rightarrow>
          (case cur of
             None \<Rightarrow> resample_loop c tf (i + 1) (cTS k) out (Some (start, fold_in k (start_candle start k))) ks
           | Some (b, x) \<Rightarrow>
               if start = b then resample_loop c tf (i + 1) (cTS k) out (Some (b, fold_in k x)) ks
               else resample_loop c tf (i + 1) (cTS k) (out @ [x]) (Some (start, fold_in k (start_candle start k))) ks))"

definition Resample :: "calendar option \<Rightarrow> candle list \<Rightarrow> string \<Rightarrow> resample_error + candle list" where
  "Resample cal base target =
     (case cal of
        None \<Rightarrow> Inl NoCalendar
      | Some c \<Rightarrow>
          if \<not> tf_Valid target then Inl (UnknownTarget target)
          else if target = TF1d then Inl NotResamplable
          else resample_loop c target 0 zero_time [] None base)"

section \<open>Reading stored candles\<close>

type_synonym store = "i64 \<Rightarrow> string \<Rightarrow> candle list option"

definition in_range :: "time \<Rightarrow> time \<Rightarrow> candle \<Rightarrow> bool" where
  "in_range lo hi k \<longleftrightarrow> lo \<le> cTS k \<and> cTS k < hi"

definition ListCandles :: "store \<Rightarrow> i64 \<Rightarrow> string \<Rightarrow> time \<Rightarrow> time \<Rightarrow> int \<Rightarrow> candle list option" where
  "ListCandles db symbol_id tf lo hi cap = map_option (\<lambda>ks. take (nat cap) (filter (in_range lo hi) ks)) (db symbol_id tf)"

definition ListCandlesDesc :: "store \<Rightarrow> i64 \<Rightarrow> string \<Rightarrow> time \<Rightarrow> time \<Rightarrow> int \<Rightarrow> candle list option" where
  "ListCandlesDesc db symbol_id tf lo hi cap = map_option (\<lambda>ks. take (nat cap) (rev (filter (in_range lo hi) ks))) (db symbol_id tf)"

datatype read_error = UnknownReadTimeframe string | ReadFailed string | ResampleFailed resample_error

definition DefaultPageLimit :: int where "DefaultPageLimit = 1000"
definition MaxPageLimit :: int where "MaxPageLimit = 5000"

record page_request =
  prSymbolID :: i64
  prTimeframe :: string
  prFrom :: time
  prTo :: time
  prBefore :: time
  prLimit :: int

record page =
  pgTimeframe :: string
  pgBase :: string
  pgStart :: time
  pgEnd :: time
  pgCandles :: "candle list"
  pgCursor :: time
  pgHasMore :: bool

definition page_Oldest :: "page \<Rightarrow> time" where
  "page_Oldest p = (case pgCandles p of [] \<Rightarrow> zero_time | k # _ \<Rightarrow> cTS k)"

definition ClampPageLimit :: "int \<Rightarrow> int" where
  "ClampPageLimit cap = (if cap < 1 then DefaultPageLimit else if cap > MaxPageLimit then MaxPageLimit else cap)"

definition baseRowCap :: "string \<Rightarrow> int \<Rightarrow> int" where
  "baseRowCap tf cap =
     (let rows = (if tf \<noteq> tf_Base tf then cap * BaseBars tf + 1 else cap + 1)
      in if rows < 1 \<or> rows > 2 ^ 31 - 1 then 2 ^ 31 - 1 else rows)"

definition trimPage :: "page \<Rightarrow> candle list \<Rightarrow> int \<Rightarrow> bool \<Rightarrow> page" where
  "trimPage p ks cap truncated =
     (let (ks1, more1) = (if truncated \<and> ks \<noteq> [] then (tl ks, True) else (ks, pgHasMore p));
          (ks2, more2) = (if int (length ks1) > cap then (drop (length ks1 - nat cap) ks1, True) else (ks1, more1));
          p2 = p\<lparr>pgHasMore := more2, pgCandles := ks2\<rparr>
      in if more2 \<and> ks2 \<noteq> [] then p2\<lparr>pgCursor := cTS (hd ks2)\<rparr> else p2)"

text \<open>The candles of a timeframe folded from those of its base.\<close>

definition folded :: "calendar \<Rightarrow> string \<Rightarrow> candle list \<Rightarrow> read_error + candle list" where
  "folded c tf ks =
     (if tf = tf_Base tf then Inr ks
      else (case Resample (Some c) ks tf of Inl err \<Rightarrow> Inl (ResampleFailed err) | Inr out \<Rightarrow> Inr out))"

definition page_end :: "page_request \<Rightarrow> time \<Rightarrow> time" where
  "page_end req bound = (if prBefore req \<noteq> zero_time \<and> prBefore req < bound then prBefore req else bound)"

definition Page :: "calendar \<Rightarrow> store \<Rightarrow> page_request \<Rightarrow> read_error + page" where
  "Page c db req =
     (let tf = prTimeframe req
      in if \<not> tf_Valid tf then Inl (UnknownReadTimeframe tf)
         else
           (let cap = ClampPageLimit (prLimit req);
                base = tf_Base tf;
                (start, bound) = DayBounds c (prFrom req) (prTo req);
                fin = page_end req bound;
                empty = \<lparr>pgTimeframe = tf, pgBase = base, pgStart = start, pgEnd = fin, pgCandles = [], pgCursor = zero_time,
                         pgHasMore = False\<rparr>
            in if \<not> fin > start then Inr empty
               else
                 (case ListCandlesDesc db (prSymbolID req) base start fin (baseRowCap tf cap) of
                    None \<Rightarrow> Inl (ReadFailed base)
                  | Some rows \<Rightarrow>
                      (case folded c tf (rev rows) of
                         Inl err \<Rightarrow> Inl err
                       | Inr ks \<Rightarrow>
                           (let p = trimPage empty ks cap (int (length rows) = baseRowCap tf cap)
                            in Inr (if pgHasMore p \<and> pgCursor p = zero_time \<and> rows \<noteq> []
                                    then p\<lparr>pgCursor := cTS (last rows)\<rparr> else p))))))"

definition market_MaxPrimeBars :: int where "market_MaxPrimeBars = 5000"

record prime_request =
  pmSymbolID :: i64
  pmTimeframe :: string
  pmBefore :: time
  pmBars :: int

definition Prime_candles :: "calendar \<Rightarrow> store \<Rightarrow> prime_request \<Rightarrow> read_error + candle list" where
  "Prime_candles c db req =
     (let tf = pmTimeframe req
      in if \<not> tf_Valid tf then Inl (UnknownReadTimeframe tf)
         else if pmBars req < 1 \<or> pmBefore req = zero_time then Inr []
         else
           (let bars = min (pmBars req) market_MaxPrimeBars; base = tf_Base tf
            in case ListCandlesDesc db (pmSymbolID req) base zero_time (pmBefore req) (baseRowCap tf bars) of
                 None \<Rightarrow> Inl (ReadFailed base)
               | Some rows \<Rightarrow>
                   (case folded c tf (rev rows) of
                      Inl err \<Rightarrow> Inl err
                    | Inr ks \<Rightarrow>
                        Inr (pgCandles (trimPage \<lparr>pgTimeframe = '''', pgBase = '''', pgStart = zero_time, pgEnd = zero_time,
                               pgCandles = [], pgCursor = zero_time, pgHasMore = False\<rparr>
                               ks bars (int (length rows) = baseRowCap tf bars))))))"

record series =
  srTimeframe :: string
  srBase :: string
  srBaseBars :: int
  srBaseVolume :: i64
  srBaseHigh :: f64
  srBaseLow :: f64
  srCandles :: "candle list"

definition DefaultCandleLimit :: int where "DefaultCandleLimit = 50000"

text \<open>The volume, the highest and the lowest price of the candles read.\<close>

fun base_extremes :: "bool \<Rightarrow> candle list \<Rightarrow> series \<Rightarrow> series" where
  "base_extremes first [] s = s"
| "base_extremes first (k # ks) s =
     base_extremes False ks
       (s\<lparr>srBaseVolume := srBaseVolume s + cVolume k,
          srBaseHigh := (if first \<or> srBaseHigh s < cHigh k then cHigh k else srBaseHigh s),
          srBaseLow := (if first \<or> cLow k < srBaseLow s then cLow k else srBaseLow s)\<rparr>)"

definition series_of :: "string \<Rightarrow> string \<Rightarrow> candle list \<Rightarrow> series" where
  "series_of tf base ks =
     base_extremes True ks
       \<lparr>srTimeframe = tf, srBase = base, srBaseBars = int (length ks), srBaseVolume = 0, srBaseHigh = 0, srBaseLow = 0,
        srCandles = ks\<rparr>"

definition Load :: "calendar \<Rightarrow> store \<Rightarrow> i64 \<Rightarrow> string \<Rightarrow> time \<Rightarrow> time \<Rightarrow> int \<Rightarrow> read_error + series" where
  "Load c db symbol_id tf from_ts to_ts cap =
     (if \<not> tf_Valid tf then Inl (UnknownReadTimeframe tf)
      else
        (let (start, fin) = DayBounds c from_ts to_ts
         in case ListCandles db symbol_id (tf_Base tf) start fin (if cap < 1 then DefaultCandleLimit else cap) of
              None \<Rightarrow> Inl (ReadFailed (tf_Base tf))
            | Some ks \<Rightarrow>
                (case folded c tf ks of
                   Inl err \<Rightarrow> Inl err
                 | Inr out \<Rightarrow> Inr ((series_of tf (tf_Base tf) ks)\<lparr>srCandles := out\<rparr>))))"

section \<open>Runs of one bucket\<close>

text \<open>The maximal runs of consecutive elements with one key.\<close>

fun runs_by :: "('a \<Rightarrow> 'k) \<Rightarrow> 'a list \<Rightarrow> 'a list list" where
  "runs_by f [] = []"
| "runs_by f (x # xs) =
     (case runs_by f xs of
        [] \<Rightarrow> [[x]]
      | g # gs \<Rightarrow> if f x = f (hd g) then (x # g) # gs else [x] # g # gs)"

lemma runs_by_nonempty: "g \<in> set (runs_by f xs) \<Longrightarrow> g \<noteq> []"
  by (induction xs arbitrary: g) (auto split: list.splits if_splits)

lemma runs_by_concat: "concat (runs_by f xs) = xs"
  by (induction xs) (auto split: list.splits)

lemma runs_by_Nil [simp]: "runs_by f xs = [] \<longleftrightarrow> xs = []"
  by (cases xs) (auto split: list.splits)

lemma runs_by_hd: "xs \<noteq> [] \<Longrightarrow> hd (hd (runs_by f xs)) = hd xs"
  by (cases xs) (auto split: list.splits)

lemma runs_by_same: "g \<in> set (runs_by f xs) \<Longrightarrow> x \<in> set g \<Longrightarrow> f x = f (hd g)"
proof (induction xs arbitrary: g x)
  case (Cons y ys)
  then show ?case by (cases "runs_by f ys") (auto split: if_splits)
qed simp

lemma runs_by_suffix: "suffix (tl (runs_by f (drop k xs))) (tl (runs_by f xs))"
proof (induction xs arbitrary: k)
  case (Cons x xs)
  have one: "suffix (tl (runs_by f xs)) (tl (runs_by f (x # xs)))"
    by (cases "runs_by f xs") (auto simp: suffix_def)
  show ?case
  proof (cases k)
    case (Suc j)
    then show ?thesis using suffix_order.trans [OF Cons.IH [of j] one] by simp
  qed simp
qed simp

lemma runs_by_length: "(\<forall>g\<in>set (runs_by f xs). length g \<le> n) \<Longrightarrow> length xs \<le> n * length (runs_by f xs)"
proof -
  assume b: "\<forall>g\<in>set (runs_by f xs). length g \<le> n"
  have "length (concat gs) \<le> n * length gs" if "\<forall>g\<in>set gs. length g \<le> n" for gs :: "'a list list"
    using that by (induction gs) (auto simp: algebra_simps)
  from this [OF b] show ?thesis by (simp add: runs_by_concat)
qed

section \<open>Resampling folds the runs of a bucket\<close>

text \<open>The bar of a run: what the loop builds, and what it is.\<close>

definition fold_bar :: "time \<Rightarrow> candle list \<Rightarrow> candle" where
  "fold_bar b g = fold fold_in g (start_candle b (hd g))"

definition last_adjusted :: "candle list \<Rightarrow> f64 option" where
  "last_adjusted g = (case filter (\<lambda>k. cAdj k \<noteq> None) g of [] \<Rightarrow> None | ks \<Rightarrow> cAdj (last ks))"

definition bar_of :: "time \<Rightarrow> candle list \<Rightarrow> candle" where
  "bar_of b g =
     \<lparr>cTS = b, cOpen = cOpen (hd g), cHigh = fold (\<lambda>k h. go_max h (cHigh k)) g (cHigh (hd g)),
      cLow = fold (\<lambda>k l. go_min l (cLow k)) g (cLow (hd g)), cClose = cClose (last g),
      cAdj = last_adjusted g, cVolume = sum_list (map cVolume g)\<rparr>"

lemma fold_in_fields:
  "cTS (fold fold_in g x) = cTS x" "cOpen (fold fold_in g x) = cOpen x"
  "cHigh (fold fold_in g x) = fold (\<lambda>k h. go_max h (cHigh k)) g (cHigh x)"
  "cLow (fold fold_in g x) = fold (\<lambda>k l. go_min l (cLow k)) g (cLow x)"
  "cClose (fold fold_in g x) = (if g = [] then cClose x else cClose (last g))"
  "cVolume (fold fold_in g x) = cVolume x + sum_list (map cVolume g)"
  by (induction g arbitrary: x) (simp_all add: fold_in_def algebra_simps)

lemma fold_in_adjusted:
  "cAdj (fold fold_in g x) = (case last_adjusted g of None \<Rightarrow> cAdj x | Some a \<Rightarrow> Some a)"
proof (induction g arbitrary: x)
  case (Cons k g)
  show ?case
  proof (cases "filter (\<lambda>k. cAdj k \<noteq> None) g")
    case Nil
    then show ?thesis using Cons by (simp add: last_adjusted_def fold_in_def split: option.split)
  next
    case (Cons y ys)
    then have "last (y # ys) \<in> set (filter (\<lambda>k. cAdj k \<noteq> None) g)" by (metis last_in_set list.distinct(1))
    then obtain a where "cAdj (last (y # ys)) = Some a" by auto
    then show ?thesis using Cons.IH Cons by (simp add: last_adjusted_def)
  qed
qed (simp add: last_adjusted_def)

lemma fold_bar: "g \<noteq> [] \<Longrightarrow> fold_bar b g = bar_of b g"
  by (rule candle.equality)
     (simp_all add: fold_bar_def bar_of_def fold_in_fields fold_in_adjusted start_candle_def split: option.split)

text \<open>The bucket of a candle, and the base candles the loop accepts.\<close>

definition bucket_of :: "calendar \<Rightarrow> string \<Rightarrow> candle \<Rightarrow> time" where
  "bucket_of c tf k = (case BucketOpen c tf (cTS k) of Inl err \<Rightarrow> zero_time | Inr b \<Rightarrow> b)"

definition base_ok :: "calendar \<Rightarrow> string \<Rightarrow> time \<Rightarrow> candle \<Rightarrow> bool" where
  "base_ok c tf prev k \<longleftrightarrow>
     validate k = None \<and> (prev = zero_time \<or> prev < cTS k) \<and> BucketOpen c TF5m (cTS k) = Inr (cTS k) \<and>
     BucketOpen c tf (cTS k) = Inr (bucket_of c tf k)"

fun accepted :: "calendar \<Rightarrow> string \<Rightarrow> time \<Rightarrow> candle list \<Rightarrow> bool" where
  "accepted c tf prev [] = True"
| "accepted c tf prev (k # ks) = (base_ok c tf prev k \<and> accepted c tf (cTS k) ks)"

lemma check_base: "check_base c tf i prev k = Inr start \<longleftrightarrow> base_ok c tf prev k \<and> start = bucket_of c tf k"
  by (auto simp: check_base_def base_ok_def bucket_of_def split: option.splits if_splits sum.splits)

definition bars_of :: "calendar \<Rightarrow> string \<Rightarrow> candle list list \<Rightarrow> candle list" where
  "bars_of c tf gs = map (\<lambda>g. fold_bar (bucket_of c tf (hd g)) g) gs"

text \<open>What the loop adds to the candles it has flushed.\<close>

definition rest_bars :: "calendar \<Rightarrow> string \<Rightarrow> (time \<times> candle) option \<Rightarrow> candle list \<Rightarrow> candle list" where
  "rest_bars c tf cur ks =
     (case cur of
        None \<Rightarrow> bars_of c tf (runs_by (bucket_of c tf) ks)
      | Some (b, x) \<Rightarrow>
          (case runs_by (bucket_of c tf) ks of
             [] \<Rightarrow> [x]
           | g # gs \<Rightarrow>
               if bucket_of c tf (hd g) = b then fold fold_in g x # bars_of c tf gs else x # bars_of c tf (g # gs)))"

lemma rest_bars_step:
  "rest_bars c tf (Some (bucket_of c tf k, fold_in k (start_candle (bucket_of c tf k) k))) ks = rest_bars c tf None (k # ks)"
  "bucket_of c tf k = b \<Longrightarrow> rest_bars c tf (Some (b, fold_in k x)) ks = rest_bars c tf (Some (b, x)) (k # ks)"
  "bucket_of c tf k \<noteq> b \<Longrightarrow> rest_bars c tf (Some (b, x)) (k # ks) = x # rest_bars c tf None (k # ks)"
  by (auto simp: rest_bars_def bars_of_def fold_bar_def split: list.splits)

lemma resample_loop_runs:
  "resample_loop c tf i prev out cur ks = Inr r \<longleftrightarrow> accepted c tf prev ks \<and> r = out @ rest_bars c tf cur ks"
proof (induction c tf i prev out cur ks arbitrary: r rule: resample_loop.induct)
  case (1 c tf i prev out cur)
  then show ?case by (auto simp: rest_bars_def bars_of_def split: option.splits)
next
  case (2 c tf i prev out cur k ks)
  show ?case
  proof (cases "check_base c tf i prev k")
    case (Inl err)
    then have "\<not> base_ok c tf prev k" using check_base [of c tf i prev k "bucket_of c tf k"] by auto
    then show ?thesis using Inl by simp
  next
    case (Inr start)
    then have ok: "base_ok c tf prev k" "start = bucket_of c tf k" using check_base by blast+
    show ?thesis
    proof (cases cur)
      case None
      then show ?thesis using 2(1) [OF Inr None] Inr ok by (simp add: rest_bars_step(1))
    next
      case (Some p)
      then obtain b x where p: "cur = Some (b, x)" by (cases p) auto
      show ?thesis
      proof (cases "start = b")
        case True
        then show ?thesis using 2(2) [OF Inr p refl True] Inr ok p by (simp add: rest_bars_step(2))
      next
        case False
        then show ?thesis using 2(3) [OF Inr p refl False] Inr ok p by (simp add: rest_bars_step(1,3))
      qed
    qed
  qed
qed

lemma Resample_runs:
  assumes "tf_Valid tf" and "tf \<noteq> TF1d"
  shows "Resample (Some c) ks tf = Inr r \<longleftrightarrow> accepted c tf zero_time ks \<and> r = bars_of c tf (runs_by (bucket_of c tf) ks)"
  using assms by (simp add: Resample_def resample_loop_runs rest_bars_def)

text \<open>C37: Resampling is grouping. When it succeeds, the base candles, in strictly ascending order, are cut into the runs of
  consecutive candles of one bucket, and each run gives one candle: at the start of the bucket, with the
  first open, the extremes of the highs and lows, the last close, the last adjusted close there is, and
  the sum of the volumes.\<close>

theorem resample_groups:
  "case Resample (Some c) ks tf of
     Inl err \<Rightarrow> True
   | Inr out \<Rightarrow>
       out = map (\<lambda>g. bar_of (bucket_of c tf (hd g)) g) (runs_by (bucket_of c tf) ks) \<and>
       concat (runs_by (bucket_of c tf) ks) = ks \<and> sorted_wrt (<) (map cTS ks) \<and>
       sum_list (map cVolume out) = sum_list (map cVolume ks)"
proof (cases "Resample (Some c) ks tf")
  case (Inr out)
  then have tf: "tf_Valid tf" "tf \<noteq> TF1d" by (auto simp: Resample_def split: if_splits)
  have r: "accepted c tf zero_time ks" "out = bars_of c tf (runs_by (bucket_of c tf) ks)"
    using Resample_runs [OF tf] Inr by blast+
  have out: "out = map (\<lambda>g. bar_of (bucket_of c tf (hd g)) g) (runs_by (bucket_of c tf) ks)"
    unfolding r(2) bars_of_def by (intro map_cong refl fold_bar) (rule runs_by_nonempty)
  have "sum_list (map cVolume (map (\<lambda>g. bar_of (h g) g) gs)) = sum_list (map cVolume (concat gs))" for h and gs :: "candle list list"
    by (induction gs) (simp_all add: bar_of_def)
  then have vol: "sum_list (map cVolume out) = sum_list (map cVolume ks)" by (simp only: out runs_by_concat)
  have "accepted c tf prev ks \<Longrightarrow> sorted_wrt (<) (map cTS ks) \<and> (ks = [] \<or> prev = zero_time \<or> prev < cTS (hd ks))" for prev
  proof (induction ks arbitrary: prev)
    case (Cons k ks)
    then have k: "base_ok c tf prev k" "sorted_wrt (<) (map cTS ks)" "ks = [] \<or> cTS k = zero_time \<or> cTS k < cTS (hd ks)" by auto
    have "cTS k \<noteq> zero_time" using k(1) by (auto simp: base_ok_def validate_def)
    then have "\<forall>x\<in>set ks. cTS k < cTS x" using k(2,3) by (cases ks) auto
    then show ?case using k by (auto simp: base_ok_def)
  qed simp
  then show ?thesis using Inr out vol r(1) by (simp add: runs_by_concat)
qed simp

section \<open>A bucket holds a bounded number of base candles\<close>

lemma intraday_widths:
  "tf_Valid tf \<Longrightarrow> tf \<noteq> TF1d \<Longrightarrow> BucketWidth tf = BaseBars tf * BucketWidth TF5m \<and> 1 \<le> BaseBars tf \<and> BaseBars tf \<le> 12"
  by (auto simp: tf_Valid_def Timeframes_def BaseBars_def tf_Intraday_def BucketWidth_def BaseBucket_def minute_ns_def tdiv_def
      TF5m_def TF15m_def TF30m_def TF1h_def TF1d_def)

lemma width_5m: "BucketWidth TF5m = 5 * minute_ns" "0 < BucketWidth TF5m"
  by (simp_all add: BucketWidth_def minute_ns_def)

text \<open>A candle aligned to five minutes is a whole number of them into its bucket.\<close>

lemma aligned_offset:
  assumes tf: "tf_Valid tf" "tf \<noteq> TF1d" and ok: "base_ok c tf prev k"
  obtains j where "0 \<le> j" and "j < BaseBars tf" and "cTS k = bucket_of c tf k + j * BucketWidth TF5m"
proof -
  let ?v = "BucketWidth TF5m" and ?w = "BucketWidth tf"
  have a: "BucketOpen c TF5m (cTS k) = Inr (cTS k)" and b: "BucketOpen c tf (cTS k) = Inr (bucket_of c tf k)"
    using ok by (simp_all add: base_ok_def)
  have ne: "TF5m \<noteq> TF1d" by (simp add: TF5m_def TF1d_def)
  obtain s where s: "Session c (cTS k) = Some s" "seOpen s \<le> cTS k"
    using a ne by (auto simp: BucketOpen_def split: if_splits option.splits)
  define d where "d = time_sub (cTS k) (seOpen s)"
  have d0: "0 \<le> d" "d \<le> cTS k - seOpen s" using s(2) by (auto simp: d_def time_sub_def)
  have a': "cTS k = seOpen s + d div ?v * ?v"
    using a ne s d0(1) width_5m(2) by (auto simp: BucketOpen_def d_def [symmetric] tdiv_floor split: if_splits)
  have w: "0 < ?w" "?w = BaseBars tf * ?v" "1 \<le> BaseBars tf" using width_pos [OF tf] intraday_widths [OF tf] by simp_all
  have b': "bucket_of c tf k = seOpen s + d div ?w * ?w"
    using b tf s d0(1) w(1) by (auto simp: BucketOpen_def d_def [symmetric] tdiv_floor split: if_splits)
  define q where "q = d div ?v"
  have d: "d = q * ?v" using a' d0(2) div_bounds(1) [OF width_5m(2), of d] by (simp add: q_def)
  have "d div ?w = q div BaseBars tf"
    using width_5m(2) w(3) by (simp add: d w(2))
  then have e: "cTS k = bucket_of c tf k + (q - q div BaseBars tf * BaseBars tf) * ?v"
    using a' b' by (simp add: q_def [symmetric] w(2) algebra_simps)
  have m: "q - q div BaseBars tf * BaseBars tf = q mod BaseBars tf" by (simp add: minus_div_mult_eq_mod)
  show thesis by (rule that [of "q mod BaseBars tf"]) (use e m w(3) in auto)
qed

lemma accepted_all: "accepted c tf prev ks \<Longrightarrow> k \<in> set ks \<Longrightarrow> \<exists>p. base_ok c tf p k"
  by (induction ks arbitrary: prev) auto

lemma run_bounded:
  assumes tf: "tf_Valid tf" "tf \<noteq> TF1d" and acc: "accepted c tf prev ks" and asc: "sorted_wrt (<) (map cTS ks)"
    and g: "g \<in> set (runs_by (bucket_of c tf) ks)"
  shows "int (length g) \<le> BaseBars tf"
proof -
  let ?v = "BucketWidth TF5m" and ?b = "bucket_of c tf (hd g)"
  obtain before after where split: "runs_by (bucket_of c tf) ks = before @ g # after" using g by (meson split_list)
  then have "ks = concat before @ g @ concat after" using runs_by_concat [of "bucket_of c tf" ks] by simp
  then have asc_g: "sorted_wrt (<) (map cTS g)" and sub: "set g \<subseteq> set ks" using asc by (auto simp: sorted_wrt_append)
  define pos where "pos k = (cTS k - ?b) div ?v" for k :: candle
  have pos: "0 \<le> pos k \<and> pos k < BaseBars tf \<and> cTS k = ?b + pos k * ?v" if k: "k \<in> set g" for k
  proof -
    obtain p where p: "base_ok c tf p k" using accepted_all [OF acc] sub k by blast
    obtain j where j: "0 \<le> j" "j < BaseBars tf" "cTS k = bucket_of c tf k + j * ?v" by (rule aligned_offset [OF tf p])
    have "bucket_of c tf k = ?b" by (rule runs_by_same [OF g k])
    then show ?thesis using j width_5m(2) by (simp add: pos_def)
  qed
  have d: "distinct (map cTS g)" using asc_g by (simp add: strict_sorted_iff)
  have "inj_on pos (set g)"
  proof (rule inj_onI)
    fix x y assume xy: "x \<in> set g" "y \<in> set g" "pos x = pos y"
    then have "cTS x = cTS y" using pos by metis
    then show "x = y" using d xy by (auto simp: distinct_map dest: inj_onD)
  qed
  then have "card (pos ` set g) = length g" using d by (simp add: card_image distinct_card distinct_map)
  moreover have "pos ` set g \<subseteq> {0..<BaseBars tf}" using pos by auto
  ultimately have "length g \<le> nat (BaseBars tf)" using card_mono [of "{0..<BaseBars tf}" "pos ` set g"] by simp
  then show ?thesis using intraday_widths [OF tf] by linarith
qed

section \<open>Pages\<close>

lemma ascending_Cons:
  "sorted_wrt (<) (map cTS (k # ks)) \<longleftrightarrow> (ks = [] \<or> cTS k < cTS (hd ks)) \<and> sorted_wrt (<) (map cTS ks)"
  by (cases ks) auto

lemma accepted_iff:
  "accepted c tf prev ks \<longleftrightarrow>
     (ks = [] \<or> prev = zero_time \<or> prev < cTS (hd ks)) \<and>
     (\<forall>k\<in>set ks. base_ok c tf zero_time k) \<and> sorted_wrt (<) (map cTS ks)"
proof (induction ks arbitrary: prev)
  case (Cons k ks)
  have step: "base_ok c tf prev k \<longleftrightarrow> base_ok c tf zero_time k \<and> (prev = zero_time \<or> prev < cTS k)"
    by (auto simp: base_ok_def)
  have z: "base_ok c tf zero_time k \<Longrightarrow> cTS k \<noteq> zero_time" by (auto simp: base_ok_def validate_def)
  show ?case unfolding accepted.simps Cons.IH step ascending_Cons using z by auto
qed simp

lemma accepted_drop: "accepted c tf zero_time ks \<Longrightarrow> accepted c tf zero_time (drop n ks)"
  unfolding accepted_iff by (auto simp: sorted_wrt_drop drop_map [symmetric] dest: in_set_dropD)

lemma folded_runs:
  assumes "tf_Valid tf" and "tf \<noteq> tf_Base tf"
  shows "folded c tf ks = Inr out \<longleftrightarrow> accepted c tf zero_time ks \<and> out = bars_of c tf (runs_by (bucket_of c tf) ks)"
proof -
  have "tf \<noteq> TF1d" using assms by (auto simp: tf_Base_def)
  then show ?thesis using Resample_runs [OF assms(1), of c ks out] assms(2) by (auto simp: folded_def split: sum.splits)
qed

lemma last_n_suffix: "suffix ys xs \<Longrightarrow> n \<le> length ys \<Longrightarrow> last_n n ys = last_n n xs"
  by (auto simp: suffix_def last_n_def)

lemma bars_of_suffix: "suffix gs hs \<Longrightarrow> suffix (bars_of c tf gs) (bars_of c tf hs)"
  by (auto simp: suffix_def bars_of_def)

text \<open>What a read of the newest base candles folds to: with every base candle it is all of the history, and without its
  first, possibly partial, candle it is the newest part of it.\<close>

lemma folded_newest:
  assumes tf: "tf_Valid tf" and full: "folded c tf ks = Inr out" and n: "1 \<le> n"
    and cap: "cap = (if tf \<noteq> tf_Base tf then n * nat (BaseBars tf) + 1 else n + 1)" and many: "cap \<le> length ks"
  obtains part where "folded c tf (last_n cap ks) = Inr part" and "last_n n (tl part) = last_n n out"
    and "n \<le> length (tl part)" and "n < length out" and "part \<noteq> []"
proof (cases "tf = tf_Base tf")
  case True
  then have o: "out = ks" "folded c tf (last_n cap ks) = Inr (last_n cap ks)" using full by (auto simp: folded_def)
  have c: "cap = n + 1" using cap True by simp
  have "Suc (length ks - (n + 1)) = length ks - n" using many c by simp
  then have "tl (last_n cap ks) = last_n n ks" by (simp add: c last_n_def tl_drop drop_Suc [symmetric])
  moreover have "last_n cap ks \<noteq> []" using many c by (auto simp: last_n_def)
  ultimately show thesis using that o many c by (simp add: last_n_def)
next
  case False
  have d: "tf \<noteq> TF1d" using False by (auto simp: tf_Base_def)
  let ?f = "bucket_of c tf" and ?ys = "last_n cap ks"
  have acc: "accepted c tf zero_time ks" and out: "out = bars_of c tf (runs_by ?f ks)"
    using full folded_runs [OF tf False] by blast+
  have acc': "accepted c tf zero_time ?ys" using accepted_drop [OF acc] by (simp add: last_n_def)
  then have part: "folded c tf ?ys = Inr (bars_of c tf (runs_by ?f ?ys))" using folded_runs [OF tf False] by blast
  have asc: "sorted_wrt (<) (map cTS ?ys)" using acc' accepted_iff by blast
  let ?B = "nat (BaseBars tf)"
  have "length g \<le> ?B" if "g \<in> set (runs_by ?f ?ys)" for g
    using run_bounded [OF tf d acc' asc that] by simp
  then have "length ?ys \<le> ?B * length (runs_by ?f ?ys)" by (intro runs_by_length) blast
  moreover have "length ?ys = n * ?B + 1" using many cap False by simp
  ultimately have "Suc (n * ?B) \<le> ?B * length (runs_by ?f ?ys)" by linarith
  then have "n * ?B < length (runs_by ?f ?ys) * ?B" by (metis Suc_le_eq mult.commute)
  then have len: "n < length (runs_by ?f ?ys)" by (rule mult_less_cancel2 [THEN iffD1, THEN conjunct2])
  have suf: "suffix (tl (runs_by ?f ?ys)) (tl (runs_by ?f ks))"
    unfolding last_n_def by (rule runs_by_suffix)
  have "suffix (tl (runs_by ?f ks)) (runs_by ?f ks)" by (cases "runs_by ?f ks") (auto simp: suffix_def)
  then have "suffix (bars_of c tf (tl (runs_by ?f ?ys))) out"
    using suffix_order.trans [OF suf] bars_of_suffix unfolding out by blast
  moreover have "tl (bars_of c tf (runs_by ?f ?ys)) = bars_of c tf (tl (runs_by ?f ?ys))"
    by (simp add: bars_of_def map_tl)
  moreover have "n \<le> length (bars_of c tf (tl (runs_by ?f ?ys)))" using len by (simp add: bars_of_def)
  moreover have "n < length out"
  proof -
    have "length (tl (runs_by ?f ?ys)) \<le> length (tl (runs_by ?f ks))" by (rule suffix_length_le [OF suf])
    moreover have "runs_by ?f ks \<noteq> []" using many cap False by auto
    ultimately show ?thesis using len by (cases "runs_by ?f ks") (auto simp: out bars_of_def)
  qed
  moreover have "bars_of c tf (runs_by ?f ?ys) \<noteq> []" using len by (auto simp: bars_of_def)
  ultimately show thesis using that [OF part] last_n_suffix [of "bars_of c tf (tl (runs_by ?f ?ys))" out n] by presburger
qed

text \<open>The page trimmed from a read of the newest base candles.\<close>

lemma trimPage_newest:
  assumes "n = nat cap" and "1 \<le> cap"
    and "if truncated then part \<noteq> [] \<and> n \<le> length (tl part) \<and> n < length out \<and> last_n n (tl part) = last_n n out else part = out"
  shows "trimPage (p\<lparr>pgCandles := [], pgCursor := zero_time, pgHasMore := False\<rparr>) part cap truncated =
    p\<lparr>pgCandles := last_n n out, pgCursor := (if n < length out then cTS (hd (last_n n out)) else zero_time),
      pgHasMore := (n < length out)\<rparr>"
proof (cases truncated)
  case True
  have "drop (length (tl part) - n) (tl part) = last_n n out" using assms(3) True by (simp add: last_n_def)
  moreover have "last_n n out \<noteq> []" using assms True by (auto simp: last_n_def)
  moreover have "tl part = last_n n out" if "\<not> int (length (tl part)) > cap"
  proof -
    have "length (tl part) - n = 0" using that assms(1) by simp
    then show ?thesis using calculation(1) by (metis drop_0)
  qed
  ultimately show ?thesis using assms True by (auto simp: trimPage_def Let_def)
next
  case False
  have "drop (length out - n) out = last_n n out" by (simp add: last_n_def)
  moreover have "n < length out \<longleftrightarrow> int (length out) > cap" using assms(1,2) by linarith
  moreover have "n < length out \<Longrightarrow> last_n n out \<noteq> []" using assms(1,2) by (auto simp: last_n_def)
  ultimately show ?thesis using assms(1,3) False by (auto simp: trimPage_def Let_def)
qed

lemma read_newest: "ListCandlesDesc db s tf lo hi (int cap) =
    map_option (\<lambda>ks. rev (last_n cap (filter (in_range lo hi) ks))) (db s tf)"
  by (simp add: ListCandlesDesc_def take_rev last_n_def)

lemma baseRowCap_small:
  assumes "tf_Valid tf" and "1 \<le> cap" and "cap \<le> 5000" and "n = nat cap"
  shows "baseRowCap tf cap = int (if tf \<noteq> tf_Base tf then n * nat (BaseBars tf) + 1 else n + 1)"
proof (cases "tf = tf_Base tf")
  case True
  then show ?thesis using assms by (simp add: baseRowCap_def)
next
  case False
  then have "tf \<noteq> TF1d" by (auto simp: tf_Base_def)
  then have b: "1 \<le> BaseBars tf" "BaseBars tf \<le> 12" using intraday_widths [OF assms(1)] by simp_all
  define k where "k = cap * BaseBars tf"
  have "k \<le> 5000 * 12" unfolding k_def using assms b by (intro mult_mono) simp_all
  moreover have "0 \<le> k" unfolding k_def using assms b by simp
  ultimately have "baseRowCap tf cap = k + 1" using False by (simp add: baseRowCap_def k_def [symmetric])
  moreover have "int (n * nat (BaseBars tf)) = k" unfolding k_def using assms b by simp
  ultimately show ?thesis using False by simp
qed

text \<open>What folding the rows of a capped read and trimming gives, from what folding all of them gives.\<close>

lemma capped_read:
  assumes tf: "tf_Valid tf" and full: "folded c tf ks = Inr out" and cap: "1 \<le> cap" "cap \<le> 5000"
    and rows: "rows = rev (last_n (nat (baseRowCap tf cap)) ks)"
  obtains part where "folded c tf (rev rows) = Inr part"
    and "trimPage (p\<lparr>pgCandles := [], pgCursor := zero_time, pgHasMore := False\<rparr>) part cap (int (length rows) = baseRowCap tf cap) =
      p\<lparr>pgCandles := last_n (nat cap) out, pgCursor := (if nat cap < length out then cTS (hd (last_n (nat cap) out)) else zero_time),
        pgHasMore := (nat cap < length out)\<rparr>"
proof -
  define n where "n = nat cap"
  define m where "m = (if tf \<noteq> tf_Base tf then n * nat (BaseBars tf) + 1 else n + 1)"
  have r: "baseRowCap tf cap = int m" using baseRowCap_small [OF tf cap n_def] by (simp add: m_def)
  have n: "1 \<le> n" using cap by (simp add: n_def)
  have trunc: "int (length rows) = baseRowCap tf cap \<longleftrightarrow> m \<le> length ks" by (auto simp: rows r)
  show thesis
  proof (cases "m \<le> length ks")
    case True
    obtain part where part: "folded c tf (last_n m ks) = Inr part" "last_n n (tl part) = last_n n out"
      "n \<le> length (tl part)" "n < length out" "part \<noteq> []"
      by (rule folded_newest [OF tf full n m_def True])
    show thesis
      using that [of part] part trunc True trimPage_newest [OF n_def cap(1), of True part out p] by (simp add: rows r n_def)
  next
    case False
    then have "rev rows = ks" by (simp add: rows r)
    then show thesis
      using that [of out] full trunc False trimPage_newest [OF n_def cap(1), of False out out p] by (simp add: n_def)
  qed
qed

text \<open>A page is the newest part of its range. Whatever the timeframe, and although at most a capped number of stored
  candles is read, the candles of a page are the last ones of the timeframe's whole history over the
  range, as many as the limit; there are more exactly when that history is longer, and the cursor is then
  the first candle of the page.\<close>

theorem page_is_newest:
  "let tf = prTimeframe req; n = nat (ClampPageLimit (prLimit req));
       (start, bound) = DayBounds c (prFrom req) (prTo req); fin = page_end req bound
   in if tf_Valid tf \<and> start < fin then
        (case db (prSymbolID req) (tf_Base tf) of
           None \<Rightarrow> Page c db req = Inl (ReadFailed (tf_Base tf))
         | Some table \<Rightarrow>
             (case folded c tf (filter (in_range start fin) table) of
                Inl err \<Rightarrow> True
              | Inr out \<Rightarrow>
                  if list_ex (\<lambda>k. cTS k = zero_time) out then True
                  else Page c db req = Inr \<lparr>pgTimeframe = tf, pgBase = tf_Base tf, pgStart = start, pgEnd = fin,
                    pgCandles = last_n n out, pgCursor = (if n < length out then cTS (hd (last_n n out)) else zero_time),
                    pgHasMore = (n < length out)\<rparr>))
      else True"
proof -
  define tf where "tf = prTimeframe req"
  define cap where "cap = ClampPageLimit (prLimit req)"
  obtain start bound where db: "DayBounds c (prFrom req) (prTo req) = (start, bound)" by force
  define fin where "fin = page_end req bound"
  have cap: "1 \<le> cap" "cap \<le> 5000" by (auto simp: cap_def ClampPageLimit_def DefaultPageLimit_def MaxPageLimit_def)
  let ?p = "\<lparr>pgTimeframe = tf, pgBase = tf_Base tf, pgStart = start, pgEnd = fin, pgCandles = [], pgCursor = zero_time,
              pgHasMore = False\<rparr>"
  have none: "Page c db req = Inl (ReadFailed (tf_Base tf))"
    if "tf_Valid tf" "start < fin" "db (prSymbolID req) (tf_Base tf) = None"
    using that by (simp add: Page_def tf_def [symmetric] db fin_def [symmetric] Let_def ListCandlesDesc_def)
  have some: "Page c db req = Inr (?p\<lparr>pgCandles := last_n (nat cap) out,
      pgCursor := (if nat cap < length out then cTS (hd (last_n (nat cap) out)) else zero_time), pgHasMore := (nat cap < length out)\<rparr>)"
    if v: "tf_Valid tf" "start < fin" and t: "db (prSymbolID req) (tf_Base tf) = Some table"
      and o: "folded c tf (filter (in_range start fin) table) = Inr out" and z: "\<not> list_ex (\<lambda>k. cTS k = zero_time) out" for table out
  proof -
    define rows where "rows = rev (last_n (nat (baseRowCap tf cap)) (filter (in_range start fin) table))"
    obtain part where part: "folded c tf (rev rows) = Inr part"
      and tr: "trimPage (?p\<lparr>pgCandles := [], pgCursor := zero_time, pgHasMore := False\<rparr>) part cap (int (length rows) = baseRowCap tf cap) =
        ?p\<lparr>pgCandles := last_n (nat cap) out, pgCursor := (if nat cap < length out then cTS (hd (last_n (nat cap) out)) else zero_time),
          pgHasMore := (nat cap < length out)\<rparr>"
      by (rule capped_read [OF v(1) o cap rows_def])
    have "0 \<le> baseRowCap tf cap" by (simp add: baseRowCap_def Let_def)
    then have rd: "ListCandlesDesc db (prSymbolID req) (tf_Base tf) start fin (baseRowCap tf cap) = Some rows"
      using read_newest [of db "prSymbolID req" "tf_Base tf" start fin "nat (baseRowCap tf cap)"] t by (simp add: rows_def)
    have nz: "cTS (hd (last_n (nat cap) out)) \<noteq> zero_time" if "nat cap < length out"
    proof -
      have "last_n (nat cap) out \<noteq> []" using that cap by (auto simp: last_n_def)
      then have "hd (last_n (nat cap) out) \<in> set out" by (rule subsetD [OF set_last_n hd_in_set])
      then show ?thesis using z by (auto simp: list_ex_iff)
    qed
    define q where "q = ?p\<lparr>pgCandles := last_n (nat cap) out,
      pgCursor := (if nat cap < length out then cTS (hd (last_n (nat cap) out)) else zero_time), pgHasMore := (nat cap < length out)\<rparr>"
    have tq: "trimPage ?p part cap (int (length rows) = baseRowCap tf cap) = q" unfolding q_def using tr by simp
    have "\<not> (pgHasMore q \<and> pgCursor q = zero_time)" using nz by (simp add: q_def)
    then have keep: "(pgHasMore q \<and> pgCursor q = zero_time \<and> rows \<noteq> []) = False" by blast
    have "Page c db req = Inr q"
      unfolding Page_def tf_def [symmetric] db cap_def [symmetric] Let_def prod.case fin_def [symmetric]
      by (simp only: rd option.case part sum.case tq keep v not_True_eq_False if_False)
    then show ?thesis by (simp only: q_def)
  qed
  show ?thesis
    using none some by (auto simp: Let_def db tf_def [symmetric] fin_def [symmetric] cap_def [symmetric] split: option.split sum.split)
qed

text \<open>Priming reads the newest candles before an instant: as many of the timeframe's history as asked for, at most
  5000, however few base candles are read for them.\<close>

theorem prime_is_newest:
  "if tf_Valid (pmTimeframe req) \<and> 1 \<le> pmBars req \<and> pmBefore req \<noteq> zero_time then
     (case db (pmSymbolID req) (tf_Base (pmTimeframe req)) of
        None \<Rightarrow> Prime_candles c db req = Inl (ReadFailed (tf_Base (pmTimeframe req)))
      | Some table \<Rightarrow>
          (case folded c (pmTimeframe req) (filter (in_range zero_time (pmBefore req)) table) of
             Inl err \<Rightarrow> True
           | Inr out \<Rightarrow> Prime_candles c db req = Inr (last_n (nat (min (pmBars req) market_MaxPrimeBars)) out)))
   else True"
proof -
  define tf where "tf = pmTimeframe req"
  define cap where "cap = min (pmBars req) market_MaxPrimeBars"
  have some: "Prime_candles c db req = Inr (last_n (nat cap) out)"
    if v: "tf_Valid tf" "1 \<le> pmBars req" "pmBefore req \<noteq> zero_time" and t: "db (pmSymbolID req) (tf_Base tf) = Some table"
      and o: "folded c tf (filter (in_range zero_time (pmBefore req)) table) = Inr out" for table out
  proof -
    have cap: "1 \<le> cap" "cap \<le> 5000" using v(2) by (simp_all add: cap_def market_MaxPrimeBars_def)
    let ?p = "\<lparr>pgTimeframe = [], pgBase = [], pgStart = zero_time, pgEnd = zero_time, pgCandles = [], pgCursor = zero_time,
      pgHasMore = False\<rparr>"
    define rows where "rows = rev (last_n (nat (baseRowCap tf cap)) (filter (in_range zero_time (pmBefore req)) table))"
    obtain part where part: "folded c tf (rev rows) = Inr part"
      and tr: "trimPage (?p\<lparr>pgCandles := [], pgCursor := zero_time, pgHasMore := False\<rparr>) part cap (int (length rows) = baseRowCap tf cap) =
        ?p\<lparr>pgCandles := last_n (nat cap) out, pgCursor := (if nat cap < length out then cTS (hd (last_n (nat cap) out)) else zero_time),
          pgHasMore := (nat cap < length out)\<rparr>"
      by (rule capped_read [OF v(1) o cap rows_def])
    have "0 \<le> baseRowCap tf cap" by (simp add: baseRowCap_def Let_def)
    then have "ListCandlesDesc db (pmSymbolID req) (tf_Base tf) zero_time (pmBefore req) (baseRowCap tf cap) = Some rows"
      using read_newest [of db "pmSymbolID req" "tf_Base tf" zero_time "pmBefore req" "nat (baseRowCap tf cap)"] t by (simp add: rows_def)
    then show ?thesis
      using v part tr by (simp add: Prime_candles_def tf_def [symmetric] cap_def [symmetric] Let_def)
  qed
  have "Prime_candles c db req = Inl (ReadFailed (tf_Base tf))"
    if "tf_Valid tf" "1 \<le> pmBars req" "pmBefore req \<noteq> zero_time" "db (pmSymbolID req) (tf_Base tf) = None"
    using that by (simp add: Prime_candles_def tf_def [symmetric] Let_def ListCandlesDesc_def)
  then show ?thesis
    using some by (auto simp: tf_def [symmetric] cap_def [symmetric] split: option.split sum.split)
qed

end
