(* ===== verification/Futures.thy ===== *)
theory Futures
  imports Resample
begin

text \<open>
  Continuous futures series (internal/market/futures.go), the reads built on them (service.go) and the report of
  missing bars (gaps.go). The days of the quotes are dates of the database, read in UTC. The candidates of
  a day are few, and \<open>slices.SortFunc\<close> sorts up to twelve of them in a stable way; a stable sort is what
  the model uses.
\<close>

record quote =
  qtSymbol :: string
  qtExpiration :: time
  qtMultiplier :: f64
  qtDay :: time
  qtSettlement :: f64
  qtHigh :: "f64 option"
  qtLow :: "f64 option"
  qtClose :: "f64 option"
  qtAverage :: "f64 option"
  qtVolume :: "i64 option"
  qtTrades :: "i64 option"

record cbar =
  cbDay :: time
  cbSymbol :: string
  cbSettlement :: f64
  cbAdjustment :: f64
  cbTraded :: bool
  cbVolume :: i64
  cbRoll :: bool

record roll =
  roDay :: time
  roFrom :: string
  roTo :: string
  roGap :: f64
  roMeasured :: bool

record continuous =
  coRoot :: string
  coMultiplier :: f64
  coBars :: "cbar list"
  coRolls :: "roll list"

record continuous_options =
  opRollOffsetDays :: int
  opBackAdjust :: bool

datatype continuous_error = NoRoot | NegativeOffset int

definition utc_key :: "time \<Rightarrow> string" where
  "utc_key t = format_date (t div day_ns)"

text \<open>The quotes of a day, in the order they came in.\<close>

definition quotes_on :: "quote list \<Rightarrow> time \<Rightarrow> quote list" where
  "quotes_on qs day = filter (\<lambda>q. utc_key (qtDay q) = utc_key day) qs"

text \<open>The days of the quotes, each as first seen.\<close>

fun first_days :: "string list \<Rightarrow> quote list \<Rightarrow> time list" where
  "first_days seen [] = []"
| "first_days seen (q # qs) =
     (let key = utc_key (qtDay q)
      in if key \<in> set seen then first_days seen qs else qtDay q # first_days (key # seen) qs)"

definition frontContract :: "quote list \<Rightarrow> time \<Rightarrow> int \<Rightarrow> quote option" where
  "frontContract qs day offsetDays =
     (let cutoff = day + offsetDays * day_ns;
          candidates = filter (\<lambda>q. \<not> qtExpiration q < cutoff) qs
      in case sort_key qtExpiration candidates of [] \<Rightarrow> None | q # _ \<Rightarrow> Some q)"

definition settlementOf :: "quote list \<Rightarrow> string \<Rightarrow> f64 option" where
  "settlementOf qs name = map_option qtSettlement (find (\<lambda>q. qtSymbol q = name) qs)"

text \<open>The loop of \<open>rollGap\<close> on the days used, latest first.\<close>

fun gap_on :: "quote list \<Rightarrow> string \<Rightarrow> string \<Rightarrow> time list \<Rightarrow> f64 \<times> bool" where
  "gap_on qs old new [] = (0, False)"
| "gap_on qs old new (day # days) =
     (case settlementOf (quotes_on qs day) old of
        None \<Rightarrow> gap_on qs old new days
      | Some out \<Rightarrow>
          (case settlementOf (quotes_on qs day) new of
             None \<Rightarrow> gap_on qs old new days
           | Some inn \<Rightarrow> (inn - out, True)))"

definition rollGap :: "quote list \<Rightarrow> time list \<Rightarrow> string \<Rightarrow> string \<Rightarrow> f64 \<times> bool" where
  "rollGap qs history old new = gap_on qs old new (rev history)"

text \<open>The loop over the days, with the contract of the previous bar and the days used.\<close>

fun continuous_from :: "quote list \<Rightarrow> int \<Rightarrow> string \<Rightarrow> time list \<Rightarrow> time list \<Rightarrow> cbar list \<times> roll list" where
  "continuous_from qs offset previous used [] = ([], [])"
| "continuous_from qs offset previous used (day # days) =
     (case frontContract (quotes_on qs day) day offset of
        None \<Rightarrow> continuous_from qs offset previous used days
      | Some front \<Rightarrow>
          (let rolls = (previous \<noteq> [] \<and> qtSymbol front \<noteq> previous);
               bar = \<lparr>cbDay = day, cbSymbol = qtSymbol front, cbSettlement = qtSettlement front, cbAdjustment = 0,
                      cbTraded = (qtClose front \<noteq> None), cbVolume = (case qtVolume front of None \<Rightarrow> 0 | Some n \<Rightarrow> n), cbRoll = rolls\<rparr>;
               (gap, measured) = rollGap qs used previous (qtSymbol front);
               here = (if rolls then [\<lparr>roDay = day, roFrom = previous, roTo = qtSymbol front, roGap = gap, roMeasured = measured\<rparr>] else []);
               (bars, others) = continuous_from qs offset (qtSymbol front) (used @ [day]) days
           in (bar # bars, here @ others)))"

text \<open>The loop of \<open>backAdjust\<close>, latest bar first.\<close>

fun adjust_from :: "(string \<rightharpoonup> f64) \<Rightarrow> f64 \<Rightarrow> cbar list \<Rightarrow> cbar list" where
  "adjust_from gaps offset [] = []"
| "adjust_from gaps offset (b # bs) =
     b\<lparr>cbAdjustment := offset, cbSettlement := cbSettlement b + offset\<rparr> #
     adjust_from gaps (case gaps (utc_key (cbDay b)) of None \<Rightarrow> offset | Some g \<Rightarrow> offset + g) bs"

definition gaps_of :: "roll list \<Rightarrow> string \<rightharpoonup> f64" where
  "gaps_of rolls = map_of (rev (map (\<lambda>r. (utc_key (roDay r), roGap r)) rolls))"

definition backAdjust :: "continuous \<Rightarrow> continuous" where
  "backAdjust s =
     (if coRolls s = [] then s else s\<lparr>coBars := rev (adjust_from (gaps_of (coRolls s)) 0 (rev (coBars s)))\<rparr>)"

definition BuildContinuous :: "string \<Rightarrow> quote list \<Rightarrow> continuous_options \<Rightarrow> continuous_error + continuous" where
  "BuildContinuous root0 qs opts =
     (let root_name = to_upper (trim_space root0)
      in if root_name = [] then Inl NoRoot
         else if opRollOffsetDays opts < 0 then Inl (NegativeOffset (opRollOffsetDays opts))
         else
           (let days = sort (first_days [] qs);
                (bars, rolls) = continuous_from qs (opRollOffsetDays opts) [] [] days;
                s = \<lparr>coRoot = root_name, coMultiplier = (case qs of [] \<Rightarrow> 0 | _ \<Rightarrow> qtMultiplier (last qs)), coBars = bars, coRolls = rolls\<rparr>
            in Inr (if opBackAdjust opts then backAdjust s else s)))"

section \<open>Reads of a continuous series\<close>

datatype futures_error = NotDaily string string | QuotesFailed string | BadSeries continuous_error

text \<open>The quotes of a root, in the order of the query, \<open>None\<close> where the read fails.\<close>

type_synonym quote_store = "string \<Rightarrow> time \<Rightarrow> time \<Rightarrow> quote list option"

definition bar_candle :: "calendar \<Rightarrow> cbar \<Rightarrow> candle" where
  "bar_candle c b =
     \<lparr>cTS = (case Session c (cbDay b) of None \<Rightarrow> cbDay b | Some s \<Rightarrow> seOpen s), cOpen = cbSettlement b, cHigh = cbSettlement b,
      cLow = cbSettlement b, cClose = cbSettlement b, cAdj = None, cVolume = cbVolume b\<rparr>"

definition LoadContinuous :: "calendar \<Rightarrow> quote_store \<Rightarrow> string \<Rightarrow> string \<Rightarrow> time \<Rightarrow> time \<Rightarrow> continuous_options \<Rightarrow> futures_error + series" where
  "LoadContinuous c quotes root_name tf from_ts to_ts opts =
     (if tf \<noteq> TF1d then Inl (NotDaily tf root_name)
      else
        (case quotes (to_upper (trim_space root_name)) from_ts to_ts of
           None \<Rightarrow> Inl (QuotesFailed root_name)
         | Some qs \<Rightarrow>
             (case BuildContinuous root_name qs opts of
                Inl err \<Rightarrow> Inl (BadSeries err)
              | Inr s \<Rightarrow> Inr (series_of tf tf (map (bar_candle c) (coBars s))))))"

definition PageContinuous :: "calendar \<Rightarrow> quote_store \<Rightarrow> string \<Rightarrow> page_request \<Rightarrow> continuous_options \<Rightarrow> futures_error + page" where
  "PageContinuous c quotes root_name req opts =
     (case LoadContinuous c quotes root_name (prTimeframe req) (prFrom req) (prTo req) opts of
        Inl err \<Rightarrow> Inl err
      | Inr s \<Rightarrow>
          (let ks = (if prBefore req = zero_time then srCandles s else takeWhile (\<lambda>k. cTS k < prBefore req) (srCandles s));
               cap = (if prLimit req < 1 then DefaultPageLimit else prLimit req);
               p = \<lparr>pgTimeframe = prTimeframe req, pgBase = prTimeframe req, pgStart = prFrom req, pgEnd = prTo req,
                    pgCandles = ks, pgCursor = zero_time, pgHasMore = False\<rparr>
           in Inr (if int (length ks) > cap
                   then (let newest = drop (length ks - nat cap) ks
                         in p\<lparr>pgCandles := newest, pgHasMore := True, pgCursor := cTS (hd newest)\<rparr>) else p)))"

section \<open>Missing bars\<close>

record coverage =
  cvDay :: time
  cvExpected :: int
  cvPresent :: int

record gap_report =
  grTimeframe :: string
  grFrom :: time
  grTo :: time
  grSessions :: int
  grExpected :: int
  grBars :: int
  grMissing :: "time list"
  grPartial :: "coverage list"
  grUnexpected :: "time list"

definition gap_Clean :: "gap_report \<Rightarrow> bool" where
  "gap_Clean r \<longleftrightarrow> grMissing r = [] \<and> grUnexpected r = []"

datatype gap_error = GapNoCalendar | GapNotStored string | GapBackwards

text \<open>The counts by day of the bars present.\<close>

definition bars_on :: "calendar \<Rightarrow> time list \<Rightarrow> string \<Rightarrow> int" where
  "bars_on c present key =
     int (length (filter (\<lambda>ts. case SessionAt c ts of None \<Rightarrow> False | Some s \<Rightarrow> dateKey (calLoc c) (seDay s) = key) present))"

text \<open>One day of the report.\<close>

definition gap_day :: "calendar \<Rightarrow> string \<Rightarrow> time list \<Rightarrow> time \<Rightarrow> gap_report \<Rightarrow> gap_report" where
  "gap_day c tf present day r =
     (case Session c day of
        None \<Rightarrow> r
      | Some s \<Rightarrow>
          (let expected = BucketCount tf s;
               found = bars_on c present (dateKey (calLoc c) (seDay s));
               r1 = r\<lparr>grSessions := grSessions r + 1, grExpected := grExpected r + expected\<rparr>
           in if found = 0 then r1\<lparr>grMissing := grMissing r1 @ [seDay s]\<rparr>
              else if found < expected
                then r1\<lparr>grPartial := grPartial r1 @ [\<lparr>cvDay = seDay s, cvExpected = expected, cvPresent = found\<rparr>]\<rparr>
              else r1))"

text \<open>\<open>None\<close> in the answer is the loop of \<open>TradingDays\<close> not ending.\<close>

definition FindGaps :: "calendar option \<Rightarrow> string \<Rightarrow> time \<Rightarrow> time \<Rightarrow> time list \<Rightarrow> (gap_error + gap_report) option" where
  "FindGaps cal tf from_ts to_ts present =
     (case cal of
        None \<Rightarrow> Some (Inl GapNoCalendar)
      | Some c \<Rightarrow>
          if \<not> tf_Stored tf then Some (Inl (GapNotStored tf))
          else if to_ts < from_ts then Some (Inl GapBackwards)
          else
            (let inside = filter (\<lambda>ts. SessionAt c ts \<noteq> None) present;
                 outside = filter (\<lambda>ts. SessionAt c ts = None) present;
                 r = \<lparr>grTimeframe = tf, grFrom = from_ts, grTo = to_ts, grSessions = 0, grExpected = 0, grBars = int (length inside),
                      grMissing = [], grPartial = [], grUnexpected = sort outside\<rparr>
             in map_option (\<lambda>days. Inr (fold (gap_day c tf present) days r)) (TradingDays c from_ts to_ts)))"

section \<open>The front contract and the rolls\<close>

lemma frontContract_spec:
  assumes "frontContract qs day offset = Some q"
  shows "q \<in> set qs" and "day + offset * day_ns \<le> qtExpiration q"
    and "r \<in> set qs \<Longrightarrow> day + offset * day_ns \<le> qtExpiration r \<Longrightarrow> qtExpiration q \<le> qtExpiration r"
proof -
  let ?c = "filter (\<lambda>q. \<not> qtExpiration q < day + offset * day_ns) qs"
  obtain rest where s: "sort_key qtExpiration ?c = q # rest"
    using assms by (auto simp: frontContract_def Let_def split: list.splits)
  have set_c: "set (q # rest) = set ?c" unfolding s [symmetric] by simp
  then have "q \<in> set ?c" by auto
  then show "q \<in> set qs" "day + offset * day_ns \<le> qtExpiration q" by auto
  have "sorted (map qtExpiration (q # rest))" unfolding s [symmetric] by simp
  then show "r \<in> set qs \<Longrightarrow> day + offset * day_ns \<le> qtExpiration r \<Longrightarrow> qtExpiration q \<le> qtExpiration r"
    using set_c by (auto dest: equalityD2)
qed

lemma frontContract_None: "frontContract qs day offset = None \<longleftrightarrow> (\<forall>q\<in>set qs. qtExpiration q < day + offset * day_ns)"
proof -
  let ?c = "filter (\<lambda>q. \<not> qtExpiration q < day + offset * day_ns) qs"
  have "frontContract qs day offset = None \<longleftrightarrow> sort_key qtExpiration ?c = []"
    by (auto simp: frontContract_def Let_def split: list.splits)
  also have "\<dots> \<longleftrightarrow> ?c = []" using length_sort [of qtExpiration ?c] by (simp only: length_0_conv [symmetric])
  finally show ?thesis by (auto simp: filter_empty_conv)
qed

text \<open>What one bar of an unadjusted series says of its day.\<close>

definition bar_front :: "quote list \<Rightarrow> int \<Rightarrow> cbar \<Rightarrow> bool" where
  "bar_front qs offset b \<longleftrightarrow>
     (\<exists>q\<in>set (quotes_on qs (cbDay b)).
        cbSymbol b = qtSymbol q \<and> cbSettlement b = qtSettlement q \<and> cbAdjustment b = 0 \<and>
        cbDay b + offset * day_ns \<le> qtExpiration q \<and>
        (\<forall>r\<in>set (quotes_on qs (cbDay b)). cbDay b + offset * day_ns \<le> qtExpiration r \<longrightarrow> qtExpiration q \<le> qtExpiration r))"

text \<open>The rolls of a series of bars: where the symbol changes.\<close>

fun symbol_changes :: "string \<Rightarrow> cbar list \<Rightarrow> (time \<times> string \<times> string) list" where
  "symbol_changes previous [] = []"
| "symbol_changes previous (b # bs) =
     (if previous \<noteq> [] \<and> cbSymbol b \<noteq> previous then [(cbDay b, previous, cbSymbol b)] else []) @ symbol_changes (cbSymbol b) bs"

lemma continuous_from_bars:
  "continuous_from qs offset previous used days = (bars, rolls) \<Longrightarrow>
   map cbDay bars = filter (\<lambda>d. frontContract (quotes_on qs d) d offset \<noteq> None) days \<and> list_all (bar_front qs offset) bars \<and>
   map (\<lambda>r. (roDay r, roFrom r, roTo r)) rolls = symbol_changes previous bars \<and>
   map roDay rolls = map cbDay (filter cbRoll bars)"
proof (induction days arbitrary: previous used bars rolls)
  case (Cons day days)
  show ?case
  proof (cases "frontContract (quotes_on qs day) day offset")
    case None
    then show ?thesis using Cons by simp
  next
    case (Some q)
    obtain bars' rolls' where r: "continuous_from qs offset (qtSymbol q) (used @ [day]) days = (bars', rolls')" by force
    note F = frontContract_spec [OF Some]
    have "bar_front qs offset (hd bars)"
      using Cons.prems Some r F unfolding bar_front_def
      by (auto simp: Let_def split: prod.splits)
    then show ?thesis
      using Cons.prems Some r Cons.IH [OF r] by (auto simp: Let_def split: prod.splits)
  qed
qed auto

section \<open>Back adjustment\<close>

text \<open>The offset of a day: the gaps of the rolls after it, latest first.\<close>

definition offset_of :: "roll list \<Rightarrow> time \<Rightarrow> f64" where
  "offset_of rolls day = fold (\<lambda>r acc. acc + roGap r) (rev (filter (\<lambda>r. day < roDay r) rolls)) 0"

definition adjusted :: "roll list \<Rightarrow> cbar \<Rightarrow> cbar" where
  "adjusted rolls b =
     b\<lparr>cbAdjustment := offset_of rolls (cbDay b), cbSettlement := cbSettlement b + offset_of rolls (cbDay b)\<rparr>"

lemma gaps_of_lookup:
  assumes "distinct (map (\<lambda>r. utc_key (roDay r)) rolls)"
  shows "gaps_of rolls key = map_option roGap (find (\<lambda>r. utc_key (roDay r) = key) rolls)"
proof -
  let ?al = "map (\<lambda>r. (utc_key (roDay r), roGap r)) rolls"
  have "distinct (map fst ?al)" "distinct (map fst (rev ?al))" using assms by (simp_all add: o_def rev_map [symmetric])
  then have "map_of (rev ?al) = map_of ?al" using map_of_inject_set [of "rev ?al" ?al] by simp
  moreover have "map_of ?al key = map_option roGap (find (\<lambda>r. utc_key (roDay r) = key) rolls)"
    by (induction rolls) auto
  ultimately show ?thesis by (simp add: gaps_of_def)
qed

lemma offset_step:
  assumes asc: "sorted_wrt (<) (map roDay rolls)" and lt: "d2 < d"
    and between: "\<forall>r\<in>set rolls. d2 < roDay r \<longrightarrow> d \<le> roDay r"
  shows "offset_of rolls d2 = (case find (\<lambda>r. roDay r = d) rolls of None \<Rightarrow> offset_of rolls d | Some r \<Rightarrow> offset_of rolls d + roGap r)"
proof -
  have "filter (\<lambda>r. d2 < roDay r) rs = (case find (\<lambda>r. roDay r = d) rs of None \<Rightarrow> [] | Some r \<Rightarrow> [r]) @ filter (\<lambda>r. d < roDay r) rs"
    if "sorted_wrt (<) (map roDay rs)" "\<forall>r\<in>set rs. d2 < roDay r \<longrightarrow> d \<le> roDay r" for rs
    using that
  proof (induction rs)
    case (Cons r rs)
    consider "roDay r \<le> d2" | "roDay r = d" | "d < roDay r" using Cons.prems(2) by force
    then show ?case
    proof cases
      case 2
      then have "\<forall>x\<in>set rs. d < roDay x" using Cons.prems(1) by simp
      then have "find (\<lambda>r. roDay r = d) rs = None" "filter (\<lambda>r. d2 < roDay r) rs = rs" "filter (\<lambda>r. d < roDay r) rs = rs"
        using lt by (auto simp: find_None_iff intro!: filter_True)
      then show ?thesis using 2 lt by simp
    next
      case 3
      then have "\<forall>x\<in>set rs. d < roDay x" using Cons.prems(1) by auto
      then have "find (\<lambda>r. roDay r = d) rs = None" by (auto simp: find_None_iff)
      then show ?thesis using 3 lt Cons by auto
    qed (use Cons lt in auto)
  qed simp
  from this [OF asc between] show ?thesis by (simp add: offset_of_def split: option.split)
qed

lemma adjust_from_offsets:
  assumes "sorted_wrt (<) (map roDay rolls)" and "distinct (map (\<lambda>r. utc_key (roDay r)) rolls)"
  shows "sorted_wrt (\<lambda>a b. b < a) (map cbDay bs) \<Longrightarrow>
    (\<forall>r\<in>set rolls. \<forall>b\<in>set bs. utc_key (roDay r) = utc_key (cbDay b) \<longrightarrow> roDay r = cbDay b) \<Longrightarrow>
    (\<forall>r\<in>set rolls. bs = [] \<or> cbDay (hd bs) < roDay r \<or> roDay r \<in> cbDay ` set bs) \<Longrightarrow>
    bs = [] \<or> off = offset_of rolls (cbDay (hd bs)) \<Longrightarrow>
    adjust_from (gaps_of rolls) off bs = map (adjusted rolls) bs"
proof (induction bs arbitrary: off)
  case (Cons b bs)
  have key: "find (\<lambda>r. utc_key (roDay r) = utc_key (cbDay b)) rolls = find (\<lambda>r. roDay r = cbDay b) rolls"
    by (rule find_cong) (use Cons.prems(2) in auto)
  let ?off = "case gaps_of rolls (utc_key (cbDay b)) of None \<Rightarrow> off | Some g \<Rightarrow> off + g"
  have "bs = [] \<or> ?off = offset_of rolls (cbDay (hd bs))"
  proof (cases bs)
    case (Cons b2 rest)
    have lt: "cbDay b2 < cbDay b" using Cons.prems(1) Cons by simp
    have "\<forall>r\<in>set rolls. cbDay b2 < roDay r \<longrightarrow> cbDay b \<le> roDay r"
      using Cons.prems(1,3) Cons by fastforce
    from offset_step [OF assms(1) lt this] show ?thesis
      using Cons.prems(4) Cons by (simp add: gaps_of_lookup [OF assms(2)] key split: option.split)
  qed simp
  moreover have "\<forall>r\<in>set rolls. bs = [] \<or> cbDay (hd bs) < roDay r \<or> roDay r \<in> cbDay ` set bs"
    using Cons.prems(1,3) by (cases bs) fastforce+
  ultimately have "adjust_from (gaps_of rolls) ?off bs = map (adjusted rolls) bs"
    using Cons.IH [of ?off] Cons.prems(1,2) by simp
  moreover have "adjusted rolls b = b\<lparr>cbAdjustment := off, cbSettlement := cbSettlement b + off\<rparr>"
    using Cons.prems(4) by (simp add: adjusted_def)
  ultimately show ?case by simp
qed simp

lemma first_days_keys:
  "distinct (map utc_key (first_days seen qs)) \<and> set (map utc_key (first_days seen qs)) \<inter> set seen = {}"
proof (induction qs arbitrary: seen)
  case (Cons q qs)
  show ?case using Cons [of seen] Cons [of "utc_key (qtDay q) # seen"] by (auto simp: Let_def)
qed simp

lemma sorted_days: "sorted_wrt (<) (sort (first_days [] qs)) \<and> distinct (map utc_key (sort (first_days [] qs)))"
proof -
  have d: "distinct (map utc_key (first_days [] qs))" using first_days_keys by blast
  then have "distinct (sort (first_days [] qs))" by (simp add: distinct_map)
  moreover have "distinct (map utc_key (sort (first_days [] qs)))"
    using d by (simp add: distinct_map)
  ultimately show ?thesis by (simp add: strict_sorted_iff)
qed

text \<open>C38: A continuous series has one bar a day, in order, on the days some contract is still to expire; each bar is the
  quote of the contract that expires first among those past the roll offset; there is a roll exactly where
  the contract changes, from the one to the other. Back adjustment adds to every bar the gaps of the
  rolls after it, from the latest on, and nothing to the last contract's bars.\<close>

theorem continuous_series:
  "case BuildContinuous name qs opts of
     Inl err \<Rightarrow> True
   | Inr s \<Rightarrow>
       (case BuildContinuous name qs (opts\<lparr>opBackAdjust := False\<rparr>) of
          Inl err \<Rightarrow> False
        | Inr raw \<Rightarrow>
            map cbDay (coBars raw) =
              filter (\<lambda>d. frontContract (quotes_on qs d) d (opRollOffsetDays opts) \<noteq> None) (sort (first_days [] qs)) \<and>
            list_all (bar_front qs (opRollOffsetDays opts)) (coBars raw) \<and>
            map (\<lambda>r. (roDay r, roFrom r, roTo r)) (coRolls raw) = symbol_changes [] (coBars raw) \<and>
            coRolls s = coRolls raw \<and>
            coBars s = (if opBackAdjust opts \<and> coRolls raw \<noteq> [] then map (adjusted (coRolls raw)) (coBars raw) else coBars raw))"
proof (cases "BuildContinuous name qs opts")
  case (Inr s)
  let ?o = "opRollOffsetDays opts" and ?days = "sort (first_days [] qs)"
  obtain bars rolls where r: "continuous_from qs ?o [] [] ?days = (bars, rolls)" by force
  note B = continuous_from_bars [OF r]
  define raw where "raw = \<lparr>coRoot = to_upper (trim_space name), coMultiplier = (case qs of [] \<Rightarrow> 0 | _ \<Rightarrow> qtMultiplier (last qs)),
    coBars = bars, coRolls = rolls\<rparr>"
  have fields: "coBars raw = bars" "coRolls raw = rolls" by (simp_all add: raw_def)
  have raw: "BuildContinuous name qs (opts\<lparr>opBackAdjust := False\<rparr>) = Inr raw"
    using Inr r by (auto simp: BuildContinuous_def Let_def raw_def split: if_splits)
  have s: "s = (if opBackAdjust opts then backAdjust raw else raw)"
    using Inr r by (auto simp: BuildContinuous_def Let_def raw_def split: if_splits)
  have days: "sorted_wrt (<) (map cbDay bars)" "distinct (map utc_key (map cbDay bars))"
    using B sorted_days [of qs] by (simp_all add: sorted_wrt_filter distinct_map inj_on_def)
  have sub: "roDay ` set rolls \<subseteq> cbDay ` set bars"
  proof -
    have "roDay ` set rolls = set (map cbDay (filter cbRoll bars))" using B by (metis list.set_map)
    then show ?thesis by auto
  qed
  have asc: "sorted_wrt (<) (map roDay rolls)"
  proof -
    have "sorted_wrt (<) (map cbDay (filter cbRoll bars))" using days(1) by (simp add: sorted_wrt_map sorted_wrt_filter)
    then show ?thesis using B by simp
  qed
  have inj: "a \<in> cbDay ` set bars \<Longrightarrow> b \<in> cbDay ` set bars \<Longrightarrow> utc_key a = utc_key b \<Longrightarrow> a = b" for a b
    using days(2) by (auto simp: distinct_map inj_on_def)
  have dist: "distinct (map (\<lambda>r. utc_key (roDay r)) rolls)"
  proof -
    have "distinct (map roDay rolls)" using asc by (simp add: strict_sorted_iff)
    moreover have "inj_on utc_key (set (map roDay rolls))"
      by (rule inj_onI) (rule inj, use sub in auto)
    ultimately have "distinct (map utc_key (map roDay rolls))" by (simp only: distinct_map)
    then show ?thesis by (simp add: o_def)
  qed
  have "adjust_from (gaps_of rolls) 0 (rev bars) = map (adjusted rolls) (rev bars)"
  proof (rule adjust_from_offsets [OF asc dist])
    show "sorted_wrt (\<lambda>a b. b < a) (map cbDay (rev bars))" using days(1) by (simp add: rev_map [symmetric] sorted_wrt_rev)
    show "\<forall>r\<in>set rolls. \<forall>b\<in>set (rev bars). utc_key (roDay r) = utc_key (cbDay b) \<longrightarrow> roDay r = cbDay b"
      using inj sub by auto
    show "\<forall>r\<in>set rolls. rev bars = [] \<or> cbDay (hd (rev bars)) < roDay r \<or> roDay r \<in> cbDay ` set (rev bars)"
      using sub by auto
    have "bars \<noteq> [] \<Longrightarrow> filter (\<lambda>r. cbDay (last bars) < roDay r) rolls = []"
    proof -
      assume ne: "bars \<noteq> []"
      have "d \<le> last (map cbDay bars)" if "d \<in> set (map cbDay bars)" for d
        using that days(1) by (induction bars) (auto simp: last_map less_imp_le)
      then show ?thesis using sub ne by (fastforce simp: filter_empty_conv last_map)
    qed
    then show "rev bars = [] \<or> 0 = offset_of rolls (cbDay (hd (rev bars)))" 
      by (cases "bars = []") (simp_all add: offset_of_def hd_rev)
  qed
  then have "coBars (backAdjust raw) = (if rolls = [] then bars else map (adjusted rolls) bars)" "coRolls (backAdjust raw) = rolls"
    by (simp_all add: backAdjust_def rev_map [symmetric] fields)
  then show ?thesis using Inr raw s B by (simp add: fields)
qed simp

section \<open>The report of missing bars\<close>

lemma days_from_trading: "days_from c e cur = Some ds \<Longrightarrow> list_all (IsTradingDay c) ds"
proof (rule days_from.raw_induct [where P = "\<lambda>c e cur ds. list_all (IsTradingDay c) ds"])
  fix rec c e cur y
  assume "\<And>c e cur y. rec c e cur = Some y \<Longrightarrow> list_all (IsTradingDay c) y"
    and "(if e < cur then Some [] else Option.bind (rec c e (add_days c 1 cur))
      (\<lambda>days. Some (if IsTradingDay c cur then cur # days else days))) = Some y"
  then show "list_all (IsTradingDay c) y" by (fastforce simp: bind_eq_Some_conv split: if_splits)
qed

definition no_bars :: "calendar \<Rightarrow> time list \<Rightarrow> time \<Rightarrow> bool" where
  "no_bars c present day \<longleftrightarrow> bars_on c present (dateKey (calLoc c) (midnight c day)) = 0"

definition expected_bars :: "calendar \<Rightarrow> string \<Rightarrow> time \<Rightarrow> int" where
  "expected_bars c tf day = (case Session c day of None \<Rightarrow> 0 | Some s \<Rightarrow> BucketCount tf s)"

lemma Session_seDay: "Session c day = Some s \<Longrightarrow> seDay s = midnight c day"
  by (auto simp: Session_def Let_def split: if_splits option.splits)

lemma gap_days:
  "list_all (IsTradingDay c) days \<Longrightarrow>
   grSessions (fold (gap_day c tf present) days r) = grSessions r + int (length days) \<and>
   grExpected (fold (gap_day c tf present) days r) = grExpected r + sum_list (map (expected_bars c tf) days) \<and>
   grMissing (fold (gap_day c tf present) days r) = grMissing r @ map (midnight c) (filter (no_bars c present) days) \<and>
   grBars (fold (gap_day c tf present) days r) = grBars r \<and>
   grUnexpected (fold (gap_day c tf present) days r) = grUnexpected r"
proof (induction days arbitrary: r)
  case (Cons d days)
  obtain s where s: "Session c d = Some s" using Cons.prems by (auto simp: IsTradingDay_def)
  have "grSessions (gap_day c tf present d r) = grSessions r + 1"
    "grExpected (gap_day c tf present d r) = grExpected r + expected_bars c tf d"
    "grMissing (gap_day c tf present d r) = grMissing r @ (if no_bars c present d then [midnight c d] else [])"
    "grBars (gap_day c tf present d r) = grBars r" "grUnexpected (gap_day c tf present d r) = grUnexpected r"
    using Session_seDay [OF s] by (simp_all add: gap_day_def s Let_def expected_bars_def no_bars_def)
  then show ?case using Cons by simp
qed simp

text \<open>The report of missing bars adds up. Every bar is counted once, in its session or as unexpected, the unexpected
  ones in order; the sessions are the trading days of the range; the bars expected are the buckets of
  those sessions; and the missing sessions are exactly those without a bar.\<close>

theorem gap_report_adds_up:
  "case TradingDays c from_ts to_ts of
     None \<Rightarrow> True
   | Some days \<Rightarrow>
       (case FindGaps (Some c) tf from_ts to_ts present of
          Some (Inr r) \<Rightarrow>
            grBars r + int (length (grUnexpected r)) = int (length present) \<and>
            grUnexpected r = sort (filter (\<lambda>ts. SessionAt c ts = None) present) \<and>
            grSessions r = int (length days) \<and>
            grExpected r = sum_list (map (expected_bars c tf) days) \<and>
            grMissing r = map (midnight c) (filter (no_bars c present) days)
        | _ \<Rightarrow> (if tf_Stored tf then to_ts < from_ts else True))"
proof (cases "TradingDays c from_ts to_ts")
  case (Some days)
  have trading: "list_all (IsTradingDay c) days" using Some days_from_trading by (simp add: TradingDays_def)
  have "length (filter (\<lambda>ts. SessionAt c ts \<noteq> None) present) + length (filter (\<lambda>ts. SessionAt c ts = None) present) = length present"
    by (induction present) auto
  then have "int (length (filter (\<lambda>ts. SessionAt c ts \<noteq> None) present)) +
    int (length (filter (\<lambda>ts. SessionAt c ts = None) present)) = int (length present)" by linarith
  then show ?thesis using Some gap_days [OF trading] by (simp add: FindGaps_def Let_def)
qed simp

end
