(* ===== verification/Symbols.thy ===== *)
theory Symbols
  imports Text "HOL-Library.List_Lexorder" "HOL-Library.Char_ord"
begin

text \<open>
  The symbol master (internal/market/kind.go, contracts.go, indexes.go and plan.go): how a ticker is
  classified, the checks of the contract and index files after their JSON is decoded, and the plan
  that brings the stored symbols to what the files ask for. The regular expressions of kind.go and
  indexes.go are written out as tests on the text. The map of desired symbols is a list of entries with
  distinct tickers.
\<close>

section \<open>Kinds of symbols\<close>

definition KindStock :: string where "KindStock = ''stock''"
definition KindFII :: string where "KindFII = ''fii''"
definition KindBDR :: string where "KindBDR = ''bdr''"
definition KindUnit :: string where "KindUnit = ''unit''"
definition KindIndex :: string where "KindIndex = ''index''"
definition KindFuture :: string where "KindFuture = ''future''"
definition KindCrypto :: string where "KindCrypto = ''crypto''"

definition DefaultCurrency :: string where "DefaultCurrency = ''BRL''"

definition Kinds :: "string list" where
  "Kinds = [KindStock, KindFII, KindBDR, KindUnit, KindIndex, KindFuture, KindCrypto]"

definition DefaultFutureRoots :: "string list" where
  "DefaultFutureRoots = [''WIN'', ''IND'', ''WDO'', ''DOL'']"

definition kind_Valid :: "string \<Rightarrow> bool" where "kind_Valid k \<longleftrightarrow> k \<in> set Kinds"

datatype symbol_error =
    UnknownKind string
  | EmptyTicker
  | Unclassifiable string
  | UnclassifiedLists "(string \<times> string) list"

definition ParseKind :: "string \<Rightarrow> symbol_error + string" where
  "ParseKind text = (let k = to_lower (trim_space text) in if kind_Valid k then Inr k else Inl (UnknownKind text))"

definition DefaultLotSize :: "string \<Rightarrow> i32" where
  "DefaultLotSize k = (if k = KindStock \<or> k = KindUnit then 100 else 1)"

definition DefaultTickSize :: "string \<Rightarrow> f64" where
  "DefaultTickSize k = (if k = KindIndex then 1 else rnd (1 / 100))"

definition is_upper :: "char \<Rightarrow> bool" where
  "is_upper c = (let n = of_char c :: nat in 65 \<le> n \<and> n \<le> 90)"

definition is_dig :: "char \<Rightarrow> bool" where "is_dig c \<longleftrightarrow> digit_of c \<noteq> None"

definition is_alnum :: "char \<Rightarrow> bool" where "is_alnum c \<longleftrightarrow> is_upper c \<or> is_dig c"

text \<open>\<open>^\<close>: a caret, then three to six letters or digits.\<close>

definition indexPattern :: "string \<Rightarrow> bool" where
  "indexPattern s =
     (case s of [] \<Rightarrow> False | c # cs \<Rightarrow> c = CHR ''^'' \<and> 3 \<le> length cs \<and> length cs \<le> 6 \<and> list_all is_alnum cs)"

definition cryptoPattern :: "string \<Rightarrow> bool" where
  "cryptoPattern s =
     (case cut_at (CHR ''-'') s of
        None \<Rightarrow> False
      | Some (a, b) \<Rightarrow> 2 \<le> length a \<and> length a \<le> 10 \<and> list_all is_alnum a \<and> length b = 3 \<and> list_all is_upper b)"

text \<open>A letter and three letters or digits, and the rest.\<close>

definition stem_with :: "(string \<Rightarrow> bool) \<Rightarrow> string \<Rightarrow> bool" where
  "stem_with tail s \<longleftrightarrow> 4 \<le> length s \<and> is_upper (s ! 0) \<and> list_all is_alnum (take 3 (tl s)) \<and> tail (drop 4 s)"

definition bdrPattern :: "string \<Rightarrow> bool" where
  "bdrPattern = stem_with (\<lambda>r. r \<in> set [''31'', ''32'', ''33'', ''34'', ''35'', ''39''])"

definition unitPattern :: "string \<Rightarrow> bool" where
  "unitPattern = stem_with (\<lambda>r. r = ''11'')"

definition stockPattern :: "string \<Rightarrow> bool" where
  "stockPattern = stem_with (\<lambda>r. r \<in> set [''3'', ''4'', ''5'', ''6'', ''7'', ''8''])"

definition monthCodes :: string where "monthCodes = ''FGHJKMNQUVXZ''"

definition futurePattern :: "string \<Rightarrow> string option" where
  "futurePattern s =
     (if length s = 6 \<and> list_all is_upper (take 3 s) \<and> s ! 3 \<in> set monthCodes \<and> is_dig (s ! 4) \<and> is_dig (s ! 5)
      then Some (take 3 s) else None)"

definition ClassifyTicker :: "string \<Rightarrow> symbol_error + string" where
  "ClassifyTicker ticker =
     (let n = to_upper (trim_space ticker)
      in if n = [] then Inl EmptyTicker
         else if indexPattern n then Inr KindIndex
         else if cryptoPattern n then Inr KindCrypto
         else if bdrPattern n then Inr KindBDR
         else if unitPattern n then Inr KindUnit
         else if stockPattern n then Inr KindStock
         else if (case futurePattern n of None \<Rightarrow> False | Some r \<Rightarrow> r \<in> set DefaultFutureRoots) then Inr KindFuture
         else if n \<in> set DefaultFutureRoots then Inr KindFuture
         else Inl (Unclassifiable n))"

section \<open>The contract file\<close>

record future_contract =
  fcRoot :: string
  fcName :: string
  fcLongName :: string
  fcPointValue :: f64
  fcTickSize :: f64
  fcLotSize :: i32
  fcMonths :: string

record symbol_seed =
  sdTicker :: string
  sdKind :: string
  sdShortName :: string
  sdLongName :: string
  sdCurrency :: string
  sdLotSize :: "i32 option"
  sdTickSize :: "f64 option"
  sdPointValue :: "f64 option"
  sdTracked :: bool

record contracts =
  ctFutures :: "future_contract list"
  ctSymbols :: "symbol_seed list"

datatype contract_error =
    RootRequired nat
  | DuplicateRoot nat string
  | PointValueNotPositive nat string
  | TickSizeNotPositive nat string
  | LotSizeNotPositive nat string
  | MonthsRequired nat string
  | UnknownMonth nat string char
  | TickerRequired nat
  | DuplicateTicker nat string
  | SeedLotNotPositive nat string
  | SeedTickNotPositive nat string
  | SeedPointNotPositive nat string
  | SeedKindUnknown nat string symbol_error

fun check_futures :: "nat \<Rightarrow> string list \<Rightarrow> future_contract list \<Rightarrow> contract_error option" where
  "check_futures i seen [] = None"
| "check_futures i seen (f # fs) =
     (if fcRoot f = [] then Some (RootRequired i)
      else if fcRoot f \<in> set seen then Some (DuplicateRoot i (fcRoot f))
      else if fcPointValue f \<le> 0 then Some (PointValueNotPositive i (fcRoot f))
      else if fcTickSize f \<le> 0 then Some (TickSizeNotPositive i (fcRoot f))
      else if fcLotSize f \<le>s 0 then Some (LotSizeNotPositive i (fcRoot f))
      else if fcMonths f = [] then Some (MonthsRequired i (fcRoot f))
      else
        (case find (\<lambda>c. c \<notin> set monthCodes) (fcMonths f) of
           Some c \<Rightarrow> Some (UnknownMonth i (fcRoot f) c)
         | None \<Rightarrow> check_futures (i + 1) (fcRoot f # seen) fs))"

definition not_positive :: "f64 option \<Rightarrow> bool" where
  "not_positive v = (case v of None \<Rightarrow> False | Some x \<Rightarrow> x \<le> 0)"

fun check_seeds :: "nat \<Rightarrow> string list \<Rightarrow> symbol_seed list \<Rightarrow> contract_error option" where
  "check_seeds i seen [] = None"
| "check_seeds i seen (s # ss) =
     (if sdTicker s = [] then Some (TickerRequired i)
      else if sdTicker s \<in> set seen then Some (DuplicateTicker i (sdTicker s))
      else if (case sdLotSize s of None \<Rightarrow> False | Some n \<Rightarrow> n \<le>s 0) then Some (SeedLotNotPositive i (sdTicker s))
      else if not_positive (sdTickSize s) then Some (SeedTickNotPositive i (sdTicker s))
      else if not_positive (sdPointValue s) then Some (SeedPointNotPositive i (sdTicker s))
      else
        (case (if sdKind s = [] then None else (case ParseKind (sdKind s) of Inl err \<Rightarrow> Some err | Inr k \<Rightarrow> None)) of
           Some err \<Rightarrow> Some (SeedKindUnknown i (sdTicker s) err)
         | None \<Rightarrow> check_seeds (i + 1) (sdTicker s # seen) ss))"

definition contracts_validate :: "contracts \<Rightarrow> contract_error option" where
  "contracts_validate c =
     (case check_futures 0 [] (ctFutures c) of Some err \<Rightarrow> Some err | None \<Rightarrow> check_seeds 0 [] (ctSymbols c))"

definition LoadContracts :: "contracts \<Rightarrow> contract_error + contracts" where
  "LoadContracts file = (case contracts_validate file of Some err \<Rightarrow> Inl err | None \<Rightarrow> Inr file)"

definition contracts_Roots :: "contracts \<Rightarrow> string list" where
  "contracts_Roots c = map fcRoot (ctFutures c)"

section \<open>The index files\<close>

record index_list =
  ixIndex :: string
  ixAsOf :: string
  ixSource :: string
  ixTickers :: "string list"
  ixFile :: string
  ixYear :: int
  ixMonth :: int

datatype index_error =
    BadFileName string
  | BadIndexFile string
  | IndexRequired string
  | BadAsOf string
  | NoTickers string
  | BlankTicker string nat
  | RepeatedTicker string string
  | IndexMismatch string string string
  | BadMonth string
  | NoFiles

text \<open>The tickers of a file, normalised.\<close>

fun normal_tickers :: "string \<Rightarrow> nat \<Rightarrow> string list \<Rightarrow> string list \<Rightarrow> index_error + string list" where
  "normal_tickers name i seen [] = Inr (rev seen)"
| "normal_tickers name i seen (t # ts) =
     (let n = to_upper (trim_space t)
      in if n = [] then Inl (BlankTicker name i)
         else if n \<in> set seen then Inl (RepeatedTicker name n)
         else normal_tickers name (i + 1) (n # seen) ts)"

definition loadIndexList :: "string \<Rightarrow> index_list option \<Rightarrow> index_error + index_list" where
  "loadIndexList name content =
     (case content of
        None \<Rightarrow> Inl (BadIndexFile name)
      | Some l \<Rightarrow>
          if ixIndex l = [] then Inl (IndexRequired name)
          else if parse_date (ixAsOf l) = None then Inl (BadAsOf name)
          else if ixTickers l = [] then Inl (NoTickers name)
          else
            (case normal_tickers name 0 [] (ixTickers l) of
               Inl err \<Rightarrow> Inl err
             | Inr ts \<Rightarrow> Inr (l\<lparr>ixFile := name, ixTickers := ts\<rparr>)))"

text \<open>\<open>^(.+)-(\d{4})-(\d{2})\.json$\<close>: the name, the year and the month.\<close>

definition index_file_name :: "string \<Rightarrow> (string \<times> int \<times> int) option" where
  "index_file_name s =
     (let k = length s - 13; p = take k s; r = drop k s
      in if length s < 14 \<or> CHR 0x0A \<in> set p \<or> r ! 0 \<noteq> CHR ''-'' \<or> r ! 5 \<noteq> CHR ''-'' \<or> drop 8 r \<noteq> ''.json'' then None
         else
           (case (number_of (take 4 (tl r)) 0, number_of (take 2 (drop 6 r)) 0) of
              (Some y, Some m) \<Rightarrow> Some (p, y, m)
            | _ \<Rightarrow> None))"

text \<open>A list that takes the place of an older one of its index.\<close>

fun keep_newest :: "index_list \<Rightarrow> index_list list \<Rightarrow> index_list list" where
  "keep_newest l [] = [l]"
| "keep_newest l (x # xs) =
     (if ixIndex x = ixIndex l
      then (if ixYear l > ixYear x \<or> (ixYear l = ixYear x \<and> ixMonth l > ixMonth x) then l else x) # xs
      else x # keep_newest l xs)"

definition has_suffix :: "string \<Rightarrow> string \<Rightarrow> bool" where
  "has_suffix s suf \<longleftrightarrow> suffix suf s"

text \<open>The entries of the directory: name, whether it is a directory, and the decoded content.\<close>

fun index_files :: "string \<Rightarrow> index_list list \<Rightarrow> (string \<times> bool \<times> index_list option) list \<Rightarrow> index_error + index_list list" where
  "index_files dir newest [] = Inr newest"
| "index_files dir newest ((name, isDir, content) # entries) =
     (if isDir \<or> \<not> has_suffix name ''.json'' then index_files dir newest entries
      else
        (case index_file_name name of
           None \<Rightarrow> Inl (BadFileName name)
         | Some (index, year, month) \<Rightarrow>
             (case loadIndexList (dir @ ''/'' @ name) content of
                Inl err \<Rightarrow> Inl err
              | Inr l \<Rightarrow>
                  if ixIndex l \<noteq> index then Inl (IndexMismatch (ixFile l) (ixIndex l) index)
                  else if month < 1 \<or> month > 12 then Inl (BadMonth (ixFile l))
                  else index_files dir (keep_newest (l\<lparr>ixYear := year, ixMonth := month\<rparr>) newest) entries)))"

definition LoadIndexLists :: "string \<Rightarrow> (string \<times> bool \<times> index_list option) list \<Rightarrow> index_error + index_list list" where
  "LoadIndexLists dir entries =
     (case index_files dir [] entries of
        Inl err \<Rightarrow> Inl err
      | Inr newest \<Rightarrow> if newest = [] then Inl NoFiles else Inr (sort_key ixIndex newest))"

definition UnionTickers :: "index_list list \<Rightarrow> string list" where
  "UnionTickers files = sort (remdups (concat (map ixTickers files)))"

section \<open>The plan\<close>

record existing_symbol =
  esTicker :: string
  esKind :: string
  esActive :: bool
  esTracked :: bool

record desired_symbol =
  dsTicker :: string
  dsShortName :: string
  dsLongName :: string
  dsKind :: string
  dsCurrency :: string
  dsLotSize :: i32
  dsTickSize :: f64
  dsPointValue :: "f64 option"
  dsTracked :: bool

record symbol_plan =
  plSymbols :: "desired_symbol list"
  plCreated :: "string list"
  plAdmissions :: "string list"
  plDepartures :: "string list"

definition desired_for :: "string \<Rightarrow> string \<Rightarrow> bool \<Rightarrow> desired_symbol" where
  "desired_for ticker kind tracked =
     \<lparr>dsTicker = ticker, dsShortName = [], dsLongName = [], dsKind = kind, dsCurrency = DefaultCurrency,
      dsLotSize = DefaultLotSize kind, dsTickSize = DefaultTickSize kind, dsPointValue = None, dsTracked = tracked\<rparr>"

text \<open>\<open>add\<close>: an entry that is there already only learns that it is tracked.\<close>

fun desire :: "desired_symbol \<Rightarrow> desired_symbol list \<Rightarrow> desired_symbol list" where
  "desire s [] = [s]"
| "desire s (d # ds) =
     (if dsTicker d = dsTicker s then d\<lparr>dsTracked := (dsTracked d \<or> dsTracked s)\<rparr> # ds else d # desire s ds)"

text \<open>The tickers of the lists, with those that cannot be classified.\<close>

fun desire_listed :: "(string \<times> string) list \<Rightarrow> desired_symbol list \<Rightarrow> (string \<times> string) list \<Rightarrow>
    desired_symbol list \<times> (string \<times> string) list" where
  "desire_listed [] ds bad = (ds, bad)"
| "desire_listed ((ticker, file) # rest) ds bad =
     (case ClassifyTicker ticker of
        Inl err \<Rightarrow> desire_listed rest ds (bad @ [(ticker, file)])
      | Inr k \<Rightarrow> desire_listed rest (desire (desired_for ticker k True) ds) bad)"

definition future_desired :: "future_contract \<Rightarrow> desired_symbol" where
  "future_desired f =
     \<lparr>dsTicker = fcRoot f, dsShortName = fcName f, dsLongName = fcLongName f, dsKind = KindFuture, dsCurrency = DefaultCurrency,
      dsLotSize = fcLotSize f, dsTickSize = fcTickSize f, dsPointValue = Some (fcPointValue f), dsTracked = False\<rparr>"

definition applySeed :: "symbol_seed \<Rightarrow> desired_symbol \<Rightarrow> desired_symbol" where
  "applySeed seed d0 =
     (let d = (if sdKind seed = [] then d0
               else (case ParseKind (sdKind seed) of
                       Inl err \<Rightarrow> d0
                     | Inr k \<Rightarrow> if k = dsKind d0 then d0
                         else d0\<lparr>dsKind := k, dsLotSize := DefaultLotSize k, dsTickSize := DefaultTickSize k\<rparr>))
      in d\<lparr>dsShortName := (if sdShortName seed = [] then dsShortName d else sdShortName seed),
           dsLongName := (if sdLongName seed = [] then dsLongName d else sdLongName seed),
           dsCurrency := (if sdCurrency seed = [] then dsCurrency d else sdCurrency seed),
           dsLotSize := (case sdLotSize seed of None \<Rightarrow> dsLotSize d | Some n \<Rightarrow> n),
           dsTickSize := (case sdTickSize seed of None \<Rightarrow> dsTickSize d | Some x \<Rightarrow> x),
           dsPointValue := (case sdPointValue seed of None \<Rightarrow> dsPointValue d | Some x \<Rightarrow> Some x),
           dsTracked := (dsTracked d \<or> sdTracked seed)\<rparr>)"

definition update_entry :: "string \<Rightarrow> (desired_symbol \<Rightarrow> desired_symbol) \<Rightarrow> desired_symbol list \<Rightarrow> desired_symbol list" where
  "update_entry ticker f ds = map (\<lambda>d. if dsTicker d = ticker then f d else d) ds"

definition seed_kind :: "symbol_seed \<Rightarrow> symbol_error + string" where
  "seed_kind seed =
     (case ClassifyTicker (sdTicker seed) of
        Inr k \<Rightarrow> Inr k
      | Inl err \<Rightarrow> if sdKind seed = [] then Inl err else ParseKind (sdKind seed))"

fun desire_seeds :: "symbol_seed list \<Rightarrow> desired_symbol list \<Rightarrow> symbol_error + desired_symbol list" where
  "desire_seeds [] ds = Inr ds"
| "desire_seeds (seed # seeds) ds =
     (if \<exists>d\<in>set ds. dsTicker d = sdTicker seed
      then desire_seeds seeds (update_entry (sdTicker seed) (applySeed seed) ds)
      else
        (case seed_kind seed of
           Inl err \<Rightarrow> Inl err
         | Inr k \<Rightarrow>
             desire_seeds seeds
               (update_entry (sdTicker seed) (applySeed seed) (desire (desired_for (sdTicker seed) k False) ds))))"

text \<open>The plan for the symbols desired: what is listed, and what is stored already.\<close>

definition plan_of :: "(string \<times> string) list \<Rightarrow> existing_symbol list \<Rightarrow> desired_symbol list \<Rightarrow> symbol_plan" where
  "plan_of listed existing ds =
     (let known = map_of (rev (map (\<lambda>e. (esTicker e, e)) existing));
          symbols = sort_key dsTicker ds
      in \<lparr>plSymbols = symbols,
          plCreated = map dsTicker (filter (\<lambda>d. known (dsTicker d) = None) symbols),
          plAdmissions = map dsTicker (filter (\<lambda>d. dsTracked d \<and>
            (case known (dsTicker d) of None \<Rightarrow> True | Some e \<Rightarrow> \<not> esTracked e)) symbols),
          plDepartures = sort (map esTicker (filter (\<lambda>e. esTracked e \<and> esTicker e \<notin> set (map fst listed) \<and>
            \<not> (\<exists>d\<in>set ds. dsTicker d = esTicker e \<and> dsTracked d)) existing))\<rparr>)"

definition BuildPlan :: "index_list list \<Rightarrow> contracts \<Rightarrow> existing_symbol list \<Rightarrow> symbol_error + symbol_plan" where
  "BuildPlan files contracts existing =
     (let listed = concat (map (\<lambda>l. map (\<lambda>t. (t, ixFile l)) (ixTickers l)) files);
          (ds1, bad) = desire_listed listed [] []
      in if bad \<noteq> [] then Inl (UnclassifiedLists bad)
         else
           (case desire_seeds (ctSymbols contracts) (fold desire (map future_desired (ctFutures contracts)) ds1) of
              Inl err \<Rightarrow> Inl err
            | Inr ds \<Rightarrow> Inr (plan_of listed existing ds)))"


section \<open>What a plan holds\<close>

text \<open>The tickers the entries carry, and those that are tracked.\<close>

definition wanted_tickers :: "desired_symbol list \<Rightarrow> string list" where
  "wanted_tickers ds = map dsTicker ds"

definition tracked_in :: "desired_symbol list \<Rightarrow> string set" where
  "tracked_in ds = set (map dsTicker (filter dsTracked ds))"

definition stored_tracked :: "existing_symbol list \<Rightarrow> string set" where
  "stored_tracked existing = set (map esTicker (filter esTracked existing))"

definition latest_tracked :: "existing_symbol list \<Rightarrow> string \<Rightarrow> bool" where
  "latest_tracked existing t =
     (case map_of (rev (map (\<lambda>e. (esTicker e, e)) existing)) t of None \<Rightarrow> False | Some e \<Rightarrow> esTracked e)"

lemma ex_Inr: "(\<exists>k. x = Inr k) \<longleftrightarrow> \<not> (\<exists>err. x = Inl err)"
  by (cases x) auto

lemma desire_tickers: "set (map dsTicker (desire s ds)) = insert (dsTicker s) (set (map dsTicker ds))"
  by (induction ds) auto

lemma desire_distinct:
  assumes "distinct (map dsTicker ds)"
  shows "distinct (map dsTicker (desire s ds))"
  using assms
proof (induction ds)
  case (Cons d ds)
  then show ?case using desire_tickers [of s ds] by (auto simp del: set_map)
qed simp

lemma tracked_in_simps [simp]:
  "tracked_in [] = {}"
  "tracked_in (d # ds) = (if dsTracked d then insert (dsTicker d) (tracked_in ds) else tracked_in ds)"
  by (simp_all add: tracked_in_def)

lemma in_tracked: "t \<in> tracked_in ds \<longleftrightarrow> (\<exists>d\<in>set ds. dsTicker d = t \<and> dsTracked d)"
  by (induction ds) auto

lemma desire_tracked: "tracked_in (desire s ds) = tracked_in ds \<union> (if dsTracked s then {dsTicker s} else {})"
  by (induction ds) auto

lemma fold_desire:
  assumes "distinct (map dsTicker ds)"
  shows "distinct (map dsTicker (fold desire ss ds)) \<and>
    set (map dsTicker (fold desire ss ds)) = set (map dsTicker ds) \<union> set (map dsTicker ss) \<and>
    tracked_in (fold desire ss ds) = tracked_in ds \<union> tracked_in ss"
  using assms
proof (induction ss arbitrary: ds)
  case Nil
  then show ?case by simp
next
  case (Cons s ss)
  note h = Cons.IH [OF desire_distinct [OF Cons.prems, of s]]
  show ?case using h desire_tickers [of s ds] desire_tracked [of s ds]
    by auto
qed

lemma desire_listed_sound:
  assumes "distinct (map dsTicker ds)" "desire_listed ls ds bad = (ds', bad')"
  shows "distinct (map dsTicker ds') \<and> set (map fst bad') = set (map fst bad) \<union> {t \<in> set (map fst ls). \<exists>err. ClassifyTicker t = Inl err} \<and>
    set (map dsTicker ds') = set (map dsTicker ds) \<union> {t \<in> set (map fst ls). \<exists>k. ClassifyTicker t = Inr k} \<and>
    tracked_in ds' = tracked_in ds \<union> {t \<in> set (map fst ls). \<exists>k. ClassifyTicker t = Inr k}"
  using assms
proof (induction ls ds bad rule: desire_listed.induct)
  case (2 ticker src rest ds bad)
  show ?case
  proof (cases "ClassifyTicker ticker")
    case (Inl err)
    have "desire_listed rest ds (bad @ [(ticker, src)]) = (ds', bad')" using "2.prems"(2) Inl by simp
    from "2.IH"(1) [OF Inl "2.prems"(1) this] show ?thesis using Inl by auto
  next
    case (Inr k)
    let ?s = "desired_for ticker k True"
    have "desire_listed rest (desire ?s ds) bad = (ds', bad')" using "2.prems"(2) Inr by simp
    from "2.IH"(2) [OF Inr desire_distinct [OF "2.prems"(1)] this]
    show ?thesis using Inr desire_tickers [of ?s ds] desire_tracked [of ?s ds]
      by (auto simp: desired_for_def)
  qed
qed auto

lemma applySeed_ticker [simp]: "dsTicker (applySeed seed d) = dsTicker d"
  by (simp add: applySeed_def Let_def split: sum.splits)

lemma applySeed_tracked [simp]: "dsTracked (applySeed seed d) \<longleftrightarrow> dsTracked d \<or> sdTracked seed"
  by (simp add: applySeed_def Let_def split: sum.splits)

lemma update_entry_tickers [simp]: "map dsTicker (update_entry t (applySeed seed) ds) = map dsTicker ds"
  by (simp add: update_entry_def)

lemma update_entry_tracked:
  "tracked_in (update_entry t (applySeed seed) ds) =
    tracked_in ds \<union> (if sdTracked seed then {t} \<inter> set (map dsTicker ds) else {})"
  by (induction ds) (auto simp: update_entry_def)

lemma desire_seeds_sound:
  assumes "distinct (map dsTicker ds)" "desire_seeds seeds ds = Inr ds'"
  shows "distinct (map dsTicker ds') \<and> set (map dsTicker ds') = set (map dsTicker ds) \<union> set (map sdTicker seeds) \<and>
    tracked_in ds' = tracked_in ds \<union> set (map sdTicker (filter sdTracked seeds))"
  using assms
proof (induction seeds ds rule: desire_seeds.induct)
  case (2 seed seeds ds)
  show ?case
  proof (cases "\<exists>d\<in>set ds. dsTicker d = sdTicker seed")
    case True
    hence m: "sdTicker seed \<in> set (map dsTicker ds)" by force
    have "desire_seeds seeds (update_entry (sdTicker seed) (applySeed seed) ds) = Inr ds'" using "2.prems"(2) True by simp
    from "2.IH"(1) [OF True _ this] "2.prems"(1) update_entry_tracked [of "sdTicker seed" seed ds] m
    show ?thesis by (auto simp del: set_map)
  next
    case False
    then obtain k where k: "seed_kind seed = Inr k" using "2.prems"(2) by (simp split: sum.splits)
    let ?s = "desired_for (sdTicker seed) k False"
    let ?ds = "desire ?s ds"
    have t: "dsTicker ?s = sdTicker seed" "\<not> dsTracked ?s" by (simp_all add: desired_for_def)
    have m: "sdTicker seed \<in> set (map dsTicker ?ds)" using desire_tickers [of ?s ds] t by simp
    have "desire_seeds seeds (update_entry (sdTicker seed) (applySeed seed) ?ds) = Inr ds'" using "2.prems"(2) False k by simp
    from "2.IH"(2) [OF False k _ this] desire_distinct [OF "2.prems"(1), of ?s] update_entry_tracked [of "sdTicker seed" seed ?ds]
      desire_tickers [of ?s ds] desire_tracked [of ?s ds] t
    show ?thesis by (auto simp del: set_map)
  qed
qed simp

lemma tracked_future [simp]: "tracked_in (map future_desired fs) = {}"
  by (induction fs) (simp_all add: future_desired_def)

lemma future_tickers [simp]: "map dsTicker (map future_desired fs) = map fcRoot fs"
  by (simp add: future_desired_def)

lemma listed_tickers:
  "set (map fst (concat (map (\<lambda>l. map (\<lambda>t. (t, ixFile l)) (ixTickers l)) files))) = set (UnionTickers files)"
  by (auto simp: UnionTickers_def image_iff)

lemma sort_key_strict:
  assumes "distinct (map f xs)"
  shows "sorted_wrt (<) (map f (sort_key f xs))"
proof -
  have "distinct (map f (sort_key f xs))"
    using assms by (metis distinct_map distinct_sort set_sort)
  thus ?thesis by (simp add: strict_sorted_iff)
qed

lemma departures_set:
  "set (sort (map esTicker (filter (\<lambda>e. esTracked e \<and> esTicker e \<notin> L \<and> \<not> (\<exists>d\<in>set ds. dsTicker d = esTicker e \<and> dsTracked d)) existing)))
   = stored_tracked existing - L - tracked_in ds"
  by (auto simp: stored_tracked_def in_tracked image_iff)

lemma desire_seeds_error:
  "desire_seeds seeds ds = Inl err \<Longrightarrow> list_ex (\<lambda>seed. seed_kind seed = Inl err) seeds"
  by (induction seeds ds rule: desire_seeds.induct) (auto split: if_splits sum.splits)

lemma seed_kind_error: "seed_kind seed \<noteq> Inl (UnclassifiedLists bad)"
  by (simp add: seed_kind_def ClassifyTicker_def ParseKind_def Let_def split: sum.split)

lemma desire_seeds_not_listed: "desire_seeds seeds ds \<noteq> Inl (UnclassifiedLists bad)"
  using desire_seeds_error [of seeds ds "UnclassifiedLists bad"] by (auto simp: list_ex_iff seed_kind_error)

lemma latest_known:
  "(case map_of (rev (map (\<lambda>e. (esTicker e, e)) existing)) t of None \<Rightarrow> True | Some e \<Rightarrow> \<not> esTracked e)
    \<longleftrightarrow> \<not> latest_tracked existing t"
  by (simp add: latest_tracked_def split: option.split)

lemma known_none: "map_of (rev (map (\<lambda>e. (esTicker e, e)) existing)) t = None \<longleftrightarrow> t \<notin> set (map esTicker existing)"
  by (auto simp: map_of_eq_None_iff image_iff)

lemma filter_tickers: "map dsTicker (filter (\<lambda>d. P (dsTicker d)) ds) = filter P (map dsTicker ds)"
  by (simp add: filter_map comp_def)

lemma plan_of_sound:
  assumes L: "set (map fst listed) = L" and d: "distinct (map dsTicker ds)"
    and T: "tracked_in ds = T" "L \<subseteq> T"
  shows "sorted_wrt (<) (map dsTicker (plSymbols (plan_of listed existing ds))) \<and>
    set (map dsTicker (plSymbols (plan_of listed existing ds))) = set (map dsTicker ds) \<and>
    set (map dsTicker (filter dsTracked (plSymbols (plan_of listed existing ds)))) = T \<and>
    plCreated (plan_of listed existing ds) =
      filter (\<lambda>t. t \<notin> set (map esTicker existing)) (map dsTicker (plSymbols (plan_of listed existing ds))) \<and>
    sorted_wrt (<) (plAdmissions (plan_of listed existing ds)) \<and>
    set (plAdmissions (plan_of listed existing ds)) = {t \<in> T. \<not> latest_tracked existing t} \<and>
    sorted (plDepartures (plan_of listed existing ds)) \<and>
    set (plDepartures (plan_of listed existing ds)) = stored_tracked existing - T"
proof -
  let ?S = "sort_key dsTicker ds"
  have tr: "set (map dsTicker (filter dsTracked ?S)) = T" using T(1) by (simp add: tracked_in_def)
  have adm: "plAdmissions (plan_of listed existing ds) = map dsTicker (filter (\<lambda>d. dsTracked d \<and> \<not> latest_tracked existing (dsTicker d)) ?S)"
    by (simp add: plan_of_def Let_def latest_known)
  have cr: "plCreated (plan_of listed existing ds) = filter (\<lambda>t. t \<notin> set (map esTicker existing)) (map dsTicker ?S)"
    unfolding plan_of_def Let_def known_none by (simp add: filter_map comp_def)
  have dep: "set (plDepartures (plan_of listed existing ds)) = stored_tracked existing - T"
    using departures_set [of L ds existing] L T by (auto simp: plan_of_def Let_def)
  have s: "sorted_wrt (<) (map dsTicker ?S)" by (rule sort_key_strict [OF d])
  have sa: "sorted_wrt (<) (plAdmissions (plan_of listed existing ds))"
    unfolding adm using s by (simp add: sorted_wrt_map sorted_wrt_filter)
  have a: "set (plAdmissions (plan_of listed existing ds)) = {t \<in> T. \<not> latest_tracked existing t}"
    unfolding adm tr [symmetric] by auto
  have S: "plSymbols (plan_of listed existing ds) = ?S" by (simp add: plan_of_def Let_def)
  show ?thesis unfolding S using s tr cr sa a dep by (simp add: plan_of_def Let_def)
qed

text \<open>C39: A plan that is built asks for every ticker of the index files, every future root and every seed of
  the contract file and for nothing else, once each and in order; it tracks those the index files list and
  the seeds that say so; it creates those that are not stored; it admits those that are to be
  tracked and are not yet; and it retires those that are tracked and are no longer to be. An index
  ticker that no pattern matches fails the plan.\<close>

theorem plan_is_complete:
  "case BuildPlan files contracts existing of
     Inl (UnclassifiedLists bad) \<Rightarrow> set (map fst bad) = {t \<in> set (UnionTickers files). \<exists>err. ClassifyTicker t = Inl err} \<and> bad \<noteq> []
   | Inl err \<Rightarrow> list_ex (\<lambda>seed. seed_kind seed = Inl err) (ctSymbols contracts)
   | Inr p \<Rightarrow>
       (let T = set (UnionTickers files) \<union> set (map sdTicker (filter sdTracked (ctSymbols contracts)))
        in sorted_wrt (<) (map dsTicker (plSymbols p)) \<and>
           set (map dsTicker (plSymbols p)) =
             set (UnionTickers files) \<union> set (contracts_Roots contracts) \<union> set (map sdTicker (ctSymbols contracts)) \<and>
           set (map dsTicker (filter dsTracked (plSymbols p))) = T \<and>
           plCreated p = filter (\<lambda>t. t \<notin> set (map esTicker existing)) (map dsTicker (plSymbols p)) \<and>
           sorted_wrt (<) (plAdmissions p) \<and> set (plAdmissions p) = {t \<in> T. \<not> latest_tracked existing t} \<and>
           sorted (plDepartures p) \<and> set (plDepartures p) = stored_tracked existing - T)"
proof -
  define listed where "listed = concat (map (\<lambda>l. map (\<lambda>t. (t, ixFile l)) (ixTickers l)) files)"
  obtain ds1 bad where l: "desire_listed listed [] [] = (ds1, bad)" by fastforce
  have lt: "set (map fst listed) = set (UnionTickers files)" unfolding listed_def by (rule listed_tickers)
  have one: "distinct (map dsTicker ds1)"
    "set (map fst bad) = {t \<in> set (UnionTickers files). \<exists>err. ClassifyTicker t = Inl err}"
    "set (map dsTicker ds1) = {t \<in> set (UnionTickers files). \<exists>k. ClassifyTicker t = Inr k}"
    "tracked_in ds1 = {t \<in> set (UnionTickers files). \<exists>k. ClassifyTicker t = Inr k}"
    using desire_listed_sound [OF _ l] unfolding lt by simp_all
  define ds2 where "ds2 = fold desire (map future_desired (ctFutures contracts)) ds1"
  show ?thesis
  proof (cases "bad = []")
    case False
    thus ?thesis using one(2) l unfolding BuildPlan_def by (simp add: Let_def flip: listed_def)
  next
    case True
    hence all: "{t \<in> set (UnionTickers files). \<exists>k. ClassifyTicker t = Inr k} = set (UnionTickers files)"
      using one(2) by (auto simp: ex_Inr)
    have two: "distinct (map dsTicker ds2)"
      "set (map dsTicker ds2) = set (UnionTickers files) \<union> set (contracts_Roots contracts)"
      "tracked_in ds2 = set (UnionTickers files)"
      using fold_desire [OF one(1), of "map future_desired (ctFutures contracts)"]
      unfolding ds2_def [symmetric] one all future_tickers contracts_Roots_def by simp_all
    have B: "BuildPlan files contracts existing =
      (case desire_seeds (ctSymbols contracts) ds2 of Inl err \<Rightarrow> Inl err | Inr ds \<Rightarrow> Inr (plan_of listed existing ds))"
      using l True unfolding BuildPlan_def plan_of_def by (simp add: Let_def flip: listed_def ds2_def)
    show ?thesis
    proof (cases "desire_seeds (ctSymbols contracts) ds2")
      case (Inl err)
      from desire_seeds_error [OF this] desire_seeds_not_listed [of "ctSymbols contracts" ds2] show ?thesis
        unfolding B Inl using Inl by (cases err) auto
    next
      case (Inr ds)
      note three = desire_seeds_sound [OF two(1) Inr]
      have T: "tracked_in ds = set (UnionTickers files) \<union> set (map sdTicker (filter sdTracked (ctSymbols contracts)))"
        using three two(3) by simp
      have tk: "set (map dsTicker ds) = set (UnionTickers files) \<union> set (contracts_Roots contracts) \<union> set (map sdTicker (ctSymbols contracts))"
        using three two(2) by simp
      from plan_of_sound [OF lt conjunct1 [OF three] T, of existing] tk show ?thesis unfolding B Inr by (simp add: Let_def)
    qed
  qed
qed


section \<open>What a plan asks for can be traded\<close>

definition tradeable :: "desired_symbol \<Rightarrow> bool" where
  "tradeable d \<longleftrightarrow> dsTicker d \<noteq> [] \<and> kind_Valid (dsKind d) \<and> 0 <s dsLotSize d \<and> \<not> dsTickSize d \<le> 0 \<and>
     \<not> not_positive (dsPointValue d)"

definition good_future :: "future_contract \<Rightarrow> bool" where
  "good_future f \<longleftrightarrow> fcRoot f \<noteq> [] \<and> \<not> fcPointValue f \<le> 0 \<and> \<not> fcTickSize f \<le> 0 \<and> 0 <s fcLotSize f \<and>
     fcMonths f \<noteq> [] \<and> set (fcMonths f) \<subseteq> set monthCodes"

definition good_seed :: "symbol_seed \<Rightarrow> bool" where
  "good_seed s \<longleftrightarrow> sdTicker s \<noteq> [] \<and> (case sdLotSize s of None \<Rightarrow> True | Some n \<Rightarrow> 0 <s n) \<and>
     \<not> not_positive (sdTickSize s) \<and> \<not> not_positive (sdPointValue s) \<and>
     (sdKind s = [] \<or> \<not> isl (ParseKind (sdKind s)))"

lemma check_futures_good:
  "check_futures i seen fs = None \<Longrightarrow>
    list_all good_future fs \<and> distinct (map fcRoot fs) \<and> set (map fcRoot fs) \<inter> set seen = {}"
proof (induction i seen fs rule: check_futures.induct)
  case (2 i seen f fs)
  from "2.prems" have g: "good_future f" and new: "fcRoot f \<notin> set seen"
    and rest: "check_futures (i + 1) (fcRoot f # seen) fs = None"
    by (auto simp: good_future_def find_None_iff signed.not_le split: if_splits option.splits)
  show ?case using "2.IH" "2.prems" g new rest by (auto split: if_splits option.splits)
qed simp

lemma check_seeds_good:
  "check_seeds i seen ss = None \<Longrightarrow>
    list_all good_seed ss \<and> distinct (map sdTicker ss) \<and> set (map sdTicker ss) \<inter> set seen = {}"
proof (induction i seen ss rule: check_seeds.induct)
  case (2 i seen s ss)
  from "2.prems" have g: "good_seed s" and new: "sdTicker s \<notin> set seen"
    and rest: "check_seeds (i + 1) (sdTicker s # seen) ss = None"
    by (auto simp: good_seed_def isl_def signed.not_le split: if_splits option.splits sum.splits)
  show ?case using "2.IH" "2.prems" g new rest by (auto split: if_splits option.splits sum.splits)
qed simp

lemma LoadContracts_good:
  assumes "LoadContracts content = Inr c"
  shows "c = content \<and> list_all good_future (ctFutures c) \<and> distinct (contracts_Roots c) \<and>
    list_all good_seed (ctSymbols c) \<and> distinct (map sdTicker (ctSymbols c))"
  using assms check_futures_good [of 0 "[]" "ctFutures content"] check_seeds_good [of 0 "[]" "ctSymbols content"]
  by (auto simp: LoadContracts_def contracts_validate_def contracts_Roots_def split: option.splits)

lemma ParseKind_valid: "ParseKind s = Inr k \<Longrightarrow> kind_Valid k"
  by (simp add: ParseKind_def Let_def split: if_splits)

lemma kinds_valid [simp]:
  "kind_Valid KindStock" "kind_Valid KindFII" "kind_Valid KindBDR" "kind_Valid KindUnit"
  "kind_Valid KindIndex" "kind_Valid KindFuture" "kind_Valid KindCrypto"
  by (simp_all add: kind_Valid_def Kinds_def)

lemma ClassifyTicker_valid: "ClassifyTicker t = Inr k \<Longrightarrow> kind_Valid k"
  by (auto simp: ClassifyTicker_def Let_def split: if_splits option.splits)

lemma ClassifyTicker_text: "ClassifyTicker t = Inr k \<Longrightarrow> t \<noteq> []"
  by (auto simp: ClassifyTicker_def Let_def trim_space_def to_upper_def)

lemma lot_positive [simp]: "0 <s DefaultLotSize k"
proof -
  have "0 <s (100::i32)" "0 <s (1::i32)" by code_simp+
  thus ?thesis by (simp add: DefaultLotSize_def)
qed

lemma tick_positive [simp]: "\<not> DefaultTickSize k \<le> 0"
proof -
  have w: "rnd (of_int 1 / 2 ^ 7) = Fin (1 / 128)" using rnd_dyadic [of 1 7] by simp
  have "rnd (of_int 1 / 2 ^ 7) \<le> rnd (1 / 100)" by (rule rnd_mono) simp
  hence "\<not> rnd (1 / 100) \<le> 0" unfolding w by (cases "rnd (1 / 100)") (auto simp: less_eq_f64_def zero_f64_def)
  moreover have "\<not> (1::f64) \<le> 0" by (simp add: less_eq_f64_def zero_f64_def one_f64_def)
  ultimately show ?thesis by (simp add: DefaultTickSize_def)
qed

lemma desired_for_tradeable: "t \<noteq> [] \<Longrightarrow> kind_Valid k \<Longrightarrow> tradeable (desired_for t k b)"
  by (simp add: tradeable_def desired_for_def not_positive_def)

lemma future_tradeable: "good_future f \<Longrightarrow> tradeable (future_desired f)"
  by (simp add: tradeable_def good_future_def future_desired_def not_positive_def)

lemma applySeed_tradeable: "good_seed s \<Longrightarrow> tradeable d \<Longrightarrow> tradeable (applySeed s d)"
  by (auto simp: tradeable_def good_seed_def applySeed_def Let_def not_positive_def ParseKind_valid
      split: sum.splits option.splits)

lemma tradeable_tracked [simp]: "tradeable (d\<lparr>dsTracked := b\<rparr>) = tradeable d"
  by (simp add: tradeable_def)

lemma desire_tradeable: "list_all tradeable ds \<Longrightarrow> tradeable s \<Longrightarrow> list_all tradeable (desire s ds)"
  by (induction ds) auto

lemma fold_desire_tradeable:
  "list_all tradeable ss \<Longrightarrow> list_all tradeable ds \<Longrightarrow> list_all tradeable (fold desire ss ds)"
  by (induction ss arbitrary: ds) (auto simp: desire_tradeable)

lemma update_entry_tradeable:
  "good_seed s \<Longrightarrow> list_all tradeable ds \<Longrightarrow> list_all tradeable (update_entry t (applySeed s) ds)"
  by (auto simp: update_entry_def list_all_iff applySeed_tradeable)

lemma desire_listed_tradeable:
  "desire_listed ls ds bad = (ds', bad') \<Longrightarrow> list_all tradeable ds \<Longrightarrow> list_all tradeable ds'"
proof (induction ls ds bad rule: desire_listed.induct)
  case (2 t src rest ds bad)
  then show ?case
    by (cases "ClassifyTicker t")
      (simp_all add: desire_tradeable desired_for_tradeable ClassifyTicker_valid ClassifyTicker_text)
qed simp

lemma seed_kind_valid: "seed_kind s = Inr k \<Longrightarrow> kind_Valid k"
  by (auto simp: seed_kind_def ClassifyTicker_valid ParseKind_valid split: sum.splits if_splits)

lemma desire_seeds_tradeable:
  "desire_seeds ss ds = Inr ds' \<Longrightarrow> list_all good_seed ss \<Longrightarrow> list_all tradeable ds \<Longrightarrow> list_all tradeable ds'"
proof (induction ss ds rule: desire_seeds.induct)
  case (2 s ss ds)
  have g: "good_seed s" "sdTicker s \<noteq> []" using "2.prems"(2) by (simp_all add: good_seed_def)
  show ?case
  proof (cases "\<exists>d\<in>set ds. dsTicker d = sdTicker s")
    case True
    from "2.IH"(1) [OF True] "2.prems" True g show ?thesis by (simp add: update_entry_tradeable)
  next
    case False
    then obtain k where k: "seed_kind s = Inr k" using "2.prems"(1) by (simp split: sum.splits)
    from "2.IH"(2) [OF False k] "2.prems" False k g show ?thesis
      by (simp add: update_entry_tradeable desire_tradeable desired_for_tradeable seed_kind_valid)
  qed
qed simp

text \<open>C40: The contract file is accepted only with distinct roots and tickers, known months and positive
  values, and every symbol of a plan built on it has a ticker, a known kind, a positive lot, a positive
  tick and, where it has one, a positive point value.\<close>

theorem planned_symbols_tradeable:
  "case LoadContracts content of
     Inl err \<Rightarrow> contracts_validate content = Some err
   | Inr c \<Rightarrow> c = content \<and> list_all good_future (ctFutures c) \<and> distinct (contracts_Roots c) \<and>
       list_all good_seed (ctSymbols c) \<and> distinct (map sdTicker (ctSymbols c)) \<and>
       (case BuildPlan files c existing of Inl err \<Rightarrow> True | Inr p \<Rightarrow> list_all tradeable (plSymbols p))"
proof (cases "LoadContracts content")
  case (Inl err)
  then show ?thesis by (simp add: LoadContracts_def split: option.splits)
next
  case (Inr c)
  note g = LoadContracts_good [OF Inr]
  have "case BuildPlan files c existing of Inl err \<Rightarrow> True | Inr p \<Rightarrow> list_all tradeable (plSymbols p)"
  proof (cases "BuildPlan files c existing")
    case (Inr p)
    then obtain ds1 ds where
      a: "desire_listed (concat (map (\<lambda>l. map (\<lambda>t. (t, ixFile l)) (ixTickers l)) files)) [] [] = (ds1, [])" and
      b: "desire_seeds (ctSymbols c) (fold desire (map future_desired (ctFutures c)) ds1) = Inr ds" and
      p: "p = plan_of (concat (map (\<lambda>l. map (\<lambda>t. (t, ixFile l)) (ixTickers l)) files)) existing ds"
      by (auto simp: BuildPlan_def Let_def split: prod.splits if_splits sum.splits)
    have "list_all tradeable (map future_desired (ctFutures c))"
      using g by (auto simp: list_all_iff future_tradeable)
    from fold_desire_tradeable [OF this desire_listed_tradeable [OF a]]
    have "list_all tradeable (fold desire (map future_desired (ctFutures c)) ds1)" by simp
    hence "list_all tradeable ds" using desire_seeds_tradeable [OF b] g by blast
    thus ?thesis unfolding Inr p by (simp add: plan_of_def Let_def list_all_iff)
  qed simp
  thus ?thesis unfolding Inr sum.case using g by blast
qed

section \<open>What the index files give\<close>

definition good_list :: "index_list \<Rightarrow> bool" where
  "good_list l \<longleftrightarrow> ixIndex l \<noteq> [] \<and> parse_date (ixAsOf l) \<noteq> None \<and> ixTickers l \<noteq> [] \<and> distinct (ixTickers l) \<and>
     list_all (\<lambda>t. t \<noteq> [] \<and> to_upper t = t) (ixTickers l) \<and> 1 \<le> ixMonth l \<and> ixMonth l \<le> 12"

text \<open>A list of the index that is no older.\<close>

definition superseded :: "index_list list \<Rightarrow> string \<Rightarrow> int \<Rightarrow> int \<Rightarrow> bool" where
  "superseded ls index y m =
     list_ex (\<lambda>l. ixIndex l = index \<and> (y < ixYear l \<or> (y = ixYear l \<and> m \<le> ixMonth l))) ls"

definition listed_file :: "string \<times> bool \<times> index_list option \<Rightarrow> bool" where
  "listed_file entry = (case entry of (name, isDir, content) \<Rightarrow> \<not> isDir \<and> has_suffix name ''.json'')"

lemma upper_upper: "upper_char (upper_char c) = upper_char c"
proof (cases "97 \<le> (of_char c :: nat) \<and> (of_char c :: nat) \<le> 122")
  case True
  hence "(of_char c - 32 :: nat) mod 256 = of_char c - 32" by (intro mod_less) linarith
  thus ?thesis using True by (auto simp: upper_char_def Let_def)
next
  case False
  hence "upper_char c = c" by (simp only: upper_char_def Let_def if_False)
  thus ?thesis by simp
qed

lemma to_upper_idem [simp]: "to_upper (to_upper s) = to_upper s"
proof -
  have "upper_char (upper_char c) = upper_char c" for c
    by (rule upper_upper)
  thus ?thesis by (simp add: to_upper_def)
qed

lemma normal_tickers_good:
  "normal_tickers name i seen ts = Inr out \<Longrightarrow> distinct seen \<Longrightarrow> list_all (\<lambda>t. t \<noteq> [] \<and> to_upper t = t) seen \<Longrightarrow>
    distinct out \<and> list_all (\<lambda>t. t \<noteq> [] \<and> to_upper t = t) out \<and> length out = length seen + length ts"
proof (induction ts arbitrary: i seen)
  case (Cons t ts)
  let ?n = "to_upper (trim_space t)"
  have n: "?n \<noteq> []" "?n \<notin> set seen" "normal_tickers name (i + 1) (?n # seen) ts = Inr out"
    using Cons.prems(1) by (simp_all add: Let_def split: if_splits)
  from Cons.IH [OF n(3)] n(1,2) Cons.prems(2,3) show ?case by simp
next
  case Nil
  then show ?case by (auto simp: list_all_iff)
qed

lemma loadIndexList_good:
  assumes "loadIndexList name content = Inr l" "1 \<le> m" "m \<le> 12"
  shows "good_list (l\<lparr>ixYear := y, ixMonth := m\<rparr>)"
proof -
  obtain l0 ts where l0: "content = Some l0" "ixIndex l0 \<noteq> []" "parse_date (ixAsOf l0) \<noteq> None" "ixTickers l0 \<noteq> []"
    and ts: "normal_tickers name 0 [] (ixTickers l0) = Inr ts" and l: "l = l0\<lparr>ixFile := name, ixTickers := ts\<rparr>"
    using assms(1) by (auto simp: loadIndexList_def split: option.splits if_splits sum.splits)
  from normal_tickers_good [OF ts] l0 assms(2,3) show ?thesis unfolding l good_list_def by auto
qed

lemma keep_newest_index: "set (map ixIndex (keep_newest l ls)) = insert (ixIndex l) (set (map ixIndex ls))"
  by (induction ls) auto

lemma keep_newest_distinct: "distinct (map ixIndex ls) \<Longrightarrow> distinct (map ixIndex (keep_newest l ls))"
proof (induction ls)
  case (Cons x ls)
  then show ?case using keep_newest_index [of l ls] by (auto simp del: set_map)
qed simp

lemma keep_newest_all: "list_all P ls \<Longrightarrow> P l \<Longrightarrow> list_all P (keep_newest l ls)"
  by (induction ls) auto

lemma keep_newest_set: "k \<in> set (keep_newest l ls) \<Longrightarrow> k = l \<or> k \<in> set ls"
  by (induction ls) (auto split: if_splits)

lemma superseded_simps [simp]:
  "superseded [] index y m = False"
  "superseded (l # ls) index y m \<longleftrightarrow>
    (ixIndex l = index \<and> (y < ixYear l \<or> (y = ixYear l \<and> m \<le> ixMonth l))) \<or> superseded ls index y m"
  by (simp_all add: superseded_def)

lemma keep_newest_covers: "superseded (keep_newest l ls) (ixIndex l) (ixYear l) (ixMonth l)"
  by (induction ls) auto

lemma keep_newest_keeps: "superseded ls index y m \<Longrightarrow> superseded (keep_newest l ls) index y m"
  by (induction ls) auto

text \<open>A file of the directory whose index has a list no older than it.\<close>

definition accounted :: "index_list list \<Rightarrow> string \<times> bool \<times> index_list option \<Rightarrow> bool" where
  "accounted ls entry =
     (case entry of (name, isDir, content) \<Rightarrow>
        (case index_file_name name of None \<Rightarrow> False | Some (index, y, m) \<Rightarrow> superseded ls index y m))"

text \<open>A list that comes from a file of the directory.\<close>

definition from_file :: "string \<Rightarrow> (string \<times> bool \<times> index_list option) list \<Rightarrow> index_list \<Rightarrow> bool" where
  "from_file dir entries l =
     list_ex (\<lambda>(name, isDir, content). \<not> isDir \<and> index_file_name name = Some (ixIndex l, ixYear l, ixMonth l) \<and>
       (case loadIndexList (dir @ ''/'' @ name) content of
          Inl err \<Rightarrow> False
        | Inr l0 \<Rightarrow> l = l0\<lparr>ixYear := ixYear l, ixMonth := ixMonth l\<rparr>)) entries"

lemma from_file_Cons [simp]:
  "from_file dir ((name, isDir, content) # entries) l \<longleftrightarrow>
    (\<not> isDir \<and> index_file_name name = Some (ixIndex l, ixYear l, ixMonth l) \<and>
       (case loadIndexList (dir @ ''/'' @ name) content of
          Inl err \<Rightarrow> False
        | Inr l0 \<Rightarrow> l = l0\<lparr>ixYear := ixYear l, ixMonth := ixMonth l\<rparr>)) \<or> from_file dir entries l"
  by (simp add: from_file_def)

lemma accounted_keep: "accounted ls entry \<Longrightarrow> accounted (keep_newest l ls) entry"
  by (auto simp: accounted_def keep_newest_keeps split: prod.splits option.splits)

text \<open>The list a file of the directory gives.\<close>

lemma index_file_step:
  assumes "index_files dir acc ((name, isDir, content) # entries) = Inr out" "listed_file (name, isDir, content)"
  obtains index y m l where "index_file_name name = Some (index, y, m)"
    "loadIndexList (dir @ ''/'' @ name) content = Inr l" "ixIndex l = index" "1 \<le> m" "m \<le> 12"
    "index_files dir (keep_newest (l\<lparr>ixYear := y, ixMonth := m\<rparr>) acc) entries = Inr out"
  using assms by (auto simp: listed_file_def split: option.splits sum.splits if_splits)

lemma index_files_keeps:
  "index_files dir acc entries = Inr out \<Longrightarrow> superseded acc index y m \<Longrightarrow> superseded out index y m"
proof (induction entries arbitrary: acc)
  case (Cons entry entries)
  obtain name isDir content where e: "entry = (name, isDir, content)" by (cases entry)
  show ?case
  proof (cases "listed_file entry")
    case True
    from index_file_step [OF Cons.prems(1) [unfolded e] True [unfolded e]] obtain l y' m' where
      "index_files dir (keep_newest (l\<lparr>ixYear := y', ixMonth := m'\<rparr>) acc) entries = Inr out" by metis
    from Cons.IH [OF this keep_newest_keeps [OF Cons.prems(2)]] show ?thesis .
  next
    case False
    thus ?thesis using Cons e by (simp add: listed_file_def)
  qed
qed simp

lemma index_files_good:
  assumes "index_files dir acc entries = Inr out" "distinct (map ixIndex acc)" "list_all good_list acc"
  shows "distinct (map ixIndex out) \<and> list_all good_list out \<and>
    list_all (\<lambda>l. l \<in> set acc \<or> from_file dir entries l) out \<and>
    list_all (accounted out) (filter listed_file entries)"
  using assms
proof (induction entries arbitrary: acc)
  case Nil
  then show ?case by (simp add: list_all_iff)
next
  case (Cons entry entries)
  obtain name isDir content where e: "entry = (name, isDir, content)" by (cases entry)
  show ?case
  proof (cases "listed_file entry")
    case False
    have rest: "index_files dir acc entries = Inr out" using Cons.prems(1) False e by (simp add: listed_file_def)
    have "k \<in> set acc \<or> from_file dir (entry # entries) k" if "k \<in> set out" for k
      using Cons.IH [OF rest Cons.prems(2,3)] that e by (auto simp: list_all_iff)
    thus ?thesis using Cons.IH [OF rest Cons.prems(2,3)] False by (simp add: list_all_iff)
  next
    case True
    from index_file_step [OF Cons.prems(1) [unfolded e] True [unfolded e]] obtain index y m l where
      f: "index_file_name name = Some (index, y, m)" and l: "loadIndexList (dir @ ''/'' @ name) content = Inr l"
      and i: "ixIndex l = index" "1 \<le> m" "m \<le> 12"
      and rest: "index_files dir (keep_newest (l\<lparr>ixYear := y, ixMonth := m\<rparr>) acc) entries = Inr out" by metis
    let ?l = "l\<lparr>ixYear := y, ixMonth := m\<rparr>"
    have g: "good_list ?l" by (rule loadIndexList_good [OF l i(2,3)])
    have ih: "distinct (map ixIndex out) \<and> list_all good_list out \<and>
      list_all (\<lambda>l. l \<in> set (keep_newest ?l acc) \<or> from_file dir entries l) out \<and> list_all (accounted out) (filter listed_file entries)"
      by (rule Cons.IH [OF rest keep_newest_distinct [OF Cons.prems(2)] keep_newest_all [OF Cons.prems(3) g]])
    have "superseded out index y m"
      using index_files_keeps [OF rest, of index y m] keep_newest_covers [of ?l acc] i(1) by simp
    hence now: "accounted out entry" using f e by (simp add: accounted_def)
    have src: "from_file dir (entry # entries) ?l" using True l f i(1) e by (simp add: listed_file_def)
    have "k \<in> set acc \<or> from_file dir (entry # entries) k" if "k \<in> set out" for k
      using ih that src keep_newest_set [of k ?l acc] e by (auto simp: list_all_iff)
    thus ?thesis using ih now True by (simp add: list_all_iff)
  qed
qed

text \<open>The index files are read to one list per index, in the order of the index names: each comes from a
  file whose name says its index, year and month, holds distinct tickers in upper case, and no file of
  the directory is of a later month for that index.\<close>

theorem newest_index_lists:
  "case LoadIndexLists dir entries of
     Inl err \<Rightarrow> True
   | Inr ls \<Rightarrow> ls \<noteq> [] \<and> sorted_wrt (<) (map ixIndex ls) \<and> list_all good_list ls \<and>
       list_all (from_file dir entries) ls \<and> list_all (accounted ls) (filter listed_file entries)"
proof (cases "LoadIndexLists dir entries")
  case (Inr ls)
  then obtain out where out: "index_files dir [] entries = Inr out" "out \<noteq> []" "ls = sort_key ixIndex out"
    by (auto simp: LoadIndexLists_def split: sum.splits if_splits)
  from index_files_good [OF out(1)] have
    g: "distinct (map ixIndex out)" "list_all good_list out" "list_all (from_file dir entries) out"
      "list_all (accounted out) (filter listed_file entries)" by simp_all
  have "superseded ls = superseded out" unfolding out(3)
    by (intro ext) (simp add: superseded_def list_ex_iff)
  hence "accounted ls = accounted out" by (intro ext) (simp only: accounted_def)
  thus ?thesis unfolding Inr using g sort_key_strict [OF g(1)] out(2,3)
    by (auto simp: list_all_iff dest: arg_cong [where f = length])
qed simp

end
