(* ===== verification/Json.thy ===== *)
theory Json
  imports Text "HOL-Library.AList" "HOL-Library.List_Lexorder" "HOL-Library.Char_ord"
begin

text \<open>
  What the strategy parser and the sweep axes share: the values \<open>encoding/json\<close> decodes into an
  \<open>any\<close>, the pointers of a fault (internal/strategy/fault.go), and results that are a fault or a value.
  A Go map is an association list, of which the first entry of a key counts; every function on it reads
  it through \<open>map_of\<close> and the sorted list of its distinct keys.
\<close>

section \<open>Results\<close>

text \<open>The early return on an error.\<close>

definition and_then :: "'e + 'a \<Rightarrow> ('a \<Rightarrow> 'e + 'b) \<Rightarrow> 'e + 'b" where
  "and_then r f = (case r of Inl e \<Rightarrow> Inl e | Inr x \<Rightarrow> f x)"

lemma and_then_simps [simp]:
  "and_then (Inl e) f = Inl e"
  "and_then (Inr x) f = f x"
  by (simp_all add: and_then_def)

lemma and_then_cong [fundef_cong]:
  "r = r' \<Longrightarrow> (\<And>x. r' = Inr x \<Longrightarrow> f x = f' x) \<Longrightarrow> and_then r f = and_then r' f'"
  by (cases r') auto

lemma and_then_Inr: "and_then r f = Inr y \<longleftrightarrow> (\<exists>x. r = Inr x \<and> f x = Inr y)"
  by (cases r) auto

lemma and_then_Inl: "and_then r f = Inl e \<longleftrightarrow> r = Inl e \<or> (\<exists>x. r = Inr x \<and> f x = Inl e)"
  by (cases r) auto

text \<open>The check of a guard: an error, or going on.\<close>

definition guard :: "bool \<Rightarrow> 'e \<Rightarrow> 'e + 'a \<Rightarrow> 'e + 'a" where
  "guard bad err r = (if bad then Inl err else r)"

declare guard_def [code_unfold]

lemma guard_cong [fundef_cong]:
  "bad = bad' \<Longrightarrow> err = err' \<Longrightarrow> (\<not> bad' \<Longrightarrow> r = r') \<Longrightarrow> guard bad err r = guard bad' err' r'"
  by (simp add: guard_def)

lemma guard_Inr [simp]: "guard bad err r = Inr y \<longleftrightarrow> \<not> bad \<and> r = Inr y"
  by (simp add: guard_def)

lemma guard_pass [simp]: "guard False err r = r" and guard_stop [simp]: "guard True err r = Inl err"
  by (simp_all add: guard_def)

section \<open>Values\<close>

datatype json =
    JNull
  | JBool bool
  | JNum f64
  | JStr string
  | JArr "json list"
  | JObj "(string \<times> json) list"

text \<open>The distinct keys of a map, sorted: what \<open>sortedKeys\<close> and \<open>sortedParams\<close> return.\<close>

definition sortedKeys :: "(string \<times> 'v) list \<Rightarrow> string list" where
  "sortedKeys body = sort (remdups (map fst body))"

lemma set_sortedKeys [simp]: "set (sortedKeys body) = fst ` set body"
  by (simp add: sortedKeys_def)

lemma sortedKeys_sorted: "sorted_wrt (<) (sortedKeys body)"
  by (simp add: sortedKeys_def strict_sorted_iff)

lemma sortedKeys_Nil [simp]: "sortedKeys body = [] \<longleftrightarrow> body = []"
proof -
  have "sortedKeys body = [] \<longleftrightarrow> set (sortedKeys body) = {}" by (simp only: set_empty)
  also have "\<dots> \<longleftrightarrow> body = []" by (simp only: set_sortedKeys image_is_empty set_empty)
  finally show ?thesis .
qed

lemma sortedKeys_single [simp]: "sortedKeys [(k, v)] = [k]"
  by (simp add: sortedKeys_def)

text \<open>Two sorted lists of the same keys are one.\<close>

lemma sortedKeys_eqI:
  assumes "sorted_wrt (<) ks" and "set ks = fst ` set body"
  shows "sortedKeys body = ks"
proof (rule sorted_distinct_set_unique)
  show "sorted (sortedKeys body)" "distinct (sortedKeys body)" by (simp_all add: sortedKeys_def)
  show "sorted ks" "distinct ks" using assms(1) by (simp_all add: strict_sorted_iff)
  show "set (sortedKeys body) = set ks" using assms(2) by simp
qed

text \<open>A field by indexing: an absent one reads as nil, which is also what \<open>null\<close> decodes to.\<close>

definition field :: "(string \<times> json) list \<Rightarrow> string \<Rightarrow> json" where
  "field body key = (case map_of body key of None \<Rightarrow> JNull | Some v \<Rightarrow> v)"

definition member :: "json list \<Rightarrow> nat \<Rightarrow> json" where
  "member items i = (if i < length items then items ! i else JNull)"

section \<open>Pointers\<close>

text \<open>\<open>strconv.Itoa\<close> of an index.\<close>

fun show_nat :: "nat \<Rightarrow> string" where
  "show_nat n = (if n < 10 then [digit_char (int n)] else show_nat (n div 10) @ [digit_char (int (n mod 10))])"

declare show_nat.simps [simp del]

type_synonym path = "string list"

definition child :: "path \<Rightarrow> string \<Rightarrow> path" where
  "child p token = p @ [token]"

definition index :: "path \<Rightarrow> nat \<Rightarrow> path" where
  "index p n = child p (show_nat n)"

text \<open>\<open>escapeToken\<close>: every tilde becomes \<open>~0\<close>, then every slash \<open>~1\<close>.\<close>

fun replace_char :: "char \<Rightarrow> string \<Rightarrow> string \<Rightarrow> string" where
  "replace_char c r [] = []"
| "replace_char c r (x # xs) = (if x = c then r @ replace_char c r xs else x # replace_char c r xs)"

definition escapeToken :: "string \<Rightarrow> string" where
  "escapeToken token = replace_char (CHR ''/'') ''~1'' (replace_char (CHR ''~'') ''~0'' token)"

definition path_String :: "path \<Rightarrow> string" where
  "path_String p = concat (map (\<lambda>token. CHR ''/'' # escapeToken token) p)"

text \<open>The inverse that RFC 6901 gives: slashes split, then \<open>~1\<close> and \<open>~0\<close> are read back.\<close>

fun unescape :: "string \<Rightarrow> string" where
  "unescape (c # d # xs) =
     (if c = CHR ''~'' \<and> d = CHR ''0'' then CHR ''~'' # unescape xs
      else if c = CHR ''~'' \<and> d = CHR ''1'' then CHR ''/'' # unescape xs
      else c # unescape (d # xs))"
| "unescape xs = xs"

definition read_pointer :: "string \<Rightarrow> path" where
  "read_pointer s = map unescape (tl (split_on (CHR ''/'') s))"

text \<open>One pass escapes both.\<close>

fun escape_once :: "string \<Rightarrow> string" where
  "escape_once [] = []"
| "escape_once (x # xs) =
     (if x = CHR ''~'' then ''~0'' else if x = CHR ''/'' then ''~1'' else [x]) @ escape_once xs"

lemma replace_char_append: "replace_char c r (xs @ ys) = replace_char c r xs @ replace_char c r ys"
  by (induction xs) auto

lemma escapeToken_once: "escapeToken token = escape_once token"
  unfolding escapeToken_def by (induction token) (auto simp: replace_char_append)

lemma unescape_escape [simp]: "unescape (escape_once xs) = xs"
proof (induction xs)
  case (Cons x xs)
  show ?case
  proof (cases "x = CHR ''~'' \<or> x = CHR ''/''")
    case False
    then have "unescape (x # ys) = x # unescape ys" for ys by (cases ys) auto
    with False Cons show ?thesis by simp
  qed (use Cons in auto)
qed simp

lemma escape_no_slash: "CHR ''/'' \<notin> set (escape_once xs)"
  by (induction xs) auto

lemma split_on_prefix: "c \<notin> set a \<Longrightarrow> split_on c (a @ c # b) = a # split_on c b"
  by (induction a) auto

lemma split_on_none: "c \<notin> set a \<Longrightarrow> split_on c a = [a]"
  by (induction a) auto

lemma split_path: "split_on (CHR ''/'') (a @ path_String p) =
    (if CHR ''/'' \<in> set a then split_on (CHR ''/'') (a @ path_String p) else a # map escape_once p)"
proof (induction p arbitrary: a)
  case Nil
  show ?case by (simp add: path_String_def split_on_none)
next
  case (Cons t p)
  have s: "path_String (t # p) = CHR ''/'' # escape_once t @ path_String p"
    by (simp add: path_String_def escapeToken_once)
  have "split_on (CHR ''/'') (escape_once t @ path_String p) = escape_once t # map escape_once p"
    using Cons [of "escape_once t"] escape_no_slash [of t] by simp
  then show ?case unfolding s using split_on_prefix [of "CHR ''/''" a "escape_once t @ path_String p"] by simp
qed

text \<open>A fault's pointer tells its place: reading it back, as RFC 6901 has it, gives the path it was written from, so
  that two paths never share a pointer.\<close>

theorem pointer_roundtrip: "read_pointer (path_String p) = p"
proof -
  have "split_on (CHR ''/'') (path_String p) = [] # map escape_once p"
    using split_path [of "[]" p] by simp
  then show ?thesis by (simp add: read_pointer_def comp_def)
qed

end
