(* ===== verification/Parser.thy ===== *)
theory Parser
  imports Compile Json
begin

text \<open>
  The strategy parser (internal/strategy/parse.go), from the decoded JSON value to the specification or
  to the fault that names its place and its reason. A reason is a constructor with what the message
  prints; the texts themselves are not modelled. The counters of the parser's receiver are threaded
  through the calls. The version of a specification is always 1 and is not kept. An operand's field
  counts only where its kind is that of a field.
\<close>

section \<open>Faults\<close>

datatype shape_reason =
    NotJson
  | NotObject string
  | NotArray string
  | NotString string
  | NotNumber string
  | NotFinite string
  | NotWholeNumber string f64
  | FieldMissing string string
  | UnknownField string "string list"
  | UnwantedField level_type string string
  | WrongVersion int
  | NoEntry
  | NoSizing
  | ExitWithoutEntry string
  | StopNeeded string

datatype input_reason =
    NoInputs
  | TooManyInputs nat
  | NameEmpty
  | NameTooLong
  | NameUnusable string
  | NameIsField string
  | VolumeSource
  | ReadsItself string
  | SourceUnknown string
  | FeedLoop "string list"
  | NoIndicator
  | UnknownIndicatorName string
  | TakesNoSource string
  | NoSuchParam string string
  | ParamOutside string f64 f64 f64
  | ParamNotWhole string f64
  | BadParams param_error
  | NoSuchLine string string

datatype rule_reason =
    SideEmpty string
  | TooDeep
  | TooManyNodes
  | NotOneOperator nat
  | EmptyAll
  | EmptyAny
  | MisplacedBracket string
  | SecondBracket string
  | UnknownRule string
  | WrongArity comparator nat
  | SpanReversed f64 f64
  | BadTrendBars comparator
  | NotOperand
  | NotOneRef
  | NoSuchOperand string
  | RefLength nat
  | RefName
  | BackOutside int
  | UnknownName string
  | UnknownInput string
  | LineIndicator string string

datatype value_reason =
    LevelTypeMissing string
  | UnknownLevelType string string
  | PctOutside string f64
  | ATRMissing
  | ATRPeriodOutside f64 f64 int
  | MultOutside string f64
  | SizingTypeMissing
  | UnknownSizingType string
  | FixedQtyOutside f64
  | FixedCashOutside f64
  | FractionOutside sizing_type f64
  | BrokerageOutside int
  | BpsOutside string f64

datatype fault_reason =
    ShapeFault shape_reason
  | InputFault input_reason
  | RuleFault rule_reason
  | ValueFault value_reason

datatype fault = Fault path fault_reason

definition fault_at :: "path \<Rightarrow> fault_reason \<Rightarrow> fault + 'a" where
  "fault_at pt reason = Inl (Fault pt reason)"

section \<open>Typed access\<close>

definition object :: "json \<Rightarrow> path \<Rightarrow> string \<Rightarrow> fault + (string \<times> json) list" where
  "object v pt what = (case v of JObj body \<Rightarrow> Inr body | _ \<Rightarrow> fault_at pt (ShapeFault (NotObject what)))"

definition json_list :: "json \<Rightarrow> path \<Rightarrow> string \<Rightarrow> fault + json list" where
  "json_list v pt what = (case v of JArr items \<Rightarrow> Inr items | _ \<Rightarrow> fault_at pt (ShapeFault (NotArray what)))"

definition str :: "json \<Rightarrow> path \<Rightarrow> string \<Rightarrow> fault + string" where
  "str v pt what = (case v of JStr t \<Rightarrow> Inr t | _ \<Rightarrow> fault_at pt (ShapeFault (NotString what)))"

definition number :: "json \<Rightarrow> path \<Rightarrow> string \<Rightarrow> fault + f64" where
  "number v pt what =
     (case v of
        JNum x \<Rightarrow> if x = NaN \<or> is_inf x then fault_at pt (ShapeFault (NotFinite what)) else Inr x
      | _ \<Rightarrow> fault_at pt (ShapeFault (NotNumber what)))"

definition wholeNumber :: "json \<Rightarrow> path \<Rightarrow> string \<Rightarrow> fault + int" where
  "wholeNumber v pt what =
     and_then (number v pt what) (\<lambda>x.
       guard (\<not> feq x (math_Trunc x) \<or> \<bar>x\<bar> > Fin 2147483647) (Fault pt (ShapeFault (NotWholeNumber what x))) (Inr (go_int x)))"

definition requiredNumber :: "(string \<times> json) list \<Rightarrow> path \<Rightarrow> string \<Rightarrow> string \<Rightarrow> fault + f64" where
  "requiredNumber body pt key what =
     (case map_of body key of
        None \<Rightarrow> fault_at (child pt key) (ShapeFault (FieldMissing what key))
      | Some v \<Rightarrow> number v (child pt key) key)"

definition requiredWhole :: "(string \<times> json) list \<Rightarrow> path \<Rightarrow> string \<Rightarrow> string \<Rightarrow> fault + int" where
  "requiredWhole body pt key what =
     (case map_of body key of
        None \<Rightarrow> fault_at (child pt key) (ShapeFault (FieldMissing what key))
      | Some v \<Rightarrow> wholeNumber v (child pt key) key)"

fun unwanted :: "(string \<times> json) list \<Rightarrow> path \<Rightarrow> string \<Rightarrow> level_type \<Rightarrow> string list \<Rightarrow> fault + unit" where
  "unwanted body pt what kind [] = Inr ()"
| "unwanted body pt what kind (f # fs) =
     (if map_of body f \<noteq> None then fault_at (child pt f) (ShapeFault (UnwantedField kind what f)) else unwanted body pt what kind fs)"

definition onlyFields :: "(string \<times> json) list \<Rightarrow> path \<Rightarrow> string list \<Rightarrow> fault + unit" where
  "onlyFields body pt allowed =
     (case find (\<lambda>name. name \<notin> set allowed) (sortedKeys body) of
        None \<Rightarrow> Inr ()
      | Some name \<Rightarrow> fault_at (child pt name) (ShapeFault (UnknownField name allowed)))"

definition clean :: "string \<Rightarrow> string" where
  "clean t = to_lower (trim_space t)"

definition lower_letter :: "char \<Rightarrow> bool" where
  "lower_letter c = (let n = of_char c :: nat in 97 \<le> n \<and> n \<le> 122)"

definition is_identifier :: "string \<Rightarrow> bool" where
  "is_identifier name =
     (case name of
        [] \<Rightarrow> False
      | c # cs \<Rightarrow> lower_letter c \<and> list_all (\<lambda>d. lower_letter d \<or> digit_of d \<noteq> None \<or> d = CHR ''_'') cs)"

definition MaxInputs :: nat where "MaxInputs = 12"
definition MaxNameLen :: nat where "MaxNameLen = 24"
definition Version :: int where "Version = 1"
definition MaxBPS :: f64 where "MaxBPS = Fin 1000"
definition MaxBrokerageCents :: int where "MaxBrokerageCents = 1000000"
definition ATRIndicator :: string where "ATRIndicator = ''atr''"

definition usableName :: "string \<Rightarrow> path \<Rightarrow> fault + unit" where
  "usableName name pt =
     (if name = [] then fault_at pt (InputFault NameEmpty)
      else if length name > MaxNameLen then fault_at pt (InputFault NameTooLong)
      else if \<not> is_identifier name then fault_at pt (InputFault (NameUnusable name))
      else if field_of name \<noteq> None then fault_at pt (InputFault (NameIsField name))
      else Inr ())"

section \<open>Inputs\<close>

record raw_input =
  riIndicator :: string
  riParams :: "(string \<times> f64) list"
  riSource :: string
  riOutput :: string

fun read_params :: "(string \<times> json) list \<Rightarrow> path \<Rightarrow> string list \<Rightarrow> (string \<times> f64) list \<Rightarrow> fault + (string \<times> f64) list" where
  "read_params body pt [] acc = Inr acc"
| "read_params body pt (key # keys) acc =
     and_then (number (field body key) (child pt key) key) (\<lambda>x.
       read_params body pt keys (AList.update (clean key) x acc))"

text \<open>The optional text fields of an input.\<close>

definition read_text :: "(string \<times> json) list \<Rightarrow> path \<Rightarrow> string \<Rightarrow> fault + string" where
  "read_text body pt key =
     (if field body key = JNull then Inr []
      else and_then (str (field body key) (child pt key) key) (\<lambda>t. Inr (clean t)))"

text \<open>The optional parameters.\<close>

definition read_values :: "(string \<times> json) list \<Rightarrow> path \<Rightarrow> fault + (string \<times> f64) list" where
  "read_values body pt =
     (if field body ''params'' = JNull then Inr []
      else and_then (object (field body ''params'') (child pt ''params'') ''params'') (\<lambda>params.
             read_params params (child pt ''params'') (sortedKeys params) []))"

definition readInput :: "json \<Rightarrow> path \<Rightarrow> fault + raw_input" where
  "readInput v pt =
     and_then (object v pt ''an input'') (\<lambda>body.
     and_then (onlyFields body pt [''indicator'', ''params'', ''source'', ''output'']) (\<lambda>_.
     case map_of body ''indicator'' of
       None \<Rightarrow> fault_at (child pt ''indicator'') (InputFault NoIndicator)
     | Some name \<Rightarrow>
         and_then (str name (child pt ''indicator'') ''an indicator'') (\<lambda>t.
         and_then (read_values body pt) (\<lambda>values.
         and_then (read_text body pt ''source'') (\<lambda>src.
         and_then (read_text body pt ''output'') (\<lambda>out.
           Inr \<lparr>riIndicator = clean t, riParams = values, riSource = src, riOutput = out\<rparr>))))))"

definition param_named :: "spec \<Rightarrow> string \<Rightarrow> param option" where
  "param_named s name = find (\<lambda>q. pmName q = name) (rev (spParams s))"

fun param_fault_at :: "spec \<Rightarrow> (string \<times> f64) list \<Rightarrow> path \<Rightarrow> string list \<Rightarrow> fault + unit" where
  "param_fault_at s values pt [] = Inr ()"
| "param_fault_at s values pt (name # names) =
     (case param_named s name of
        None \<Rightarrow> fault_at (child pt name) (InputFault (NoSuchParam (spName s) name))
      | Some q \<Rightarrow>
          (let value = (case map_of values name of None \<Rightarrow> 0 | Some x \<Rightarrow> x)
           in if value < pmMin q \<or> value > pmMax q then fault_at (child pt name) (InputFault (ParamOutside name (pmMin q) (pmMax q) value))
              else if pmKind q = ParamInt \<and> \<not> feq value (math_Trunc value) then fault_at (child pt name) (InputFault (ParamNotWhole name value))
              else param_fault_at s values pt names))"

definition paramFault :: "spec \<Rightarrow> (string \<times> f64) list \<Rightarrow> path \<Rightarrow> fault + unit" where
  "paramFault s values pt = param_fault_at s values pt (sortedKeys values)"

definition params_All :: "instance_of \<Rightarrow> (string \<times> f64) list" where
  "params_All inst =
     map (\<lambda>q. (pmName q, case pValues (inParams inst) (pmName q) of None \<Rightarrow> 0 | Some x \<Rightarrow> x)) (spParams (inSpec inst))"

definition DefaultSource :: string where "DefaultSource = ''close''"

definition build :: "spec list \<Rightarrow> raw_input \<Rightarrow> path \<Rightarrow> bool \<Rightarrow> fault + input" where
  "build reg raw pt chained =
     (case Lookup reg (riIndicator raw) of
        None \<Rightarrow> fault_at (child pt ''indicator'') (InputFault (UnknownIndicatorName (riIndicator raw)))
      | Some s \<Rightarrow>
          guard (riSource raw \<noteq> [] \<and> \<not> spSourced s) (Fault (child pt ''source'') (InputFault (TakesNoSource (spName s))))
            (and_then (paramFault s (riParams raw) (child pt ''params'')) (\<lambda>_.
             let src = (if \<not> chained \<and> riSource raw \<noteq> [] then field_of (riSource raw) else None)
             in case New reg (spName s) (riParams raw) src of
                  Inl err \<Rightarrow> fault_at (child pt ''params'') (InputFault (BadParams err))
                | Inr inst \<Rightarrow>
                    (let out = (if riOutput raw = [] then hd (spOutputs s) else riOutput raw)
                     in guard (out \<notin> set (spOutputs s)) (Fault (child pt ''output'') (InputFault (NoSuchLine (spName s) out)))
                          (Inr \<lparr>inpIndicator = spName s, inpParams = params_All inst,
                             inpSource = (if spSourced s then (if riSource raw = [] then DefaultSource else riSource raw) else []),
                             inpOutput = out, inpSourced = spSourced s, inpMulti = (length (spOutputs s) > 1)\<rparr>)))))"

fun read_raws :: "(string \<times> json) list \<Rightarrow> path \<Rightarrow> string list \<Rightarrow> fault + (string \<times> raw_input) list" where
  "read_raws body pt [] = Inr []"
| "read_raws body pt (name # names) =
     and_then (usableName name (child pt name)) (\<lambda>_.
     and_then (readInput (field body name) (child pt name)) (\<lambda>raw.
     and_then (read_raws body pt names) (\<lambda>rest. Inr ((name, raw) # rest))))"

text \<open>Which inputs read from another one.\<close>

fun read_chains :: "(string \<times> raw_input) list \<Rightarrow> path \<Rightarrow> (string \<times> raw_input) list \<Rightarrow> fault + (string \<times> string) list" where
  "read_chains raws pt [] = Inr []"
| "read_chains raws pt ((name, raw) # rest) =
     (let src = riSource raw; spot = child (child pt name) ''source''
      in if src = [] then read_chains raws pt rest
         else if src = ''volume'' then fault_at spot (InputFault VolumeSource)
         else if field_of src \<noteq> None then read_chains raws pt rest
         else if src = name then fault_at spot (InputFault (ReadsItself name))
         else if map_of raws src = None then fault_at spot (InputFault (SourceUnknown src))
         else and_then (read_chains raws pt rest) (\<lambda>chain. Inr ((name, src) # chain)))"

text \<open>
  \<open>findCycle\<close>: the walk along the chain from a name, up to its end, a name that is shut, or one
  that is open because the walk has been there.
\<close>

definition next_in :: "(string \<times> string) list \<Rightarrow> string \<Rightarrow> string" where
  "next_in chain name = (case map_of chain name of None \<Rightarrow> [] | Some up \<Rightarrow> up)"

function walk_chain :: "(string \<times> string) list \<Rightarrow> string list \<Rightarrow> string list \<Rightarrow> string \<Rightarrow> string list \<times> string" where
  "walk_chain chain shut walk name =
     (if name = [] \<or> name \<in> set shut \<or> name \<in> set walk then (walk, name)
      else walk_chain chain shut (walk @ [name]) (next_in chain name))"
  by pat_completeness auto

termination
proof (relation "measure (\<lambda>(chain, shut, walk, name). card (fst ` set chain - set walk) + (if name = [] then 0 else 1))")
  fix chain :: "(string \<times> string) list" and shut walk :: "string list" and name :: string
  assume a: "\<not> (name = [] \<or> name \<in> set shut \<or> name \<in> set walk)"
  show "((chain, shut, walk @ [name], next_in chain name), chain, shut, walk, name)
      \<in> measure (\<lambda>(chain, shut, walk, name). card (fst ` set chain - set walk) + (if name = [] then 0 else 1))"
  proof (cases "name \<in> fst ` set chain")
    case True
    then have "card (fst ` set chain - set (walk @ [name])) < card (fst ` set chain - set walk)"
      using a by (intro psubset_card_mono) auto
    then show ?thesis using a by simp
  next
    case False
    then have "next_in chain name = []" by (simp add: next_in_def map_of_eq_None_iff [THEN iffD2])
    moreover have "card (fst ` set chain - set (walk @ [name])) \<le> card (fst ` set chain - set walk)"
      by (intro card_mono) auto
    ultimately show ?thesis using a by simp
  qed
qed simp

declare walk_chain.simps [simp del]

fun find_cycle :: "(string \<times> string) list \<Rightarrow> string list \<Rightarrow> string list \<Rightarrow> string list" where
  "find_cycle chain shut [] = []"
| "find_cycle chain shut (name # names) =
     (if name \<in> set shut then find_cycle chain shut names
      else
        (let (walk, last_name) = walk_chain chain shut [] name
         in if last_name \<noteq> [] \<and> last_name \<in> set walk then dropWhile (\<lambda>n. n \<noteq> last_name) walk
            else find_cycle chain (shut @ walk) names))"

definition findCycle :: "string list \<Rightarrow> (string \<times> string) list \<Rightarrow> string list" where
  "findCycle names chain = find_cycle chain [] names"

fun build_all :: "spec list \<Rightarrow> path \<Rightarrow> (string \<times> string) list \<Rightarrow> (string \<times> raw_input) list \<Rightarrow> fault + (string \<times> input) list" where
  "build_all reg pt chain [] = Inr []"
| "build_all reg pt chain ((name, raw) # rest) =
     and_then (build reg raw (child pt name) (map_of chain name \<noteq> None)) (\<lambda>inp.
     and_then (build_all reg pt chain rest) (\<lambda>inputs. Inr ((name, inp) # inputs)))"

definition readInputs :: "spec list \<Rightarrow> json \<Rightarrow> path \<Rightarrow> fault + (string \<times> input) list" where
  "readInputs reg v pt =
     guard (v = JNull) (Fault pt (InputFault NoInputs))
      (and_then (object v pt ''inputs'') (\<lambda>body.
       guard (body = []) (Fault pt (InputFault NoInputs))
       (guard (length (sortedKeys body) > MaxInputs) (Fault pt (InputFault (TooManyInputs (length (sortedKeys body)))))
       (and_then (read_raws body pt (sortedKeys body)) (\<lambda>raws.
        and_then (read_chains raws pt raws) (\<lambda>chain.
          case findCycle (map fst raws) chain of
            [] \<Rightarrow> build_all reg pt chain raws
          | first # others \<Rightarrow> fault_at (child (child pt first) ''source'') (InputFault (FeedLoop (first # others @ [first])))))))))"

section \<open>Operands and comparisons\<close>

definition input_operand :: "string \<Rightarrow> string \<Rightarrow> int \<Rightarrow> operand" where
  "input_operand name out back =
     \<lparr>oKind = OperandInput, oInput = name, oOutput = out, oField = FieldVolume, oValue = 0, oBack = back\<rparr>"

definition field_operand :: "price_field \<Rightarrow> int \<Rightarrow> operand" where
  "field_operand f back =
     \<lparr>oKind = OperandField, oInput = [], oOutput = [], oField = f, oValue = 0, oBack = back\<rparr>"

definition literal :: "f64 \<Rightarrow> operand" where
  "literal x = \<lparr>oKind = OperandLiteral, oInput = [], oOutput = [], oField = FieldVolume, oValue = x, oBack = 0\<rparr>"

definition parse_line :: "spec list \<Rightarrow> (string \<times> input) list \<Rightarrow> string \<Rightarrow> string \<Rightarrow> int \<Rightarrow> path \<Rightarrow> fault + operand" where
  "parse_line reg inputs held out back pt =
     (case map_of inputs held of
        None \<Rightarrow> fault_at pt (RuleFault (UnknownInput held))
      | Some inp \<Rightarrow>
          (case Lookup reg (inpIndicator inp) of
             None \<Rightarrow> fault_at pt (RuleFault (LineIndicator held (inpIndicator inp)))
           | Some s \<Rightarrow>
               guard (out \<notin> set (spOutputs s)) (Fault pt (InputFault (NoSuchLine (spName s) out)))
                 (Inr (input_operand held (if length (spOutputs s) = 1 then [] else out) back))))"

definition named :: "spec list \<Rightarrow> (string \<times> input) list \<Rightarrow> string \<Rightarrow> int \<Rightarrow> path \<Rightarrow> fault + operand" where
  "named reg inputs name back pt =
     (let trimmed = clean name
      in case cut_at (CHR ''.'') trimmed of
           Some (held, out) \<Rightarrow> parse_line reg inputs held out back pt
         | None \<Rightarrow>
             if map_of inputs trimmed \<noteq> None then Inr (input_operand trimmed [] back)
             else (case field_of trimmed of
                     Some f \<Rightarrow> Inr (field_operand f back)
                   | None \<Rightarrow> fault_at pt (RuleFault (UnknownName name))))"

definition ref :: "spec list \<Rightarrow> (string \<times> input) list \<Rightarrow> (string \<times> json) list \<Rightarrow> path \<Rightarrow> fault + operand" where
  "ref reg inputs body pt =
     guard (length (sortedKeys body) \<noteq> 1) (Fault pt (RuleFault NotOneRef))
      (let key = hd (sortedKeys body); spot = child pt ''ref''
       in guard (key \<noteq> ''ref'') (Fault (child pt key) (RuleFault (NoSuchOperand key)))
         (and_then (json_list (field body key) spot ''ref'') (\<lambda>items.
          guard (length items \<noteq> 2) (Fault spot (RuleFault (RefLength (length items))))
           (case member items 0 of
              JStr name \<Rightarrow>
                and_then (wholeNumber (member items 1) (index spot 1) ''bars back'') (\<lambda>back.
                guard (back < 0 \<or> back > int MaxBack) (Fault (index spot 1) (RuleFault (BackOutside back)))
                  (named reg inputs name back (index spot 0)))
            | _ \<Rightarrow> fault_at (index spot 0) (RuleFault RefName)))))"

definition parse_operand :: "spec list \<Rightarrow> (string \<times> input) list \<Rightarrow> json \<Rightarrow> path \<Rightarrow> fault + operand" where
  "parse_operand reg inputs v pt =
     (case v of
        JNum x \<Rightarrow> Inr (literal x)
      | JStr name \<Rightarrow> named reg inputs name 0 pt
      | JObj body \<Rightarrow> ref reg inputs body pt
      | _ \<Rightarrow> fault_at pt (RuleFault NotOperand))"

fun parse_operands :: "spec list \<Rightarrow> (string \<times> input) list \<Rightarrow> path \<Rightarrow> nat \<Rightarrow> json list \<Rightarrow> fault + operand list" where
  "parse_operands reg inputs pt i [] = Inr []"
| "parse_operands reg inputs pt i (v # vs) =
     and_then (parse_operand reg inputs v (index pt i)) (\<lambda>x.
     and_then (parse_operands reg inputs pt (i + 1) vs) (\<lambda>xs. Inr (x # xs)))"

definition op_names :: "(string \<times> comparator) list" where
  "op_names =
     [(''gt'', OpGT), (''lt'', OpLT), (''gte'', OpGTE), (''lte'', OpLTE), (''eq'', OpEQ),
      (''crosses_above'', OpCrossesAbove), (''crosses_below'', OpCrossesBelow),
      (''rising'', OpRising), (''falling'', OpFalling), (''between'', OpBetween)]"

definition comparator_of :: "string \<Rightarrow> comparator option" where
  "comparator_of key = map_of op_names key"

definition op_name :: "comparator \<Rightarrow> string" where
  "op_name op = (case find (\<lambda>(name, x). x = op) op_names of None \<Rightarrow> [] | Some (name, x) \<Rightarrow> name)"

definition reversed_span :: "comparator \<Rightarrow> operand list \<Rightarrow> bool" where
  "reversed_span op xs \<longleftrightarrow>
     op = OpBetween \<and> oKind (xs ! 1) = OperandLiteral \<and> oKind (xs ! 2) = OperandLiteral \<and> oValue (xs ! 1) > oValue (xs ! 2)"

definition bad_bars :: "operand \<Rightarrow> bool" where
  "bad_bars x \<longleftrightarrow> oKind x \<noteq> OperandLiteral \<or> oBack x \<noteq> 0 \<or> oValue x < 1 \<or> oValue x > float_of_int (int MaxBack) \<or>
     \<not> feq (oValue x) (math_Trunc (oValue x))"

definition parse_compare :: "spec list \<Rightarrow> (string \<times> input) list \<Rightarrow> comparator \<Rightarrow> json \<Rightarrow> path \<Rightarrow> fault + node" where
  "parse_compare reg inputs op v pt =
     and_then (json_list v pt (op_name op)) (\<lambda>items.
     guard (length items < fst (arity op) \<or> length items > snd (arity op)) (Fault pt (RuleFault (WrongArity op (length items))))
      (and_then (parse_operands reg inputs pt 0 items) (\<lambda>xs.
       guard (reversed_span op xs) (Fault (index pt 2) (RuleFault (SpanReversed (oValue (xs ! 1)) (oValue (xs ! 2)))))
        (if op \<noteq> OpRising \<and> op \<noteq> OpFalling then Inr (Compare op xs)
         else
           (let ys = (if length xs = 1 then xs @ [literal 1] else xs)
            in guard (bad_bars (ys ! 1)) (Fault (index pt 1) (RuleFault (BadTrendBars op))) (Inr (Compare op ys)))))))"

section \<open>Brackets\<close>

definition level_names :: "(string \<times> level_type) list" where
  "level_names = [(''pct'', LevelPct), (''atr'', LevelATR)]"

definition atrPeriodFault :: "spec list \<Rightarrow> int \<Rightarrow> path \<Rightarrow> fault + unit" where
  "atrPeriodFault reg period pt =
     (case Lookup reg ATRIndicator of
        None \<Rightarrow> fault_at pt (ValueFault ATRMissing)
      | Some s \<Rightarrow>
          (case find (\<lambda>q. pmName q = ''period'' \<and> (float_of_int period < pmMin q \<or> float_of_int period > pmMax q)) (spParams s) of
             None \<Rightarrow> Inr ()
           | Some q \<Rightarrow> fault_at pt (ValueFault (ATRPeriodOutside (pmMin q) (pmMax q) period))))"

text \<open>The level of a type.\<close>

definition level_of :: "spec list \<Rightarrow> (string \<times> json) list \<Rightarrow> path \<Rightarrow> string \<Rightarrow> string \<Rightarrow> fault + level" where
  "level_of reg body pt what t =
     (case map_of level_names (clean t) of
        None \<Rightarrow> fault_at (child pt ''type'') (ValueFault (UnknownLevelType what t))
      | Some LevelPct \<Rightarrow>
          and_then (requiredNumber body pt ''value'' what) (\<lambda>x.
          guard (x \<le> 0 \<or> x \<ge> 1) (Fault (child pt ''value'') (ValueFault (PctOutside what x)))
           (and_then (unwanted body pt what LevelPct [''period'', ''mult'']) (\<lambda>_.
             Inr \<lparr>lType = LevelPct, lValue = x, lPeriod = 0, lMult = 0\<rparr>)))
      | Some LevelATR \<Rightarrow>
          and_then (requiredWhole body pt ''period'' what) (\<lambda>period.
          and_then (atrPeriodFault reg period (child pt ''period'')) (\<lambda>_.
          and_then (requiredNumber body pt ''mult'' what) (\<lambda>x.
          guard (x \<le> 0 \<or> x > Fin 100) (Fault (child pt ''mult'') (ValueFault (MultOutside what x)))
           (and_then (unwanted body pt what LevelATR [''value'']) (\<lambda>_.
             Inr \<lparr>lType = LevelATR, lValue = 0, lPeriod = period, lMult = x\<rparr>))))))"

definition readLevel :: "spec list \<Rightarrow> json \<Rightarrow> path \<Rightarrow> string \<Rightarrow> fault + level" where
  "readLevel reg v pt what =
     and_then (object v pt what) (\<lambda>body.
     and_then (onlyFields body pt [''type'', ''value'', ''period'', ''mult'']) (\<lambda>_.
     case map_of body ''type'' of
       None \<Rightarrow> fault_at (child pt ''type'') (ValueFault (LevelTypeMissing what))
     | Some raw \<Rightarrow>
         and_then (str raw (child pt ''type'') ''a type'') (\<lambda>t. level_of reg body pt what t)))"

section \<open>Rules\<close>

text \<open>The counters of the parser and the sides that carry a stop.\<close>

record pstate =
  psNodes :: nat
  psStops :: nat
  psTargets :: nat
  psStopped :: "string list"

definition parse_bracket :: "spec list \<Rightarrow> string \<Rightarrow> json \<Rightarrow> path \<Rightarrow> bool \<Rightarrow> pstate \<Rightarrow> fault + node \<times> pstate" where
  "parse_bracket reg key v pt brackets st =
     guard (\<not> brackets) (Fault pt (RuleFault (MisplacedBracket key)))
      (and_then (readLevel reg v pt key) (\<lambda>l.
         if key = ''stop_loss'' then
           guard (psStops st + 1 > 1) (Fault pt (RuleFault (SecondBracket key))) (Inr (StopLoss l, st\<lparr>psStops := psStops st + 1\<rparr>))
         else
           guard (psTargets st + 1 > 1) (Fault pt (RuleFault (SecondBracket key))) (Inr (TakeProfit l, st\<lparr>psTargets := psTargets st + 1\<rparr>))))"

text \<open>\<open>node\<close> with \<open>combine\<close>, whose loop over the items is the second function.\<close>

function parse_node :: "spec list \<Rightarrow> (string \<times> input) list \<Rightarrow> json \<Rightarrow> path \<Rightarrow> nat \<Rightarrow> bool \<Rightarrow> pstate \<Rightarrow> fault + node \<times> pstate"
  and parse_nodes :: "spec list \<Rightarrow> (string \<times> input) list \<Rightarrow> json list \<Rightarrow> path \<Rightarrow> nat \<Rightarrow> nat \<Rightarrow> bool \<Rightarrow> pstate \<Rightarrow> fault + node list \<times> pstate" where
  "parse_node reg inputs v pt level brackets st0 =
     (if level > MaxDepth then fault_at pt (RuleFault TooDeep)
      else
        (let st = st0\<lparr>psNodes := psNodes st0 + 1\<rparr>
         in if psNodes st > MaxNodes then fault_at pt (RuleFault TooManyNodes)
            else
              and_then (object v pt ''a rule'') (\<lambda>body.
                if length (sortedKeys body) \<noteq> 1 then fault_at pt (RuleFault (NotOneOperator (length (sortedKeys body))))
                else
                  (let key = hd (sortedKeys body); value = field body key; spot = child pt key
                   in if key = ''all'' \<or> key = ''any'' then
                        and_then (json_list value spot key) (\<lambda>items.
                          if items = [] then fault_at spot (if key = ''all'' then (RuleFault EmptyAll) else (RuleFault EmptyAny))
                          else
                            and_then (parse_nodes reg inputs items spot 0 (level + 1) (brackets \<and> key = ''any'') st) (\<lambda>(ns, st1).
                              Inr (if key = ''all'' then All ns else Any ns, st1)))
                      else if key = ''not'' then
                        and_then (parse_node reg inputs value spot (level + 1) False st) (\<lambda>(n, st1). Inr (node.Not n, st1))
                      else if key = ''stop_loss'' \<or> key = ''take_profit'' then parse_bracket reg key value spot brackets st
                      else
                        (case comparator_of key of
                           None \<Rightarrow> fault_at spot (RuleFault (UnknownRule key))
                         | Some op \<Rightarrow> and_then (parse_compare reg inputs op value spot) (\<lambda>n. Inr (n, st)))))))"
| "parse_nodes reg inputs [] pt i level brackets st = Inr ([], st)"
| "parse_nodes reg inputs (v # vs) pt i level brackets st =
     and_then (parse_node reg inputs v (index pt i) level brackets st) (\<lambda>(n, st1).
     and_then (parse_nodes reg inputs vs pt (i + 1) level brackets st1) (\<lambda>(ns, st2). Inr (n # ns, st2)))"
  by pat_completeness auto

termination
  by (relation "measures [
        (\<lambda>a. case a of Inl (reg, inputs, v, pt, level, b, st) \<Rightarrow> MaxDepth + 2 - level
                     | Inr (reg, inputs, vs, pt, i, level, b, st) \<Rightarrow> MaxDepth + 2 - level),
        (\<lambda>a. case a of Inl (reg, inputs, v, pt, level, b, st) \<Rightarrow> 0
                     | Inr (reg, inputs, vs, pt, i, level, b, st) \<Rightarrow> Suc (length vs))]") auto

declare parse_node.simps [simp del]

definition parse_leg :: "spec list \<Rightarrow> (string \<times> input) list \<Rightarrow> json \<Rightarrow> path \<Rightarrow> bool \<Rightarrow> string \<Rightarrow> pstate \<Rightarrow> fault + node \<times> pstate" where
  "parse_leg reg inputs v pt brackets key st =
     and_then (parse_node reg inputs v pt 1 brackets (st\<lparr>psStops := 0, psTargets := 0\<rparr>)) (\<lambda>(n, st1).
       Inr (n, if psStops st1 > 0 then st1\<lparr>psStopped := key # psStopped st1\<rparr> else st1))"

text \<open>A side that is absent is nil.\<close>

definition parse_optional_leg ::
  "spec list \<Rightarrow> (string \<times> input) list \<Rightarrow> (string \<times> json) list \<Rightarrow> path \<Rightarrow> bool \<Rightarrow> string \<Rightarrow> pstate \<Rightarrow> fault + node option \<times> pstate" where
  "parse_optional_leg reg inputs body pt brackets key st =
     (case map_of body key of
        None \<Rightarrow> Inr (None, st)
      | Some raw \<Rightarrow>
          and_then (parse_leg reg inputs raw (child pt key) brackets key st) (\<lambda>(n, st1). Inr (Some n, st1)))"

definition parse_side :: "spec list \<Rightarrow> (string \<times> input) list \<Rightarrow> json \<Rightarrow> path \<Rightarrow> bool \<Rightarrow> string \<Rightarrow> pstate \<Rightarrow> fault + side \<times> pstate" where
  "parse_side reg inputs v pt brackets what st =
     and_then (object v pt what) (\<lambda>body.
     and_then (onlyFields body pt [''long'', ''short'']) (\<lambda>_.
     and_then (parse_optional_leg reg inputs body pt brackets ''long'' st) (\<lambda>(long, st1).
     and_then (parse_optional_leg reg inputs body pt brackets ''short'' st1) (\<lambda>(short, st2).
     guard (long = None \<and> short = None) (Fault pt (RuleFault (SideEmpty what)))
       (Inr (\<lparr>sdLong = long, sdShort = short\<rparr>, st2))))))"

definition side_node :: "side \<Rightarrow> string \<Rightarrow> node option" where
  "side_node s key = (if key = ''short'' then sdShort s else sdLong s)"

section \<open>Sizing and costs\<close>

definition sizing_names :: "(string \<times> sizing_type) list" where
  "sizing_names =
     [(''fixed_qty'', SizeFixedQty), (''pct_equity'', SizePctEquity), (''fixed_cash'', SizeFixedCash), (''risk_pct'', SizeRiskPct)]"

text \<open>The range of a sizing value.\<close>

definition sizing_fault :: "sizing_type \<Rightarrow> f64 \<Rightarrow> fault_reason option" where
  "sizing_fault kind x =
     (case kind of
        SizeFixedQty \<Rightarrow> if x < 1 \<or> x > Fin 1000000000 \<or> \<not> feq x (math_Trunc x) then Some (ValueFault (FixedQtyOutside x)) else None
      | SizeFixedCash \<Rightarrow> if x < 1 \<or> x > Fin 1000000000000000 \<or> \<not> feq x (math_Trunc x) then Some (ValueFault (FixedCashOutside x)) else None
      | _ \<Rightarrow> if x \<le> 0 \<or> x > 1 then Some (ValueFault (FractionOutside kind x)) else None)"

definition readSizing :: "json \<Rightarrow> path \<Rightarrow> fault + sizing" where
  "readSizing v pt =
     and_then (object v pt ''sizing'') (\<lambda>body.
     and_then (onlyFields body pt [''type'', ''value'']) (\<lambda>_.
     case map_of body ''type'' of
       None \<Rightarrow> fault_at (child pt ''type'') (ValueFault SizingTypeMissing)
     | Some raw \<Rightarrow>
         and_then (str raw (child pt ''type'') ''a type'') (\<lambda>t.
         case map_of sizing_names (clean t) of
           None \<Rightarrow> fault_at (child pt ''type'') (ValueFault (UnknownSizingType t))
         | Some kind \<Rightarrow>
             and_then (requiredNumber body pt ''value'' ''sizing'') (\<lambda>x.
             case sizing_fault kind x of
               Some reason \<Rightarrow> fault_at (child pt ''value'') reason
             | None \<Rightarrow> Inr \<lparr>szType = kind, szValue = x\<rparr>))))"

definition read_bps :: "(string \<times> json) list \<Rightarrow> path \<Rightarrow> string \<Rightarrow> f64 \<Rightarrow> fault + f64" where
  "read_bps body pt key base_bps =
     (case map_of body key of
        None \<Rightarrow> Inr base_bps
      | Some raw \<Rightarrow>
          and_then (number raw (child pt key) key) (\<lambda>x.
          guard (x < 0 \<or> x > MaxBPS) (Fault (child pt key) (ValueFault (BpsOutside key x))) (Inr x)))"

definition readCosts :: "json \<Rightarrow> path \<Rightarrow> fault + costs" where
  "readCosts v pt =
     (if v = JNull then Inr defaultCosts
      else
        and_then (object v pt ''costs'') (\<lambda>body.
        and_then (onlyFields body pt [''brokerage_cents'', ''fee_bps'', ''slippage_bps'']) (\<lambda>_.
        and_then
          (case map_of body ''brokerage_cents'' of
             None \<Rightarrow> Inr (BrokerageCents defaultCosts)
           | Some raw \<Rightarrow>
               and_then (wholeNumber raw (child pt ''brokerage_cents'') ''brokerage_cents'') (\<lambda>n.
               guard (n < 0 \<or> n > MaxBrokerageCents) (Fault (child pt ''brokerage_cents'') (ValueFault (BrokerageOutside n)))
                 (Inr (word_of_int n)))) (\<lambda>cents.
        and_then (read_bps body pt ''fee_bps'' (FeeBPS defaultCosts)) (\<lambda>fee.
        and_then (read_bps body pt ''slippage_bps'' (SlippageBPS defaultCosts)) (\<lambda>slip.
          Inr \<lparr>BrokerageCents = cents, FeeBPS = fee, SlippageBPS = slip\<rparr>))))))"

section \<open>The specification\<close>

definition check_version :: "(string \<times> json) list \<Rightarrow> path \<Rightarrow> fault + unit" where
  "check_version body pt =
     (case map_of body ''version'' of
        None \<Rightarrow> Inr ()
      | Some raw \<Rightarrow>
          and_then (wholeNumber raw (child pt ''version'') ''version'') (\<lambda>n.
          guard (n \<noteq> Version) (Fault (child pt ''version'') (ShapeFault (WrongVersion n))) (Inr ())))"

definition parse_exit :: "spec list \<Rightarrow> (string \<times> input) list \<Rightarrow> (string \<times> json) list \<Rightarrow> path \<Rightarrow> side \<Rightarrow> pstate \<Rightarrow> fault + side option \<times> pstate" where
  "parse_exit reg inputs body pt entry st =
     (if field body ''exit'' = JNull then Inr (None, st)
      else
        and_then (parse_side reg inputs (field body ''exit'') (child pt ''exit'') True ''exit'' st) (\<lambda>(x, st1).
        guard (sdLong x \<noteq> None \<and> sdLong entry = None) (Fault (child (child pt ''exit'') ''long'') (ShapeFault (ExitWithoutEntry ''long'')))
        (guard (sdShort x \<noteq> None \<and> sdShort entry = None) (Fault (child (child pt ''exit'') ''short'') (ShapeFault (ExitWithoutEntry ''short'')))
          (Inr (Some x, st1)))))"

definition missing_stop :: "side \<Rightarrow> pstate \<Rightarrow> string option" where
  "missing_stop entry st = find (\<lambda>key. side_node entry key \<noteq> None \<and> key \<notin> set (psStopped st)) [''long'', ''short'']"

definition parse_spec :: "spec list \<Rightarrow> json \<Rightarrow> fault + spec_t" where
  "parse_spec reg v =
     and_then (object v [] ''a strategy spec'') (\<lambda>body.
     and_then (onlyFields body [] [''version'', ''inputs'', ''entry'', ''exit'', ''sizing'', ''costs'']) (\<lambda>_.
     and_then (check_version body []) (\<lambda>_.
     and_then (readInputs reg (field body ''inputs'') (child [] ''inputs'')) (\<lambda>inputs.
     case map_of body ''entry'' of
       None \<Rightarrow> fault_at (child [] ''entry'') (ShapeFault NoEntry)
     | Some en \<Rightarrow>
         and_then (parse_side reg inputs en (child [] ''entry'') False ''entry''
                     \<lparr>psNodes = 0, psStops = 0, psTargets = 0, psStopped = []\<rparr>) (\<lambda>(entry, st).
         and_then (parse_exit reg inputs body [] entry st) (\<lambda>(exit, st1).
         case map_of body ''sizing'' of
           None \<Rightarrow> fault_at (child [] ''sizing'') (ShapeFault NoSizing)
         | Some sz \<Rightarrow>
             and_then (readSizing sz (child [] ''sizing'')) (\<lambda>sizing.
             case (if szType sizing = SizeRiskPct then missing_stop entry st1 else None) of
               Some key \<Rightarrow> fault_at (child [] ''sizing'') (ShapeFault (StopNeeded key))
             | None \<Rightarrow>
                 and_then (readCosts (field body ''costs'') (child [] ''costs'')) (\<lambda>costs.
                   Inr \<lparr>sInputs = inputs, sEntry = entry, sExit = exit, sSizing = sizing, sCosts = costs\<rparr>))))))))"

text \<open>\<open>Parse\<close>: \<open>None\<close> is a text that is no JSON.\<close>

definition Parse :: "spec list \<Rightarrow> json option \<Rightarrow> fault + spec_t" where
  "Parse reg decoded = (case decoded of None \<Rightarrow> fault_at [] (ShapeFault NotJson) | Some v \<Rightarrow> parse_spec reg v)"

section \<open>Encoding\<close>

text \<open>What the \<open>MarshalJSON\<close> methods of spec.go write, as decoded values.\<close>

definition field_name :: "price_field \<Rightarrow> string" where
  "field_name f =
     (case f of
        FieldVolume \<Rightarrow> ''volume''
      | FieldSource SourceClose \<Rightarrow> ''close'' | FieldSource SourceOpen \<Rightarrow> ''open''
      | FieldSource SourceHigh \<Rightarrow> ''high'' | FieldSource SourceLow \<Rightarrow> ''low''
      | FieldSource SourceHL2 \<Rightarrow> ''hl2'' | FieldSource SourceHLC3 \<Rightarrow> ''hlc3'' | FieldSource SourceOHLC4 \<Rightarrow> ''ohlc4'')"

definition marshal_operand :: "operand \<Rightarrow> json" where
  "marshal_operand x =
     (let head = (case oKind x of
                    OperandInput \<Rightarrow> JStr (operand_ref x)
                  | OperandField \<Rightarrow> JStr (field_name (oField x))
                  | OperandLiteral \<Rightarrow> JNum (oValue x))
      in if oBack x = 0 then head else JObj [(''ref'', JArr [head, JNum (float_of_int (oBack x))])])"

definition marshal_level :: "level \<Rightarrow> json" where
  "marshal_level l =
     (if lType l = LevelATR
      then JObj [(''type'', JStr ''atr''), (''period'', JNum (float_of_int (lPeriod l))), (''mult'', JNum (lMult l))]
      else JObj [(''type'', JStr ''pct''), (''value'', JNum (lValue l))])"

fun marshal_node :: "node \<Rightarrow> json" where
  "marshal_node (All ns) = JObj [(''all'', JArr (map marshal_node ns))]"
| "marshal_node (Any ns) = JObj [(''any'', JArr (map marshal_node ns))]"
| "marshal_node (node.Not n) = JObj [(''not'', marshal_node n)]"
| "marshal_node (Compare op xs) = JObj [(op_name op, JArr (map marshal_operand xs))]"
| "marshal_node (StopLoss l) = JObj [(''stop_loss'', marshal_level l)]"
| "marshal_node (TakeProfit l) = JObj [(''take_profit'', marshal_level l)]"

definition marshal_side :: "side \<Rightarrow> json" where
  "marshal_side s =
     JObj ((case sdLong s of None \<Rightarrow> [] | Some n \<Rightarrow> [(''long'', marshal_node n)]) @
           (case sdShort s of None \<Rightarrow> [] | Some n \<Rightarrow> [(''short'', marshal_node n)]))"

definition marshal_input :: "input \<Rightarrow> json" where
  "marshal_input i =
     JObj ([(''indicator'', JStr (inpIndicator i)), (''params'', JObj (map (\<lambda>(k, x). (k, JNum x)) (inpParams i)))] @
           (if inpSourced i \<and> inpSource i \<noteq> [] then [(''source'', JStr (inpSource i))] else []) @
           (if inpMulti i \<and> inpOutput i \<noteq> [] then [(''output'', JStr (inpOutput i))] else []))"

definition sizing_name :: "sizing_type \<Rightarrow> string" where
  "sizing_name kind =
     (case kind of SizeFixedQty \<Rightarrow> ''fixed_qty'' | SizePctEquity \<Rightarrow> ''pct_equity''
                 | SizeFixedCash \<Rightarrow> ''fixed_cash'' | SizeRiskPct \<Rightarrow> ''risk_pct'')"

definition marshal_sizing :: "sizing \<Rightarrow> json" where
  "marshal_sizing s = JObj [(''type'', JStr (sizing_name (szType s))), (''value'', JNum (szValue s))]"

definition marshal_costs :: "costs \<Rightarrow> json" where
  "marshal_costs c =
     JObj [(''brokerage_cents'', JNum (float_of_int (sint (BrokerageCents c)))),
           (''fee_bps'', JNum (FeeBPS c)), (''slippage_bps'', JNum (SlippageBPS c))]"

definition marshal_spec :: "spec_t \<Rightarrow> json" where
  "marshal_spec s =
     JObj ([(''version'', JNum (float_of_int Version)),
            (''inputs'', JObj (map (\<lambda>(n, i). (n, marshal_input i)) (sInputs s))),
            (''entry'', marshal_side (sEntry s))] @
           (case sExit s of None \<Rightarrow> [] | Some x \<Rightarrow> [(''exit'', marshal_side x)]) @
           [(''sizing'', marshal_sizing (sSizing s)), (''costs'', marshal_costs (sCosts s))])"

end
