(* ===== verification/Parsed_Inputs.thy ===== *)
theory Parsed_Inputs
  imports Parser
begin

text \<open>
  The inputs of a strategy: what the parser's checks leave well-formed (\<open>inputs_ok\<close>), and that a
  well-formed set of inputs, encoded and parsed again, is read back as it was. The laws that the
  parser needs of the catalogue of indicators are the locale \<open>catalogue\<close>.
\<close>

section \<open>Cleaned text\<close>

lemma lower_lower [simp]: "lower_char (lower_char c) = lower_char c"
proof (cases "65 \<le> (of_char c :: nat) \<and> (of_char c :: nat) \<le> 90")
  case True
  hence "(of_char c + 32 :: nat) mod 256 = of_char c + 32" by (intro mod_less) linarith
  thus ?thesis using True by (auto simp: lower_char_def Let_def)
next
  case False
  hence "lower_char c = c" by (simp only: lower_char_def Let_def if_False)
  thus ?thesis by simp
qed

lemma is_space_lower [simp]: "is_space (lower_char c) = is_space c"
proof (cases "65 \<le> (of_char c :: nat) \<and> (of_char c :: nat) \<le> 90")
  case True
  hence "(of_char c + 32 :: nat) mod 256 = of_char c + 32" by (intro mod_less) linarith
  thus ?thesis using True by (auto simp: lower_char_def is_space_def Let_def)
next
  case False
  hence "lower_char c = c" by (simp only: lower_char_def Let_def if_False)
  thus ?thesis by simp
qed

lemma trim_lower: "trim_space (map lower_char s) = map lower_char (trim_space s)"
  by (simp add: trim_space_def dropWhile_map comp_def rev_map)

definition trimmed :: "string \<Rightarrow> bool" where
  "trimmed s \<longleftrightarrow> s = [] \<or> (\<not> is_space (hd s) \<and> \<not> is_space (last s))"

lemma trim_trimmed: "trimmed (trim_space s)"
proof (cases "trim_space s = []")
  case False
  let ?u = "dropWhile is_space s"
  let ?v = "dropWhile is_space (rev ?u)"
  have v: "?v \<noteq> []" using False by (simp add: trim_space_def)
  then have "\<not> is_space (last (trim_space s))"
    unfolding trim_space_def using hd_dropWhile [of is_space "rev ?u"] by (simp add: last_rev)
  moreover have u: "?u \<noteq> []" using v by (metis dropWhile.simps(1) rev.simps(1))
  have "\<not> is_space (hd (trim_space s))"
  proof -
    have "last ?v = last (rev ?u)" using v
      by (metis dropWhile_eq_drop last_drop length_drop length_greater_0_conv zero_less_diff)
    then have "hd (trim_space s) = hd ?u" unfolding trim_space_def using v u by (simp add: hd_rev last_rev)
    then show ?thesis using hd_dropWhile [OF u] by simp
  qed
  ultimately show ?thesis by (simp add: trimmed_def)
qed (simp add: trimmed_def)

lemma dropWhile_keep: "xs = [] \<or> \<not> P (hd xs) \<Longrightarrow> dropWhile P xs = xs"
  by (cases xs) auto

lemma trimmed_trim:
  assumes "trimmed s"
  shows "trim_space s = s"
proof -
  have "dropWhile is_space s = s" using assms by (intro dropWhile_keep) (auto simp: trimmed_def)
  moreover have "dropWhile is_space (rev s) = rev s"
    using assms by (intro dropWhile_keep) (auto simp: trimmed_def hd_rev)
  ultimately show ?thesis by (simp add: trim_space_def)
qed

lemma clean_clean [simp]: "clean (clean t) = clean t"
proof -
  have "trim_space (map lower_char (trim_space t)) = map lower_char (trim_space t)"
    by (simp add: trim_lower trimmed_trim trim_trimmed)
  then show ?thesis by (simp add: clean_def to_lower_def)
qed

lemma clean_Nil [simp]: "clean [] = []"
  by (simp add: clean_def trim_space_def to_lower_def)

lemma normal_name_clean: "normal_name = clean"
  by (intro ext) (simp add: normal_name_def clean_def to_lower_def)

text \<open>Text of lower-case letters, digits, underscores and inner dots is clean.\<close>

definition plain_char :: "char \<Rightarrow> bool" where
  "plain_char c \<longleftrightarrow> lower_letter c \<or> digit_of c \<noteq> None \<or> c = CHR ''_''"

lemma plain_char_clean: "plain_char c \<Longrightarrow> lower_char c = c \<and> \<not> is_space c \<and> c \<noteq> CHR ''.''"
  by (auto simp: plain_char_def lower_letter_def lower_char_def is_space_def digit_of_def Let_def split: if_splits)

lemma clean_plain:
  assumes "list_all plain_char s"
  shows "clean s = s"
proof -
  have c: "lower_char c = c \<and> \<not> is_space c" if "c \<in> set s" for c
    using assms that plain_char_clean by (auto simp: list_all_iff)
  have "trimmed s" using c [OF hd_in_set] c [OF last_in_set] by (auto simp: trimmed_def)
  moreover have "map lower_char s = s" using c by (intro map_idI) blast
  ultimately show ?thesis by (simp add: clean_def to_lower_def trimmed_trim)
qed

lemma is_identifier_plain: "is_identifier name \<Longrightarrow> list_all plain_char name \<and> name \<noteq> []"
  by (auto simp: is_identifier_def plain_char_def list_all_iff split: list.splits)

lemma is_identifier_clean:
  assumes "is_identifier name"
  shows "clean name = name" and "CHR ''.'' \<notin> set name" and "name \<noteq> []"
  using is_identifier_plain [OF assms] clean_plain [of name] by (auto simp: list_all_iff dest: plain_char_clean)

lemma cut_at_none: "c \<notin> set s \<longleftrightarrow> cut_at c s = None"
  by (induction s) (auto split: option.splits)

section \<open>Whole numbers\<close>

lemma finite_iff: "x \<noteq> NaN \<and> \<not> is_inf x \<longleftrightarrow> is_fin x"
  by (cases x) (auto simp: is_inf_def)

lemma float_of_int_small: "\<bar>n\<bar> \<le> 2 ^ 53 \<Longrightarrow> float_of_int n = Fin (of_int n)"
  by (simp add: float_of_int_def rnd_of_int)

lemma i64_of_Fin:
  assumes "- (2 ^ 63) \<le> n" "n < 2 ^ 63" "int_of_f64 x = Some n"
  shows "go_int x = n"
  using assms sint_i64 [OF assms(1,2)] by (simp add: go_int_def i64_of_def)

lemma go_int_float:
  assumes "\<bar>n\<bar> \<le> 2 ^ 53"
  shows "go_int (float_of_int n) = n"
proof (rule i64_of_Fin)
  show "int_of_f64 (float_of_int n) = Some n" unfolding float_of_int_small [OF assms] by simp
qed (use assms in auto)

lemma trunc_float: "\<bar>n\<bar> \<le> 2 ^ 53 \<Longrightarrow> math_Trunc (float_of_int n) = float_of_int n"
  by (auto simp: float_of_int_small Let_def zero_of_def)

text \<open>A value that a conversion to an integer and back keeps is whole.\<close>

lemma rnd_of_int_whole:
  assumes "rnd (of_int k) = Fin q"
  shows "\<exists>m. q = of_int m"
proof (rule ccontr)
  assume no: "\<nexists>m. q = of_int m"
  then have ni: "q \<noteq> of_int \<lfloor>q\<rfloor>" by blast
  have wf: "nearest q = q" using rnd_wf [of "of_int k"] assms by simp
  note b = wf_nonint_bound [OF wf ni]
  from ceiling_of_rnd [OF assms ni] have k: "k \<le> \<lceil>q\<rceil>" "\<lfloor>q\<rfloor> \<le> k" by simp_all
  have "\<lceil>q\<rceil> \<le> 4503599627370496" "- 4503599627370496 \<le> \<lfloor>q\<rfloor>"
    using b by (auto simp: ceiling_le_iff le_floor_iff abs_le_iff)
  then have "\<bar>k\<bar> \<le> 4503599627370496" using k by linarith
  then have "\<bar>k\<bar> \<le> 2 ^ 53" by simp
  then have "q = of_int k" using rnd_of_int [of k] assms by simp
  then show False using no by blast
qed

lemma whole_trunc:
  assumes "feq v (float_of_int k)"
  shows "feq v (math_Trunc v)"
proof (cases v)
  case (Fin q)
  obtain p where p: "rnd (of_int k) = Fin p \<or> rnd (of_int k) = NZero \<and> p = 0" "q = p"
    using assms Fin by (cases "rnd (of_int k)") (auto simp: feq_def less_eq_f64_def float_of_int_def)
  then obtain m where "q = of_int m" using rnd_of_int_whole [of k] by (metis of_int_0)
  then show ?thesis unfolding Fin by (auto simp: feq_def less_eq_f64_def Let_def zero_of_def)
qed (use assms in \<open>auto simp: feq_def less_eq_f64_def\<close>)

section \<open>Resolving parameters\<close>

definition pval :: "(string \<times> f64) list \<Rightarrow> param \<Rightarrow> f64" where
  "pval values q = (case map_of values (pmName q) of None \<Rightarrow> pmDefault q | Some v \<Rightarrow> v)"

definition pval_ok :: "param \<Rightarrow> f64 \<Rightarrow> bool" where
  "pval_ok q v \<longleftrightarrow> \<not> v < pmMin q \<and> \<not> v > pmMax q \<and> (pmKind q = ParamInt \<longrightarrow> feq v (float_of_int (go_int v)))"

definition canonical_params :: "spec \<Rightarrow> (string \<times> f64) list \<Rightarrow> (string \<times> f64) list" where
  "canonical_params s values = map (\<lambda>q. (pmName q, pval values q)) (spParams s)"

definition resolved :: "spec \<Rightarrow> (string \<times> f64) list \<Rightarrow> source \<Rightarrow> params" where
  "resolved s values src =
     \<lparr>pValues = fold (\<lambda>q m. m(pmName q \<mapsto> pval values q)) (spParams s) Map.empty, pSource = src\<rparr>"

text \<open>The source a resolved input reads, of the field it names.\<close>

definition source_for :: "spec \<Rightarrow> price_field option \<Rightarrow> source option" where
  "source_for s src =
     (case src of None \<Rightarrow> Some SourceClose
      | Some f \<Rightarrow> if spSourced s then (case f of FieldVolume \<Rightarrow> None | FieldSource x \<Rightarrow> Some x) else None)"

lemma resolve_loop_iff:
  "resolve_loop name values ps acc = Inr vs \<longleftrightarrow>
    list_all (\<lambda>q. pval_ok q (pval values q)) ps \<and> vs = fold (\<lambda>q m. m(pmName q \<mapsto> pval values q)) ps acc"
  by (induction ps arbitrary: acc)
    (auto simp: pval_def [symmetric] pval_ok_def Let_def)

lemma resolve_iff:
  "resolve s values src = Inr p \<longleftrightarrow>
    list_all (\<lambda>q. pval_ok q (pval values q)) (spParams s) \<and> fst ` set values \<subseteq> pmName ` set (spParams s) \<and>
    (case source_for s src of None \<Rightarrow> False | Some x \<Rightarrow> p = resolved s values x \<and> spValidate s p = None)"
proof -
  have f: "find (\<lambda>(n, _). n \<notin> pmName ` set (spParams s)) values = None \<longleftrightarrow> fst ` set values \<subseteq> pmName ` set (spParams s)"
    by (auto simp: find_None_iff)
  show ?thesis
  proof (cases "resolve_loop (spName s) values (spParams s) Map.empty")
    case (Inl err)
    then have "\<not> list_all (\<lambda>q. pval_ok q (pval values q)) (spParams s)"
      using resolve_loop_iff [of "spName s" "values" "spParams s" Map.empty] by auto
    with Inl show ?thesis by (auto simp: resolve_def)
  next
    case (Inr vs)
    then have "list_all (\<lambda>q. pval_ok q (pval values q)) (spParams s)"
      and vs: "vs = fold (\<lambda>q m. m(pmName q \<mapsto> pval values q)) (spParams s) Map.empty"
      using resolve_loop_iff [of "spName s" "values" "spParams s" Map.empty vs] by auto
    then show ?thesis unfolding resolve_def Inr f [symmetric]
      by (auto simp: source_for_def resolved_def split: option.splits price_field.splits)
  qed
qed

lemma fold_values:
  assumes "distinct (map pmName ps)"
  shows "fold (\<lambda>q m. m(pmName q \<mapsto> g q)) ps acc =
    (\<lambda>n. case map_of (map (\<lambda>q. (pmName q, g q)) ps) n of None \<Rightarrow> acc n | Some v \<Rightarrow> Some v)"
  using assms
proof (induction ps arbitrary: acc)
  case (Cons q ps)
  then have "map_of (map (\<lambda>q. (pmName q, g q)) ps) (pmName q) = None" by (auto simp: map_of_eq_None_iff)
  with Cons show ?case by (auto split: option.splits)
qed simp

lemma resolved_lookup:
  assumes "distinct (map pmName (spParams s))"
  shows "pValues (resolved s values src) = map_of (canonical_params s values)"
  unfolding resolved_def params.simps fold_values [OF assms] canonical_params_def by (auto split: option.splits)

lemma canonical_pval:
  assumes "distinct (map pmName (spParams s))" "q \<in> set (spParams s)"
  shows "map_of (canonical_params s values) (pmName q) = Some (pval values q)"
    and "pval (canonical_params s values) q = pval values q"
proof -
  show *: "map_of (canonical_params s values) (pmName q) = Some (pval values q)"
    unfolding canonical_params_def using assms by (intro map_of_is_SomeI) (auto simp: comp_def)
  show "pval (canonical_params s values) q = pval values q" unfolding pval_def [of "canonical_params s values"] * by simp
qed

lemma canonical_again:
  assumes "distinct (map pmName (spParams s))"
  shows "canonical_params s (canonical_params s values) = canonical_params s values"
  unfolding canonical_params_def [of s "canonical_params s values"] using canonical_pval(2) [OF assms]
  by (simp add: canonical_params_def)

lemma resolved_again:
  assumes "distinct (map pmName (spParams s))"
  shows "resolved s (canonical_params s values) src = resolved s values src"
proof -
  have "pValues (resolved s (canonical_params s values) src) = pValues (resolved s values src)"
    unfolding resolved_lookup [OF assms] canonical_again [OF assms] ..
  then show ?thesis by (simp add: resolved_def)
qed

lemma Lookup_name: "Lookup reg name = Some s \<Longrightarrow> spName s = clean name \<and> s \<in> set reg \<and> Lookup reg (spName s) = Some s"
proof -
  assume a: "Lookup reg name = Some s"
  then have n: "spName s = clean name" by (auto simp: Lookup_def normal_name_clean find_Some_iff)
  then have "Lookup reg (spName s) = Lookup reg name" by (simp add: Lookup_def normal_name_clean)
  moreover have "s \<in> set reg" using a by (auto simp: Lookup_def find_Some_iff)
  ultimately show ?thesis using n a by simp
qed

text \<open>What \<open>New\<close> returns.\<close>

lemma New_iff:
  assumes "Lookup reg name = Some s"
  shows "New reg name values src = Inr inst \<longleftrightarrow>
    (\<exists>p. resolve s values src = Inr p \<and>
      inst = \<lparr>inKey = spec_key s p, inSpec = s, inParams = p, inOffsets = offsets s p, inIndicator = spNew s p\<rparr>)"
  using assms by (auto simp: New_def split: sum.splits)

lemma New_params:
  assumes "Lookup reg name = Some s" "distinct (map pmName (spParams s))" "New reg name values src = Inr inst"
  shows "params_All inst = canonical_params s values" and "inSpec inst = s"
proof -
  obtain p x where r: "resolve s values src = Inr p" and x: "p = resolved s values x" and i: "inSpec inst = s" "inParams inst = p"
    using assms(3) unfolding New_iff [OF assms(1)] resolve_iff by (auto split: option.splits)
  have "(case pValues p (pmName q) of None \<Rightarrow> 0 | Some v \<Rightarrow> v) = pval values q" if "q \<in> set (spParams s)" for q
    unfolding x resolved_lookup [OF assms(2)] canonical_pval(1) [OF assms(2) that] by simp
  then show "params_All inst = canonical_params s values" by (simp add: params_All_def i canonical_params_def)
  show "inSpec inst = s" by (rule i)
qed

text \<open>Giving every parameter its value changes nothing, nor does naming the default source.\<close>

lemma resolve_canonical:
  assumes d: "distinct (map pmName (spParams s))" and e: "source_for s src = source_for s src'"
    and v: "\<And>q. q \<in> set (spParams s) \<Longrightarrow> pval values' q = pval values q"
    and k: "fst ` set values' \<subseteq> pmName ` set (spParams s)" and r: "resolve s values src = Inr p"
  shows "resolve s values' src' = Inr p"
proof -
  have c: "canonical_params s values' = canonical_params s values" using v by (simp add: canonical_params_def)
  have "resolved s values' x = resolved s values x" for x
    using resolved_lookup [OF d, of "values'" x] resolved_lookup [OF d, of "values" x] c by (simp add: resolved_def)
  then show ?thesis using r v k e unfolding resolve_iff by (auto simp: list_all_iff split: option.splits)
qed

lemma New_canonical:
  assumes "Lookup reg name = Some s" "distinct (map pmName (spParams s))" "source_for s src = source_for s src'"
    and "\<And>q. q \<in> set (spParams s) \<Longrightarrow> pval values' q = pval values q"
    and "fst ` set values' \<subseteq> pmName ` set (spParams s)" "New reg name values src = Inr inst"
  shows "New reg name values' src' = Inr inst"
  using assms(6) resolve_canonical [OF assms(2-5)] unfolding New_iff [OF assms(1)] by blast

lemma canonical_keys: "fst ` set (canonical_params s values) = pmName ` set (spParams s)"
  by (force simp: canonical_params_def)

lemma New_keys:
  assumes "Lookup reg name = Some s" "New reg name values src = Inr inst"
  shows "fst ` set values \<subseteq> pmName ` set (spParams s)" "list_all (\<lambda>q. pval_ok q (pval values q)) (spParams s)"
  using assms(2) unfolding New_iff [OF assms(1)] resolve_iff by auto

section \<open>Well-formed inputs\<close>

definition name_ok :: "string \<Rightarrow> bool" where
  "name_ok n \<longleftrightarrow> length n \<le> MaxNameLen \<and> is_identifier n \<and> field_of n = None"

text \<open>What an input reads from: nothing where its indicator reads whole candles, a price field, or another input.\<close>

definition source_ok :: "string list \<Rightarrow> string \<Rightarrow> bool \<Rightarrow> string \<Rightarrow> bool" where
  "source_ok names name sourced src =
     (if sourced then clean src = src \<and> src \<noteq> ''volume'' \<and> (field_of src \<noteq> None \<or> src \<noteq> name \<and> src \<in> set names)
      else src = [])"

definition input_ok :: "spec list \<Rightarrow> string list \<Rightarrow> string \<Rightarrow> input \<Rightarrow> bool" where
  "input_ok reg names name i =
     (case Lookup reg (inpIndicator i) of
        None \<Rightarrow> False
      | Some s \<Rightarrow>
          inpIndicator i = spName s \<and> inpSourced i = spSourced s \<and> inpMulti i = (length (spOutputs s) > 1) \<and>
          inpOutput i \<in> set (spOutputs s) \<and> clean (inpOutput i) = inpOutput i \<and>
          source_ok names name (spSourced s) (inpSource i) \<and> list_all (\<lambda>(k, x). is_fin x) (inpParams i) \<and>
          (case New reg (spName s) (inpParams i) (field_of (inpSource i)) of
             Inl err \<Rightarrow> False
           | Inr inst \<Rightarrow> params_All inst = inpParams i))"

definition chains_of :: "(string \<times> input) list \<Rightarrow> (string \<times> string) list" where
  "chains_of inputs =
     map (\<lambda>(n, i). (n, inpSource i)) (filter (\<lambda>(n, i). inpSourced i \<and> field_of (inpSource i) = None) inputs)"

definition inputs_ok :: "spec list \<Rightarrow> (string \<times> input) list \<Rightarrow> bool" where
  "inputs_ok reg inputs \<longleftrightarrow>
     inputs \<noteq> [] \<and> length inputs \<le> MaxInputs \<and> sorted_wrt (<) (map fst inputs) \<and>
     list_all (\<lambda>(n, i). name_ok n \<and> input_ok reg (map fst inputs) n i) inputs \<and>
     findCycle (map fst inputs) (chains_of inputs) = []"

lemma onlyFields_Inr: "onlyFields body pt allowed = Inr u \<longleftrightarrow> fst ` set body \<subseteq> set allowed"
proof -
  have "find (\<lambda>name. name \<notin> set allowed) (sortedKeys body) = None \<longleftrightarrow> fst ` set body \<subseteq> set allowed"
    unfolding find_None_iff set_sortedKeys by blast
  then show ?thesis by (cases "find (\<lambda>name. name \<notin> set allowed) (sortedKeys body)") (auto simp: onlyFields_def fault_at_def)
qed

lemma usableName_Inr: "usableName n pt = Inr u \<longleftrightarrow> name_ok n"
  by (auto simp: usableName_def fault_at_def name_ok_def is_identifier_def)

lemma number_Inr: "number v pt what = Inr x \<longleftrightarrow> v = JNum x \<and> is_fin x"
  using finite_iff [of x] by (auto simp: number_def fault_at_def split: json.splits)

lemma str_Inr: "str v pt what = Inr t \<longleftrightarrow> v = JStr t"
  by (auto simp: str_def fault_at_def split: json.splits)

lemma object_Inr: "object v pt what = Inr body \<longleftrightarrow> v = JObj body"
  by (auto simp: object_def fault_at_def split: json.splits)

lemma json_list_Inr: "json_list v pt what = Inr items \<longleftrightarrow> v = JArr items"
  by (auto simp: json_list_def fault_at_def split: json.splits)

lemma fault_at_not_Inr [simp]: "fault_at pt r \<noteq> Inr x"
  by (simp add: fault_at_def)

lemmas parse_Inr = and_then_Inr onlyFields_Inr usableName_Inr number_Inr str_Inr object_Inr json_list_Inr

definition raw_ok :: "raw_input \<Rightarrow> bool" where
  "raw_ok raw \<longleftrightarrow> clean (riIndicator raw) = riIndicator raw \<and> clean (riSource raw) = riSource raw \<and>
     clean (riOutput raw) = riOutput raw \<and> list_all (\<lambda>(k, x). is_fin x) (riParams raw)"

lemma update_all: "list_all (\<lambda>(k, x). P x) al \<Longrightarrow> P v \<Longrightarrow> list_all (\<lambda>(k, x). P x) (AList.update k v al)"
  by (induction al) auto

lemma read_params_finite:
  "read_params body pt keys acc = Inr values \<Longrightarrow> list_all (\<lambda>(k, x). is_fin x) acc \<Longrightarrow> list_all (\<lambda>(k, x). is_fin x) values"
  by (induction keys arbitrary: acc) (auto simp: parse_Inr update_all)

lemma read_text_clean: "read_text body pt key = Inr t \<Longrightarrow> clean t = t"
  by (auto simp: read_text_def parse_Inr split: if_splits)

lemma read_values_finite: "read_values body pt = Inr vs \<Longrightarrow> list_all (\<lambda>(k, x). is_fin x) vs"
  by (cases "field body ''params'' = JNull") (auto simp: read_values_def parse_Inr intro: read_params_finite)

lemma readInput_ok:
  assumes "readInput v pt = Inr raw"
  shows "raw_ok raw"
proof -
  obtain body t vs src out where "read_values body pt = Inr vs"
    "read_text body pt ''source'' = Inr src" "read_text body pt ''output'' = Inr out"
    "raw = \<lparr>riIndicator = clean t, riParams = vs, riSource = src, riOutput = out\<rparr>"
    using assms by (auto simp: readInput_def and_then_Inr split: option.splits)
  then show ?thesis
    using read_text_clean [of body pt "''source''" src] read_text_clean [of body pt "''output''" out] read_values_finite [of body pt vs]
    by (simp add: raw_ok_def)
qed

text \<open>Which sources \<open>read_chains\<close> accepts, and the chains it returns.\<close>

definition raw_source_ok :: "string list \<Rightarrow> string \<Rightarrow> raw_input \<Rightarrow> bool" where
  "raw_source_ok names name raw \<longleftrightarrow>
     riSource raw = [] \<or> riSource raw \<noteq> ''volume'' \<and>
       (field_of (riSource raw) \<noteq> None \<or> riSource raw \<noteq> name \<and> riSource raw \<in> set names)"

definition chained :: "raw_input \<Rightarrow> bool" where
  "chained raw \<longleftrightarrow> riSource raw \<noteq> [] \<and> field_of (riSource raw) = None"

definition raw_chains :: "(string \<times> raw_input) list \<Rightarrow> (string \<times> string) list" where
  "raw_chains raws = map (\<lambda>(n, r). (n, riSource r)) (filter (\<lambda>(n, r). chained r) raws)"

lemma raw_chains_simps [simp]:
  "raw_chains [] = []"
  "raw_chains ((n, r) # raws) = (if chained r then (n, riSource r) # raw_chains raws else raw_chains raws)"
  by (simp_all add: raw_chains_def)

lemma field_of_volume: "field_of ''volume'' = Some FieldVolume" and field_of_Nil [simp]: "field_of [] = None"
  by (simp_all add: field_of_def)

lemma read_chains_Inr:
  "read_chains raws pt rest = Inr ch \<longleftrightarrow>
    list_all (\<lambda>(n, r). raw_source_ok (map fst raws) n r) rest \<and> ch = raw_chains rest"
proof (induction rest arbitrary: ch)
  case (Cons a rest)
  obtain n r where a: "a = (n, r)" by (cases a)
  have m: "map_of raws (riSource r) = None \<longleftrightarrow> riSource r \<notin> set (map fst raws)" by (auto simp: map_of_eq_None_iff)
  show ?case unfolding a using Cons m
    by (auto simp: Let_def parse_Inr raw_source_ok_def chained_def field_of_volume)
qed auto

lemma read_raws_Inr:
  "read_raws body pt names = Inr raws \<Longrightarrow>
    map fst raws = names \<and> list_all (\<lambda>(n, r). name_ok n \<and> raw_ok r) raws"
  by (induction names arbitrary: raws) (auto simp: parse_Inr readInput_ok)

lemma param_named_some:
  assumes "name \<in> pmName ` set (spParams s)"
  obtains q where "param_named s name = Some q" "q \<in> set (spParams s)" "pmName q = name"
proof (cases "param_named s name")
  case None
  then show thesis using assms by (auto simp: param_named_def find_None_iff)
next
  case (Some q)
  then have "q \<in> set (rev (spParams s))" "pmName q = name"
    unfolding param_named_def by (auto simp: find_Some_iff simp del: set_rev)
  then show thesis using that Some by simp
qed

lemma paramFault_pass:
  assumes "fst ` set vs \<subseteq> pmName ` set (spParams s)" "list_all (\<lambda>q. pval_ok q (pval vs q)) (spParams s)"
  shows "paramFault s vs pt = Inr ()"
proof -
  have "set names \<subseteq> fst ` set vs \<Longrightarrow> param_fault_at s vs pt names = Inr ()" for names
  proof (induction names)
    case (Cons name names)
    then have "name \<in> pmName ` set (spParams s)" using assms(1) by auto
    then obtain q where q: "param_named s name = Some q" "q \<in> set (spParams s)" "pmName q = name"
      by (rule param_named_some)
    obtain x where x: "map_of vs name = Some x" using Cons.prems by (cases "map_of vs name") (auto simp: map_of_eq_None_iff)
    then have "pval vs q = x" by (simp add: pval_def q(3))
    then have "pval_ok q x" using assms(2) q(2) by (auto simp: list_all_iff)
    then show ?case using Cons q(1) x by (auto simp: Let_def pval_ok_def whole_trunc)
  qed simp
  then show ?thesis by (simp add: paramFault_def)
qed

lemma loop_fault [simp]:
  "(case xs of [] \<Rightarrow> r | y # ys \<Rightarrow> fault_at (f y ys) (g y ys)) = Inr x \<longleftrightarrow> xs = [] \<and> r = Inr x"
  by (cases xs) simp_all

text \<open>What the parser relies on in the catalogue of indicators.\<close>

locale catalogue =
  fixes reg :: "spec list"
  assumes params_distinct: "s \<in> set reg \<Longrightarrow> distinct (map pmName (spParams s))"
    and params_clean: "s \<in> set reg \<Longrightarrow> q \<in> set (spParams s) \<Longrightarrow> clean (pmName q) = pmName q \<and> is_fin (pmDefault q)"
    and outputs_clean: "s \<in> set reg \<Longrightarrow> spOutputs s \<noteq> [] \<and> list_all (\<lambda>out. clean out = out \<and> out \<noteq> []) (spOutputs s)"
    and atr_known: "\<exists>s q. Lookup reg ''atr'' = Some s \<and> spParams s = [q] \<and> pmName q = ''period'' \<and> (\<forall>p. spValidate s p = None)"
begin

lemma build_ok:
  assumes b: "build reg raw pt (chained raw) = Inr inp" and r: "raw_ok raw" and src: "raw_source_ok names name raw"
  shows "input_ok reg names name inp" and "(inpSourced inp \<and> field_of (inpSource inp) = None) = chained raw"
    and "chained raw \<Longrightarrow> inpSource inp = riSource raw"
proof -
  obtain s inst where s: "Lookup reg (riIndicator raw) = Some s" and ns: "riSource raw = [] \<or> spSourced s"
    and n: "New reg (spName s) (riParams raw) (if \<not> chained raw \<and> riSource raw \<noteq> [] then field_of (riSource raw) else None) = Inr inst"
    and out: "(if riOutput raw = [] then hd (spOutputs s) else riOutput raw) \<in> set (spOutputs s)"
    and inp: "inp = \<lparr>inpIndicator = spName s, inpParams = params_All inst,
                             inpSource = (if spSourced s then (if riSource raw = [] then DefaultSource else riSource raw) else []),
                             inpOutput = (if riOutput raw = [] then hd (spOutputs s) else riOutput raw), inpSourced = spSourced s,
                             inpMulti = (length (spOutputs s) > 1)\<rparr>"
    using b by (auto simp: build_def Let_def and_then_Inr split: option.splits sum.splits)
  note L = Lookup_name [OF s]
  note d = params_distinct [OF conjunct1 [OF conjunct2 [OF L]]]
  let ?src = "inpSource inp"
  have src_eq: "?src = (if spSourced s then (if riSource raw = [] then DefaultSource else riSource raw) else [])" by (simp add: inp)
  have dflt: "field_of DefaultSource = Some (FieldSource SourceClose)" "clean DefaultSource = DefaultSource" "DefaultSource \<noteq> ''volume''"
    by (simp_all add: field_of_def DefaultSource_def clean_def to_lower_def trim_space_def is_space_def lower_char_def)
  have sf: "source_for s (if \<not> chained raw \<and> riSource raw \<noteq> [] then field_of (riSource raw) else None) = source_for s (field_of ?src)"
    using ns dflt unfolding src_eq by (auto simp: chained_def source_for_def)
  have vals: "params_All inst = canonical_params s (riParams raw)"
    by (rule New_params(1) [OF conjunct2 [OF conjunct2 [OF L]] d n])
  have "New reg (spName s) (params_All inst) (field_of ?src) = Inr inst"
    unfolding vals by (rule New_canonical [OF _ d sf _ _ n]) (use L canonical_pval(2) [OF d] canonical_keys in auto)
  moreover have "list_all (\<lambda>(k, x). is_fin x) (params_All inst)"
    unfolding vals canonical_params_def
    using r params_clean [of s] L
    by (auto simp: list_all_iff pval_def raw_ok_def dest!: map_of_SomeD split: option.splits)
  moreover have "clean (inpOutput inp) = inpOutput inp \<and> inpOutput inp \<in> set (spOutputs s)"
    using out r outputs_clean [of s] L by (auto simp: inp raw_ok_def list_all_iff)
  moreover have "source_ok names name (spSourced s) ?src"
    using src r ns dflt unfolding src_eq by (auto simp: source_ok_def raw_source_ok_def raw_ok_def)
  moreover have "inpIndicator inp = spName s" "inpSourced inp = spSourced s" "inpMulti inp = (length (spOutputs s) > 1)"
    "inpParams inp = params_All inst" by (simp_all add: inp)
  moreover have "Lookup reg (spName s) = Some s" using L by blast
  ultimately show "input_ok reg names name inp" unfolding input_ok_def by (simp only: option.case sum.case simp_thms)
  show "(inpSourced inp \<and> field_of ?src = None) = chained raw"
    using ns dflt unfolding src_eq by (auto simp: inp chained_def)
  show "chained raw \<Longrightarrow> ?src = riSource raw" using ns unfolding src_eq by (auto simp: chained_def)
qed

lemma build_all_ok:
  assumes "build_all reg pt chain rest = Inr inputs" "list_all (\<lambda>(n, r). raw_ok r \<and> raw_source_ok names n r) rest"
    and "\<And>n r. (n, r) \<in> set rest \<Longrightarrow> (map_of chain n \<noteq> None) = chained r"
  shows "map fst inputs = map fst rest \<and> list_all (\<lambda>(n, i). input_ok reg names n i) inputs \<and> chains_of inputs = raw_chains rest"
  using assms
proof (induction rest arbitrary: inputs)
  case Nil
  then show ?case by (simp add: chains_of_def)
next
  case (Cons a rest)
  obtain n r where a: "a = (n, r)" by (cases a)
  obtain inp more_inputs where i: "build reg r (child pt n) (chained r) = Inr inp" "build_all reg pt chain rest = Inr more_inputs"
    "inputs = (n, inp) # more_inputs"
    using Cons.prems(1) Cons.prems(3) [of n r] unfolding a by (auto simp: and_then_Inr)
  have ok: "raw_ok r" "raw_source_ok names n r" using Cons.prems(2) a by simp_all
  from build_ok [OF i(1) ok] Cons.IH [OF i(2)] Cons.prems(2,3) show ?case
    by (auto simp: a i(3) chains_of_def)
qed

lemma raw_chains_lookup:
  assumes "distinct (map fst raws)" "(n, r) \<in> set raws"
  shows "(map_of (raw_chains raws) n \<noteq> None) = chained r"
  using assms by (induction raws) (auto simp: map_of_eq_None_iff raw_chains_def image_iff)

lemma readInputs_ok:
  assumes "readInputs reg v pt = Inr inputs"
  shows "inputs_ok reg inputs"
proof -
  obtain body raws ch where v: "v = JObj body" "body \<noteq> []" "length (sortedKeys body) \<le> MaxInputs"
    and raws: "read_raws body pt (sortedKeys body) = Inr raws" and ch: "read_chains raws pt raws = Inr ch"
    and cyc: "findCycle (map fst raws) ch = []" and b: "build_all reg pt ch raws = Inr inputs"
    using assms by (auto simp: readInputs_def parse_Inr not_less)
  note R = read_raws_Inr [OF raws]
  note C = iffD1 [OF read_chains_Inr ch]
  have d: "distinct (map fst raws)" using R sortedKeys_sorted [of body] by (simp add: strict_sorted_iff)
  have "map fst inputs = map fst raws \<and> list_all (\<lambda>(n, i). input_ok reg (map fst raws) n i) inputs \<and> chains_of inputs = raw_chains raws"
  proof (rule build_all_ok [OF b])
    show "list_all (\<lambda>(n, r). raw_ok r \<and> raw_source_ok (map fst raws) n r) raws" using R C by (auto simp: list_all_iff)
    show "(map_of ch n \<noteq> None) = chained r" if "(n, r) \<in> set raws" for n r
      using raw_chains_lookup [OF d that] C by simp
  qed
  moreover have "list_all (\<lambda>(n, i). name_ok n) inputs"
  proof -
    have "list_all name_ok (map fst raws)" using conjunct2 [OF R] by (auto simp: list_all_iff)
    then have "list_all name_ok (map fst inputs)" using calculation by simp
    then show ?thesis by (auto simp: list_all_iff)
  qed
  moreover have "inputs \<noteq> []" using calculation R v(2) by (metis list.map_disc_iff sortedKeys_Nil)
  moreover have "length inputs \<le> MaxInputs" using calculation R v(3) by (metis length_map)
  ultimately show ?thesis using R C cyc sortedKeys_sorted [of body]
    by (auto simp: inputs_ok_def list_all_iff)
qed

end

section \<open>Inputs read back\<close>

definition raw_of :: "input \<Rightarrow> raw_input" where
  "raw_of i =
     \<lparr>riIndicator = inpIndicator i,
      riParams = map (\<lambda>k. (k, case map_of (inpParams i) k of None \<Rightarrow> 0 | Some x \<Rightarrow> x)) (sortedKeys (inpParams i)),
      riSource = inpSource i, riOutput = (if inpMulti i then inpOutput i else [])\<rparr>"

lemma update_fresh: "k \<notin> fst ` set al \<Longrightarrow> AList.update k v al = al @ [(k, v)]"
  by (induction al) auto

lemma map_of_json: "map_of (map (\<lambda>(k, x). (k, JNum x)) vs) k = map_option JNum (map_of vs k)"
  by (induction vs) auto

lemma keys_json: "map fst (map (\<lambda>(k, x). (k, f x)) vs) = map fst vs"
  by (induction vs) auto

lemma sortedKeys_json: "sortedKeys (map (\<lambda>(k, x). (k, f x)) vs) = sortedKeys vs"
  unfolding sortedKeys_def keys_json ..

lemma read_params_canonical:
  assumes "list_all (\<lambda>(k, x). clean k = k \<and> is_fin x) vs" "set keys \<subseteq> fst ` set vs" "distinct keys" "set keys \<inter> fst ` set acc = {}"
  shows "read_params (map (\<lambda>(k, x). (k, JNum x)) vs) pt keys acc =
    Inr (acc @ map (\<lambda>k. (k, case map_of vs k of None \<Rightarrow> 0 | Some x \<Rightarrow> x)) keys)"
  using assms(2-4)
proof (induction keys arbitrary: acc)
  case (Cons k keys)
  obtain x where x: "map_of vs k = Some x" using Cons.prems(1) by (cases "map_of vs k") (auto simp: map_of_eq_None_iff)
  then have kx: "clean k = k" "is_fin x" using assms(1) by (auto simp: list_all_iff dest!: map_of_SomeD)
  have n: "number (JNum x) p w = Inr x" for p w using kx(2) number_Inr by blast
  have "field (map (\<lambda>(k, x). (k, JNum x)) vs) k = JNum x" by (simp add: field_def map_of_json x)
  then have "read_params (map (\<lambda>(k, x). (k, JNum x)) vs) pt (k # keys) acc =
      read_params (map (\<lambda>(k, x). (k, JNum x)) vs) pt keys (acc @ [(k, x)])"
    using Cons.prems(3) by (simp add: n kx(1) update_fresh)
  then show ?case using Cons.IH [of "acc @ [(k, x)]"] Cons.prems x by auto
qed simp

lemma read_text_string: "field body key = JStr t \<Longrightarrow> clean t = t \<Longrightarrow> read_text body pt key = Inr t"
  by (simp add: read_text_def str_def)

lemma read_text_absent: "map_of body key = None \<Longrightarrow> read_text body pt key = Inr []"
  by (simp add: read_text_def field_def)

text \<open>The fields of an encoded input.\<close>

definition input_fields :: "input \<Rightarrow> (string \<times> json) list" where
  "input_fields i =
     [(''indicator'', JStr (inpIndicator i)), (''params'', JObj (map (\<lambda>(k, x). (k, JNum x)) (inpParams i)))] @
     (if inpSourced i \<and> inpSource i \<noteq> [] then [(''source'', JStr (inpSource i))] else []) @
     (if inpMulti i \<and> inpOutput i \<noteq> [] then [(''output'', JStr (inpOutput i))] else [])"

lemma marshal_input_fields: "marshal_input i = JObj (input_fields i)"
  by (simp add: marshal_input_def input_fields_def)

lemma input_fields_at:
  "map_of (input_fields i) ''indicator'' = Some (JStr (inpIndicator i))"
  "field (input_fields i) ''params'' = JObj (map (\<lambda>(k, x). (k, JNum x)) (inpParams i))"
  "map_of (input_fields i) ''source'' = (if inpSourced i \<and> inpSource i \<noteq> [] then Some (JStr (inpSource i)) else None)"
  "map_of (input_fields i) ''output'' = (if inpMulti i \<and> inpOutput i \<noteq> [] then Some (JStr (inpOutput i)) else None)"
  by (simp_all add: input_fields_def field_def)

lemma input_fields_known: "fst ` set (input_fields i) \<subseteq> set [''indicator'', ''params'', ''source'', ''output'']"
  by (auto simp: input_fields_def)

context catalogue
begin

lemma input_params_clean:
  assumes "input_ok reg names name i"
  shows "list_all (\<lambda>(k, x). clean k = k \<and> is_fin x) (inpParams i)"
proof -
  obtain s inst where s: "Lookup reg (inpIndicator i) = Some s" and f: "list_all (\<lambda>(k, x). is_fin x) (inpParams i)"
    and n: "New reg (spName s) (inpParams i) (field_of (inpSource i)) = Inr inst" and p: "params_All inst = inpParams i"
    using assms by (auto simp: input_ok_def split: option.splits sum.splits)
  note L = Lookup_name [OF s]
  note d = params_distinct [OF conjunct1 [OF conjunct2 [OF L]]]
  have c: "inpParams i = canonical_params s (inpParams i)"
    unfolding p [symmetric] by (rule New_params(1) [OF conjunct2 [OF conjunct2 [OF L]] d n, unfolded p [symmetric]])
  have "list_all (\<lambda>(k, x). clean k = k) (inpParams i)"
  proof -
    have k: "fst ` set (inpParams i) = pmName ` set (spParams s)"
      using canonical_keys [of s "inpParams i"] c by simp
    have "clean k = k" if "(k, x) \<in> set (inpParams i)" for k x
    proof -
      have "k \<in> pmName ` set (spParams s)" unfolding k [symmetric] using that by force
      then show ?thesis using params_clean [OF conjunct1 [OF conjunct2 [OF L]]] by auto
    qed
    then show ?thesis by (auto simp: list_all_iff)
  qed
  then show ?thesis using f by (auto simp: list_all_iff)
qed

lemma readInput_back:
  assumes "input_ok reg names name i"
  shows "readInput (marshal_input i) pt = Inr (raw_of i)"
proof -
  obtain s where s: "Lookup reg (inpIndicator i) = Some s" "inpIndicator i = spName s" "clean (inpOutput i) = inpOutput i"
    "clean (inpSource i) = inpSource i" "inpSourced i \<or> inpSource i = []"
    using assms by (auto simp: input_ok_def source_ok_def split: option.splits if_splits)
  have ind: "clean (inpIndicator i) = inpIndicator i" using Lookup_name [OF s(1)] s(2) by simp
  have vals: "read_values (input_fields i) p = Inr (riParams (raw_of i))" for p
    using read_params_canonical [OF input_params_clean [OF assms], of "sortedKeys (inpParams i)" "[]" "child p ''params''"]
      sortedKeys_sorted [of "inpParams i"]
    by (simp add: read_values_def input_fields_at object_def raw_of_def sortedKeys_json strict_sorted_iff)
  have src: "read_text (input_fields i) p ''source'' = Inr (riSource (raw_of i))" for p
    using s(4,5) by (cases "inpSource i = []") (auto simp: raw_of_def input_fields_at field_def read_text_string read_text_absent)
  have out: "read_text (input_fields i) p ''output'' = Inr (riOutput (raw_of i))" for p
    using s(3) by (cases "inpMulti i \<and> inpOutput i \<noteq> []") (auto simp: raw_of_def input_fields_at field_def read_text_string read_text_absent)
  have fields: "onlyFields (input_fields i) pt [''indicator'', ''params'', ''source'', ''output''] = Inr ()"
    using onlyFields_Inr input_fields_known by blast
  show ?thesis
    unfolding readInput_def marshal_input_fields object_def json.case and_then_simps
      fields input_fields_at(1) option.case str_def vals src out ind
    by (simp add: raw_of_def)
qed

end

context catalogue
begin

lemma build_back:
  assumes "input_ok reg names name i" and "[] \<notin> set names"
  shows "build reg (raw_of i) pt (inpSourced i \<and> field_of (inpSource i) = None) = Inr i"
proof -
  obtain s inst where s: "Lookup reg (inpIndicator i) = Some s" and f: "inpIndicator i = spName s" "inpSourced i = spSourced s"
    "inpMulti i = (length (spOutputs s) > 1)" "inpOutput i \<in> set (spOutputs s)"
    "source_ok names name (spSourced s) (inpSource i)"
    and n: "New reg (spName s) (inpParams i) (field_of (inpSource i)) = Inr inst" and p: "params_All inst = inpParams i"
    using assms(1) by (auto simp: input_ok_def split: option.splits sum.splits)
  have L: "Lookup reg (spName s) = Some s" "s \<in> set reg" using Lookup_name [OF s] by blast+
  note d = params_distinct [OF L(2)]
  let ?vs = "riParams (raw_of i)"
  have look: "map_of ?vs k = map_of (inpParams i) k" for k
  proof -
    have "map_of ?vs k = (if k \<in> fst ` set (inpParams i) then Some (case map_of (inpParams i) k of None \<Rightarrow> 0 | Some x \<Rightarrow> x) else None)"
      by (simp add: raw_of_def map_of_map_restrict restrict_map_def comp_def)
    also have "k \<in> fst ` set (inpParams i) \<longleftrightarrow> map_of (inpParams i) k \<noteq> None" by (metis map_of_eq_None_iff)
    finally show ?thesis by (auto split: option.splits)
  qed
  have keys: "fst ` set ?vs = fst ` set (inpParams i)" by (simp add: raw_of_def image_image)
  note K = New_keys [OF L(1) n]
  have pv: "pval ?vs q = pval (inpParams i) q" for q by (simp add: pval_def look)
  have pf: "paramFault s ?vs q = Inr ()" for q
    by (rule paramFault_pass) (use K keys pv in \<open>simp_all add: list_all_iff\<close>)
  have n': "New reg (spName s) ?vs (field_of (inpSource i)) = Inr inst"
    by (rule New_canonical [OF L(1) d refl _ _ n]) (use pv K keys in simp_all)
  have src: "(if \<not> (inpSourced i \<and> field_of (inpSource i) = None) \<and> riSource (raw_of i) \<noteq> [] then field_of (riSource (raw_of i)) else None)
      = field_of (inpSource i)"
    using f(2,5) by (auto simp: raw_of_def source_ok_def)
  have ok: "riSource (raw_of i) \<noteq> [] \<and> \<not> spSourced s \<longleftrightarrow> False" using f(5) by (auto simp: raw_of_def source_ok_def)
  have src': "(if spSourced s then if riSource (raw_of i) = [] then DefaultSource else riSource (raw_of i) else []) = inpSource i"
    if "inpSource i \<noteq> [] \<or> \<not> spSourced s" using that f(5) by (cases "spSourced s") (simp_all add: raw_of_def source_ok_def)
  have nonempty: "inpSource i \<noteq> [] \<or> \<not> spSourced s"
    using f(5) assms(2) by (auto simp: source_ok_def)
  have out: "(if riOutput (raw_of i) = [] then hd (spOutputs s) else riOutput (raw_of i)) = inpOutput i"
  proof (cases "inpMulti i")
    case True
    then show ?thesis using f(4) outputs_clean [OF L(2)] by (auto simp: raw_of_def list_all_iff)
  next
    case False
    then obtain only where "spOutputs s = [only]"
      using f(3) outputs_clean [OF L(2)] by (cases "spOutputs s" rule: remdups_adj.cases) auto
    then show ?thesis using False f(4) by (simp add: raw_of_def)
  qed
  have ri: "riIndicator (raw_of i) = spName s" using f(1) by (simp add: raw_of_def)
  have i: "i = \<lparr>inpIndicator = spName s, inpParams = params_All inst, inpSource = inpSource i, inpOutput = inpOutput i,
      inpSourced = spSourced s, inpMulti = (length (spOutputs s) > 1)\<rparr>" using f p by simp
  show ?thesis
    unfolding build_def ri L(1) option.case pf and_then_simps Let_def src n' sum.case out src' [OF nonempty] ok guard_pass
    using f(4) i by (simp add: guard_def)
qed

end

lemma input_names_nonempty: "inputs_ok reg inputs \<Longrightarrow> [] \<notin> set (map fst inputs)"
  by (auto simp: inputs_ok_def list_all_iff name_ok_def is_identifier_def)

lemma map_of_inputs: "map_of (map (\<lambda>(n, i). (n, f i)) inputs) n = map_option f (map_of inputs n)"
  by (induction inputs) auto

lemma chains_of_lookup:
  assumes "distinct (map fst inputs)" "(n, i) \<in> set inputs"
  shows "(map_of (chains_of inputs) n \<noteq> None) = (inpSourced i \<and> field_of (inpSource i) = None)"
  using assms by (induction inputs) (auto simp: map_of_eq_None_iff chains_of_def image_iff)

lemma raw_of_source [simp]: "riSource (raw_of i) = inpSource i"
  by (simp add: raw_of_def)

lemma raw_chains_canonical:
  "(\<And>n i. (n, i) \<in> set inputs \<Longrightarrow> chained (raw_of i) = (inpSourced i \<and> field_of (inpSource i) = None)) \<Longrightarrow>
    raw_chains (map (\<lambda>(n, i). (n, raw_of i)) inputs) = chains_of inputs"
proof (induction inputs)
  case (Cons a inputs)
  obtain n i where a: "a = (n, i)" by (cases a)
  have "chained (raw_of i) = (inpSourced i \<and> field_of (inpSource i) = None)" by (rule Cons.prems [of n]) (simp add: a)
  with Cons show ?case by (auto simp: a chains_of_def)
qed (simp add: chains_of_def)

lemma input_ok_source: "input_ok reg names n i \<Longrightarrow> source_ok names n (inpSourced i) (inpSource i)"
  by (auto simp: input_ok_def split: option.splits)

lemma source_ok_raw: "source_ok names n (inpSourced i) (inpSource i) \<Longrightarrow> raw_source_ok names n (raw_of i)"
  by (auto simp: source_ok_def raw_source_ok_def raw_of_def split: if_splits)

lemma source_ok_chained:
  "source_ok names n (inpSourced i) (inpSource i) \<Longrightarrow> [] \<notin> set names \<Longrightarrow>
    chained (raw_of i) = (inpSourced i \<and> field_of (inpSource i) = None)"
  by (auto simp: source_ok_def chained_def raw_of_def split: if_splits)

context catalogue
begin

lemma readInputs_back:
  assumes ok: "inputs_ok reg inputs"
  shows "readInputs reg (JObj (map (\<lambda>(n, i). (n, marshal_input i)) inputs)) pt = Inr inputs"
proof -
  let ?body = "map (\<lambda>(n, i). (n, marshal_input i)) inputs" and ?names = "map fst inputs"
  let ?raws = "map (\<lambda>(n, i). (n, raw_of i)) inputs"
  have sorted: "sorted_wrt (<) ?names" and size: "inputs \<noteq> []" "length inputs \<le> MaxInputs"
    and each: "list_all (\<lambda>(n, i). name_ok n \<and> input_ok reg ?names n i) inputs"
    and cyc: "findCycle ?names (chains_of inputs) = []" using ok by (simp_all add: inputs_ok_def)
  have d: "distinct ?names" using sorted by (simp add: strict_sorted_iff)
  have bk: "map fst ?body = ?names" and rk: "map fst ?raws = ?names" by (induction inputs) auto
  have keys: "sortedKeys ?body = ?names" by (rule sortedKeys_eqI [OF sorted]) (force simp: image_iff)
  have raws: "set part \<subseteq> set inputs \<Longrightarrow> read_raws ?body pt (map fst part) = Inr (map (\<lambda>(n, i). (n, raw_of i)) part)" for part
  proof (induction part)
    case (Cons a part)
    obtain n i where a: "a = (n, i)" by (cases a)
    then have m: "(n, i) \<in> set inputs" using Cons.prems by simp
    then have "map_of inputs n = Some i" using d by simp
    then have f: "field ?body n = marshal_input i" by (simp add: field_def map_of_inputs)
    have ok1: "name_ok n" "input_ok reg ?names n i" using each m by (auto simp: list_all_iff)
    have "usableName n p = Inr ()" for p using usableName_Inr ok1(1) by blast
    then show ?case using Cons a f readInput_back [OF ok1(2)] by simp
  qed simp
  have ch: "read_chains ?raws pt ?raws = Inr (raw_chains ?raws)"
  proof (rule iffD2 [OF read_chains_Inr], rule conjI [OF _ refl])
    show "list_all (\<lambda>(n, r). raw_source_ok (map fst ?raws) n r) ?raws"
      unfolding rk using each by (force simp: list_all_iff intro: source_ok_raw [OF input_ok_source])
  qed
  have ce: "raw_chains ?raws = chains_of inputs"
  proof -
    have "chained (raw_of i) = (inpSourced i \<and> field_of (inpSource i) = None)" if "(n, i) \<in> set inputs" for n i
      by (rule source_ok_chained [OF input_ok_source input_names_nonempty [OF ok]]) (use each that in \<open>auto simp: list_all_iff\<close>)
    then show ?thesis by (rule raw_chains_canonical)
  qed
  have b: "set part \<subseteq> set inputs \<Longrightarrow> build_all reg pt (chains_of inputs) (map (\<lambda>(n, i). (n, raw_of i)) part) = Inr part" for part
  proof (induction part)
    case (Cons a part)
    obtain n i where a: "a = (n, i)" by (cases a)
    then have m: "(n, i) \<in> set inputs" using Cons.prems by simp
    then have "input_ok reg ?names n i" using each by (auto simp: list_all_iff)
    from build_back [OF this input_names_nonempty [OF ok]] show ?case
      using Cons a chains_of_lookup [OF d m] by simp
  qed simp
  have "\<not> MaxInputs < length ?names" using size(2) by simp
  then show ?thesis
    unfolding readInputs_def object_def json.case and_then_simps keys raws [OF subset_refl] ch ce rk cyc list.case b [OF subset_refl]
    using size by (simp add: guard_def)
qed

end

end
