(* ===== verification/Parsed_Rules.thy ===== *)
theory Parsed_Rules
  imports Parsed_Inputs
begin

text \<open>
  The rules of a strategy: what the parser's checks leave well-formed (\<open>node_wf\<close>, with its comparisons,
  operands and bracket levels), the counters it threads through a side (\<open>after_nodes\<close>), that everything it
  returns is well-formed within the limits of depth, nodes and brackets, and that a well-formed rule,
  encoded and parsed again, is read back as it was.
\<close>

section \<open>Well-formed rules\<close>

definition back_ok :: "int \<Rightarrow> bool" where
  "back_ok n \<longleftrightarrow> 0 \<le> n \<and> n \<le> int MaxBack"

text \<open>An operand reads an input by its name or by one of several lines of it, a price field, or a constant.\<close>

definition operand_ok :: "spec list \<Rightarrow> (string \<times> input) list \<Rightarrow> operand \<Rightarrow> bool" where
  "operand_ok reg inputs x =
     (case oKind x of
        OperandLiteral \<Rightarrow> x = literal (oValue x)
      | OperandField \<Rightarrow> x = field_operand (oField x) (oBack x) \<and> back_ok (oBack x)
      | OperandInput \<Rightarrow>
          x = input_operand (oInput x) (oOutput x) (oBack x) \<and> back_ok (oBack x) \<and> clean (operand_ref x) = operand_ref x \<and>
          (case map_of inputs (oInput x) of
             None \<Rightarrow> False
           | Some i \<Rightarrow> oOutput x = [] \<or>
               (case Lookup reg (inpIndicator i) of
                  None \<Rightarrow> False
                | Some s \<Rightarrow> oOutput x \<in> set (spOutputs s) \<and> length (spOutputs s) \<noteq> 1)))"

definition trend :: "comparator \<Rightarrow> bool" where
  "trend op \<longleftrightarrow> op = OpRising \<or> op = OpFalling"

definition compare_ok :: "spec list \<Rightarrow> (string \<times> input) list \<Rightarrow> comparator \<Rightarrow> operand list \<Rightarrow> bool" where
  "compare_ok reg inputs op xs \<longleftrightarrow>
     list_all (operand_ok reg inputs) xs \<and>
     (if trend op then length xs = 2 \<and> \<not> bad_bars (xs ! 1)
      else fst (arity op) \<le> length xs \<and> length xs \<le> snd (arity op) \<and> \<not> reversed_span op xs)"

definition atr_period_ok :: "spec list \<Rightarrow> int \<Rightarrow> bool" where
  "atr_period_ok reg n =
     (case Lookup reg ATRIndicator of
        None \<Rightarrow> False
      | Some s \<Rightarrow>
          list_all (\<lambda>q. if pmName q = ''period'' then \<not> float_of_int n < pmMin q \<and> \<not> float_of_int n > pmMax q else True) (spParams s))"

definition whole32 :: "int \<Rightarrow> bool" where
  "whole32 n \<longleftrightarrow> \<bar>n\<bar> \<le> 2147483647"

definition level_ok :: "spec list \<Rightarrow> level \<Rightarrow> bool" where
  "level_ok reg l =
     (case lType l of
        LevelPct \<Rightarrow> l = \<lparr>lType = LevelPct, lValue = lValue l, lPeriod = 0, lMult = 0\<rparr> \<and>
          is_fin (lValue l) \<and> \<not> lValue l \<le> 0 \<and> \<not> lValue l \<ge> 1
      | LevelATR \<Rightarrow> l = \<lparr>lType = LevelATR, lValue = 0, lPeriod = lPeriod l, lMult = lMult l\<rparr> \<and>
          whole32 (lPeriod l) \<and> atr_period_ok reg (lPeriod l) \<and> is_fin (lMult l) \<and> \<not> lMult l \<le> 0 \<and> \<not> lMult l > Fin 100)"

lemma member_simps [simp]: "member [x, y] 0 = x" "member [x, y] 1 = y" "member [x, y] (Suc 0) = y"
  by (simp_all add: member_def)

lemma wholeNumber_Inr:
  assumes "wholeNumber v pt what = Inr n"
  shows "whole32 n"
proof -
  obtain x where x: "v = JNum x" "is_fin x" "feq x (math_Trunc x)" "\<not> \<bar>x\<bar> > Fin 2147483647" "n = go_int x"
    using assms by (auto simp: wholeNumber_def and_then_Inr number_Inr)
  have v: "\<bar>val x\<bar> \<le> 2147483647" using x(2,4) by (cases x) (auto simp: less_f64_def not_less)
  define m where "m = (if val x < 0 then - \<lfloor>- val x\<rfloor> else \<lfloor>val x\<rfloor>)"
  have m: "\<bar>m\<bar> \<le> 2147483647" using v unfolding m_def by (auto simp: floor_le_iff le_floor_iff abs_le_iff) linarith+
  have "int_of_f64 x = Some m" using x(2) by (cases x) (simp_all add: m_def)
  then have "go_int x = m" using m by (intro i64_of_Fin) auto
  then show ?thesis using m x(5) by (simp add: whole32_def)
qed

lemma wholeNumber_back: "whole32 n \<Longrightarrow> wholeNumber (JNum (float_of_int n)) pt what = Inr n"
proof -
  assume n: "whole32 n"
  then have s: "\<bar>n\<bar> \<le> 2 ^ 53" by (simp add: whole32_def)
  have "\<bar>of_int n\<bar> \<le> (of_int 2147483647 :: rat)" using n unfolding whole32_def by (simp only: of_int_abs [symmetric] of_int_le_iff)
  then have "\<not> \<bar>float_of_int n\<bar> > Fin 2147483647" unfolding float_of_int_small [OF s] by (simp add: less_f64_def)
  moreover have "feq (float_of_int n) (math_Trunc (float_of_int n))"
    unfolding trunc_float [OF s] by (simp add: feq_def float_of_int_small [OF s] less_eq_f64_def)
  moreover have "number (JNum (float_of_int n)) pt what = Inr (float_of_int n)"
    by (simp add: number_Inr float_of_int_small [OF s])
  ultimately show ?thesis by (simp add: wholeNumber_def go_int_float [OF s])
qed

section \<open>Operands\<close>

lemma text_case [simp]:
  "(case v of JStr n \<Rightarrow> f n | _ \<Rightarrow> fault_at p r) = Inr x \<longleftrightarrow> (\<exists>n. v = JStr n \<and> f n = Inr x)"
  by (cases v) auto

lemma field_name_back: "field_of (field_name f) = Some f"
  by (cases f; cases "case f of FieldSource x \<Rightarrow> x | _ \<Rightarrow> SourceClose")
    (simp_all add: field_name_def field_of_def split: source.splits)

lemma field_name_plain: "list_all plain_char (field_name f)"
proof (cases f)
  case FieldVolume
  then show ?thesis by (simp add: field_name_def plain_char_def lower_letter_def)
next
  case (FieldSource x)
  then show ?thesis by (cases x) (simp_all add: field_name_def plain_char_def lower_letter_def digit_of_def)
qed

lemma plain_no_dot: "list_all plain_char s \<Longrightarrow> cut_at (CHR ''.'') s = None"
  using cut_at_none [of "CHR ''.''" s] by (auto simp: list_all_iff dest: plain_char_clean)

lemma inputs_ok_name:
  assumes "inputs_ok reg inputs" "map_of inputs n = Some i"
  shows "name_ok n" "input_ok reg (map fst inputs) n i"
  using assms map_of_SomeD [OF assms(2)] by (auto simp: inputs_ok_def list_all_iff)

lemma name_ok_text:
  assumes "name_ok n"
  shows "clean n = n" and "CHR ''.'' \<notin> set n" and "n \<noteq> []" and "field_of n = None"
  using assms is_identifier_clean [of n] by (simp_all add: name_ok_def)

context catalogue
begin

lemma Lookup_outputs: "Lookup reg name = Some s \<Longrightarrow> spOutputs s \<noteq> [] \<and> [] \<notin> set (spOutputs s)"
  using outputs_clean Lookup_name [of reg name s] by (auto simp: list_all_iff)

lemma named_ok:
  assumes ok: "inputs_ok reg inputs" and n: "named reg inputs name back pt = Inr x" and b: "back_ok back"
  shows "operand_ok reg inputs x"
proof (cases "cut_at (CHR ''.'') (clean name)")
  case None
  then consider (inp) i where "map_of inputs (clean name) = Some i" "x = input_operand (clean name) [] back"
    | (fld) f where "field_of (clean name) = Some f" "x = field_operand f back"
    using n by (auto simp: named_def Let_def split: if_splits option.splits)
  then show ?thesis using b by cases (auto simp: operand_ok_def input_operand_def field_operand_def operand_ref_def)
next
  case (Some cut)
  obtain held out where c: "cut = (held, out)" by (cases cut)
  then obtain i s where i: "map_of inputs held = Some i" "Lookup reg (inpIndicator i) = Some s" "out \<in> set (spOutputs s)"
    and x: "x = input_operand held (if length (spOutputs s) = 1 then [] else out) back"
    using n Some by (auto simp: named_def parse_line_def Let_def split: option.splits)
  note t = name_ok_text [OF inputs_ok_name(1) [OF ok i(1)]]
  have "clean name = held @ CHR ''.'' # out" using cut_at_glue Some c by blast
  then have "clean (held @ CHR ''.'' # out) = held @ CHR ''.'' # out" using clean_clean [of name] by simp
  then show ?thesis using i b t Lookup_outputs [OF i(2)]
    by (auto simp: x operand_ok_def input_operand_def operand_ref_def)
qed

lemma named_back:
  assumes ok: "inputs_ok reg inputs" and x: "operand_ok reg inputs x"
  shows "oKind x = OperandInput \<Longrightarrow> named reg inputs (operand_ref x) (oBack x) pt = Inr x"
    and "oKind x = OperandField \<Longrightarrow> named reg inputs (field_name (oField x)) (oBack x) pt = Inr x"
proof -
  assume k: "oKind x = OperandInput"
  then obtain i where i: "map_of inputs (oInput x) = Some i" and e: "x = input_operand (oInput x) (oOutput x) (oBack x)"
    and c: "clean (operand_ref x) = operand_ref x" and out: "oOutput x = [] \<or>
      (\<exists>s. Lookup reg (inpIndicator i) = Some s \<and> oOutput x \<in> set (spOutputs s) \<and> length (spOutputs s) \<noteq> 1)"
    using x by (auto simp: operand_ok_def split: option.splits)
  note t = name_ok_text [OF inputs_ok_name(1) [OF ok i]]
  show "named reg inputs (operand_ref x) (oBack x) pt = Inr x"
  proof (cases "oOutput x = []")
    case True
    then have r: "operand_ref x = oInput x" by (simp add: operand_ref_def)
    have "cut_at (CHR ''.'') (oInput x) = None" using t(2) cut_at_none by metis
    then show ?thesis using i e True unfolding r by (simp add: named_def t(1))
  next
    case False
    then have r: "operand_ref x = oInput x @ CHR ''.'' # oOutput x" by (simp add: operand_ref_def)
    have "cut_at (CHR ''.'') (operand_ref x) = Some (oInput x, oOutput x)" unfolding r by (rule cut_at_append [OF t(2)])
    then show ?thesis using i e out False by (auto simp: named_def c parse_line_def)
  qed
next
  assume k: "oKind x = OperandField"
  then have e: "x = field_operand (oField x) (oBack x)" using x by (simp add: operand_ok_def)
  let ?n = "field_name (oField x)"
  have "map_of inputs ?n = None"
  proof (rule ccontr)
    assume "map_of inputs ?n \<noteq> None"
    then obtain i where "map_of inputs ?n = Some i" by blast
    from name_ok_text(4) [OF inputs_ok_name(1) [OF ok this]] show False using field_name_back by simp
  qed
  then show "named reg inputs ?n (oBack x) pt = Inr x"
    using e by (simp add: named_def clean_plain [OF field_name_plain] plain_no_dot [OF field_name_plain] field_name_back)
qed

lemma parse_operand_ok:
  assumes ok: "inputs_ok reg inputs" and p: "parse_operand reg inputs v pt = Inr x"
  shows "operand_ok reg inputs x"
proof (cases v)
  case (JNum x)
  then show ?thesis using p by (auto simp: parse_operand_def operand_ok_def literal_def)
next
  case (JStr name)
  then show ?thesis using p named_ok [OF ok] by (simp add: parse_operand_def back_ok_def)
next
  case (JObj body)
  then obtain name k where "named reg inputs name k (index (child pt ''ref'') 0) = Inr x" "0 \<le> k" "k \<le> int MaxBack"
    using p by (auto simp: parse_operand_def ref_def Let_def and_then_Inr not_less)
  then show ?thesis using named_ok [OF ok] by (simp add: back_ok_def)
qed (use p in \<open>simp_all add: parse_operand_def\<close>)

lemma parse_operand_back:
  assumes ok: "inputs_ok reg inputs" and x: "operand_ok reg inputs x"
  shows "parse_operand reg inputs (marshal_operand x) pt = Inr x"
proof (cases "oKind x")
  case OperandLiteral
  then have e: "x = literal (oValue x)" using x by (simp add: operand_ok_def)
  then have "oBack x = oBack (literal (oValue x))" by (rule arg_cong)
  then have "oBack x = 0" by (simp add: literal_def)
  then show ?thesis using OperandLiteral e by (simp add: marshal_operand_def parse_operand_def)
next
  case OperandInput
  then have "back_ok (oBack x)" using x by (simp add: operand_ok_def)
  then have "whole32 (oBack x)" "\<not> (oBack x < 0 \<or> int MaxBack < oBack x)" by (simp_all add: back_ok_def whole32_def MaxBack_def)
  then show ?thesis using OperandInput named_back(1) [OF ok x OperandInput]
    by (cases "oBack x = 0") (simp_all add: marshal_operand_def parse_operand_def ref_def field_def json_list_def wholeNumber_back Let_def)
next
  case OperandField
  then have "back_ok (oBack x)" using x by (simp add: operand_ok_def)
  then have "whole32 (oBack x)" "\<not> (oBack x < 0 \<or> int MaxBack < oBack x)" by (simp_all add: back_ok_def whole32_def MaxBack_def)
  then show ?thesis using OperandField named_back(2) [OF ok x OperandField]
    by (cases "oBack x = 0") (simp_all add: marshal_operand_def parse_operand_def ref_def field_def json_list_def wholeNumber_back Let_def)
qed

end

section \<open>Comparisons and brackets\<close>

lemma op_name_back: "comparator_of (op_name op) = Some op"
  by (cases op) (simp_all add: comparator_of_def op_name_def op_names_def)

lemma op_name_other: "op_name op \<notin> {''all'', ''any'', ''not'', ''stop_loss'', ''take_profit''}"
  by (cases op) (simp_all add: op_name_def op_names_def)

lemma literal_ok [simp]: "operand_ok reg inputs (literal x)"
  by (simp add: operand_ok_def literal_def)

lemma trend_arity: "trend op \<Longrightarrow> arity op = (1, 2)"
  by (auto simp: trend_def arity_def)

lemma trend_span: "trend op \<Longrightarrow> \<not> reversed_span op xs"
  by (auto simp: trend_def reversed_span_def)

lemma parse_operands_length: "parse_operands reg inputs pt i vs = Inr xs \<Longrightarrow> length xs = length vs"
  by (induction vs arbitrary: i xs) (auto simp: and_then_Inr)

lemma atrPeriodFault_Inr: "atrPeriodFault reg n pt = Inr u \<longleftrightarrow> atr_period_ok reg n"
  by (auto simp: atrPeriodFault_def atr_period_ok_def find_None_iff list_all_iff find_Some_iff split: option.splits)

lemma unwanted_Inr: "unwanted body pt what kind fs = Inr u \<longleftrightarrow> list_all (\<lambda>f. map_of body f = None) fs"
  by (induction fs) auto

lemma requiredNumber_Inr:
  "requiredNumber body pt key what = Inr x \<longleftrightarrow> map_of body key = Some (JNum x) \<and> is_fin x"
  by (auto simp: requiredNumber_def number_Inr split: option.splits)

context catalogue
begin

lemma parse_operands_ok:
  assumes ok: "inputs_ok reg inputs"
  shows "parse_operands reg inputs pt i vs = Inr xs \<Longrightarrow> list_all (operand_ok reg inputs) xs"
  by (induction vs arbitrary: i xs) (auto simp: and_then_Inr parse_operand_ok [OF ok])

lemma parse_operands_back:
  assumes ok: "inputs_ok reg inputs"
  shows "list_all (operand_ok reg inputs) xs \<Longrightarrow> parse_operands reg inputs pt i (map marshal_operand xs) = Inr xs"
  by (induction xs arbitrary: i) (auto simp: parse_operand_back [OF ok])

lemma parse_compare_ok:
  assumes ok: "inputs_ok reg inputs" and p: "parse_compare reg inputs op v pt = Inr n"
  shows "\<exists>xs. n = Compare op xs \<and> compare_ok reg inputs op xs"
proof -
  obtain items xs where xs: "parse_operands reg inputs pt 0 items = Inr xs"
    and len: "fst (arity op) \<le> length items" "length items \<le> snd (arity op)" and span: "\<not> reversed_span op xs"
    and n: "(if \<not> trend op then n = Compare op xs
      else (let ys = (if length xs = 1 then xs @ [literal 1] else xs) in \<not> bad_bars (ys ! 1) \<and> n = Compare op ys))"
    using p by (auto simp: parse_compare_def and_then_Inr not_less Let_def trend_def split: if_splits)
  note all = parse_operands_ok [OF ok xs] and l = parse_operands_length [OF xs]
  show ?thesis
  proof (cases "trend op")
    case False
    then show ?thesis using n all len span l by (simp add: compare_ok_def)
  next
    case True
    let ?ys = "if length xs = 1 then xs @ [literal 1] else xs"
    have "length ?ys = 2" using len l trend_arity [OF True] by auto
    moreover have "list_all (operand_ok reg inputs) ?ys" using all by simp
    ultimately show ?thesis using n True by (simp add: compare_ok_def Let_def)
  qed
qed

lemma parse_compare_back:
  assumes ok: "inputs_ok reg inputs" and c: "compare_ok reg inputs op xs"
  shows "parse_compare reg inputs op (JArr (map marshal_operand xs)) pt = Inr (Compare op xs)"
proof -
  have all: "list_all (operand_ok reg inputs) xs" using c by (simp add: compare_ok_def)
  have len: "\<not> (length xs < fst (arity op) \<or> snd (arity op) < length xs)"
    using c trend_arity [of op] by (auto simp: compare_ok_def not_less split: if_splits)
  have span: "\<not> reversed_span op xs" using c trend_span by (auto simp: compare_ok_def split: if_splits)
  show ?thesis
  proof (cases "trend op")
    case True
    then have "length xs = 2" "\<not> bad_bars (xs ! 1)" using c by (simp_all add: compare_ok_def)
    moreover have "\<not> (op \<noteq> OpRising \<and> op \<noteq> OpFalling)" using True by (auto simp: trend_def)
    ultimately show ?thesis using len span
      by (simp add: parse_compare_def json_list_def parse_operands_back [OF ok all] Let_def)
  next
    case False
    then have "op \<noteq> OpRising \<and> op \<noteq> OpFalling" by (auto simp: trend_def)
    then show ?thesis using len span
      by (simp add: parse_compare_def json_list_def parse_operands_back [OF ok all])
  qed
qed

lemma readLevel_ok:
  assumes "readLevel reg v pt what = Inr l"
  shows "level_ok reg l"
proof -
  obtain body t where r: "level_of reg body pt what t = Inr l"
    using assms unfolding readLevel_def and_then_Inr by (auto simp: and_then_Inr split: option.splits)
  have w: "whole32 n" if "requiredWhole body pt ''period'' what = Inr n" for n
    using that by (auto simp: requiredWhole_def split: option.splits dest: wholeNumber_Inr)
  show ?thesis
  proof (cases "map_of level_names (clean t)")
    case None
    then show ?thesis using r by (simp add: level_of_def)
  next
    case (Some kind)
    then show ?thesis using r w
      by (cases kind) (auto simp: level_of_def and_then_Inr requiredNumber_Inr atrPeriodFault_Inr level_ok_def)
  qed
qed

lemma readLevel_back:
  assumes "level_ok reg l"
  shows "readLevel reg (marshal_level l) pt what = Inr l"
proof -
  have names: "map_of level_names (clean ''pct'') = Some LevelPct" "map_of level_names (clean ''atr'') = Some LevelATR"
    by (simp_all add: level_names_def clean_def to_lower_def trim_space_def is_space_def lower_char_def)
  have num: "number (JNum x) p w = Inr x" if "is_fin x" for x p w using that by (simp add: number_Inr)
  have fields: "onlyFields body p fs = Inr ()" if "fst ` set body \<subseteq> set fs" for body p and fs :: "string list"
    using that onlyFields_Inr by blast
  show ?thesis
  proof (cases "lType l")
    case LevelPct
    then have l: "l = \<lparr>lType = LevelPct, lValue = lValue l, lPeriod = 0, lMult = 0\<rparr>"
      and v: "is_fin (lValue l)" "\<not> (lValue l \<le> 0 \<or> lValue l \<ge> 1)" using assms by (auto simp: level_ok_def)
    show ?thesis using LevelPct l v names num
      by (simp add: readLevel_def level_of_def marshal_level_def object_def str_def fields requiredNumber_def)
  next
    case LevelATR
    then have l: "l = \<lparr>lType = LevelATR, lValue = 0, lPeriod = lPeriod l, lMult = lMult l\<rparr>"
      and v: "is_fin (lMult l)" "\<not> (lMult l \<le> 0 \<or> lMult l > Fin 100)" "whole32 (lPeriod l)" "atr_period_ok reg (lPeriod l)"
      using assms by (auto simp: level_ok_def)
    have "atrPeriodFault reg (lPeriod l) p = Inr ()" for p using v(4) atrPeriodFault_Inr by blast
    then show ?thesis using LevelATR l v names num wholeNumber_back [OF v(3)]
      by (simp add: readLevel_def level_of_def marshal_level_def object_def str_def fields requiredNumber_def requiredWhole_def)
  qed
qed

end

section \<open>Rules\<close>

fun node_wf :: "spec list \<Rightarrow> (string \<times> input) list \<Rightarrow> bool \<Rightarrow> node \<Rightarrow> bool" where
  "node_wf reg inputs brackets (All ns) \<longleftrightarrow> ns \<noteq> [] \<and> list_all (node_wf reg inputs False) ns"
| "node_wf reg inputs brackets (Any ns) \<longleftrightarrow> ns \<noteq> [] \<and> list_all (node_wf reg inputs brackets) ns"
| "node_wf reg inputs brackets (node.Not n) \<longleftrightarrow> node_wf reg inputs False n"
| "node_wf reg inputs brackets (Compare op xs) \<longleftrightarrow> compare_ok reg inputs op xs"
| "node_wf reg inputs brackets (StopLoss l) \<longleftrightarrow> brackets \<and> level_ok reg l"
| "node_wf reg inputs brackets (TakeProfit l) \<longleftrightarrow> brackets \<and> level_ok reg l"

fun node_depth :: "node \<Rightarrow> nat" where
  "node_depth (All ns) = Suc (foldr max (map node_depth ns) 0)"
| "node_depth (Any ns) = Suc (foldr max (map node_depth ns) 0)"
| "node_depth (node.Not n) = Suc (node_depth n)"
| "node_depth n = 1"

fun node_count :: "node \<Rightarrow> nat" where
  "node_count (All ns) = Suc (sum_list (map node_count ns))"
| "node_count (Any ns) = Suc (sum_list (map node_count ns))"
| "node_count (node.Not n) = Suc (node_count n)"
| "node_count n = 1"

fun stops_in :: "node \<Rightarrow> nat" where
  "stops_in (All ns) = sum_list (map stops_in ns)"
| "stops_in (Any ns) = sum_list (map stops_in ns)"
| "stops_in (node.Not n) = stops_in n"
| "stops_in (StopLoss l) = 1"
| "stops_in n = 0"

fun targets_in :: "node \<Rightarrow> nat" where
  "targets_in (All ns) = sum_list (map targets_in ns)"
| "targets_in (Any ns) = sum_list (map targets_in ns)"
| "targets_in (node.Not n) = targets_in n"
| "targets_in (TakeProfit l) = 1"
| "targets_in n = 0"

text \<open>The counters after some rules, and their limits.\<close>

definition after_nodes :: "node list \<Rightarrow> pstate \<Rightarrow> pstate" where
  "after_nodes ns st =
     st\<lparr>psNodes := psNodes st + sum_list (map node_count ns), psStops := psStops st + sum_list (map stops_in ns),
        psTargets := psTargets st + sum_list (map targets_in ns)\<rparr>"

definition in_limits :: "pstate \<Rightarrow> bool" where
  "in_limits st \<longleftrightarrow> psNodes st \<le> MaxNodes \<and> psStops st \<le> 1 \<and> psTargets st \<le> 1"

lemma after_nodes_Nil [simp]: "after_nodes [] st = st"
  by (simp add: after_nodes_def)

lemma after_nodes_Cons: "after_nodes (n # ns) st = after_nodes ns (after_nodes [n] st)"
  by (simp add: after_nodes_def add.assoc)

lemma after_nodes_fields [simp]:
  "psNodes (after_nodes ns st) = psNodes st + sum_list (map node_count ns)"
  "psStops (after_nodes ns st) = psStops st + sum_list (map stops_in ns)"
  "psTargets (after_nodes ns st) = psTargets st + sum_list (map targets_in ns)"
  "psStopped (after_nodes ns st) = psStopped st"
  by (simp_all add: after_nodes_def)

lemma limits_fewer: "in_limits (after_nodes ns st) \<Longrightarrow> in_limits st"
  by (auto simp: in_limits_def)

lemma depth_fold: "foldr max (map node_depth ns) 0 \<le> k \<longleftrightarrow> list_all (\<lambda>n. node_depth n \<le> k) ns"
  by (induction ns) auto

lemma depth_within:
  assumes "list_all (\<lambda>n. P n \<and> level + 1 + node_depth n \<le> k + 1) ns" "level \<le> k"
  shows "level + foldr max (map node_depth ns) 0 \<le> k"
proof -
  have "foldr max (map node_depth ns) 0 \<le> k - level" using assms unfolding depth_fold by (auto simp: list_all_iff)
  then show ?thesis using assms(2) by simp
qed

lemma node_depth_pos: "0 < node_depth n"
  by (cases n) auto

text \<open>What a rule adds to the counters, its own node first.\<close>

lemma after_compound:
  "after_nodes ns (st\<lparr>psNodes := psNodes st + 1\<rparr>) = after_nodes [All ns] st"
  "after_nodes ns (st\<lparr>psNodes := psNodes st + 1\<rparr>) = after_nodes [Any ns] st"
  "after_nodes [n] (st\<lparr>psNodes := psNodes st + 1\<rparr>) = after_nodes [node.Not n] st"
  "st\<lparr>psNodes := psNodes st + 1\<rparr> = after_nodes [Compare op xs] st"
  "st\<lparr>psNodes := psNodes st + 1, psStops := psStops st + 1\<rparr> = after_nodes [StopLoss l] st"
  "st\<lparr>psNodes := psNodes st + 1, psTargets := psTargets st + 1\<rparr> = after_nodes [TakeProfit l] st"
  by (simp_all add: after_nodes_def)

context catalogue
begin

lemma parse_bracket_ok:
  assumes "parse_bracket reg key v pt brackets (st\<lparr>psNodes := psNodes st + 1\<rparr>) = Inr (n, st1)"
  shows "node_wf reg inputs brackets n \<and> node_depth n = 1 \<and> st1 = after_nodes [n] st \<and>
    (psStops st \<le> 1 \<longrightarrow> psStops st1 \<le> 1) \<and> (psTargets st \<le> 1 \<longrightarrow> psTargets st1 \<le> 1)"
proof -
  obtain l where l: "readLevel reg v pt key = Inr l" and b: "brackets"
    and r: "if key = ''stop_loss'' then psStops st = 0 \<and> n = StopLoss l \<and> st1 = st\<lparr>psNodes := psNodes st + 1, psStops := psStops st + 1\<rparr>
      else psTargets st = 0 \<and> n = TakeProfit l \<and> st1 = st\<lparr>psNodes := psNodes st + 1, psTargets := psTargets st + 1\<rparr>"
    using assms by (auto simp: parse_bracket_def and_then_Inr split: if_splits)
  show ?thesis
  proof (cases "key = ''stop_loss''")
    case True
    then have n: "n = StopLoss l" "st1 = after_nodes [n] st" "psStops st = 0" using r by (simp_all add: after_compound)
    show ?thesis unfolding n(2) using n(1,3) readLevel_ok [OF l] b by simp
  next
    case False
    then have n: "n = TakeProfit l" "st1 = after_nodes [n] st" "psTargets st = 0" using r by (simp_all add: after_compound)
    show ?thesis unfolding n(2) using n(1,3) readLevel_ok [OF l] b by simp
  qed
qed

lemma parse_node_Inr:
  assumes "parse_node reg inputs v pt level brackets st0 = Inr (n, st')"
  obtains body key spot st where "level \<le> MaxDepth" "psNodes st \<le> MaxNodes" "st = st0\<lparr>psNodes := psNodes st0 + 1\<rparr>"
    "object v pt ''a rule'' = Inr body" "length (sortedKeys body) = 1" "key = hd (sortedKeys body)" "spot = child pt key"
    "(\<exists>items ns. (key = ''all'' \<or> key = ''any'') \<and> json_list (field body key) spot key = Inr items \<and> items \<noteq> [] \<and>
        parse_nodes reg inputs items spot 0 (level + 1) (brackets \<and> key = ''any'') st = Inr (ns, st') \<and>
        n = (if key = ''all'' then All ns else Any ns)) \<or>
     (\<exists>m. key = ''not'' \<and> parse_node reg inputs (field body key) spot (level + 1) False st = Inr (m, st') \<and> n = node.Not m) \<or>
     (parse_bracket reg key (field body key) spot brackets st = Inr (n, st')) \<or>
     (\<exists>op. parse_compare reg inputs op (field body key) spot = Inr n \<and> st' = st)"
proof -
  note p = assms [unfolded parse_node.simps [of reg inputs v] Let_def]
  have l: "\<not> level > MaxDepth" using p by (auto split: if_splits)
  have c: "\<not> psNodes (st0\<lparr>psNodes := psNodes st0 + 1\<rparr>) > MaxNodes" using p l by (auto split: if_splits)
  obtain body where b: "object v pt ''a rule'' = Inr body" and k: "length (sortedKeys body) = 1"
    using p l c by (auto simp: and_then_Inr split: if_splits)
  define key where "key = hd (sortedKeys body)"
  note p' = p [unfolded if_not_P [OF l] if_not_P [OF c] b and_then_simps k key_def [symmetric]]
  show thesis
  proof (rule that [of "st0\<lparr>psNodes := psNodes st0 + 1\<rparr>" body key "child pt key"])
    consider "key = ''all'' \<or> key = ''any''" | "\<not> (key = ''all'' \<or> key = ''any'')" "key = ''not''"
      | "\<not> (key = ''all'' \<or> key = ''any'')" "key \<noteq> ''not''" "key = ''stop_loss'' \<or> key = ''take_profit''"
      | "\<not> (key = ''all'' \<or> key = ''any'')" "key \<noteq> ''not''" "\<not> (key = ''stop_loss'' \<or> key = ''take_profit'')" by blast
    then show "(\<exists>items ns. (key = ''all'' \<or> key = ''any'') \<and> json_list (field body key) (child pt key) key = Inr items \<and> items \<noteq> [] \<and>
        parse_nodes reg inputs items (child pt key) 0 (level + 1) (brackets \<and> key = ''any'') (st0\<lparr>psNodes := psNodes st0 + 1\<rparr>) = Inr (ns, st') \<and>
        n = (if key = ''all'' then All ns else Any ns)) \<or>
     (\<exists>m. key = ''not'' \<and> parse_node reg inputs (field body key) (child pt key) (level + 1) False (st0\<lparr>psNodes := psNodes st0 + 1\<rparr>) = Inr (m, st') \<and> n = node.Not m) \<or>
     (parse_bracket reg key (field body key) (child pt key) brackets (st0\<lparr>psNodes := psNodes st0 + 1\<rparr>) = Inr (n, st')) \<or>
     (\<exists>op. parse_compare reg inputs op (field body key) (child pt key) = Inr n \<and> st' = st0\<lparr>psNodes := psNodes st0 + 1\<rparr>)"
    proof cases
      case 1
      then show ?thesis using p' by (auto simp: and_then_Inr split: if_splits)
    next
      case 2
      then show ?thesis using p' by (auto simp: and_then_Inr)
    next
      case 3
      then have "parse_bracket reg key (field body key) (child pt key) brackets (st0\<lparr>psNodes := psNodes st0 + 1\<rparr>) = Inr (n, st')"
        using p' by (simp only: if_False if_True simp_thms)
      then show ?thesis by blast
    next
      case 4
      then have "(case comparator_of key of None \<Rightarrow> fault_at (child pt key) (RuleFault (UnknownRule key))
        | Some op \<Rightarrow> and_then (parse_compare reg inputs op (field body key) (child pt key)) (\<lambda>n. Inr (n, st0\<lparr>psNodes := psNodes st0 + 1\<rparr>)))
          = Inr (n, st')"
        using p' by (simp only: if_False if_True simp_thms)
      then show ?thesis by (auto simp: and_then_Inr split: option.splits)
    qed
  qed (use l c b k in \<open>simp_all add: key_def\<close>)
qed

lemma parse_node_sound:
  "inputs_ok reg inputs \<Longrightarrow> R = reg \<Longrightarrow> parse_node R inputs v pt level brackets st0 = Inr (n, st') \<Longrightarrow>
      node_wf reg inputs brackets n \<and> level + node_depth n \<le> MaxDepth + 1 \<and> st' = after_nodes [n] st0 \<and>
      psNodes st' \<le> MaxNodes \<and> (psStops st0 \<le> 1 \<longrightarrow> psStops st' \<le> 1) \<and> (psTargets st0 \<le> 1 \<longrightarrow> psTargets st' \<le> 1)"
  and parse_nodes_sound:
  "inputs_ok reg inputs \<Longrightarrow> R = reg \<Longrightarrow> parse_nodes R inputs vs pt i level brackets st0 = Inr (ns, st') \<Longrightarrow>
      list_all (\<lambda>n. node_wf reg inputs brackets n \<and> level + node_depth n \<le> MaxDepth + 1) ns \<and> length ns = length vs \<and>
      st' = after_nodes ns st0 \<and> (psNodes st0 \<le> MaxNodes \<longrightarrow> psNodes st' \<le> MaxNodes) \<and>
      (psStops st0 \<le> 1 \<longrightarrow> psStops st' \<le> 1) \<and> (psTargets st0 \<le> 1 \<longrightarrow> psTargets st' \<le> 1)"
proof (induction R inputs v pt level brackets st0 and R inputs vs pt i level brackets st0
    arbitrary: n st' and ns st' rule: parse_node_parse_nodes.induct)
  case (1 R inputs v pt level brackets st0)
  note R = "1.prems"(2)
  from "1.prems"(3) obtain body key spot st where l: "level \<le> MaxDepth" and c: "psNodes st \<le> MaxNodes"
    and st: "st = st0\<lparr>psNodes := psNodes st0 + 1\<rparr>"
    and b: "object v pt ''a rule'' = Inr body" "length (sortedKeys body) = 1" "key = hd (sortedKeys body)" "spot = child pt key"
    and r: "(\<exists>items ns. (key = ''all'' \<or> key = ''any'') \<and> json_list (field body key) spot key = Inr items \<and> items \<noteq> [] \<and>
        parse_nodes R inputs items spot 0 (level + 1) (brackets \<and> key = ''any'') st = Inr (ns, st') \<and>
        n = (if key = ''all'' then All ns else Any ns)) \<or>
     (\<exists>m. key = ''not'' \<and> parse_node R inputs (field body key) spot (level + 1) False st = Inr (m, st') \<and> n = node.Not m) \<or>
     (parse_bracket R key (field body key) spot brackets st = Inr (n, st')) \<or>
     (\<exists>op. parse_compare R inputs op (field body key) spot = Inr n \<and> st' = st)"
    unfolding R by (rule parse_node_Inr)
  have nb: "\<not> MaxDepth < level" "\<not> MaxNodes < psNodes st" "\<not> length (sortedKeys body) \<noteq> 1" using l c b(2) by simp_all
  have fields: "psStops st = psStops st0" "psTargets st = psTargets st0" using st by simp_all
  from r consider (some) items ns where "key = ''all'' \<or> key = ''any''" "json_list (field body key) spot key = Inr items" "items \<noteq> []"
      "parse_nodes R inputs items spot 0 (level + 1) (brackets \<and> key = ''any'') st = Inr (ns, st')"
      "n = (if key = ''all'' then All ns else Any ns)"
    | (neg) m where "key = ''not''" "parse_node R inputs (field body key) spot (level + 1) False st = Inr (m, st')" "n = node.Not m"
    | (brk) "parse_bracket R key (field body key) spot brackets st = Inr (n, st')"
    | (cmp) op where "parse_compare R inputs op (field body key) spot = Inr n" "st' = st" by blast
  then show ?case
  proof cases
    case some
    note ih = "1.IH"(1) [OF nb(1) st nb(2) b(1) nb(3) b(3) refl b(4) some(1,2,3) "1.prems"(1) R some(4)]
    have lim: "psNodes st' \<le> MaxNodes \<and> (psStops st0 \<le> 1 \<longrightarrow> psStops st' \<le> 1) \<and> (psTargets st0 \<le> 1 \<longrightarrow> psTargets st' \<le> 1)"
      using conjunct2 [OF conjunct2 [OF conjunct2 [OF ih]]] c unfolding fields by blast
    have ne: "ns \<noteq> []" using ih some(3) by auto
    show ?thesis
    proof (cases "key = ''all''")
      case True
      then have n: "n = All ns" and bf: "(brackets \<and> key = ''any'') = False" using some(5) by simp_all
      have e: "st' = after_nodes [n] st0" using ih unfolding n st after_compound(1) by blast
      have d: "level + node_depth n \<le> MaxDepth + 1"
        using depth_within [OF conjunct1 [OF ih] l] by (simp add: n)
      have "node_wf reg inputs brackets n" using conjunct1 [OF ih [unfolded bf]] ne by (simp add: n list_all_iff)
      then show ?thesis using d e lim by blast
    next
      case False
      then have n: "n = Any ns" and bf: "(brackets \<and> key = ''any'') = brackets" using some(1,5) by simp_all
      have e: "st' = after_nodes [n] st0" using ih unfolding n st after_compound(2) by blast
      have d: "level + node_depth n \<le> MaxDepth + 1"
        using depth_within [OF conjunct1 [OF ih] l] by (simp add: n)
      have "node_wf reg inputs brackets n" using conjunct1 [OF ih [unfolded bf]] ne by (simp add: n list_all_iff)
      then show ?thesis using d e lim by blast
    qed
  next
    case neg
    have nk: "\<not> (key = ''all'' \<or> key = ''any'')" using neg(1) by simp
    note ih = "1.IH"(2) [OF nb(1) st nb(2) b(1) nb(3) b(3) refl b(4) nk neg(1) "1.prems"(1) R neg(2)]
    have e: "st' = after_nodes [n] st0" using ih unfolding neg(3) st after_compound(3) by blast
    have "node_wf reg inputs brackets n" "level + node_depth n \<le> MaxDepth + 1" using ih by (simp_all add: neg(3))
    then show ?thesis using e conjunct2 [OF conjunct2 [OF conjunct2 [OF ih]]] unfolding fields by blast
  next
    case brk
    note ok = parse_bracket_ok [OF brk [unfolded R st], of inputs]
    have "psNodes st' = psNodes st" using brk by (auto simp: parse_bracket_def and_then_Inr split: if_splits)
    then show ?thesis using ok c l by auto
  next
    case cmp
    from parse_compare_ok [OF "1.prems"(1) cmp(1) [unfolded R]] obtain op' xs where
      n: "n = Compare op' xs" "compare_ok reg inputs op' xs" by blast
    have e: "st' = after_nodes [n] st0" unfolding cmp(2) st n(1) by (rule after_compound(4))
    have "node_wf reg inputs brackets n" "level + node_depth n \<le> MaxDepth + 1" using n l by simp_all
    moreover have "psNodes st' \<le> MaxNodes \<and> (psStops st0 \<le> 1 \<longrightarrow> psStops st' \<le> 1) \<and> (psTargets st0 \<le> 1 \<longrightarrow> psTargets st' \<le> 1)"
      using c fields cmp(2) by simp
    ultimately show ?thesis using e by blast
  qed
next
  case (2 R inputs pt i level brackets st)
  then show ?case by simp
next
  case (3 R inputs v vs pt i level brackets st)
  obtain n st1 ms st2 where p: "parse_node R inputs v (index pt i) level brackets st = Inr (n, st1)"
    "parse_nodes R inputs vs pt (i + 1) level brackets st1 = Inr (ms, st2)" "ns = n # ms" "st' = st2"
    using "3.prems"(3) by (auto simp: and_then_Inr)
  note one = "3.IH"(1) [OF "3.prems"(1,2) p(1)]
  note rest = "3.IH"(2) [OF p(1) refl "3.prems"(1,2) p(2)]
  have e: "st' = after_nodes ns st" using one rest after_nodes_Cons [of n ms st] unfolding p(3,4) by metis
  have l: "psNodes st' \<le> MaxNodes \<and> (psStops st \<le> 1 \<longrightarrow> psStops st' \<le> 1) \<and> (psTargets st \<le> 1 \<longrightarrow> psTargets st' \<le> 1)"
    using conjunct2 [OF conjunct2 [OF conjunct2 [OF one]]] conjunct2 [OF conjunct2 [OF conjunct2 [OF rest]]] unfolding p(4) by blast
  have "list_all (\<lambda>n. node_wf reg inputs brackets n \<and> level + node_depth n \<le> MaxDepth + 1) ns"
    using one conjunct1 [OF rest] unfolding p(3) by simp
  then show ?case using e l p(3) conjunct1 [OF conjunct2 [OF rest]] by simp
qed

end

section \<open>Rules read back\<close>

lemma limits_node:
  assumes "in_limits (after_nodes [n] st)"
  shows "\<not> MaxNodes < psNodes (st\<lparr>psNodes := psNodes st + 1\<rparr>)"
proof -
  have "1 \<le> node_count n" by (cases n) auto
  then show ?thesis using assms by (simp add: in_limits_def)
qed

context catalogue
begin

lemma parse_node_operator:
  assumes "level \<le> MaxDepth" "in_limits (after_nodes [n] st)"
  shows "parse_node reg inputs (JObj [(key, value)]) pt level brackets st =
    (let spot = child pt key; st1 = st\<lparr>psNodes := psNodes st + 1\<rparr>
     in if key = ''all'' \<or> key = ''any'' then
          and_then (json_list value spot key) (\<lambda>items.
            if items = [] then fault_at spot (if key = ''all'' then RuleFault EmptyAll else RuleFault EmptyAny)
            else
              and_then (parse_nodes reg inputs items spot 0 (level + 1) (brackets \<and> key = ''any'') st1) (\<lambda>(ns, st2).
                Inr (if key = ''all'' then All ns else Any ns, st2)))
        else if key = ''not'' then
          and_then (parse_node reg inputs value spot (level + 1) False st1) (\<lambda>(n, st2). Inr (node.Not n, st2))
        else if key = ''stop_loss'' \<or> key = ''take_profit'' then parse_bracket reg key value spot brackets st1
        else
          (case comparator_of key of
             None \<Rightarrow> fault_at spot (RuleFault (UnknownRule key))
           | Some op \<Rightarrow> and_then (parse_compare reg inputs op value spot) (\<lambda>n. Inr (n, st1))))"
proof -
  have d: "\<not> MaxDepth < level" using assms(1) by simp
  note c = limits_node [OF assms(2)]
  have f: "field [(key, value)] key = value" and one: "\<not> length [key] \<noteq> 1" by (simp_all add: field_def)
  show ?thesis
    unfolding parse_node.simps [of reg inputs "JObj [(key, value)]"] Let_def if_not_P [OF d] if_not_P [OF c] object_def json.case
      and_then_simps sortedKeys_single list.sel(1) f if_not_P [OF one] ..
qed

lemma parse_back_list:
  assumes "\<And>n st i. n \<in> set ns \<Longrightarrow> in_limits (after_nodes [n] st) \<Longrightarrow>
      parse_node reg inputs (marshal_node n) (index pt i) level brackets st = Inr (n, after_nodes [n] st)"
    and "in_limits (after_nodes ns st)"
  shows "parse_nodes reg inputs (map marshal_node ns) pt i level brackets st = Inr (ns, after_nodes ns st)"
  using assms
proof (induction ns arbitrary: i st)
  case (Cons n ns)
  have w: "in_limits (after_nodes ns (after_nodes [n] st))" using Cons.prems(2) after_nodes_Cons [of n ns st] by simp
  note one = Cons.prems(1) [OF _ limits_fewer [OF w]]
  have "parse_nodes reg inputs (map marshal_node ns) pt (i + 1) level brackets (after_nodes [n] st) = Inr (ns, after_nodes ns (after_nodes [n] st))"
    by (rule Cons.IH [OF Cons.prems(1) w]) simp
  then show ?case using one by (simp add: after_nodes_Cons [of n ns st])
qed simp

lemma depth_members:
  assumes "n \<in> set ns" "level + Suc (foldr max (map node_depth ns) 0) \<le> k"
  shows "level + 1 + node_depth n \<le> k"
proof -
  have "node_depth n \<le> foldr max (map node_depth ns) 0"
    using depth_fold [of ns "foldr max (map node_depth ns) 0"] assms(1) by (auto simp: list_all_iff)
  then show ?thesis using assms(2) by simp
qed

lemma parse_node_back:
  assumes ok: "inputs_ok reg inputs"
  shows "node_wf reg inputs brackets n \<Longrightarrow> level + node_depth n \<le> MaxDepth + 1 \<Longrightarrow> in_limits (after_nodes [n] st) \<Longrightarrow>
    parse_node reg inputs (marshal_node n) pt level brackets st = Inr (n, after_nodes [n] st)"
proof (induction n arbitrary: level brackets st pt)
  case (All ns)
  have l: "level \<le> MaxDepth" using All.prems(2) by simp
  have w: "in_limits (after_nodes ns (st\<lparr>psNodes := psNodes st + 1\<rparr>))" using All.prems(3) by (simp only: after_compound(1))
  have "parse_nodes reg inputs (map marshal_node ns) (child pt ''all'') 0 (level + 1) False (st\<lparr>psNodes := psNodes st + 1\<rparr>)
      = Inr (ns, after_nodes ns (st\<lparr>psNodes := psNodes st + 1\<rparr>))"
  proof (rule parse_back_list [OF _ w])
    fix m st i
    assume m: "m \<in> set ns" "in_limits (after_nodes [m] st)"
    then show "parse_node reg inputs (marshal_node m) (index (child pt ''all'') i) (level + 1) False st = Inr (m, after_nodes [m] st)"
      using All.prems(1,2) depth_members [OF m(1), of level "MaxDepth + 1"] by (intro All.IH) (auto simp: list_all_iff)
  qed
  then show ?case
    using parse_node_operator [OF l All.prems(3), of inputs "''all''"] All.prems(1) after_compound(1) [of ns st]
    by (simp add: json_list_def Let_def)
next
  case (Any ns)
  have l: "level \<le> MaxDepth" using Any.prems(2) by simp
  have w: "in_limits (after_nodes ns (st\<lparr>psNodes := psNodes st + 1\<rparr>))" using Any.prems(3) by (simp only: after_compound(2))
  have "parse_nodes reg inputs (map marshal_node ns) (child pt ''any'') 0 (level + 1) brackets (st\<lparr>psNodes := psNodes st + 1\<rparr>)
      = Inr (ns, after_nodes ns (st\<lparr>psNodes := psNodes st + 1\<rparr>))"
  proof (rule parse_back_list [OF _ w])
    fix m st i
    assume m: "m \<in> set ns" "in_limits (after_nodes [m] st)"
    then show "parse_node reg inputs (marshal_node m) (index (child pt ''any'') i) (level + 1) brackets st = Inr (m, after_nodes [m] st)"
      using Any.prems(1,2) depth_members [OF m(1), of level "MaxDepth + 1"] by (intro Any.IH) (auto simp: list_all_iff)
  qed
  then show ?case
    using parse_node_operator [OF l Any.prems(3), of inputs "''any''"] Any.prems(1) after_compound(2) [of ns st]
    by (simp add: json_list_def Let_def)
next
  case (Not n)
  have l: "level \<le> MaxDepth" using Not.prems(2) by simp
  have w: "in_limits (after_nodes [n] (st\<lparr>psNodes := psNodes st + 1\<rparr>))" using Not.prems(3) by (simp only: after_compound(3))
  have "parse_node reg inputs (marshal_node n) (child pt ''not'') (level + 1) False (st\<lparr>psNodes := psNodes st + 1\<rparr>)
      = Inr (n, after_nodes [n] (st\<lparr>psNodes := psNodes st + 1\<rparr>))"
    using Not.prems(1,2) by (intro Not.IH w) simp_all
  then show ?case
    using parse_node_operator [OF l Not.prems(3), of inputs "''not''"] after_compound(3) [of n st] by (simp add: Let_def)
next
  case (Compare op xs)
  have l: "level \<le> MaxDepth" using Compare.prems(2) by simp
  have c: "compare_ok reg inputs op xs" using Compare.prems(1) by simp
  show ?case
    using parse_node_operator [OF l Compare.prems(3), of inputs "op_name op"] op_name_other [of op]
      parse_compare_back [OF ok c] after_compound(4) [of st op xs]
    by (simp add: Let_def op_name_back)
next
  case (StopLoss lv)
  have l: "level \<le> MaxDepth" using StopLoss.prems(2) by simp
  have s: "psStops st = 0" using StopLoss.prems(3) by (simp add: in_limits_def)
  show ?case
    using parse_node_operator [OF l StopLoss.prems(3), of inputs "''stop_loss''"] StopLoss.prems(1) s readLevel_back [of lv]
      after_compound(5) [of st lv]
    by (simp add: Let_def parse_bracket_def)
next
  case (TakeProfit lv)
  have l: "level \<le> MaxDepth" using TakeProfit.prems(2) by simp
  have s: "psTargets st = 0" using TakeProfit.prems(3) by (simp add: in_limits_def)
  show ?case
    using parse_node_operator [OF l TakeProfit.prems(3), of inputs "''take_profit''"] TakeProfit.prems(1) s readLevel_back [of lv]
      after_compound(6) [of st lv]
    by (simp add: Let_def parse_bracket_def)
qed

end

section \<open>Legs\<close>

definition leg_ok :: "spec list \<Rightarrow> (string \<times> input) list \<Rightarrow> bool \<Rightarrow> node \<Rightarrow> bool" where
  "leg_ok reg inputs brackets n \<longleftrightarrow>
     node_wf reg inputs brackets n \<and> node_depth n \<le> MaxDepth \<and> stops_in n \<le> 1 \<and> targets_in n \<le> 1"

definition after_leg :: "string \<Rightarrow> node \<Rightarrow> pstate \<Rightarrow> pstate" where
  "after_leg key n st =
     \<lparr>psNodes = psNodes st + node_count n, psStops = stops_in n, psTargets = targets_in n,
      psStopped = (if stops_in n > 0 then key # psStopped st else psStopped st)\<rparr>"

context catalogue
begin

lemma parse_leg_ok:
  assumes ok: "inputs_ok reg inputs" and p: "parse_leg reg inputs v pt brackets key st = Inr (n, st')"
  shows "leg_ok reg inputs brackets n \<and> st' = after_leg key n st \<and> psNodes st' \<le> MaxNodes"
proof -
  obtain st1 where p1: "parse_node reg inputs v pt 1 brackets (st\<lparr>psStops := 0, psTargets := 0\<rparr>) = Inr (n, st1)"
    and st': "st' = (if psStops st1 > 0 then st1\<lparr>psStopped := key # psStopped st1\<rparr> else st1)"
    using p by (auto simp: parse_leg_def and_then_Inr)
  note s = parse_node_sound [OF ok refl p1]
  have st1: "st1 = st\<lparr>psNodes := psNodes st + node_count n, psStops := stops_in n, psTargets := targets_in n\<rparr>"
    using s by (simp add: after_nodes_def)
  then have e: "st' = after_leg key n st" using st' by (simp add: after_leg_def)
  have lim: "psStops st1 \<le> 1" "psTargets st1 \<le> 1" "psNodes st1 \<le> MaxNodes"
    using conjunct2 [OF conjunct2 [OF conjunct2 [OF s]]] by simp_all
  then show ?thesis using s e unfolding leg_ok_def by (simp add: st1 after_leg_def)
qed

lemma parse_leg_back:
  assumes ok: "inputs_ok reg inputs" and l: "leg_ok reg inputs brackets n" and c: "psNodes st + node_count n \<le> MaxNodes"
  shows "parse_leg reg inputs (marshal_node n) pt brackets key st = Inr (n, after_leg key n st)"
proof -
  let ?st = "st\<lparr>psStops := 0, psTargets := 0\<rparr>"
  have w: "in_limits (after_nodes [n] ?st)" using l c by (simp add: in_limits_def leg_ok_def)
  have "parse_node reg inputs (marshal_node n) pt 1 brackets ?st = Inr (n, after_nodes [n] ?st)"
    using l by (intro parse_node_back [OF ok _ _ w]) (simp_all add: leg_ok_def)
  then show ?thesis by (simp add: parse_leg_def after_leg_def after_nodes_def)
qed

end

end
