(* ===== verification/Parsed_Specs.thy ===== *)
theory Parsed_Specs
  imports Parsed_Rules
begin

text \<open>
  Whole strategies: what the parser's checks leave well-formed (\<open>spec_wf\<close>), side by side, with the sizing
  and the costs; that the parser accepts exactly that; and that a parsed strategy survives being written
  out and parsed again. The laws the parser needs of the catalogue hold for the program's own one.
\<close>

section \<open>Sides\<close>

definition leg_opt_ok :: "spec list \<Rightarrow> (string \<times> input) list \<Rightarrow> bool \<Rightarrow> node option \<Rightarrow> bool" where
  "leg_opt_ok reg inputs brackets l = (case l of None \<Rightarrow> True | Some n \<Rightarrow> leg_ok reg inputs brackets n)"

definition side_ok :: "spec list \<Rightarrow> (string \<times> input) list \<Rightarrow> bool \<Rightarrow> side \<Rightarrow> bool" where
  "side_ok reg inputs brackets s \<longleftrightarrow>
     leg_opt_ok reg inputs brackets (sdLong s) \<and> leg_opt_ok reg inputs brackets (sdShort s) \<and>
     \<not> (sdLong s = None \<and> sdShort s = None)"

definition opt_count :: "node option \<Rightarrow> nat" where
  "opt_count l = (case l of None \<Rightarrow> 0 | Some n \<Rightarrow> node_count n)"

definition side_count :: "side \<Rightarrow> nat" where
  "side_count s = opt_count (sdLong s) + opt_count (sdShort s)"

definition after_opt :: "string \<Rightarrow> node option \<Rightarrow> pstate \<Rightarrow> pstate" where
  "after_opt key l st = (case l of None \<Rightarrow> st | Some n \<Rightarrow> after_leg key n st)"

definition after_side :: "side \<Rightarrow> pstate \<Rightarrow> pstate" where
  "after_side s st = after_opt ''short'' (sdShort s) (after_opt ''long'' (sdLong s) st)"

lemma after_opt_nodes [simp]: "psNodes (after_opt key l st) = psNodes st + opt_count l"
  by (cases l) (simp_all add: after_opt_def after_leg_def opt_count_def)

lemma after_side_nodes [simp]: "psNodes (after_side s st) = psNodes st + side_count s"
  by (simp add: after_side_def side_count_def)

text \<open>A rule that takes no bracket holds none.\<close>

lemma no_brackets: "node_wf reg inputs False n \<Longrightarrow> stops_in n = 0 \<and> targets_in n = 0"
  by (induction n) (auto simp: list_all_iff)

definition has_stop :: "node option \<Rightarrow> bool" where
  "has_stop l = (case l of None \<Rightarrow> False | Some n \<Rightarrow> stops_in n > 0)"

lemma after_opt_stopped: "psStopped (after_opt key l st) = (if has_stop l then key # psStopped st else psStopped st)"
  by (cases l) (simp_all add: after_opt_def after_leg_def has_stop_def)

lemma after_side_stopped:
  "set (psStopped (after_side s st)) =
     set (psStopped st) \<union> {key. key = ''long'' \<and> has_stop (sdLong s) \<or> key = ''short'' \<and> has_stop (sdShort s)}"
  by (auto simp: after_side_def after_opt_stopped)

lemma entry_has_no_stop: "side_ok reg inputs False s \<Longrightarrow> \<not> has_stop (sdLong s) \<and> \<not> has_stop (sdShort s)"
  by (auto simp: side_ok_def leg_opt_ok_def leg_ok_def has_stop_def dest: no_brackets split: option.splits)

definition side_fields :: "side \<Rightarrow> (string \<times> json) list" where
  "side_fields s =
     (case sdLong s of None \<Rightarrow> [] | Some n \<Rightarrow> [(''long'', marshal_node n)]) @
     (case sdShort s of None \<Rightarrow> [] | Some n \<Rightarrow> [(''short'', marshal_node n)])"

lemma marshal_side_fields: "marshal_side s = JObj (side_fields s)"
  by (simp add: marshal_side_def side_fields_def)

lemma side_fields_at:
  "map_of (side_fields s) ''long'' = map_option marshal_node (sdLong s)"
  "map_of (side_fields s) ''short'' = map_option marshal_node (sdShort s)"
  "fst ` set (side_fields s) \<subseteq> set [''long'', ''short'']"
  by (auto simp: side_fields_def split: option.splits)

context catalogue
begin

lemma parse_optional_leg_ok:
  assumes ok: "inputs_ok reg inputs" and p: "parse_optional_leg reg inputs body pt brackets key st = Inr (l, st1)"
  shows "leg_opt_ok reg inputs brackets l \<and> st1 = after_opt key l st \<and> (psNodes st \<le> MaxNodes \<longrightarrow> psNodes st1 \<le> MaxNodes)"
proof (cases "map_of body key")
  case None
  then show ?thesis using p by (auto simp: parse_optional_leg_def leg_opt_ok_def after_opt_def)
next
  case (Some raw)
  then obtain n where n: "parse_leg reg inputs raw (child pt key) brackets key st = Inr (n, st1)" "l = Some n"
    using p by (auto simp: parse_optional_leg_def and_then_Inr)
  show ?thesis using parse_leg_ok [OF ok n(1)] by (auto simp: n(2) leg_opt_ok_def after_opt_def)
qed

lemma parse_optional_leg_back:
  assumes ok: "inputs_ok reg inputs" and l: "leg_opt_ok reg inputs brackets l" and c: "psNodes st + opt_count l \<le> MaxNodes"
    and m: "map_of body key = map_option marshal_node l"
  shows "parse_optional_leg reg inputs body pt brackets key st = Inr (l, after_opt key l st)"
proof (cases l)
  case None
  then show ?thesis using m by (simp add: parse_optional_leg_def after_opt_def)
next
  case (Some n)
  then have "parse_leg reg inputs (marshal_node n) (child pt key) brackets key st = Inr (n, after_leg key n st)"
    using l c by (intro parse_leg_back [OF ok]) (simp_all add: leg_opt_ok_def opt_count_def)
  then show ?thesis using Some m by (simp add: parse_optional_leg_def after_opt_def)
qed

lemma parse_side_ok:
  assumes ok: "inputs_ok reg inputs" and p: "parse_side reg inputs v pt brackets what st = Inr (s, st')" and n: "psNodes st \<le> MaxNodes"
  shows "side_ok reg inputs brackets s \<and> st' = after_side s st \<and> psNodes st' \<le> MaxNodes"
proof -
  obtain body long st1 short where l: "parse_optional_leg reg inputs body pt brackets ''long'' st = Inr (long, st1)"
    and s: "parse_optional_leg reg inputs body pt brackets ''short'' st1 = Inr (short, st')"
    and e: "\<not> (long = None \<and> short = None)" "s = \<lparr>sdLong = long, sdShort = short\<rparr>"
    using p by (auto simp: parse_side_def and_then_Inr)
  show ?thesis using parse_optional_leg_ok [OF ok l] parse_optional_leg_ok [OF ok s] e n
    by (auto simp: side_ok_def after_side_def)
qed

lemma parse_side_back:
  assumes ok: "inputs_ok reg inputs" and s: "side_ok reg inputs brackets s" and c: "psNodes st + side_count s \<le> MaxNodes"
  shows "parse_side reg inputs (marshal_side s) pt brackets what st = Inr (s, after_side s st)"
proof -
  have l: "parse_optional_leg reg inputs (side_fields s) pt brackets ''long'' st = Inr (sdLong s, after_opt ''long'' (sdLong s) st)"
    using s c by (intro parse_optional_leg_back [OF ok _ _ side_fields_at(1)]) (simp_all add: side_ok_def side_count_def)
  have r: "parse_optional_leg reg inputs (side_fields s) pt brackets ''short'' (after_opt ''long'' (sdLong s) st)
      = Inr (sdShort s, after_side s st)"
    unfolding after_side_def
    using s c by (intro parse_optional_leg_back [OF ok _ _ side_fields_at(2)]) (simp_all add: side_ok_def side_count_def)
  have f: "onlyFields (side_fields s) pt [''long'', ''short''] = Inr ()" using onlyFields_Inr side_fields_at(3) by blast
  show ?thesis
    using s unfolding parse_side_def marshal_side_fields object_def json.case and_then_simps f l r prod.case
    by (auto simp: side_ok_def guard_def)
qed

end

section \<open>Sizing and costs\<close>

definition sizing_ok :: "sizing \<Rightarrow> bool" where
  "sizing_ok z \<longleftrightarrow> is_fin (szValue z) \<and> sizing_fault (szType z) (szValue z) = None"

definition bps_ok :: "f64 \<Rightarrow> bool" where
  "bps_ok x \<longleftrightarrow> is_fin x \<and> \<not> x < 0 \<and> \<not> x > MaxBPS"

definition costs_ok :: "costs \<Rightarrow> bool" where
  "costs_ok c \<longleftrightarrow>
     0 \<le> sint (BrokerageCents c) \<and> sint (BrokerageCents c) \<le> MaxBrokerageCents \<and> bps_ok (FeeBPS c) \<and> bps_ok (SlippageBPS c)"

lemma rnd_between:
  assumes "0 \<le> q" "q \<le> 1000"
  shows "is_fin (rnd q) \<and> \<not> rnd q < 0 \<and> \<not> rnd q > Fin 1000"
proof -
  have h: "\<not> rnd q > Fin 1000" using rnd_not_less [OF assms(2)] by (simp add: rnd_numeral)
  moreover have l: "\<not> rnd q < 0" using rnd_not_less [OF assms(1)] by (simp add: zero_f64_def)
  ultimately show ?thesis by (cases "rnd q") (simp_all add: less_f64_def zero_f64_def)
qed

lemma default_costs_ok: "costs_ok defaultCosts"
  using rnd_between [of "325 / 100"]
  by (simp add: costs_ok_def defaultCosts_def bps_ok_def MaxBPS_def MaxBrokerageCents_def less_f64_def zero_f64_def)

lemma sizing_name_back: "map_of sizing_names (clean (sizing_name k)) = Some k"
proof -
  have "list_all plain_char (sizing_name k)"
    by (cases k) (simp_all add: sizing_name_def plain_char_def lower_letter_def)
  then show ?thesis by (cases k) (simp_all add: clean_plain sizing_name_def sizing_names_def)
qed

lemma readSizing_ok:
  assumes "readSizing v pt = Inr z"
  shows "sizing_ok z"
  using assms by (auto simp: readSizing_def and_then_Inr requiredNumber_Inr sizing_ok_def split: option.splits)

lemma readSizing_back:
  assumes "sizing_ok z"
  shows "readSizing (marshal_sizing z) pt = Inr z"
proof -
  let ?body = "[(''type'', JStr (sizing_name (szType z))), (''value'', JNum (szValue z))]"
  have f: "onlyFields ?body pt [''type'', ''value''] = Inr ()" by (simp add: onlyFields_Inr)
  have r: "requiredNumber ?body pt ''value'' w = Inr (szValue z)" for w
    using assms by (simp add: requiredNumber_Inr sizing_ok_def)
  have t: "map_of ?body ''type'' = Some (JStr (sizing_name (szType z)))" by simp
  have "sizing_fault (szType z) (szValue z) = None" using assms by (simp add: sizing_ok_def)
  then show ?thesis
    unfolding readSizing_def marshal_sizing_def object_def json.case and_then_simps f t option.case str_def sizing_name_back r
    by simp
qed

lemma read_bps_ok: "read_bps body pt key b = Inr x \<Longrightarrow> bps_ok b \<Longrightarrow> bps_ok x"
  by (auto simp: read_bps_def parse_Inr bps_ok_def split: option.splits)

lemma read_bps_back: "map_of body key = Some (JNum x) \<Longrightarrow> bps_ok x \<Longrightarrow> read_bps body pt key b = Inr x"
  by (auto simp: read_bps_def bps_ok_def number_Inr and_then_Inr)

lemma small_word: "0 \<le> n \<Longrightarrow> n \<le> MaxBrokerageCents \<Longrightarrow> sint (word_of_int n :: i64) = n"
  by (rule sint_i64) (simp_all add: MaxBrokerageCents_def)

lemma readCosts_ok:
  assumes "readCosts v pt = Inr c"
  shows "costs_ok c"
proof (cases "v = JNull")
  case True
  then show ?thesis using assms default_costs_ok by (simp add: readCosts_def)
next
  case False
  then obtain body cents where c: "(case map_of body ''brokerage_cents'' of
             None \<Rightarrow> Inr (BrokerageCents defaultCosts)
           | Some raw \<Rightarrow>
               and_then (wholeNumber raw (child pt ''brokerage_cents'') ''brokerage_cents'') (\<lambda>n.
               guard (n < 0 \<or> n > MaxBrokerageCents) (Fault (child pt ''brokerage_cents'') (ValueFault (BrokerageOutside n)))
                 (Inr (word_of_int n)))) = Inr cents"
    and f: "read_bps body pt ''fee_bps'' (FeeBPS defaultCosts) = Inr (FeeBPS c)"
    and s: "read_bps body pt ''slippage_bps'' (SlippageBPS defaultCosts) = Inr (SlippageBPS c)"
    and e: "BrokerageCents c = cents"
    using assms by (auto simp: readCosts_def and_then_Inr)
  have "0 \<le> sint cents \<and> sint cents \<le> MaxBrokerageCents"
  proof (cases "map_of body ''brokerage_cents''")
    case None
    then show ?thesis using c default_costs_ok by (simp add: costs_ok_def)
  next
    case (Some raw)
    then obtain n where "\<not> (n < 0 \<or> n > MaxBrokerageCents)" "cents = word_of_int n"
      using c by (auto simp: and_then_Inr)
    then show ?thesis using small_word [of n] by simp
  qed
  then show ?thesis using read_bps_ok [OF f] read_bps_ok [OF s] default_costs_ok e by (simp add: costs_ok_def)
qed

lemma readCosts_back:
  assumes "costs_ok c"
  shows "readCosts (marshal_costs c) pt = Inr c"
proof -
  let ?n = "sint (BrokerageCents c)"
  let ?body = "[(''brokerage_cents'', JNum (float_of_int ?n)), (''fee_bps'', JNum (FeeBPS c)), (''slippage_bps'', JNum (SlippageBPS c))]"
  have n: "0 \<le> ?n" "?n \<le> MaxBrokerageCents" "whole32 ?n" using assms by (auto simp: costs_ok_def whole32_def MaxBrokerageCents_def)
  have w: "wholeNumber (JNum (float_of_int ?n)) p k = Inr ?n" for p k by (rule wholeNumber_back [OF n(3)])
  have f: "onlyFields ?body pt [''brokerage_cents'', ''fee_bps'', ''slippage_bps''] = Inr ()" by (simp add: onlyFields_Inr)
  have b: "read_bps ?body pt ''fee_bps'' d = Inr (FeeBPS c)" "read_bps ?body pt ''slippage_bps'' d = Inr (SlippageBPS c)" for d
    using assms by (auto simp: costs_ok_def intro!: read_bps_back)
  have m: "map_of ?body ''brokerage_cents'' = Some (JNum (float_of_int ?n))" by simp
  have g: "\<not> (?n < 0 \<or> MaxBrokerageCents < ?n)" using n by simp
  have v: "marshal_costs c = JObj ?body" "JObj ?body \<noteq> JNull" by (simp_all add: marshal_costs_def)
  show ?thesis
    unfolding readCosts_def v(1) if_not_P [OF v(2)] object_def json.case and_then_simps f m option.case w b guard_def if_not_P [OF g]
    by simp
qed

section \<open>The specification\<close>

definition exit_ok :: "spec list \<Rightarrow> (string \<times> input) list \<Rightarrow> side \<Rightarrow> side option \<Rightarrow> bool" where
  "exit_ok reg inputs entry x =
     (case x of None \<Rightarrow> True
      | Some s \<Rightarrow> side_ok reg inputs True s \<and> \<not> (sdLong s \<noteq> None \<and> sdLong entry = None) \<and> \<not> (sdShort s \<noteq> None \<and> sdShort entry = None))"

definition exit_count :: "side option \<Rightarrow> nat" where
  "exit_count x = (case x of None \<Rightarrow> 0 | Some s \<Rightarrow> side_count s)"

text \<open>The sides whose exit holds a stop.\<close>

definition exit_stop :: "side option \<Rightarrow> string \<Rightarrow> bool" where
  "exit_stop x key = (case x of None \<Rightarrow> False | Some s \<Rightarrow> has_stop (side_node s key))"

definition after_exit :: "side option \<Rightarrow> pstate \<Rightarrow> pstate" where
  "after_exit x st = (case x of None \<Rightarrow> st | Some s \<Rightarrow> after_side s st)"

text \<open>
  A well-formed specification: its inputs, rules, sizing and costs are, no exit is without its entry,
  the rules count at most \<open>MaxNodes\<close> nodes together, and a size by risk has a stop on each side it enters.
\<close>

definition spec_wf :: "spec list \<Rightarrow> spec_t \<Rightarrow> bool" where
  "spec_wf reg s \<longleftrightarrow>
     inputs_ok reg (sInputs s) \<and> side_ok reg (sInputs s) False (sEntry s) \<and> exit_ok reg (sInputs s) (sEntry s) (sExit s) \<and>
     side_count (sEntry s) + exit_count (sExit s) \<le> MaxNodes \<and> sizing_ok (sSizing s) \<and> costs_ok (sCosts s) \<and>
     (if szType (sSizing s) = SizeRiskPct
      then list_all (\<lambda>key. side_node (sEntry s) key = None \<or> exit_stop (sExit s) key) [''long'', ''short''] else True)"

definition fresh_state :: pstate where
  "fresh_state = \<lparr>psNodes = 0, psStops = 0, psTargets = 0, psStopped = []\<rparr>"

lemma stops_known:
  assumes "side_ok reg inputs False entry"
  shows "missing_stop entry (after_exit x (after_side entry fresh_state)) = None \<longleftrightarrow>
    list_all (\<lambda>key. side_node entry key = None \<or> exit_stop x key) [''long'', ''short'']"
proof -
  have "set (psStopped (after_side entry fresh_state)) = {}"
    using entry_has_no_stop [OF assms] by (simp add: after_side_stopped fresh_state_def)
  then have "key \<in> set (psStopped (after_exit x (after_side entry fresh_state))) \<longleftrightarrow> exit_stop x key"
    if "key = ''long'' \<or> key = ''short''" for key
    using that by (auto simp: after_exit_def exit_stop_def after_side_stopped side_node_def split: option.splits)
  then show ?thesis by (auto simp: missing_stop_def find_None_iff)
qed

definition spec_fields :: "spec_t \<Rightarrow> (string \<times> json) list" where
  "spec_fields s =
     [(''version'', JNum (float_of_int Version)), (''inputs'', JObj (map (\<lambda>(n, i). (n, marshal_input i)) (sInputs s))),
      (''entry'', marshal_side (sEntry s))] @
     (case sExit s of None \<Rightarrow> [] | Some x \<Rightarrow> [(''exit'', marshal_side x)]) @
     [(''sizing'', marshal_sizing (sSizing s)), (''costs'', marshal_costs (sCosts s))]"

lemma marshal_spec_fields: "marshal_spec s = JObj (spec_fields s)"
  by (simp add: marshal_spec_def spec_fields_def)

lemma spec_fields_at:
  "map_of (spec_fields s) ''version'' = Some (JNum (float_of_int Version))"
  "field (spec_fields s) ''inputs'' = JObj (map (\<lambda>(n, i). (n, marshal_input i)) (sInputs s))"
  "map_of (spec_fields s) ''entry'' = Some (marshal_side (sEntry s))"
  "field (spec_fields s) ''exit'' = (case sExit s of None \<Rightarrow> JNull | Some x \<Rightarrow> marshal_side x)"
  "map_of (spec_fields s) ''sizing'' = Some (marshal_sizing (sSizing s))"
  "field (spec_fields s) ''costs'' = marshal_costs (sCosts s)"
  "fst ` set (spec_fields s) \<subseteq> set [''version'', ''inputs'', ''entry'', ''exit'', ''sizing'', ''costs'']"
  by (auto simp: spec_fields_def field_def split: option.splits)

lemma version_back: "check_version (spec_fields s) pt = Inr ()"
proof -
  have "wholeNumber (JNum (float_of_int Version)) p k = Inr Version" for p k
    by (rule wholeNumber_back) (simp add: whole32_def Version_def)
  then show ?thesis by (simp add: check_version_def spec_fields_at guard_def)
qed

context catalogue
begin

lemma parse_exit_ok:
  assumes ok: "inputs_ok reg inputs" and p: "parse_exit reg inputs body pt entry st = Inr (x, st')" and n: "psNodes st \<le> MaxNodes"
  shows "exit_ok reg inputs entry x \<and> st' = after_exit x st \<and> psNodes st' \<le> MaxNodes"
proof (cases "field body ''exit'' = JNull")
  case True
  then show ?thesis using p n by (auto simp: parse_exit_def exit_ok_def after_exit_def)
next
  case False
  then obtain s where s: "parse_side reg inputs (field body ''exit'') (child pt ''exit'') True ''exit'' st = Inr (s, st')" "x = Some s"
    "\<not> (sdLong s \<noteq> None \<and> sdLong entry = None)" "\<not> (sdShort s \<noteq> None \<and> sdShort entry = None)"
    using p by (auto simp: parse_exit_def and_then_Inr)
  show ?thesis using parse_side_ok [OF ok s(1) n] s(2-4) by (auto simp: exit_ok_def after_exit_def)
qed

lemma parse_exit_back:
  assumes ok: "inputs_ok reg inputs" and x: "exit_ok reg inputs entry x" and n: "psNodes st + exit_count x \<le> MaxNodes"
    and f: "field body ''exit'' = (case x of None \<Rightarrow> JNull | Some s \<Rightarrow> marshal_side s)"
  shows "parse_exit reg inputs body pt entry st = Inr (x, after_exit x st)"
proof (cases x)
  case None
  then show ?thesis using f by (simp add: parse_exit_def after_exit_def)
next
  case (Some s)
  have s: "side_ok reg inputs True s" "\<not> (sdLong s \<noteq> None \<and> sdLong entry = None)" "\<not> (sdShort s \<noteq> None \<and> sdShort entry = None)"
    using x Some by (simp_all add: exit_ok_def)
  have "parse_side reg inputs (marshal_side s) (child pt ''exit'') True ''exit'' st = Inr (s, after_side s st)"
    using n Some by (intro parse_side_back [OF ok s(1)]) (simp add: exit_count_def)
  then show ?thesis using f Some s(2,3) by (simp add: parse_exit_def marshal_side_fields guard_def after_exit_def)
qed

lemma parse_spec_wf:
  assumes "parse_spec reg v = Inr s"
  shows "spec_wf reg s"
proof -
  obtain body where o: "object v [] ''a strategy spec'' = Inr body"
    using assms by (auto simp: parse_spec_def and_then_Inr)
  obtain inputs where i: "readInputs reg (field body ''inputs'') (child [] ''inputs'') = Inr inputs"
    using assms o by (auto simp: parse_spec_def and_then_Inr)
  obtain en entry st x st1 sz sizing costs where e: "parse_side reg inputs en (child [] ''entry'') False ''entry'' fresh_state = Inr (entry, st)"
    and x: "parse_exit reg inputs body [] entry st = Inr (x, st1)"
    and z: "readSizing sz (child [] ''sizing'') = Inr sizing"
    and m: "(if szType sizing = SizeRiskPct then missing_stop entry st1 else None) = None"
    and c: "readCosts (field body ''costs'') (child [] ''costs'') = Inr costs"
    and s: "s = \<lparr>sInputs = inputs, sEntry = entry, sExit = x, sSizing = sizing, sCosts = costs\<rparr>"
    using assms o i unfolding fresh_state_def [symmetric]
    by (auto simp: parse_spec_def and_then_Inr fresh_state_def [symmetric] simp del: if_split_asm split: option.splits)
  note ok = readInputs_ok [OF i]
  note e' = parse_side_ok [OF ok e]
  have 1: "side_ok reg inputs False entry" "st = after_side entry fresh_state" "psNodes st \<le> MaxNodes" using e' by (auto simp: fresh_state_def)
  note x' = parse_exit_ok [OF ok x 1(3)]
  have st1: "st1 = after_exit x (after_side entry fresh_state)" using x' 1(2) by simp
  have "psNodes st1 = side_count entry + exit_count x"
    by (cases x) (simp_all add: st1 after_exit_def exit_count_def fresh_state_def)
  then show ?thesis
    using ok 1(1) x' readSizing_ok [OF z] readCosts_ok [OF c] m stops_known [OF 1(1), of x]
    by (auto simp: spec_wf_def s st1)
qed

lemma parse_spec_back:
  assumes "spec_wf reg s"
  shows "parse_spec reg (marshal_spec s) = Inr s"
proof -
  have ok: "inputs_ok reg (sInputs s)" and e: "side_ok reg (sInputs s) False (sEntry s)" and x: "exit_ok reg (sInputs s) (sEntry s) (sExit s)"
    and n: "side_count (sEntry s) + exit_count (sExit s) \<le> MaxNodes" and z: "sizing_ok (sSizing s)" and c: "costs_ok (sCosts s)"
    using assms by (simp_all add: spec_wf_def)
  let ?st = "after_side (sEntry s) fresh_state"
  have entry: "parse_side reg (sInputs s) (marshal_side (sEntry s)) p False w fresh_state = Inr (sEntry s, ?st)" for p w
    using n by (intro parse_side_back [OF ok e]) (simp add: fresh_state_def)
  have exit: "parse_exit reg (sInputs s) (spec_fields s) p (sEntry s) ?st = Inr (sExit s, after_exit (sExit s) ?st)" for p
    using n by (intro parse_exit_back [OF ok x _ spec_fields_at(4)]) (simp add: fresh_state_def)
  have stop: "(if szType (sSizing s) = SizeRiskPct then missing_stop (sEntry s) (after_exit (sExit s) ?st) else None) = None"
    using assms stops_known [OF e, of "sExit s"] by (auto simp: spec_wf_def)
  have f: "onlyFields (spec_fields s) [] [''version'', ''inputs'', ''entry'', ''exit'', ''sizing'', ''costs''] = Inr ()"
    using onlyFields_Inr spec_fields_at(7) by blast
  show ?thesis
    unfolding parse_spec_def marshal_spec_fields object_def json.case and_then_simps f version_back
      spec_fields_at readInputs_back [OF ok] option.case fresh_state_def [symmetric] entry prod.case exit
      readSizing_back [OF z] stop readCosts_back [OF c]
    by simp
qed

end

section \<open>The catalogue of the program\<close>

lemma catalogue_clean:
  "list_all (\<lambda>s. distinct (map pmName (spParams s)) \<and>
      list_all (\<lambda>q. list_all plain_char (pmName q) \<and> is_fin (pmDefault q)) (spParams s) \<and>
      spOutputs s \<noteq> [] \<and> list_all (\<lambda>out. list_all plain_char out \<and> out \<noteq> []) (spOutputs s)) (registry math_Log)"
  by (simp add: registry_def spec_defs plain_char_def lower_letter_def digit_of_def rnd_numeral rnd_between)

interpretation indicators: catalogue "registry math_Log" for math_Log
proof
  fix s assume s: "s \<in> set (registry math_Log)"
  note c = bspec [OF catalogue_clean [of math_Log, unfolded list_all_iff] s]
  show "distinct (map pmName (spParams s))" using c by blast
  show "spOutputs s \<noteq> [] \<and> list_all (\<lambda>out. clean out = out \<and> out \<noteq> []) (spOutputs s)"
    using c by (auto simp: list_all_iff intro!: clean_plain)
  fix q assume "q \<in> set (spParams s)"
  then show "clean (pmName q) = pmName q \<and> is_fin (pmDefault q)"
    using c by (auto simp: list_all_iff intro!: clean_plain)
next
  have "Lookup (registry math_Log) ''atr'' = Some spec_atr"
    by (simp add: Lookup_def normal_name_clean clean_plain plain_char_def lower_letter_def registry_def spec_defs)
  then show "\<exists>s q. Lookup (registry math_Log) ''atr'' = Some s \<and> spParams s = [q] \<and> pmName q = ''period'' \<and> (\<forall>p. spValidate s p = None)"
    by (auto simp: spec_defs spec_ok_def)
qed

text \<open>C22: the parser accepts exactly the well-formed strategies: what it returns on some value is every
  specification that \<open>spec_wf\<close> describes, and nothing else.\<close>

theorem parser_accepts_wellformed:
  "(\<exists>v. Parse (registry math_Log) (Some v) = Inr s) \<longleftrightarrow> spec_wf (registry math_Log) s"
  using indicators.parse_spec_wf [of math_Log _ s] indicators.parse_spec_back [of math_Log s]
  by (simp only: Parse_def option.case) blast

text \<open>C23: a parsed strategy, written out and parsed again, is the same strategy.\<close>

theorem parse_marshal_roundtrip:
  "case Parse (registry math_Log) decoded of
     Inl _ \<Rightarrow> True
   | Inr s \<Rightarrow> Parse (registry math_Log) (Some (marshal_spec s)) = Inr s"
  by (cases decoded) (auto simp: Parse_def fault_at_def dest!: indicators.parse_spec_wf intro: indicators.parse_spec_back split: sum.splits)

end
