(* ===== verification/Parsed_Plans.thy ===== *)
theory Parsed_Plans
  imports Parsed_Specs
begin

text \<open>
  From the parser to the compiler: the search for loops among the inputs is exact, the order in which the
  compiler takes the inputs puts each after the one it reads from, and so a strategy the parser accepted
  always compiles.
\<close>

section \<open>Loops of chained inputs\<close>

text \<open>A chain of inputs ends when following its sources comes to an input that reads a price.\<close>

inductive chain_ends :: "(string \<times> string) list \<Rightarrow> string \<Rightarrow> bool" for chain where
  here: "chain_ends chain []"
| step: "chain_ends chain (next_in chain n) \<Longrightarrow> chain_ends chain n"

inductive_simps chain_ends_step: "chain_ends chain (c # cs)"

text \<open>The names of a path each read from the next one, the last one from \<open>e\<close>.\<close>

fun feed_path :: "(string \<times> string) list \<Rightarrow> string list \<Rightarrow> string \<Rightarrow> bool" where
  "feed_path chain [] e \<longleftrightarrow> True"
| "feed_path chain (x # xs) e \<longleftrightarrow> x \<noteq> [] \<and> next_in chain x = (case xs of [] \<Rightarrow> e | y # _ \<Rightarrow> y) \<and> feed_path chain xs e"

definition feed_loop :: "(string \<times> string) list \<Rightarrow> string list \<Rightarrow> bool" where
  "feed_loop chain ns = (case ns of [] \<Rightarrow> False | n # _ \<Rightarrow> feed_path chain ns n \<and> distinct ns)"

lemma path_snoc: "feed_path chain xs n \<Longrightarrow> n \<noteq> [] \<Longrightarrow> feed_path chain (xs @ [n]) (next_in chain n)"
  by (induction xs) (auto split: list.splits)

lemma path_suffix: "feed_path chain (xs @ ys) e \<Longrightarrow> feed_path chain ys e"
  by (induction xs) auto

lemma path_ends:
  assumes "feed_path chain xs e" "chain_ends chain e"
  shows "list_all (chain_ends chain) xs"
  using assms(1)
proof (induction xs)
  case (Cons x xs)
  then have "list_all (chain_ends chain) xs" by simp
  moreover from this have "chain_ends chain (next_in chain x)" using Cons.prems assms(2) by (cases xs) auto
  ultimately show ?case by (auto intro: chain_ends.step)
qed simp

lemma ends_next: "chain_ends chain n \<Longrightarrow> n \<noteq> [] \<Longrightarrow> chain_ends chain (next_in chain n)"
  by (erule chain_ends.cases) simp_all

lemma path_reaches: "feed_path chain xs e \<Longrightarrow> xs \<noteq> [] \<Longrightarrow> chain_ends chain (hd xs) \<Longrightarrow> chain_ends chain e"
proof (induction xs)
  case (Cons x xs)
  then have "chain_ends chain (next_in chain x)" using ends_next [of chain x] by simp
  then show ?case using Cons by (cases xs) auto
qed simp

lemma path_next: "feed_path chain xs e \<Longrightarrow> x \<in> set xs \<Longrightarrow> next_in chain x \<in> insert e (set xs)"
proof (induction xs)
  case (Cons y xs)
  then show ?case by (cases xs) auto
qed simp

lemma path_nonempty: "feed_path chain xs e \<Longrightarrow> [] \<notin> set xs"
  by (induction xs) auto

lemma loop_never_ends:
  assumes "feed_loop chain ns" "n \<in> set ns"
  shows "\<not> chain_ends chain n"
proof
  have p: "feed_path chain ns (hd ns)" "hd ns \<in> set ns" using assms by (auto simp: feed_loop_def split: list.splits)
  assume "chain_ends chain n"
  then show False using assms(2)
  proof induction
    case here
    then show ?case using path_nonempty [OF p(1)] by simp
  next
    case (step n)
    then show ?case using path_next [OF p(1) step.prems] p(2) by auto
  qed
qed

lemma walk_chain_path:
  "feed_path chain walk name \<Longrightarrow> distinct walk \<Longrightarrow> walk_chain chain shut walk name = (walk', e) \<Longrightarrow>
    feed_path chain walk' e \<and> distinct walk' \<and> (e = [] \<or> e \<in> set shut \<or> e \<in> set walk') \<and>
    hd (walk' @ [e]) = hd (walk @ [name])"
proof (induction chain shut walk name rule: walk_chain.induct)
  case (1 chain shut walk name)
  show ?case
  proof (cases "name = [] \<or> name \<in> set shut \<or> name \<in> set walk")
    case True
    then show ?thesis using "1.prems" by (auto simp: walk_chain.simps [of chain shut walk name])
  next
    case False
    then have "walk_chain chain shut (walk @ [name]) (next_in chain name) = (walk', e)"
      using "1.prems"(3) by (simp add: walk_chain.simps [of chain shut walk name])
    with "1.IH" [OF False path_snoc] "1.prems" False show ?thesis by (simp add: hd_append)
  qed
qed

lemma find_cycle_exact:
  assumes "list_all (chain_ends chain) shut"
  shows "case find_cycle chain shut names of
      [] \<Rightarrow> list_all (chain_ends chain) names
    | n # ns \<Rightarrow> feed_loop chain (n # ns) \<and> \<not> list_all (chain_ends chain) names"
  using assms
proof (induction chain shut names rule: find_cycle.induct)
  case (2 chain shut name names)
  show ?case
  proof (cases "name \<in> set shut")
    case True
    then have "chain_ends chain name" using "2.prems" by (auto simp: list_all_iff)
    then show ?thesis using "2.IH"(1) [OF True "2.prems"] True by (auto split: list.splits)
  next
    case False
    obtain walk e where w: "walk_chain chain shut [] name = (walk, e)" by (cases "walk_chain chain shut [] name")
    from walk_chain_path [of chain "[]" name shut walk e] w
    have p: "feed_path chain walk e" "distinct walk" "e = [] \<or> e \<in> set shut \<or> e \<in> set walk" "hd (walk @ [e]) = name"
      by simp_all
    show ?thesis
    proof (cases "e \<noteq> [] \<and> e \<in> set walk")
      case True
      define ys where "ys = dropWhile (\<lambda>n. n \<noteq> e) walk"
      have ys: "walk = takeWhile (\<lambda>n. n \<noteq> e) walk @ ys" by (simp add: ys_def)
      have ne: "ys \<noteq> []" using True by (auto simp: ys_def dropWhile_eq_Nil_conv)
      then have h: "hd ys = e" using hd_dropWhile [of "\<lambda>n. n \<noteq> e" walk] by (simp add: ys_def)
      have "feed_path chain ys e" using p(1) ys path_suffix by metis
      moreover have "distinct ys" using p(2) by (simp add: ys_def)
      ultimately have l: "feed_loop chain ys" using ne h by (cases ys) (auto simp: feed_loop_def)
      have "walk \<noteq> []" using True by auto
      then have "\<not> chain_ends chain name"
        using path_reaches [OF p(1)] p(4) loop_never_ends [OF l, of e] ne h by (auto simp: hd_append split: if_splits)
      moreover have "find_cycle chain shut (name # names) = ys" using True False w by (simp add: ys_def)
      ultimately show ?thesis using l ne by (cases ys) auto
    next
      case no: False
      then have e: "chain_ends chain e" using p(3) "2.prems" chain_ends.here by (auto simp: list_all_iff)
      then have all: "list_all (chain_ends chain) walk" by (rule path_ends [OF p(1)])
      have n: "chain_ends chain name"
        using p(4) e all by (cases walk) auto
      have s: "list_all (chain_ends chain) (shut @ walk)" using "2.prems" all by simp
      have "find_cycle chain shut (name # names) = find_cycle chain (shut @ walk) names" using False w no by auto
      then show ?thesis using "2.IH"(2) [OF False w [symmetric] refl _ s] no n by (auto split: list.splits)
    qed
  qed
qed simp

text \<open>C28: the search for loops is exact: it finds none only when every chain of inputs ends at a price;
  otherwise what it returns is a loop of distinct inputs, each reading from the next one.\<close>

theorem findCycle_exact:
  "case findCycle names chain of
     [] \<Rightarrow> list_all (chain_ends chain) names
   | n # ns \<Rightarrow> feed_loop chain (n # ns) \<and> \<not> list_all (chain_ends chain) names"
  unfolding findCycle_def by (rule find_cycle_exact) simp

section \<open>The order of the inputs\<close>

definition upstream :: "(string \<times> string) list \<Rightarrow> string \<Rightarrow> string" where
  "upstream chain n = (if n = [] then [] else next_in chain n)"

definition chain_rank :: "(string \<times> string) list \<Rightarrow> string \<Rightarrow> nat" where
  "chain_rank chain n = (LEAST k. (upstream chain ^^ k) n = [])"

lemma ends_reaches: "chain_ends chain n \<Longrightarrow> \<exists>k. (upstream chain ^^ k) n = []"
proof (induction rule: chain_ends.induct)
  case here
  have "(upstream chain ^^ 0) [] = []" by simp
  then show ?case by blast
next
  case (step n)
  then obtain k where "(upstream chain ^^ k) (next_in chain n) = []" by blast
  then have "n \<noteq> [] \<Longrightarrow> (upstream chain ^^ Suc k) n = []" by (simp only: funpow_Suc_right comp_apply) (simp add: upstream_def)
  moreover have "n = [] \<Longrightarrow> (upstream chain ^^ 0) n = []" by simp
  ultimately show ?case by blast
qed

lemma rank_falls:
  assumes "chain_ends chain n" "n \<noteq> []"
  shows "chain_rank chain (next_in chain n) < chain_rank chain n"
proof -
  obtain k where k: "(upstream chain ^^ k) n = []" using ends_reaches [OF assms(1)] by blast
  let ?r = "chain_rank chain n"
  have r: "(upstream chain ^^ ?r) n = []" unfolding chain_rank_def by (rule LeastI [of "\<lambda>k. (upstream chain ^^ k) n = []", OF k])
  then obtain j where j: "?r = Suc j" using assms(2) by (cases ?r) auto
  have "(upstream chain ^^ j) (next_in chain n) = []"
    using r assms(2) unfolding j funpow_Suc_right by (simp add: upstream_def)
  then have "chain_rank chain (next_in chain n) \<le> j" unfolding chain_rank_def by (rule Least_le)
  then show ?thesis using j by simp
qed

text \<open>Each name of a list reads from one that is before it.\<close>

fun fed_before :: "(string \<times> string) list \<Rightarrow> string set \<Rightarrow> string list \<Rightarrow> bool" where
  "fed_before chain done [] \<longleftrightarrow> True"
| "fed_before chain done (n # ns) \<longleftrightarrow>
     (case map_of chain n of None \<Rightarrow> True | Some up \<Rightarrow> up \<in> done) \<and> fed_before chain (insert n done) ns"

lemma fed_before_snoc:
  "fed_before chain done (ns @ [n]) \<longleftrightarrow>
    fed_before chain done ns \<and> (case map_of chain n of None \<Rightarrow> True | Some up \<Rightarrow> up \<in> done \<union> set ns)"
  by (induction ns arbitrary: "done") (auto split: option.splits)

text \<open>
  What a visit keeps: the names written so far are fed from before; those begun and not yet written
  rank above whatever is visited next.
\<close>

definition visit_inv :: "(string \<times> string) list \<Rightarrow> string set \<Rightarrow> string list \<Rightarrow> string list \<Rightarrow> bool" where
  "visit_inv chain K seen out \<longleftrightarrow> fed_before chain {} out \<and> set out \<subseteq> set seen \<and> set out \<subseteq> K"

lemma visit_keeps:
  assumes closed: "\<And>n up. n \<in> K \<Longrightarrow> map_of chain n = Some up \<Longrightarrow> up \<in> K \<and> chain_rank chain up < chain_rank chain n"
  shows "C = chain \<Longrightarrow> visit C name st = (seen', out') \<Longrightarrow> name \<in> K \<Longrightarrow> visit_inv chain K (fst st) (snd st) \<Longrightarrow>
    (\<And>m. m \<in> set (fst st) - set (snd st) \<Longrightarrow> chain_rank chain name < chain_rank chain m) \<Longrightarrow>
    visit_inv chain K seen' out' \<and> insert name (set (snd st)) \<subseteq> set out' \<and> set (fst st) \<subseteq> set seen' \<and>
    set seen' - set out' \<subseteq> set (fst st) - set (snd st)"
proof (induction C name st arbitrary: seen' out' rule: visit.induct)
  case (1 C name seen out)
  show ?case
  proof (cases "name \<in> set seen")
    case True
    then have "seen' = seen" "out' = out" using "1.prems"(2) by simp_all
    moreover have "name \<in> set out" using "1.prems"(5) [of name] True by auto
    ultimately show ?thesis using "1.prems"(4) by simp
  next
    case False
    show ?thesis
    proof (cases "map_of chain name")
      case None
      then have "seen' = name # seen" "out' = out @ [name]" using "1.prems"(1,2) False by simp_all
      then show ?thesis using "1.prems"(3,4) None by (auto simp: visit_inv_def fed_before_snoc)
    next
      case (Some up)
      obtain seen1 out1 where v: "visit C up (name # seen, out) = (seen1, out1)" by (cases "visit C up (name # seen, out)")
      then have e: "seen' = seen1" "out' = out1 @ [name]" using "1.prems"(1,2) False Some by auto
      note up = closed [OF "1.prems"(3) Some]
      have before: "chain_rank chain up < chain_rank chain m" if "m \<in> set (fst (name # seen, out)) - set (snd (name # seen, out))" for m
        using that up "1.prems"(5) [of m] by auto
      have inv: "visit_inv chain K (fst (name # seen, out)) (snd (name # seen, out))" using "1.prems"(4) by (auto simp: visit_inv_def)
      note ih = "1.IH" [OF False Some [folded "1.prems"(1)] "1.prems"(1) v conjunct1 [OF up] inv before]
      then show ?thesis using Some "1.prems"(3) unfolding e by (auto simp: visit_inv_def fed_before_snoc)
    qed
  qed
qed

lemma visit_all:
  assumes closed: "\<And>n up. n \<in> K \<Longrightarrow> map_of chain n = Some up \<Longrightarrow> up \<in> K \<and> chain_rank chain up < chain_rank chain n"
  shows "fold (visit chain) names (seen, out) = (seen', out') \<Longrightarrow> set names \<subseteq> K \<Longrightarrow> visit_inv chain K seen out \<Longrightarrow>
    set seen \<subseteq> set out \<Longrightarrow> visit_inv chain K seen' out' \<and> set names \<union> set out \<subseteq> set out'"
proof (induction names arbitrary: seen out)
  case (Cons n names)
  obtain s1 o1 where v: "visit chain n (seen, out) = (s1, o1)" by (cases "visit chain n (seen, out)")
  have w: "visit_inv chain K s1 o1 \<and> insert n (set out) \<subseteq> set o1 \<and> set seen \<subseteq> set s1 \<and> set s1 - set o1 \<subseteq> set seen - set out"
    using visit_keeps [OF closed refl v] Cons.prems by (auto simp del: visit.simps)
  then have "set s1 \<subseteq> set o1" using Cons.prems(4) by blast
  then show ?case using Cons.IH [of s1 o1] Cons.prems v w by (auto simp del: visit.simps)
qed simp

lemma order_inputs_fed:
  assumes "list_all (chain_ends chain) names" "[] \<notin> set names" "\<And>n up. map_of chain n = Some up \<Longrightarrow> up \<in> set names"
  shows "fed_before chain {} (order_inputs names chain) \<and> set (order_inputs names chain) = set names"
proof -
  obtain seen' out' where f: "fold (visit chain) names ([], []) = (seen', out')" by (cases "fold (visit chain) names ([], [])")
  have closed: "up \<in> set names \<and> chain_rank chain up < chain_rank chain n" if "n \<in> set names" "map_of chain n = Some up" for n up
  proof -
    have "chain_ends chain n" "n \<noteq> []" using assms(1,2) that(1) by (auto simp: list_all_iff)
    from rank_falls [OF this] show ?thesis using assms(3) [OF that(2)] that(2) by (simp add: next_in_def)
  qed
  have "visit_inv chain (set names) seen' out' \<and> set names \<subseteq> set out'"
    using visit_all [OF closed f] by (simp add: visit_inv_def)
  then show ?thesis by (auto simp: order_inputs_def f visit_inv_def)
qed

section \<open>A parsed strategy compiles\<close>

text \<open>An input that the builder holds, with its slot.\<close>

definition built :: "spec list \<Rightarrow> (string \<times> input) list \<Rightarrow> builder \<Rightarrow> string \<Rightarrow> bool" where
  "built reg inputs b n \<longleftrightarrow> bIndex b n \<noteq> None \<and>
     (case (map_of inputs n, bBuilt b n) of
        (Some i, Some h) \<Rightarrow> Lookup reg (inpIndicator i) = Some (inSpec (hdInstance h))
      | _ \<Rightarrow> False)"

lemma attach_keeps:
  assumes "attach b inst feed out name = (b', k)"
  shows "bIndex b' = bIndex b" and "bBuilt b' = bBuilt b"
  using assms by (auto simp: attach_def attach_unit_def Let_def split: option.splits prod.splits)

lemma built_attach: "attach b inst feed out name = (b', k) \<Longrightarrow> built reg inputs b' n = built reg inputs b n"
  by (simp add: built_def attach_keeps)

definition all_built :: "spec list \<Rightarrow> (string \<times> input) list \<Rightarrow> builder \<Rightarrow> bool" where
  "all_built reg inputs b \<longleftrightarrow> (\<forall>n i. map_of inputs n = Some i \<longrightarrow> built reg inputs b n)"

lemma all_built_attach: "attach b inst feed out name = (b', k) \<Longrightarrow> all_built reg inputs b' = all_built reg inputs b"
  by (simp add: all_built_def built_attach)

context catalogue
begin

lemma add_input_built:
  assumes ok: "inputs_ok reg (sInputs s)" and m: "map_of (sInputs s) n = Some i"
    and up: "case map_of (spec_chains s) n of None \<Rightarrow> True | Some up \<Rightarrow> built reg (sInputs s) b up"
  shows "\<exists>b'. add_input reg s b n = Inr b' \<and> built reg (sInputs s) b' n \<and>
    (\<forall>m. built reg (sInputs s) b m \<longrightarrow> built reg (sInputs s) b' m)"
proof -
  have d: "distinct (map fst (sInputs s))" using ok by (simp add: inputs_ok_def strict_sorted_iff)
  have chain: "(map_of (spec_chains s) n \<noteq> None) = (inpSourced i \<and> field_of (inpSource i) = None)"
    using chains_of_lookup [OF d map_of_SomeD [OF m]] by (simp add: spec_chains_def chains_of_def)
  obtain sp inst where sp: "Lookup reg (inpIndicator i) = Some sp" and src: "source_ok (map fst (sInputs s)) n (inpSourced i) (inpSource i)"
    and e: "inpIndicator i = spName sp" and n: "New reg (spName sp) (inpParams i) (field_of (inpSource i)) = Inr inst"
    using inputs_ok_name(2) [OF ok m] by (auto simp: input_ok_def split: option.splits sum.splits)
  obtain feed where feed: "(case map_of (spec_chains s) n of None \<Rightarrow> Inr (- 1)
      | Some up \<Rightarrow> (case bIndex b up of None \<Rightarrow> Inl (NoUpstreamSlot n up) | Some k \<Rightarrow> Inr (int k))) = Inr feed"
    and sign: "feed < 0 \<longleftrightarrow> map_of (spec_chains s) n = None"
    using up by (auto simp: built_def split: option.splits)
  have "field_of [] = None" by (simp add: field_of_def)
  then have f: "(if feed < 0 \<and> inpSourced i then field_of (inpSource i) else None) = field_of (inpSource i)"
    using chain sign src by (auto simp: source_ok_def)
  have spec: "inSpec inst = sp"
    using n unfolding New_iff [OF conjunct2 [OF conjunct2 [OF Lookup_name [OF sp]]]] by auto
  let ?b1 = "b\<lparr>bBuilt := (bBuilt b)(n \<mapsto> \<lparr>hdInstance = inst, hdFeed = feed\<rparr>)\<rparr>"
  obtain b2 k where a: "attach ?b1 inst feed (outputOf inst (inpOutput i)) n = (b2, k)" by (cases "attach ?b1 inst feed (outputOf inst (inpOutput i)) n")
  have "add_input reg s b n = Inr (b2\<lparr>bIndex := (bIndex b2)(n \<mapsto> k)\<rparr>)"
    unfolding add_input_def m feed option.case sum.case Let_def f e n a prod.case by simp
  moreover have "built reg (sInputs s) (b2\<lparr>bIndex := (bIndex b2)(n \<mapsto> k)\<rparr>) n"
    using m sp spec by (simp add: built_def attach_keeps [OF a])
  moreover have "built reg (sInputs s) (b2\<lparr>bIndex := (bIndex b2)(n \<mapsto> k)\<rparr>) p" if "built reg (sInputs s) b p" for p
    using that m sp spec by (auto simp: built_def attach_keeps [OF a] split: option.splits)
  ultimately show ?thesis by blast
qed

lemma add_inputs_built:
  assumes ok: "inputs_ok reg (sInputs s)"
  shows "fed_before (spec_chains s) done ns \<Longrightarrow> set ns \<subseteq> fst ` set (sInputs s) \<Longrightarrow>
    (\<And>n. n \<in> done \<Longrightarrow> built reg (sInputs s) b n) \<Longrightarrow>
    \<exists>b'. add_inputs reg s b ns = Inr b' \<and> (\<forall>n \<in> done \<union> set ns. built reg (sInputs s) b' n)"
proof (induction ns arbitrary: "done" b)
  case (Cons n ns)
  obtain i where m: "map_of (sInputs s) n = Some i" using Cons.prems(2) by (cases "map_of (sInputs s) n") (auto simp: map_of_eq_None_iff)
  have "case map_of (spec_chains s) n of None \<Rightarrow> True | Some up \<Rightarrow> built reg (sInputs s) b up"
    using Cons.prems(1,3) by (auto split: option.splits)
  from add_input_built [OF ok m this] obtain b1 where b1: "add_input reg s b n = Inr b1" "built reg (sInputs s) b1 n"
    "\<And>m. built reg (sInputs s) b m \<Longrightarrow> built reg (sInputs s) b1 m" by blast
  have "\<exists>b'. add_inputs reg s b1 ns = Inr b' \<and> (\<forall>n \<in> insert n done \<union> set ns. built reg (sInputs s) b' n)"
    by (rule Cons.IH) (use Cons.prems b1 in auto)
  then show ?case using b1(1) by auto
qed simp

lemma compile_inputs_built:
  assumes ok: "inputs_ok reg (sInputs s)"
  shows "\<exists>b. compile_inputs reg s empty_builder = Inr b \<and> all_built reg (sInputs s) b"
proof -
  let ?names = "map fst (sInputs s)"
  have same: "spec_chains s = chains_of (sInputs s)" by (simp add: spec_chains_def chains_of_def)
  have sorted: "sort ?names = ?names" using ok by (simp add: inputs_ok_def sort_key_id_if_sorted strict_sorted_iff)
  have ends: "list_all (chain_ends (chains_of (sInputs s))) ?names"
    using find_cycle_exact [of "chains_of (sInputs s)" "[]" ?names] ok by (auto simp: inputs_ok_def findCycle_def split: list.splits)
  have up: "up \<in> set ?names" if u: "map_of (chains_of (sInputs s)) n = Some up" for n up
  proof -
    obtain i where i: "(n, i) \<in> set (sInputs s)" "inpSourced i" "field_of (inpSource i) = None" "up = inpSource i"
      using map_of_SomeD [OF u] by (auto simp: chains_of_def)
    then have "input_ok reg ?names n i" using ok by (auto simp: inputs_ok_def list_all_iff)
    then have "source_ok ?names n (inpSourced i) (inpSource i)" by (rule input_ok_source)
    then show ?thesis using i by (auto simp: source_ok_def)
  qed
  note o = order_inputs_fed [OF ends input_names_nonempty [OF ok] up]
  from add_inputs_built [OF ok, of "{}" "order_inputs ?names (chains_of (sInputs s))" empty_builder]
  obtain b where b: "add_inputs reg s empty_builder (order_inputs ?names (chains_of (sInputs s))) = Inr b"
    "\<forall>n \<in> set ?names. built reg (sInputs s) b n" using o by (auto simp: same)
  have "all_built reg (sInputs s) b" using b(2) by (force simp: all_built_def dest: map_of_SomeD)
  then show ?thesis using b(1) by (simp add: compile_inputs_def sorted same)
qed

end

lemma operand_line_built:
  assumes "all_built reg inputs b" "operand_ok reg inputs x" "oKind x = OperandInput"
  shows "\<exists>b' k. operand_line b x = Inr (b', k) \<and> all_built reg inputs b'"
proof -
  obtain i where i: "map_of inputs (oInput x) = Some i" and out: "oOutput x = [] \<or>
      (\<exists>s. Lookup reg (inpIndicator i) = Some s \<and> oOutput x \<in> set (spOutputs s))"
    using assms(2,3) by (auto simp: operand_ok_def split: option.splits)
  then have "built reg inputs b (oInput x)" using assms(1) by (auto simp: all_built_def)
  then obtain k h where h: "bIndex b (oInput x) = Some k" "bBuilt b (oInput x) = Some h"
    "Lookup reg (inpIndicator i) = Some (inSpec (hdInstance h))"
    using i by (auto simp: built_def split: option.splits)
  show ?thesis
  proof (cases "oOutput x = []")
    case True
    then show ?thesis using h assms(1) by (simp add: operand_line_def)
  next
    case False
    obtain b' k' where a: "attach b (hdInstance h) (hdFeed h) (outputOf (hdInstance h) (oOutput x)) (operand_ref x) = (b', k')"
      by (cases "attach b (hdInstance h) (hdFeed h) (outputOf (hdInstance h) (oOutput x)) (operand_ref x)")
    have "oOutput x \<in> set (spOutputs (inSpec (hdInstance h)))" using False out h(3) by auto
    then show ?thesis using False h a assms(1) all_built_attach [OF a] by (simp add: operand_line_def)
  qed
qed

lemma build_terms_built:
  "list_all (operand_ok reg inputs) xs \<Longrightarrow> all_built reg inputs b \<Longrightarrow>
    \<exists>b' ts. build_terms b xs = Inr (b', ts) \<and> all_built reg inputs b'"
proof (induction xs arbitrary: b)
  case (Cons x xs)
  show ?case
  proof (cases "oKind x = OperandInput")
    case True
    then obtain b1 k where "operand_line b x = Inr (b1, k)" "all_built reg inputs b1"
      using operand_line_built Cons.prems by fastforce
    with Cons.IH [of b1] Cons.prems(1) True show ?thesis by (fastforce simp: Let_def)
  next
    case False
    with Cons.IH [of b] Cons.prems show ?thesis by (fastforce simp: Let_def)
  qed
qed simp

lemma build_compare_built:
  assumes "compare_ok reg inputs op xs" "all_built reg inputs b"
  shows "\<exists>b' r. build_compare b op xs = Inr (b', r) \<and> all_built reg inputs b'"
proof -
  let ?xs = "if op = OpRising \<or> op = OpFalling then take 1 xs else xs"
  have "list_all (operand_ok reg inputs) ?xs"
    using assms(1) by (auto simp: compare_ok_def list_all_iff dest: in_set_takeD)
  from build_terms_built [OF this assms(2)] obtain b' ts where "build_terms b ?xs = Inr (b', ts)" "all_built reg inputs b'" by blast
  then show ?thesis by (simp add: build_compare_def Let_def)
qed

lemma build_rule_built:
  "node_wf reg inputs False n \<Longrightarrow> all_built reg inputs b \<Longrightarrow> \<exists>b' r. build_rule b n = Inr (b', r) \<and> all_built reg inputs b'"
  and build_rules_built:
  "list_all (node_wf reg inputs False) ns \<Longrightarrow> all_built reg inputs b \<Longrightarrow>
    \<exists>b' rs. build_rules b ns = Inr (b', rs) \<and> all_built reg inputs b'"
proof (induction b n and b ns rule: build_rule_build_rules.induct)
  case (1 b ns)
  then show ?case by fastforce
next
  case (2 b ns)
  then show ?case by fastforce
next
  case (3 b n)
  then show ?case by fastforce
next
  case (4 b op xs)
  then show ?case using build_compare_built by simp
next
  case (8 b n ns)
  then obtain b1 r where 1: "build_rule b n = Inr (b1, r)" "all_built reg inputs b1" by auto
  then obtain b2 rs where "build_rules b1 ns = Inr (b2, rs)" "all_built reg inputs b2"
    using "8.IH"(2) [OF 1(1) refl] "8.prems" by auto
  then show ?case using 1 by simp
qed simp_all

context catalogue
begin

lemma build_bracket_built:
  assumes "level_ok reg l" "all_built reg inputs b"
  shows "\<exists>b' k. build_bracket reg b l = Inr (b', k) \<and> all_built reg inputs b'"
proof (cases "lType l = LevelATR")
  case True
  let ?vs = "[(''period'', float_of_int (lPeriod l))]"
  obtain s q where s: "Lookup reg ''atr'' = Some s" "spParams s = [q]" "pmName q = ''period''" "\<And>p. spValidate s p = None"
    using atr_known by blast
  have w: "whole32 (lPeriod l)" "atr_period_ok reg (lPeriod l)" using assms(1) True by (simp_all add: level_ok_def)
  have f: "\<bar>lPeriod l\<bar> \<le> 2 ^ 53" using w(1) by (simp add: whole32_def)
  have "feq (float_of_int (lPeriod l)) (float_of_int (lPeriod l))"
    by (simp add: float_of_int_small [OF f] feq_def less_eq_f64_def)
  then have "pval_ok q (pval ?vs q)"
    using w(2) s by (simp add: pval_ok_def pval_def atr_period_ok_def ATRIndicator_def go_int_float [OF f])
  then have "resolve s ?vs None = Inr (resolved s ?vs SourceClose)"
    unfolding resolve_iff using s by (simp add: source_for_def)
  then obtain inst where n: "New reg ''atr'' ?vs None = Inr inst" using s(1) by (auto simp: New_def)
  obtain b' k where a: "attach b inst (- 1) 0 ''atr'' = (b', k)" by (cases "attach b inst (- 1) 0 ''atr''")
  show ?thesis using True n a assms(2) all_built_attach [OF a] by (simp add: build_bracket_def)
next
  case False
  then show ?thesis using assms(2) by (simp add: build_bracket_def)
qed

lemma hoist_built:
  "R = reg \<Longrightarrow> node_wf reg inputs brackets n \<Longrightarrow> all_built reg inputs b \<Longrightarrow>
    \<exists>b' lg' left. hoist R b lg n = Inr (b', lg', left) \<and> all_built reg inputs b' \<and> pred_option (node_wf reg inputs False) left"
  and hoist_list_built:
  "R = reg \<Longrightarrow> list_all (node_wf reg inputs brackets) ns \<Longrightarrow> all_built reg inputs b \<Longrightarrow>
    \<exists>b' lg' kept. hoist_list R b lg ns = Inr (b', lg', kept) \<and> all_built reg inputs b' \<and> list_all (node_wf reg inputs False) kept"
proof (induction R b lg n and R b lg ns rule: hoist_hoist_list.induct)
  case (1 R b lg l)
  then obtain b' k where "build_bracket R b l = Inr (b', k)" "all_built reg inputs b'"
    using build_bracket_built by fastforce
  then show ?case by simp
next
  case (2 R b lg l)
  then obtain b' k where "build_bracket R b l = Inr (b', k)" "all_built reg inputs b'"
    using build_bracket_built by fastforce
  then show ?case by simp
next
  case (3 R b lg ns)
  then obtain b' lg' kept where k: "hoist_list R b lg ns = Inr (b', lg', kept)" "all_built reg inputs b'"
    "list_all (node_wf reg inputs False) kept" by auto
  then show ?case by (cases kept rule: remdups_adj.cases) auto
next
  case (6 R b lg n ns)
  then obtain b1 lg1 left where 1: "hoist R b lg n = Inr (b1, lg1, left)" "all_built reg inputs b1"
    "pred_option (node_wf reg inputs False) left" by auto
  then obtain b2 lg2 kept where 2: "hoist_list R b1 lg1 ns = Inr (b2, lg2, kept)" "all_built reg inputs b2"
    "list_all (node_wf reg inputs False) kept"
    using "6.IH"(2) [OF 1(1) refl refl] "6.prems" by auto
  then show ?case using 1 by (cases left) auto
qed auto

lemma build_leg_built:
  assumes en: "leg_opt_ok reg inputs False entry" and ex: "leg_opt_ok reg inputs True exit" and b: "all_built reg inputs b"
  shows "\<exists>b' lg. build_leg reg b entry exit = Inr (b', lg) \<and> all_built reg inputs b'"
proof (cases entry)
  case None
  then show ?thesis using b by (simp add: build_leg_def)
next
  case (Some n)
  then obtain b1 r where 1: "build_rule b n = Inr (b1, r)" "all_built reg inputs b1"
    using build_rule_built [of reg inputs n b] en b by (auto simp: leg_opt_ok_def leg_ok_def)
  show ?thesis
  proof (cases exit)
    case None
    then show ?thesis using Some 1 by (simp add: build_leg_def Let_def)
  next
    case x: (Some m)
    then obtain b2 lg left where 2: "hoist reg b1 (empty_leg\<lparr>lgEntry := Some r\<rparr>) m = Inr (b2, lg, left)" "all_built reg inputs b2"
      "pred_option (node_wf reg inputs False) left"
      using hoist_built [OF refl _ 1(2), of True m "empty_leg\<lparr>lgEntry := Some r\<rparr>"] ex x by (auto simp: leg_opt_ok_def leg_ok_def)
    show ?thesis
    proof (cases left)
      case None
      then show ?thesis using Some x 1 2 by (simp add: build_leg_def Let_def)
    next
      case (Some res)
      then obtain b3 r1 where "build_rule b2 res = Inr (b3, r1)" "all_built reg inputs b3"
        using build_rule_built [of reg inputs res b2] 2 by auto
      then show ?thesis using \<open>entry = Some n\<close> x 1 2 Some by (simp add: build_leg_def Let_def)
    qed
  qed
qed

lemma exit_leg_ok:
  "exit_ok reg inputs entry x \<Longrightarrow> leg_opt_ok reg inputs True (exitOf x short)"
  by (auto simp: exit_ok_def exitOf_def side_ok_def leg_opt_ok_def split: option.splits)

lemma wellformed_compiles:
  assumes "spec_wf reg s"
  shows "\<exists>p. Compile reg s = Inr p"
proof -
  have ok: "inputs_ok reg (sInputs s)" and e: "side_ok reg (sInputs s) False (sEntry s)" and x: "exit_ok reg (sInputs s) (sEntry s) (sExit s)"
    using assms by (simp_all add: spec_wf_def)
  obtain b where b: "compile_inputs reg s empty_builder = Inr b" "all_built reg (sInputs s) b"
    using compile_inputs_built [OF ok] by blast
  obtain b1 long where l: "build_leg reg b (sdLong (sEntry s)) (exitOf (sExit s) False) = Inr (b1, long)" "all_built reg (sInputs s) b1"
    using build_leg_built [OF _ exit_leg_ok [OF x, of False] b(2), of "sdLong (sEntry s)"] e unfolding side_ok_def by blast
  obtain b2 short where r: "build_leg reg b1 (sdShort (sEntry s)) (exitOf (sExit s) True) = Inr (b2, short)"
    using build_leg_built [OF _ exit_leg_ok [OF x, of True] l(2), of "sdShort (sEntry s)"] e unfolding side_ok_def by blast
  show ?thesis using b(1) l(1) r by (simp add: Compile_def)
qed

end

text \<open>C24: whatever the parser accepts, the compiler accepts: no strategy that was stored fails to compile
  when a back-test starts.\<close>

theorem parsed_strategy_compiles:
  "case Parse (registry math_Log) decoded of
     Inl _ \<Rightarrow> True
   | Inr s \<Rightarrow> (case Compile (registry math_Log) s of Inl _ \<Rightarrow> False | Inr _ \<Rightarrow> True)"
proof (cases "Parse (registry math_Log) decoded")
  case (Inr s)
  then obtain v where "parse_spec (registry math_Log) v = Inr s" by (cases decoded) (auto simp: Parse_def fault_at_def)
  from indicators.wellformed_compiles [OF indicators.parse_spec_wf [OF this]] show ?thesis using Inr by auto
qed simp

end
