(* ===== verification/Sweep.thy ===== *)
theory Sweep
  imports Parsed_Plans Calendar
begin

text \<open>
  Parameter sweeps (internal/sweep/sweep.go, axis.go and folds.go): the axes of a request, the points of
  their grid, each the base strategy with the swept numbers set and parsed again, and the folds of a
  walk-forward sweep. The base strategy is the value its JSON text decodes to; encoding a value that holds
  an infinity fails. Equal floats that differ as \<open>0\<close> and \<open>-0\<close> are sorted in a stable way.
\<close>

definition MaxAxes :: nat where "MaxAxes = 3"
definition MaxValues :: nat where "MaxValues = 40"
definition MaxPoints :: nat where "MaxPoints = 200"
definition MaxRuns :: nat where "MaxRuns = 400"
definition MaxFolds :: nat where "MaxFolds = 12"
definition MinFoldDays :: int where "MinFoldDays = 5"

section \<open>Kinds and objectives\<close>

definition KindGrid :: string where "KindGrid = ''grid''"
definition KindWalkForward :: string where "KindWalkForward = ''walk_forward''"

definition sweep_Kinds :: "string list" where "sweep_Kinds = [KindGrid, KindWalkForward]"

definition objectives :: "(string \<times> objective) list" where
  "objectives =
     [(''return_pct'', ObjectiveReturn), (''cagr_pct'', ObjectiveCAGR), (''sharpe'', ObjectiveSharpe), (''sortino'', ObjectiveSortino),
      (''calmar'', ObjectiveCalmar), (''profit_factor'', ObjectiveProfitFactor), (''expectancy_cents'', ObjectiveExpectancy)]"

definition DefaultObjective :: string where "DefaultObjective = ''sharpe''"

text \<open>\<open>None\<close> is the error.\<close>

definition sweep_ParseKind :: "string \<Rightarrow> string option" where
  "sweep_ParseKind t = (let kind = clean t in if kind = [] then Some KindGrid else if kind \<notin> set sweep_Kinds then None else Some kind)"

definition ParseObjective :: "string \<Rightarrow> string option" where
  "ParseObjective t =
     (let obj = clean t in if obj = [] then Some DefaultObjective else if obj \<notin> fst ` set objectives then None else Some obj)"

section \<open>Axes\<close>

record axis =
  axPath :: string
  axValues :: "f64 list"

record axis_request =
  aqPath :: string
  aqFrom :: "f64 option"
  aqTo :: "f64 option"
  aqStep :: "f64 option"
  aqValues :: "f64 list"

datatype axis_fault =
    NoSlash
  | EmptyStep string
  | NotSweepable string
  | NeedsRange
  | StepNotPositive f64
  | ToBelowFrom f64 f64
  | TooManySteps int
  | NoValues
  | TooManyValues nat

datatype sweep_error =
    NoAxes
  | TooManyAxes nat
  | AxisFault nat axis_fault
  | SweptTwice nat string
  | PathFault axis_fault
  | BaseNotDecoded
  | NoSuchStep string string
  | StepNotObject string string
  | StepNotNumber string string
  | NotEncodable
  | BadPoint fault
  | GridTooLarge nat

fun read_tokens :: "string \<Rightarrow> string list \<Rightarrow> axis_fault + string list" where
  "read_tokens path [] = Inr []"
| "read_tokens path (t # ts) =
     (if t = [] then Inl (EmptyStep path)
      else and_then (read_tokens path ts) (\<lambda>rest.
             Inr (replace_pair (CHR ''~'') (CHR ''0'') (CHR ''~'') (replace_pair (CHR ''~'') (CHR ''1'') (CHR ''/'') t) # rest)))"

definition tokensOf :: "string \<Rightarrow> axis_fault + string list" where
  "tokensOf path =
     (case path of
        [] \<Rightarrow> Inl NoSlash
      | c # rest \<Rightarrow> if c \<noteq> CHR ''/'' then Inl NoSlash else read_tokens path (split_on (CHR ''/'') rest))"

definition usablePath :: "string \<Rightarrow> axis_fault + unit" where
  "usablePath path =
     and_then (tokensOf path) (\<lambda>tokens.
       if length tokens = 4 \<and> tokens ! 0 = ''inputs'' \<and> tokens ! 2 = ''params'' then Inr ()
       else if length tokens = 2 \<and> tokens ! 0 = ''sizing'' \<and> tokens ! 1 = ''value'' then Inr ()
       else if length tokens = 2 \<and> tokens ! 0 = ''costs'' then Inr ()
       else Inl (NotSweepable path))"

text \<open>\<open>round\<close>: to six decimals.\<close>

definition round6 :: "f64 \<Rightarrow> f64" where
  "round6 v = math_Round (v * Fin 1000000) / Fin 1000000"

definition valueEpsilon :: f64 where "valueEpsilon = rnd (1 / 1000000000)"

text \<open>\<open>slices.Sort\<close> on floats, a NaN before every number, and \<open>slices.Compact\<close>.\<close>

definition float_before :: "f64 \<Rightarrow> f64 \<Rightarrow> bool" where
  "float_before x y \<longleftrightarrow> x < y \<or> x = NaN \<and> y \<noteq> NaN"

fun insert_float :: "f64 \<Rightarrow> f64 list \<Rightarrow> f64 list" where
  "insert_float x [] = [x]"
| "insert_float x (y # ys) = (if float_before y x then y # insert_float x ys else x # y # ys)"

definition sort_floats :: "f64 list \<Rightarrow> f64 list" where
  "sort_floats xs = foldr insert_float xs []"

fun compact :: "f64 list \<Rightarrow> f64 list" where
  "compact (x # y # zs) = (if feq x y then compact (x # zs) else x # compact (y # zs))"
| "compact xs = xs"

text \<open>The values an axis request spells out, or the steps of its range.\<close>

definition range_values :: "axis_request \<Rightarrow> axis_fault + f64 list" where
  "range_values req =
     (case (aqFrom req, aqTo req, aqStep req) of
        (Some from_v, Some to_v, Some step) \<Rightarrow>
          if step \<le> 0 then Inl (StepNotPositive step)
          else if to_v < from_v then Inl (ToBelowFrom to_v from_v)
          else
            (let count = go_int (math_Floor ((to_v - from_v) / step + valueEpsilon)) + 1
             in if count > int MaxValues then Inl (TooManySteps count)
                else Inr (map (\<lambda>i. round6 (from_v + float_of_int (int i) * step)) [0..<nat count]))
      | _ \<Rightarrow> Inl NeedsRange)"

definition readAxisValues :: "axis_request \<Rightarrow> axis_fault + f64 list" where
  "readAxisValues req =
     and_then (if aqValues req = [] then range_values req else Inr (aqValues req)) (\<lambda>given.
       (let vs = compact (sort_floats (map round6 given))
        in if vs = [] then Inl NoValues else if length vs > MaxValues then Inl (TooManyValues (length vs)) else Inr vs))"

fun read_axes :: "nat \<Rightarrow> string list \<Rightarrow> axis_request list \<Rightarrow> sweep_error + axis list" where
  "read_axes i seen [] = Inr []"
| "read_axes i seen (req # reqs) =
     (let path = trim_space (aqPath req)
      in case usablePath path of
           Inl e \<Rightarrow> Inl (AxisFault i e)
         | Inr _ \<Rightarrow>
             if path \<in> set seen then Inl (SweptTwice i path)
             else
               (case readAxisValues req of
                  Inl e \<Rightarrow> Inl (AxisFault i e)
                | Inr vs \<Rightarrow> and_then (read_axes (i + 1) (path # seen) reqs) (\<lambda>axes. Inr (\<lparr>axPath = path, axValues = vs\<rparr> # axes))))"

definition ReadAxes :: "axis_request list \<Rightarrow> sweep_error + axis list" where
  "ReadAxes reqs =
     (if reqs = [] then Inl NoAxes
      else if length reqs > MaxAxes then Inl (TooManyAxes (length reqs))
      else read_axes 0 [] reqs)"

section \<open>Points\<close>

text \<open>\<open>setAt\<close>: the number at a path, which has to be there.\<close>

fun set_in :: "string \<Rightarrow> string list \<Rightarrow> f64 \<Rightarrow> (string \<times> json) list \<Rightarrow> sweep_error + (string \<times> json) list" where
  "set_in path [] value body = Inr body"
| "set_in path [leaf] value body =
     (case map_of body leaf of
        None \<Rightarrow> Inl (NoSuchStep path leaf)
      | Some (JNum x) \<Rightarrow> Inr (AList.update leaf (JNum value) body)
      | Some _ \<Rightarrow> Inl (StepNotNumber path leaf))"
| "set_in path (token # tokens) value body =
     (case map_of body token of
        None \<Rightarrow> Inl (NoSuchStep path token)
      | Some (JObj inner) \<Rightarrow> and_then (set_in path tokens value inner) (\<lambda>inner'. Inr (AList.update token (JObj inner') body))
      | Some _ \<Rightarrow> Inl (StepNotObject path token))"

definition setAt :: "(string \<times> json) list \<Rightarrow> string \<Rightarrow> f64 \<Rightarrow> sweep_error + (string \<times> json) list" where
  "setAt body path value =
     (case tokensOf path of Inl e \<Rightarrow> Inl (PathFault e) | Inr tokens \<Rightarrow> set_in path tokens value body)"

fun set_all :: "(string \<times> json) list \<Rightarrow> (string \<times> f64) list \<Rightarrow> string list \<Rightarrow> sweep_error + (string \<times> json) list" where
  "set_all body vals [] = Inr body"
| "set_all body vals (path # paths) =
     and_then (setAt body path (case map_of vals path of None \<Rightarrow> 0 | Some x \<Rightarrow> x)) (\<lambda>body'. set_all body' vals paths)"

text \<open>\<open>json.Marshal\<close> refuses what is not a finite number.\<close>

fun encodable :: "json \<Rightarrow> bool" where
  "encodable (JNum x) \<longleftrightarrow> is_fin x"
| "encodable (JArr vs) \<longleftrightarrow> list_all encodable vs"
| "encodable (JObj body) \<longleftrightarrow> list_all (\<lambda>(k, v). encodable v) body"
| "encodable v \<longleftrightarrow> True"

text \<open>A base that is null decodes to an empty map.\<close>

definition Apply :: "spec list \<Rightarrow> json \<Rightarrow> (string \<times> f64) list \<Rightarrow> sweep_error + json" where
  "Apply reg base vals =
     (let run = (\<lambda>body. and_then (set_all body vals (sortedKeys vals)) (\<lambda>body'.
                  if \<not> encodable (JObj body') then Inl NotEncodable
                  else (case Parse reg (Some (if base = JNull then JNull else JObj body')) of
                          Inl flt \<Rightarrow> Inl (BadPoint flt)
                        | Inr s \<Rightarrow> if encodable (marshal_spec s) then Inr (marshal_spec s) else Inl NotEncodable)))
      in case base of JObj body \<Rightarrow> run body | JNull \<Rightarrow> run [] | _ \<Rightarrow> Inl BaseNotDecoded)"

record point =
  ptIndex :: nat
  ptValues :: "(string \<times> f64) list"
  ptSpec :: json

fun grid_total :: "nat \<Rightarrow> axis list \<Rightarrow> sweep_error + nat" where
  "grid_total n [] = Inr n"
| "grid_total n (a # axes) =
     (let tot = n * length (axValues a)
      in if tot > MaxPoints then Inl (GridTooLarge tot) else grid_total tot axes)"

text \<open>The values at a cursor, and the cursor's step: the last axis first, carrying over to the one before.\<close>

fun values_at :: "axis list \<Rightarrow> nat list \<Rightarrow> (string \<times> f64) list \<Rightarrow> (string \<times> f64) list" where
  "values_at (a # axes) (k # ks) acc = values_at axes ks (AList.update (axPath a) (axValues a ! k) acc)"
| "values_at axes ks acc = acc"

fun bump :: "nat list \<Rightarrow> nat list \<Rightarrow> nat list \<times> bool" where
  "bump (n # ns) (k # ks) =
     (let (ks', carry) = bump ns ks
      in if \<not> carry then (k # ks', False)
         else if k + 1 < n then ((k + 1) # ks', False) else (0 # ks', True))"
| "bump ns ks = ([], True)"

text \<open>How many values each axis has.\<close>

definition axis_sizes :: "axis list \<Rightarrow> nat list" where
  "axis_sizes axes = map (\<lambda>a. length (axValues a)) axes"

fun grid_points :: "spec list \<Rightarrow> json \<Rightarrow> axis list \<Rightarrow> nat list \<Rightarrow> nat \<Rightarrow> nat \<Rightarrow> sweep_error + point list" where
  "grid_points reg base axes cursor i 0 = Inr []"
| "grid_points reg base axes cursor i (Suc n) =
     (let vals = values_at axes cursor []
      in and_then (Apply reg base vals) (\<lambda>built.
         and_then (grid_points reg base axes (fst (bump (axis_sizes axes) cursor)) (i + 1) n) (\<lambda>rest.
           Inr (\<lparr>ptIndex = i, ptValues = vals, ptSpec = built\<rparr> # rest))))"

definition Grid :: "spec list \<Rightarrow> json \<Rightarrow> axis list \<Rightarrow> sweep_error + point list" where
  "Grid reg base axes =
     and_then (grid_total 1 axes) (\<lambda>n. grid_points reg base axes (replicate (length axes) 0) 0 n)"

section \<open>Folds\<close>

record sweep_fold =
  foNumber :: nat
  foInStart :: string
  foInEnd :: string
  foOutStart :: string
  foOutEnd :: string

datatype fold_error =
    FewInDays int
  | FewOutDays int
  | RangeTooShort int int
  | NoFoldFits

text \<open>The loop of \<open>Folds\<close>, with the number of folds that still fit under \<open>MaxFolds\<close>.\<close>

definition date_text :: "calendar \<Rightarrow> time \<Rightarrow> string" where
  "date_text c t = format_date (local_day (calLoc c) t)"

fun folds_from :: "calendar \<Rightarrow> time \<Rightarrow> time \<Rightarrow> int \<Rightarrow> int \<Rightarrow> nat \<Rightarrow> nat \<Rightarrow> sweep_fold list" where
  "folds_from c start fin in_days out_days i 0 = []"
| "folds_from c start fin in_days out_days i (Suc room) =
     (let in_start = add_days c (int i * out_days) start;
          in_end = add_days c (in_days - 1) in_start;
          out_start = add_days c 1 in_end;
          out_end = add_days c (out_days - 1) out_start
      in if out_end > fin then []
         else \<lparr>foNumber = i, foInStart = date_text c in_start, foInEnd = date_text c in_end,
                foOutStart = date_text c out_start, foOutEnd = date_text c out_end\<rparr>
              # folds_from c start fin in_days out_days (i + 1) room)"

text \<open>The days of the windows are 64-bit integers, whose sum may wrap.\<close>

definition day_span :: "time \<Rightarrow> time \<Rightarrow> int" where
  "day_span start fin = go_int (hours_of (time_sub fin start) / Fin 24) + 1"

definition Folds :: "calendar \<Rightarrow> time \<Rightarrow> time \<Rightarrow> i64 \<Rightarrow> i64 \<Rightarrow> fold_error + sweep_fold list" where
  "Folds c start fin in_days out_days =
     (if sint in_days < MinFoldDays then Inl (FewInDays (sint in_days))
      else if sint out_days < MinFoldDays then Inl (FewOutDays (sint out_days))
      else if day_span start fin < sint (in_days + out_days) then Inl (RangeTooShort (day_span start fin) (sint (in_days + out_days)))
      else
        (let folds = folds_from c start fin (sint in_days) (sint out_days) 0 MaxFolds
         in if folds = [] then Inl NoFoldFits else Inr folds))"

datatype phase = PhaseInSample | PhaseOutOfSample

definition date_in :: "calendar \<Rightarrow> string \<Rightarrow> time option" where
  "date_in c s = map_option (\<lambda>n. locInstant (calLoc c) (n * day_ns)) (parse_date s)"

definition fold_Window :: "calendar \<Rightarrow> sweep_fold \<Rightarrow> phase \<Rightarrow> (time \<times> time) option" where
  "fold_Window c f ph =
     (let (from_day, to_day) = (if ph = PhaseOutOfSample then (foOutStart f, foOutEnd f) else (foInStart f, foInEnd f))
      in case date_in c from_day of
           None \<Rightarrow> None
         | Some start \<Rightarrow> (case date_in c to_day of None \<Rightarrow> None | Some fin \<Rightarrow> Some (start, fin)))"


section \<open>The grid\<close>

text \<open>The digits of a point's number, in the numbers of values of the axes.\<close>

fun digits_at :: "nat list \<Rightarrow> nat \<Rightarrow> nat list" where
  "digits_at [] i = []"
| "digits_at (n # ns) i = (i div prod_list ns) # digits_at ns (i mod prod_list ns)"

lemma digits_at_0 [simp]: "digits_at ns 0 = replicate (length ns) 0"
  by (induction ns) auto

lemma bump_digits:
  "i < prod_list ns \<Longrightarrow> bump ns (digits_at ns i) = (digits_at ns (Suc i mod prod_list ns), Suc i = prod_list ns)"
proof (induction ns arbitrary: i)
  case (Cons n ns)
  let ?p = "prod_list ns"
  have p: "0 < ?p" using Cons.prems by (cases ?p) auto
  let ?a = "i div ?p" and ?b = "i mod ?p"
  have b: "?b < ?p" using p by simp
  have a: "?a < n" using Cons.prems p by (simp add: less_mult_imp_div_less)
  have i: "i = ?a * ?p + ?b" by simp
  note ih = Cons.IH [OF b]
  show ?case
  proof (cases "Suc ?b = ?p")
    case True
    then have si: "Suc i = Suc ?a * ?p" using i by (metis add.commute add_Suc_right mult_Suc)
    show ?thesis
    proof (cases "?a + 1 < n")
      case True
      then have "Suc ?a * ?p < n * ?p" using p by (intro mult_strict_right_mono) simp_all
      then have "Suc i < n * ?p" unfolding si .
      then have "Suc i mod (n * ?p) = Suc i" "Suc i \<noteq> n * ?p" by simp_all
      moreover have "Suc i div ?p = Suc ?a" "Suc i mod ?p = 0" unfolding si using p by simp_all
      ultimately show ?thesis using ih True \<open>Suc ?b = ?p\<close> by (simp add: Let_def)
    next
      case False
      then have "Suc ?a = n" using a by simp
      then show ?thesis using ih si \<open>Suc ?b = ?p\<close> by (simp add: Let_def)
    qed
  next
    case False
    then have sb: "Suc ?b < ?p" using b by simp
    have si: "Suc i = ?a * ?p + Suc ?b" using i by simp
    have "Suc ?a * ?p \<le> n * ?p" using a by (intro mult_le_mono1) simp
    then have lt: "Suc i < n * ?p" using si sb by (simp only: mult_Suc)
    have "Suc i div ?p = ?a" "Suc i mod ?p = Suc ?b" using False by (simp_all add: div_Suc mod_Suc)
    then show ?thesis using ih False lt sb by (simp add: Let_def)
  qed
qed simp

lemma concat_nth:
  assumes "\<And>x. x \<in> set xs \<Longrightarrow> length (f x) = p"
  shows "i < length xs * p \<Longrightarrow> concat (map f xs) ! i = f (xs ! (i div p)) ! (i mod p)"
  using assms
proof (induction xs arbitrary: i)
  case (Cons x xs)
  have l: "length (f x) = p" by (rule Cons.prems(2)) simp
  show ?case
  proof (cases "i < p")
    case False
    then have "concat (map f xs) ! (i - p) = f (xs ! ((i - p) div p)) ! ((i - p) mod p)"
      using Cons.prems by (intro Cons.IH) auto
    moreover have "0 < p" using False Cons.prems(1) by (cases p) auto
    then have "i div p = Suc ((i - p) div p)" "i mod p = (i - p) mod p"
      using False by (simp_all add: le_div_geq le_mod_geq)
    ultimately show ?thesis using False l by (simp add: nth_append)
  qed (simp add: nth_append l)
qed simp

lemma product_lists_nth:
  "i < prod_list (map length xss) \<Longrightarrow> product_lists xss ! i = map2 (!) xss (digits_at (map length xss) i)"
proof (induction xss arbitrary: i)
  case (Cons xs xss)
  let ?p = "prod_list (map length xss)"
  have p: "0 < ?p" using Cons.prems by (cases ?p) auto
  have l: "length (product_lists xss) = ?p" by (simp add: length_product_lists prod_list.eq_foldr)
  have "product_lists (xs # xss) ! i = map ((#) (xs ! (i div ?p))) (product_lists xss) ! (i mod ?p)"
    unfolding product_lists.simps using Cons.prems l by (subst concat_nth [where p = ?p]) auto
  also have "\<dots> = xs ! (i div ?p) # map2 (!) xss (digits_at (map length xss) (i mod ?p))"
    using Cons.IH [of "i mod ?p"] p l by simp
  finally show ?case by simp
qed simp

lemma values_at_zip:
  "length ks = length axes \<Longrightarrow> distinct (map fst acc @ map axPath axes) \<Longrightarrow>
    values_at axes ks acc = acc @ zip (map axPath axes) (map2 (!) (map axValues axes) ks)"
proof (induction axes ks acc rule: values_at.induct)
  case (1 a axes k ks acc)
  then have "AList.update (axPath a) (axValues a ! k) acc = acc @ [(axPath a, axValues a ! k)]"
    by (intro update_fresh) (auto simp: image_iff)
  then show ?case using 1 by auto
qed auto

lemma length_digits [simp]: "length (digits_at ns i) = length ns"
  by (induction ns arbitrary: i) auto

lemma length_sizes [simp]: "length (axis_sizes axes) = length axes"
  by (simp add: axis_sizes_def)

lemma grid_points_Inr:
  "grid_points reg base axes (digits_at (axis_sizes axes) i) i n = Inr pts \<Longrightarrow> i + n \<le> prod_list (axis_sizes axes) \<Longrightarrow>
    map ptIndex pts = [i..<i + n] \<and>
    map ptValues pts = map (\<lambda>j. values_at axes (digits_at (axis_sizes axes) j) []) [i..<i + n] \<and>
    list_all (\<lambda>p. Apply reg base (ptValues p) = Inr (ptSpec p)) pts"
proof (induction n arbitrary: i pts)
  case (Suc n)
  have i: "i < prod_list (axis_sizes axes)" using Suc.prems(2) by linarith
  let ?v = "values_at axes (digits_at (axis_sizes axes) i) []"
  obtain res rest where b: "Apply reg base ?v = Inr res"
    and r: "grid_points reg base axes (digits_at (axis_sizes axes) (Suc i mod prod_list (axis_sizes axes))) (Suc i) n = Inr rest"
    and p: "pts = \<lparr>ptIndex = i, ptValues = ?v, ptSpec = res\<rparr> # rest"
    using Suc.prems(1) bump_digits [OF i] by (auto simp: and_then_Inr Let_def)
  have "grid_points reg base axes (digits_at (axis_sizes axes) (Suc i)) (Suc i) n = Inr rest"
  proof (cases n)
    case 0
    then show ?thesis using r by simp
  next
    case (Suc m)
    then have "Suc i mod prod_list (axis_sizes axes) = Suc i" using Suc.prems(2) by (intro mod_less) linarith
    then show ?thesis using r by simp
  qed
  then have "map ptIndex rest = [Suc i..<Suc i + n] \<and>
    map ptValues rest = map (\<lambda>j. values_at axes (digits_at (axis_sizes axes) j) []) [Suc i..<Suc i + n] \<and>
    list_all (\<lambda>p. Apply reg base (ptValues p) = Inr (ptSpec p)) rest"
    using Suc.prems(2) by (intro Suc.IH) (assumption, linarith)
  moreover have "[i..<i + Suc n] = i # [Suc i..<Suc i + n]" by (simp add: upt_conv_Cons del: upt_Suc)
  ultimately show ?case using b p by (simp del: upt_Suc)
qed simp

lemma grid_total_Inr:
  "grid_total k axes = Inr n \<Longrightarrow> k \<le> MaxPoints \<Longrightarrow> n = k * prod_list (axis_sizes axes) \<and> n \<le> MaxPoints"
  by (induction k axes rule: grid_total.induct) (auto simp: Let_def not_less axis_sizes_def split: if_splits)

lemma read_axes_paths:
  "read_axes i seen reqs = Inr axes \<Longrightarrow> distinct (map axPath axes) \<and> set (map axPath axes) \<inter> set seen = {} \<and>
    length axes = length reqs \<and>
    list_all (\<lambda>a. usablePath (axPath a) = Inr () \<and> axValues a \<noteq> [] \<and> length (axValues a) \<le> MaxValues) axes"
proof (induction reqs arbitrary: i seen axes)
  case (Cons req reqs)
  let ?path = "trim_space (aqPath req)"
  obtain vs rest where u: "usablePath ?path = Inr ()" and n: "?path \<notin> set seen" and v: "readAxisValues req = Inr vs"
    and r: "read_axes (i + 1) (?path # seen) reqs = Inr rest" and a: "axes = \<lparr>axPath = ?path, axValues = vs\<rparr> # rest"
    using Cons.prems by (auto simp: Let_def and_then_Inr split: sum.splits if_splits)
  have "vs \<noteq> [] \<and> length vs \<le> MaxValues"
    using v by (auto simp: readAxisValues_def and_then_Inr Let_def split: if_splits)
  then show ?case using Cons.IH [OF r] u n a by auto
qed simp

lemma apply_parsed: "Apply reg base vals = Inr res \<Longrightarrow> \<exists>s v. Parse reg (Some v) = Inr s \<and> res = marshal_spec s"
  by (auto simp: Apply_def Let_def and_then_Inr split: json.splits if_splits sum.splits)

text \<open>C25: A grid enumerates its points like an odometer: the points carry the numbers from 0 on, their values are the
  Cartesian product of the axes with the first axis varying slowest, at most \<open>MaxPoints\<close> of them, and the
  strategy of each is the base with those values set, which the parser accepts and reads back.\<close>

theorem grid_enumerates:
  "case ReadAxes reqs of
     Inl _ \<Rightarrow> True
   | Inr axes \<Rightarrow>
       (case Grid (registry math_Log) base axes of
          Inl _ \<Rightarrow> True
        | Inr pts \<Rightarrow>
            length pts \<le> MaxPoints \<and> map ptIndex pts = [0..<length pts] \<and>
            map ptValues pts = map (zip (map axPath axes)) (product_lists (map axValues axes)) \<and>
            list_all (\<lambda>p. Apply (registry math_Log) base (ptValues p) = Inr (ptSpec p) \<and>
              (case Parse (registry math_Log) (Some (ptSpec p)) of Inl _ \<Rightarrow> False | Inr s \<Rightarrow> marshal_spec s = ptSpec p)) pts)"
proof (cases "ReadAxes reqs")
  case (Inr axes)
  then have d: "distinct (map axPath axes)" using read_axes_paths [of 0 "[]" reqs axes] by (simp add: ReadAxes_def split: if_splits)
  show ?thesis
  proof (cases "Grid (registry math_Log) base axes")
    case g: (Inr pts)
    let ?reg = "registry math_Log" and ?n = "prod_list (axis_sizes axes)"
    obtain n where t: "grid_total 1 axes = Inr n" and p: "grid_points ?reg base axes (replicate (length axes) 0) 0 n = Inr pts"
      using g by (auto simp: Grid_def and_then_Inr)
    have n: "n = ?n" "n \<le> MaxPoints" using grid_total_Inr [OF t] by (simp_all add: MaxPoints_def)
    have q: "map ptIndex pts = [0..<n]" "map ptValues pts = map (\<lambda>j. values_at axes (digits_at (axis_sizes axes) j) []) [0..<n]"
      "list_all (\<lambda>p. Apply ?reg base (ptValues p) = Inr (ptSpec p)) pts"
      using grid_points_Inr [of ?reg base axes 0 n pts] p n(1) by simp_all
    have len: "length pts = n" using q(1) by (metis length_map length_upt minus_nat.diff_0)
    have pl: "length (product_lists (map axValues axes)) = n" by (simp add: length_product_lists n(1) prod_list.eq_foldr comp_def axis_sizes_def)
    have "map (\<lambda>j. values_at axes (digits_at (axis_sizes axes) j) []) [0..<n] =
        map (zip (map axPath axes)) (product_lists (map axValues axes))"
    proof (rule nth_equalityI)
      fix j assume "j < length (map (\<lambda>j. values_at axes (digits_at (axis_sizes axes) j) []) [0..<n])"
      then have j: "j < n" by simp
      have "product_lists (map axValues axes) ! j = map2 (!) (map axValues axes) (digits_at (axis_sizes axes) j)"
        using product_lists_nth [of j "map axValues axes"] j n(1) by (simp add: comp_def axis_sizes_def)
      then show "map (\<lambda>j. values_at axes (digits_at (axis_sizes axes) j) []) [0..<n] ! j =
          map (zip (map axPath axes)) (product_lists (map axValues axes)) ! j"
        using j pl d by (simp add: values_at_zip)
    qed (simp add: pl)
    moreover have "list_all (\<lambda>p. Apply ?reg base (ptValues p) = Inr (ptSpec p) \<and>
        (case Parse ?reg (Some (ptSpec p)) of Inl _ \<Rightarrow> False | Inr s \<Rightarrow> marshal_spec s = ptSpec p)) pts"
      using q(3)
    proof (rule list.pred_mono_strong)
      fix p assume a: "Apply ?reg base (ptValues p) = Inr (ptSpec p)"
      from apply_parsed [OF a] obtain s v where "Parse ?reg (Some v) = Inr s" "ptSpec p = marshal_spec s" by blast
      then show "Apply ?reg base (ptValues p) = Inr (ptSpec p) \<and>
          (case Parse ?reg (Some (ptSpec p)) of Inl _ \<Rightarrow> False | Inr s \<Rightarrow> marshal_spec s = ptSpec p)"
        using a indicators.parse_spec_back [OF indicators.parse_spec_wf [of math_Log v s]] by (simp add: Parse_def)
    qed
    ultimately show ?thesis using Inr g q(1,2) len n(2) by simp
  qed (use Inr in simp)
qed simp

section \<open>The values of an axis\<close>

lemma go_before_NaN [simp]: "x \<noteq> NaN \<Longrightarrow> y \<noteq> NaN \<Longrightarrow> float_before x y \<longleftrightarrow> x < y"
  by (simp add: float_before_def)

lemma f64_lt_trans: "x < y \<Longrightarrow> y < z \<Longrightarrow> x < (z :: f64)"
  by (cases x; cases y; cases z) (auto simp: less_f64_def)

lemma f64_lt_le: "x < y \<Longrightarrow> \<not> z < y \<Longrightarrow> z \<noteq> NaN \<Longrightarrow> x < (z :: f64)"
  by (cases x; cases y; cases z) (auto simp: less_f64_def)

lemma f64_feq_lt: "feq x y \<Longrightarrow> y < z \<longleftrightarrow> x < (z :: f64)"
  by (cases x; cases y; cases z) (auto simp: less_f64_def feq_def less_eq_f64_def)

lemma f64_total: "x \<noteq> NaN \<Longrightarrow> y \<noteq> NaN \<Longrightarrow> \<not> feq x y \<Longrightarrow> \<not> y < x \<Longrightarrow> x < (y :: f64)"
  by (cases x; cases y) (auto simp: less_f64_def feq_def less_eq_f64_def)

lemma set_insert_float [simp]: "set (insert_float x ys) = insert x (set ys)"
  by (induction ys) auto

lemma set_sort_floats [simp]: "set (sort_floats xs) = set xs"
  by (induction xs) (auto simp: sort_floats_def)

definition numbers_sorted :: "f64 list \<Rightarrow> bool" where
  "numbers_sorted xs \<longleftrightarrow> NaN \<notin> set xs \<and> sorted_wrt (\<lambda>x y. \<not> y < x) xs"

lemma insert_sorted:
  "numbers_sorted ys \<Longrightarrow> x \<noteq> NaN \<Longrightarrow> numbers_sorted (insert_float x ys)"
proof (induction ys)
  case (Cons y ys)
  then have y: "y \<noteq> NaN" "NaN \<notin> set ys" "numbers_sorted ys" "\<And>z. z \<in> set ys \<Longrightarrow> \<not> z < y" by (auto simp: numbers_sorted_def)
  show ?case
  proof (cases "y < x")
    case True
    then have "\<not> x < y" using f64_lt_trans [of x y x] by (cases x; cases y) (auto simp: less_f64_def)
    then show ?thesis using Cons.IH [OF y(3) Cons.prems(2)] y True Cons.prems(2) by (auto simp: numbers_sorted_def)
  next
    case False
    have "\<not> z < x" if "z \<in> set ys" for z
    proof
      assume "z < x"
      then have "z < y" by (rule f64_lt_le) (use False y(1) in auto)
      then show False using y(4) [OF that] by simp
    qed
    then show ?thesis using y False Cons.prems by (auto simp: numbers_sorted_def)
  qed
qed (simp add: numbers_sorted_def)

lemma sort_floats_sorted: "NaN \<notin> set xs \<Longrightarrow> numbers_sorted (sort_floats xs)"
  by (induction xs) (auto simp: sort_floats_def insert_sorted, simp add: numbers_sorted_def)

lemma set_compact: "set (compact xs) \<subseteq> set xs"
  by (induction xs rule: compact.induct) auto

lemma compact_Nil [simp]: "compact xs = [] \<longleftrightarrow> xs = []"
  by (induction xs rule: compact.induct) auto

lemma compact_strict: "numbers_sorted xs \<Longrightarrow> sorted_wrt (<) (compact xs)"
proof (induction xs rule: compact.induct)
  case (1 x y zs)
  then have n: "x \<noteq> NaN" "y \<noteq> NaN" "\<not> y < x" by (auto simp: numbers_sorted_def)
  show ?case
  proof (cases "feq x y")
    case True
    then show ?thesis using "1.IH"(1) "1.prems" by (auto simp: numbers_sorted_def)
  next
    case False
    then have xy: "x < y" using n f64_total by blast
    have "sorted_wrt (<) (compact (y # zs))" using "1.IH"(2) [OF False] "1.prems" by (auto simp: numbers_sorted_def)
    moreover have "x < z" if "z \<in> set (compact (y # zs))" for z
    proof -
      have "z \<in> set (y # zs)" using that set_compact by blast
      then show ?thesis using xy "1.prems" f64_lt_le [OF xy, of z] by (auto simp: numbers_sorted_def)
    qed
    ultimately show ?thesis using False by simp
  qed
qed auto

text \<open>A step or a value of a finite request rounds to a number.\<close>

lemma round6_number: "v \<noteq> NaN \<Longrightarrow> round6 v \<noteq> NaN"
  by (cases v) (auto simp: round6_def times_f64_def divide_f64_def Let_def is_inf_def rnd_def zero_of_def inf_of_def)

lemma fin_times: "is_fin x \<Longrightarrow> is_fin y \<Longrightarrow> x * y \<noteq> (NaN :: f64)"
  by (cases x; cases y) (auto simp: times_f64_def Let_def is_inf_def rnd_def zero_of_def inf_of_def)

lemma fin_plus: "is_fin x \<Longrightarrow> y \<noteq> NaN \<Longrightarrow> x + y \<noteq> (NaN :: f64)"
  by (cases x; cases y) (auto simp: plus_f64_def Let_def is_inf_def rnd_def zero_of_def inf_of_def)

text \<open>The numbers of a request are those of a JSON text, which are finite.\<close>

definition finite_request :: "axis_request \<Rightarrow> bool" where
  "finite_request req \<longleftrightarrow>
     list_all is_fin (aqValues req) \<and> pred_option is_fin (aqFrom req) \<and> pred_option is_fin (aqTo req) \<and> pred_option is_fin (aqStep req)"

lemma range_numbers:
  assumes "finite_request req" "range_values req = Inr vs"
  shows "NaN \<notin> set vs"
proof -
  obtain a b s where e: "aqFrom req = Some a" "aqTo req = Some b" "aqStep req = Some s"
    using assms(2) by (auto simp: range_values_def split: option.splits)
  define count where "count = go_int (math_Floor ((b - a) / s + valueEpsilon)) + 1"
  have c: "count \<le> 40" "vs = map (\<lambda>i. round6 (a + float_of_int (int i) * s)) [0..<nat count]"
    using assms(2) e by (auto simp: range_values_def MaxValues_def count_def Let_def split: if_splits)
  have f: "is_fin a" "is_fin s" using assms(1) e by (simp_all add: finite_request_def)
  have "round6 (a + float_of_int (int i) * s) \<noteq> NaN" if "i < nat count" for i
  proof -
    have "is_fin (float_of_int (int i))" using float_of_int_small [of "int i"] that c(1) by simp
    then show ?thesis by (intro round6_number fin_plus fin_times f)
  qed
  then show ?thesis unfolding c(2) by fastforce
qed

lemma axis_values_sorted:
  assumes "finite_request req" "readAxisValues req = Inr vs"
  shows "sorted_wrt (<) vs"
proof -
  obtain given where g: "(if aqValues req = [] then range_values req else Inr (aqValues req)) = Inr given"
    and v: "vs = compact (sort_floats (map round6 given))"
    using assms(2) by (auto simp: readAxisValues_def and_then_Inr Let_def split: if_splits)
  have "v \<noteq> NaN" if "v \<in> set given" for v
    using g that assms(1) range_numbers [OF assms(1)] by (cases "aqValues req = []") (auto simp: finite_request_def list_all_iff)
  then have "NaN \<notin> set (map round6 given)" using round6_number by fastforce
  then show ?thesis unfolding v by (intro compact_strict sort_floats_sorted)
qed

lemma read_axes_sorted:
  "read_axes i seen reqs = Inr axes \<Longrightarrow> list_all finite_request reqs \<Longrightarrow> list_all (\<lambda>a. sorted_wrt (<) (axValues a)) axes"
proof (induction reqs arbitrary: i seen axes)
  case (Cons req reqs)
  obtain vs rest where v: "readAxisValues req = Inr vs" and r: "read_axes (i + 1) (trim_space (aqPath req) # seen) reqs = Inr rest"
    and a: "axes = \<lparr>axPath = trim_space (aqPath req), axValues = vs\<rparr> # rest"
    using Cons.prems by (auto simp: Let_def and_then_Inr split: sum.splits if_splits)
  show ?case using Cons.IH [OF r] axis_values_sorted [OF _ v] Cons.prems(2) by (simp add: a)
qed simp

text \<open>C26: The axes read from a request of finite numbers are one to \<open>MaxAxes\<close>, on distinct sweepable paths, each with one to
  \<open>MaxValues\<close> values in strictly increasing order.\<close>

theorem axes_wellformed:
  "case ReadAxes reqs of
     Inl _ \<Rightarrow> True
   | Inr axes \<Rightarrow>
       1 \<le> length axes \<and> length axes \<le> MaxAxes \<and> distinct (map axPath axes) \<and>
       list_all (\<lambda>a. usablePath (axPath a) = Inr () \<and> 1 \<le> length (axValues a) \<and> length (axValues a) \<le> MaxValues) axes \<and>
       (if list_all finite_request reqs then list_all (\<lambda>a. sorted_wrt (<) (axValues a)) axes else True)"
proof (cases "ReadAxes reqs")
  case (Inr axes)
  then have r: "read_axes 0 [] reqs = Inr axes" "reqs \<noteq> []" "length reqs \<le> MaxAxes" by (auto simp: ReadAxes_def split: if_splits)
  have "1 \<le> length xs \<longleftrightarrow> xs \<noteq> []" for xs :: "f64 list" by (cases xs) auto
  then show ?thesis using Inr read_axes_paths [OF r(1)] read_axes_sorted [OF r(1)] r(2,3) by (simp add: list_all_iff Suc_le_eq)
qed simp

section \<open>Folds\<close>

text \<open>A location that is always the same distance from UTC.\<close>

definition fixed_zone :: "location \<Rightarrow> int \<Rightarrow> bool" where
  "fixed_zone loc k \<longleftrightarrow> (\<forall>t. locOffset loc t = k \<and> locInstant loc t = t - k)"

lemma fixed_days:
  assumes "fixed_zone (calLoc c) k"
  shows "local_day (calLoc c) (day_start c n) = n" and "add_days c m (day_start c n) = day_start c (n + m)"
    and "day_start c m < day_start c n \<longleftrightarrow> m < n" and "day_start c m - day_start c n = (m - n) * day_ns"
proof -
  have s: "day_start c j = j * day_ns - k" for j using assms by (simp add: day_start_def fixed_zone_def)
  show "local_day (calLoc c) (day_start c n) = n" using assms day_ns_pos
    by (simp add: local_day_wall wall_def s fixed_zone_def)
  show "add_days c m (day_start c n) = day_start c (n + m)" using assms
    by (simp add: add_days_def wall_def s fixed_zone_def algebra_simps)
  show "day_start c m < day_start c n \<longleftrightarrow> m < n" using day_ns_pos by (simp add: s)
  show "day_start c m - day_start c n = (m - n) * day_ns" by (simp add: s algebra_simps)
qed

text \<open>The number of days a range covers.\<close>

lemma hours_whole_days:
  assumes "0 \<le> d" "d \<le> 100000"
  shows "hours_of (d * day_ns) / Fin 24 = float_of_int d"
proof -
  have s: "\<bar>24 * d\<bar> \<le> 2 ^ 53" "\<bar>d\<bar> \<le> 2 ^ 53" "\<bar>hour_ns\<bar> \<le> 2 ^ 53" using assms by (simp_all add: hour_ns_def)
  have e: "d * day_ns = (24 * d) * hour_ns" by (simp add: day_ns_def hour_ns_def)
  have q: "tdiv (24 * d * hour_ns) hour_ns = 24 * d" using assms by (simp add: tdiv_def hour_ns_def)
  have z: "float_of_int 0 / float_of_int hour_ns = Fin 0"
    by (simp add: float_of_int_small [OF s(3)] float_of_int_small divide_f64_def hour_ns_def Let_def is_inf_def zero_of_def)
  have "float_of_int (24 * d) + Fin 0 = Fin (of_int (24 * d))"
    using rnd_of_int [OF s(1)] by (simp add: float_of_int_small [OF s(1)] plus_f64_def Let_def is_inf_def)
  then have h: "hours_of (d * day_ns) = Fin (of_int (24 * d))" unfolding hours_of_def e q using z by simp
  have "(of_int (24 * d) :: rat) / 24 = of_int d" by simp
  then have "rnd (of_int (24 * d) / 24) = Fin (of_int d)" using rnd_of_int [OF s(2)] by (simp only:)
  then have "Fin (of_int (24 * d)) / Fin 24 = Fin (of_int d)"
    by (simp add: divide_f64_def Let_def is_inf_def zero_of_def del: of_int_mult)
  then show ?thesis unfolding h float_of_int_small [OF s(2)] .
qed

lemma day_span_days:
  assumes "fixed_zone (calLoc c) k" "a \<le> b" "b - a \<le> 100000"
  shows "day_span (day_start c a) (day_start c b) = b - a + 1"
proof -
  let ?d = "b - a"
  have "?d * day_ns \<le> 100000 * day_ns" using assms(3) by (intro mult_right_mono) (simp_all add: day_ns_def)
  then have r: "?d * day_ns < 2 ^ 63" by (simp add: day_ns_def)
  have "0 \<le> ?d * day_ns" using assms(2) by (simp add: day_ns_def)
  then have t: "time_sub (day_start c b) (day_start c a) = ?d * day_ns"
    using r unfolding time_sub_def fixed_days(4) [OF assms(1)] by simp
  have "\<bar>?d\<bar> \<le> 2 ^ 53" using assms(2,3) by simp
  from go_int_float [OF this] show ?thesis using hours_whole_days [of ?d] assms(2,3) by (simp add: day_span_def t)
qed

definition fold_days :: "int \<Rightarrow> int \<Rightarrow> int \<Rightarrow> nat \<Rightarrow> sweep_fold" where
  "fold_days a in_days out_days i =
     (let first = a + int i * out_days
      in \<lparr>foNumber = i, foInStart = format_date first, foInEnd = format_date (first + in_days - 1),
           foOutStart = format_date (first + in_days), foOutEnd = format_date (first + in_days + out_days - 1)\<rparr>)"

lemma folds_from_days:
  assumes z: "fixed_zone (calLoc c) k" and o: "0 < out_days"
  shows "folds_from c (day_start c a) (day_start c b) in_days out_days i room =
    map (fold_days a in_days out_days) [i..<min (i + room) (nat ((b - a + 1 - in_days) div out_days))]"
proof (induction room arbitrary: i)
  case (Suc room)
  let ?n = "nat ((b - a + 1 - in_days) div out_days)"
  note d = fixed_days [OF z]
  have "a + int i * out_days + (in_days - 1) + 1 + (out_days - 1) \<le> b \<longleftrightarrow> (int i + 1) * out_days \<le> b - a + 1 - in_days"
    by (simp add: algebra_simps)
  also have "\<dots> \<longleftrightarrow> i < ?n" unfolding le_div_iff [OF o] by linarith
  finally have fits: "a + int i * out_days + (in_days - 1) + 1 + (out_days - 1) \<le> b \<longleftrightarrow> i < ?n" .
  show ?case
  proof (cases "i < ?n")
    case True
    then have "[i..<min (i + Suc room) ?n] = i # [Suc i..<min (Suc i + room) ?n]" by (simp add: upt_conv_Cons)
    then show ?thesis using True fits Suc.IH [of "Suc i"]
      by (simp add: Let_def d date_text_def fold_days_def algebra_simps)
  next
    case False
    then show ?thesis using fits by (simp add: Let_def d)
  qed
qed simp

text \<open>C27: In a location without clock changes, the folds of a range of at most 100,000 days are the windows that fit, the first
  twelve of them (\<open>MaxFolds\<close>) if there are more: fold \<open>i\<close> starts \<open>i\<close> out-of-sample windows after the first day and is tested on the days right after its in-sample window, so
  the tested windows follow each other without a gap or an overlap; a window of fewer days than \<open>MinFoldDays\<close>
  and a range too short for one fold are refused.\<close>

theorem folds_tile:
  assumes "fixed_zone (calLoc c) k" and "a \<le> b" and "b - a \<le> 100000" and "sint in_days + sint out_days < 2 ^ 63"
  shows "Folds c (day_start c a) (day_start c b) in_days out_days =
    (if sint in_days < MinFoldDays then Inl (FewInDays (sint in_days))
     else if sint out_days < MinFoldDays then Inl (FewOutDays (sint out_days))
     else if b - a + 1 < sint in_days + sint out_days then Inl (RangeTooShort (b - a + 1) (sint in_days + sint out_days))
     else Inr (map (fold_days a (sint in_days) (sint out_days))
            [0..<min MaxFolds (nat ((b - a + 1 - sint in_days) div sint out_days))]))"
proof -
  let ?i = "sint in_days" and ?o = "sint out_days"
  show ?thesis
  proof (cases "MinFoldDays \<le> ?i \<and> MinFoldDays \<le> ?o")
    case True
    then have o: "0 < ?o" "0 \<le> ?i" by (simp_all add: MinFoldDays_def)
    have sum: "sint (in_days + out_days) = ?i + ?o"
      using sint_i64 [of "?i + ?o"] o assms(4) by simp
    note span = day_span_days [OF assms(1-3)]
    show ?thesis
    proof (cases "b - a + 1 < ?i + ?o")
      case False
      then have "0 < (b - a + 1 - ?i) div ?o" using o by (simp add: pos_imp_zdiv_pos_iff)
      then have "0 < min MaxFolds (nat ((b - a + 1 - ?i) div ?o))" by (simp add: MaxFolds_def)
      then have "[0..<min MaxFolds (nat ((b - a + 1 - ?i) div ?o))] \<noteq> []" by simp
      then show ?thesis using True False folds_from_days [OF assms(1) o(1), of a b ?i 0 MaxFolds]
        by (simp add: Folds_def sum span Let_def del: upt_eq_Nil_conv)
    qed (use True in \<open>simp add: Folds_def sum span\<close>)
  qed (auto simp: Folds_def)
qed

theorem folds_tile_witness:
  "Folds christmas (day_start christmas 20000) (day_start christmas 20100) 30 10 = Inr (map (fold_days 20000 30 10) [0..<7])"
proof -
  have z: "fixed_zone (calLoc christmas) (- 180 * minute_ns)" by (simp add: fixed_zone_def christmas_def west_def)
  show ?thesis using folds_tile [OF z, of 20000 20100 30 10] by (simp add: MinFoldDays_def MaxFolds_def)
qed

end
