(* ===== verification/Jobs.thy ===== *)
theory Jobs
  imports Sweep Runs Futures Symbols
begin

text \<open>
  The tables of the back-test queue and the statements over them (internal/db/backtests.sql.go, sweeps.sql.go,
  copyfrom.go, and the tables of sql/schema): a table is the list of its rows in the order they were inserted,
  a statement a function of the database that answers its rows or the violation it met. A statement is atomic,
  as in the database. Where an \<open>ORDER BY\<close> leaves a tie the order of the table decides. A random identifier
  and the clock are arguments of the statement that draws them; a DATE is a day number; a JSONB
  column holds the value it encodes. Columns that nothing here reads, and the loss of the connection, are left out.
\<close>

section \<open>Tables\<close>

type_synonym uuid = nat

datatype db_error = NoRows | UniqueViolation | CheckViolation | ForeignKeyViolation

datatype run_status = StQueued | StRunning | StDone | StError

text \<open>Why a run failed: the error \<open>execute\<close> answers.\<close>

datatype run_fault =
    BadRunSpec fault
  | BadRunPlan compile_error
  | BadRunTimeframe tf_error
  | BadRunBasket db_error
  | BadRunRead read_error
  | BadRunFutures futures_error
  | TooManyBars string
  | FewCandles string nat
  | FewContinuous string nat
  | BadRun run_error
  | RunTimedOut

record run_row =
  rrID :: uuid
  rrUserID :: uuid
  rrStrategyID :: uuid
  rrSpec :: json
  rrSymbolID :: i64
  rrTimeframe :: string
  rrStartDate :: int
  rrEndDate :: int
  rrCapital :: i64
  rrStatus :: run_status
  rrMetrics :: "metrics option"
  rrError :: "run_fault option"
  rrCreatedAt :: time
  rrStartedAt :: "time option"
  rrFinishedAt :: "time option"
  rrMaxPositions :: i32
  rrSweepID :: "uuid option"
  rrParams :: "(string \<times> f64) list option"
  rrPoint :: "i32 option"
  rrFold :: "i32 option"
  rrPhase :: "phase option"

record sweep_row =
  swID :: uuid
  swUserID :: uuid
  swStrategyID :: uuid
  swKind :: string
  swSpec :: json
  swAxes :: "axis list"
  swFolds :: "sweep_fold list option"
  swObjective :: string
  swSymbolID :: i64
  swTimeframe :: string
  swStartDate :: int
  swEndDate :: int
  swCapital :: i64
  swMaxPositions :: i32
  swPoints :: i32
  swCreatedAt :: time

record symbol_row =
  smID :: i64
  smTicker :: string
  smShortName :: "string option"
  smLongName :: "string option"
  smKind :: string
  smCurrency :: string
  smLotSize :: i32
  smTickSize :: f64
  smActive :: bool
  smTracked :: bool

record strategy_row =
  sgID :: uuid
  sgUserID :: uuid
  sgName :: string
  sgDescription :: string
  sgSpec :: json
  sgVersion :: i32
  sgCreatedAt :: time
  sgUpdatedAt :: time
  sgShareToken :: "string option"
  sgSharedAt :: "time option"

record basket_row =
  bkID :: uuid
  bkUserID :: uuid
  bkName :: string
  bkCreatedAt :: time
  bkUpdatedAt :: time

text \<open>The symbols of a run, of a sweep and of a saved basket, in their order.\<close>

record member_row =
  mbOwner :: uuid
  mbOrd :: i32
  mbSymbolID :: i64

record equity_row =
  eqRun :: uuid
  eqTS :: time
  eqCents :: i64
  eqHold :: "i64 option"
  eqIndex :: "i64 option"

record sleeve_row =
  seRun :: uuid
  seSymbolID :: i64
  seTS :: time
  seCents :: i64

record db =
  dbUsers :: "uuid list"
  dbStrategies :: "strategy_row list"
  dbSymbols :: "symbol_row list"
  dbRuns :: "run_row list"
  dbRunSymbols :: "member_row list"
  dbTrades :: "(uuid \<times> trade) list"
  dbEquity :: "equity_row list"
  dbSleeves :: "sleeve_row list"
  dbSweeps :: "sweep_row list"
  dbSweepSymbols :: "member_row list"
  dbBaskets :: "basket_row list"
  dbBasketSymbols :: "member_row list"

section \<open>Rows in and out\<close>

text \<open>A statement that writes several rows, or the statements of a transaction: the first violation undoes them all.\<close>

fun copy_rows :: "('a \<Rightarrow> 'd \<Rightarrow> 'e + 'd) \<Rightarrow> 'a list \<Rightarrow> 'd \<Rightarrow> 'e + 'd" where
  "copy_rows ins [] d = Inr d"
| "copy_rows ins (x # xs) d = and_then (ins x d) (copy_rows ins xs)"

definition one_row :: "'a list \<Rightarrow> db_error + 'a" where
  "one_row xs = (case xs of [] \<Rightarrow> Inl NoRows | x # _ \<Rightarrow> Inr x)"

definition user_known :: "db \<Rightarrow> uuid \<Rightarrow> bool" where "user_known d u \<longleftrightarrow> u \<in> set (dbUsers d)"
definition symbol_known :: "db \<Rightarrow> i64 \<Rightarrow> bool" where "symbol_known d s \<longleftrightarrow> s \<in> smID ` set (dbSymbols d)"
definition strategy_known :: "db \<Rightarrow> uuid \<Rightarrow> bool" where "strategy_known d s \<longleftrightarrow> s \<in> sgID ` set (dbStrategies d)"
definition sweep_known :: "db \<Rightarrow> uuid \<Rightarrow> bool" where "sweep_known d s \<longleftrightarrow> s \<in> swID ` set (dbSweeps d)"
definition run_known :: "db \<Rightarrow> uuid \<Rightarrow> bool" where "run_known d r \<longleftrightarrow> r \<in> rrID ` set (dbRuns d)"

definition active_status :: "run_status \<Rightarrow> bool" where
  "active_status s \<longleftrightarrow> s = StQueued \<or> s = StRunning"

section \<open>Runs\<close>

text \<open>The checks of the table, and its partial unique index over the out-of-sample runs of a sweep.\<close>

definition run_checks :: "run_row \<Rightarrow> bool" where
  "run_checks r \<longleftrightarrow>
     rrTimeframe r \<in> set Timeframes \<and> 0 <s rrCapital r \<and> rrStartDate r \<le> rrEndDate r \<and> 0 <s rrMaxPositions r"

definition tests_fold :: "uuid \<Rightarrow> i32 \<Rightarrow> run_row \<Rightarrow> bool" where
  "tests_fold s f r \<longleftrightarrow> rrSweepID r = Some s \<and> rrFold r = Some f \<and> rrPhase r = Some PhaseOutOfSample"

definition run_clashes :: "run_row \<Rightarrow> run_row \<Rightarrow> bool" where
  "run_clashes r q \<longleftrightarrow>
     rrID q = rrID r \<or>
     rrPhase r = Some PhaseOutOfSample \<and>
     (case (rrSweepID r, rrFold r) of (Some s, Some f) \<Rightarrow> tests_fold s f q | _ \<Rightarrow> False)"

definition run_refs :: "db \<Rightarrow> run_row \<Rightarrow> bool" where
  "run_refs d r \<longleftrightarrow>
     user_known d (rrUserID r) \<and> strategy_known d (rrStrategyID r) \<and> symbol_known d (rrSymbolID r) \<and>
     pred_option (sweep_known d) (rrSweepID r)"

definition insert_run :: "run_row \<Rightarrow> db \<Rightarrow> db_error + db" where
  "insert_run r d =
     (if \<not> run_checks r then Inl CheckViolation
      else if list_ex (run_clashes r) (dbRuns d) then Inl UniqueViolation
      else if \<not> run_refs d r then Inl ForeignKeyViolation
      else Inr (d\<lparr>dbRuns := dbRuns d @ [r]\<rparr>))"

record run_params =
  rpUserID :: uuid
  rpStrategyID :: uuid
  rpSpec :: json
  rpSymbolID :: i64
  rpTimeframe :: string
  rpStartDate :: int
  rpEndDate :: int
  rpCapital :: i64
  rpMaxPositions :: i32
  rpSweepID :: "uuid option"
  rpParams :: "(string \<times> f64) list option"
  rpPoint :: "i32 option"
  rpFold :: "i32 option"
  rpPhase :: "phase option"

definition queued_run :: "uuid \<Rightarrow> time \<Rightarrow> run_params \<Rightarrow> run_row" where
  "queued_run new_id now p =
     \<lparr>rrID = new_id, rrUserID = rpUserID p, rrStrategyID = rpStrategyID p, rrSpec = rpSpec p, rrSymbolID = rpSymbolID p,
      rrTimeframe = rpTimeframe p, rrStartDate = rpStartDate p, rrEndDate = rpEndDate p, rrCapital = rpCapital p,
      rrStatus = StQueued, rrMetrics = None, rrError = None, rrCreatedAt = now, rrStartedAt = None, rrFinishedAt = None,
      rrMaxPositions = rpMaxPositions p, rrSweepID = rpSweepID p, rrParams = rpParams p, rrPoint = rpPoint p,
      rrFold = rpFold p, rrPhase = rpPhase p\<rparr>"

definition CreateBacktestRun :: "uuid \<Rightarrow> time \<Rightarrow> run_params \<Rightarrow> db \<Rightarrow> db_error + db \<times> run_row" where
  "CreateBacktestRun new_id now p d =
     (let r = queued_run new_id now p in and_then (insert_run r d) (\<lambda>d'. Inr (d', r)))"

text \<open>The rows of a sweep bring their identifiers along.\<close>

definition CreateSweepRuns :: "time \<Rightarrow> (uuid \<times> run_params) list \<Rightarrow> db \<Rightarrow> db_error + db" where
  "CreateSweepRuns now ps d = copy_rows insert_run (map (\<lambda>(i, p). queued_run i now p) ps) d"

definition insert_run_symbol :: "member_row \<Rightarrow> db \<Rightarrow> db_error + db" where
  "insert_run_symbol m d =
     (if mbOrd m <s 0 then Inl CheckViolation
      else if list_ex (\<lambda>q. mbOwner q = mbOwner m \<and> (mbOrd q = mbOrd m \<or> mbSymbolID q = mbSymbolID m)) (dbRunSymbols d)
      then Inl UniqueViolation
      else if \<not> run_known d (mbOwner m) \<or> \<not> symbol_known d (mbSymbolID m) then Inl ForeignKeyViolation
      else Inr (d\<lparr>dbRunSymbols := dbRunSymbols d @ [m]\<rparr>))"

definition CreateBacktestRunSymbols :: "member_row list \<Rightarrow> db \<Rightarrow> db_error + db" where
  "CreateBacktestRunSymbols ms d = copy_rows insert_run_symbol ms d"

definition update_runs :: "(run_row \<Rightarrow> bool) \<Rightarrow> (run_row \<Rightarrow> run_row) \<Rightarrow> db \<Rightarrow> db" where
  "update_runs p f d = d\<lparr>dbRuns := map (\<lambda>r. if p r then f r else r) (dbRuns d)\<rparr>"

definition claim_key :: "run_row \<Rightarrow> bool \<times> time" where
  "claim_key r = (rrSweepID r \<noteq> None, rrCreatedAt r)"

definition next_queued :: "db \<Rightarrow> run_row list" where
  "next_queued d = take 1 (sort_key claim_key (filter (\<lambda>r. rrStatus r = StQueued) (dbRuns d)))"

definition claimed :: "time \<Rightarrow> run_row \<Rightarrow> run_row" where
  "claimed now r = r\<lparr>rrStatus := StRunning, rrStartedAt := Some now, rrError := None\<rparr>"

definition ClaimBacktestRun :: "time \<Rightarrow> db \<Rightarrow> db_error + db \<times> run_row" where
  "ClaimBacktestRun now d =
     and_then (one_row (next_queued d)) (\<lambda>r. Inr (update_runs (\<lambda>q. rrID q = rrID r) (claimed now) d, claimed now r))"

definition FinishBacktestRun :: "time \<Rightarrow> uuid \<Rightarrow> metrics \<Rightarrow> db \<Rightarrow> db" where
  "FinishBacktestRun now i m =
     update_runs (\<lambda>r. rrID r = i) (\<lambda>r. r\<lparr>rrStatus := StDone, rrMetrics := Some m, rrError := None, rrFinishedAt := Some now\<rparr>)"

definition FailBacktestRun :: "time \<Rightarrow> uuid \<Rightarrow> run_fault \<Rightarrow> db \<Rightarrow> db" where
  "FailBacktestRun now i e =
     update_runs (\<lambda>r. rrID r = i) (\<lambda>r. r\<lparr>rrStatus := StError, rrError := Some e, rrFinishedAt := Some now\<rparr>)"

definition requeued :: "run_row \<Rightarrow> run_row" where
  "requeued r = r\<lparr>rrStatus := StQueued, rrStartedAt := None\<rparr>"

definition RequeueBacktestRun :: "uuid \<Rightarrow> db \<Rightarrow> db" where
  "RequeueBacktestRun i = update_runs (\<lambda>r. rrID r = i \<and> rrStatus r = StRunning) requeued"

definition stale_run :: "time \<Rightarrow> run_row \<Rightarrow> bool" where
  "stale_run cutoff r \<longleftrightarrow> rrStatus r = StRunning \<and> (case rrStartedAt r of None \<Rightarrow> False | Some t \<Rightarrow> t < cutoff)"

definition RequeueStaleBacktestRuns :: "time \<Rightarrow> db \<Rightarrow> db \<times> nat" where
  "RequeueStaleBacktestRuns cutoff d = (update_runs (stale_run cutoff) requeued d, length (filter (stale_run cutoff) (dbRuns d)))"

definition CountActiveBacktestRuns :: "uuid \<Rightarrow> db \<Rightarrow> nat" where
  "CountActiveBacktestRuns u d =
     length (filter (\<lambda>r. rrUserID r = u \<and> rrSweepID r = None \<and> active_status (rrStatus r)) (dbRuns d))"

definition CountBacktestRunsByStatus :: "db \<Rightarrow> (run_status \<times> nat) list" where
  "CountBacktestRunsByStatus d =
     (let active = filter active_status (map rrStatus (dbRuns d))
      in map (\<lambda>s. (s, count_list active s)) (remdups active))"

text \<open>The joins with the symbols: the ticker of a run's primary symbol, the symbols of its basket.\<close>

definition symbols_with :: "(symbol_row \<Rightarrow> bool) \<Rightarrow> db \<Rightarrow> symbol_row list" where
  "symbols_with p d = filter p (dbSymbols d)"

definition GetSymbolByID :: "i64 \<Rightarrow> db \<Rightarrow> db_error + symbol_row" where
  "GetSymbolByID i d = one_row (symbols_with (\<lambda>s. smID s = i) d)"

definition GetSymbolByTicker :: "string \<Rightarrow> db \<Rightarrow> db_error + symbol_row" where
  "GetSymbolByTicker t d = one_row (symbols_with (\<lambda>s. smTicker s = t) d)"

definition join_ticker :: "('a \<Rightarrow> i64) \<Rightarrow> db \<Rightarrow> 'a list \<Rightarrow> ('a \<times> string) list" where
  "join_ticker f d rs = concat (map (\<lambda>r. map (\<lambda>s. (r, smTicker s)) (symbols_with (\<lambda>s. smID s = f r) d)) rs)"

definition GetBacktestRun :: "uuid \<Rightarrow> uuid \<Rightarrow> db \<Rightarrow> db_error + run_row \<times> string" where
  "GetBacktestRun i u d =
     one_row (join_ticker rrSymbolID d (filter (\<lambda>r. rrID r = i \<and> rrUserID r = u) (dbRuns d)))"

definition page_of :: "i32 \<Rightarrow> i32 \<Rightarrow> 'a list \<Rightarrow> 'a list" where
  "page_of cap off xs = take (nat (sint cap)) (drop (nat (sint off)) xs)"

definition ListBacktestRuns :: "uuid \<Rightarrow> i32 \<Rightarrow> i32 \<Rightarrow> db \<Rightarrow> (run_row \<times> string) list" where
  "ListBacktestRuns u cap off d =
     page_of cap off (join_ticker rrSymbolID d
       (sort_key (\<lambda>r. - rrCreatedAt r) (filter (\<lambda>r. rrUserID r = u \<and> rrSweepID r = None) (dbRuns d))))"

text \<open>The members of one owner, in their order, each with its symbol.\<close>

definition members_of :: "uuid \<Rightarrow> member_row list \<Rightarrow> member_row list" where
  "members_of i ms = sort_key (\<lambda>m. sint (mbOrd m)) (filter (\<lambda>m. mbOwner m = i) ms)"

definition join_members :: "db \<Rightarrow> member_row list \<Rightarrow> (i32 \<times> symbol_row) list" where
  "join_members d ms = concat (map (\<lambda>m. map (\<lambda>s. (mbOrd m, s)) (symbols_with (\<lambda>s. smID s = mbSymbolID m) d)) ms)"

definition ListBacktestRunSymbols :: "uuid \<Rightarrow> db \<Rightarrow> (i32 \<times> symbol_row) list" where
  "ListBacktestRunSymbols i d = join_members d (members_of i (dbRunSymbols d))"

definition ListBacktestRunTickers :: "uuid list \<Rightarrow> db \<Rightarrow> (uuid \<times> i32 \<times> string) list" where
  "ListBacktestRunTickers ids d =
     concat (map (\<lambda>i. map (\<lambda>(k, s). (i, k, smTicker s)) (ListBacktestRunSymbols i d)) (sort (remdups ids)))"

section \<open>Results\<close>

text \<open>What NUMERIC(18,6) keeps and the check accepts as a price: NaN, or what rounds to a positive number under a million millions.\<close>

definition numeric_price :: "f64 \<Rightarrow> bool" where
  "numeric_price p \<longleftrightarrow> p = NaN \<or> rnd (5 / 10000000) \<le> p \<and> p < Fin 1000000000000"

definition insert_trade :: "uuid \<times> trade \<Rightarrow> db \<Rightarrow> db_error + db" where
  "insert_trade row d =
     (case row of (i, t) \<Rightarrow>
        if \<not> (0 <s trSeq t \<and> 0 <s trQty t \<and> numeric_price (trEntryPrice t) \<and> numeric_price (trExitPrice t) \<and> 0 \<le>s trFees t)
        then Inl CheckViolation
        else if list_ex (\<lambda>(j, q). j = i \<and> trSeq q = trSeq t) (dbTrades d) then Inl UniqueViolation
        else if \<not> run_known d i \<or> \<not> symbol_known d (trSymbolID t) then Inl ForeignKeyViolation
        else Inr (d\<lparr>dbTrades := dbTrades d @ [(i, t)]\<rparr>))"

definition insert_equity :: "equity_row \<Rightarrow> db \<Rightarrow> db_error + db" where
  "insert_equity e d =
     (if list_ex (\<lambda>q. eqRun q = eqRun e \<and> eqTS q = eqTS e) (dbEquity d) then Inl UniqueViolation
      else if \<not> run_known d (eqRun e) then Inl ForeignKeyViolation
      else Inr (d\<lparr>dbEquity := dbEquity d @ [e]\<rparr>))"

definition insert_sleeve :: "sleeve_row \<Rightarrow> db \<Rightarrow> db_error + db" where
  "insert_sleeve e d =
     (if list_ex (\<lambda>q. seRun q = seRun e \<and> seSymbolID q = seSymbolID e \<and> seTS q = seTS e) (dbSleeves d) then Inl UniqueViolation
      else if \<not> run_known d (seRun e) \<or> \<not> symbol_known d (seSymbolID e) then Inl ForeignKeyViolation
      else Inr (d\<lparr>dbSleeves := dbSleeves d @ [e]\<rparr>))"

definition CreateBacktestTrades :: "(uuid \<times> trade) list \<Rightarrow> db \<Rightarrow> db_error + db" where
  "CreateBacktestTrades = copy_rows insert_trade"

definition CreateBacktestEquity :: "equity_row list \<Rightarrow> db \<Rightarrow> db_error + db" where
  "CreateBacktestEquity = copy_rows insert_equity"

definition CreateBacktestSymbolEquity :: "sleeve_row list \<Rightarrow> db \<Rightarrow> db_error + db" where
  "CreateBacktestSymbolEquity = copy_rows insert_sleeve"

definition ListBacktestTrades :: "uuid \<Rightarrow> db \<Rightarrow> (trade \<times> string) list" where
  "ListBacktestTrades i d =
     join_ticker trSymbolID d (sort_key (\<lambda>t. sint (trSeq t)) (map snd (filter (\<lambda>(j, t). j = i) (dbTrades d))))"

definition CountBacktestEquity :: "uuid \<Rightarrow> db \<Rightarrow> nat" where
  "CountBacktestEquity i d = length (filter (\<lambda>e. eqRun e = i) (dbEquity d))"

definition CountBacktestSymbolEquity :: "uuid \<Rightarrow> db \<Rightarrow> nat" where
  "CountBacktestSymbolEquity i d = length (filter (\<lambda>e. seRun e = i) (dbSleeves d))"

text \<open>Every how many points a curve of \<open>n\<close> is sampled to show about \<open>points\<close> of them, and the sample: its last
  point is always shown. \<open>points\<close> is positive.\<close>

definition sample_step :: "nat \<Rightarrow> nat \<Rightarrow> nat" where
  "sample_step points n = max ((n + points - 1) div points) 1"

definition sampled :: "nat \<Rightarrow> 'a list \<Rightarrow> 'a list" where
  "sampled points xs =
     map snd (filter (\<lambda>(i, x). i mod sample_step points (length xs) = 0 \<or> i + 1 = length xs) (enumerate 0 xs))"

definition ListBacktestEquity :: "uuid \<Rightarrow> nat \<Rightarrow> db \<Rightarrow> equity_row list" where
  "ListBacktestEquity i points d = sampled points (sort_key eqTS (filter (\<lambda>e. eqRun e = i) (dbEquity d)))"

text \<open>One sample per symbol, the symbols in the order of their tickers.\<close>

definition ListBacktestSymbolEquity :: "uuid \<Rightarrow> nat \<Rightarrow> db \<Rightarrow> (string \<times> sleeve_row) list" where
  "ListBacktestSymbolEquity i points d =
     (let rows = filter (\<lambda>e. seRun e = i) (dbSleeves d);
          held = filter (\<lambda>s. smID s \<in> seSymbolID ` set rows) (dbSymbols d)
      in concat (map (\<lambda>s. map (\<lambda>e. (smTicker s, e)) (sampled points (sort_key seTS (filter (\<lambda>e. seSymbolID e = smID s) rows))))
           (sort_key smTicker held)))"

section \<open>Sweeps\<close>

record sweep_params =
  spUserID :: uuid
  spStrategyID :: uuid
  spKind :: string
  spSpec :: json
  spAxes :: "axis list"
  spFolds :: "sweep_fold list option"
  spObjective :: string
  spSymbolID :: i64
  spTimeframe :: string
  spStartDate :: int
  spEndDate :: int
  spCapital :: i64
  spMaxPositions :: i32
  spPoints :: i32

definition sweep_checks :: "sweep_row \<Rightarrow> bool" where
  "sweep_checks w \<longleftrightarrow>
     swKind w \<in> set sweep_Kinds \<and> swTimeframe w \<in> set Timeframes \<and> 0 <s swCapital w \<and> 0 <s swMaxPositions w \<and>
     0 <s swPoints w \<and> swStartDate w \<le> swEndDate w"

definition CreateSweep :: "uuid \<Rightarrow> time \<Rightarrow> sweep_params \<Rightarrow> db \<Rightarrow> db_error + db \<times> sweep_row" where
  "CreateSweep new_id now p d =
     (let w = \<lparr>swID = new_id, swUserID = spUserID p, swStrategyID = spStrategyID p, swKind = spKind p, swSpec = spSpec p,
                swAxes = spAxes p, swFolds = spFolds p, swObjective = spObjective p, swSymbolID = spSymbolID p,
                swTimeframe = spTimeframe p, swStartDate = spStartDate p, swEndDate = spEndDate p, swCapital = spCapital p,
                swMaxPositions = spMaxPositions p, swPoints = spPoints p, swCreatedAt = now\<rparr>
      in if \<not> sweep_checks w then Inl CheckViolation
         else if sweep_known d new_id then Inl UniqueViolation
         else if \<not> (user_known d (spUserID p) \<and> strategy_known d (spStrategyID p) \<and> symbol_known d (spSymbolID p))
         then Inl ForeignKeyViolation
         else Inr (d\<lparr>dbSweeps := dbSweeps d @ [w]\<rparr>, w))"

definition insert_sweep_symbol :: "member_row \<Rightarrow> db \<Rightarrow> db_error + db" where
  "insert_sweep_symbol m d =
     (if mbOrd m <s 0 then Inl CheckViolation
      else if list_ex (\<lambda>q. mbOwner q = mbOwner m \<and> (mbOrd q = mbOrd m \<or> mbSymbolID q = mbSymbolID m)) (dbSweepSymbols d)
      then Inl UniqueViolation
      else if \<not> sweep_known d (mbOwner m) \<or> \<not> symbol_known d (mbSymbolID m) then Inl ForeignKeyViolation
      else Inr (d\<lparr>dbSweepSymbols := dbSweepSymbols d @ [m]\<rparr>))"

definition CreateSweepSymbols :: "member_row list \<Rightarrow> db \<Rightarrow> db_error + db" where
  "CreateSweepSymbols = copy_rows insert_sweep_symbol"

definition GetSweepByID :: "uuid \<Rightarrow> db \<Rightarrow> db_error + sweep_row" where
  "GetSweepByID i d = one_row (filter (\<lambda>w. swID w = i) (dbSweeps d))"

definition GetSweep :: "uuid \<Rightarrow> uuid \<Rightarrow> db \<Rightarrow> db_error + sweep_row \<times> string" where
  "GetSweep i u d = one_row (join_ticker swSymbolID d (filter (\<lambda>w. swID w = i \<and> swUserID w = u) (dbSweeps d)))"

definition ListSweeps :: "uuid \<Rightarrow> i32 \<Rightarrow> i32 \<Rightarrow> db \<Rightarrow> (sweep_row \<times> string) list" where
  "ListSweeps u cap off d =
     page_of cap off (join_ticker swSymbolID d (sort_key (\<lambda>w. - swCreatedAt w) (filter (\<lambda>w. swUserID w = u) (dbSweeps d))))"

definition ListSweepSymbols :: "uuid \<Rightarrow> db \<Rightarrow> (i32 \<times> symbol_row) list" where
  "ListSweepSymbols i d = join_members d (members_of i (dbSweepSymbols d))"

text \<open>A missing value sorts after every other.\<close>

definition nulls_last :: "('a \<Rightarrow> int) \<Rightarrow> 'a option \<Rightarrow> bool \<times> int" where
  "nulls_last f x = (case x of None \<Rightarrow> (True, 0) | Some a \<Rightarrow> (False, f a))"

definition phase_rank :: "phase \<Rightarrow> int" where
  "phase_rank p = (case p of PhaseInSample \<Rightarrow> 0 | PhaseOutOfSample \<Rightarrow> 1)"

definition in_fold :: "uuid \<Rightarrow> i32 option \<Rightarrow> run_row \<Rightarrow> bool" where
  "in_fold s f r \<longleftrightarrow> rrSweepID r = Some s \<and> rrFold r = f \<and> rrPhase r = Some PhaseInSample"

definition ListSweepFoldRuns :: "uuid \<Rightarrow> i32 \<Rightarrow> db \<Rightarrow> run_row list" where
  "ListSweepFoldRuns s f d =
     sort_key (\<lambda>r. nulls_last sint (rrPoint r)) (filter (\<lambda>r. in_fold s (Some f) r \<and> rrStatus r = StDone) (dbRuns d))"

definition ListSweepRuns :: "uuid \<Rightarrow> db \<Rightarrow> run_row list" where
  "ListSweepRuns s d =
     sort_key (\<lambda>r. (nulls_last sint (rrFold r), nulls_last phase_rank (rrPhase r), nulls_last sint (rrPoint r)))
       (filter (\<lambda>r. rrSweepID r = Some s) (dbRuns d))"

definition CountActiveSweeps :: "uuid \<Rightarrow> db \<Rightarrow> nat" where
  "CountActiveSweeps u d =
     length (remdups (map swID (filter (\<lambda>w. swUserID w = u \<and>
       list_ex (\<lambda>r. rrSweepID r = Some (swID w) \<and> active_status (rrStatus r)) (dbRuns d)) (dbSweeps d))))"

record sweep_progress =
  pgTotal :: nat
  pgQueued :: nat
  pgRunning :: nat
  pgDone :: nat
  pgFailed :: nat

definition SweepProgress :: "uuid \<Rightarrow> db \<Rightarrow> sweep_progress" where
  "SweepProgress s d =
     (let runs = filter (\<lambda>r. rrSweepID r = Some s) (dbRuns d); counted = (\<lambda>st. length (filter (\<lambda>r. rrStatus r = st) runs))
      in \<lparr>pgTotal = length runs, pgQueued = counted StQueued, pgRunning = counted StRunning, pgDone = counted StDone,
          pgFailed = counted StError\<rparr>)"

text \<open>The folds of walk-forward sweeps whose in-sample runs have all stopped, some of them done, and that are not tested yet.\<close>

definition fold_ready :: "db \<Rightarrow> uuid \<Rightarrow> i32 option \<Rightarrow> bool" where
  "fold_ready d s f \<longleftrightarrow>
     (let runs = filter (in_fold s f) (dbRuns d)
      in \<not> list_ex (\<lambda>r. active_status (rrStatus r)) runs \<and> list_ex (\<lambda>r. rrStatus r = StDone) runs \<and>
         (case f of None \<Rightarrow> True | Some k \<Rightarrow> \<not> list_ex (tests_fold s k) (dbRuns d)))"

definition walk_forward :: "db \<Rightarrow> uuid \<Rightarrow> bool" where
  "walk_forward d s \<longleftrightarrow> list_ex (\<lambda>w. swID w = s \<and> swKind w = KindWalkForward) (dbSweeps d)"

definition ReadyWalkForwardFolds :: "db \<Rightarrow> (uuid \<times> i32 option) list" where
  "ReadyWalkForwardFolds d =
     filter (\<lambda>(s, f). fold_ready d s f)
       (remdups (concat (map (\<lambda>r. case rrSweepID r of
            None \<Rightarrow> []
          | Some s \<Rightarrow> if rrPhase r = Some PhaseInSample \<and> walk_forward d s then [(s, rrFold r)] else []) (dbRuns d))))"

text \<open>Deleting a sweep takes its runs and their rows with it.\<close>

definition delete_runs :: "(run_row \<Rightarrow> bool) \<Rightarrow> db \<Rightarrow> db" where
  "delete_runs p d =
     (let gone = rrID ` set (filter p (dbRuns d))
      in d\<lparr>dbRuns := filter (\<lambda>r. \<not> p r) (dbRuns d),
           dbRunSymbols := filter (\<lambda>m. mbOwner m \<notin> gone) (dbRunSymbols d),
           dbTrades := filter (\<lambda>(i, t). i \<notin> gone) (dbTrades d),
           dbEquity := filter (\<lambda>e. eqRun e \<notin> gone) (dbEquity d),
           dbSleeves := filter (\<lambda>e. seRun e \<notin> gone) (dbSleeves d)\<rparr>)"

definition DeleteSweep :: "uuid \<Rightarrow> uuid \<Rightarrow> db \<Rightarrow> db \<times> nat" where
  "DeleteSweep i u d =
     (let hit = (\<lambda>w. swID w = i \<and> swUserID w = u); n = length (filter hit (dbSweeps d))
      in if n = 0 then (d, 0)
         else ((delete_runs (\<lambda>r. rrSweepID r = Some i) d)
                 \<lparr>dbSweeps := filter (\<lambda>w. \<not> hit w) (dbSweeps d),
                  dbSweepSymbols := filter (\<lambda>m. mbOwner m \<noteq> i) (dbSweepSymbols d)\<rparr>, n))"

end
