(* ===== verification/Runner.thy ===== *)
theory Runner
  imports Jobs
begin

text \<open>
  The back-test runner (internal/backtest/runner.go): the execution of a claimed run, the writing of its
  result or of its failure, and the queueing of the out-of-sample run of a walk-forward fold. The candles
  and the quotes a run reads, the calendar and the rates are the \<open>services\<close>. A context that ends is an
  argument of the step; the worker loops around the steps, the log and the text of the errors are left out.
\<close>

record services =
  svCal :: calendar
  svRates :: "rates option"
  svBorrow :: "borrow option"
  svCandles :: store
  svQuotes :: quote_store
  svEnv :: env
  svRegistry :: "spec list"

definition runner_MaxBars :: int where "runner_MaxBars = DefaultCandleLimit"
definition IndexTicker :: string where "IndexTicker = ''^BVSP''"

section \<open>The execution of a run\<close>

definition symbol_of :: "symbol_row \<Rightarrow> symbol" where
  "symbol_of s = \<lparr>syID = smID s, syTicker = smTicker s, syKind = smKind s, syLotSize = scast (smLotSize s), syTickSize = smTickSize s\<rparr>"

definition symbol_Future :: "symbol \<Rightarrow> bool" where "symbol_Future s \<longleftrightarrow> syKind s = KindFuture"

definition run_basket :: "run_row \<Rightarrow> db \<Rightarrow> run_fault + symbol list" where
  "run_basket row d =
     (case ListBacktestRunSymbols (rrID row) d of
        [] \<Rightarrow> (case GetSymbolByID (rrSymbolID row) d of Inl e \<Rightarrow> Inl (BadRunBasket e) | Inr s \<Rightarrow> Inr [symbol_of s])
      | rows \<Rightarrow> Inr (map (\<lambda>(k, s). symbol_of s) rows))"

definition run_index :: "services \<Rightarrow> i64 list \<Rightarrow> string \<Rightarrow> time \<Rightarrow> time \<Rightarrow> db \<Rightarrow> candle list" where
  "run_index sv against tf from_ts to_ts d =
     (case GetSymbolByTicker IndexTicker d of
        Inl _ \<Rightarrow> []
      | Inr s \<Rightarrow>
          if smID s \<in> set against then []
          else (case Load (svCal sv) (svCandles sv) (smID s) tf from_ts to_ts runner_MaxBars of Inl _ \<Rightarrow> [] | Inr r \<Rightarrow> srCandles r))"

text \<open>\<open>AddDate(n, 0, 0)\<close>: a day that the year does not have rolls over to the next month.\<close>

definition add_years :: "calendar \<Rightarrow> int \<Rightarrow> time \<Rightarrow> time" where
  "add_years c n t =
     (let w = wall (calLoc c) t
      in case civil_from_days (w div day_ns) of
           (y, m, day) \<Rightarrow> locInstant (calLoc c) (days_from_civil (y + n) m day * day_ns + w mod day_ns))"

text \<open>The bars before the range, the last of them only, and the bars of the range.\<close>

definition splitAt :: "candle list \<Rightarrow> time \<Rightarrow> int \<Rightarrow> candle list \<times> candle list" where
  "splitAt ks from_ts prime_bars =
     (let cut = length (takeWhile (\<lambda>k. cTS k < from_ts) ks);
          prime = take cut ks;
          primed = (if prime_bars > 0 \<and> int (length prime) > prime_bars then drop (length prime - nat prime_bars) prime else prime)
      in (if prime_bars \<le> 0 then [] else primed, drop cut ks))"

definition futuresInstrument :: "services \<Rightarrow> symbol \<Rightarrow> string \<Rightarrow> time \<Rightarrow> time \<Rightarrow> int \<Rightarrow> run_fault + instrument" where
  "futuresInstrument sv s tf from_ts to_ts prime_bars =
     (case LoadContinuous (svCal sv) (svQuotes sv) (syTicker s) tf (add_years (svCal sv) (- 2) from_ts) to_ts
             \<lparr>opRollOffsetDays = 0, opBackAdjust = True\<rparr> of
        Inl e \<Rightarrow> Inl (BadRunFutures e)
      | Inr r \<Rightarrow>
          (let (prime, ks) = splitAt (srCandles r) from_ts prime_bars
           in if length ks < 2 then Inl (FewContinuous (syTicker s) (length ks))
              else Inr \<lparr>isSymbol = s, isPrime = prime, isCandles = ks\<rparr>))"

definition candlesInstrument :: "services \<Rightarrow> symbol \<Rightarrow> string \<Rightarrow> time \<Rightarrow> time \<Rightarrow> int \<Rightarrow> run_fault + instrument" where
  "candlesInstrument sv s tf from_ts to_ts prime_bars =
     (case Load (svCal sv) (svCandles sv) (syID s) tf from_ts to_ts runner_MaxBars of
        Inl e \<Rightarrow> Inl (BadRunRead e)
      | Inr r \<Rightarrow>
          if srBaseBars r \<ge> runner_MaxBars then Inl (TooManyBars (syTicker s))
          else if length (srCandles r) < 2 then Inl (FewCandles (syTicker s) (length (srCandles r)))
          else
            (case Prime_candles (svCal sv) (svCandles sv)
                    \<lparr>pmSymbolID = syID s, pmTimeframe = tf, pmBefore = cTS (hd (srCandles r)), pmBars = prime_bars\<rparr> of
               Inl e \<Rightarrow> Inl (BadRunRead e)
             | Inr prime \<Rightarrow> Inr \<lparr>isSymbol = s, isPrime = prime, isCandles = srCandles r\<rparr>))"

fun load_instruments :: "services \<Rightarrow> string \<Rightarrow> time \<Rightarrow> time \<Rightarrow> int \<Rightarrow> symbol list \<Rightarrow> run_fault + instrument list" where
  "load_instruments sv tf from_ts to_ts prime_bars [] = Inr []"
| "load_instruments sv tf from_ts to_ts prime_bars (s # ss) =
     and_then (if symbol_Future s then futuresInstrument sv s tf from_ts to_ts prime_bars
               else candlesInstrument sv s tf from_ts to_ts prime_bars)
       (\<lambda>inst. and_then (load_instruments sv tf from_ts to_ts prime_bars ss) (\<lambda>rest. Inr (inst # rest)))"

definition execute :: "services \<Rightarrow> run_row \<Rightarrow> db \<Rightarrow> run_fault + run_result" where
  "execute sv row d =
     (case Parse (svRegistry sv) (Some (rrSpec row)) of
        Inl e \<Rightarrow> Inl (BadRunSpec e)
      | Inr s \<Rightarrow>
     (case Compile (svRegistry sv) s of
        Inl e \<Rightarrow> Inl (BadRunPlan e)
      | Inr pl \<Rightarrow>
     (case ParseTimeframe (rrTimeframe row) of
        Inl e \<Rightarrow> Inl (BadRunTimeframe e)
      | Inr tf \<Rightarrow>
     and_then (run_basket row d) (\<lambda>basket.
       (let from_ts = day_start (svCal sv) (rrStartDate row);
            to_ts = day_start (svCal sv) (rrEndDate row)
        in and_then (load_instruments sv tf from_ts to_ts (plPrimeBars pl) basket) (\<lambda>insts.
             (case Run (svEnv sv) (Some pl)
                     \<lparr>rqPlan = pl, rqInstruments = insts, rqTimeframe = tf, rqCapital = rrCapital row,
                      rqIndex = run_index sv (map syID basket) tf from_ts to_ts d, rqIndexSymbol = IndexTicker,
                      rqRates = svRates sv, rqBorrow = svBorrow sv, rqBarsPerYear = BarsPerYear (svCal sv) tf\<rparr> of
                Inl e \<Rightarrow> Inl (BadRun e)
              | Inr r \<Rightarrow> Inr r)))))))"

section \<open>The result of a run\<close>

text \<open>\<open>json.Marshal\<close> of the metrics: refused when a number is not finite, and what the fields it leaves out read back as.\<close>

definition bench_finite :: "benchmark \<Rightarrow> bool" where
  "bench_finite b \<longleftrightarrow>
     list_all is_fin [bmReturnPct b, bmCAGRPct b, bmVolatilityPct b, bmMaxDrawdownPct b, bmSharpe b, bmExcessPct b,
       bmCorrelation b, bmBeta b]"

definition stats_finite :: "symbol_stats \<Rightarrow> bool" where
  "stats_finite s \<longleftrightarrow>
     list_all is_fin [ssWinRatePct s, ssBorrowAnnualPct s, ssTimeInMarket s, ssContributionPct s, ssReturnPct s, ssCAGRPct s,
       ssVolatilityPct s, ddPct (ssMaxDrawdown s), ssSharpe s, ssSortino s, ssCalmar s] \<and>
     pred_option is_fin (ssProfitFactor s) \<and> list_all bench_finite (ssBenchmarks s)"

definition metrics_finite :: "metrics \<Rightarrow> bool" where
  "metrics_finite m \<longleftrightarrow>
     list_all is_fin [mTimeInMarket m, mBarsPerYear m, mReturnPct m, mCAGRPct m, mVolatilityPct m, ddPct (mMaxDrawdown m),
       mSharpe m, mSortino m, mCalmar m, mRiskFreePct m, mWinRatePct m, mAvgHoldingBars m] \<and>
     pred_option is_fin (mProfitFactor m) \<and> list_all stats_finite (mSymbols m) \<and> list_all bench_finite (mBenchmarks m)"

definition stored_bench :: "benchmark \<Rightarrow> benchmark" where
  "stored_bench b = b\<lparr>bmCurve := None, bmSteps := []\<rparr>"

definition stored_metrics :: "metrics \<Rightarrow> metrics" where
  "stored_metrics m =
     m\<lparr>mSymbols := map (\<lambda>s. s\<lparr>ssSymbolID := 0, ssBenchmarks := map stored_bench (ssBenchmarks s)\<rparr>) (mSymbols m),
       mBenchmarks := map stored_bench (mBenchmarks m)\<rparr>"

definition curveAt :: "i64 list option \<Rightarrow> nat \<Rightarrow> i64 option" where
  "curveAt curve i = (case curve of None \<Rightarrow> None | Some xs \<Rightarrow> if i < length xs then Some (xs ! i) else None)"

definition equity_rows :: "uuid \<Rightarrow> run_result \<Rightarrow> equity_row list" where
  "equity_rows i r =
     map (\<lambda>(k, p). \<lparr>eqRun = i, eqTS = epTS p, eqCents = epCents p, eqHold = curveAt (rlHold r) k, eqIndex = curveAt (rlIndex r) k\<rparr>)
       (enumerate 0 (rlEquity r))"

definition sleeve_rows :: "uuid \<Rightarrow> run_result \<Rightarrow> sleeve_row list" where
  "sleeve_rows i r =
     concat (map (\<lambda>s. map (\<lambda>p. \<lparr>seRun = i, seSymbolID = slvSymbolID s, seTS = epTS p, seCents = epCents p\<rparr>) (slvEquity s)) (rlSleeves r))"

definition trade_rows :: "uuid \<Rightarrow> run_result \<Rightarrow> (uuid \<times> trade) list" where
  "trade_rows i r = map (\<lambda>t. (i, t)) (rlTrades r)"

datatype finish_error = MetricsNotEncodable | BadWrite db_error

text \<open>One transaction: the rows of the result and the end of the run, or nothing.\<close>

definition write_result :: "time \<Rightarrow> uuid \<Rightarrow> run_result \<Rightarrow> db \<Rightarrow> db_error + db" where
  "write_result now i r d =
     and_then (CreateBacktestTrades (trade_rows i r) d) (\<lambda>d1.
     and_then (CreateBacktestEquity (equity_rows i r) d1) (\<lambda>d2.
     and_then (CreateBacktestSymbolEquity (sleeve_rows i r) d2) (\<lambda>d3.
       Inr (FinishBacktestRun now i (stored_metrics (rlMetrics r)) d3))))"

definition finish :: "time \<Rightarrow> run_row \<Rightarrow> run_result \<Rightarrow> db \<Rightarrow> finish_error + db" where
  "finish now row r d =
     (if \<not> metrics_finite (rlMetrics r) then Inl MetricsNotEncodable
      else (case write_result now (rrID row) r d of Inl e \<Rightarrow> Inl (BadWrite e) | Inr d' \<Rightarrow> Inr d'))"

definition fail_run :: "time \<Rightarrow> run_row \<Rightarrow> run_fault \<Rightarrow> db \<Rightarrow> db" where
  "fail_run now row e = FailBacktestRun now (rrID row) e"

definition requeue_run :: "run_row \<Rightarrow> db \<Rightarrow> db" where
  "requeue_run row = RequeueBacktestRun (rrID row)"

section \<open>Walking forward\<close>

definition row_score :: "string \<Rightarrow> run_row \<Rightarrow> f64 option" where
  "row_score obj r =
     Option.bind (rrMetrics r) (\<lambda>m. Option.bind (map_of objectives obj) (Score m))"

fun best_from :: "string \<Rightarrow> (run_row \<times> f64) option \<Rightarrow> run_row list \<Rightarrow> (run_row \<times> f64) option" where
  "best_from obj best [] = best"
| "best_from obj best (r # rs) =
     (case row_score obj r of
        None \<Rightarrow> best_from obj best rs
      | Some s \<Rightarrow>
          (case best of
             None \<Rightarrow> best_from obj (Some (r, s)) rs
           | Some (q, t) \<Rightarrow> best_from obj (if s > t then Some (r, s) else best) rs))"

definition bestOf :: "run_row list \<Rightarrow> string \<Rightarrow> run_row option" where
  "bestOf rows obj = map_option fst (best_from obj None rows)"

datatype advance_error = BadSweep db_error | NoFolds | NoSuchFold i32 | BadWindow | BadQueue db_error | BadMembers db_error

text \<open>What \<open>advance\<close> reads: the run to queue for the winner of a fold, when some run of it scored.\<close>

definition winner_params :: "services \<Rightarrow> uuid \<Rightarrow> i32 \<Rightarrow> db \<Rightarrow> advance_error + run_params option" where
  "winner_params sv s f d =
     (case GetSweepByID s d of
        Inl e \<Rightarrow> Inl (BadSweep e)
      | Inr held \<Rightarrow>
     (case swFolds held of
        None \<Rightarrow> Inl NoFolds
      | Some plan \<Rightarrow>
     (case find (\<lambda>candidate. int (foNumber candidate) = sint f) plan of
        None \<Rightarrow> Inl (NoSuchFold f)
      | Some fold_at \<Rightarrow>
     (case fold_Window (svCal sv) fold_at PhaseOutOfSample of
        None \<Rightarrow> Inl BadWindow
      | Some (start, fin) \<Rightarrow>
     (case bestOf (ListSweepFoldRuns s f d) (swObjective held) of
        None \<Rightarrow> Inr None
      | Some winner \<Rightarrow>
          Inr (Some \<lparr>rpUserID = swUserID held, rpStrategyID = swStrategyID held, rpSpec = rrSpec winner,
                     rpSymbolID = swSymbolID held, rpTimeframe = swTimeframe held,
                     rpStartDate = local_day (calLoc (svCal sv)) start, rpEndDate = local_day (calLoc (svCal sv)) fin,
                     rpCapital = swCapital held, rpMaxPositions = swMaxPositions held, rpSweepID = Some s,
                     rpParams = rrParams winner, rpPoint = rrPoint winner, rpFold = Some f,
                     rpPhase = Some PhaseOutOfSample\<rparr>))))))"

text \<open>The two writes of \<open>advance\<close>: the run, then its basket, each a statement of its own. A run that is already
  there is no error.\<close>

definition advance_run :: "services \<Rightarrow> uuid \<Rightarrow> time \<Rightarrow> uuid \<Rightarrow> i32 \<Rightarrow> db \<Rightarrow> advance_error + db \<times> run_row option" where
  "advance_run sv new_id now s f d =
     and_then (winner_params sv s f d) (\<lambda>p.
       (case p of
          None \<Rightarrow> Inr (d, None)
        | Some p' \<Rightarrow>
            (case CreateBacktestRun new_id now p' d of
               Inl UniqueViolation \<Rightarrow> Inr (d, None)
             | Inl e \<Rightarrow> Inl (BadQueue e)
             | Inr (d', r) \<Rightarrow> Inr (d', Some r))))"

definition advance_basket :: "uuid \<Rightarrow> run_row \<Rightarrow> db \<Rightarrow> advance_error + db" where
  "advance_basket s created d =
     (case CreateBacktestRunSymbols (map (\<lambda>(k, m). \<lparr>mbOwner = rrID created, mbOrd = k, mbSymbolID = smID m\<rparr>) (ListSweepSymbols s d)) d of
        Inl e \<Rightarrow> Inl (BadMembers e)
      | Inr d' \<Rightarrow> Inr d')"

definition advance_fold :: "services \<Rightarrow> uuid \<Rightarrow> time \<Rightarrow> uuid \<Rightarrow> i32 \<Rightarrow> db \<Rightarrow> db" where
  "advance_fold sv new_id now s f d =
     (case advance_run sv new_id now s f d of
        Inl _ \<Rightarrow> d
      | Inr (d', None) \<Rightarrow> d'
      | Inr (d', Some r) \<Rightarrow> (case advance_basket s r d' of Inl _ \<Rightarrow> d' | Inr d'' \<Rightarrow> d''))"

text \<open>The identifiers that are drawn come from \<open>ids\<close>, one for each fold. A fold that cannot be advanced is logged and left.\<close>

fun promote_folds :: "services \<Rightarrow> (nat \<Rightarrow> uuid) \<Rightarrow> time \<Rightarrow> nat \<Rightarrow> (uuid \<times> i32 option) list \<Rightarrow> db \<Rightarrow> db" where
  "promote_folds sv ids now n [] d = d"
| "promote_folds sv ids now n ((s, f) # ready) d =
     promote_folds sv ids now (n + 1) ready (case f of None \<Rightarrow> d | Some k \<Rightarrow> advance_fold sv (ids n) now s k d)"

definition promote :: "services \<Rightarrow> (nat \<Rightarrow> uuid) \<Rightarrow> time \<Rightarrow> db \<Rightarrow> db" where
  "promote sv ids now d = promote_folds sv ids now 0 (ReadyWalkForwardFolds d) d"

section \<open>One step of a worker\<close>

text \<open>How the context of a run ends: not at all, by the shutdown before or after its last read, or by its deadline.\<close>

datatype context_end = CtxLive | CtxCancelled | CtxCancelledLate | CtxDeadline

definition shut_down :: "context_end \<Rightarrow> bool" where
  "shut_down cx \<longleftrightarrow> cx = CtxCancelled \<or> cx = CtxCancelledLate"

definition settled :: "services \<Rightarrow> context_end \<Rightarrow> (nat \<Rightarrow> uuid) \<Rightarrow> time \<Rightarrow> run_row \<Rightarrow> db \<Rightarrow> db" where
  "settled sv cx ids now row d = (if rrSweepID row = None \<or> shut_down cx then d else promote sv ids now d)"

definition run_outcome :: "services \<Rightarrow> context_end \<Rightarrow> run_row \<Rightarrow> db \<Rightarrow> run_fault + run_result" where
  "run_outcome sv cx row d = (if cx = CtxLive \<or> cx = CtxCancelledLate then execute sv row d else Inl RunTimedOut)"

definition runner_step :: "services \<Rightarrow> context_end \<Rightarrow> (nat \<Rightarrow> uuid) \<Rightarrow> time \<Rightarrow> time \<Rightarrow> db \<Rightarrow> db \<times> bool" where
  "runner_step sv cx ids began ended d =
     (case ClaimBacktestRun began d of
        Inl _ \<Rightarrow> (d, False)
      | Inr (d1, row) \<Rightarrow>
          (case run_outcome sv cx row d1 of
             Inr r \<Rightarrow> (settled sv cx ids ended row (case finish ended row r d1 of Inl _ \<Rightarrow> d1 | Inr d2 \<Rightarrow> d2), True)
           | Inl e \<Rightarrow>
               if shut_down cx then (requeue_run row d1, True)
               else (settled sv cx ids ended row (fail_run ended row e d1), True)))"

end
