(* ===== verification/Api.thy ===== *)
theory Api
  imports Runner
begin

text \<open>
  The handlers that queue work (internal/api/backtests.go, sweeps.go and the compilation of a specification in
  strategies.go), from the decoded body of a request and the authenticated user to the database and the answer.
  An identifier of a request is \<open>None\<close> when its text is not a UUID. The identifiers a request draws and the
  clock are arguments; the texts of the errors, the headers and the log are left out.
\<close>

definition maxActiveBacktests :: nat where "maxActiveBacktests = 5"
definition maxBasket :: nat where "maxBasket = 20"
definition minCapitalCents :: i64 where "minCapitalCents = 10000"
definition maxCapitalCents :: i64 where "maxCapitalCents = 1000000000000"
definition defaultCapitalCents :: i64 where "defaultCapitalCents = 10000000"
definition maxActiveSweeps :: nat where "maxActiveSweeps = 1"

datatype bad_request =
    NotUUID
  | BadTimeframe tf_error
  | TooManySymbols nat
  | SymbolRequired
  | DayRequired string
  | BadDay string
  | EndBeforeStart
  | BadCapital i64
  | SpecMissing
  | SpecFault fault
  | BadKind string
  | BadObjective string
  | BadAxes sweep_error
  | BadFolds fold_error
  | TooManyRuns nat nat

datatype api_error = BadRequest bad_request | NoSuchStrategy | NoSuchSymbol string | NoSuchRun | NoSuchSweep | Conflict nat | Internal

section \<open>What the requests share\<close>

definition int32Of :: "nat \<Rightarrow> i32" where
  "int32Of n = (if n > 2147483647 then 2147483647 else word_of_nat n)"

text \<open>The tickers of a basket: trimmed, in upper case, each once.\<close>

fun normalized_from :: "string list \<Rightarrow> string list \<Rightarrow> string list" where
  "normalized_from seen [] = []"
| "normalized_from seen (t # ts) =
     (let clean = to_upper (trim_space t)
      in if clean = [] \<or> clean \<in> set seen then normalized_from seen ts else clean # normalized_from (clean # seen) ts)"

definition normalizeTickers :: "string list \<Rightarrow> bad_request + string list" where
  "normalizeTickers raw =
     (let ts = normalized_from [] raw in if length ts > maxBasket then Inl (TooManySymbols (length ts)) else Inr ts)"

definition readBasket :: "string \<Rightarrow> string list \<Rightarrow> bad_request + string list" where
  "readBasket single many =
     and_then (normalizeTickers (if many = [] \<and> trim_space single \<noteq> [] then [single] else many)) (\<lambda>ts.
       if ts = [] then Inl SymbolRequired else Inr ts)"

definition backtestCapital :: "i64 \<Rightarrow> bad_request + i64" where
  "backtestCapital cents =
     (if cents = 0 then Inr defaultCapitalCents
      else if cents <s minCapitalCents \<or> maxCapitalCents <s cents then Inl (BadCapital cents)
      else Inr cents)"

definition parseDay :: "calendar \<Rightarrow> string \<Rightarrow> string \<Rightarrow> bad_request + time" where
  "parseDay c value name =
     (let trimmed = trim_space value
      in if trimmed = [] then Inl (DayRequired name)
         else (case date_in c trimmed of None \<Rightarrow> Inl (BadDay name) | Some t \<Rightarrow> Inr t))"

record run_window =
  rwTimeframe :: string
  rwStart :: time
  rwEnd :: time
  rwCapital :: i64

definition readWindow :: "calendar \<Rightarrow> string \<Rightarrow> string \<Rightarrow> string \<Rightarrow> i64 \<Rightarrow> bad_request + run_window" where
  "readWindow c tf from_text to_text cents =
     and_then (parseDay c from_text ''start'') (\<lambda>start.
     and_then (parseDay c to_text ''end'') (\<lambda>fin.
       if fin < start then Inl EndBeforeStart
       else and_then (backtestCapital cents) (\<lambda>capital.
              Inr \<lparr>rwTimeframe = tf, rwStart = start, rwEnd = fin, rwCapital = capital\<rparr>)))"

definition findSymbol :: "string \<Rightarrow> db \<Rightarrow> api_error + symbol_row" where
  "findSymbol t d =
     (let ticker = to_upper (trim_space t)
      in case GetSymbolByTicker ticker d of Inl _ \<Rightarrow> Inl (NoSuchSymbol ticker) | Inr s \<Rightarrow> Inr s)"

fun findBasket :: "string list \<Rightarrow> db \<Rightarrow> api_error + symbol_row list" where
  "findBasket [] d = Inr []"
| "findBasket (t # ts) d = and_then (findSymbol t d) (\<lambda>s. and_then (findBasket ts d) (\<lambda>rest. Inr (s # rest)))"

definition GetStrategy :: "uuid \<Rightarrow> uuid \<Rightarrow> db \<Rightarrow> db_error + strategy_row" where
  "GetStrategy i u d = one_row (filter (\<lambda>s. sgID s = i \<and> sgUserID s = u) (dbStrategies d))"

definition bad :: "bad_request + 'a \<Rightarrow> api_error + 'a" where
  "bad r = (case r of Inl e \<Rightarrow> Inl (BadRequest e) | Inr x \<Rightarrow> Inr x)"

text \<open>The specification in its canonical form, and its plan.\<close>

definition compileSpec :: "spec list \<Rightarrow> json option \<Rightarrow> api_error + json \<times> plan" where
  "compileSpec reg raw =
     (case raw of
        None \<Rightarrow> Inl (BadRequest SpecMissing)
      | Some v \<Rightarrow>
          (case Parse reg (Some v) of
             Inl flt \<Rightarrow> Inl (BadRequest (SpecFault flt))
           | Inr s \<Rightarrow>
               if \<not> encodable (marshal_spec s) then Inl Internal
               else (case Compile reg s of Inl _ \<Rightarrow> Inl Internal | Inr pl \<Rightarrow> Inr (marshal_spec s, pl))))"

section \<open>Queueing a run\<close>

record backtest_request =
  bqStrategyID :: "uuid option"
  bqSymbol :: string
  bqSymbols :: "string list"
  bqTimeframe :: string
  bqStart :: string
  bqEnd :: string
  bqCapital :: i64

definition basket_rows :: "uuid \<Rightarrow> symbol_row list \<Rightarrow> member_row list" where
  "basket_rows i basket = map (\<lambda>(k, s). \<lparr>mbOwner = i, mbOrd = word_of_nat k, mbSymbolID = smID s\<rparr>) (enumerate 0 basket)"

text \<open>A run and its basket in one transaction.\<close>

definition createRun :: "uuid \<Rightarrow> time \<Rightarrow> run_params \<Rightarrow> symbol_row list \<Rightarrow> db \<Rightarrow> db_error + db \<times> run_row" where
  "createRun new_id now p basket d =
     and_then (CreateBacktestRun new_id now p d) (\<lambda>(d1, row).
     and_then (CreateBacktestRunSymbols (basket_rows (rrID row) basket) d1) (\<lambda>d2. Inr (d2, row)))"

definition backtest_params :: "calendar \<Rightarrow> uuid \<Rightarrow> uuid \<Rightarrow> json \<Rightarrow> run_window \<Rightarrow> nat \<Rightarrow> symbol_row list \<Rightarrow> run_params" where
  "backtest_params c user strategy canonical w positions basket =
     \<lparr>rpUserID = user, rpStrategyID = strategy, rpSpec = canonical, rpSymbolID = smID (hd basket), rpTimeframe = rwTimeframe w,
      rpStartDate = local_day (calLoc c) (rwStart w), rpEndDate = local_day (calLoc c) (rwEnd w), rpCapital = rwCapital w,
      rpMaxPositions = int32Of positions, rpSweepID = None, rpParams = None, rpPoint = None, rpFold = None, rpPhase = None\<rparr>"

definition handleCreateBacktest :: "services \<Rightarrow> uuid \<Rightarrow> time \<Rightarrow> uuid \<Rightarrow> backtest_request \<Rightarrow> db \<Rightarrow> api_error + db \<times> run_row" where
  "handleCreateBacktest sv new_id now user body d =
     (case bqStrategyID body of
        None \<Rightarrow> Inl (BadRequest NotUUID)
      | Some strategy \<Rightarrow>
     (case ParseTimeframe (bqTimeframe body) of
        Inl e \<Rightarrow> Inl (BadRequest (BadTimeframe e))
      | Inr tf \<Rightarrow>
     and_then (bad (readBasket (bqSymbol body) (bqSymbols body))) (\<lambda>tickers.
     and_then (bad (readWindow (svCal sv) tf (bqStart body) (bqEnd body) (bqCapital body))) (\<lambda>w.
     (case GetStrategy strategy user d of
        Inl _ \<Rightarrow> Inl NoSuchStrategy
      | Inr stored \<Rightarrow>
     and_then (compileSpec (svRegistry sv) (Some (sgSpec stored))) (\<lambda>(canonical, pl).
     and_then (findBasket tickers d) (\<lambda>basket.
       if CountActiveBacktestRuns user d \<ge> maxActiveBacktests then Inl (Conflict maxActiveBacktests)
       else
         (case createRun new_id now (backtest_params (svCal sv) user strategy canonical w (length tickers) basket) basket d of
            Inl _ \<Rightarrow> Inl Internal
          | Inr r \<Rightarrow> Inr r))))))))"

section \<open>Queueing a sweep\<close>

record sweep_request =
  sqStrategyID :: "uuid option"
  sqKind :: string
  sqObjective :: string
  sqSymbol :: string
  sqSymbols :: "string list"
  sqTimeframe :: string
  sqStart :: string
  sqEnd :: string
  sqCapital :: i64
  sqAxes :: "axis_request list"
  sqInSampleDays :: i64
  sqOutOfSampleDays :: i64

definition readFolds :: "calendar \<Rightarrow> string \<Rightarrow> run_window \<Rightarrow> sweep_request \<Rightarrow> nat \<Rightarrow> bad_request + sweep_fold list" where
  "readFolds c kind w body points =
     (if kind \<noteq> KindWalkForward then Inr []
      else
        (case Folds c (rwStart w) (rwEnd w) (sqInSampleDays body) (sqOutOfSampleDays body) of
           Inl e \<Rightarrow> Inl (BadFolds e)
         | Inr folds \<Rightarrow> if length folds * points > MaxRuns then Inl (TooManyRuns (length folds) points) else Inr folds))"

record child_window =
  cwFold :: "i32 option"
  cwPhase :: "phase option"
  cwStart :: time
  cwEnd :: time

record sweep_plan =
  slUserID :: uuid
  slStrategyID :: uuid
  slKind :: string
  slObjective :: string
  slSpec :: json
  slAxes :: "axis list"
  slFolds :: "sweep_fold list"
  slPoints :: "point list"
  slWindow :: run_window
  slPositions :: nat
  slBasket :: "symbol_row list"

fun fold_windows :: "calendar \<Rightarrow> sweep_fold list \<Rightarrow> child_window list option" where
  "fold_windows c [] = Some []"
| "fold_windows c (f # fs) =
     (case fold_Window c f PhaseInSample of
        None \<Rightarrow> None
      | Some (start, fin) \<Rightarrow>
          (case fold_windows c fs of
             None \<Rightarrow> None
           | Some ws \<Rightarrow>
               Some (\<lparr>cwFold = Some (int32Of (foNumber f)), cwPhase = Some PhaseInSample, cwStart = start, cwEnd = fin\<rparr> # ws)))"

definition child_windows :: "calendar \<Rightarrow> sweep_plan \<Rightarrow> child_window list option" where
  "child_windows c p =
     (if slKind p = KindWalkForward then fold_windows c (slFolds p)
      else Some [\<lparr>cwFold = None, cwPhase = None, cwStart = rwStart (slWindow p), cwEnd = rwEnd (slWindow p)\<rparr>])"

definition child_params :: "calendar \<Rightarrow> uuid \<Rightarrow> sweep_plan \<Rightarrow> child_window \<Rightarrow> point \<Rightarrow> run_params" where
  "child_params c sweep p w pt =
     \<lparr>rpUserID = slUserID p, rpStrategyID = slStrategyID p, rpSpec = ptSpec pt, rpSymbolID = smID (hd (slBasket p)),
      rpTimeframe = rwTimeframe (slWindow p), rpStartDate = local_day (calLoc c) (cwStart w),
      rpEndDate = local_day (calLoc c) (cwEnd w), rpCapital = rwCapital (slWindow p),
      rpMaxPositions = int32Of (slPositions p), rpSweepID = Some sweep, rpParams = Some (ptValues pt),
      rpPoint = Some (int32Of (ptIndex pt)), rpFold = cwFold w, rpPhase = cwPhase w\<rparr>"

definition finite_values :: "(string \<times> f64) list \<Rightarrow> bool" where
  "finite_values vs \<longleftrightarrow> list_all (\<lambda>(k, v). is_fin v) vs"

text \<open>The children of a sweep, one for each window and point, the \<open>k\<close>-th with the identifier \<open>ids k\<close>, and their baskets.\<close>

definition childRuns :: "calendar \<Rightarrow> (nat \<Rightarrow> uuid) \<Rightarrow> uuid \<Rightarrow> sweep_plan \<Rightarrow> ((uuid \<times> run_params) list \<times> member_row list) option" where
  "childRuns c ids sweep p =
     (case child_windows c p of
        None \<Rightarrow> None
      | Some ws \<Rightarrow>
          if ws \<noteq> [] \<and> \<not> list_all (\<lambda>pt. finite_values (ptValues pt)) (slPoints p) then None
          else
            (let runs = map (\<lambda>(k, w, pt). (ids k, child_params c sweep p w pt)) (enumerate 0 (List.product ws (slPoints p)))
             in Some (runs, concat (map (\<lambda>(i, _). basket_rows i (slBasket p)) runs))))"

definition sweep_params_of :: "calendar \<Rightarrow> sweep_plan \<Rightarrow> sweep_params" where
  "sweep_params_of c p =
     \<lparr>spUserID = slUserID p, spStrategyID = slStrategyID p, spKind = slKind p, spSpec = slSpec p, spAxes = slAxes p,
      spFolds = (if slFolds p = [] then None else Some (slFolds p)), spObjective = slObjective p,
      spSymbolID = smID (hd (slBasket p)), spTimeframe = rwTimeframe (slWindow p),
      spStartDate = local_day (calLoc c) (rwStart (slWindow p)), spEndDate = local_day (calLoc c) (rwEnd (slWindow p)),
      spCapital = rwCapital (slWindow p), spMaxPositions = int32Of (slPositions p),
      spPoints = int32Of (length (slPoints p))\<rparr>"

definition createSweep :: "calendar \<Rightarrow> (nat \<Rightarrow> uuid) \<Rightarrow> uuid \<Rightarrow> time \<Rightarrow> sweep_plan \<Rightarrow> db \<Rightarrow> (db \<times> sweep_row) option" where
  "createSweep c ids new_id now p d =
     (if \<not> list_all (\<lambda>a. list_all is_fin (axValues a)) (slAxes p) then None
      else
        (case CreateSweep new_id now (sweep_params_of c p) d of
           Inl _ \<Rightarrow> None
         | Inr (d1, row) \<Rightarrow>
             (case CreateSweepSymbols (basket_rows new_id (slBasket p)) d1 of
                Inl _ \<Rightarrow> None
              | Inr d2 \<Rightarrow>
                  (case childRuns c ids new_id p of
                     None \<Rightarrow> None
                   | Some (runs, baskets) \<Rightarrow>
                       (case and_then (CreateSweepRuns now runs d2) (CreateBacktestRunSymbols baskets) of
                          Inl _ \<Rightarrow> None
                        | Inr d3 \<Rightarrow> Some (d3, row))))))"

definition handleCreateSweep :: "services \<Rightarrow> (nat \<Rightarrow> uuid) \<Rightarrow> uuid \<Rightarrow> time \<Rightarrow> uuid \<Rightarrow> sweep_request \<Rightarrow> db \<Rightarrow> api_error + db \<times> sweep_row" where
  "handleCreateSweep sv ids new_id now user body d =
     (case sqStrategyID body of
        None \<Rightarrow> Inl (BadRequest NotUUID)
      | Some strategy \<Rightarrow>
     (case sweep_ParseKind (sqKind body) of
        None \<Rightarrow> Inl (BadRequest (BadKind (sqKind body)))
      | Some kind \<Rightarrow>
     (case ParseObjective (sqObjective body) of
        None \<Rightarrow> Inl (BadRequest (BadObjective (sqObjective body)))
      | Some obj \<Rightarrow>
     (case ReadAxes (sqAxes body) of
        Inl e \<Rightarrow> Inl (BadRequest (BadAxes e))
      | Inr axes \<Rightarrow>
     (case ParseTimeframe (sqTimeframe body) of
        Inl e \<Rightarrow> Inl (BadRequest (BadTimeframe e))
      | Inr tf \<Rightarrow>
     and_then (bad (readBasket (sqSymbol body) (sqSymbols body))) (\<lambda>tickers.
     and_then (bad (readWindow (svCal sv) tf (sqStart body) (sqEnd body) (sqCapital body))) (\<lambda>w.
     (case GetStrategy strategy user d of
        Inl _ \<Rightarrow> Inl NoSuchStrategy
      | Inr stored \<Rightarrow>
     and_then (compileSpec (svRegistry sv) (Some (sgSpec stored))) (\<lambda>(canonical, pl).
     (case Grid (svRegistry sv) canonical axes of
        Inl e \<Rightarrow> Inl (BadRequest (BadAxes e))
      | Inr points \<Rightarrow>
     and_then (bad (readFolds (svCal sv) kind w body (length points))) (\<lambda>folds.
     and_then (findBasket tickers d) (\<lambda>basket.
       if CountActiveSweeps user d \<ge> maxActiveSweeps then Inl (Conflict maxActiveSweeps)
       else
         (case createSweep (svCal sv) ids new_id now
                 \<lparr>slUserID = user, slStrategyID = strategy, slKind = kind, slObjective = obj, slSpec = canonical, slAxes = axes,
                  slFolds = folds, slPoints = points, slWindow = w, slPositions = length tickers, slBasket = basket\<rparr> d of
            None \<Rightarrow> Inl Internal
          | Some r \<Rightarrow> Inr r)))))))))))))"

definition handleDeleteSweep :: "uuid option \<Rightarrow> uuid \<Rightarrow> db \<Rightarrow> api_error + db" where
  "handleDeleteSweep path user d =
     (case path of
        None \<Rightarrow> Inl (BadRequest NotUUID)
      | Some i \<Rightarrow> (let (d', n) = DeleteSweep i user d in if n = 0 then Inl NoSuchSweep else Inr d'))"

end
