(* ===== verification/Queue.thy ===== *)
theory Queue
  imports Api
begin

text \<open>
  The order in which the queue is served, the choice of the winner of a fold, and what the statements that append
  rows promise: one contract, a locale, for every table of a result and of a basket.
\<close>

section \<open>The queue is served in order\<close>

definition queued_runs :: "db \<Rightarrow> run_row list" where
  "queued_runs d = filter (\<lambda>r. rrStatus r = StQueued) (dbRuns d)"

text \<open>The claims of the workers, one after the other, and the runs they were given.\<close>

fun claim_all :: "time list \<Rightarrow> db \<Rightarrow> db \<times> run_row list" where
  "claim_all [] d = (d, [])"
| "claim_all (t # ts) d =
     (case ClaimBacktestRun t d of
        Inl _ \<Rightarrow> claim_all ts d
      | Inr (d', r) \<Rightarrow> (let (d'', rs) = claim_all ts d' in (d'', r # rs)))"

definition run_ids :: "db \<Rightarrow> uuid list" where "run_ids d = map rrID (dbRuns d)"

lemma run_ids_update: "(\<And>r. rrID (f r) = rrID r) \<Longrightarrow> run_ids (update_runs p f d) = run_ids d"
  by (simp add: run_ids_def update_runs_def)

lemma claimed_id [simp]: "rrID (claimed t r) = rrID r" "rrStatus (claimed t r) = StRunning"
  by (simp_all add: claimed_def)

lemma one_row_Inr: "one_row xs = Inr x \<longleftrightarrow> (\<exists>ys. xs = x # ys)"
  by (cases xs) (auto simp: one_row_def)

lemma claim_cases:
  "ClaimBacktestRun t d =
     (case sort_key claim_key (queued_runs d) of
        [] \<Rightarrow> Inl NoRows
      | r # rs \<Rightarrow> Inr (update_runs (\<lambda>q. rrID q = rrID r) (claimed t) d, claimed t r))"
  by (cases "sort_key claim_key (queued_runs d)")
     (simp_all add: ClaimBacktestRun_def next_queued_def queued_runs_def one_row_def)

lemma filter_updated:
  "(\<And>r. p r \<Longrightarrow> \<not> P (f r)) \<Longrightarrow> filter P (map (\<lambda>r. if p r then f r else r) xs) = filter (\<lambda>r. P r \<and> \<not> p r) xs"
  by (induction xs) auto

lemma queued_after_claim:
  "queued_runs (update_runs (\<lambda>q. rrID q = i) (claimed t) d) = filter (\<lambda>q. rrID q \<noteq> i) (queued_runs d)"
  by (simp add: queued_runs_def update_runs_def filter_updated conj_commute)

lemma sorted_after_claim:
  assumes "distinct (run_ids d)" "sort_key claim_key (queued_runs d) = r # rs"
  shows "sort_key claim_key (queued_runs (update_runs (\<lambda>q. rrID q = rrID r) (claimed t) d)) = rs"
proof -
  have "distinct (map rrID (queued_runs d))" using assms(1) by (simp add: queued_runs_def run_ids_def distinct_map_filter)
  then have "distinct (map rrID (sort_key claim_key (queued_runs d)))" by (simp add: distinct_map)
  then have "rrID r \<notin> rrID ` set rs" using assms(2) by simp
  then have "filter (\<lambda>q. rrID q \<noteq> rrID r) (r # rs) = rs" by (auto simp: image_iff intro!: filter_True)
  then show ?thesis unfolding queued_after_claim filter_sort [symmetric] assms(2) .
qed

text \<open>C6: The workers are given the queued runs in the order of the queue, the runs of no sweep first and the
  oldest of each kind first, and after as many claims as there are queued runs every one has been given out.\<close>

theorem queue_served_in_order:
  assumes "distinct (run_ids d)"
  shows "map rrID (snd (claim_all ts d)) = map rrID (take (length ts) (sort_key claim_key (queued_runs d))) \<and>
    queued_runs (fst (claim_all ts d)) =
      filter (\<lambda>r. rrID r \<notin> set (map rrID (snd (claim_all ts d)))) (queued_runs d)"
  using assms
proof (induction ts arbitrary: d)
  case (Cons t ts)
  show ?case
  proof (cases "sort_key claim_key (queued_runs d)")
    case Nil
    then have "claim_all ts d = (d, [])" for ts by (induction ts) (simp_all add: claim_cases)
    then show ?thesis using Nil by (simp add: claim_cases)
  next
    case (Cons r rs)
    let ?d = "update_runs (\<lambda>q. rrID q = rrID r) (claimed t) d"
    have ids: "distinct (run_ids ?d)" using Cons.prems by (simp add: run_ids_update)
    obtain d' rest where e: "claim_all ts ?d = (d', rest)" by fastforce
    have a: "map rrID rest = map rrID (take (length ts) rs)"
      using Cons.IH [OF ids] sorted_after_claim [OF Cons.prems Cons, of t] e by simp
    have b: "queued_runs d' = filter (\<lambda>q. rrID q \<noteq> rrID r \<and> rrID q \<notin> rrID ` set rest) (queued_runs d)"
      using Cons.IH [OF ids] e by (simp add: queued_after_claim filter_filter)
    have "rrID ` set rest = rrID ` set (take (length ts) rs)" using arg_cong [OF a, of set] by simp
    then show ?thesis using a by (simp add: claim_cases Cons e b)
  qed
qed simp


text \<open>Two runs in the queue, the older of a sweep.\<close>

definition no_rows :: db where
  "no_rows =
     \<lparr>dbUsers = [], dbStrategies = [], dbSymbols = [], dbRuns = [], dbRunSymbols = [], dbTrades = [], dbEquity = [], dbSleeves = [],
      dbSweeps = [], dbSweepSymbols = [], dbBaskets = [], dbBasketSymbols = []\<rparr>"

definition plain_run :: "uuid \<Rightarrow> time \<Rightarrow> uuid option \<Rightarrow> run_row" where
  "plain_run i t sweep =
     queued_run i t \<lparr>rpUserID = 7, rpStrategyID = 8, rpSpec = JNull, rpSymbolID = 1, rpTimeframe = TF1d, rpStartDate = 0,
       rpEndDate = 1, rpCapital = 10000, rpMaxPositions = 1, rpSweepID = sweep, rpParams = None, rpPoint = None,
       rpFold = None, rpPhase = None\<rparr>"

theorem queue_served_in_order_witness:
  "map rrID (snd (claim_all [20, 21] (no_rows\<lparr>dbRuns := [plain_run 1 5 (Some 3), plain_run 2 9 None]\<rparr>))) = [2, 1]"
proof -
  let ?d = "no_rows\<lparr>dbRuns := [plain_run 1 5 (Some 3), plain_run 2 9 None]\<rparr>"
  have "distinct (run_ids ?d)" by (simp add: run_ids_def plain_run_def queued_run_def)
  from queue_served_in_order [OF this, of "[20, 21]"] show ?thesis
    by (simp add: queued_runs_def plain_run_def queued_run_def claim_key_def)
qed

section \<open>The winner of a fold\<close>

definition metrics_stored :: "run_row \<Rightarrow> bool" where
  "metrics_stored r \<longleftrightarrow> pred_option metrics_finite (rrMetrics r)"

lemma finite_number: "is_fin x \<Longrightarrow> x \<noteq> NaN"
  by (cases x) auto

lemma score_number:
  assumes "metrics_stored r" "row_score obj r = Some s"
  shows "s \<noteq> NaN"
proof -
  obtain m ob where m: "rrMetrics r = Some m" "map_of objectives obj = Some ob" "Score m ob = Some s"
    using assms(2) by (auto simp: row_score_def bind_eq_Some_conv)
  have "metrics_finite m" using assms(1) m(1) by (simp add: metrics_stored_def)
  then have f: "is_fin (mReturnPct m)" "is_fin (mCAGRPct m)" "is_fin (mSharpe m)" "is_fin (mSortino m)" "is_fin (mCalmar m)"
    "pred_option is_fin (mProfitFactor m)" by (simp_all add: metrics_finite_def)
  have n: "float_of x \<noteq> NaN" for x :: i64 by (simp add: float_of_def float_of_int_def rnd_def zero_of_def inf_of_def Let_def)
  show ?thesis using m(3) f n
    by (cases ob) (auto simp: Score_def finite_number split: if_splits option.splits)
qed

text \<open>The first row with the best score: every row before it scored less, none after it more.\<close>

definition best_row :: "('a \<Rightarrow> f64 option) \<Rightarrow> 'a list \<Rightarrow> ('a \<times> f64) option \<Rightarrow> bool" where
  "best_row score rows b =
     (case b of
        None \<Rightarrow> list_all (\<lambda>q. score q = None) rows
      | Some (r, s) \<Rightarrow>
          \<exists>pre post. rows = pre @ r # post \<and> score r = Some s \<and>
            list_all (\<lambda>q. pred_option (\<lambda>t. t < s) (score q)) pre \<and> list_all (\<lambda>q. pred_option (\<lambda>t. \<not> s < t) (score q)) post)"

lemma pred_option_all: "pred_option P x \<longleftrightarrow> (\<forall>a. x = Some a \<longrightarrow> P a)"
  by (cases x) auto

lemma best_rowI:
  "rows = pre @ r # post \<Longrightarrow> score r = Some s \<Longrightarrow> list_all (\<lambda>q. pred_option (\<lambda>t. t < s) (score q)) pre \<Longrightarrow>
    list_all (\<lambda>q. pred_option (\<lambda>t. \<not> s < t) (score q)) post \<Longrightarrow> best_row score rows (Some (r, s))"
  by (auto simp: best_row_def)

lemma f64_le_lt: "\<not> x < y \<Longrightarrow> x < z \<Longrightarrow> y \<noteq> NaN \<Longrightarrow> y < (z :: f64)"
  by (cases x; cases y; cases z) (auto simp: less_f64_def)

lemma best_row_worse:
  assumes "best_row score rows (Some (r, s))" "pred_option (\<lambda>t. \<not> s < t) (score q)"
  shows "best_row score (rows @ [q]) (Some (r, s))"
proof -
  obtain pre post where "rows = pre @ r # post" "score r = Some s" "list_all (\<lambda>q. pred_option (\<lambda>t. t < s) (score q)) pre"
    "list_all (\<lambda>q. pred_option (\<lambda>t. \<not> s < t) (score q)) post"
    using assms(1) by (auto simp: best_row_def)
  then show ?thesis using assms(2) by (intro best_rowI [of _ pre r "post @ [q]"]) simp_all
qed

lemma best_row_better:
  assumes "best_row score rows (Some (r, s))" "score q = Some t" "s < t"
    and n: "list_all (\<lambda>q. pred_option (\<lambda>t. t \<noteq> NaN) (score q)) rows"
  shows "best_row score (rows @ [q]) (Some (q, t))"
proof -
  obtain pre post where p: "rows = pre @ r # post" "score r = Some s" "list_all (\<lambda>q. pred_option (\<lambda>t. t < s) (score q)) pre"
    "list_all (\<lambda>q. pred_option (\<lambda>t. \<not> s < t) (score q)) post"
    using assms(1) by (auto simp: best_row_def)
  have "u < t" if "x \<in> set rows" "score x = Some u" for x u
  proof -
    have "u \<noteq> NaN" using n that by (auto simp: list_all_iff)
    moreover have "u < s \<or> u = s \<or> \<not> s < u" using p that by (auto simp: list_all_iff)
    ultimately show ?thesis using assms(3) f64_lt_trans [of u s t] f64_le_lt [of s u t] by auto
  qed
  then have "list_all (\<lambda>q. pred_option (\<lambda>u. u < t) (score q)) rows" by (auto simp: list_all_iff pred_option_all)
  then show ?thesis using assms(2) by (intro best_rowI [of _ rows q "[]"]) simp_all
qed

lemma best_from_row:
  assumes "best_row (row_score obj) seen b"
    and "list_all (\<lambda>q. pred_option (\<lambda>t. t \<noteq> NaN) (row_score obj q)) (seen @ rows)"
  shows "best_row (row_score obj) (seen @ rows) (best_from obj b rows)"
  using assms
proof (induction rows arbitrary: seen b)
  case (Cons q rows)
  let ?b = "best_from obj b [q]"
  have "best_row (row_score obj) (seen @ [q]) ?b"
  proof (cases "row_score obj q")
    case None
    show ?thesis
    proof (cases b)
      case None
      then show ?thesis using Cons.prems(1) \<open>row_score obj q = None\<close> by (simp add: best_row_def)
    next
      case (Some rs)
      then show ?thesis using Cons.prems(1) \<open>row_score obj q = None\<close> best_row_worse [of "row_score obj" seen "fst rs" "snd rs" q] by simp
    qed
  next
    case (Some t)
    show ?thesis
    proof (cases b)
      case None
      then have "list_all (\<lambda>q. pred_option (\<lambda>u. u < t) (row_score obj q)) seen"
        using Cons.prems(1) by (auto simp: best_row_def list_all_iff)
      then have "best_row (row_score obj) (seen @ [q]) (Some (q, t))" using Some by (intro best_rowI [of _ seen q "[]"]) simp_all
      then show ?thesis using None Some by simp
    next
      case b: (Some rs)
      then show ?thesis using Some Cons.prems best_row_worse [of "row_score obj" seen _ _ q]
          best_row_better [of "row_score obj" seen _ _ q t] by (cases rs) auto
    qed
  qed
  moreover have "best_from obj b (q # rows) = best_from obj ?b rows"
    by (simp split: option.splits)
  ultimately show ?case using Cons.IH [of "seen @ [q]" ?b] Cons.prems(2) by simp
qed simp

text \<open>C7: The winner of a fold is the first row, in the order of the grid, whose score is the greatest, and there is a
  winner exactly when some row scored.\<close>

theorem winner_is_first_best:
  assumes "list_all metrics_stored rows"
  shows "case bestOf rows obj of
     None \<Rightarrow> list_all (\<lambda>q. row_score obj q = None) rows
   | Some r \<Rightarrow> \<exists>s. best_row (row_score obj) rows (Some (r, s))"
proof -
  have "list_all (\<lambda>q. pred_option (\<lambda>t. t \<noteq> NaN) (row_score obj q)) rows"
    using assms score_number [of _ obj] by (auto simp: list_all_iff pred_option_all)
  then have "best_row (row_score obj) rows (best_from obj None rows)"
    using best_from_row [of obj "[]" None rows] by (simp add: best_row_def)
  then show ?thesis by (auto simp: bestOf_def best_row_def split: option.splits)
qed

text \<open>Three runs of a fold, the last two tied.\<close>

definition scored_run :: "uuid \<Rightarrow> f64 \<Rightarrow> run_row" where
  "scored_run i x = (plain_run i 0 (Some 3))\<lparr>rrMetrics := Some (new_metrics\<lparr>mTrades := 1, mSharpe := x\<rparr>)\<rparr>"

theorem winner_is_first_best_witness:
  "map_option rrID (bestOf [scored_run 1 (Fin 1), scored_run 2 (Fin 2), scored_run 3 (Fin 2)] ''sharpe'') = Some 2 \<and>
   (\<exists>r s. bestOf [scored_run 1 (Fin 1), scored_run 2 (Fin 2), scored_run 3 (Fin 2)] ''sharpe'' = Some r \<and>
      best_row (row_score ''sharpe'') [scored_run 1 (Fin 1), scored_run 2 (Fin 2), scored_run 3 (Fin 2)] (Some (r, s)))"
proof -
  let ?rows = "[scored_run 1 (Fin 1), scored_run 2 (Fin 2), scored_run 3 (Fin 2)]"
  have "list_all metrics_stored ?rows"
    by (simp add: metrics_stored_def scored_run_def metrics_finite_def new_metrics_def no_drawdown_def zero_f64_def one_f64_def)
  note w = winner_is_first_best [OF this, of "''sharpe''"]
  have "map_option rrID (bestOf ?rows ''sharpe'') = Some 2"
    by (simp add: bestOf_def row_score_def scored_run_def objectives_def Score_def new_metrics_def plain_run_def queued_run_def less_f64_def)
  then show ?thesis using w by (auto split: option.splits)
qed

section \<open>Tables that statements append to\<close>

text \<open>What an insertion promises: a row that fits is appended to its table and nothing else changes. Copying rows
  then appends them all.\<close>

locale table =
  fixes rows_of :: "'d \<Rightarrow> 'r list"
    and set_rows :: "'r list \<Rightarrow> 'd \<Rightarrow> 'd"
    and ins :: "'r \<Rightarrow> 'd \<Rightarrow> 'e + 'd"
    and fits :: "'r \<Rightarrow> 'd \<Rightarrow> bool"
  assumes inserted: "ins x d = Inr d' \<Longrightarrow> fits x d \<and> d' = set_rows (rows_of d @ [x]) d"
    and get_put: "rows_of (set_rows xs d) = xs"
    and put_put: "set_rows ys (set_rows xs d) = set_rows ys d"
    and put_get: "set_rows (rows_of d) d = d"
    and fits_put: "fits x (set_rows xs d) = fits x d"
begin

lemma copied: "copy_rows ins xs d = Inr d' \<Longrightarrow> d' = set_rows (rows_of d @ xs) d \<and> list_all (\<lambda>x. fits x d) xs"
proof (induction xs arbitrary: d)
  case (Cons x xs)
  then obtain d1 where "ins x d = Inr d1" "copy_rows ins xs d1 = Inr d'" by (auto simp: and_then_Inr)
  then show ?case using Cons.IH [of d1] inserted [of x d d1] by (simp add: get_put put_put fits_put)
qed (simp add: put_get)

end

interpretation trades: table dbTrades "\<lambda>xs d. d\<lparr>dbTrades := xs\<rparr>" insert_trade "\<lambda>row d. run_known d (fst row)"
  by unfold_locales (auto simp: insert_trade_def run_known_def split: if_splits)

interpretation equity: table dbEquity "\<lambda>xs d. d\<lparr>dbEquity := xs\<rparr>" insert_equity "\<lambda>row d. run_known d (eqRun row)"
  by unfold_locales (auto simp: insert_equity_def run_known_def split: if_splits)

interpretation sleeves: table dbSleeves "\<lambda>xs d. d\<lparr>dbSleeves := xs\<rparr>" insert_sleeve "\<lambda>row d. run_known d (seRun row)"
  by unfold_locales (auto simp: insert_sleeve_def run_known_def split: if_splits)

interpretation members: table dbRunSymbols "\<lambda>xs d. d\<lparr>dbRunSymbols := xs\<rparr>" insert_run_symbol "\<lambda>row d. run_known d (mbOwner row)"
  by unfold_locales (auto simp: insert_run_symbol_def run_known_def split: if_splits)

interpretation sweep_members: table dbSweepSymbols "\<lambda>xs d. d\<lparr>dbSweepSymbols := xs\<rparr>" insert_sweep_symbol
    "\<lambda>row d. sweep_known d (mbOwner row)"
  by unfold_locales (auto simp: insert_sweep_symbol_def sweep_known_def split: if_splits)

interpretation runs: table dbRuns "\<lambda>xs d. d\<lparr>dbRuns := xs\<rparr>" insert_run "\<lambda>row d. run_checks row"
  by unfold_locales (auto simp: insert_run_def split: if_splits)

lemma write_result_Inr:
  assumes "write_result now i r d = Inr d'"
  shows "d' = FinishBacktestRun now i (stored_metrics (rlMetrics r))
      (d\<lparr>dbTrades := dbTrades d @ trade_rows i r, dbEquity := dbEquity d @ equity_rows i r, dbSleeves := dbSleeves d @ sleeve_rows i r\<rparr>)"
    and "list_all (\<lambda>t. run_known d (fst t)) (trade_rows i r)"
    and "list_all (\<lambda>e. run_known d (eqRun e)) (equity_rows i r)"
    and "list_all (\<lambda>e. run_known d (seRun e)) (sleeve_rows i r)"
proof -
  obtain d1 d2 d3 where w: "copy_rows insert_trade (trade_rows i r) d = Inr d1" "copy_rows insert_equity (equity_rows i r) d1 = Inr d2"
    "copy_rows insert_sleeve (sleeve_rows i r) d2 = Inr d3" "d' = FinishBacktestRun now i (stored_metrics (rlMetrics r)) d3"
    using assms by (auto simp: write_result_def CreateBacktestTrades_def CreateBacktestEquity_def CreateBacktestSymbolEquity_def and_then_Inr)
  note c = trades.copied [OF w(1)] equity.copied [OF w(2)] sleeves.copied [OF w(3)]
  then show "d' = FinishBacktestRun now i (stored_metrics (rlMetrics r))
      (d\<lparr>dbTrades := dbTrades d @ trade_rows i r, dbEquity := dbEquity d @ equity_rows i r, dbSleeves := dbSleeves d @ sleeve_rows i r\<rparr>)"
    using w(4) by simp
  show "list_all (\<lambda>t. run_known d (fst t)) (trade_rows i r)" "list_all (\<lambda>e. run_known d (eqRun e)) (equity_rows i r)"
    "list_all (\<lambda>e. run_known d (seRun e)) (sleeve_rows i r)"
    using c by (simp_all add: run_known_def)
qed

end
