(* ===== verification/Cluster.thy ===== *)
theory Cluster
  imports Queue
begin

text \<open>
  The runner as a whole: workers that claim, execute and end runs, the promotion of folds, the requeueing of
  abandoned runs and the requests that queue and delete, interleaved in any order over one database. A worker
  may crash with its run in hand, or be overtaken: the requeueing asks only how long ago a run started, and may take a
  run from a worker that still executes it. What holds of the tables in any case is \<open>tables_sound\<close>; the rest
  holds as long as no worker is overtaken, which \<open>staleAfter\<close>, 30 minutes, and \<open>runTimeout\<close>, 10, are there
  for, but which nothing in the code enforces. What \<open>advance\<close> reads and the run it inserts are one step, its basket another; all statements of the
  other operations are transactions.
\<close>

section \<open>The cluster\<close>

text \<open>The database, the runs the live workers hold, and the out-of-sample runs that still wait for their basket.\<close>

record cluster =
  clDB :: db
  clBusy :: "run_row list"
  clHalf :: "(uuid \<times> run_row) list"

definition fresh_id :: "cluster \<Rightarrow> uuid \<Rightarrow> bool" where
  "fresh_id c i \<longleftrightarrow> i \<notin> set (run_ids (clDB c)) \<and> i \<notin> rrID ` set (clBusy c)"

text \<open>A change of the tables that the runner does not own.\<close>

definition elsewhere :: "db \<Rightarrow> db \<Rightarrow> bool" where
  "elsewhere d d' \<longleftrightarrow>
     (\<exists>us gs sy bs ms. d' = d\<lparr>dbUsers := us, dbStrategies := gs, dbSymbols := sy, dbBaskets := bs, dbBasketSymbols := ms\<rparr>)"

inductive cluster_step :: "services \<Rightarrow> cluster \<Rightarrow> cluster \<Rightarrow> bool" for sv where
  Claim: "ClaimBacktestRun now (clDB c) = Inr (d, row) \<Longrightarrow> cluster_step sv c (c\<lparr>clDB := d, clBusy := row # clBusy c\<rparr>)"
| Finish: "row \<in> set (clBusy c) \<Longrightarrow> execute sv row d0 = Inr r \<Longrightarrow> finish now row r (clDB c) = Inr d \<Longrightarrow>
    cluster_step sv c (c\<lparr>clDB := d, clBusy := remove1 row (clBusy c)\<rparr>)"
| FinishLost: "row \<in> set (clBusy c) \<Longrightarrow> execute sv row d0 = Inr r \<Longrightarrow> finish now row r (clDB c) = Inl e \<Longrightarrow>
    cluster_step sv c (c\<lparr>clBusy := remove1 row (clBusy c)\<rparr>)"
| Fail: "row \<in> set (clBusy c) \<Longrightarrow> execute sv row d0 = Inl e \<or> e = RunTimedOut \<Longrightarrow>
    cluster_step sv c (c\<lparr>clDB := fail_run now row e (clDB c), clBusy := remove1 row (clBusy c)\<rparr>)"
| GiveBack: "row \<in> set (clBusy c) \<Longrightarrow>
    cluster_step sv c (c\<lparr>clDB := requeue_run row (clDB c), clBusy := remove1 row (clBusy c)\<rparr>)"
| Crash: "row \<in> set (clBusy c) \<Longrightarrow> cluster_step sv c (c\<lparr>clBusy := remove1 row (clBusy c)\<rparr>)"
| Stale: "cluster_step sv c (c\<lparr>clDB := fst (RequeueStaleBacktestRuns cutoff (clDB c))\<rparr>)"
| Advance: "fresh_id c i \<Longrightarrow> advance_run sv i now s f (clDB c) = Inr (d, Some r) \<Longrightarrow>
    cluster_step sv c (c\<lparr>clDB := d, clHalf := (s, r) # clHalf c\<rparr>)"
| Basket: "(s, r) \<in> set (clHalf c) \<Longrightarrow> advance_basket s r (clDB c) = Inr d \<Longrightarrow>
    cluster_step sv c (c\<lparr>clDB := d, clHalf := remove1 (s, r) (clHalf c)\<rparr>)"
| BasketLost: "(s, r) \<in> set (clHalf c) \<Longrightarrow> cluster_step sv c (c\<lparr>clHalf := remove1 (s, r) (clHalf c)\<rparr>)"
| NewRun: "fresh_id c i \<Longrightarrow> handleCreateBacktest sv i now user body (clDB c) = Inr (d, row) \<Longrightarrow>
    cluster_step sv c (c\<lparr>clDB := d\<rparr>)"
| NewSweep: "\<forall>k. fresh_id c (ids k) \<Longrightarrow> handleCreateSweep sv ids i now user sweep (clDB c) = Inr (d, w) \<Longrightarrow>
    cluster_step sv c (c\<lparr>clDB := d\<rparr>)"
| DropSweep: "handleDeleteSweep path user (clDB c) = Inr d \<Longrightarrow> cluster_step sv c (c\<lparr>clDB := d\<rparr>)"
| Elsewhere: "elsewhere (clDB c) d \<Longrightarrow> cluster_step sv c (c\<lparr>clDB := d\<rparr>)"

text \<open>A worker is overtaken when the run it still executes waits in the queue for another. An orderly step overtakes none.\<close>

definition overtaken :: "cluster \<Rightarrow> bool" where
  "overtaken c \<longleftrightarrow>
     list_ex (\<lambda>row. list_ex (\<lambda>r. rrID r = rrID row \<and> rrStatus r = StQueued) (dbRuns (clDB c))) (clBusy c)"

definition orderly_step :: "services \<Rightarrow> cluster \<Rightarrow> cluster \<Rightarrow> bool" where
  "orderly_step sv c c' \<longleftrightarrow> cluster_step sv c c' \<and> \<not> overtaken c'"

section \<open>What holds of the queue\<close>

text \<open>The rows a run has in the tables of the results.\<close>

definition no_rows_of :: "uuid \<Rightarrow> db \<Rightarrow> bool" where
  "no_rows_of i d \<longleftrightarrow> i \<notin> fst ` set (dbTrades d) \<and> i \<notin> eqRun ` set (dbEquity d) \<and> i \<notin> seRun ` set (dbSleeves d)"

definition rows_are :: "uuid \<Rightarrow> run_result \<Rightarrow> db \<Rightarrow> bool" where
  "rows_are i r d \<longleftrightarrow>
     filter (\<lambda>t. fst t = i) (dbTrades d) = trade_rows i r \<and> filter (\<lambda>e. eqRun e = i) (dbEquity d) = equity_rows i r \<and>
     filter (\<lambda>e. seRun e = i) (dbSleeves d) = sleeve_rows i r"

text \<open>A run as it was claimed.\<close>

definition as_claimed :: "run_row \<Rightarrow> run_row" where
  "as_claimed r = r\<lparr>rrStatus := StRunning, rrMetrics := None, rrError := None, rrFinishedAt := None\<rparr>"

text \<open>A run that waits or runs shows no result; one that is done shows the result of one execution, whole; one that failed its fault.\<close>

definition run_sound :: "services \<Rightarrow> db \<Rightarrow> run_row \<Rightarrow> bool" where
  "run_sound sv d r \<longleftrightarrow>
     (case rrStatus r of
        StQueued \<Rightarrow> rrMetrics r = None \<and> rrError r = None \<and> rrStartedAt r = None \<and> rrFinishedAt r = None \<and> no_rows_of (rrID r) d
      | StRunning \<Rightarrow> rrMetrics r = None \<and> rrError r = None \<and> rrStartedAt r \<noteq> None \<and> rrFinishedAt r = None \<and> no_rows_of (rrID r) d
      | StDone \<Rightarrow> rrError r = None \<and> rrStartedAt r \<noteq> None \<and> rrFinishedAt r \<noteq> None \<and>
          (\<exists>d0 res. execute sv (as_claimed r) d0 = Inr res \<and> metrics_finite (rlMetrics res) \<and>
             rrMetrics r = Some (stored_metrics (rlMetrics res)) \<and> rows_are (rrID r) res d)
      | StError \<Rightarrow> rrMetrics r = None \<and> rrError r \<noteq> None \<and> rrStartedAt r \<noteq> None \<and> rrFinishedAt r \<noteq> None \<and> no_rows_of (rrID r) d)"

definition no_orphans :: "db \<Rightarrow> bool" where
  "no_orphans d \<longleftrightarrow>
     list_all (\<lambda>t. run_known d (fst t)) (dbTrades d) \<and> list_all (\<lambda>e. run_known d (eqRun e)) (dbEquity d) \<and>
     list_all (\<lambda>e. run_known d (seRun e)) (dbSleeves d) \<and> list_all (\<lambda>m. run_known d (mbOwner m)) (dbRunSymbols d)"

definition clash_free :: "run_row list \<Rightarrow> bool" where
  "clash_free rs \<longleftrightarrow> sorted_wrt (\<lambda>q r. \<not> run_clashes r q) rs"

text \<open>Identifiers are unique and no fold is tested twice, the checks of the schema hold, and every row belongs to a run.\<close>

definition tables_sound :: "db \<Rightarrow> bool" where
  "tables_sound d \<longleftrightarrow> clash_free (dbRuns d) \<and> list_all run_checks (dbRuns d) \<and> no_orphans d"

definition queue_sound :: "services \<Rightarrow> db \<Rightarrow> bool" where
  "queue_sound sv d \<longleftrightarrow>
     clash_free (dbRuns d) \<and> list_all run_checks (dbRuns d) \<and> list_all (run_sound sv d) (dbRuns d) \<and> no_orphans d"

lemma queue_sound_tables: "queue_sound sv d \<longleftrightarrow> tables_sound d \<and> list_all (run_sound sv d) (dbRuns d)"
  by (auto simp: queue_sound_def tables_sound_def)

text \<open>A worker holds a run that is running in its name, unless it was deleted; no two workers hold the same.\<close>

definition workers_sound :: "cluster \<Rightarrow> bool" where
  "workers_sound c \<longleftrightarrow>
     distinct (map rrID (clBusy c)) \<and>
     list_all (\<lambda>r. rrStatus r = StRunning \<and> (r \<in> set (dbRuns (clDB c)) \<or> \<not> run_known (clDB c) (rrID r))) (clBusy c)"

definition cluster_sound :: "services \<Rightarrow> cluster \<Rightarrow> bool" where
  "cluster_sound sv c \<longleftrightarrow> queue_sound sv (clDB c) \<and> workers_sound c"

lemma clash_free_ids: "clash_free (dbRuns d) \<Longrightarrow> distinct (run_ids d)"
proof -
  have "sorted_wrt (\<lambda>q r. \<not> run_clashes r q) rs \<Longrightarrow> distinct (map rrID rs)" for rs
    by (induction rs) (auto simp: run_clashes_def image_iff)
  then show "clash_free (dbRuns d) \<Longrightarrow> distinct (run_ids d)" by (simp add: clash_free_def run_ids_def)
qed

text \<open>The rest of a run that a statement leaves alone.\<close>

definition run_key :: "run_row \<Rightarrow> uuid \<times> uuid option \<times> i32 option \<times> phase option" where
  "run_key r = (rrID r, rrSweepID r, rrFold r, rrPhase r)"

lemma run_clashes_key: "run_key r = run_key r' \<Longrightarrow> run_key q = run_key q' \<Longrightarrow> run_clashes r q = run_clashes r' q'"
  by (auto simp: run_clashes_def tests_fold_def run_key_def split: option.splits)

lemma clash_free_map:
  assumes "\<And>r. run_key (f r) = run_key r"
  shows "clash_free (map f rs) = clash_free rs"
  using run_clashes_key [OF assms assms] by (simp add: clash_free_def sorted_wrt_map)

text \<open>An update of one run that is known.\<close>

lemma run_known_ids: "run_known d i \<longleftrightarrow> i \<in> set (run_ids d)"
  by (simp add: run_known_def run_ids_def)

lemma same_run: "distinct (run_ids d) \<Longrightarrow> r \<in> set (dbRuns d) \<Longrightarrow> q \<in> set (dbRuns d) \<Longrightarrow> rrID r = rrID q \<Longrightarrow> r = q"
  by (auto simp: run_ids_def distinct_map inj_on_def)

section \<open>The statements keep the queue sound\<close>

text \<open>What soundness looks at.\<close>

definition queue_view :: "db \<Rightarrow> run_row list \<times> member_row list \<times> (uuid \<times> trade) list \<times> equity_row list \<times> sleeve_row list" where
  "queue_view d = (dbRuns d, dbRunSymbols d, dbTrades d, dbEquity d, dbSleeves d)"

definition results_view :: "db \<Rightarrow> (uuid \<times> trade) list \<times> equity_row list \<times> sleeve_row list" where
  "results_view d = (dbTrades d, dbEquity d, dbSleeves d)"

lemma run_sound_view: "results_view d = results_view d' \<Longrightarrow> run_sound sv d = run_sound sv d'"
  by (intro ext) (simp add: results_view_def run_sound_def no_rows_of_def rows_are_def cong: run_status.case_cong)

lemma queue_sound_view: "queue_view d = queue_view d' \<Longrightarrow> queue_sound sv d \<longleftrightarrow> queue_sound sv d'"
  using run_sound_view [of d d' sv] by (simp add: queue_view_def results_view_def queue_sound_def no_orphans_def run_known_def)

lemma results_update [simp]: "results_view (update_runs p f d) = results_view d"
  by (simp add: results_view_def update_runs_def)

lemma known_update: "(\<And>r. rrID (f r) = rrID r) \<Longrightarrow> run_known (update_runs p f d) i = run_known d i"
  using run_ids_update [of f p d] by (simp add: run_known_ids)

lemma run_key_id: "run_key (f r) = run_key r \<Longrightarrow> rrID (f r) = rrID r"
  by (simp add: run_key_def)

lemma tables_sound_view: "queue_view d = queue_view d' \<Longrightarrow> tables_sound d \<longleftrightarrow> tables_sound d'"
  by (simp add: queue_view_def tables_sound_def no_orphans_def run_known_def)

lemma tables_sound_update:
  assumes "tables_sound d" and key: "\<And>r. run_key (f r) = run_key r" and checks: "\<And>r. run_checks (f r) = run_checks r"
  shows "tables_sound (update_runs p f d)"
proof -
  have "clash_free (dbRuns (update_runs p f d))"
    using assms(1) clash_free_map [of "\<lambda>r. if p r then f r else r"] key by (simp add: tables_sound_def update_runs_def)
  moreover have "list_all run_checks (dbRuns (update_runs p f d))"
    using assms(1) checks by (auto simp: tables_sound_def update_runs_def list_all_iff)
  moreover have "no_orphans (update_runs p f d)"
    using assms(1) known_update [of f p d, OF run_key_id [of f, OF key]]
    by (simp add: tables_sound_def no_orphans_def) (simp add: update_runs_def)
  ultimately show ?thesis by (simp add: tables_sound_def)
qed

lemma queue_sound_update:
  assumes "queue_sound sv d"
    and "\<And>r. run_key (f r) = run_key r" and "\<And>r. run_checks (f r) = run_checks r"
    and sound: "\<And>r. r \<in> set (dbRuns d) \<Longrightarrow> p r \<Longrightarrow> run_sound sv d (f r)"
  shows "queue_sound sv (update_runs p f d)"
proof -
  have "run_sound sv (update_runs p f d) = run_sound sv d" by (rule run_sound_view) simp
  then have "list_all (run_sound sv (update_runs p f d)) (dbRuns (update_runs p f d))"
    using assms(1) sound by (auto simp: queue_sound_def update_runs_def list_all_iff)
  then show ?thesis using assms(1) tables_sound_update [of d f p, OF _ assms(2,3)] by (simp add: queue_sound_tables)
qed

lemma no_rows_fresh: "no_orphans d \<Longrightarrow> \<not> run_known d i \<Longrightarrow> no_rows_of i d"
  by (auto simp: no_orphans_def no_rows_of_def list_all_iff)

lemma tables_sound_insert:
  assumes "tables_sound d" "insert_run (queued_run i now p) d = Inr d'"
  shows "tables_sound d'" and "\<not> run_known d i" and "d' = d\<lparr>dbRuns := dbRuns d @ [queued_run i now p]\<rparr>"
proof -
  let ?r = "queued_run i now p"
  have r: "run_checks ?r" "\<not> list_ex (run_clashes ?r) (dbRuns d)" "d' = d\<lparr>dbRuns := dbRuns d @ [?r]\<rparr>"
    using assms(2) by (auto simp: insert_run_def split: if_splits)
  then show "d' = d\<lparr>dbRuns := dbRuns d @ [?r]\<rparr>" by simp
  show "\<not> run_known d i" using r(2) by (auto simp: run_known_def list_ex_iff run_clashes_def queued_run_def)
  have "clash_free (dbRuns d')"
    using assms(1) r by (auto simp: tables_sound_def clash_free_def sorted_wrt_append list_ex_iff)
  moreover have "no_orphans d'" using assms(1) by (auto simp: tables_sound_def no_orphans_def r run_known_def list_all_iff)
  ultimately show "tables_sound d'" using assms(1) r by (simp add: tables_sound_def)
qed

lemma queue_sound_insert:
  assumes "queue_sound sv d" "insert_run (queued_run i now p) d = Inr d'"
  shows "queue_sound sv d'"
proof -
  let ?r = "queued_run i now p"
  have t: "tables_sound d" "list_all (run_sound sv d) (dbRuns d)" using assms(1) by (simp_all add: queue_sound_tables)
  note T = tables_sound_insert [OF t(1) assms(2)]
  have "no_rows_of i d" using t(1) T(2) by (simp add: tables_sound_def no_rows_fresh)
  then have "run_sound sv d ?r" by (simp add: run_sound_def queued_run_def)
  moreover have "run_sound sv d' = run_sound sv d" by (rule run_sound_view) (simp add: T(3) results_view_def)
  ultimately show ?thesis using t(2) T(1,3) by (simp add: queue_sound_tables)
qed

lemma tables_sound_inserts: "tables_sound d \<Longrightarrow> CreateSweepRuns now ps d = Inr d' \<Longrightarrow> tables_sound d'"
proof (induction ps arbitrary: d)
  case (Cons x ps)
  obtain i p where x: "x = (i, p)" by fastforce
  then obtain d1 where "insert_run (queued_run i now p) d = Inr d1" "CreateSweepRuns now ps d1 = Inr d'"
    using Cons.prems(2) by (auto simp: CreateSweepRuns_def and_then_Inr)
  then show ?case using Cons tables_sound_insert(1) by blast
qed (simp add: CreateSweepRuns_def)

lemma queue_sound_inserts:
  "queue_sound sv d \<Longrightarrow> CreateSweepRuns now ps d = Inr d' \<Longrightarrow> queue_sound sv d'"
proof (induction ps arbitrary: d)
  case (Cons x ps)
  obtain i p where x: "x = (i, p)" by fastforce
  then obtain d1 where "insert_run (queued_run i now p) d = Inr d1" "CreateSweepRuns now ps d1 = Inr d'"
    using Cons.prems(2) by (auto simp: CreateSweepRuns_def and_then_Inr)
  then show ?case using Cons queue_sound_insert by blast
qed (simp add: CreateSweepRuns_def)

lemma members_Inr: "CreateBacktestRunSymbols ms d = Inr d' \<Longrightarrow> d' = d\<lparr>dbRunSymbols := dbRunSymbols d @ ms\<rparr>"
  using members.copied [of ms d d'] by (simp add: CreateBacktestRunSymbols_def)

lemma members_runs: "CreateBacktestRunSymbols ms d = Inr d' \<Longrightarrow> dbRuns d' = dbRuns d"
  by (auto dest: members_Inr)

lemma tables_sound_members:
  assumes "tables_sound d" "CreateBacktestRunSymbols ms d = Inr d'"
  shows "tables_sound d'"
  using members.copied [of ms d d'] assms by (simp add: CreateBacktestRunSymbols_def tables_sound_def no_orphans_def run_known_def)

lemma queue_sound_members:
  assumes "queue_sound sv d" "CreateBacktestRunSymbols ms d = Inr d'"
  shows "queue_sound sv d'"
proof -
  have m: "d' = d\<lparr>dbRunSymbols := dbRunSymbols d @ ms\<rparr>" by (rule members_Inr [OF assms(2)])
  have "run_sound sv d' = run_sound sv d" by (rule run_sound_view) (simp add: m results_view_def)
  then show ?thesis using assms tables_sound_members [OF _ assms(2)] m by (simp add: queue_sound_tables)
qed

lemma known_append: "run_known (d\<lparr>dbTrades := ts, dbEquity := es, dbSleeves := ss\<rparr>) i = run_known d i"
  by (simp add: run_known_def)

lemma run_sound_same:
  assumes "run_sound sv d r" "no_rows_of (rrID r) d \<Longrightarrow> no_rows_of (rrID r) d'"
    and "\<And>res. rows_are (rrID r) res d' = rows_are (rrID r) res d"
  shows "run_sound sv d' r"
  using assms(1,2) unfolding run_sound_def assms(3) by (cases "rrStatus r") simp_all

lemma tables_sound_delete:
  assumes "tables_sound d"
  shows "tables_sound (delete_runs p d)"
proof -
  let ?d = "delete_runs p d" and ?gone = "rrID ` set (filter p (dbRuns d))"
  have known: "run_known ?d i" if "run_known d i" "i \<notin> ?gone" for i
    using that by (auto simp: run_known_def delete_runs_def Let_def)
  have "clash_free (dbRuns ?d)"
    using assms by (simp add: tables_sound_def clash_free_def delete_runs_def Let_def sorted_wrt_filter)
  moreover have "no_orphans ?d"
    using assms known by (auto simp: tables_sound_def no_orphans_def list_all_iff) (auto simp: delete_runs_def Let_def)
  ultimately show ?thesis using assms by (auto simp: tables_sound_def list_all_iff delete_runs_def Let_def)
qed

lemma queue_sound_delete:
  assumes "queue_sound sv d"
  shows "queue_sound sv (delete_runs p d)"
proof -
  let ?d = "delete_runs p d"
  have ids: "distinct (run_ids d)" using assms by (simp add: queue_sound_def clash_free_ids)
  have "run_sound sv ?d r" if r: "r \<in> set (dbRuns d)" "\<not> p r" for r
  proof -
    have other: "\<not> p x" if "x \<in> set (dbRuns d)" "rrID x = rrID r" for x using same_run [OF ids that(1) r(1) that(2)] r(2) by simp
    have f: "filter (\<lambda>t. fst t = rrID r) (dbTrades ?d) = filter (\<lambda>t. fst t = rrID r) (dbTrades d)"
      "filter (\<lambda>e. eqRun e = rrID r) (dbEquity ?d) = filter (\<lambda>e. eqRun e = rrID r) (dbEquity d)"
      "filter (\<lambda>e. seRun e = rrID r) (dbSleeves ?d) = filter (\<lambda>e. seRun e = rrID r) (dbSleeves d)"
      using other by (auto simp: delete_runs_def Let_def filter_filter intro!: filter_cong)
    have n: "no_rows_of (rrID r) ?d" if "no_rows_of (rrID r) d"
      using that by (auto simp: no_rows_of_def delete_runs_def Let_def)
    have "run_sound sv d r" using assms r(1) by (simp add: queue_sound_def list_all_iff)
    then show ?thesis by (rule run_sound_same) (use n f in \<open>simp_all add: rows_are_def\<close>)
  qed
  then show ?thesis using assms tables_sound_delete [of d p] by (auto simp: queue_sound_tables list_all_iff delete_runs_def Let_def)
qed

section \<open>The steps keep the cluster sound\<close>

lemma known_holder:
  assumes "workers_sound c" "row \<in> set (clBusy c)" "r \<in> set (dbRuns (clDB c))" "rrID r = rrID row" "distinct (run_ids (clDB c))"
  shows "r = row" "rrStatus row = StRunning"
proof -
  have w: "rrStatus row = StRunning" "row \<in> set (dbRuns (clDB c)) \<or> \<not> run_known (clDB c) (rrID row)"
    using assms(1,2) by (auto simp: workers_sound_def list_all_iff)
  then show "rrStatus row = StRunning" by simp
  have "run_known (clDB c) (rrID row)" using imageI [OF assms(3), of rrID] assms(4) by (simp add: run_known_def)
  then show "r = row" using w(2) same_run [OF assms(5) assms(3), of row] assms(4) by simp
qed

text \<open>The held runs left alone, and the workers stay sound.\<close>

lemma workers_sound_keep:
  assumes "workers_sound c" "distinct (map rrID busy)" "set busy \<subseteq> set (clBusy c)"
    and "\<And>r. r \<in> set busy \<Longrightarrow> r \<in> set (dbRuns (clDB c)) \<Longrightarrow> r \<in> set (dbRuns d) \<or> \<not> run_known d (rrID r)"
    and "\<And>r. r \<in> set busy \<Longrightarrow> run_known d (rrID r) \<Longrightarrow> run_known (clDB c) (rrID r)"
  shows "workers_sound (c\<lparr>clDB := d, clBusy := busy, clHalf := h\<rparr>)"
  using assms by (fastforce simp: workers_sound_def list_all_iff)

lemma distinct_remove: "distinct (map f xs) \<Longrightarrow> distinct (map f (remove1 x xs))"
  using set_remove1_subset [of x] by (induction xs) (auto simp: image_iff)

lemma removed_other: "distinct (map rrID xs) \<Longrightarrow> r \<in> set (remove1 row xs) \<Longrightarrow> row \<in> set xs \<Longrightarrow> rrID r \<noteq> rrID row"
  by (induction xs) (auto split: if_splits simp: image_iff)

text \<open>A worker that ends its run changes that run only.\<close>

lemma workers_sound_end:
  assumes "workers_sound c" "row \<in> set (clBusy c)"
    and "\<And>r. rrID r \<noteq> rrID row \<Longrightarrow> r \<in> set (dbRuns (clDB c)) \<Longrightarrow> r \<in> set (dbRuns d)"
    and "run_ids d = run_ids (clDB c)"
  shows "workers_sound (c\<lparr>clDB := d, clBusy := remove1 row (clBusy c)\<rparr>)"
proof -
  have u: "distinct (map rrID (clBusy c))" using assms(1) by (simp add: workers_sound_def)
  have "workers_sound (c\<lparr>clDB := d, clBusy := remove1 row (clBusy c), clHalf := clHalf c\<rparr>)"
    using removed_other [OF u _ assms(2)] assms(3,4) set_remove1_subset [of row "clBusy c"]
    by (intro workers_sound_keep [OF assms(1) distinct_remove [OF u]]) (auto simp: run_known_ids)
  then show ?thesis by simp
qed

lemma update_other: "\<not> p r \<Longrightarrow> r \<in> set (dbRuns d) \<Longrightarrow> r \<in> set (dbRuns (update_runs p f d))"
  by (auto simp: update_runs_def image_iff intro!: bexI [of _ r])

lemma requeued_key [simp]: "run_key (requeued r) = run_key r" "run_checks (requeued r) = run_checks r" "rrID (requeued r) = rrID r"
  by (simp_all add: requeued_def run_key_def run_checks_def)

lemma claimed_key [simp]: "run_key (claimed t r) = run_key r" "run_checks (claimed t r) = run_checks r"
  by (simp_all add: claimed_def run_key_def run_checks_def)

lemma requeued_sound: "run_sound sv d r \<Longrightarrow> rrStatus r = StRunning \<Longrightarrow> run_sound sv d (requeued r)"
  by (simp add: run_sound_def requeued_def)

lemma claimed_sound: "run_sound sv d r \<Longrightarrow> rrStatus r = StQueued \<Longrightarrow> run_sound sv d (claimed t r)"
  by (simp add: run_sound_def claimed_def)

lemma claim_Inr:
  assumes "ClaimBacktestRun now d = Inr (d', row)"
  obtains q where "q \<in> set (dbRuns d)" "rrStatus q = StQueued" "row = claimed now q"
    "d' = update_runs (\<lambda>r. rrID r = rrID q) (claimed now) d"
proof -
  obtain q rs where s: "sort_key claim_key (queued_runs d) = q # rs" using assms
    by (cases "sort_key claim_key (queued_runs d)") (auto simp: claim_cases)
  then have "q \<in> set (queued_runs d)" by (metis list.set_intros(1) set_sort)
  then show ?thesis using that [of q] s assms by (simp add: claim_cases queued_runs_def)
qed

lemma claim_step_sound:
  assumes "cluster_sound sv c" "ClaimBacktestRun now (clDB c) = Inr (d, row)"
  shows "cluster_sound sv (c\<lparr>clDB := d, clBusy := row # clBusy c\<rparr>)"
proof -
  obtain q where q: "q \<in> set (dbRuns (clDB c))" "rrStatus q = StQueued" "row = claimed now q"
    "d = update_runs (\<lambda>r. rrID r = rrID q) (claimed now) (clDB c)" by (rule claim_Inr [OF assms(2)])
  have s: "queue_sound sv (clDB c)" "workers_sound c" using assms(1) by (simp_all add: cluster_sound_def)
  have ids: "distinct (run_ids (clDB c))" using s(1) by (simp add: queue_sound_def clash_free_ids)
  have same: "r = q" if "r \<in> set (dbRuns (clDB c))" "rrID r = rrID q" for r using same_run [OF ids that(1) q(1) that(2)] .
  have "queue_sound sv d" unfolding q(4)
  proof (intro queue_sound_update s(1) claimed_key)
    have "run_sound sv (clDB c) q" using q(1) s(1) by (simp add: queue_sound_def list_all_iff)
    then show "run_sound sv (clDB c) (claimed now r)" if "r \<in> set (dbRuns (clDB c))" "rrID r = rrID q" for r
      using same [OF that] q(2) by (simp add: claimed_sound)
  qed
  moreover have "rrID q \<notin> rrID ` set (clBusy c)"
  proof
    assume "rrID q \<in> rrID ` set (clBusy c)"
    then obtain b where b: "b \<in> set (clBusy c)" "rrID q = rrID b" by auto
    show False using known_holder [OF s(2) b(1) q(1) b(2) ids] q(2) by simp
  qed
  moreover have "row \<in> set (dbRuns d)" using q by (auto simp: update_runs_def)
  moreover have "run_ids d = run_ids (clDB c)" unfolding q(4) by (rule run_ids_update) simp
  ultimately show ?thesis using s(2) update_other [of "\<lambda>r. rrID r = rrID q"] q(3,4)
    by (fastforce simp: cluster_sound_def workers_sound_def list_all_iff run_known_ids image_iff)
qed

definition finished :: "time \<Rightarrow> metrics \<Rightarrow> run_row \<Rightarrow> run_row" where
  "finished now m r = r\<lparr>rrStatus := StDone, rrMetrics := Some m, rrError := None, rrFinishedAt := Some now\<rparr>"

definition failed_row :: "time \<Rightarrow> run_fault \<Rightarrow> run_row \<Rightarrow> run_row" where
  "failed_row now e r = r\<lparr>rrStatus := StError, rrError := Some e, rrFinishedAt := Some now\<rparr>"

lemma ended_key [simp]:
  "run_key (finished now m r) = run_key r" "run_checks (finished now m r) = run_checks r" "rrID (finished now m r) = rrID r"
  "run_key (failed_row now e r) = run_key r" "run_checks (failed_row now e r) = run_checks r" "rrID (failed_row now e r) = rrID r"
  by (simp_all add: finished_def failed_row_def run_key_def run_checks_def)

lemma finish_update: "FinishBacktestRun now i m = update_runs (\<lambda>r. rrID r = i) (finished now m)"
  by (simp add: FinishBacktestRun_def finished_def [abs_def])

lemma fail_update: "fail_run now row e = update_runs (\<lambda>r. rrID r = rrID row) (failed_row now e)"
  by (simp add: fail_run_def FailBacktestRun_def failed_row_def [abs_def])

lemma row_ids [simp]:
  "list_all (\<lambda>t. P (fst t)) (trade_rows i r) \<longleftrightarrow> rlTrades r = [] \<or> P i"
  "filter (\<lambda>t. fst t = j) (trade_rows i r) = (if i = j then trade_rows i r else [])"
  "filter (\<lambda>e. eqRun e = j) (equity_rows i r) = (if i = j then equity_rows i r else [])"
  "filter (\<lambda>e. seRun e = j) (sleeve_rows i r) = (if i = j then sleeve_rows i r else [])"
  by (auto simp: trade_rows_def equity_rows_def sleeve_rows_def list_all_iff intro!: filter_True filter_False split: if_splits)

lemma own_rows:
  "x \<in> set (trade_rows i r) \<Longrightarrow> fst x = i" "y \<in> set (equity_rows i r) \<Longrightarrow> eqRun y = i" "z \<in> set (sleeve_rows i r) \<Longrightarrow> seRun z = i"
  by (auto simp: trade_rows_def equity_rows_def sleeve_rows_def)

lemma no_rows_filter:
  "no_rows_of i d \<Longrightarrow> filter (\<lambda>t. fst t = i) (dbTrades d) = [] \<and> filter (\<lambda>e. eqRun e = i) (dbEquity d) = [] \<and>
    filter (\<lambda>e. seRun e = i) (dbSleeves d) = []"
  by (auto simp: no_rows_of_def filter_empty_conv image_iff)

text \<open>The database after the rows of a result are written.\<close>

definition with_rows :: "uuid \<Rightarrow> run_result \<Rightarrow> db \<Rightarrow> db" where
  "with_rows i r d =
     d\<lparr>dbTrades := dbTrades d @ trade_rows i r, dbEquity := dbEquity d @ equity_rows i r, dbSleeves := dbSleeves d @ sleeve_rows i r\<rparr>"

lemma with_rows_simps [simp]:
  "dbRuns (with_rows i r d) = dbRuns d" "run_ids (with_rows i r d) = run_ids d" "dbRunSymbols (with_rows i r d) = dbRunSymbols d"
  "run_known (with_rows i r d) j = run_known d j"
  by (simp_all add: with_rows_def run_ids_def run_known_def)

lemma with_rows_other:
  assumes "run_sound sv d r" "rrID r \<noteq> i"
  shows "run_sound sv (with_rows i res d) r"
  using assms(1)
proof (rule run_sound_same)
  show "no_rows_of (rrID r) (with_rows i res d)" if "no_rows_of (rrID r) d"
    using that assms(2) own_rows [of _ i res] by (auto simp: no_rows_of_def with_rows_def)
  show "rows_are (rrID r) q (with_rows i res d) = rows_are (rrID r) q d" for q
    using assms(2) by (simp add: rows_are_def with_rows_def)
qed

lemma finished_sound:
  assumes "run_sound sv d r" "rrStatus r = StRunning" "execute sv r d0 = Inr res" "metrics_finite (rlMetrics res)"
  shows "run_sound sv (with_rows (rrID r) res d) (finished now (stored_metrics (rlMetrics res)) r)"
proof -
  have n: "rrMetrics r = None" "rrError r = None" "rrStartedAt r \<noteq> None" "rrFinishedAt r = None" "no_rows_of (rrID r) d"
    using assms(1,2) by (simp_all add: run_sound_def)
  have "as_claimed (finished now (stored_metrics (rlMetrics res)) r) = r"
    using n assms(2) by (cases r) (simp add: as_claimed_def finished_def)
  moreover have "rows_are (rrID r) res (with_rows (rrID r) res d)"
    using no_rows_filter [OF n(5)] by (simp add: rows_are_def with_rows_def)
  ultimately show ?thesis using n assms(3,4) by (auto simp: run_sound_def) (auto simp: finished_def)
qed

lemma tables_sound_result:
  assumes "tables_sound d" and "write_result now i res d = Inr d'"
  shows "tables_sound d'" and "d' = update_runs (\<lambda>r. rrID r = i) (finished now (stored_metrics (rlMetrics res))) (with_rows i res d)"
proof -
  let ?w = "with_rows i res d" and ?f = "finished now (stored_metrics (rlMetrics res))"
  show d': "d' = update_runs (\<lambda>r. rrID r = i) ?f ?w"
    using write_result_Inr(1) [OF assms(2)] by (simp add: finish_update with_rows_def)
  have "no_orphans ?w"
    using assms(1) write_result_Inr(2-4) [OF assms(2)] by (simp add: tables_sound_def no_orphans_def) (simp add: with_rows_def)
  then have "tables_sound ?w" using assms(1) by (simp add: tables_sound_def)
  then show "tables_sound d'" unfolding d' by (intro tables_sound_update) simp_all
qed

lemma finish_Inr: "finish now row res d = Inr d' \<Longrightarrow> metrics_finite (rlMetrics res) \<and> write_result now (rrID row) res d = Inr d'"
  by (auto simp: finish_def split: if_splits sum.splits)

lemma finish_sound:
  assumes "cluster_sound sv c" "row \<in> set (clBusy c)" "execute sv row d0 = Inr res" "finish now row res (clDB c) = Inr d"
  shows "cluster_sound sv (c\<lparr>clDB := d, clBusy := remove1 row (clBusy c)\<rparr>)"
proof -
  let ?m = "stored_metrics (rlMetrics res)" and ?d = "clDB c" and ?i = "rrID row"
  let ?w = "with_rows ?i res ?d"
  have s: "queue_sound sv ?d" "workers_sound c" using assms(1) by (simp_all add: cluster_sound_def)
  have ids: "distinct (run_ids ?d)" using s(1) by (simp add: queue_sound_def clash_free_ids)
  have m: "metrics_finite (rlMetrics res)" and w: "write_result now ?i res ?d = Inr d" using finish_Inr [OF assms(4)] by simp_all
  have t: "tables_sound d" "d = update_runs (\<lambda>r. rrID r = ?i) (finished now ?m) ?w"
    using tables_sound_result [OF _ w] s(1) by (simp_all add: queue_sound_tables)
  have "run_sound sv d x" if x: "x \<in> set (dbRuns d)" for x
  proof -
    have v: "run_sound sv d = run_sound sv ?w" by (rule run_sound_view) (simp add: t(2))
    obtain y where y: "y \<in> set (dbRuns ?d)" "x = (if rrID y = ?i then finished now ?m y else y)"
      using x by (auto simp: t(2) update_runs_def)
    have sy: "run_sound sv ?d y" using y(1) s(1) by (simp add: queue_sound_def list_all_iff)
    show ?thesis
    proof (cases "rrID y = ?i")
      case True
      note h = known_holder [OF s(2) assms(2) y(1) True ids]
      show ?thesis using finished_sound [OF sy _ _ m, of d0 now] h assms(3) True y(2) unfolding v by simp
    next
      case False
      then show ?thesis using with_rows_other [OF sy False] y(2) unfolding v by simp
    qed
  qed
  then have "queue_sound sv d" using t(1) by (simp add: queue_sound_tables list_all_iff)
  moreover have "run_ids d = run_ids ?d" unfolding t(2) by (subst run_ids_update) simp_all
  then have "workers_sound (c\<lparr>clDB := d, clBusy := remove1 row (clBusy c)\<rparr>)"
    by (intro workers_sound_end s(2) assms(2)) (auto simp: t(2) intro!: update_other)
  ultimately show ?thesis by (simp add: cluster_sound_def)
qed

lemma end_sound:
  assumes "cluster_sound sv c" "row \<in> set (clBusy c)"
    and f: "\<And>r. run_key (f r) = run_key r" "\<And>r. run_checks (f r) = run_checks r"
    and p: "\<And>r. p r \<Longrightarrow> rrID r = rrID row"
    and sound: "\<And>r. run_sound sv (clDB c) r \<Longrightarrow> rrStatus r = StRunning \<Longrightarrow> run_sound sv (clDB c) (f r)"
  shows "cluster_sound sv (c\<lparr>clDB := update_runs p f (clDB c), clBusy := remove1 row (clBusy c)\<rparr>)"
proof -
  have s: "queue_sound sv (clDB c)" "workers_sound c" using assms(1) by (simp_all add: cluster_sound_def)
  have ids: "distinct (run_ids (clDB c))" using s(1) by (simp add: queue_sound_def clash_free_ids)
  have "queue_sound sv (update_runs p f (clDB c))"
  proof (intro queue_sound_update s(1) f)
    show "run_sound sv (clDB c) (f r)" if "r \<in> set (dbRuns (clDB c))" "p r" for r
      using known_holder [OF s(2) assms(2) that(1) p [OF that(2)] ids] s(1) that(1) sound
      by (auto simp: queue_sound_def list_all_iff)
  qed
  moreover have "workers_sound (c\<lparr>clDB := update_runs p f (clDB c), clBusy := remove1 row (clBusy c)\<rparr>)"
    using p by (intro workers_sound_end s(2) assms(2) run_ids_update update_other run_key_id [of f] f) auto
  ultimately show ?thesis by (simp add: cluster_sound_def)
qed

lemma requeue_update: "requeue_run row = update_runs (\<lambda>r. rrID r = rrID row \<and> rrStatus r = StRunning) requeued"
  by (simp add: requeue_run_def RequeueBacktestRun_def)

lemma failed_sound: "run_sound sv d r \<Longrightarrow> rrStatus r = StRunning \<Longrightarrow> run_sound sv d (failed_row now e r)"
  by (simp add: run_sound_def failed_row_def)

text \<open>A change under which the held runs stay what they are.\<close>

lemma cluster_sound_db:
  assumes "cluster_sound sv c" "queue_sound sv d"
    and "\<And>r. r \<in> set (clBusy c) \<Longrightarrow> r \<in> set (dbRuns (clDB c)) \<Longrightarrow> r \<in> set (dbRuns d) \<or> \<not> run_known d (rrID r)"
    and "\<And>r. r \<in> set (clBusy c) \<Longrightarrow> run_known d (rrID r) \<Longrightarrow> run_known (clDB c) (rrID r)"
  shows "cluster_sound sv (c\<lparr>clDB := d, clHalf := h\<rparr>)"
proof -
  have w: "workers_sound c" using assms(1) by (simp add: cluster_sound_def)
  have "workers_sound (c\<lparr>clDB := d, clBusy := clBusy c, clHalf := h\<rparr>)"
    using assms(3,4) w by (intro workers_sound_keep [OF w]) (auto simp: workers_sound_def)
  then show ?thesis using assms(2) by (simp add: cluster_sound_def)
qed

lemma cluster_sound_half: "cluster_sound sv c \<Longrightarrow> cluster_sound sv (c\<lparr>clHalf := h\<rparr>)"
  by (simp add: cluster_sound_def workers_sound_def)

lemma cluster_sound_grown:
  assumes "cluster_sound sv c" "queue_sound sv d" "set (dbRuns (clDB c)) \<subseteq> set (dbRuns d)"
    and "\<And>i. i \<in> set (run_ids d) \<Longrightarrow> i \<notin> set (run_ids (clDB c)) \<Longrightarrow> i \<notin> rrID ` set (clBusy c)"
  shows "cluster_sound sv (c\<lparr>clDB := d, clHalf := h\<rparr>)"
  using assms(3,4) by (intro cluster_sound_db [OF assms(1,2)]) (auto simp: run_known_ids)

lemma drop_busy:
  assumes "cluster_sound sv c" "row \<in> set (clBusy c)"
  shows "cluster_sound sv (c\<lparr>clBusy := remove1 row (clBusy c)\<rparr>)"
proof -
  have "workers_sound (c\<lparr>clDB := clDB c, clBusy := remove1 row (clBusy c)\<rparr>)"
    using assms by (intro workers_sound_end) (simp_all add: cluster_sound_def)
  then show ?thesis using assms(1) by (simp add: cluster_sound_def)
qed

lemma stale_update: "fst (RequeueStaleBacktestRuns cutoff d) = update_runs (stale_run cutoff) requeued d"
  by (simp add: RequeueStaleBacktestRuns_def)

lemma stale_step_sound:
  assumes "cluster_sound sv c" and "\<not> overtaken (c\<lparr>clDB := fst (RequeueStaleBacktestRuns cutoff (clDB c))\<rparr>)"
  shows "cluster_sound sv (c\<lparr>clDB := fst (RequeueStaleBacktestRuns cutoff (clDB c))\<rparr>)"
proof -
  let ?d = "update_runs (stale_run cutoff) requeued (clDB c)"
  have s: "queue_sound sv (clDB c)" using assms(1) by (simp add: cluster_sound_def)
  have "queue_sound sv ?d"
    using s by (intro queue_sound_update) (auto simp: stale_run_def queue_sound_def list_all_iff intro!: requeued_sound)
  moreover have "run_ids ?d = run_ids (clDB c)" by (rule run_ids_update) simp
  moreover have "r \<in> set (dbRuns ?d)" if r: "r \<in> set (clBusy c)" "r \<in> set (dbRuns (clDB c))" for r
  proof (cases "stale_run cutoff r")
    case True
    then have "requeued r \<in> set (dbRuns ?d)" using r(2) by (auto simp: update_runs_def)
    moreover have "rrStatus (requeued r) = StQueued" "rrID (requeued r) = rrID r" by (simp_all add: requeued_def)
    ultimately show ?thesis using assms(2) r(1) unfolding stale_update by (auto simp: overtaken_def list_ex_iff)
  qed (use r(2) update_other in simp)
  ultimately have "cluster_sound sv (c\<lparr>clDB := ?d, clHalf := clHalf c\<rparr>)"
    using assms(1) by (intro cluster_sound_db) (auto simp: run_known_ids)
  then show ?thesis by (simp add: stale_update)
qed

lemma CreateBacktestRun_Inr:
  "CreateBacktestRun i now p d = Inr (d', row) \<longleftrightarrow> insert_run (queued_run i now p) d = Inr d' \<and> row = queued_run i now p"
  by (cases "insert_run (queued_run i now p) d") (auto simp: CreateBacktestRun_def)

lemma insert_run_Inr: "insert_run r d = Inr d' \<Longrightarrow> d' = d\<lparr>dbRuns := dbRuns d @ [r]\<rparr>"
  by (auto simp: insert_run_def split: if_splits)

lemma advance_run_Inr:
  assumes "advance_run sv i now s f d = Inr (d', Some r)"
  obtains p where "CreateBacktestRun i now p d = Inr (d', r)" "winner_params sv s f d = Inr (Some p)"
proof -
  obtain x where x: "winner_params sv s f d = Inr x" using assms by (cases "winner_params sv s f d") (auto simp: advance_run_def)
  obtain p where p: "x = Some p" using assms x by (cases x) (auto simp: advance_run_def)
  show ?thesis
  proof (cases "CreateBacktestRun i now p d")
    case (Inl e)
    then show ?thesis using assms x p by (cases e) (auto simp: advance_run_def)
  next
    case (Inr y)
    then show ?thesis using assms x p that [of p] by (cases y) (simp add: advance_run_def)
  qed
qed

lemma advance_step_sound:
  assumes "cluster_sound sv c" "fresh_id c i" "advance_run sv i now s f (clDB c) = Inr (d, Some r)"
  shows "cluster_sound sv (c\<lparr>clDB := d, clHalf := h\<rparr>)"
proof -
  obtain p where p: "CreateBacktestRun i now p (clDB c) = Inr (d, r)" by (rule advance_run_Inr [OF assms(3)])
  have q: "queue_sound sv (clDB c)" using assms(1) by (simp add: cluster_sound_def)
  have d: "d = (clDB c)\<lparr>dbRuns := dbRuns (clDB c) @ [queued_run i now p]\<rparr>" "insert_run (queued_run i now p) (clDB c) = Inr d"
    using p insert_run_Inr by (auto simp: CreateBacktestRun_Inr)
  show ?thesis using queue_sound_insert [OF q d(2)] assms(2) d(1)
    by (intro cluster_sound_grown [OF assms(1)]) (auto simp: fresh_id_def run_ids_def queued_run_def)
qed

lemma members_step_sound:
  assumes "cluster_sound sv c" "CreateBacktestRunSymbols ms (clDB c) = Inr d"
  shows "cluster_sound sv (c\<lparr>clDB := d, clHalf := h\<rparr>)"
proof -
  have "d = (clDB c)\<lparr>dbRunSymbols := dbRunSymbols (clDB c) @ ms\<rparr>"
    using members.copied [of ms "clDB c" d] assms(2) by (simp add: CreateBacktestRunSymbols_def)
  then show ?thesis using queue_sound_members [OF _ assms(2), of sv] assms(1)
    by (intro cluster_sound_grown) (auto simp: cluster_sound_def run_ids_def)
qed

lemma createRun_Inr:
  assumes "createRun i now p basket d = Inr (d2, row)"
  obtains d1 where "insert_run (queued_run i now p) d = Inr d1" "CreateBacktestRunSymbols (basket_rows i basket) d1 = Inr d2"
    "row = queued_run i now p"
  using assms by (auto simp: createRun_def and_then_Inr CreateBacktestRun_Inr queued_run_def)

lemma and_then_case: "and_then r f = Inr y \<Longrightarrow> (\<And>x. r = Inr x \<Longrightarrow> f x = Inr y \<Longrightarrow> thesis) \<Longrightarrow> thesis"
  by (auto simp: and_then_Inr)

lemma handleCreateBacktest_Inr:
  assumes "handleCreateBacktest sv i now user body d = Inr (d', row)"
  obtains strategy tf tickers w stored canonical pl basket where
    "readBasket (bqSymbol body) (bqSymbols body) = Inr tickers"
    "readWindow (svCal sv) tf (bqStart body) (bqEnd body) (bqCapital body) = Inr w"
    "GetStrategy strategy user d = Inr stored"
    "compileSpec (svRegistry sv) (Some (sgSpec stored)) = Inr (canonical, pl)" "findBasket tickers d = Inr basket"
    "CountActiveBacktestRuns user d < maxActiveBacktests"
    "createRun i now (backtest_params (svCal sv) user strategy canonical w (length tickers) basket) basket d = Inr (d', row)"
  using assms unfolding handleCreateBacktest_def
  by (auto simp: bad_def elim!: and_then_case split: option.splits sum.splits if_splits prod.splits)

lemma createRun_step_sound:
  assumes "cluster_sound sv c" "fresh_id c i" "createRun i now p basket (clDB c) = Inr (d, row)"
  shows "cluster_sound sv (c\<lparr>clDB := d, clHalf := h\<rparr>)"
proof -
  obtain d1 where d1: "insert_run (queued_run i now p) (clDB c) = Inr d1" "CreateBacktestRunSymbols (basket_rows i basket) d1 = Inr d"
    using createRun_Inr [OF assms(3)] by blast
  have "cluster_sound sv (c\<lparr>clDB := d1, clHalf := h\<rparr>)"
    using queue_sound_insert [OF _ d1(1), of sv] assms(1,2) insert_run_Inr [OF d1(1)]
    by (intro cluster_sound_grown [OF assms(1)]) (auto simp: cluster_sound_def fresh_id_def run_ids_def queued_run_def)
  from members_step_sound [OF this, of "basket_rows i basket" d h] show ?thesis using d1(2) by simp
qed

lemma CreateSweepRuns_Inr:
  "CreateSweepRuns now ps d = Inr d' \<Longrightarrow> d' = d\<lparr>dbRuns := dbRuns d @ map (\<lambda>(i, p). queued_run i now p) ps\<rparr>"
  using runs.copied [of "map (\<lambda>(i, p). queued_run i now p) ps" d d'] by (simp add: CreateSweepRuns_def)

lemma childRuns_ids: "childRuns c ids sweep p = Some (rs, ms) \<Longrightarrow> fst ` set rs \<subseteq> range ids"
  by (auto simp: childRuns_def Let_def split: option.splits if_splits)

lemma createSweep_Some:
  assumes "createSweep c ids i now p d = Some (d', w)"
  obtains d2 d3 runs ms where "queue_view d2 = queue_view d" "childRuns c ids i p = Some (runs, ms)"
    "CreateSweepRuns now runs d2 = Inr d3" "CreateBacktestRunSymbols ms d3 = Inr d'"
proof -
  obtain d1 w' where s1: "CreateSweep i now (sweep_params_of c p) d = Inr (d1, w')" using assms
    by (cases "CreateSweep i now (sweep_params_of c p) d") (auto simp: createSweep_def split: if_splits)
  obtain d2 where s2: "CreateSweepSymbols (basket_rows i (slBasket p)) d1 = Inr d2" using assms s1
    by (cases "CreateSweepSymbols (basket_rows i (slBasket p)) d1") (auto simp: createSweep_def split: if_splits)
  obtain runs ms where k: "childRuns c ids i p = Some (runs, ms)" using assms s1 s2
    by (cases "childRuns c ids i p") (auto simp: createSweep_def split: if_splits)
  have r: "and_then (CreateSweepRuns now runs d2) (CreateBacktestRunSymbols ms) = Inr d'" using assms s1 s2 k
    by (cases "and_then (CreateSweepRuns now runs d2) (CreateBacktestRunSymbols ms)") (auto simp: createSweep_def split: if_splits)
  note s = s1 s2
  have "queue_view d1 = queue_view d" using s(1) by (auto simp: CreateSweep_def Let_def queue_view_def split: if_splits)
  moreover have "queue_view d2 = queue_view d1"
    using sweep_members.copied [of "basket_rows i (slBasket p)" d1 d2] s(2) by (simp add: CreateSweepSymbols_def queue_view_def)
  ultimately show ?thesis using r k that [of d2] by (auto simp: and_then_Inr)
qed

lemma createSweep_step_sound:
  assumes "cluster_sound sv c" "\<forall>k. fresh_id c (ids k)" "createSweep cal ids i now p (clDB c) = Some (d, w)"
  shows "cluster_sound sv (c\<lparr>clDB := d, clHalf := h\<rparr>)"
proof -
  obtain d2 d3 runs ms where v: "queue_view d2 = queue_view (clDB c)" and k: "childRuns cal ids i p = Some (runs, ms)"
    and r: "CreateSweepRuns now runs d2 = Inr d3" and m: "CreateBacktestRunSymbols ms d3 = Inr d"
    by (rule createSweep_Some [OF assms(3)])
  have "queue_sound sv d2" using assms(1) queue_sound_view [OF v] by (simp add: cluster_sound_def)
  then have q: "queue_sound sv d3" by (rule queue_sound_inserts [OF _ r])
  have runs: "dbRuns d2 = dbRuns (clDB c)" using v by (simp add: queue_view_def)
  have "cluster_sound sv (c\<lparr>clDB := d3, clHalf := h\<rparr>)"
  proof (rule cluster_sound_grown [OF assms(1) q])
    have e: "dbRuns d3 = dbRuns (clDB c) @ map (\<lambda>(i, p). queued_run i now p) runs"
      using CreateSweepRuns_Inr [OF r] runs by simp
    then show "set (dbRuns (clDB c)) \<subseteq> set (dbRuns d3)" by simp
    have "map rrID (map (\<lambda>(i, p). queued_run i now p) runs) = map fst runs" by (simp add: queued_run_def split_beta)
    then have "run_ids d3 = run_ids (clDB c) @ map fst runs" using e by (simp add: run_ids_def del: map_map)
    then show "x \<notin> rrID ` set (clBusy c)" if "x \<in> set (run_ids d3)" "x \<notin> set (run_ids (clDB c))" for x
    proof -
      have "x \<in> range ids" using that \<open>run_ids d3 = _\<close> childRuns_ids [OF k] by auto
      then show ?thesis using assms(2) by (auto simp only: fresh_id_def)
    qed
  qed
  from members_step_sound [OF this, of ms d h] show ?thesis using m by simp
qed

lemma handleCreateSweep_Inr:
  assumes "handleCreateSweep sv ids i now user body d = Inr (d', w)"
  obtains p where "createSweep (svCal sv) ids i now p d = Some (d', w)"
  using assms unfolding handleCreateSweep_def
  by (auto simp: bad_def elim!: and_then_case split: option.splits sum.splits if_splits prod.splits)

lemma delete_step_sound:
  assumes "cluster_sound sv c" "handleDeleteSweep path user (clDB c) = Inr d"
  shows "cluster_sound sv (c\<lparr>clDB := d, clHalf := h\<rparr>)"
proof -
  obtain i where d: "queue_view d = queue_view (delete_runs (\<lambda>r. rrSweepID r = Some i) (clDB c))"
    using assms(2) by (auto simp: handleDeleteSweep_def DeleteSweep_def Let_def queue_view_def split: option.splits if_splits)
  let ?d = "delete_runs (\<lambda>r. rrSweepID r = Some i) (clDB c)"
  have s: "queue_sound sv (clDB c)" using assms(1) by (simp add: cluster_sound_def)
  have ids: "distinct (run_ids (clDB c))" using s by (simp add: queue_sound_def clash_free_ids)
  have runs: "dbRuns d = filter (\<lambda>r. rrSweepID r \<noteq> Some i) (dbRuns (clDB c))"
    using d by (simp add: queue_view_def delete_runs_def Let_def)
  have "queue_sound sv d" using queue_sound_delete [OF s] queue_sound_view [OF d] by simp
  then show ?thesis
  proof (intro cluster_sound_db [OF assms(1)])
    show "r \<in> set (dbRuns d) \<or> \<not> run_known d (rrID r)" if "r \<in> set (dbRuns (clDB c))" for r
      using same_run [OF ids that] by (auto simp: runs run_known_def that)
    show "run_known (clDB c) (rrID r)" if "run_known d (rrID r)" for r
      using that by (auto simp: runs run_known_def)
  qed simp
qed

lemma elsewhere_view: "elsewhere d d' \<Longrightarrow> queue_view d' = queue_view d"
  by (auto simp: elsewhere_def queue_view_def)

lemma orderly_step_sound:
  assumes "orderly_step sv c c'" "cluster_sound sv c"
  shows "cluster_sound sv c'"
proof -
  have "cluster_step sv c c'" "\<not> overtaken c'" using assms(1) by (simp_all add: orderly_step_def)
  then show ?thesis using assms(2)
  proof (induction rule: cluster_step.induct)
    case (Claim now c d row)
    then show ?case by (intro claim_step_sound)
  next
    case (Finish row c d0 r now d)
    then show ?case by (intro finish_sound)
  next
    case (FinishLost row c d0 r now e)
    then show ?case by (intro drop_busy)
  next
    case (Fail row c d0 e now)
    then show ?case unfolding fail_update by (intro end_sound) (simp_all add: failed_sound)
  next
    case (GiveBack row c)
    then show ?case unfolding requeue_update by (intro end_sound) (simp_all add: requeued_sound)
  next
    case (Crash row c)
    then show ?case by (intro drop_busy)
  next
    case (Stale cutoff c)
    then show ?case by (intro stale_step_sound) simp_all
  next
    case (Advance c i now s f d r)
    then show ?case by (intro advance_step_sound)
  next
    case (Basket s r c d)
    then show ?case by (intro members_step_sound) (auto simp: advance_basket_def split: sum.splits)
  next
    case (BasketLost s r c)
    then show ?case by (intro cluster_sound_half)
  next
    case (NewRun c i now user body d row)
    then show ?case using createRun_step_sound [of sv c i now _ _ d row "clHalf c"] handleCreateBacktest_Inr [OF NewRun(2)] by simp blast
  next
    case (NewSweep c ids i now user sweep d w)
    then show ?case using createSweep_step_sound [of sv c ids _ i now _ d w "clHalf c"] handleCreateSweep_Inr [OF NewSweep(2)] by simp blast
  next
    case (DropSweep path user c d)
    then show ?case using delete_step_sound [of sv c path user d "clHalf c"] by simp
  next
    case (Elsewhere c d)
    have v: "queue_view d = queue_view (clDB c)" using Elsewhere(1) by (rule elsewhere_view)
    then have "cluster_sound sv (c\<lparr>clDB := d, clHalf := clHalf c\<rparr>)"
      using Elsewhere(3) queue_sound_view [OF v]
      by (intro cluster_sound_grown) (auto simp: cluster_sound_def queue_view_def run_ids_def)
    then show ?case by simp
  qed
qed

section \<open>Every reachable cluster is sound\<close>

text \<open>The tables, whatever happens.\<close>

lemma cluster_step_tables: "cluster_step sv c c' \<Longrightarrow> tables_sound (clDB c) \<Longrightarrow> tables_sound (clDB c')"
proof (induction rule: cluster_step.induct)
  case (Claim now c d row)
  show ?case by (rule claim_Inr [OF Claim(1)]) (use Claim(2) in \<open>auto intro!: tables_sound_update\<close>)
next
  case (Finish row c d0 r now d)
  then show ?case using tables_sound_result(1) finish_Inr [OF Finish(3)] by simp blast
next
  case (Fail row c d0 e now)
  then show ?case by (auto simp: fail_update intro!: tables_sound_update)
next
  case (GiveBack row c)
  then show ?case by (auto simp: requeue_update intro!: tables_sound_update)
next
  case (Stale c cutoff)
  then show ?case by (auto simp: stale_update intro!: tables_sound_update)
next
  case (Advance c i now s f d r)
  obtain p where "CreateBacktestRun i now p (clDB c) = Inr (d, r)" by (rule advance_run_Inr [OF Advance(2)])
  then show ?case using tables_sound_insert(1) [OF Advance(3)] by (auto simp: CreateBacktestRun_Inr)
next
  case (Basket s r c d)
  then show ?case by (auto simp: advance_basket_def split: sum.splits intro: tables_sound_members)
next
  case (NewRun c i now user body d row)
  obtain d1 p ms where d1: "insert_run (queued_run i now p) (clDB c) = Inr d1" "CreateBacktestRunSymbols ms d1 = Inr d"
    by (rule handleCreateBacktest_Inr [OF NewRun(2)], erule createRun_Inr) auto
  then show ?case using tables_sound_members [OF tables_sound_insert(1) [OF NewRun(3) d1(1)] d1(2)] by simp
next
  case (NewSweep c ids i now user sweep d w)
  obtain p where p: "createSweep (svCal sv) ids i now p (clDB c) = Some (d, w)" by (rule handleCreateSweep_Inr [OF NewSweep(2)])
  obtain d2 d3 runs ms where s: "queue_view d2 = queue_view (clDB c)" "CreateSweepRuns now runs d2 = Inr d3"
    "CreateBacktestRunSymbols ms d3 = Inr d" by (rule createSweep_Some [OF p])
  have "tables_sound d2" using NewSweep(3) tables_sound_view [OF s(1)] by simp
  then show ?case using tables_sound_members [OF tables_sound_inserts [OF _ s(2)] s(3)] by simp
next
  case (DropSweep path user c d)
  then obtain i where v: "queue_view d = queue_view (delete_runs (\<lambda>r. rrSweepID r = Some i) (clDB c))"
    by (auto simp: handleDeleteSweep_def DeleteSweep_def Let_def queue_view_def split: option.splits if_splits)
  show ?case using tables_sound_view [OF v] tables_sound_delete [OF DropSweep(2)] by simp
next
  case (Elsewhere c d)
  then show ?case using tables_sound_view [OF elsewhere_view] by simp
qed simp_all

text \<open>C3: From a sound queue whose workers are idle, whatever the workers, the promotion of folds, the requeueing of abandoned
  runs and the requests do, in any order: identifiers stay unique, no fold of a sweep is tested twice, and every stored row
  belongs to a run. As long as besides no worker is overtaken, that is no run waits in the queue that a worker still
  executes: a run that waits or runs shows no result, a run that is done shows the rows and the metrics of one execution of
  it, whole and alone, a failed one its fault and no result, and no run is held by two workers. The code
  does not enforce that condition, and \<open>overtaken_worker_breaks_life\<close> shows what happens without it.\<close>

theorem reachable_queue_sound:
  assumes "queue_sound sv d" and "(cluster_step sv)\<^sup>*\<^sup>* \<lparr>clDB = d, clBusy = [], clHalf = []\<rparr> c"
  shows "tables_sound (clDB c) \<and> ((orderly_step sv)\<^sup>*\<^sup>* \<lparr>clDB = d, clBusy = [], clHalf = []\<rparr> c \<longrightarrow> cluster_sound sv c)"
proof (intro conjI impI)
  show "tables_sound (clDB c)"
    using assms(2)
  proof (induction rule: rtranclp_induct)
    case base
    then show ?case using assms(1) by (simp add: queue_sound_tables)
  qed (rule cluster_step_tables)
next
  assume "(orderly_step sv)\<^sup>*\<^sup>* \<lparr>clDB = d, clBusy = [], clHalf = []\<rparr> c"
  then show "cluster_sound sv c"
  proof (induction rule: rtranclp_induct)
    case base
    then show ?case using assms(1) by (simp add: cluster_sound_def workers_sound_def)
  qed (rule orderly_step_sound)
qed

text \<open>A desk that has no candles and knows the week of one Christmas.\<close>

definition desk :: services where
  "desk =
     \<lparr>svCal = christmas, svRates = None, svBorrow = None, svCandles = (\<lambda>i tf. Some []), svQuotes = (\<lambda>t lo hi. Some []),
      svEnv = \<lparr>ePow = (\<lambda>x y. x), eZone = (\<lambda>t. 0)\<rparr>, svRegistry = registry (\<lambda>x. x)\<rparr>"

lemma plain_run_sound: "queue_sound sv (no_rows\<lparr>dbRuns := [plain_run 1 5 None]\<rparr>)"
  by (simp add: queue_sound_def clash_free_def run_checks_def run_sound_def plain_run_def queued_run_def no_rows_of_def
        no_orphans_def no_rows_def Timeframes_def word_sless_alt)

text \<open>The first steps of a run: a worker claims it, and its time runs out.\<close>

lemma claim_plain:
  "cluster_step desk \<lparr>clDB = no_rows\<lparr>dbRuns := [plain_run 1 5 None]\<rparr>, clBusy = [], clHalf = []\<rparr>
     \<lparr>clDB = no_rows\<lparr>dbRuns := [claimed 6 (plain_run 1 5 None)]\<rparr>, clBusy = [claimed 6 (plain_run 1 5 None)], clHalf = []\<rparr>"
proof -
  let ?d = "no_rows\<lparr>dbRuns := [plain_run 1 5 None]\<rparr>"
  have "ClaimBacktestRun 6 ?d = Inr (no_rows\<lparr>dbRuns := [claimed 6 (plain_run 1 5 None)]\<rparr>, claimed 6 (plain_run 1 5 None))"
    by (simp add: claim_cases queued_runs_def plain_run_def queued_run_def update_runs_def)
  then show ?thesis using cluster_step.Claim [of 6 "\<lparr>clDB = ?d, clBusy = [], clHalf = []\<rparr>"] by simp
qed

lemma fail_held:
  assumes "rrID r = rrID row"
  shows "cluster_step desk \<lparr>clDB = no_rows\<lparr>dbRuns := [r]\<rparr>, clBusy = [row], clHalf = []\<rparr>
    \<lparr>clDB = no_rows\<lparr>dbRuns := [failed_row 8 RunTimedOut r]\<rparr>, clBusy = [], clHalf = []\<rparr>"
  using cluster_step.Fail [of row "\<lparr>clDB = no_rows\<lparr>dbRuns := [r]\<rparr>, clBusy = [row], clHalf = []\<rparr>" desk no_rows RunTimedOut 8] assms
  by (simp add: fail_update update_runs_def)

theorem reachable_queue_sound_witness:
  "cluster_sound desk \<lparr>clDB = no_rows\<lparr>dbRuns := [failed_row 8 RunTimedOut (claimed 6 (plain_run 1 5 None))]\<rparr>, clBusy = [], clHalf = []\<rparr>"
proof -
  let ?r = "plain_run 1 5 None" and ?c = "\<lambda>r busy. \<lparr>clDB = no_rows\<lparr>dbRuns := [r]\<rparr>, clBusy = busy, clHalf = []\<rparr>"
  let ?q = "claimed 6 ?r"
  have s: "cluster_step desk (?c ?r []) (?c ?q [?q])" "cluster_step desk (?c ?q [?q]) (?c (failed_row 8 RunTimedOut ?q) [])"
    using claim_plain fail_held [of ?q ?q] by simp_all
  moreover have "\<not> overtaken (?c ?q [?q])" "\<not> overtaken (?c (failed_row 8 RunTimedOut ?q) [])"
    by (simp_all add: overtaken_def claimed_def)
  ultimately have o: "(orderly_step desk)\<^sup>*\<^sup>* (?c ?r []) (?c (failed_row 8 RunTimedOut ?q) [])"
    by (meson orderly_step_def converse_rtranclp_into_rtranclp rtranclp.rtrancl_refl)
  have "(cluster_step desk)\<^sup>*\<^sup>* (?c ?r []) (?c (failed_row 8 RunTimedOut ?q) [])"
    using s by (meson converse_rtranclp_into_rtranclp rtranclp.rtrancl_refl)
  from reachable_queue_sound [OF plain_run_sound this] o show ?thesis by blast
qed

section \<open>The life of a run\<close>

datatype job = Absent | Waiting | InProgress | Succeeded | Broken

fun job_status :: "run_status \<Rightarrow> job" where
  "job_status StQueued = Waiting"
| "job_status StRunning = InProgress"
| "job_status StDone = Succeeded"
| "job_status StError = Broken"

definition job_of :: "db \<Rightarrow> uuid \<Rightarrow> job" where
  "job_of d i = (case map_of (map (\<lambda>r. (rrID r, rrStatus r)) (dbRuns d)) i of None \<Rightarrow> Absent | Some s \<Rightarrow> job_status s)"

inductive job_step :: "job \<Rightarrow> job \<Rightarrow> bool" where
  Submit: "job_step Absent Waiting"
| Start: "job_step Waiting InProgress"
| Return: "job_step InProgress Waiting"
| Succeed: "job_step InProgress Succeeded"
| Break: "job_step InProgress Broken"
| Drop: "job_step j Absent"

lemma job_absent: "i \<notin> set (run_ids d) \<Longrightarrow> job_of d i = Absent"
  by (force simp: job_of_def run_ids_def dest: map_of_SomeD split: option.splits)

lemma job_present:
  assumes "distinct (run_ids d)" "r \<in> set (dbRuns d)"
  shows "job_of d (rrID r) = job_status (rrStatus r)"
proof -
  have "map fst (map (\<lambda>r. (rrID r, rrStatus r)) (dbRuns d)) = run_ids d" by (simp add: run_ids_def)
  then have "map_of (map (\<lambda>r. (rrID r, rrStatus r)) (dbRuns d)) (rrID r) = Some (rrStatus r)"
    using assms by (intro map_of_is_SomeI) auto
  then show ?thesis by (simp add: job_of_def)
qed

lemma job_runs: "dbRuns d = dbRuns d' \<Longrightarrow> job_of d = job_of d'"
  by (intro ext) (simp add: job_of_def)

text \<open>An update moves only the jobs it moves one by one.\<close>

lemma job_update:
  assumes "distinct (run_ids d)" "\<And>r. rrID (f r) = rrID r"
    and "\<And>r. r \<in> set (dbRuns d) \<Longrightarrow> p r \<Longrightarrow> job_step (job_status (rrStatus r)) (job_status (rrStatus (f r)))"
  shows "job_step\<^sup>=\<^sup>= (job_of d i) (job_of (update_runs p f d) i)"
proof (cases "i \<in> set (run_ids d)")
  case True
  then obtain r where r: "r \<in> set (dbRuns d)" "rrID r = i" by (auto simp: run_ids_def)
  have n: "distinct (run_ids (update_runs p f d))" using assms(1) run_ids_update [of f p d, OF assms(2)] by simp
  have "(if p r then f r else r) \<in> set (dbRuns (update_runs p f d))" using r(1) by (auto simp: update_runs_def)
  from job_present [OF n this] have "job_of (update_runs p f d) i = job_status (rrStatus (if p r then f r else r))"
    using r(2) assms(2) by (cases "p r") simp_all
  then show ?thesis using job_present [OF assms(1) r(1)] r assms(3) [OF r(1)] by (cases "p r") simp_all
next
  case False
  then show ?thesis using run_ids_update [of f p d, OF assms(2)] by (simp add: job_absent)
qed

lemma job_append:
  assumes "list_all (\<lambda>r. rrStatus r = StQueued) rs"
  shows "job_step\<^sup>=\<^sup>= (job_of d i) (job_of (d\<lparr>dbRuns := dbRuns d @ rs\<rparr>) i)"
proof (cases "map_of (map (\<lambda>r. (rrID r, rrStatus r)) (dbRuns d)) i")
  case None
  have "s = StQueued" if "map_of (map (\<lambda>r. (rrID r, rrStatus r)) rs) i = Some s" for s
    using assms map_of_SomeD [OF that] by (auto simp: list_all_iff)
  then show ?thesis using None
    by (cases "map_of (map (\<lambda>r. (rrID r, rrStatus r)) rs) i") (auto simp: job_of_def map_add_def intro: job_step.intros)
next
  case (Some s)
  then show ?thesis by (auto simp: job_of_def map_add_def split: option.splits)
qed

lemma job_delete:
  assumes "distinct (run_ids d)"
  shows "job_step\<^sup>=\<^sup>= (job_of d i) (job_of (delete_runs p d) i)"
proof (cases "i \<in> set (run_ids (delete_runs p d))")
  case True
  then obtain r where r: "r \<in> set (dbRuns d)" "\<not> p r" "rrID r = i" by (auto simp: run_ids_def delete_runs_def Let_def)
  have "distinct (run_ids (delete_runs p d))"
    using assms by (simp add: run_ids_def delete_runs_def Let_def distinct_map_filter)
  from job_present [OF this, of r] job_present [OF assms r(1)] show ?thesis
    using r by (simp add: delete_runs_def Let_def)
next
  case False
  then show ?thesis by (simp add: job_absent job_step.Drop)
qed

lemma busy_running:
  assumes "cluster_sound sv c" "row \<in> set (clBusy c)" "r \<in> set (dbRuns (clDB c))" "rrID r = rrID row"
  shows "rrStatus r = StRunning"
  using assms known_holder [of c row r] by (auto simp: cluster_sound_def queue_sound_def clash_free_ids)

text \<open>C4: To every step of a sound cluster, one in which the workers execute the runs that run in their name and no other, each
  run takes no step or one step of its life: submitted, started, given back, done or failed, each from the state before
  it. In particular what is done or failed stays so until it is deleted. C3 says when a cluster is sound, and
  \<open>overtaken_worker_breaks_life\<close> that a worker that was overtaken breaks this.\<close>

theorem steps_refine_run_life:
  assumes "cluster_sound sv c" and "cluster_step sv c c'"
  shows "job_step\<^sup>=\<^sup>= (job_of (clDB c) i) (job_of (clDB c') i)"
proof -
  have ids: "distinct (run_ids (clDB c))" using assms(1) by (simp add: cluster_sound_def queue_sound_def clash_free_ids)
  from assms(2) show ?thesis
  proof (cases rule: cluster_step.cases)
    case (Claim now d row)
    obtain q where q: "q \<in> set (dbRuns (clDB c))" "rrStatus q = StQueued" "d = update_runs (\<lambda>r. rrID r = rrID q) (claimed now) (clDB c)"
      by (rule claim_Inr [OF Claim(2)])
    have "rrStatus r = StQueued" if "r \<in> set (dbRuns (clDB c))" "rrID r = rrID q" for r
      using same_run [OF ids that(1) q(1) that(2)] q(2) by simp
    then have "job_step\<^sup>=\<^sup>= (job_of (clDB c) i) (job_of d i)" unfolding q(3)
      by (intro job_update ids) (auto intro: job_step.Start)
    then show ?thesis using Claim(1) by simp
  next
    case (Finish row d0 r now d)
    then have w: "write_result now (rrID row) r (clDB c) = Inr d" by (auto simp: finish_def split: if_splits sum.splits)
    have d: "d = update_runs (\<lambda>q. rrID q = rrID row) (finished now (stored_metrics (rlMetrics r))) (with_rows (rrID row) r (clDB c))"
      using write_result_Inr(1) [OF w] by (simp add: finish_update with_rows_def)
    have "job_step\<^sup>=\<^sup>= (job_of (with_rows (rrID row) r (clDB c)) i) (job_of d i)"
      unfolding d using ids busy_running [OF assms(1) Finish(2)]
      by (intro job_update) (auto simp: finished_def intro: job_step.Succeed)
    then show ?thesis using Finish(1) job_runs [of "with_rows (rrID row) r (clDB c)" "clDB c"] by simp
  next
    case (Fail row d0 e now)
    have "job_step\<^sup>=\<^sup>= (job_of (clDB c) i) (job_of (update_runs (\<lambda>r. rrID r = rrID row) (failed_row now e) (clDB c)) i)"
      using busy_running [OF assms(1) Fail(2)] by (intro job_update ids) (auto simp: failed_row_def intro: job_step.Break)
    then show ?thesis using Fail(1) by (simp add: fail_update)
  next
    case (GiveBack row)
    have "job_step\<^sup>=\<^sup>= (job_of (clDB c) i)
        (job_of (update_runs (\<lambda>r. rrID r = rrID row \<and> rrStatus r = StRunning) requeued (clDB c)) i)"
      by (intro job_update ids) (auto simp: requeued_def intro: job_step.Return)
    then show ?thesis using GiveBack(1) by (simp add: requeue_update)
  next
    case (Stale cutoff)
    have "job_step\<^sup>=\<^sup>= (job_of (clDB c) i) (job_of (update_runs (stale_run cutoff) requeued (clDB c)) i)"
      by (intro job_update ids) (auto simp: requeued_def stale_run_def intro: job_step.Return)
    then show ?thesis using Stale(1) by (simp add: RequeueStaleBacktestRuns_def)
  next
    case (Advance j now s f d r)
    obtain p where "CreateBacktestRun j now p (clDB c) = Inr (d, r)" by (rule advance_run_Inr [OF Advance(3)])
    then have "d = (clDB c)\<lparr>dbRuns := dbRuns (clDB c) @ [queued_run j now p]\<rparr>"
      using insert_run_Inr by (auto simp: CreateBacktestRun_Inr)
    then show ?thesis using Advance(1) job_append [of "[queued_run j now p]"] by (simp add: queued_run_def)
  next
    case (Basket s r d)
    then obtain ms where "CreateBacktestRunSymbols ms (clDB c) = Inr d" by (auto simp: advance_basket_def split: sum.splits)
    then have "dbRuns d = dbRuns (clDB c)" by (simp add: members_runs)
    then show ?thesis using Basket(1) job_runs [of d "clDB c"] by simp
  next
    case (NewRun j now user body d row)
    obtain d1 p where d1: "insert_run (queued_run j now p) (clDB c) = Inr d1" "dbRuns d = dbRuns d1"
      by (rule handleCreateBacktest_Inr [OF NewRun(3)], erule createRun_Inr)
         (auto dest!: members_runs)
    then show ?thesis using NewRun(1) insert_run_Inr [OF d1(1)] job_runs [OF d1(2)] job_append [of "[queued_run j now p]" "clDB c"]
      by (simp add: queued_run_def)
  next
    case (NewSweep ids j now user sweep d w)
    obtain p where p: "createSweep (svCal sv) ids j now p (clDB c) = Some (d, w)" by (rule handleCreateSweep_Inr [OF NewSweep(3)])
    obtain d2 d3 runs ms where s: "queue_view d2 = queue_view (clDB c)" "childRuns (svCal sv) ids j p = Some (runs, ms)"
      "CreateSweepRuns now runs d2 = Inr d3" "CreateBacktestRunSymbols ms d3 = Inr d" by (rule createSweep_Some [OF p])
    have d: "dbRuns d2 = dbRuns (clDB c)" "dbRuns d = dbRuns d3" using s(1) members_runs [OF s(4)] by (simp_all add: queue_view_def)
    have "list_all (\<lambda>r. rrStatus r = StQueued) (map (\<lambda>(i, p). queued_run i now p) runs)"
      by (auto simp: list_all_iff queued_run_def)
    then have q: "job_step\<^sup>=\<^sup>= (job_of d2 i) (job_of (d2\<lparr>dbRuns := dbRuns d2 @ map (\<lambda>(i, p). queued_run i now p) runs\<rparr>) i)"
      by (rule job_append)
    have "job_of d = job_of (d2\<lparr>dbRuns := dbRuns d2 @ map (\<lambda>(i, p). queued_run i now p) runs\<rparr>)"
      using d(2) CreateSweepRuns_Inr [OF s(3)] by (intro job_runs) simp
    moreover have "clDB c' = d" using NewSweep(1) by simp
    ultimately show ?thesis using q job_runs [OF d(1)] by (simp only:)
  next
    case (DropSweep path user d)
    obtain k where k: "dbRuns d = dbRuns (delete_runs (\<lambda>r. rrSweepID r = Some k) (clDB c))"
      using DropSweep(2) by (auto simp: handleDeleteSweep_def DeleteSweep_def Let_def split: option.splits if_splits)
    show ?thesis using DropSweep(1) job_delete [OF ids, of i] job_runs [OF k] by simp
  next
    case (Elsewhere d)
    then have "dbRuns d = dbRuns (clDB c)" using elsewhere_view by (simp add: queue_view_def)
    then show ?thesis using Elsewhere(1) job_runs [of d "clDB c"] by simp
  qed auto
qed

theorem steps_refine_run_life_witness:
  "job_of (no_rows\<lparr>dbRuns := [plain_run 1 5 None]\<rparr>) 1 = Waiting \<and>
   job_step\<^sup>=\<^sup>= Waiting (job_of (no_rows\<lparr>dbRuns := [claimed 6 (plain_run 1 5 None)]\<rparr>) 1)"
proof -
  let ?d = "no_rows\<lparr>dbRuns := [plain_run 1 5 None]\<rparr>"
  have "cluster_sound desk \<lparr>clDB = ?d, clBusy = [], clHalf = []\<rparr>" using plain_run_sound by (simp add: cluster_sound_def workers_sound_def)
  moreover have "job_of ?d 1 = Waiting" by (simp add: job_of_def plain_run_def queued_run_def)
  ultimately show ?thesis using steps_refine_run_life [OF _ claim_plain, of 1] by simp
qed

section \<open>A worker that is overtaken\<close>

text \<open>Neither the end nor the failure of a run asks that it is still running: a worker whose run was requeued while it
  executed it fails the run that waits in the queue for another, which no life of a run has.\<close>

theorem overtaken_worker_breaks_life:
  "\<exists>c c'. (cluster_step desk)\<^sup>*\<^sup>* \<lparr>clDB = no_rows\<lparr>dbRuns := [plain_run 1 5 None]\<rparr>, clBusy = [], clHalf = []\<rparr> c \<and>
     cluster_step desk c c' \<and> job_of (clDB c) 1 = Waiting \<and> job_of (clDB c') 1 = Broken \<and> \<not> job_step\<^sup>=\<^sup>= Waiting Broken"
proof -
  let ?r = "plain_run 1 5 None" and ?c = "\<lambda>r busy. \<lparr>clDB = no_rows\<lparr>dbRuns := [r]\<rparr>, clBusy = busy, clHalf = []\<rparr>"
  let ?q = "claimed 6 ?r"
  have "fst (RequeueStaleBacktestRuns 7 (no_rows\<lparr>dbRuns := [?q]\<rparr>)) = no_rows\<lparr>dbRuns := [requeued ?q]\<rparr>"
    by (simp add: stale_update update_runs_def stale_run_def claimed_def)
  then have "cluster_step desk (?c ?q [?q]) (?c (requeued ?q) [?q])" using cluster_step.Stale [of desk "?c ?q [?q]" 7] by simp
  then have "(cluster_step desk)\<^sup>*\<^sup>* (?c ?r []) (?c (requeued ?q) [?q])"
    using claim_plain by (meson converse_rtranclp_into_rtranclp rtranclp.rtrancl_refl)
  moreover have "cluster_step desk (?c (requeued ?q) [?q]) (?c (failed_row 8 RunTimedOut (requeued ?q)) [])"
    by (rule fail_held) simp
  moreover have "job_of (no_rows\<lparr>dbRuns := [requeued ?q]\<rparr>) 1 = Waiting"
    "job_of (no_rows\<lparr>dbRuns := [failed_row 8 RunTimedOut (requeued ?q)]\<rparr>) 1 = Broken"
    by (simp_all add: job_of_def requeued_def failed_row_def claimed_def plain_run_def queued_run_def)
  moreover have "\<not> job_step\<^sup>=\<^sup>= Waiting Broken" by (auto elim: job_step.cases)
  ultimately show ?thesis by (intro exI [of _ "?c (requeued ?q) [?q]"] exI) (auto simp only: cluster.simps)
qed

end
