(* ===== verification/Dispatch.thy ===== *)
theory Dispatch
  imports Cluster
begin

text \<open>
  What the queue, the requests and the workers guarantee together: a run that was queued parses, compiles and is on a
  known timeframe, whoever queued it, and a run a request queued is read with the basket of the request. A run
  \<open>advance\<close> queues is read with its first symbol alone until its second statement has been carried out.
\<close>

section \<open>What is queued can run\<close>

text \<open>A specification in the form the parser writes it in.\<close>

definition canonical_spec :: "spec list \<Rightarrow> json \<Rightarrow> bool" where
  "canonical_spec reg j \<longleftrightarrow> (\<exists>v s. Parse reg (Some v) = Inr s \<and> j = marshal_spec s)"

definition run_ready :: "spec list \<Rightarrow> run_row \<Rightarrow> bool" where
  "run_ready reg r \<longleftrightarrow> canonical_spec reg (rrSpec r) \<and> rrTimeframe r \<in> set Timeframes"

lemma Apply_canonical: "Apply reg base vals = Inr j \<Longrightarrow> canonical_spec reg j"
  by (auto simp: Apply_def canonical_spec_def and_then_Inr split: json.splits if_splits sum.splits)

lemma grid_points_canonical:
  "grid_points reg base axes cursor i n = Inr pts \<Longrightarrow> list_all (\<lambda>p. canonical_spec reg (ptSpec p)) pts"
  by (induction n arbitrary: cursor i pts) (auto simp: Let_def and_then_Inr dest: Apply_canonical)

lemma Grid_canonical: "Grid reg base axes = Inr pts \<Longrightarrow> list_all (\<lambda>p. canonical_spec reg (ptSpec p)) pts"
  by (auto simp: Grid_def and_then_Inr dest: grid_points_canonical)

lemma compileSpec_canonical: "compileSpec reg raw = Inr (j, pl) \<Longrightarrow> canonical_spec reg j"
  by (auto simp: compileSpec_def canonical_spec_def split: option.splits sum.splits if_splits)

lemma ready_update:
  assumes "list_all (run_ready reg) (dbRuns d)" "\<And>r. rrSpec (f r) = rrSpec r" "\<And>r. rrTimeframe (f r) = rrTimeframe r"
  shows "list_all (run_ready reg) (dbRuns (update_runs p f d))"
  using assms by (auto simp: update_runs_def list_all_iff run_ready_def)

lemma insert_checked: "insert_run r d = Inr d' \<Longrightarrow> run_checks r"
  by (auto simp: insert_run_def split: if_splits)

lemma ready_insert:
  assumes "list_all (run_ready reg) (dbRuns d)" "insert_run (queued_run i now p) d = Inr d'" "canonical_spec reg (rpSpec p)"
  shows "list_all (run_ready reg) (dbRuns d')"
  using assms(1,3) insert_run_Inr [OF assms(2)] insert_checked [OF assms(2)]
  by (simp add: run_ready_def run_checks_def queued_run_def)

lemma best_from_mem: "best_from obj b rows = Some (q, s) \<Longrightarrow> q \<in> set rows \<or> (\<exists>t. b = Some (q, t))"
proof (induction rows arbitrary: b)
  case (Cons r rows)
  show ?case
  proof (cases "row_score obj r")
    case None
    then show ?thesis using Cons by auto
  next
    case (Some s')
    then show ?thesis using Cons.IH [of "Some (r, s')"] Cons.IH [of b] Cons.prems
      by (cases b) (auto split: if_splits)
  qed
qed simp

lemma bestOf_mem: "bestOf rows obj = Some q \<Longrightarrow> q \<in> set rows"
  using best_from_mem [of obj None rows] by (auto simp: bestOf_def)

lemma enumerate_mem: "(k, x) \<in> set (enumerate n xs) \<Longrightarrow> x \<in> set xs"
  by (auto simp: in_set_enumerate_eq)

lemma winner_canonical:
  assumes "list_all (run_ready reg) (dbRuns d)" "winner_params sv s f d = Inr (Some p)"
  shows "canonical_spec reg (rpSpec p)"
proof -
  obtain w obj where w: "bestOf (ListSweepFoldRuns s f d) obj = Some w" "rpSpec p = rrSpec w"
    using assms(2) by (auto simp: winner_params_def split: sum.splits option.splits prod.splits)
  then have "w \<in> set (ListSweepFoldRuns s f d)" by (intro bestOf_mem)
  then show ?thesis using assms(1) w(2) by (auto simp: ListSweepFoldRuns_def list_all_iff run_ready_def)
qed

lemma ready_inserts:
  "list_all (run_ready reg) (dbRuns d) \<Longrightarrow> CreateSweepRuns now ps d = Inr d' \<Longrightarrow> list_all (\<lambda>(i, p). canonical_spec reg (rpSpec p)) ps \<Longrightarrow>
    list_all (run_ready reg) (dbRuns d')"
proof (induction ps arbitrary: d)
  case (Cons x ps)
  obtain i p where x: "x = (i, p)" by fastforce
  then obtain d1 where "insert_run (queued_run i now p) d = Inr d1" "CreateSweepRuns now ps d1 = Inr d'"
    using Cons.prems(2) by (auto simp: CreateSweepRuns_def and_then_Inr)
  then show ?case using Cons x ready_insert [of reg d i now p d1] by auto
qed (simp add: CreateSweepRuns_def)

lemma childRuns_canonical:
  assumes "childRuns c ids sweep p = Some (rs, ms)" "list_all (\<lambda>pt. canonical_spec reg (ptSpec pt)) (slPoints p)"
  shows "list_all (\<lambda>(i, q). canonical_spec reg (rpSpec q)) rs"
proof -
  obtain ws where "rs = map (\<lambda>(k, w, pt). (ids k, child_params c sweep p w pt)) (enumerate 0 (List.product ws (slPoints p)))"
    using assms(1) by (auto simp: childRuns_def Let_def split: option.splits if_splits)
  then show ?thesis using assms(2)
    by (auto simp: list_all_iff child_params_def dest!: enumerate_mem)
qed

lemma handleCreateSweep_points:
  assumes "handleCreateSweep sv ids i now user body d = Inr (d', w)"
  obtains p base where "createSweep (svCal sv) ids i now p d = Some (d', w)" "Grid (svRegistry sv) base (slAxes p) = Inr (slPoints p)"
  using assms unfolding handleCreateSweep_def
  by (auto simp: bad_def elim!: and_then_case split: option.splits sum.splits if_splits prod.splits)

lemma created_run:
  assumes "handleCreateBacktest sv i now user body d = Inr (d', row)"
  obtains p and stored :: strategy_row and pl tickers basket where "compileSpec (svRegistry sv) (Some (sgSpec stored)) = Inr (rpSpec p, pl)"
    "createRun i now p basket d = Inr (d', row)" "readBasket (bqSymbol body) (bqSymbols body) = Inr tickers"
    "findBasket tickers d = Inr basket" "rpSymbolID p = smID (hd basket)"
proof -
  obtain strategy tf tickers w stored canonical pl basket where h: "readBasket (bqSymbol body) (bqSymbols body) = Inr tickers"
    "readWindow (svCal sv) tf (bqStart body) (bqEnd body) (bqCapital body) = Inr w" "GetStrategy strategy user d = Inr stored"
    "compileSpec (svRegistry sv) (Some (sgSpec stored)) = Inr (canonical, pl)" "findBasket tickers d = Inr basket"
    "CountActiveBacktestRuns user d < maxActiveBacktests"
    "createRun i now (backtest_params (svCal sv) user strategy canonical w (length tickers) basket) basket d = Inr (d', row)"
    by (rule handleCreateBacktest_Inr [OF assms])
  show ?thesis
    by (rule that [of stored "backtest_params (svCal sv) user strategy canonical w (length tickers) basket" pl basket tickers])
       (use h in \<open>simp_all add: backtest_params_def\<close>)
qed

lemma step_ready:
  assumes "cluster_step sv c c'" "list_all (run_ready (svRegistry sv)) (dbRuns (clDB c))"
  shows "list_all (run_ready (svRegistry sv)) (dbRuns (clDB c'))"
  using assms
proof (induction rule: cluster_step.induct)
  case (Claim now c d row)
  obtain q where q: "q \<in> set (dbRuns (clDB c))" "rrStatus q = StQueued" "row = claimed now q"
    "d = update_runs (\<lambda>r. rrID r = rrID q) (claimed now) (clDB c)" by (rule claim_Inr [OF Claim(1)])
  show ?case using Claim(2) q(4) by (simp add: ready_update claimed_def)
next
  case (Finish row c d0 r now d)
  then have w: "write_result now (rrID row) r (clDB c) = Inr d" by (auto simp: finish_def split: if_splits sum.splits)
  show ?case using Finish(4) write_result_Inr(1) [OF w] by (simp add: finish_update ready_update finished_def)
next
  case (Fail row c d0 e now)
  then show ?case by (simp add: fail_update ready_update failed_row_def)
next
  case (GiveBack row c)
  then show ?case by (simp add: requeue_update ready_update requeued_def)
next
  case (Stale cutoff c)
  then show ?case by (simp add: RequeueStaleBacktestRuns_def ready_update requeued_def)
next
  case (Advance c i now s f d r)
  obtain p where p: "CreateBacktestRun i now p (clDB c) = Inr (d, r)" "winner_params sv s f (clDB c) = Inr (Some p)"
    by (rule advance_run_Inr [OF Advance(2)])
  show ?case using ready_insert [of "svRegistry sv" "clDB c" i now p d] winner_canonical [OF Advance(3) p(2)] p(1) Advance(3)
    by (simp add: CreateBacktestRun_Inr)
next
  case (Basket s r c d)
  then show ?case by (auto simp: advance_basket_def members_runs split: sum.splits)
next
  case (NewRun c i now user body d row)
  obtain p and stored :: strategy_row and pl basket where k: "compileSpec (svRegistry sv) (Some (sgSpec stored)) = Inr (rpSpec p, pl)"
    and r: "createRun i now p basket (clDB c) = Inr (d, row)" by (rule created_run [OF NewRun(2)]) blast
  obtain d1 where d1: "insert_run (queued_run i now p) (clDB c) = Inr d1"
    and m: "CreateBacktestRunSymbols (basket_rows i basket) d1 = Inr d" by (rule createRun_Inr [OF r])
  from ready_insert [OF NewRun(3) d1 compileSpec_canonical [OF k]] show ?case by (simp add: members_runs [OF m])
next
  case (NewSweep c ids i now user sweep d w)
  obtain p base where p: "createSweep (svCal sv) ids i now p (clDB c) = Some (d, w)" "Grid (svRegistry sv) base (slAxes p) = Inr (slPoints p)"
    by (rule handleCreateSweep_points [OF NewSweep(2)])
  obtain d2 d3 runs ms where s: "queue_view d2 = queue_view (clDB c)" "childRuns (svCal sv) ids i p = Some (runs, ms)"
    "CreateSweepRuns now runs d2 = Inr d3" "CreateBacktestRunSymbols ms d3 = Inr d" by (rule createSweep_Some [OF p(1)])
  have "list_all (run_ready (svRegistry sv)) (dbRuns d3)"
    using NewSweep(3) s(1) childRuns_canonical [OF s(2) Grid_canonical [OF p(2)]] by (intro ready_inserts [OF _ s(3)]) (simp_all add: queue_view_def)
  then show ?case by (simp add: members_runs [OF s(4)])
next
  case (DropSweep path user c d)
  then obtain k where "dbRuns d = dbRuns (delete_runs (\<lambda>r. rrSweepID r = Some k) (clDB c))"
    by (auto simp: handleDeleteSweep_def DeleteSweep_def Let_def split: option.splits if_splits)
  then show ?case using DropSweep(2) by (auto simp: delete_runs_def Let_def list_all_iff)
next
  case (Elsewhere c d)
  then show ?case using elsewhere_view [OF Elsewhere(1)] by (simp add: queue_view_def)
qed simp_all

text \<open>The failures of a run that its specification or its timeframe would cause.\<close>

definition spec_failure :: "run_fault + run_result \<Rightarrow> bool" where
  "spec_failure o_r =
     (case o_r of
        Inl (BadRunSpec _) \<Rightarrow> True | Inl (BadRunPlan _) \<Rightarrow> True | Inl (BadRunTimeframe _) \<Rightarrow> True | _ \<Rightarrow> False)"

lemma timeframe_parses: "tf \<in> set Timeframes \<Longrightarrow> ParseTimeframe tf = Inr tf"
  by (auto simp: ParseTimeframe_def Timeframes_def tf_Valid_def TF5m_def TF15m_def TF30m_def TF1h_def TF1d_def
        to_lower_def trim_space_def is_space_def lower_char_def)

lemma parsed_canonical:
  assumes "Parse (registry math_Log) (Some v) = Inr s"
  shows "Parse (registry math_Log) (Some (marshal_spec s)) = Inr s" and "\<exists>pl. Compile (registry math_Log) s = Inr pl"
proof -
  have "parse_spec (registry math_Log) v = Inr s" using assms by (simp add: Parse_def)
  note wf = indicators.parse_spec_wf [OF this]
  show "Parse (registry math_Log) (Some (marshal_spec s)) = Inr s" using indicators.parse_spec_back [OF wf] by (simp add: Parse_def)
  show "\<exists>pl. Compile (registry math_Log) s = Inr pl" using indicators.wellformed_compiles [OF wf] by auto
qed

lemma ready_executes:
  assumes "svRegistry sv = registry math_Log" "run_ready (registry math_Log) r"
  shows "\<not> spec_failure (execute sv r d)"
proof -
  obtain v s where s: "Parse (registry math_Log) (Some v) = Inr s" "rrSpec r = marshal_spec s"
    using assms(2) by (auto simp: run_ready_def canonical_spec_def)
  have p: "Parse (registry math_Log) (Some (rrSpec r)) = Inr s" using parsed_canonical(1) [OF s(1)] s(2) by simp
  obtain pl where c: "Compile (registry math_Log) s = Inr pl" using parsed_canonical(2) [OF s(1)] by blast
  have t: "ParseTimeframe (rrTimeframe r) = Inr (rrTimeframe r)" using assms(2) by (intro timeframe_parses) (simp add: run_ready_def)
  have n: "\<not> spec_failure (Inl e)" if "run_basket r d = Inl e" for e
    using that by (auto simp: run_basket_def spec_failure_def split: list.splits sum.splits)
  have l: "\<not> spec_failure (Inl e)" if "load_instruments sv tf a b n ss = Inl e" for tf a b n ss e
    using that by (induction ss arbitrary: e)
      (auto simp: spec_failure_def futuresInstrument_def candlesInstrument_def and_then_def Let_def
         split: sum.splits if_splits prod.splits)
  show ?thesis
    using n l by (auto simp: execute_def assms(1) p c t and_then_def Let_def spec_failure_def split: sum.splits)
qed

text \<open>C5: Whatever is queued can be run: if every run of the queue had a specification the parser wrote and a known timeframe, so
  has every run of any cluster reached from it, those of sweeps and of tested folds included, and no execution of such
  a run, whatever the database it reads, fails on its specification, its plan or its timeframe.\<close>

theorem queued_runs_compile:
  assumes "svRegistry sv = registry math_Log" and "list_all (run_ready (registry math_Log)) (dbRuns (clDB c0))"
    and "(cluster_step sv)\<^sup>*\<^sup>* c0 c"
  shows "list_all (\<lambda>r. \<not> spec_failure (execute sv r d)) (dbRuns (clDB c))"
proof -
  from assms(3) have "list_all (run_ready (svRegistry sv)) (dbRuns (clDB c))"
  proof (induction rule: rtranclp_induct)
    case base
    then show ?case using assms(1,2) by simp
  next
    case (step c c')
    then show ?case using step_ready by blast
  qed
  then show ?thesis using ready_executes [OF assms(1)] assms(1) by (simp add: list_all_iff)
qed

section \<open>The basket of a run\<close>

lemma members_after:
  assumes "CreateBacktestRunSymbols ms d = Inr d'" "list_all (\<lambda>m. mbOwner m = i) ms" "i \<notin> mbOwner ` set (dbRunSymbols d)"
  shows "members_of i (dbRunSymbols d') = sort_key (\<lambda>m. sint (mbOrd m)) ms"
proof -
  have "filter (\<lambda>m. mbOwner m = i) (dbRunSymbols d) = []" using assms(3) by (auto simp: filter_empty_conv)
  moreover have "filter (\<lambda>m. mbOwner m = i) ms = ms" using assms(2) by (simp add: list_all_iff)
  ultimately show ?thesis using members_Inr [OF assms(1)] by (simp add: members_of_def)
qed

lemma filter_unique: "distinct (map f xs) \<Longrightarrow> x \<in> set xs \<Longrightarrow> filter (\<lambda>q. f q = f x) xs = [x]"
  by (induction xs) (auto simp: filter_empty_conv image_iff)

lemma symbol_unique:
  "distinct (map smID (dbSymbols d)) \<Longrightarrow> s \<in> set (dbSymbols d) \<Longrightarrow> symbols_with (\<lambda>q. smID q = smID s) d = [s]"
  by (simp add: symbols_with_def filter_unique)

lemma one_row_filter: "one_row (filter P xs) = Inr x \<Longrightarrow> x \<in> set xs \<and> P x"
  by (cases "filter P xs") (auto simp: one_row_def filter_eq_Cons_iff)

lemma join_rows:
  assumes "distinct (map smID (dbSymbols d))" "set basket \<subseteq> set (dbSymbols d)"
  shows "map snd (join_members d (map (\<lambda>(k, s). \<lparr>mbOwner = i, mbOrd = f k, mbSymbolID = smID s\<rparr>) (enumerate n basket))) = basket"
  using assms(2)
proof (induction basket arbitrary: n)
  case (Cons s basket)
  then show ?case using symbol_unique [OF assms(1), of s] by (simp add: join_members_def enumerate_simps)
qed (simp add: join_members_def)

lemma findBasket_Inr:
  "findBasket ts d = Inr basket \<Longrightarrow> set basket \<subseteq> set (dbSymbols d) \<and> map smTicker basket = map (\<lambda>t. to_upper (trim_space t)) ts"
proof (induction ts arbitrary: basket)
  case (Cons t ts)
  then obtain s rest where s: "findSymbol t d = Inr s" "findBasket ts d = Inr rest" "basket = s # rest" by (auto simp: and_then_Inr)
  have "s \<in> set (dbSymbols d) \<and> smTicker s = to_upper (trim_space t)" using s(1)
    by (auto simp: findSymbol_def Let_def GetSymbolByTicker_def symbols_with_def dest: one_row_filter split: sum.splits)
  then show ?case using Cons.IH [OF s(2)] s(3) by simp
qed simp

lemma basket_owner: "list_all (\<lambda>m. mbOwner m = i) (basket_rows i basket)"
  by (auto simp: basket_rows_def list_all_iff)

lemma sint_i32: "n < 2147483648 \<Longrightarrow> sint (word_of_nat n :: i32) = int n"
proof -
  have "sint (word_of_int k :: i32) = k" if "- 2147483648 \<le> k" "k < 2147483648" for k
    using that by (simp add: sint_sbintrunc' signed_take_bit_int_eq_self)
  from this [of "int n"] show "n < 2147483648 \<Longrightarrow> ?thesis" by simp
qed

lemma sort_sorted: "sorted (map f xs) \<Longrightarrow> sort_key f xs = xs"
  by (induction xs) (auto simp: insort_is_Cons)

text \<open>The rows of a basket are in its order.\<close>

lemma basket_sorted:
  assumes "length basket < 2147483648"
  shows "sort_key (\<lambda>m. sint (mbOrd m)) (basket_rows i basket) = basket_rows i basket"
proof (rule sort_sorted)
  have "map (\<lambda>m. sint (mbOrd m)) (basket_rows i basket) = map int [0..<length basket]"
    using assms by (intro nth_equalityI) (auto simp: basket_rows_def nth_enumerate_eq sint_i32)
  then show "sorted (map (\<lambda>m. sint (mbOrd m)) (basket_rows i basket))" by (simp add: sorted_map sorted_wrt_upt)
qed

lemma is_space_upper [simp]: "is_space (upper_char c) = is_space c"
proof (cases "97 \<le> (of_char c :: nat) \<and> (of_char c :: nat) \<le> 122")
  case True
  hence "(of_char c - 32 :: nat) mod 256 = of_char c - 32" by (intro mod_less) linarith
  thus ?thesis using True by (auto simp: upper_char_def is_space_def Let_def)
next
  case False
  hence "upper_char c = c" by (simp only: upper_char_def Let_def if_False)
  thus ?thesis by simp
qed

text \<open>A ticker as a request is read: trimmed and in upper case, not empty.\<close>

definition clean_ticker :: "string \<Rightarrow> bool" where
  "clean_ticker t \<longleftrightarrow> t \<noteq> [] \<and> to_upper (trim_space t) = t"

lemma ticker_cleaned: "to_upper (trim_space x) \<noteq> [] \<Longrightarrow> clean_ticker (to_upper (trim_space x))"
proof -
  have "trim_space (map upper_char (trim_space x)) = map upper_char (trim_space (trim_space x))"
    by (simp add: trim_space_def dropWhile_map comp_def rev_map)
  then have "to_upper (trim_space (to_upper (trim_space x))) = to_upper (trim_space x)"
    by (simp add: to_upper_def trimmed_trim trim_trimmed upper_upper)
  then show "to_upper (trim_space x) \<noteq> [] \<Longrightarrow> clean_ticker (to_upper (trim_space x))" by (simp add: clean_ticker_def)
qed

lemma normalized_clean:
  "list_all clean_ticker (normalized_from seen ts) \<and> distinct (normalized_from seen ts) \<and> set (normalized_from seen ts) \<inter> set seen = {}"
proof (induction ts arbitrary: seen)
  case (Cons t ts)
  then show ?case using ticker_cleaned [of t] Cons.IH [of seen] Cons.IH [of "to_upper (trim_space t) # seen"]
    by (auto simp: Let_def)
qed simp

lemma readBasket_Inr:
  "readBasket single many = Inr ts \<Longrightarrow> ts \<noteq> [] \<and> length ts \<le> maxBasket \<and> distinct ts \<and> list_all clean_ticker ts"
proof -
  assume "readBasket single many = Inr ts"
  then obtain raw where "ts = normalized_from [] raw" "length ts \<le> maxBasket" "ts \<noteq> []"
    by (auto simp: readBasket_def and_then_Inr normalizeTickers_def Let_def simp del: normalized_from.simps split: if_splits)
  then show ?thesis using normalized_clean [of "[]" raw] by simp
qed

lemma clean_tickers: "list_all clean_ticker ts \<Longrightarrow> map (\<lambda>t. to_upper (trim_space t)) ts = ts"
  by (induction ts) (simp_all add: clean_ticker_def)

lemma fresh_owner:
  assumes "no_orphans d" "i \<notin> set (run_ids d)"
  shows "i \<notin> mbOwner ` set (dbRunSymbols d)"
  using assms by (auto simp: no_orphans_def run_known_def run_ids_def list_all_iff list_ex_iff)

lemma fresh_inserted: "insert_run r d = Inr d' \<Longrightarrow> rrID r \<notin> set (run_ids d)"
  by (auto simp: insert_run_def run_clashes_def run_ids_def list_ex_iff split: if_splits)

text \<open>C8: A run a request queues has the basket the request named, as soon as it is visible: the trader reads the symbols of its
  tickers, cleaned, each once and in their order, at least one and at most as many as a basket may have.\<close>

theorem accepted_run_has_basket:
  assumes "handleCreateBacktest sv i now user body d = Inr (d', row)" and "no_orphans d" and "distinct (map smID (dbSymbols d))"
  shows "case run_basket (claimed t row) d' of
      Inl _ \<Rightarrow> False
    | Inr basket \<Rightarrow> readBasket (bqSymbol body) (bqSymbols body) = Inr (map syTicker basket) \<and>
        distinct (map syTicker basket) \<and> 0 < length basket \<and> length basket \<le> maxBasket"
proof -
  obtain p tickers rows where r: "createRun i now p rows d = Inr (d', row)"
    "readBasket (bqSymbol body) (bqSymbols body) = Inr tickers" "findBasket tickers d = Inr rows"
    by (rule created_run [OF assms(1)]) blast
  obtain d1 where d1: "insert_run (queued_run i now p) d = Inr d1" "CreateBacktestRunSymbols (basket_rows i rows) d1 = Inr d'"
    "row = queued_run i now p" by (rule createRun_Inr [OF r(1)])
  note k = readBasket_Inr [OF r(2)] and b = findBasket_Inr [OF r(3)]
  have tk: "map smTicker rows = tickers" using b k clean_tickers by simp
  have s: "dbSymbols d' = dbSymbols d" "dbRunSymbols d1 = dbRunSymbols d"
    using insert_run_Inr [OF d1(1)] members_Inr [OF d1(2)] by simp_all
  have "length rows = length tickers" using tk by auto
  then have l: "length rows < 2147483648" using k by (simp add: maxBasket_def)
  have "rrID (queued_run i now p) = i" by (simp add: queued_run_def)
  then have "i \<notin> mbOwner ` set (dbRunSymbols d1)"
    using fresh_owner [OF assms(2)] fresh_inserted [OF d1(1)] s(2) by simp
  from members_after [OF d1(2) basket_owner this] have "members_of i (dbRunSymbols d') = basket_rows i rows"
    by (simp add: basket_sorted [OF l])
  then have "map snd (ListBacktestRunSymbols i d') = rows"
    using join_rows [of d' rows i word_of_nat 0] assms(3) b s(1) by (simp add: ListBacktestRunSymbols_def basket_rows_def)
  moreover have "rows \<noteq> []" using tk k by auto
  ultimately have "run_basket (claimed t row) d' = Inr (map symbol_of rows)"
    using d1(3) by (cases "ListBacktestRunSymbols i d'") (auto simp: run_basket_def queued_run_def claimed_def split: prod.splits)
  moreover have "map syTicker (map symbol_of rows) = tickers" using tk by (simp add: symbol_of_def comp_def)
  ultimately show ?thesis using k r(2) tk by (auto simp: comp_def simp flip: length_map [of smTicker rows])
qed

section \<open>The basket of a tested fold\<close>






section \<open>A strategy that is well-formed\<close>

definition tiny_strategy :: spec_t where
  "tiny_strategy =
     \<lparr>sInputs = [(''m'', \<lparr>inpIndicator = ''obv'', inpParams = [], inpSource = [], inpOutput = ''obv'', inpSourced = False, inpMulti = False\<rparr>)],
      sEntry = \<lparr>sdLong = Some (Compare OpGT [field_operand (FieldSource SourceClose) 0, literal 0]), sdShort = None\<rparr>,
      sExit = None, sSizing = \<lparr>szType = SizeFixedQty, szValue = Fin 100\<rparr>, sCosts = defaultCosts\<rparr>"

lemma tiny_inputs: "inputs_ok (registry math_Log) (sInputs tiny_strategy)"
proof -
  have l: "Lookup (registry math_Log) ''obv'' = Some spec_obv"
    by (simp add: Lookup_def normal_name_clean clean_plain plain_char_def lower_letter_def registry_def spec_defs)
  have w: "walk_chain [] [] [] ''m'' = ([''m''], [])"
    by (simp add: walk_chain.simps [of "[]" "[]" "[]" "''m''"] walk_chain.simps [of "[]" "[]" "[''m'']" "[]"] next_in_def)
  show ?thesis by (simp add: inputs_ok_def tiny_strategy_def input_ok_def l) (simp add: spec_defs New_def l MaxInputs_def
        name_ok_def clean_plain plain_char_def lower_letter_def source_ok_def resolve_def MaxNameLen_def is_identifier_def
        field_of_def chains_of_def findCycle_def spec_ok_def params_All_def w)
qed

lemma tiny_wf: "spec_wf (registry math_Log) tiny_strategy"
  using tiny_inputs [of math_Log] default_costs_ok
  by (simp add: spec_wf_def) (simp add: tiny_strategy_def side_ok_def exit_ok_def exit_count_def side_count_def sizing_ok_def
        leg_opt_ok_def opt_count_def leg_ok_def compare_ok_def operand_ok_def field_operand_def literal_def trend_def arity_def
        back_ok_def reversed_span_def MaxDepth_def MaxNodes_def sizing_fault_def less_f64_def one_f64_def)

lemma tiny_compiles:
  obtains pl where "compileSpec (registry math_Log) (Some (marshal_spec tiny_strategy)) = Inr (marshal_spec tiny_strategy, pl)"
proof -
  have "Parse (registry math_Log) (Some (marshal_spec tiny_strategy)) = Inr tiny_strategy"
    using indicators.parse_spec_back [OF tiny_wf] by (simp add: Parse_def)
  moreover obtain pl where "Compile (registry math_Log) tiny_strategy = Inr pl" using indicators.wellformed_compiles [OF tiny_wf] by blast
  moreover have "encodable (marshal_spec tiny_strategy)"
    using rnd_between [of "13 / 4"] by (simp add: marshal_spec_def tiny_strategy_def marshal_input_def marshal_side_def
          marshal_sizing_def marshal_costs_def field_operand_def literal_def marshal_operand_def Version_def defaultCosts_def
          float_of_int_def rnd_numeral zero_f64_def)
  ultimately show ?thesis using that by (simp add: compileSpec_def)
qed

lemma tiny_canonical: "canonical_spec (registry math_Log) (marshal_spec tiny_strategy)"
  using indicators.parse_spec_back [OF tiny_wf] by (auto simp: canonical_spec_def Parse_def)

section \<open>A desk with two symbols and one strategy\<close>

definition desk_symbol :: "i64 \<Rightarrow> string \<Rightarrow> symbol_row" where
  "desk_symbol i t =
     \<lparr>smID = i, smTicker = t, smShortName = None, smLongName = None, smKind = ''stock'', smCurrency = ''BRL'', smLotSize = 100,
      smTickSize = Fin 1, smActive = True, smTracked = True\<rparr>"

definition desk_db :: db where
  "desk_db = no_rows
     \<lparr>dbUsers := [7], dbSymbols := [desk_symbol 1 ''PETR4'', desk_symbol 2 ''VALE3''],
      dbStrategies := [\<lparr>sgID = 8, sgUserID = 7, sgName = ''tiny'', sgDescription = [], sgSpec = marshal_spec tiny_strategy, sgVersion = 1,
        sgCreatedAt = 0, sgUpdatedAt = 0, sgShareToken = None, sgSharedAt = None\<rparr>]\<rparr>"

definition desk_request :: backtest_request where
  "desk_request =
     \<lparr>bqStrategyID = Some 8, bqSymbol = [], bqSymbols = ['' vale3'', ''PETR4''], bqTimeframe = ''1d'', bqStart = ''2025-12-01'',
      bqEnd = ''2025-12-20'', bqCapital = 0\<rparr>"

theorem queued_runs_compile_witness:
  "list_all (\<lambda>r. \<not> spec_failure (execute desk r no_rows)) [claimed 6 ((plain_run 1 5 None)\<lparr>rrSpec := marshal_spec tiny_strategy\<rparr>)]"
proof -
  let ?r = "(plain_run 1 5 None)\<lparr>rrSpec := marshal_spec tiny_strategy\<rparr>" and ?d = "\<lambda>r. no_rows\<lparr>dbRuns := [r]\<rparr>"
  let ?c = "\<lparr>clDB = ?d ?r, clBusy = [], clHalf = []\<rparr>" and ?c' = "\<lparr>clDB = ?d (claimed 6 ?r), clBusy = [claimed 6 ?r], clHalf = []\<rparr>"
  have "ClaimBacktestRun 6 (?d ?r) = Inr (?d (claimed 6 ?r), claimed 6 ?r)"
    by (simp add: claim_cases queued_runs_def plain_run_def queued_run_def update_runs_def)
  then have "cluster_step desk ?c ?c'" using cluster_step.Claim [of 6 ?c "?d (claimed 6 ?r)" "claimed 6 ?r"] by simp
  then have s: "(cluster_step desk)\<^sup>*\<^sup>* ?c ?c'" by (rule r_into_rtranclp)
  have "run_ready (registry (\<lambda>x. x)) ?r"
    using tiny_canonical by (simp add: run_ready_def plain_run_def queued_run_def Timeframes_def)
  then show ?thesis using queued_runs_compile [OF _ _ s, of "\<lambda>x. x" no_rows] by (simp add: desk_def)
qed

lemma desk_accepts:
  obtains d row where "handleCreateBacktest desk 1 5 7 desk_request desk_db = Inr (d, row)"
proof -
  obtain pl where c: "compileSpec (registry (\<lambda>x. x)) (Some (marshal_spec tiny_strategy)) = Inr (marshal_spec tiny_strategy, pl)"
    by (rule tiny_compiles)
  have t: "ParseTimeframe ''1d'' = Inr ''1d''" by code_simp
  have b: "readBasket [] ['' vale3'', ''PETR4''] = Inr [''VALE3'', ''PETR4'']" by code_simp
  have w: "readWindow christmas ''1d'' ''2025-12-01'' ''2025-12-20'' 0 =
      Inr \<lparr>rwTimeframe = ''1d'', rwStart = day_start christmas 20423, rwEnd = day_start christmas 20442, rwCapital = 10000000\<rparr>" by code_simp
  have g: "GetStrategy 8 7 desk_db = Inr (hd (dbStrategies desk_db))" by (simp add: GetStrategy_def one_row_def desk_db_def)
  have f: "findBasket [''VALE3'', ''PETR4''] desk_db = Inr [desk_symbol 2 ''VALE3'', desk_symbol 1 ''PETR4'']"
    by (simp add: findSymbol_def Let_def GetSymbolByTicker_def symbols_with_def desk_db_def desk_symbol_def one_row_def
        trim_space_def is_space_def to_upper_def upper_char_def)
  have n: "\<not> maxActiveBacktests \<le> CountActiveBacktestRuns 7 desk_db"
    by (simp add: maxActiveBacktests_def CountActiveBacktestRuns_def desk_db_def no_rows_def)
  have s: "sgSpec (hd (dbStrategies desk_db)) = marshal_spec tiny_strategy" by (simp add: desk_db_def)
  let ?basket = "[desk_symbol 2 ''VALE3'', desk_symbol 1 ''PETR4'']"
  have d: "local_day west (day_start christmas 20423) = 20423" "local_day west (day_start christmas 20442) = 20442" by code_simp+
  have "\<exists>r. createRun 1 5 (backtest_params christmas 7 8 (marshal_spec tiny_strategy)
      \<lparr>rwTimeframe = ''1d'', rwStart = day_start christmas 20423, rwEnd = day_start christmas 20442, rwCapital = 10000000\<rparr>
      2 ?basket) ?basket desk_db = Inr r"
    using d
    by (simp add: createRun_def CreateBacktestRun_def queued_run_def backtest_params_def insert_run_def run_checks_def run_refs_def
        Let_def desk_db_def no_rows_def and_then_def CreateBacktestRunSymbols_def basket_rows_def enumerate_simps insert_run_symbol_def
        desk_symbol_def run_known_def symbol_known_def user_known_def strategy_known_def Timeframes_def TF1d_def int32Of_def
        christmas_def word_sless_alt)
  then obtain r where r: "createRun 1 5 (backtest_params christmas 7 8 (marshal_spec tiny_strategy)
      \<lparr>rwTimeframe = ''1d'', rwStart = day_start christmas 20423, rwEnd = day_start christmas 20442, rwCapital = 10000000\<rparr>
      2 ?basket) ?basket desk_db = Inr r" ..
  show ?thesis using that [of "fst r" "snd r"] r
    by (simp add: handleCreateBacktest_def desk_request_def desk_def t b w g c f n s bad_def and_then_def numeral_2_eq_2 del: findBasket.simps)
qed

theorem accepted_run_has_basket_witness:
  "\<exists>d row. handleCreateBacktest desk 1 5 7 desk_request desk_db = Inr (d, row) \<and>
     (case run_basket (claimed 6 row) d of Inl _ \<Rightarrow> False | Inr basket \<Rightarrow> map syTicker basket = [''VALE3'', ''PETR4''])"
proof -
  obtain d row where r: "handleCreateBacktest desk 1 5 7 desk_request desk_db = Inr (d, row)" by (rule desk_accepts)
  have o1: "no_orphans desk_db" "distinct (map smID (dbSymbols desk_db))"
    by (simp_all add: no_orphans_def desk_db_def no_rows_def desk_symbol_def)
  have "readBasket (bqSymbol desk_request) (bqSymbols desk_request) = Inr [''VALE3'', ''PETR4'']" by code_simp
  then show ?thesis using accepted_run_has_basket [OF r o1, of 6] r by (auto split: sum.splits)
qed











end
