(* ===== verification/Saved.thy ===== *)
theory Saved
  imports Api
begin

text \<open>
  What a user saves: strategies with their links (internal/api/strategies.go, sharing.go, internal/db/strategies.sql.go)
  and baskets of symbols (api/baskets.go, db/symbol_baskets.sql.go), from the decoded body of a request
  to the database and the answer. Names are ordered as lists of characters, the length of a text counts its
  characters as the code counts bytes, and the specification of a row is compared as the value it holds. The token
  of a link is drawn at random: it is an argument, as identifiers and the clock are.
\<close>

definition maxStrategyName :: nat where "maxStrategyName = 80"
definition maxStrategyDescription :: nat where "maxStrategyDescription = 500"
definition maxUserStrategies :: nat where "maxUserStrategies = 100"
definition maxBasketName :: nat where "maxBasketName = 60"
definition maxUserBaskets :: nat where "maxUserBaskets = 50"
definition sharePrefix :: string where "sharePrefix = ''/s/''"

datatype saved_error =
    PathNotUUID
  | NameMissing
  | NameTooLong
  | DescriptionTooLong
  | SavedRefused api_error
  | BasketEmpty
  | TooManySaved nat
  | NameTaken string
  | StillReferenced
  | NotSaved
  | SavedInternal

section \<open>Strategies\<close>

definition insert_strategy :: "strategy_row \<Rightarrow> db \<Rightarrow> db_error + db" where
  "insert_strategy r d =
     (if list_ex (\<lambda>q. sgID q = sgID r \<or> (sgUserID q = sgUserID r \<and> sgName q = sgName r) \<or>
           (sgShareToken r \<noteq> None \<and> sgShareToken q = sgShareToken r)) (dbStrategies d) then Inl UniqueViolation
      else if \<not> user_known d (sgUserID r) then Inl ForeignKeyViolation
      else Inr (d\<lparr>dbStrategies := dbStrategies d @ [r]\<rparr>))"

definition CreateStrategy :: "uuid \<Rightarrow> time \<Rightarrow> uuid \<Rightarrow> string \<Rightarrow> string \<Rightarrow> json \<Rightarrow> db \<Rightarrow> db_error + db \<times> strategy_row" where
  "CreateStrategy new_id now u name description s d =
     (let r = \<lparr>sgID = new_id, sgUserID = u, sgName = name, sgDescription = description, sgSpec = s, sgVersion = 1,
                sgCreatedAt = now, sgUpdatedAt = now, sgShareToken = None, sgSharedAt = None\<rparr>
      in and_then (insert_strategy r d) (\<lambda>d'. Inr (d', r)))"

definition CountStrategies :: "uuid \<Rightarrow> db \<Rightarrow> nat" where
  "CountStrategies u d = length (filter (\<lambda>s. sgUserID s = u) (dbStrategies d))"

definition ListStrategies :: "uuid \<Rightarrow> db \<Rightarrow> strategy_row list" where
  "ListStrategies u d = sort_key sgName (filter (\<lambda>s. sgUserID s = u) (dbStrategies d))"

text \<open>A row of the user is replaced by its new version, unless that breaks an index of the table.\<close>

definition owned_strategy :: "uuid \<Rightarrow> uuid \<Rightarrow> strategy_row \<Rightarrow> bool" where
  "owned_strategy i u s \<longleftrightarrow> sgID s = i \<and> sgUserID s = u"

definition update_strategy :: "uuid \<Rightarrow> uuid \<Rightarrow> (strategy_row \<Rightarrow> strategy_row) \<Rightarrow> db \<Rightarrow> db_error + db \<times> strategy_row" where
  "update_strategy i u f d =
     and_then (one_row (filter (owned_strategy i u) (dbStrategies d))) (\<lambda>s.
       if list_ex (\<lambda>q. \<not> owned_strategy i u q \<and> ((sgUserID q = u \<and> sgName q = sgName (f s)) \<or>
             (sgShareToken (f s) \<noteq> None \<and> sgShareToken q = sgShareToken (f s)))) (dbStrategies d) then Inl UniqueViolation
       else Inr (d\<lparr>dbStrategies := map (\<lambda>q. if owned_strategy i u q then f q else q) (dbStrategies d)\<rparr>, f s))"

definition saved_version :: "time \<Rightarrow> string \<Rightarrow> string \<Rightarrow> json \<Rightarrow> strategy_row \<Rightarrow> strategy_row" where
  "saved_version now name description s r =
     r\<lparr>sgName := name, sgDescription := description, sgSpec := s,
       sgVersion := (if sgSpec r = s then sgVersion r else sgVersion r + 1), sgUpdatedAt := now\<rparr>"

text \<open>The version is an INT: the update that would leave its range is an error.\<close>

definition UpdateStrategy :: "time \<Rightarrow> uuid \<Rightarrow> uuid \<Rightarrow> string \<Rightarrow> string \<Rightarrow> json \<Rightarrow> db \<Rightarrow> db_error + db \<times> strategy_row" where
  "UpdateStrategy now i u name description s d =
     (if list_ex (\<lambda>r. owned_strategy i u r \<and> sgSpec r \<noteq> s \<and> sgVersion r = 2147483647) (dbStrategies d) then Inl CheckViolation
      else update_strategy i u (saved_version now name description s) d)"

definition strategy_used :: "db \<Rightarrow> uuid \<Rightarrow> bool" where
  "strategy_used d i \<longleftrightarrow> list_ex (\<lambda>r. rrStrategyID r = i) (dbRuns d) \<or> list_ex (\<lambda>w. swStrategyID w = i) (dbSweeps d)"

definition DeleteStrategy :: "uuid \<Rightarrow> uuid \<Rightarrow> db \<Rightarrow> db_error + db \<times> nat" where
  "DeleteStrategy i u d =
     (let n = length (filter (owned_strategy i u) (dbStrategies d))
      in if n > 0 \<and> strategy_used d i then Inl ForeignKeyViolation
         else Inr (d\<lparr>dbStrategies := filter (\<lambda>s. \<not> owned_strategy i u s) (dbStrategies d)\<rparr>, n))"

definition ShareStrategy :: "time \<Rightarrow> uuid \<Rightarrow> uuid \<Rightarrow> string \<Rightarrow> db \<Rightarrow> db_error + db \<times> strategy_row" where
  "ShareStrategy now i u token = update_strategy i u (\<lambda>r. r\<lparr>sgShareToken := Some token, sgSharedAt := Some now\<rparr>)"

definition UnshareStrategy :: "uuid \<Rightarrow> uuid \<Rightarrow> db \<Rightarrow> db_error + db \<times> strategy_row" where
  "UnshareStrategy i u = update_strategy i u (\<lambda>r. r\<lparr>sgShareToken := None, sgSharedAt := None\<rparr>)"

definition GetSharedStrategy :: "string \<Rightarrow> db \<Rightarrow> db_error + strategy_row" where
  "GetSharedStrategy token d = one_row (filter (\<lambda>s. sgShareToken s = Some token) (dbStrategies d))"

section \<open>What a strategy is shown as\<close>

text \<open>The key of an indicator is shown in its parts.\<close>

record leg_body =
  lbTrades :: bool
  lbRuleExit :: bool
  lbStopLoss :: bool
  lbTakeProfit :: bool

record plan_body =
  pbInputs :: nat
  pbIndicators :: "inst_key list"
  pbSlots :: nat
  pbWarmup :: int
  pbPrimeBars :: int
  pbDepth :: int
  pbLong :: leg_body
  pbShort :: leg_body

record share_body =
  shToken :: string
  shPath :: string
  shSharedAt :: "time option"

record strategy_body =
  stID :: uuid
  stName :: string
  stDescription :: string
  stVersion :: i32
  stSpec :: json
  stPlan :: "plan_body option"
  stShare :: "share_body option"
  stCreatedAt :: time
  stUpdatedAt :: time

record shared_body =
  sdName :: string
  sdDescription :: string
  sdVersion :: i32
  sdSpec :: json
  sdPlan :: "plan_body option"
  sdCreatedAt :: time
  sdUpdatedAt :: time
  sdSharedAt :: "time option"

definition describeLeg :: "leg \<Rightarrow> leg_body" where
  "describeLeg l =
     \<lparr>lbTrades = Trades l, lbRuleExit = (lgExit l \<noteq> None), lbStopLoss = (lgStop l \<noteq> None), lbTakeProfit = (lgTarget l \<noteq> None)\<rparr>"

definition describePlan :: "plan \<Rightarrow> plan_body" where
  "describePlan p =
     \<lparr>pbInputs = length (sInputs (plSpec p)), pbIndicators = map (\<lambda>u. inKey (uInstance u)) (plUnits p),
      pbSlots = length (plSlots p), pbWarmup = plWarmup p, pbPrimeBars = plPrimeBars p, pbDepth = plDepth p,
      pbLong = describeLeg (plLong p), pbShort = describeLeg (plShort p)\<rparr>"

definition replan :: "spec list \<Rightarrow> json \<Rightarrow> plan_body option" where
  "replan reg stored =
     (case Parse reg (Some stored) of
        Inl _ \<Rightarrow> None
      | Inr s \<Rightarrow> (case Compile reg s of Inl _ \<Rightarrow> None | Inr p \<Rightarrow> Some (describePlan p)))"

definition shareOf :: "strategy_row \<Rightarrow> share_body" where
  "shareOf r =
     (case sgShareToken r of
        None \<Rightarrow> \<lparr>shToken = [], shPath = [], shSharedAt = sgSharedAt r\<rparr>
      | Some t \<Rightarrow> \<lparr>shToken = t, shPath = sharePrefix @ t, shSharedAt = sgSharedAt r\<rparr>)"

definition storedStrategy :: "strategy_row \<Rightarrow> plan_body option \<Rightarrow> strategy_body" where
  "storedStrategy r p =
     \<lparr>stID = sgID r, stName = sgName r, stDescription = sgDescription r, stVersion = sgVersion r, stSpec = sgSpec r, stPlan = p,
      stShare = (if sgShareToken r = None then None else Some (shareOf r)), stCreatedAt = sgCreatedAt r,
      stUpdatedAt = sgUpdatedAt r\<rparr>"

section \<open>Requests for strategies\<close>

record strategy_request =
  srName :: string
  srDescription :: string
  srSpec :: "json option"

definition normalizeStrategyName :: "string \<Rightarrow> saved_error + string" where
  "normalizeStrategyName name =
     (let trimmed = trim_space name
      in if trimmed = [] then Inl NameMissing else if length trimmed > maxStrategyName then Inl NameTooLong else Inr trimmed)"

definition saved :: "api_error + 'a \<Rightarrow> saved_error + 'a" where
  "saved r = (case r of Inl e \<Rightarrow> Inl (SavedRefused e) | Inr x \<Rightarrow> Inr x)"

definition readStrategy :: "spec list \<Rightarrow> strategy_request \<Rightarrow> saved_error + string \<times> string \<times> json \<times> plan" where
  "readStrategy reg body =
     and_then (normalizeStrategyName (srName body)) (\<lambda>name.
       (let description = trim_space (srDescription body)
        in if length description > maxStrategyDescription then Inl DescriptionTooLong
           else and_then (saved (compileSpec reg (srSpec body))) (\<lambda>(canonical, p). Inr (name, description, canonical, p))))"

definition handleValidateStrategy :: "spec list \<Rightarrow> strategy_request \<Rightarrow> saved_error + json \<times> plan_body" where
  "handleValidateStrategy reg body =
     and_then (saved (compileSpec reg (srSpec body))) (\<lambda>(canonical, p). Inr (canonical, describePlan p))"

definition handleListStrategies :: "uuid \<Rightarrow> db \<Rightarrow> strategy_body list" where
  "handleListStrategies u d = map (\<lambda>r. storedStrategy r None) (ListStrategies u d)"

definition handleGetStrategy :: "spec list \<Rightarrow> uuid option \<Rightarrow> uuid \<Rightarrow> db \<Rightarrow> saved_error + strategy_body" where
  "handleGetStrategy reg path u d =
     (case path of
        None \<Rightarrow> Inl PathNotUUID
      | Some i \<Rightarrow>
          (case GetStrategy i u d of Inl _ \<Rightarrow> Inl NotSaved | Inr r \<Rightarrow> Inr (storedStrategy r (replan reg (sgSpec r)))))"

definition handleCreateStrategy ::
  "spec list \<Rightarrow> uuid \<Rightarrow> time \<Rightarrow> uuid \<Rightarrow> strategy_request \<Rightarrow> db \<Rightarrow> saved_error + db \<times> strategy_body" where
  "handleCreateStrategy reg new_id now u body d =
     and_then (readStrategy reg body) (\<lambda>(name, description, canonical, p).
       if CountStrategies u d \<ge> maxUserStrategies then Inl (TooManySaved maxUserStrategies)
       else
         (case CreateStrategy new_id now u name description canonical d of
            Inl UniqueViolation \<Rightarrow> Inl (NameTaken name)
          | Inl _ \<Rightarrow> Inl SavedInternal
          | Inr (d', r) \<Rightarrow> Inr (d', storedStrategy r (Some (describePlan p)))))"

definition handleUpdateStrategy ::
  "spec list \<Rightarrow> time \<Rightarrow> uuid option \<Rightarrow> uuid \<Rightarrow> strategy_request \<Rightarrow> db \<Rightarrow> saved_error + db \<times> strategy_body" where
  "handleUpdateStrategy reg now path u body d =
     (case path of
        None \<Rightarrow> Inl PathNotUUID
      | Some i \<Rightarrow>
          and_then (readStrategy reg body) (\<lambda>(name, description, canonical, p).
            (case UpdateStrategy now i u name description canonical d of
               Inl NoRows \<Rightarrow> Inl NotSaved
             | Inl UniqueViolation \<Rightarrow> Inl (NameTaken name)
             | Inl _ \<Rightarrow> Inl SavedInternal
             | Inr (d', r) \<Rightarrow> Inr (d', storedStrategy r (Some (describePlan p))))))"

definition handleDeleteStrategy :: "uuid option \<Rightarrow> uuid \<Rightarrow> db \<Rightarrow> saved_error + db" where
  "handleDeleteStrategy path u d =
     (case path of
        None \<Rightarrow> Inl PathNotUUID
      | Some i \<Rightarrow>
          (case DeleteStrategy i u d of
             Inl ForeignKeyViolation \<Rightarrow> Inl StillReferenced
           | Inl _ \<Rightarrow> Inl SavedInternal
           | Inr (d', n) \<Rightarrow> if n = 0 then Inl NotSaved else Inr d'))"

definition handleShareStrategy :: "time \<Rightarrow> string \<Rightarrow> uuid option \<Rightarrow> uuid \<Rightarrow> db \<Rightarrow> saved_error + db \<times> share_body" where
  "handleShareStrategy now token path u d =
     (case path of
        None \<Rightarrow> Inl PathNotUUID
      | Some i \<Rightarrow>
          (case ShareStrategy now i u token d of
             Inl NoRows \<Rightarrow> Inl NotSaved
           | Inl _ \<Rightarrow> Inl SavedInternal
           | Inr (d', r) \<Rightarrow> Inr (d', shareOf r)))"

definition handleUnshareStrategy :: "uuid option \<Rightarrow> uuid \<Rightarrow> db \<Rightarrow> saved_error + db" where
  "handleUnshareStrategy path u d =
     (case path of
        None \<Rightarrow> Inl PathNotUUID
      | Some i \<Rightarrow>
          (case UnshareStrategy i u d of
             Inl NoRows \<Rightarrow> Inl NotSaved
           | Inl _ \<Rightarrow> Inl SavedInternal
           | Inr (d', r) \<Rightarrow> Inr d'))"

definition handleGetSharedStrategy :: "spec list \<Rightarrow> string \<Rightarrow> db \<Rightarrow> saved_error + shared_body" where
  "handleGetSharedStrategy reg path d =
     (let token = trim_space path
      in if token = [] then Inl NotSaved
         else (case GetSharedStrategy token d of
                 Inl _ \<Rightarrow> Inl NotSaved
               | Inr r \<Rightarrow>
                   Inr \<lparr>sdName = sgName r, sdDescription = sgDescription r, sdVersion = sgVersion r, sdSpec = sgSpec r,
                        sdPlan = replan reg (sgSpec r), sdCreatedAt = sgCreatedAt r, sdUpdatedAt = sgUpdatedAt r,
                        sdSharedAt = sgSharedAt r\<rparr>))"

section \<open>Baskets\<close>

definition insert_basket :: "basket_row \<Rightarrow> db \<Rightarrow> db_error + db" where
  "insert_basket r d =
     (if list_ex (\<lambda>q. bkID q = bkID r \<or> (bkUserID q = bkUserID r \<and> bkName q = bkName r)) (dbBaskets d) then Inl UniqueViolation
      else if \<not> user_known d (bkUserID r) then Inl ForeignKeyViolation
      else Inr (d\<lparr>dbBaskets := dbBaskets d @ [r]\<rparr>))"

definition CreateSymbolBasket :: "uuid \<Rightarrow> time \<Rightarrow> uuid \<Rightarrow> string \<Rightarrow> db \<Rightarrow> db_error + db \<times> basket_row" where
  "CreateSymbolBasket new_id now u name d =
     (let r = \<lparr>bkID = new_id, bkUserID = u, bkName = name, bkCreatedAt = now, bkUpdatedAt = now\<rparr>
      in and_then (insert_basket r d) (\<lambda>d'. Inr (d', r)))"

definition insert_basket_symbol :: "member_row \<Rightarrow> db \<Rightarrow> db_error + db" where
  "insert_basket_symbol m d =
     (if mbOrd m <s 0 then Inl CheckViolation
      else if list_ex (\<lambda>q. mbOwner q = mbOwner m \<and> (mbOrd q = mbOrd m \<or> mbSymbolID q = mbSymbolID m)) (dbBasketSymbols d)
      then Inl UniqueViolation
      else if mbOwner m \<notin> bkID ` set (dbBaskets d) \<or> \<not> symbol_known d (mbSymbolID m) then Inl ForeignKeyViolation
      else Inr (d\<lparr>dbBasketSymbols := dbBasketSymbols d @ [m]\<rparr>))"

definition CreateSymbolBasketSymbols :: "member_row list \<Rightarrow> db \<Rightarrow> db_error + db" where
  "CreateSymbolBasketSymbols = copy_rows insert_basket_symbol"

definition owned_basket :: "uuid \<Rightarrow> uuid \<Rightarrow> basket_row \<Rightarrow> bool" where
  "owned_basket i u b \<longleftrightarrow> bkID b = i \<and> bkUserID b = u"

definition UpdateSymbolBasket :: "time \<Rightarrow> uuid \<Rightarrow> uuid \<Rightarrow> string \<Rightarrow> db \<Rightarrow> db_error + db \<times> basket_row" where
  "UpdateSymbolBasket now i u name d =
     (let f = (\<lambda>b. b\<lparr>bkName := name, bkUpdatedAt := now\<rparr>)
      in and_then (one_row (filter (owned_basket i u) (dbBaskets d))) (\<lambda>b.
           if list_ex (\<lambda>q. \<not> owned_basket i u q \<and> bkUserID q = u \<and> bkName q = name) (dbBaskets d) then Inl UniqueViolation
           else Inr (d\<lparr>dbBaskets := map (\<lambda>q. if owned_basket i u q then f q else q) (dbBaskets d)\<rparr>, f b)))"

definition DeleteSymbolBasketSymbols :: "uuid \<Rightarrow> db \<Rightarrow> db" where
  "DeleteSymbolBasketSymbols i d = d\<lparr>dbBasketSymbols := filter (\<lambda>m. mbOwner m \<noteq> i) (dbBasketSymbols d)\<rparr>"

text \<open>The members of a basket go with it.\<close>

definition DeleteSymbolBasket :: "uuid \<Rightarrow> uuid \<Rightarrow> db \<Rightarrow> db \<times> nat" where
  "DeleteSymbolBasket i u d =
     (let n = length (filter (owned_basket i u) (dbBaskets d))
      in if n = 0 then (d, 0)
         else (d\<lparr>dbBaskets := filter (\<lambda>b. \<not> owned_basket i u b) (dbBaskets d),
                 dbBasketSymbols := filter (\<lambda>m. mbOwner m \<noteq> i) (dbBasketSymbols d)\<rparr>, n))"

definition CountSymbolBaskets :: "uuid \<Rightarrow> db \<Rightarrow> nat" where
  "CountSymbolBaskets u d = length (filter (\<lambda>b. bkUserID b = u) (dbBaskets d))"

definition GetSymbolBasket :: "uuid \<Rightarrow> uuid \<Rightarrow> db \<Rightarrow> db_error + basket_row" where
  "GetSymbolBasket i u d = one_row (filter (owned_basket i u) (dbBaskets d))"

definition ListSymbolBaskets :: "uuid \<Rightarrow> db \<Rightarrow> basket_row list" where
  "ListSymbolBaskets u d = sort_key bkName (filter (\<lambda>b. bkUserID b = u) (dbBaskets d))"

definition ListSymbolBasketMembers :: "uuid list \<Rightarrow> db \<Rightarrow> (uuid \<times> i32 \<times> symbol_row) list" where
  "ListSymbolBasketMembers ids d =
     concat (map (\<lambda>i. map (\<lambda>(k, s). (i, k, s)) (join_members d (members_of i (dbBasketSymbols d)))) (sort (remdups ids)))"

section \<open>Requests for baskets\<close>

record symbol_body =
  ybTicker :: string
  ybName :: string
  ybKind :: string
  ybCurrency :: string
  ybLotSize :: i32
  ybTickSize :: f64
  ybActive :: bool
  ybTracked :: bool

record basket_body =
  bbID :: uuid
  bbName :: string
  bbCount :: nat
  bbSymbols :: "symbol_body list"
  bbCreatedAt :: time
  bbUpdatedAt :: time

definition pickName :: "string \<Rightarrow> string option \<Rightarrow> string option \<Rightarrow> string" where
  "pickName ticker short long =
     (let clean_long = (case long of None \<Rightarrow> [] | Some n \<Rightarrow> trim_space n);
          clean_short = (case short of None \<Rightarrow> [] | Some n \<Rightarrow> trim_space n)
      in if clean_long \<noteq> [] then clean_long
         else if clean_short \<noteq> [] \<and> to_lower clean_short \<noteq> to_lower ticker then clean_short
         else ticker)"

definition symbol_body_of :: "symbol_row \<Rightarrow> symbol_body" where
  "symbol_body_of s =
     \<lparr>ybTicker = smTicker s, ybName = pickName (smTicker s) (smShortName s) (smLongName s), ybKind = smKind s,
      ybCurrency = smCurrency s, ybLotSize = smLotSize s, ybTickSize = smTickSize s, ybActive = smActive s, ybTracked = smTracked s\<rparr>"

definition basketFrom :: "basket_row \<Rightarrow> symbol_body list \<Rightarrow> basket_body" where
  "basketFrom r ss =
     \<lparr>bbID = bkID r, bbName = bkName r, bbCount = length ss, bbSymbols = ss, bbCreatedAt = bkCreatedAt r, bbUpdatedAt = bkUpdatedAt r\<rparr>"

definition basketMembers :: "basket_row list \<Rightarrow> db \<Rightarrow> uuid \<Rightarrow> symbol_body list" where
  "basketMembers rows d i =
     (if rows = [] then []
      else map (\<lambda>(j, k, s). symbol_body_of s) (filter (\<lambda>(j, k, s). j = i) (ListSymbolBasketMembers (map bkID rows) d)))"

definition normalizeBasketName :: "string \<Rightarrow> saved_error + string" where
  "normalizeBasketName name =
     (let trimmed = trim_space name
      in if trimmed = [] then Inl NameMissing else if length trimmed > maxBasketName then Inl NameTooLong else Inr trimmed)"

definition readSavedBasket :: "string list \<Rightarrow> saved_error + string list" where
  "readSavedBasket many =
     and_then (saved (bad (normalizeTickers many))) (\<lambda>tickers. if tickers = [] then Inl BasketEmpty else Inr tickers)"

definition readBasketRequest :: "string \<Rightarrow> string list \<Rightarrow> db \<Rightarrow> saved_error + string \<times> symbol_row list" where
  "readBasketRequest name symbols d =
     and_then (normalizeBasketName name) (\<lambda>clean_name.
     and_then (readSavedBasket symbols) (\<lambda>tickers.
     and_then (saved (findBasket tickers d)) (\<lambda>basket. Inr (clean_name, basket))))"

definition createBasket :: "uuid \<Rightarrow> time \<Rightarrow> uuid \<Rightarrow> string \<Rightarrow> symbol_row list \<Rightarrow> db \<Rightarrow> db_error + db \<times> basket_row" where
  "createBasket new_id now u name basket d =
     and_then (CreateSymbolBasket new_id now u name d) (\<lambda>(d1, row).
     and_then (CreateSymbolBasketSymbols (basket_rows (bkID row) basket) d1) (\<lambda>d2. Inr (d2, row)))"

definition replaceBasket :: "time \<Rightarrow> uuid \<Rightarrow> uuid \<Rightarrow> string \<Rightarrow> symbol_row list \<Rightarrow> db \<Rightarrow> db_error + db \<times> basket_row" where
  "replaceBasket now i u name basket d =
     and_then (UpdateSymbolBasket now i u name d) (\<lambda>(d1, row).
     and_then (CreateSymbolBasketSymbols (basket_rows i basket) (DeleteSymbolBasketSymbols i d1)) (\<lambda>d2. Inr (d2, row)))"

definition handleListBaskets :: "uuid \<Rightarrow> db \<Rightarrow> basket_body list" where
  "handleListBaskets u d =
     (let rows = ListSymbolBaskets u d in map (\<lambda>r. basketFrom r (basketMembers rows d (bkID r))) rows)"

definition handleGetBasket :: "uuid option \<Rightarrow> uuid \<Rightarrow> db \<Rightarrow> saved_error + basket_body" where
  "handleGetBasket path u d =
     (case path of
        None \<Rightarrow> Inl PathNotUUID
      | Some i \<Rightarrow>
          (case GetSymbolBasket i u d of Inl _ \<Rightarrow> Inl NotSaved | Inr r \<Rightarrow> Inr (basketFrom r (basketMembers [r] d (bkID r)))))"

definition handleCreateBasket ::
  "uuid \<Rightarrow> time \<Rightarrow> uuid \<Rightarrow> string \<Rightarrow> string list \<Rightarrow> db \<Rightarrow> saved_error + db \<times> basket_body" where
  "handleCreateBasket new_id now u name symbols d =
     and_then (readBasketRequest name symbols d) (\<lambda>(clean_name, basket).
       if CountSymbolBaskets u d \<ge> maxUserBaskets then Inl (TooManySaved maxUserBaskets)
       else
         (case createBasket new_id now u clean_name basket d of
            Inl UniqueViolation \<Rightarrow> Inl (NameTaken clean_name)
          | Inl _ \<Rightarrow> Inl SavedInternal
          | Inr (d', row) \<Rightarrow> Inr (d', basketFrom row (map symbol_body_of basket))))"

definition handleUpdateBasket ::
  "time \<Rightarrow> uuid option \<Rightarrow> uuid \<Rightarrow> string \<Rightarrow> string list \<Rightarrow> db \<Rightarrow> saved_error + db \<times> basket_body" where
  "handleUpdateBasket now path u name symbols d =
     (case path of
        None \<Rightarrow> Inl PathNotUUID
      | Some i \<Rightarrow>
          and_then (readBasketRequest name symbols d) (\<lambda>(clean_name, basket).
            (case replaceBasket now i u clean_name basket d of
               Inl NoRows \<Rightarrow> Inl NotSaved
             | Inl UniqueViolation \<Rightarrow> Inl (NameTaken clean_name)
             | Inl _ \<Rightarrow> Inl SavedInternal
             | Inr (d', row) \<Rightarrow> Inr (d', basketFrom row (map symbol_body_of basket)))))"

definition handleDeleteBasket :: "uuid option \<Rightarrow> uuid \<Rightarrow> db \<Rightarrow> saved_error + db" where
  "handleDeleteBasket path u d =
     (case path of
        None \<Rightarrow> Inl PathNotUUID
      | Some i \<Rightarrow> (let (d', n) = DeleteSymbolBasket i u d in if n = 0 then Inl NotSaved else Inr d'))"

end
