(* ===== verification/Ownership.thy ===== *)
theory Ownership
  imports Saved Dispatch
begin

text \<open>
  What is saved stays sound whatever users request, no user changes what another is shown, and a link opens its
  strategy until it is taken back. Uniqueness of a column is one notion for identifiers, names and tokens
  (\<open>unique_by\<close>); every operation on a basket is one that touches that basket only (\<open>only_basket\<close>).
\<close>

section \<open>Columns without duplicates\<close>

text \<open>No two rows have the same key, where they have one.\<close>

definition unique_by :: "('r \<Rightarrow> 'k option) \<Rightarrow> 'r list \<Rightarrow> bool" where
  "unique_by key rs \<longleftrightarrow> sorted_wrt (\<lambda>q r. key q = None \<or> key q \<noteq> key r) rs"

lemma unique_append:
  "unique_by key rs \<Longrightarrow> (\<And>q. q \<in> set rs \<Longrightarrow> key r = None \<or> key q \<noteq> key r) \<Longrightarrow> unique_by key (rs @ [r])"
  unfolding unique_by_def sorted_wrt_append by (simp, metis)

lemma unique_filter: "unique_by key rs \<Longrightarrow> unique_by key (filter p rs)"
  by (simp add: unique_by_def sorted_wrt_filter)

lemma unique_map: "(\<And>r. r \<in> set rs \<Longrightarrow> key (f r) = key r) \<Longrightarrow> unique_by key (map f rs) = unique_by key rs"
  unfolding unique_by_def sorted_wrt_map by (induction rs) auto

lemma unique_update:
  assumes "unique_by ident rs" "unique_by key rs" "\<And>q. P q \<Longrightarrow> ident q = Some i"
    and "\<And>q r. q \<in> set rs \<Longrightarrow> r \<in> set rs \<Longrightarrow> P q \<Longrightarrow> \<not> P r \<Longrightarrow> key (f q) = None \<or> key r \<noteq> key (f q)"
  shows "unique_by key (map (\<lambda>q. if P q then f q else q) rs)"
  using assms(1,2,4)
proof (induction rs)
  case (Cons x rs)
  define g where "g q = (if P q then f q else q)" for q
  have "key (if P x then f x else x) = None \<or> key (if P x then f x else x) \<noteq> key (if P r then f r else r)" if r: "r \<in> set rs" for r
  proof -
    have "ident x = None \<or> ident x \<noteq> ident r" "key x = None \<or> key x \<noteq> key r" using Cons.prems(1,2) r by (auto simp: unique_by_def)
    then show ?thesis using assms(3) [of x] assms(3) [of r] Cons.prems(3) [of x r] Cons.prems(3) [of r x] r by auto
  qed
  moreover have "unique_by key (map (\<lambda>q. if P q then f q else q) rs)"
    using Cons by (intro Cons.IH) (auto simp: unique_by_def)
  ultimately have "\<forall>r\<in>set rs. key (g x) = None \<or> key (g x) \<noteq> key (g r)" "unique_by key (map g rs)"
    unfolding g_def by blast+
  then have "unique_by key (map g (x # rs))" unfolding unique_by_def list.map sorted_wrt.simps set_map ball_simps by blast
  moreover have "g = (\<lambda>q. if P q then f q else q)" by (intro ext) (rule g_def)
  ultimately show ?case by (simp only:)
qed (simp add: unique_by_def)

lemma unique_same: "unique_by key rs \<Longrightarrow> q \<in> set rs \<Longrightarrow> r \<in> set rs \<Longrightarrow> key q = Some k \<Longrightarrow> key r = Some k \<Longrightarrow> q = r"
  by (induction rs) (auto simp: unique_by_def)

lemma unique_one: "unique_by key rs \<Longrightarrow> r \<in> set rs \<Longrightarrow> key r = Some k \<Longrightarrow> filter (\<lambda>q. key q = Some k) rs = [r]"
proof (induction rs)
  case (Cons x rs)
  show ?case
  proof (cases "x = r")
    case True
    then have "key q \<noteq> Some k" if "q \<in> set rs" for q using Cons.prems that by (auto simp: unique_by_def)
    then show ?thesis using True Cons.prems by (simp add: filter_empty_conv)
  next
    case False
    then have "r \<in> set rs" "key x \<noteq> Some k" using Cons.prems by (auto simp: unique_by_def)
    then show ?thesis using Cons by (simp add: unique_by_def)
  qed
qed simp

section \<open>The requests\<close>

inductive saved_step :: "spec list \<Rightarrow> uuid \<Rightarrow> db \<Rightarrow> db \<Rightarrow> bool" for reg where
  SaveStrategy: "handleCreateStrategy reg i now u body d = Inr (d', b) \<Longrightarrow> saved_step reg u d d'"
| EditStrategy: "handleUpdateStrategy reg now path u body d = Inr (d', b) \<Longrightarrow> saved_step reg u d d'"
| DropStrategy: "handleDeleteStrategy path u d = Inr d' \<Longrightarrow> saved_step reg u d d'"
| Share: "handleShareStrategy now token path u d = Inr (d', sh) \<Longrightarrow> saved_step reg u d d'"
| Unshare: "handleUnshareStrategy path u d = Inr d' \<Longrightarrow> saved_step reg u d d'"
| SaveBasket: "handleCreateBasket i now u name symbols d = Inr (d', bb) \<Longrightarrow> saved_step reg u d d'"
| EditBasket: "handleUpdateBasket now path u name symbols d = Inr (d', bb) \<Longrightarrow> saved_step reg u d d'"
| DropBasket: "handleDeleteBasket path u d = Inr d' \<Longrightarrow> saved_step reg u d d'"

section \<open>What holds of what is saved\<close>

definition strategy_label :: "strategy_row \<Rightarrow> (uuid \<times> string) option" where
  "strategy_label s = Some (sgUserID s, sgName s)"

definition basket_label :: "basket_row \<Rightarrow> (uuid \<times> string) option" where
  "basket_label b = Some (bkUserID b, bkName b)"

definition strategy_ok :: "spec list \<Rightarrow> strategy_row \<Rightarrow> bool" where
  "strategy_ok reg s \<longleftrightarrow>
     canonical_spec reg (sgSpec s) \<and> sgName s \<noteq> [] \<and> length (sgName s) \<le> maxStrategyName \<and>
     length (sgDescription s) \<le> maxStrategyDescription"

definition strategies_sound :: "spec list \<Rightarrow> strategy_row list \<Rightarrow> bool" where
  "strategies_sound reg rs \<longleftrightarrow>
     unique_by (\<lambda>s. Some (sgID s)) rs \<and> unique_by strategy_label rs \<and> unique_by sgShareToken rs \<and> list_all (strategy_ok reg) rs"

text \<open>A saved basket is one a run may have: some known symbols, no more than a basket holds, each once, numbered from 0.\<close>

definition basket_ok :: "db \<Rightarrow> basket_row \<Rightarrow> bool" where
  "basket_ok d b \<longleftrightarrow>
     (let ms = members_of (bkID b) (dbBasketSymbols d)
      in 0 < length ms \<and> length ms \<le> maxBasket \<and> map mbOrd ms = map word_of_nat [0..<length ms] \<and>
         distinct (map mbSymbolID ms) \<and> list_all (\<lambda>m. symbol_known d (mbSymbolID m)) ms)"

definition baskets_sound :: "db \<Rightarrow> bool" where
  "baskets_sound d \<longleftrightarrow>
     unique_by (\<lambda>b. Some (bkID b)) (dbBaskets d) \<and> unique_by basket_label (dbBaskets d) \<and> list_all (basket_ok d) (dbBaskets d) \<and>
     list_all (\<lambda>m. mbOwner m \<in> bkID ` set (dbBaskets d)) (dbBasketSymbols d)"

definition saved_sound :: "spec list \<Rightarrow> db \<Rightarrow> bool" where
  "saved_sound reg d \<longleftrightarrow> strategies_sound reg (dbStrategies d) \<and> baskets_sound d \<and> distinct (map smID (dbSymbols d))"

text \<open>The rows of one user.\<close>

definition mine :: "uuid \<Rightarrow> db \<Rightarrow> strategy_row list \<times> basket_row list \<times> member_row list" where
  "mine u d =
     (filter (\<lambda>s. sgUserID s = u) (dbStrategies d), filter (\<lambda>b. bkUserID b = u) (dbBaskets d),
      filter (\<lambda>m. mbOwner m \<in> bkID ` set (filter (\<lambda>b. bkUserID b = u) (dbBaskets d))) (dbBasketSymbols d))"

section \<open>Strategies stay sound\<close>

lemma update_strategy_Inr:
  assumes "update_strategy i u f d = Inr (d', r)"
  obtains s where "s \<in> set (dbStrategies d)" "owned_strategy i u s" "r = f s"
    "d' = d\<lparr>dbStrategies := map (\<lambda>q. if owned_strategy i u q then f q else q) (dbStrategies d)\<rparr>"
    "list_all (\<lambda>q. owned_strategy i u q \<or> \<not> (sgUserID q = u \<and> sgName q = sgName (f s)) \<and>
       (sgShareToken (f s) = None \<or> sgShareToken q \<noteq> sgShareToken (f s))) (dbStrategies d)"
proof -
  obtain s where "one_row (filter (owned_strategy i u) (dbStrategies d)) = Inr s"
    using assms by (auto simp: update_strategy_def and_then_Inr)
  then show ?thesis using assms one_row_filter [of "owned_strategy i u" "dbStrategies d" s]
    by (intro that [of s]) (auto simp: update_strategy_def list_ex_iff list_all_iff split: if_splits)
qed

lemma update_strategy_sound:
  assumes sound: "strategies_sound reg (dbStrategies d)" and up: "update_strategy i u f d = Inr (d', r)"
    and keeps: "\<And>s. sgID (f s) = sgID s \<and> sgUserID (f s) = sgUserID s"
    and good: "\<And>s. strategy_ok reg s \<Longrightarrow> strategy_ok reg (f s)"
  shows "strategies_sound reg (dbStrategies d')"
proof -
  obtain s where s: "s \<in> set (dbStrategies d)" "owned_strategy i u s"
    "d' = d\<lparr>dbStrategies := map (\<lambda>q. if owned_strategy i u q then f q else q) (dbStrategies d)\<rparr>"
    "list_all (\<lambda>q. owned_strategy i u q \<or> \<not> (sgUserID q = u \<and> sgName q = sgName (f s)) \<and>
       (sgShareToken (f s) = None \<or> sgShareToken q \<noteq> sgShareToken (f s))) (dbStrategies d)"
    by (rule update_strategy_Inr [OF up])
  note u = sound [unfolded strategies_sound_def]
  have one: "q = s" if "q \<in> set (dbStrategies d)" "owned_strategy i u q" for q
    using unique_same [of "\<lambda>s. Some (sgID s)" "dbStrategies d" q s i] u that s(1,2) by (simp add: owned_strategy_def)
  have o: "Some (sgID q) = Some i" if "owned_strategy i u q" for q using that by (simp add: owned_strategy_def)
  have "unique_by (\<lambda>s. Some (sgID s)) (dbStrategies d')" using u keeps by (simp add: s(3) unique_map)
  moreover have "unique_by strategy_label (dbStrategies d')" unfolding s(3)
  proof (simp, rule unique_update [where ident = "\<lambda>s. Some (sgID s)"])
    show "\<And>q r. q \<in> set (dbStrategies d) \<Longrightarrow> r \<in> set (dbStrategies d) \<Longrightarrow> owned_strategy i u q \<Longrightarrow> \<not> owned_strategy i u r \<Longrightarrow>
        strategy_label (f q) = None \<or> strategy_label r \<noteq> strategy_label (f q)"
      using s(2,4) one keeps by (auto simp: strategy_label_def list_all_iff owned_strategy_def)
  qed (use u o in auto)
  moreover have "unique_by sgShareToken (dbStrategies d')" unfolding s(3)
  proof (simp, rule unique_update [where ident = "\<lambda>s. Some (sgID s)"])
    show "\<And>q r. q \<in> set (dbStrategies d) \<Longrightarrow> r \<in> set (dbStrategies d) \<Longrightarrow> owned_strategy i u q \<Longrightarrow> \<not> owned_strategy i u r \<Longrightarrow>
        sgShareToken (f q) = None \<or> sgShareToken r \<noteq> sgShareToken (f q)"
      using s(4) one by (auto simp: list_all_iff)
  qed (use u o in auto)
  moreover have "list_all (strategy_ok reg) (dbStrategies d')" using u good by (auto simp: s(3) list_all_iff)
  ultimately show ?thesis by (simp add: strategies_sound_def)
qed

lemma filter_others:
  "u \<noteq> v \<Longrightarrow> (\<And>q. P q \<Longrightarrow> owner q = u) \<Longrightarrow> (\<And>q. owner (f q) = owner q) \<Longrightarrow>
    filter (\<lambda>q. owner q = v) (map (\<lambda>q. if P q then f q else q) rs) = filter (\<lambda>q. owner q = v) rs"
  by (induction rs) auto

lemma insert_strategy_Inr:
  assumes "insert_strategy r d = Inr d'" "strategies_sound reg (dbStrategies d)" "strategy_ok reg r"
  shows "d' = d\<lparr>dbStrategies := dbStrategies d @ [r]\<rparr>" and "strategies_sound reg (dbStrategies d')"
proof -
  show d': "d' = d\<lparr>dbStrategies := dbStrategies d @ [r]\<rparr>" using assms(1) by (auto simp: insert_strategy_def split: if_splits)
  have "list_all (\<lambda>q. sgID q \<noteq> sgID r \<and> \<not> (sgUserID q = sgUserID r \<and> sgName q = sgName r) \<and>
      (sgShareToken r = None \<or> sgShareToken q \<noteq> sgShareToken r)) (dbStrategies d)"
    using assms(1) by (auto simp: insert_strategy_def list_ex_iff list_all_iff split: if_splits)
  then show "strategies_sound reg (dbStrategies d')" using assms(2,3)
    by (auto simp: d' strategies_sound_def strategy_label_def list_all_iff intro!: unique_append)
qed

lemma saved_Inr: "saved r = Inr x \<longleftrightarrow> r = Inr x" and bad_Inr: "bad q = Inr y \<longleftrightarrow> q = Inr y"
  by (auto simp: saved_def bad_def split: sum.splits)

lemma readStrategy_Inr:
  assumes "readStrategy reg body = Inr (name, description, canonical, p)"
  shows "name \<noteq> [] \<and> length name \<le> maxStrategyName \<and> length description \<le> maxStrategyDescription \<and> canonical_spec reg canonical"
proof -
  have "compileSpec reg (srSpec body) = Inr (canonical, p)"
    using assms by (auto simp: readStrategy_def and_then_Inr Let_def saved_Inr split: if_splits)
  then have "canonical_spec reg canonical" by (rule compileSpec_canonical)
  then show ?thesis using assms
    by (auto simp: readStrategy_def and_then_Inr Let_def normalizeStrategyName_def split: if_splits)
qed

section \<open>Baskets stay sound\<close>

text \<open>What an operation on the basket \<open>i\<close> leaves alone.\<close>

definition only_basket :: "uuid \<Rightarrow> db \<Rightarrow> db \<Rightarrow> bool" where
  "only_basket i d d' \<longleftrightarrow>
     filter (\<lambda>b. bkID b \<noteq> i) (dbBaskets d') = filter (\<lambda>b. bkID b \<noteq> i) (dbBaskets d) \<and>
     filter (\<lambda>m. mbOwner m \<noteq> i) (dbBasketSymbols d') = filter (\<lambda>m. mbOwner m \<noteq> i) (dbBasketSymbols d) \<and>
     dbSymbols d' = dbSymbols d \<and> dbStrategies d' = dbStrategies d"

lemma members_others: "only_basket i d d' \<Longrightarrow> j \<noteq> i \<Longrightarrow> members_of j (dbBasketSymbols d') = members_of j (dbBasketSymbols d)"
proof -
  assume o: "only_basket i d d'" and j: "j \<noteq> i"
  have "filter (\<lambda>m. mbOwner m = j) ms = filter (\<lambda>m. mbOwner m = j) (filter (\<lambda>m. mbOwner m \<noteq> i) ms)" for ms :: "member_row list"
    using j by (auto intro: filter_cong)
  then show ?thesis using o unfolding members_of_def only_basket_def by metis
qed

lemma basket_ok_others: "only_basket i d d' \<Longrightarrow> bkID b \<noteq> i \<Longrightarrow> basket_ok d' b = basket_ok d b"
  using members_others [of i d d' "bkID b"] by (simp add: basket_ok_def only_basket_def symbol_known_def)

text \<open>So the sound baskets stay sound when that one is.\<close>

lemma baskets_sound_only:
  assumes "baskets_sound d" "only_basket i d d'" "unique_by (\<lambda>b. Some (bkID b)) (dbBaskets d')" "unique_by basket_label (dbBaskets d')"
    and "\<And>b. b \<in> set (dbBaskets d') \<Longrightarrow> bkID b = i \<Longrightarrow> basket_ok d' b"
    and "\<And>m. m \<in> set (dbBasketSymbols d') \<Longrightarrow> mbOwner m = i \<Longrightarrow> i \<in> bkID ` set (dbBaskets d')"
  shows "baskets_sound d'"
proof -
  have b: "b \<in> set (dbBaskets d') \<longleftrightarrow> b \<in> set (dbBaskets d)" if "bkID b \<noteq> i" for b
    using arg_cong [of _ _ set, OF conjunct1 [OF assms(2) [unfolded only_basket_def]]] that by auto
  have m: "m \<in> set (dbBasketSymbols d') \<longleftrightarrow> m \<in> set (dbBasketSymbols d)" if "mbOwner m \<noteq> i" for m
    using arg_cong [of _ _ set, OF conjunct1 [OF conjunct2 [OF assms(2) [unfolded only_basket_def]]]] that by auto
  have "basket_ok d' x" if "x \<in> set (dbBaskets d')" for x
    using that assms(1,5) b [of x] basket_ok_others [OF assms(2), of x] by (cases "bkID x = i") (auto simp: baskets_sound_def list_all_iff)
  moreover have "mbOwner x \<in> bkID ` set (dbBaskets d')" if x: "x \<in> set (dbBasketSymbols d')" for x
  proof (cases "mbOwner x = i")
    case False
    then obtain y where "y \<in> set (dbBaskets d)" "bkID y = mbOwner x" using assms(1) m x by (auto simp: baskets_sound_def list_all_iff)
    then show ?thesis using b [of y] False by force
  qed (use assms(6) x in auto)
  ultimately show ?thesis using assms(3,4) by (simp add: baskets_sound_def list_all_iff)
qed

lemma mine_only:
  assumes "only_basket i d d'" "\<And>b. b \<in> set (dbBaskets d) \<union> set (dbBaskets d') \<Longrightarrow> bkUserID b = v \<Longrightarrow> bkID b \<noteq> i"
  shows "mine v d' = mine v d"
proof -
  have f: "filter (\<lambda>b. bkUserID b = v) bs = filter (\<lambda>b. bkUserID b = v) (filter (\<lambda>b. bkID b \<noteq> i) bs)"
    if "\<And>b. b \<in> set bs \<Longrightarrow> bkUserID b = v \<Longrightarrow> bkID b \<noteq> i" for bs
    using that by (auto intro: filter_cong)
  have b: "filter (\<lambda>b. bkUserID b = v) (dbBaskets d') = filter (\<lambda>b. bkUserID b = v) (dbBaskets d)"
    using assms f [of "dbBaskets d"] f [of "dbBaskets d'"] by (simp add: only_basket_def)
  let ?S = "bkID ` set (filter (\<lambda>b. bkUserID b = v) (dbBaskets d))"
  have "i \<notin> ?S" using assms(2) by auto
  then have "filter (\<lambda>m. mbOwner m \<in> ?S) ms = filter (\<lambda>m. mbOwner m \<in> ?S) (filter (\<lambda>m. mbOwner m \<noteq> i) ms)" for ms :: "member_row list"
    by (auto intro: filter_cong)
  then have "filter (\<lambda>m. mbOwner m \<in> ?S) (dbBasketSymbols d') = filter (\<lambda>m. mbOwner m \<in> ?S) (dbBasketSymbols d)"
    using assms(1) unfolding only_basket_def by metis
  then show ?thesis using assms(1) b by (simp add: mine_def only_basket_def)
qed

text \<open>The rows a request writes for its basket make it sound.\<close>

definition basket_given :: "db \<Rightarrow> symbol_row list \<Rightarrow> bool" where
  "basket_given d basket \<longleftrightarrow>
     set basket \<subseteq> set (dbSymbols d) \<and> distinct (map smTicker basket) \<and> 0 < length basket \<and> length basket \<le> maxBasket"

lemma readBasketRequest_Inr:
  assumes "readBasketRequest name symbols d = Inr (clean_name, basket)"
  shows "basket_given d basket"
proof -
  obtain tickers where t: "readSavedBasket symbols = Inr tickers" "findBasket tickers d = Inr basket"
    using assms by (auto simp: readBasketRequest_def and_then_Inr saved_Inr)
  then have n: "tickers = normalized_from [] symbols" "tickers \<noteq> []" "length tickers \<le> maxBasket"
    by (auto simp: readSavedBasket_def and_then_Inr saved_Inr bad_Inr normalizeTickers_def Let_def simp del: normalized_from.simps
        split: if_splits)
  note c = normalized_clean [of "[]" symbols]
  have b: "set basket \<subseteq> set (dbSymbols d)" "map smTicker basket = tickers"
    using findBasket_Inr [OF t(2)] clean_tickers [of tickers] c n(1) by auto
  then show ?thesis using n c by (auto simp: basket_given_def simp flip: length_map [of smTicker basket])
qed

lemma basket_rows_columns:
  "map mbOrd (basket_rows i basket) = map word_of_nat [0..<length basket]" "map mbSymbolID (basket_rows i basket) = map smID basket"
  "length (basket_rows i basket) = length basket" "basket_rows i basket = [] \<longleftrightarrow> basket = []"
proof -
  show l: "length (basket_rows i basket) = length basket" and "basket_rows i basket = [] \<longleftrightarrow> basket = []"
    by (simp_all add: basket_rows_def flip: length_0_conv)
  show "map mbOrd (basket_rows i basket) = map word_of_nat [0..<length basket]" "map mbSymbolID (basket_rows i basket) = map smID basket"
    by (rule nth_equalityI; simp add: basket_rows_def nth_enumerate_eq)+
qed

lemma basket_given_ok:
  assumes "basket_given d basket" "distinct (map smID (dbSymbols d))" "members_of (bkID b) (dbBasketSymbols d) = basket_rows (bkID b) basket"
  shows "basket_ok d b"
proof -
  have "inj_on smID (set basket)" using assms(1,2) by (auto simp: basket_given_def distinct_map intro: inj_on_subset)
  moreover have "distinct basket" using assms(1) by (auto simp: basket_given_def distinct_map)
  ultimately have "distinct (map smID basket)" by (simp add: distinct_map)
  moreover have "list_all (\<lambda>m. symbol_known d (mbSymbolID m)) (basket_rows (bkID b) basket)"
    using assms(1) by (auto simp: basket_rows_def basket_given_def symbol_known_def list_all_iff dest: enumerate_mem)
  ultimately show ?thesis using assms(1,3) by (simp add: basket_ok_def basket_rows_columns basket_given_def)
qed

interpretation basket_members: table dbBasketSymbols "\<lambda>xs d. d\<lparr>dbBasketSymbols := xs\<rparr>" insert_basket_symbol
    "\<lambda>row d. mbOwner row \<in> bkID ` set (dbBaskets d)"
  by unfold_locales (auto simp: insert_basket_symbol_def split: if_splits)

lemma given_members:
  assumes "i \<notin> mbOwner ` set ms" "length basket < 2147483648"
  shows "members_of i (ms @ basket_rows i basket) = basket_rows i basket"
proof -
  have "filter (\<lambda>m. mbOwner m = i) ms = []" using assms(1) by (auto simp: filter_empty_conv)
  moreover have "filter (\<lambda>m. mbOwner m = i) (basket_rows i basket) = basket_rows i basket"
    using basket_owner [of i basket] by (simp add: list_all_iff)
  ultimately show ?thesis using basket_sorted [OF assms(2), of i] by (simp add: members_of_def)
qed

lemma createBasket_sound:
  assumes "createBasket i now u name basket d = Inr (d', row)" "baskets_sound d" "distinct (map smID (dbSymbols d))" "basket_given d basket"
  shows "baskets_sound d'" and "only_basket i d d'" and "i \<notin> bkID ` set (dbBaskets d)" and "dbBaskets d' = dbBaskets d @ [row]"
    and "bkID row = i" and "bkUserID row = u"
proof -
  obtain d1 where d1: "CreateSymbolBasket i now u name d = Inr (d1, row)" "CreateSymbolBasketSymbols (basket_rows (bkID row) basket) d1 = Inr d'"
    using assms(1) by (auto simp: createBasket_def and_then_Inr)
  have row: "bkID row = i" "bkUserID row = u" "insert_basket row d = Inr d1"
    using d1(1) by (auto simp: CreateSymbolBasket_def Let_def and_then_Inr)
  then show "bkID row = i" "bkUserID row = u" by blast+
  have b1: "d1 = d\<lparr>dbBaskets := dbBaskets d @ [row]\<rparr>" using row(3) by (auto simp: insert_basket_def split: if_splits)
  have fresh: "list_all (\<lambda>q. bkID q \<noteq> i \<and> basket_label q \<noteq> basket_label row) (dbBaskets d)"
    using row by (auto simp: insert_basket_def basket_label_def list_ex_iff list_all_iff split: if_splits)
  then show n: "i \<notin> bkID ` set (dbBaskets d)" by (auto simp: list_all_iff)
  have d': "d' = d\<lparr>dbBaskets := dbBaskets d @ [row], dbBasketSymbols := dbBasketSymbols d @ basket_rows i basket\<rparr>"
    using basket_members.copied [of "basket_rows i basket" d1 d'] d1(2) row(1) by (simp add: CreateSymbolBasketSymbols_def b1)
  show "dbBaskets d' = dbBaskets d @ [row]" by (simp add: d')
  have "list_all (\<lambda>m. mbOwner m = i) (basket_rows i basket)" by (rule basket_owner)
  then have "filter (\<lambda>m. mbOwner m \<noteq> i) (basket_rows i basket) = []" by (auto simp: list_all_iff filter_empty_conv)
  then show only: "only_basket i d d'" using row(1) by (simp add: only_basket_def d')
  have own: "i \<notin> mbOwner ` set (dbBasketSymbols d)" using assms(2) n by (auto simp: baskets_sound_def list_all_iff)
  have "length basket < 2147483648" using assms(4) by (simp add: basket_given_def maxBasket_def)
  from given_members [OF own this] have "members_of i (dbBasketSymbols d') = basket_rows i basket" by (simp add: d')
  then have "basket_ok d' b" if "bkID b = i" for b
    using basket_given_ok [of d' basket b] assms(3,4) that by (simp add: d' basket_given_def)
  then show "baskets_sound d'"
    using assms(2) only fresh row(1)
    by (intro baskets_sound_only [of d i d']) (auto simp: d' baskets_sound_def list_all_iff intro!: unique_append)
qed

lemma replaceBasket_sound:
  assumes "replaceBasket now i u name basket d = Inr (d', row)" "baskets_sound d" "distinct (map smID (dbSymbols d))" "basket_given d basket"
  shows "baskets_sound d'" and "only_basket i d d'" and "\<exists>b\<in>set (dbBaskets d). owned_basket i u b"
    and "map (\<lambda>b. (bkID b, bkUserID b)) (dbBaskets d') = map (\<lambda>b. (bkID b, bkUserID b)) (dbBaskets d)"
proof -
  let ?f = "\<lambda>b. b\<lparr>bkName := name, bkUpdatedAt := now\<rparr>"
  obtain d1 where d1: "UpdateSymbolBasket now i u name d = Inr (d1, row)"
    "CreateSymbolBasketSymbols (basket_rows i basket) (DeleteSymbolBasketSymbols i d1) = Inr d'"
    using assms(1) by (auto simp: replaceBasket_def and_then_Inr)
  obtain s where s: "one_row (filter (owned_basket i u) (dbBaskets d)) = Inr s"
    using d1(1) by (auto simp: UpdateSymbolBasket_def Let_def and_then_Inr)
  have s': "s \<in> set (dbBaskets d)" "owned_basket i u s" using one_row_filter [OF s] by blast+
  then show "\<exists>b\<in>set (dbBaskets d). owned_basket i u b" by blast
  have b1: "d1 = d\<lparr>dbBaskets := map (\<lambda>q. if owned_basket i u q then ?f q else q) (dbBaskets d)\<rparr>"
    and free: "list_all (\<lambda>q. owned_basket i u q \<or> \<not> (bkUserID q = u \<and> bkName q = name)) (dbBaskets d)"
    using d1(1) s by (auto simp: UpdateSymbolBasket_def Let_def and_then_Inr list_ex_iff list_all_iff split: if_splits)
  let ?ms = "filter (\<lambda>m. mbOwner m \<noteq> i) (dbBasketSymbols d)"
  have d': "d' = d\<lparr>dbBaskets := map (\<lambda>q. if owned_basket i u q then ?f q else q) (dbBaskets d),
      dbBasketSymbols := ?ms @ basket_rows i basket\<rparr>"
    using basket_members.copied [of "basket_rows i basket" "DeleteSymbolBasketSymbols i d1" d'] d1(2)
    by (simp add: CreateSymbolBasketSymbols_def DeleteSymbolBasketSymbols_def b1)
  show ids: "map (\<lambda>b. (bkID b, bkUserID b)) (dbBaskets d') = map (\<lambda>b. (bkID b, bkUserID b)) (dbBaskets d)" by (simp add: d')
  note u = assms(2) [unfolded baskets_sound_def]
  have "filter (\<lambda>b. bkID b \<noteq> i) (map (\<lambda>q. if owned_basket i u q then ?f q else q) bs) = filter (\<lambda>b. bkID b \<noteq> i) bs" for bs
    by (induction bs) (auto simp: owned_basket_def)
  moreover have "filter (\<lambda>m. mbOwner m \<noteq> i) (basket_rows i basket) = []"
    using basket_owner [of i basket] by (auto simp: list_all_iff filter_empty_conv)
  ultimately show only: "only_basket i d d'" by (simp add: only_basket_def d')
  have "i \<notin> mbOwner ` set ?ms" by auto
  moreover have "length basket < 2147483648" using assms(4) by (simp add: basket_given_def maxBasket_def)
  ultimately have "members_of i (dbBasketSymbols d') = basket_rows i basket" using given_members [of i ?ms basket] by (simp add: d')
  then have ok: "basket_ok d' b" if "bkID b = i" for b
    using basket_given_ok [of d' basket b] assms(3,4) that by (simp add: d' basket_given_def)
  have "map bkID (dbBaskets d') = map bkID (dbBaskets d)" by (simp add: d')
  then have "bkID ` set (dbBaskets d') = bkID ` set (dbBaskets d)" by (metis set_map)
  then have k: "i \<in> bkID ` set (dbBaskets d')" using s' by (auto simp: owned_basket_def)
  have "unique_by (\<lambda>b. Some (bkID b)) (dbBaskets d')" using u by (simp add: d' unique_map)
  moreover have "unique_by basket_label (dbBaskets d')" unfolding d'
  proof (simp, rule unique_update [where ident = "\<lambda>b. Some (bkID b)"])
    show "\<And>q r. q \<in> set (dbBaskets d) \<Longrightarrow> r \<in> set (dbBaskets d) \<Longrightarrow> owned_basket i u q \<Longrightarrow> \<not> owned_basket i u r \<Longrightarrow>
        basket_label (?f q) = None \<or> basket_label r \<noteq> basket_label (?f q)"
      using free by (auto simp: basket_label_def list_all_iff owned_basket_def)
  qed (use u in \<open>auto simp: owned_basket_def\<close>)
  ultimately show "baskets_sound d'" using ok k by (intro baskets_sound_only [OF assms(2) only])
qed

lemma deleteBasket_sound:
  assumes "DeleteSymbolBasket i u d = (d', n)" "0 < n" "baskets_sound d"
  shows "baskets_sound d'" and "only_basket i d d'" and "\<exists>b\<in>set (dbBaskets d). owned_basket i u b"
    and "set (dbBaskets d') \<subseteq> set (dbBaskets d)"
proof -
  have "filter (owned_basket i u) (dbBaskets d) \<noteq> []" using assms(1,2) by (auto simp: DeleteSymbolBasket_def Let_def split: if_splits)
  then obtain s where s: "s \<in> set (dbBaskets d)" "owned_basket i u s" by (auto simp: filter_empty_conv)
  then show "\<exists>b\<in>set (dbBaskets d). owned_basket i u b" by blast
  have d': "d' = d\<lparr>dbBaskets := filter (\<lambda>b. \<not> owned_basket i u b) (dbBaskets d),
      dbBasketSymbols := filter (\<lambda>m. mbOwner m \<noteq> i) (dbBasketSymbols d)\<rparr>"
    using assms(1,2) by (auto simp: DeleteSymbolBasket_def Let_def split: if_splits)
  then show "set (dbBaskets d') \<subseteq> set (dbBaskets d)" by auto
  note u = assms(3) [unfolded baskets_sound_def]
  have "b = s" if "b \<in> set (dbBaskets d)" "bkID b = i" for b
    using unique_same [of "\<lambda>b. Some (bkID b)" "dbBaskets d" b s i] u that s by (simp add: owned_basket_def)
  then have gone: "b \<in> set (dbBaskets d') \<Longrightarrow> bkID b \<noteq> i" for b using s by (auto simp: d')
  have "filter (\<lambda>b. bkID b \<noteq> i \<and> \<not> owned_basket i u b) (dbBaskets d) = filter (\<lambda>b. bkID b \<noteq> i) (dbBaskets d)"
    by (rule filter_cong) (auto simp: owned_basket_def)
  then show only: "only_basket i d d'" by (simp add: only_basket_def d' conj_commute)
  show "baskets_sound d'"
    by (intro baskets_sound_only [OF assms(3) only]) (use u gone in \<open>auto simp: d' unique_filter\<close>)
qed

section \<open>Every request keeps what is saved sound\<close>

lemma saved_strategies:
  assumes "saved_sound reg d" "strategies_sound reg (dbStrategies d')" "dbBaskets d' = dbBaskets d" "dbBasketSymbols d' = dbBasketSymbols d"
    "dbSymbols d' = dbSymbols d"
  shows "saved_sound reg d'"
proof -
  have "basket_ok d' = basket_ok d" using assms(4,5) by (intro ext) (simp add: basket_ok_def symbol_known_def)
  then show ?thesis using assms by (simp add: saved_sound_def baskets_sound_def)
qed

lemma saved_baskets:
  assumes "saved_sound reg d" "baskets_sound d'" "only_basket i d d'"
  shows "saved_sound reg d'"
  using assms by (simp add: saved_sound_def only_basket_def)

lemma owner_of_basket:
  assumes "saved_sound reg d" "b \<in> set (dbBaskets d)" "owned_basket i u b" "q \<in> set (dbBaskets d)" "bkUserID q \<noteq> u"
  shows "bkID q \<noteq> i"
  using assms unique_same [of "\<lambda>b. Some (bkID b)" "dbBaskets d" b q i] by (auto simp: saved_sound_def baskets_sound_def owned_basket_def)

lemma update_step:
  assumes "update_strategy i u f d = Inr (d', r)" "saved_sound reg d"
    and "\<And>s. sgID (f s) = sgID s \<and> sgUserID (f s) = sgUserID s" and "\<And>s. strategy_ok reg s \<Longrightarrow> strategy_ok reg (f s)"
  shows "saved_sound reg d' \<and> (v \<noteq> u \<longrightarrow> mine v d' = mine v d) \<and> dbSymbols d' = dbSymbols d"
proof -
  have "strategies_sound reg (dbStrategies d)" using assms(2) by (simp add: saved_sound_def)
  note s = update_strategy_sound [OF this assms(1,3,4)]
  have d': "d' = d\<lparr>dbStrategies := map (\<lambda>q. if owned_strategy i u q then f q else q) (dbStrategies d)\<rparr>"
    by (rule update_strategy_Inr [OF assms(1)])
  have "filter (\<lambda>s. sgUserID s = v) (dbStrategies d') = filter (\<lambda>s. sgUserID s = v) (dbStrategies d)" if "v \<noteq> u"
    unfolding d' using filter_others [of u v "owned_strategy i u" sgUserID f "dbStrategies d"] assms(3) that
    by (auto simp: owned_strategy_def)
  then show ?thesis using saved_strategies [OF assms(2) s] by (simp add: d' mine_def)
qed

text \<open>A handler that answers found the statement to succeed.\<close>

lemma answered:
  "case_sum (case_db_error (Inl e1) (Inl e2) (Inl e3) (Inl e4)) g x = Inr z \<longleftrightarrow> (\<exists>y. x = Inr y \<and> g y = Inr z)"
  by (cases x) (auto split: db_error.splits)

text \<open>One request: what is saved stays sound, the rows of every other user stay as they are, and the queue is not touched.\<close>

lemma saved_step_effect:
  assumes "saved_step reg u d d'" "saved_sound reg d"
  shows "saved_sound reg d' \<and> (v \<noteq> u \<longrightarrow> mine v d' = mine v d) \<and> dbSymbols d' = dbSymbols d"
  using assms(1)
proof cases
  case (SaveStrategy i now body b)
  obtain name description canonical p r where r: "readStrategy reg body = Inr (name, description, canonical, p)"
    "CreateStrategy i now u name description canonical d = Inr (d', r)"
    using SaveStrategy by (auto simp: handleCreateStrategy_def and_then_Inr answered split: if_splits)
  have k: "insert_strategy r d = Inr d'" "sgUserID r = u" "strategy_ok reg r"
    using r(2) readStrategy_Inr [OF r(1)] by (auto simp: CreateStrategy_def Let_def and_then_Inr strategy_ok_def)
  note n = insert_strategy_Inr [OF k(1) _ k(3)]
  have "strategies_sound reg (dbStrategies d)" using assms(2) by (simp add: saved_sound_def)
  note n = n [OF this]
  show ?thesis using saved_strategies [OF assms(2) n(2)] n(1) k(2) by (simp add: mine_def)
next
  case (EditStrategy now path body b)
  obtain i name description canonical p r where r: "readStrategy reg body = Inr (name, description, canonical, p)"
    "UpdateStrategy now i u name description canonical d = Inr (d', r)"
    using EditStrategy by (auto simp: handleUpdateStrategy_def and_then_Inr answered split: option.splits)
  have k: "update_strategy i u (saved_version now name description canonical) d = Inr (d', r)"
    using r(2) by (auto simp: UpdateStrategy_def split: if_splits)
  show ?thesis
    using readStrategy_Inr [OF r(1)] update_step [OF k assms(2)] by (simp add: saved_version_def strategy_ok_def)
next
  case (DropStrategy path)
  then obtain i where d': "d' = d\<lparr>dbStrategies := filter (\<lambda>s. \<not> owned_strategy i u s) (dbStrategies d)\<rparr>"
    by (auto simp: handleDeleteStrategy_def DeleteStrategy_def Let_def answered split: option.splits if_splits)
  have "strategies_sound reg (dbStrategies d')"
    using assms(2) by (auto simp: d' saved_sound_def strategies_sound_def unique_filter list_all_iff)
  moreover have "filter (\<lambda>s. sgUserID s = v \<and> \<not> owned_strategy i u s) (dbStrategies d) = filter (\<lambda>s. sgUserID s = v) (dbStrategies d)" if "v \<noteq> u"
    by (rule filter_cong) (use that in \<open>auto simp: owned_strategy_def\<close>)
  ultimately show ?thesis using saved_strategies [OF assms(2)] by (simp add: d' mine_def conj_commute)
next
  case (Share now token path sh)
  then obtain i r where "ShareStrategy now i u token d = Inr (d', r)"
    by (auto simp: handleShareStrategy_def answered split: option.splits)
  then show ?thesis unfolding ShareStrategy_def by (rule update_step [OF _ assms(2)]) (simp_all add: strategy_ok_def)
next
  case (Unshare path)
  then obtain i r where "UnshareStrategy i u d = Inr (d', r)"
    by (auto simp: handleUnshareStrategy_def answered split: option.splits)
  then show ?thesis unfolding UnshareStrategy_def by (rule update_step [OF _ assms(2)]) (simp_all add: strategy_ok_def)
next
  case (SaveBasket i now name symbols bb)
  obtain clean_name basket row where r: "readBasketRequest name symbols d = Inr (clean_name, basket)"
    "createBasket i now u clean_name basket d = Inr (d', row)"
    using SaveBasket by (auto simp: handleCreateBasket_def and_then_Inr answered split: if_splits)
  have s: "baskets_sound d" "distinct (map smID (dbSymbols d))" using assms(2) by (simp_all add: saved_sound_def)
  note c = createBasket_sound [OF r(2) s readBasketRequest_Inr [OF r(1)]]
  have "bkID q \<noteq> i" if "q \<in> set (dbBaskets d) \<union> set (dbBaskets d')" "bkUserID q \<noteq> u" for q
    using that c(3,6) unfolding c(4) by (auto simp: image_iff)
  then have "mine v d' = mine v d" if "v \<noteq> u" using that by (intro mine_only [OF c(2)]) blast
  then show ?thesis using saved_baskets [OF assms(2) c(1,2)] c(2) by (simp add: only_basket_def)
next
  case (EditBasket now path name symbols bb)
  obtain i clean_name basket row where r: "readBasketRequest name symbols d = Inr (clean_name, basket)"
    "replaceBasket now i u clean_name basket d = Inr (d', row)"
    using EditBasket by (auto simp: handleUpdateBasket_def and_then_Inr answered split: option.splits)
  have s: "baskets_sound d" "distinct (map smID (dbSymbols d))" using assms(2) by (simp_all add: saved_sound_def)
  note c = replaceBasket_sound [OF r(2) s readBasketRequest_Inr [OF r(1)]]
  obtain b where b: "b \<in> set (dbBaskets d)" "owned_basket i u b" using c(3) by blast
  have same: "(\<lambda>b. (bkID b, bkUserID b)) ` set (dbBaskets d') = (\<lambda>b. (bkID b, bkUserID b)) ` set (dbBaskets d)"
    using arg_cong [OF c(4), of set] by simp
  have "bkID q \<noteq> i" if q: "q \<in> set (dbBaskets d) \<union> set (dbBaskets d')" "bkUserID q \<noteq> u" for q
  proof -
    have "(bkID q, bkUserID q) \<in> (\<lambda>b. (bkID b, bkUserID b)) ` (set (dbBaskets d) \<union> set (dbBaskets d'))" using q(1) by (rule imageI)
    then have "(bkID q, bkUserID q) \<in> (\<lambda>b. (bkID b, bkUserID b)) ` set (dbBaskets d)" unfolding image_Un same by blast
    then obtain x where "x \<in> set (dbBaskets d)" "bkID x = bkID q" "bkUserID x = bkUserID q" by auto
    then show ?thesis using owner_of_basket [OF assms(2) b, of x] q(2) by simp
  qed
  then have "mine v d' = mine v d" if "v \<noteq> u" using that by (intro mine_only [OF c(2)]) auto
  then show ?thesis using saved_baskets [OF assms(2) c(1,2)] c(2) by (simp add: only_basket_def)
next
  case (DropBasket path)
  then obtain i n where n: "DeleteSymbolBasket i u d = (d', n)" "0 < n"
    by (auto simp: handleDeleteBasket_def split: option.splits prod.splits if_splits)
  have "baskets_sound d" using assms(2) by (simp add: saved_sound_def)
  note c = deleteBasket_sound [OF n this]
  obtain b where b: "b \<in> set (dbBaskets d)" "owned_basket i u b" using c(3) by blast
  have "mine v d' = mine v d" if "v \<noteq> u"
    using c(4) that by (intro mine_only [OF c(2)]) (auto dest: owner_of_basket [OF assms(2) b])
  then show ?thesis using saved_baskets [OF assms(2) c(1,2)] c(2) by (simp add: only_basket_def)
qed

text \<open>C10: Whatever users save, edit, share and delete, in any order: identifiers, the names of one user and the tokens of links stay
  unique, every stored specification is one the parser wrote, and every basket is one a run may have: of known symbols,
  each once, at least one and no more than a basket holds, numbered from 0.\<close>

theorem saved_stays_sound:
  assumes "saved_sound reg d" and "(\<lambda>a b. \<exists>u. saved_step reg u a b)\<^sup>*\<^sup>* d d'"
  shows "saved_sound reg d'"
  using assms(2)
proof (induction rule: rtranclp_induct)
  case (step a b)
  then show ?case using saved_step_effect by blast
qed (rule assms(1))

section \<open>What a user sees is their own\<close>

text \<open>The lists of a user depend on the rows of that user.\<close>

lemma listed_mine:
  assumes "mine u d' = mine u d" "dbSymbols d' = dbSymbols d"
  shows "handleListStrategies u d' = handleListStrategies u d" and "handleListBaskets u d' = handleListBaskets u d"
proof -
  have b: "filter (\<lambda>b. bkUserID b = u) (dbBaskets d') = filter (\<lambda>b. bkUserID b = u) (dbBaskets d)"
    "filter (\<lambda>s. sgUserID s = u) (dbStrategies d') = filter (\<lambda>s. sgUserID s = u) (dbStrategies d)"
    using assms(1) by (simp_all add: mine_def)
  then show "handleListStrategies u d' = handleListStrategies u d" by (simp add: handleListStrategies_def ListStrategies_def)
  let ?S = "bkID ` set (filter (\<lambda>b. bkUserID b = u) (dbBaskets d))"
  have m: "filter (\<lambda>m. mbOwner m \<in> ?S) (dbBasketSymbols d') = filter (\<lambda>m. mbOwner m \<in> ?S) (dbBasketSymbols d)"
    using assms(1) b(1) by (simp add: mine_def)
  have s: "filter (\<lambda>m. mbOwner m = i) ms = filter (\<lambda>m. mbOwner m = i) (filter (\<lambda>m. mbOwner m \<in> ?S) ms)"
    if "i \<in> ?S" for i and ms :: "member_row list"
    using that by (auto intro: filter_cong)
  have "filter (\<lambda>m. mbOwner m = i) (dbBasketSymbols d') = filter (\<lambda>m. mbOwner m = i) (dbBasketSymbols d)" if "i \<in> ?S" for i
    unfolding s [OF that, of "dbBasketSymbols d'"] s [OF that, of "dbBasketSymbols d"] m by (rule refl)
  then have "members_of i (dbBasketSymbols d') = members_of i (dbBasketSymbols d)" if "i \<in> ?S" for i
    using that unfolding members_of_def by metis
  moreover have l: "ListSymbolBaskets u d' = ListSymbolBaskets u d" using b(1) by (simp add: ListSymbolBaskets_def)
  moreover have "set (sort (remdups (map bkID (ListSymbolBaskets u d)))) = ?S" by (simp add: ListSymbolBaskets_def)
  ultimately have "ListSymbolBasketMembers (map bkID (ListSymbolBaskets u d)) d' = ListSymbolBasketMembers (map bkID (ListSymbolBaskets u d)) d"
    using assms(2) unfolding ListSymbolBasketMembers_def
    by (intro arg_cong [of _ _ concat] map_cong refl) (simp add: join_members_def symbols_with_def)
  then show "handleListBaskets u d' = handleListBaskets u d" using l by (simp add: handleListBaskets_def basketMembers_def Let_def)
qed

text \<open>C11: Whatever other users request, in any order, the strategies and the baskets a user is shown stay as they were.\<close>

theorem others_change_nothing:
  assumes "saved_sound reg d" and "(\<lambda>a b. \<exists>v. v \<noteq> u \<and> saved_step reg v a b)\<^sup>*\<^sup>* d d'"
  shows "handleListStrategies u d' = handleListStrategies u d \<and> handleListBaskets u d' = handleListBaskets u d"
proof -
  from assms(2) have "saved_sound reg d' \<and> mine u d' = mine u d \<and> dbSymbols d' = dbSymbols d"
  proof (induction rule: rtranclp_induct)
    case (step a b)
    then obtain v where "v \<noteq> u" "saved_step reg v a b" by blast
    then show ?case using step.IH saved_step_effect [of reg v a b u] by auto
  qed (use assms(1) in simp)
  then show ?thesis using listed_mine [of u d' d] by simp
qed

section \<open>Links\<close>

lemma one_row_single: "one_row [x] = Inr x"
  by (simp add: one_row_def)

lemma share_finds:
  assumes "strategies_sound reg (dbStrategies d)" "r \<in> set (dbStrategies d)" "sgShareToken r = Some t"
  shows "GetSharedStrategy t d = Inr r"
  using assms unique_one [of sgShareToken "dbStrategies d" r t] by (simp add: GetSharedStrategy_def strategies_sound_def one_row_single)

lemma share_misses: "list_all (\<lambda>s. sgShareToken s \<noteq> Some t) (dbStrategies d) \<Longrightarrow> GetSharedStrategy t d = Inl NoRows"
  by (simp add: GetSharedStrategy_def one_row_def list_all_iff filter_False)

text \<open>An update that gives a strategy another token, or none, makes its old link a dead one.\<close>

lemma old_link_dead:
  assumes "strategies_sound reg (dbStrategies d)" "s \<in> set (dbStrategies d)" "owned_strategy i u s" "sgShareToken s = Some old"
    and "d' = d\<lparr>dbStrategies := map (\<lambda>q. if owned_strategy i u q then f q else q) (dbStrategies d)\<rparr>"
    and "\<And>q. sgShareToken (f q) \<noteq> Some old"
  shows "GetSharedStrategy old d' = Inl NoRows"
proof (rule share_misses)
  have "q = s" if "q \<in> set (dbStrategies d)" "sgShareToken q = Some old" for q
    using unique_same [of sgShareToken "dbStrategies d" q s old] assms(1,2,4) that by (simp add: strategies_sound_def)
  then show "list_all (\<lambda>s. sgShareToken s \<noteq> Some old) (dbStrategies d')" using assms(3,6) by (auto simp: assms(5) list_all_iff)
qed

lemma canonical_replan: "canonical_spec (registry math_Log) j \<Longrightarrow> replan (registry math_Log) j \<noteq> None"
proof -
  assume "canonical_spec (registry math_Log) j"
  then obtain v s where s: "Parse (registry math_Log) (Some v) = Inr s" "j = marshal_spec s" by (auto simp: canonical_spec_def)
  then show ?thesis using parsed_canonical [OF s(1)] by (auto simp: replan_def)
qed

text \<open>What a link shows of a strategy.\<close>

definition shown :: "spec list \<Rightarrow> strategy_row \<Rightarrow> shared_body" where
  "shown reg r =
     \<lparr>sdName = sgName r, sdDescription = sgDescription r, sdVersion = sgVersion r, sdSpec = sgSpec r, sdPlan = replan reg (sgSpec r),
      sdCreatedAt = sgCreatedAt r, sdUpdatedAt = sgUpdatedAt r, sdSharedAt = sgSharedAt r\<rparr>"

lemma link_shows: "trim_space t = t \<Longrightarrow> t \<noteq> [] \<Longrightarrow> GetSharedStrategy t d = Inr r \<Longrightarrow> handleGetSharedStrategy reg t d = Inr (shown reg r)"
  by (simp add: handleGetSharedStrategy_def shown_def)

text \<open>C12: The link a user gives to a strategy opens that strategy and its plan to everyone, from then on the link it had before opens nothing,
  and once the strategy is no longer shared neither does the new one.\<close>

theorem link_opens_until_unshared:
  assumes "saved_sound (registry math_Log) d" and "GetStrategy i u d = Inr s" and "trim_space t = t" and "t \<noteq> []"
    and "handleShareStrategy now t (Some i) u d = Inr (d1, body)" and "handleUnshareStrategy (Some i) u d1 = Inr d2"
  shows "handleGetSharedStrategy (registry math_Log) t d1 =
      Inr (shown (registry math_Log) (s\<lparr>sgShareToken := Some t, sgSharedAt := Some now\<rparr>)) \<and>
    replan (registry math_Log) (sgSpec s) \<noteq> None \<and>
    (case sgShareToken s of
       None \<Rightarrow> True | Some old \<Rightarrow> GetSharedStrategy old d1 = (if old = t then GetSharedStrategy t d1 else Inl NoRows)) \<and>
    handleGetSharedStrategy (registry math_Log) t d2 = Inl NotSaved"
proof (intro conjI)
  have sound: "strategies_sound (registry math_Log) (dbStrategies d)" using assms(1) by (simp add: saved_sound_def)
  have s: "s \<in> set (dbStrategies d)" "owned_strategy i u s"
    using assms(2) one_row_filter [of "\<lambda>s. sgID s = i \<and> sgUserID s = u"] by (auto simp: GetStrategy_def owned_strategy_def)
  have one: "q = s" if "q \<in> set (dbStrategies d)" "owned_strategy i u q" for q
    using unique_same [of "\<lambda>s. Some (sgID s)" "dbStrategies d" q s i] sound s that by (simp add: strategies_sound_def owned_strategy_def)
  show "replan (registry math_Log) (sgSpec s) \<noteq> None"
    using sound s(1) by (intro canonical_replan) (simp add: strategies_sound_def strategy_ok_def list_all_iff)
  let ?f = "\<lambda>r. r\<lparr>sgShareToken := Some t, sgSharedAt := Some now\<rparr>"
  obtain r where r: "update_strategy i u ?f d = Inr (d1, r)"
    using assms(5) by (auto simp: handleShareStrategy_def ShareStrategy_def split: sum.splits db_error.splits)
  have d1: "d1 = d\<lparr>dbStrategies := map (\<lambda>q. if owned_strategy i u q then ?f q else q) (dbStrategies d)\<rparr>"
    by (rule update_strategy_Inr [OF r])
  have sound1: "strategies_sound (registry math_Log) (dbStrategies d1)"
    by (rule update_strategy_sound [OF sound r]) (simp_all add: strategy_ok_def)
  have f: "?f s \<in> set (dbStrategies d1)" using s by (force simp: d1)
  then have g: "GetSharedStrategy t d1 = Inr (?f s)" by (intro share_finds [OF sound1]) simp_all
  then show "handleGetSharedStrategy (registry math_Log) t d1 = Inr (shown (registry math_Log) (?f s))"
    by (rule link_shows [OF assms(3,4)])
  show "case sgShareToken s of None \<Rightarrow> True | Some old \<Rightarrow> GetSharedStrategy old d1 = (if old = t then GetSharedStrategy t d1 else Inl NoRows)"
    using old_link_dead [OF sound s _ d1] by (auto split: option.splits)
  obtain r2 where r2: "update_strategy i u (\<lambda>r. r\<lparr>sgShareToken := None, sgSharedAt := None\<rparr>) d1 = Inr (d2, r2)"
    using assms(6) by (auto simp: handleUnshareStrategy_def UnshareStrategy_def split: sum.splits db_error.splits)
  have d2: "d2 = d1\<lparr>dbStrategies := map (\<lambda>q. if owned_strategy i u q then q\<lparr>sgShareToken := None, sgSharedAt := None\<rparr> else q) (dbStrategies d1)\<rparr>"
    by (rule update_strategy_Inr [OF r2])
  have "owned_strategy i u (?f s)" using s(2) by (simp add: owned_strategy_def)
  from old_link_dead [OF sound1 f this _ d2] have "GetSharedStrategy t d2 = Inl NoRows" by simp
  then show "handleGetSharedStrategy (registry math_Log) t d2 = Inl NotSaved"
    using assms(3,4) by (simp add: handleGetSharedStrategy_def)
qed

section \<open>Examples\<close>

text \<open>A user of the desk saves a basket of its two symbols.\<close>

definition duo :: "db \<Rightarrow> saved_error + db \<times> basket_body" where
  "duo = handleCreateBasket 4 5 7 ''duo'' ['' vale3'', ''PETR4'']"

lemma desk_sound: "saved_sound (registry (\<lambda>x. x)) desk_db"
  using tiny_canonical
  by (simp add: saved_sound_def strategies_sound_def baskets_sound_def unique_by_def desk_db_def no_rows_def desk_symbol_def strategy_ok_def
      maxStrategyName_def maxStrategyDescription_def)

lemma duo_saved:
  obtains d b where "duo desk_db = Inr (d, b)"
proof -
  have t: "readSavedBasket ['' vale3'', ''PETR4''] = Inr [''VALE3'', ''PETR4'']" by code_simp
  have f: "findBasket [''VALE3'', ''PETR4''] desk_db = Inr [desk_symbol 2 ''VALE3'', desk_symbol 1 ''PETR4'']"
    by (simp add: findSymbol_def Let_def GetSymbolByTicker_def symbols_with_def desk_db_def desk_symbol_def one_row_def
        trim_space_def is_space_def to_upper_def upper_char_def)
  have n: "normalizeBasketName ''duo'' = Inr ''duo''" by code_simp
  have r: "readBasketRequest ''duo'' ['' vale3'', ''PETR4''] desk_db = Inr (''duo'', [desk_symbol 2 ''VALE3'', desk_symbol 1 ''PETR4''])"
    unfolding readBasketRequest_def n t by (simp only: and_then_simps f saved_def sum.case)
  have "\<exists>x. createBasket 4 5 7 ''duo'' [desk_symbol 2 ''VALE3'', desk_symbol 1 ''PETR4''] desk_db = Inr x"
    by (simp add: createBasket_def CreateSymbolBasket_def Let_def insert_basket_def desk_db_def no_rows_def and_then_def user_known_def
        CreateSymbolBasketSymbols_def basket_rows_def enumerate_simps insert_basket_symbol_def symbol_known_def desk_symbol_def
        word_sless_alt)
  then obtain d row where "createBasket 4 5 7 ''duo'' [desk_symbol 2 ''VALE3'', desk_symbol 1 ''PETR4''] desk_db = Inr (d, row)" by auto
  then show ?thesis using that r
    by (simp add: duo_def handleCreateBasket_def and_then_def CountSymbolBaskets_def desk_db_def no_rows_def maxUserBaskets_def)
qed

lemma duo_step: "duo desk_db = Inr (d, b) \<Longrightarrow> saved_step reg 7 desk_db d"
  unfolding duo_def by (rule saved_step.SaveBasket)

theorem saved_stays_sound_witness:
  "\<exists>d b. duo desk_db = Inr (d, b) \<and> saved_sound (registry (\<lambda>x. x)) d"
proof -
  obtain d b where d: "duo desk_db = Inr (d, b)" by (rule duo_saved)
  have "(\<lambda>a b. \<exists>u. saved_step (registry (\<lambda>x. x)) u a b)\<^sup>*\<^sup>* desk_db d" using duo_step [OF d] by (intro r_into_rtranclp) blast
  from saved_stays_sound [OF desk_sound this] d show ?thesis by blast
qed

theorem others_change_nothing_witness:
  "\<exists>d b. duo desk_db = Inr (d, b) \<and> handleListBaskets 9 d = [] \<and> handleListStrategies 9 d = []"
proof -
  obtain d b where d: "duo desk_db = Inr (d, b)" by (rule duo_saved)
  have "(\<lambda>a b. \<exists>v. v \<noteq> 9 \<and> saved_step (registry (\<lambda>x. x)) v a b)\<^sup>*\<^sup>* desk_db d"
    using duo_step [OF d] by (intro r_into_rtranclp exI [of _ 7]) simp
  from others_change_nothing [OF desk_sound this] show ?thesis using d
    by (auto simp: handleListBaskets_def handleListStrategies_def ListSymbolBaskets_def ListStrategies_def desk_db_def no_rows_def)
qed

theorem link_opens_until_unshared_witness:
  "\<exists>d1 b d2. handleShareStrategy 9 ''tok'' (Some 8) 7 desk_db = Inr (d1, b) \<and> handleUnshareStrategy (Some 8) 7 d1 = Inr d2 \<and>
     (case handleGetSharedStrategy (registry (\<lambda>x. x)) ''tok'' d1 of Inl _ \<Rightarrow> False | Inr s \<Rightarrow> sdName s = ''tiny'' \<and> sdPlan s \<noteq> None) \<and>
     handleGetSharedStrategy (registry (\<lambda>x. x)) ''tok'' d2 = Inl NotSaved"
proof -
  have g: "GetStrategy 8 7 desk_db = Inr (hd (dbStrategies desk_db))" by (simp add: GetStrategy_def one_row_def desk_db_def)
  have t: "trim_space ''tok'' = ''tok''" "''tok'' \<noteq> []" by code_simp+
  have "\<exists>d1 b. handleShareStrategy 9 ''tok'' (Some 8) 7 desk_db = Inr (d1, b) \<and> (\<exists>d2. handleUnshareStrategy (Some 8) 7 d1 = Inr d2)"
    by (simp add: handleShareStrategy_def ShareStrategy_def update_strategy_def owned_strategy_def one_row_def and_then_def desk_db_def
        handleUnshareStrategy_def UnshareStrategy_def)
  then obtain d1 b d2 where d: "handleShareStrategy 9 ''tok'' (Some 8) 7 desk_db = Inr (d1, b)" "handleUnshareStrategy (Some 8) 7 d1 = Inr d2"
    by blast
  note l = link_opens_until_unshared [OF desk_sound g t d]
  have "sgName (hd (dbStrategies desk_db)) = ''tiny''" by (simp add: desk_db_def)
  then have "case handleGetSharedStrategy (registry (\<lambda>x. x)) ''tok'' d1 of Inl _ \<Rightarrow> False | Inr s \<Rightarrow> sdName s = ''tiny'' \<and> sdPlan s \<noteq> None"
    using l by (simp add: shown_def)
  then show ?thesis using d l by blast
qed


end
