(* ===== verification/Spec2Isabelle.thy ===== *)
theory Spec2Isabelle
  imports Windows Plans Lookahead Sizing Balance Futures Symbols Parsed_Plans Sweep Dispatch Ownership
begin

text \<open>
  A verification development of ALVO's back-testing service (the Go packages under src/internal): what a
  back-test computes, how a strategy is read and compiled, where its prices come from, and how runs and sweeps
  are queued, executed and stored.

  How the parts interact. A client posts a strategy, symbols and a range (package api). The strategy is parsed
  and compiled (package strategy, over the catalogue of package indicator), the symbols are checked against
  the symbol master (package market), a sweep is unfolded into many runs (package sweep), and the runs are queued
  in the database (package db). Workers claim runs, load candles, calendar and rates (package market), execute
  them (package backtest), and write the result or the failure; the winner of every fold of a walk-forward sweep
  is then tested out of sample. Users read, save and share strategies and baskets beside that.

  The theories, from the bottom up, with the code each one models:

  \<^item> \<open>Prelude\<close>: the collections of lemmas, the last elements of a list, and two locales, a machine that
    remembers a history and a machine that conserves a balance. \<open>Float64\<close>: float64 as NaN, infinities and
    dyadic rationals with correct rounding, conversions to integers, 64-bit money. \<open>Stdlib\<close> and \<open>Text\<close>: what
    is used of strings, strconv, sort, slices and unicode. \<open>Json\<close>: the values encoding/json decodes to.
  \<^item> Indicators (internal/indicator): \<open>Indicator_Base\<close> (ring.go, smooth.go, ema.go, wma.go, extreme.go, atr.go,
    adline.go), \<open>Overlays\<close>, \<open>Oscillators\<close>, \<open>Volatility\<close> (one record, constructor and method set for every file
    of an indicator), \<open>Indicators\<close> (indicator.go: the interface by dispatch, Feed, Compute, priming), \<open>Registry\<close>
    (registry.go, request.go). \<open>Windows\<close>: the rings and the monotone queues behind sliding extremes refine
    the window of the last values. \<open>Indicator_Contract\<close>: the contract of the interface as a locale, and every
    instance of the catalogue meets it.
  \<^item> Strategies (internal/strategy): \<open>Strategy_Spec\<close> (spec.go), \<open>Parser\<close> (parse.go, fault.go), \<open>Compile\<close>
    (compile.go), \<open>Rules\<close> and \<open>Tape\<close> (eval.go). \<open>Parsed_Inputs\<close>, \<open>Parsed_Rules\<close>, \<open>Parsed_Specs\<close>: the parser
    accepts the well-formed strategies and no other, and writing a strategy out and parsing it gives it back.
    \<open>Parsed_Plans\<close>: what it accepts compiles, and its search for loops is exact. \<open>Plans\<close>: a compiled plan
    is sound and its bounded tape answers as the whole history would.
  \<^item> Back-tests (internal/backtest): \<open>Candles\<close> (market/candle.go), \<open>Broker\<close> (broker.go), \<open>Actions\<close> (actions.go),
    \<open>Engine\<close> (engine.go, book.go, sizing.go), \<open>Results\<close> (run.go, metrics.go, stats.go, score.go), \<open>Benchmarks\<close>
    (benchmark.go), \<open>Runs\<close> (run.go, basket.go). \<open>Accounts\<close> and \<open>Balance\<close>: the books balance to the cent.
    \<open>Lookahead\<close>: nothing is decided with a later candle. \<open>Sizing\<close>: an entry is paid for.
  \<^item> Market data (internal/market): \<open>Rates\<close> (rates.go, borrow.go), \<open>Calendar\<close> (timeframe.go, calendar.go,
    candle.go), \<open>Resample\<close> (resample.go, service.go, page.go, prime.go), \<open>Futures\<close> (futures.go, gaps.go,
    service.go), \<open>Symbols\<close> (kind.go, contracts.go, indexes.go, plan.go).
  \<^item> Sweeps (internal/sweep): \<open>Sweep\<close> (sweep.go, axis.go, folds.go).
  \<^item> The queue and the requests: \<open>Jobs\<close> (the tables and the statements of db/backtests.sql.go, db/sweeps.sql.go and
    db/copyfrom.go), \<open>Runner\<close> (backtest/runner.go), \<open>Api\<close> (the handlers of api/backtests.go and api/sweeps.go
    that queue and delete), \<open>Saved\<close> (api/strategies.go, sharing.go, baskets.go and their statements).
    \<open>Queue\<close>: the order of service, the winner of a fold, and one contract for every table rows are added to.
    \<open>Cluster\<close>: workers, promotions, requeueing and requests interleaved in any order keep the tables
    sound, and as long as no worker is overtaken by the requeueing each run shows what one execution made of it and
    lives the abstract life of a job. \<open>Dispatch\<close>: what was queued compiles and is read
    with its basket. \<open>Ownership\<close>: what is saved stays sound, and no user changes what another is shown.

  Interfaces. Where a component relies on another, the laws it needs are the assumptions of a locale, which is
  interpreted on the definitions of the code: \<open>streaming_indicator\<close> (what the compiler and the tape ask of an
  indicator) on the methods by dispatch, \<open>catalogue\<close> (what the parser asks of the registry) on the registry,
  \<open>history_machine\<close> on rings, extremes and the tape, \<open>conserving_machine\<close> on the loop over the bars, and
  \<open>table\<close> on the statements that add runs, trades, equity points, sleeves, members and baskets.

  Conventions. A Go error is the left side of a sum, whose reason is a constructor; the texts of messages
  are not modelled. A nil pointer is \<open>None\<close>. Money is 64-bit and wraps; counters that count things in memory
  are unbounded. A loop over a condition is a function with its measure, and where the code has no bound
  of its own (the days of a calendar, the bucket ahead) it is a partial function that may have no value: the
  properties show that it has one. Nothing in the development has fuel. \<open>math.Log\<close> and \<open>math.Pow\<close> are not
  fixed by the language to the last bit and are arguments; so is a time zone, an offset at every instant. The
  clock, random identifiers and tokens are arguments of the step that draws them. A statement of the database is
  atomic and answers its rows or the constraint it violates; a transaction is one step. A NUMERIC price is kept
  as it is given, while the database keeps six decimals. The requeueing of abandoned runs in \<open>Cluster\<close> asks, as
  in the code, only when a run started, and may take it from a living worker. Where a property needs that it does not,
  it says so (\<open>orderly_step\<close>): \<open>staleAfter\<close>, thirty minutes, against \<open>runTimeout\<close>, ten, makes it likely but
  does not enforce it.

  Not modelled: the handlers that only read runs and sweeps and render them (api/reports.go, the lists and reads of
  api/backtests.go and api/sweeps.go, and the query parameters of api/params.go; the statements they use are in
  \<open>Jobs\<close>), authentication and configuration, the client of the market data provider and the ingestion
  loops, the statements of tables nothing above uses, HTTP routing and middleware, the encoding of JSON text,
  logging, and the front end. They call libraries and move bytes; none of the results above rests on them.
\<close>

end
